(* ===== verification/Prelude.thy ===== *)
theory Prelude
  imports Complex_Main
begin

text \<open>
  Shared vocabulary of the development: results with errors, the JavaScript values the
  TypeScript sources compute with, the string and list functions they call, and the lemmas
  about them that the component theories rely on.

  \<^item> A function of the source that may throw returns \<open>'e + 'a\<close>: \<open>Inl\<close> is the thrown error.
    \<open>checks\<close> runs a sequence of guard statements, \<open>forEach\<close> a loop of them, \<open>mapR\<close> a
    loop that collects results; all stop at the first throw.
  \<^item> A value of type \<open>unknown\<close> is a \<open>jsval\<close>. An object is its own properties in insertion
    order (\<open>props\<close>); the prototype chain is not modelled. Finite numbers are exact rationals.
  \<^item> Strings are lists of 8-bit characters, read as Latin-1 code units.
\<close>

named_theorems check_simps \<open>when a sequence of guards passes\<close>
named_theorems js_simps \<open>evaluation of JavaScript values\<close>


section \<open>Results\<close>

fun bindR :: "'e + 'a \<Rightarrow> ('a \<Rightarrow> 'e + 'b) \<Rightarrow> 'e + 'b" where
  "bindR (Inl e) f = Inl e"
| "bindR (Inr x) f = f x"

definition throwIf :: "bool \<Rightarrow> 'e \<Rightarrow> 'e + unit" where
  "throwIf b e = (if b then Inl e else Inr ())"

fun checks :: "('e + unit) list \<Rightarrow> 'e + unit" where
  "checks [] = Inr ()"
| "checks (c # cs) = (case c of Inl e \<Rightarrow> Inl e | Inr _ \<Rightarrow> checks cs)"

definition forEach :: "('a \<Rightarrow> 'e + unit) \<Rightarrow> 'a list \<Rightarrow> 'e + unit" where
  "forEach f xs = checks (map f xs)"

fun mapR :: "('a \<Rightarrow> 'e + 'b) \<Rightarrow> 'a list \<Rightarrow> 'e + 'b list" where
  "mapR f [] = Inr []"
| "mapR f (x # xs) =
     (case f x of Inl e \<Rightarrow> Inl e
      | Inr y \<Rightarrow> (case mapR f xs of Inl e \<Rightarrow> Inl e | Inr ys \<Rightarrow> Inr (y # ys)))"

definition isOk :: "'e + 'a \<Rightarrow> bool" where
  "isOk r = (case r of Inl _ \<Rightarrow> False | Inr _ \<Rightarrow> True)"

lemma isOk_simps [simp]: "isOk (Inr x)" "\<not> isOk (Inl e)"
  by (simp_all add: isOk_def)

lemma isOk_iff: "isOk r \<longleftrightarrow> (\<exists>x. r = Inr x)"
  by (cases r) auto

lemma isOk_unit: "isOk r \<longleftrightarrow> r = Inr ()"
  by (cases r) auto

lemma bindR_Inr_iff: "bindR m f = Inr y \<longleftrightarrow> (\<exists>x. m = Inr x \<and> f x = Inr y)"
  by (cases m) auto

lemma bindR_Inl_iff: "bindR m f = Inl e \<longleftrightarrow> m = Inl e \<or> (\<exists>x. m = Inr x \<and> f x = Inl e)"
  by (cases m) auto

lemma map_sum_InrD: "map_sum id f r = Inr y \<Longrightarrow> \<exists>x. r = Inr x \<and> f x = y"
  by (cases r) auto

lemma throwIf_Inr [simp, check_simps]: "throwIf b e = Inr () \<longleftrightarrow> \<not> b"
  by (simp add: throwIf_def)

lemma throwIf_Inl [simp]: "throwIf b e = Inl e' \<longleftrightarrow> b \<and> e' = e"
  by (auto simp: throwIf_def)

lemma throwIf_simps [simp]: "throwIf False e = Inr ()" "throwIf True e = Inl e"
  by (simp_all add: throwIf_def)

lemma checks_Inr: "checks cs = Inr () \<longleftrightarrow> (\<forall>c\<in>set cs. c = Inr ())"
  by (induction cs) (auto split: sum.splits)

lemma checks_Cons_Inr [check_simps]:
  "checks (c # cs) = Inr () \<longleftrightarrow> c = Inr () \<and> checks cs = Inr ()"
  by (simp add: checks_Inr del: checks.simps)

lemma checks_append: "checks (as @ bs) = (case checks as of Inl e \<Rightarrow> Inl e | Inr _ \<Rightarrow> checks bs)"
  by (induction as) (auto split: sum.splits)

text \<open>A failing sequence reports the first failing guard: everything before it passed.\<close>

lemma checks_Inl:
  "checks cs = Inl e \<longleftrightarrow>
     (\<exists>as bs. cs = as @ Inl e # bs \<and> (\<forall>c\<in>set as. c = Inr ()))"
proof (induction cs)
  case Nil
  then show ?case by simp
next
  case (Cons c cs)
  show ?case
  proof (cases c)
    case (Inl e')
    then show ?thesis by (auto simp: Cons_eq_append_conv)
  next
    case (Inr u)
    then have "checks (c # cs) = Inl e \<longleftrightarrow> checks cs = Inl e" by simp
    also have "\<dots> \<longleftrightarrow> (\<exists>as bs. cs = as @ Inl e # bs \<and> (\<forall>c\<in>set as. c = Inr ()))"
      by (rule Cons.IH)
    also have "\<dots> \<longleftrightarrow> (\<exists>as bs. c # cs = as @ Inl e # bs \<and> (\<forall>c\<in>set as. c = Inr ()))"
    proof (intro iffI; elim exE conjE)
      fix as bs assume "cs = as @ Inl e # bs" "\<forall>c\<in>set as. c = Inr ()"
      then show "\<exists>as bs. c # cs = as @ Inl e # bs \<and> (\<forall>c\<in>set as. c = Inr ())"
        using Inr by (intro exI [of _ "c # as"] exI [of _ bs]) auto
    next
      fix as bs assume "c # cs = as @ Inl e # bs" "\<forall>c\<in>set as. c = Inr ()"
      then show "\<exists>as bs. cs = as @ Inl e # bs \<and> (\<forall>c\<in>set as. c = Inr ())"
        using Inr by (cases as) auto
    qed
    finally show ?thesis .
  qed
qed

lemma checks_Cons_Inl:
  "checks (c # cs) = Inl e \<longleftrightarrow> c = Inl e \<or> c = Inr () \<and> checks cs = Inl e"
  by (auto split: sum.splits)

declare checks.simps(2) [simp del]

lemma checks_Inl_mem: "checks cs = Inl e \<Longrightarrow> Inl e \<in> set cs"
  by (auto simp: checks_Inl)

lemma forEach_Nil [simp]: "forEach f [] = Inr ()"
  by (simp add: forEach_def)

lemma forEach_Cons:
  "forEach f (x # xs) = (case f x of Inl e \<Rightarrow> Inl e | Inr _ \<Rightarrow> forEach f xs)"
  by (simp add: forEach_def checks.simps split: sum.split)

lemma forEach_Inr [check_simps]: "forEach f xs = Inr () \<longleftrightarrow> (\<forall>x\<in>set xs. f x = Inr ())"
  by (auto simp: forEach_def checks_Inr)

lemma forEach_Inl_mem: "forEach f xs = Inl e \<Longrightarrow> \<exists>x\<in>set xs. f x = Inl e"
  by (force simp: forEach_def dest!: checks_Inl_mem)

lemma mapR_Inr: "mapR f xs = Inr ys \<longleftrightarrow> list_all2 (\<lambda>x y. f x = Inr y) xs ys"
proof (induction xs arbitrary: ys)
  case Nil
  then show ?case by auto
next
  case (Cons x xs)
  show ?case
  proof (cases "f x")
    case (Inl e)
    then show ?thesis by (simp add: list_all2_Cons1)
  next
    case (Inr y)
    then have "mapR f (x # xs) = Inr ys \<longleftrightarrow> (\<exists>zs. mapR f xs = Inr zs \<and> ys = y # zs)"
      by (cases "mapR f xs") auto
    then show ?thesis
      using Inr by (simp add: Cons.IH list_all2_Cons1 conj_commute)
  qed
qed

lemma mapR_length: "mapR f xs = Inr ys \<Longrightarrow> length ys = length xs"
  by (auto simp: mapR_Inr list_all2_lengthD)

lemma mapR_Inr_mem: "mapR f xs = Inr ys \<Longrightarrow> y \<in> set ys \<Longrightarrow> \<exists>x\<in>set xs. f x = Inr y"
  by (force simp: mapR_Inr list_all2_conv_all_nth in_set_conv_nth)


section \<open>JavaScript values\<close>

datatype jsnum = NaN | PosInfinity | NegInfinity | Fin rat

datatype jsval =
    Undefined
  | Null
  | Bool bool
  | Num jsnum
  | Str string
  | Arr "jsval list"
  | Obj "(string \<times> jsval) list"

type_synonym props = "(string \<times> jsval) list"

text \<open>\<open>propOf ps k\<close> reads \<open>o[k]\<close> of an object; \<open>hasOwn\<close> is the \<open>in\<close> operator.\<close>

definition propOf :: "props \<Rightarrow> string \<Rightarrow> jsval" where
  "propOf ps k = (case map_of ps k of None \<Rightarrow> Undefined | Some v \<Rightarrow> v)"

definition hasOwn :: "props \<Rightarrow> string \<Rightarrow> bool" where
  "hasOwn ps k = (map_of ps k \<noteq> None)"

text \<open>
  \<open>getp v k\<close> is \<open>v?.[k]\<close>: undefined on null and undefined, an own property on an object. The
  sources read no built-in member of a primitive or an array through it.
\<close>

fun getp :: "jsval \<Rightarrow> string \<Rightarrow> jsval" where
  "getp (Obj ps) k = propOf ps k"
| "getp _ k = Undefined"

fun isPlainObject :: "jsval \<Rightarrow> bool" where
  "isPlainObject (Obj ps) = True"
| "isPlainObject _ = False"

fun isArray :: "jsval \<Rightarrow> bool" where
  "isArray (Arr xs) = True"
| "isArray _ = False"

text \<open>\<open>typeof v === 'object' && v !== null\<close>: objects and arrays.\<close>

fun isObjectType :: "jsval \<Rightarrow> bool" where
  "isObjectType (Obj ps) = True"
| "isObjectType (Arr xs) = True"
| "isObjectType _ = False"

fun isString :: "jsval \<Rightarrow> bool" where
  "isString (Str s) = True"
| "isString _ = False"

fun isBoolean :: "jsval \<Rightarrow> bool" where
  "isBoolean (Bool b) = True"
| "isBoolean _ = False"

text \<open>\<open>typeof v === 'string' && v.length > 0\<close>\<close>

fun isNonEmptyString :: "jsval \<Rightarrow> bool" where
  "isNonEmptyString (Str s) = (s \<noteq> [])"
| "isNonEmptyString _ = False"

fun truthy :: "jsval \<Rightarrow> bool" where
  "truthy Undefined = False"
| "truthy Null = False"
| "truthy (Bool b) = b"
| "truthy (Num n) = (n \<noteq> NaN \<and> n \<noteq> Fin 0)"
| "truthy (Str s) = (s \<noteq> [])"
| "truthy (Arr xs) = True"
| "truthy (Obj ps) = True"

text \<open>The nullish coalescing operator \<open>a ?? b\<close>.\<close>

fun coalesce :: "jsval \<Rightarrow> jsval \<Rightarrow> jsval" where
  "coalesce Undefined b = b"
| "coalesce Null b = b"
| "coalesce a b = a"

fun arrItems :: "jsval \<Rightarrow> jsval list" where
  "arrItems (Arr xs) = xs"
| "arrItems _ = []"

fun strOf :: "jsval \<Rightarrow> string" where
  "strOf (Str s) = s"
| "strOf _ = []"

text \<open>\<open>Number.isInteger\<close> with the integer it accepts.\<close>

fun integerOf :: "jsval \<Rightarrow> int option" where
  "integerOf (Num (Fin q)) = (if q = of_int \<lfloor>q\<rfloor> then Some \<lfloor>q\<rfloor> else None)"
| "integerOf _ = None"

definition jsInt :: "int \<Rightarrow> jsval" where
  "jsInt i = Num (Fin (of_int i))"

lemma integerOf_jsInt [simp]: "integerOf (jsInt i) = Some i"
  by (simp add: jsInt_def)

lemma integerOf_Some: "integerOf v = Some i \<longleftrightarrow> v = jsInt i"
proof
  assume "integerOf v = Some i"
  then show "v = jsInt i"
    by (cases v rule: integerOf.cases) (auto simp: jsInt_def split: if_splits)
qed simp

lemma jsInt_inject [simp]: "jsInt i = jsInt j \<longleftrightarrow> i = j"
  by (simp add: jsInt_def)

lemma isPlainObject_iff: "isPlainObject v \<longleftrightarrow> (\<exists>ps. v = Obj ps)"
  by (cases v) auto

lemma isArray_iff: "isArray v \<longleftrightarrow> (\<exists>xs. v = Arr xs)"
  by (cases v) auto

lemma isString_iff: "isString v \<longleftrightarrow> (\<exists>s. v = Str s)"
  by (cases v) auto

lemma isNonEmptyString_iff: "isNonEmptyString v \<longleftrightarrow> (\<exists>s. v = Str s \<and> s \<noteq> [])"
  by (cases v) auto

lemma isBoolean_iff: "isBoolean v \<longleftrightarrow> (\<exists>b. v = Bool b)"
  by (cases v) auto

text \<open>
  Writing a property keeps its position, a new one is appended; \<open>{...a, ...b}\<close> and
  \<open>Object.assign(a, b)\<close> write the properties of \<open>b\<close> one after the other.
\<close>

fun setProp :: "string \<Rightarrow> jsval \<Rightarrow> props \<Rightarrow> props" where
  "setProp k v [] = [(k, v)]"
| "setProp k v ((k', v') # ps) = (if k = k' then (k, v) # ps else (k', v') # setProp k v ps)"

fun spread :: "props \<Rightarrow> props \<Rightarrow> props" where
  "spread a [] = a"
| "spread a ((k, v) # b) = spread (setProp k v a) b"

text \<open>The properties of a spread operand: \<open>{...v}\<close> takes none from a non-object.\<close>

fun ownProps :: "jsval \<Rightarrow> props" where
  "ownProps (Obj ps) = ps"
| "ownProps _ = []"

definition wfProps :: "props \<Rightarrow> bool" where
  "wfProps ps = distinct (map fst ps)"

lemma map_of_setProp: "map_of (setProp k v ps) = (map_of ps)(k \<mapsto> v)"
  by (induction ps) (auto simp: fun_eq_iff)

lemma propOf_setProp: "propOf (setProp k v ps) k' = (if k' = k then v else propOf ps k')"
  by (simp add: propOf_def map_of_setProp)

lemma keys_setProp: "fst ` set (setProp k v ps) = insert k (fst ` set ps)"
  by (induction k v ps rule: setProp.induct) (simp_all add: insert_commute)

lemma wfProps_setProp: "wfProps ps \<Longrightarrow> wfProps (setProp k v ps)"
  by (induction k v ps rule: setProp.induct)
    (auto simp: wfProps_def keys_setProp [unfolded image_set [symmetric]] simp flip: image_set)

lemma wfProps_spread: "wfProps a \<Longrightarrow> wfProps (spread a b)"
  by (induction a b rule: spread.induct) (auto simp: wfProps_setProp)

lemma keys_spread: "fst ` set (spread a b) = fst ` set a \<union> fst ` set b"
  by (induction a b rule: spread.induct) (auto simp: keys_setProp)

lemma map_of_spread: "wfProps b \<Longrightarrow> map_of (spread a b) = map_of a ++ map_of b"
proof (induction a b rule: spread.induct)
  case (1 a)
  then show ?case by simp
next
  case (2 a k v b)
  have "map_of b k = None"
    using 2(2) by (auto simp: wfProps_def map_of_eq_None_iff)
  moreover have "map_of (spread (setProp k v a) b) = map_of (setProp k v a) ++ map_of b"
    using 2 by (simp add: wfProps_def)
  ultimately show ?case
    by (auto simp: map_of_setProp fun_eq_iff map_add_def split: option.splits)
qed

lemma propOf_spread:
  "wfProps b \<Longrightarrow> propOf (spread a b) k = (if hasOwn b k then propOf b k else propOf a k)"
  by (auto simp: propOf_def hasOwn_def map_of_spread map_add_def split: option.splits)

lemma propOf_Nil [simp]: "propOf [] k = Undefined"
  by (simp add: propOf_def)

lemma propOf_Cons [simp]: "propOf ((k, v) # ps) k' = (if k' = k then v else propOf ps k')"
  by (simp add: propOf_def)

lemma hasOwn_Nil [simp]: "\<not> hasOwn [] k"
  by (simp add: hasOwn_def)

lemma hasOwn_Cons [simp]: "hasOwn ((k, v) # ps) k' \<longleftrightarrow> k' = k \<or> hasOwn ps k'"
  by (simp add: hasOwn_def)

lemma hasOwn_keys: "hasOwn ps k \<longleftrightarrow> k \<in> fst ` set ps"
  by (simp add: hasOwn_def map_of_eq_None_iff)

lemma propOf_not_own: "\<not> hasOwn ps k \<Longrightarrow> propOf ps k = Undefined"
  by (simp add: hasOwn_def propOf_def)

lemma propOf_mem: "propOf ps k \<noteq> Undefined \<Longrightarrow> (k, propOf ps k) \<in> set ps"
  by (auto simp: propOf_def split: option.splits dest: map_of_SomeD)

lemma getp_ownProps: "getp v k = propOf (ownProps v) k"
  by (cases v) auto

lemmas [js_simps] = propOf_setProp propOf_spread coalesce.simps truthy.simps


section \<open>Strings\<close>

definition startsWith :: "string \<Rightarrow> string \<Rightarrow> bool" where
  "startsWith p s = (take (length p) s = p)"

lemma startsWith_append [simp]: "startsWith p (p @ s)"
  by (simp add: startsWith_def)

lemma startsWith_iff: "startsWith p s \<longleftrightarrow> (\<exists>t. s = p @ t)"
  by (metis append_take_drop_id startsWith_def startsWith_append)

text \<open>\<open>String.prototype.trim\<close> on the code units below 256.\<close>

definition isSpaceChar :: "char \<Rightarrow> bool" where
  "isSpaceChar c = ((of_char c :: nat) \<in> {9, 10, 11, 12, 13, 32, 160})"

definition trim :: "string \<Rightarrow> string" where
  "trim s = rev (dropWhile isSpaceChar (rev (dropWhile isSpaceChar s)))"

lemma trim_Nil_iff: "trim s = [] \<longleftrightarrow> (\<forall>c\<in>set s. isSpaceChar c)"
proof -
  have "trim s = [] \<longleftrightarrow> (\<forall>c\<in>set (dropWhile isSpaceChar s). isSpaceChar c)"
    by (simp add: trim_def)
  also have "\<dots> \<longleftrightarrow> (\<forall>c\<in>set s. isSpaceChar c)"
  proof (cases "dropWhile isSpaceChar s")
    case Nil
    then show ?thesis by (auto simp: dropWhile_eq_Nil_conv dest: set_dropWhileD)
  next
    case (Cons c cs)
    then have "\<not> isSpaceChar c" using hd_dropWhile [of isSpaceChar s] by simp
    moreover have "c \<in> set s" using Cons set_dropWhileD [of c isSpaceChar s] by simp
    ultimately show ?thesis using Cons by auto
  qed
  finally show ?thesis .
qed

text \<open>\<open>xs.join(sep)\<close> and \<open>s.split(c)\<close> for a one-character separator.\<close>

fun joinWith :: "string \<Rightarrow> string list \<Rightarrow> string" where
  "joinWith sep [] = []"
| "joinWith sep [x] = x"
| "joinWith sep (x # y # ys) = x @ sep @ joinWith sep (y # ys)"

fun splitOn :: "char \<Rightarrow> string \<Rightarrow> string list" where
  "splitOn c [] = [[]]"
| "splitOn c (x # xs) =
     (if x = c then [] # splitOn c xs
      else (case splitOn c xs of [] \<Rightarrow> [[x]] | w # ws \<Rightarrow> (x # w) # ws))"

lemma splitOn_not_Nil [simp]: "splitOn c s \<noteq> []"
  by (induction s) (auto split: list.splits)

lemma splitOn_absent: "c \<notin> set s \<Longrightarrow> splitOn c s = [s]"
  by (induction s) auto

lemma splitOn_append: "c \<notin> set w \<Longrightarrow> splitOn c (w @ c # s) = w # splitOn c s"
  by (induction w) auto

lemma splitOn_joinWith:
  "xs \<noteq> [] \<Longrightarrow> \<forall>x\<in>set xs. c \<notin> set x \<Longrightarrow> splitOn c (joinWith [c] xs) = xs"
  by (induction "[c]" xs rule: joinWith.induct) (auto simp: splitOn_absent splitOn_append)

text \<open>Decimal numerals: \<open>n.toString()\<close> and \<open>s.padStart(w, '0')\<close>.\<close>

definition digitChar :: "nat \<Rightarrow> char" where
  "digitChar d = char_of (48 + d)"

fun showNat :: "nat \<Rightarrow> string" where
  "showNat n = (if n < 10 then [digitChar n] else showNat (n div 10) @ [digitChar (n mod 10)])"

declare showNat.simps [simp del]

definition padStart :: "nat \<Rightarrow> char \<Rightarrow> string \<Rightarrow> string" where
  "padStart w c s = replicate (w - length s) c @ s"

definition readNat :: "string \<Rightarrow> nat" where
  "readNat s = foldl (\<lambda>n c. 10 * n + (of_char c - 48)) 0 s"

lemma digitChar_value: "d < 10 \<Longrightarrow> (of_char (digitChar d) :: nat) - 48 = d"
  by (simp add: digitChar_def)

lemma readNat_snoc: "readNat (s @ [c]) = 10 * readNat s + (of_char c - 48)"
  by (simp add: readNat_def)

lemma readNat_showNat [simp]: "readNat (showNat n) = n"
proof (induction n rule: showNat.induct)
  case (1 n)
  show ?case
  proof (cases "n < 10")
    case True
    then have "readNat (showNat n) = of_char (digitChar n) - 48"
      by (simp add: showNat.simps [of n] readNat_def)
    with True show ?thesis by (simp add: digitChar_value)
  next
    case False
    then have "readNat (showNat n) = 10 * (n div 10) + n mod 10"
      using 1 by (simp add: showNat.simps [of n] readNat_snoc digitChar_value)
    then show ?thesis by simp
  qed
qed

lemma readNat_zeros: "readNat (replicate k (CHR ''0'') @ s) = readNat s"
  by (induction k) (simp_all add: readNat_def)

lemma showNat_inject [simp]: "showNat m = showNat n \<longleftrightarrow> m = n"
  by (metis readNat_showNat)

lemma padStart_showNat_inject [simp]:
  "padStart w (CHR ''0'') (showNat m) = padStart w (CHR ''0'') (showNat n) \<longleftrightarrow> m = n"
  by (metis padStart_def readNat_showNat readNat_zeros)

text \<open>Every character of a numeral is a decimal digit.\<close>

lemma set_showNat: "c \<in> set (showNat n) \<Longrightarrow> \<exists>d<10. c = digitChar d"
proof (induction n rule: showNat.induct)
  case (1 n)
  show ?case
  proof (cases "n < 10")
    case True
    with 1(2) show ?thesis by (auto simp: showNat.simps [of n])
  next
    case False
    with 1(2) have "c \<in> set (showNat (n div 10)) \<or> c = digitChar (n mod 10)"
      by (auto simp: showNat.simps [of n])
    moreover have "n mod 10 < 10" by simp
    ultimately show ?thesis using False 1(1) by blast
  qed
qed


section \<open>Lists as insertion-ordered sets\<close>

text \<open>\<open>[...new Set(xs)]\<close> keeps the first occurrence of each element.\<close>

definition uniq :: "'a list \<Rightarrow> 'a list" where
  "uniq xs = rev (remdups (rev xs))"

lemma set_uniq [simp]: "set (uniq xs) = set xs"
  by (simp add: uniq_def)

lemma distinct_uniq [simp]: "distinct (uniq xs)"
  by (simp add: uniq_def)

lemma uniq_Nil_iff [simp]: "uniq xs = [] \<longleftrightarrow> xs = []"
  by (metis set_uniq set_empty)

end
