(* ===== verification/Feature_Policy.thy ===== *)
theory Feature_Policy
  imports Prelude
begin

text \<open>
  The closed taxonomy of runtime features and the policy documents about them:
  \<open>src/policy/feature-keys.ts\<close>, \<open>feature-port-map.ts\<close>, \<open>policy-shapes.ts\<close> and
  \<open>errors.ts\<close>. A policy document's free-form members are \<open>jsval\<close>s; an error keeps the typed
  code, the feature and a constructor for its message (with the interpolated values), since
  the sources assert on codes and never on message text.
\<close>

section \<open>Feature keys\<close>

datatype feature_key =
    RespondentPlace | Status | DocumentPresentation | FileUpload | CrossIssuerHistory
  | OfflineSubmit | Payment | Embed | Screener | PreparerFiling | TrustedReviewer
  | BringYourOwnAssistant | SafeAddress | DuressAware | MultiParty | RecordLifecycle

definition RUNTIME_FEATURE_KEYS :: "feature_key list" where
  "RUNTIME_FEATURE_KEYS =
     [RespondentPlace, Status, DocumentPresentation, FileUpload, CrossIssuerHistory,
      OfflineSubmit, Payment, Embed, Screener, PreparerFiling, TrustedReviewer,
      BringYourOwnAssistant, SafeAddress, DuressAware, MultiParty, RecordLifecycle]"

fun keyName :: "feature_key \<Rightarrow> string" where
  "keyName RespondentPlace = ''respondentPlace''"
| "keyName Status = ''status''"
| "keyName DocumentPresentation = ''documentPresentation''"
| "keyName FileUpload = ''fileUpload''"
| "keyName CrossIssuerHistory = ''crossIssuerHistory''"
| "keyName OfflineSubmit = ''offlineSubmit''"
| "keyName Payment = ''payment''"
| "keyName Embed = ''embed''"
| "keyName Screener = ''screener''"
| "keyName PreparerFiling = ''preparerFiling''"
| "keyName TrustedReviewer = ''trustedReviewer''"
| "keyName BringYourOwnAssistant = ''bringYourOwnAssistant''"
| "keyName SafeAddress = ''safeAddress''"
| "keyName DuressAware = ''duressAware''"
| "keyName MultiParty = ''multiParty''"
| "keyName RecordLifecycle = ''recordLifecycle''"

definition isRuntimeFeatureKey :: "string \<Rightarrow> bool" where
  "isRuntimeFeatureKey value = (value \<in> set (map keyName RUNTIME_FEATURE_KEYS))"

definition LOCALE_CONDITIONAL_FEATURE_KEYS :: "feature_key list" where
  "LOCALE_CONDITIONAL_FEATURE_KEYS = []"

definition isLocaleConditionalFeatureKey :: "string \<Rightarrow> bool" where
  "isLocaleConditionalFeatureKey value =
     (isRuntimeFeatureKey value \<and> value \<in> set (map keyName LOCALE_CONDITIONAL_FEATURE_KEYS))"

definition anyEnabledFeatureIsLocaleConditional :: "feature_key list \<Rightarrow> bool" where
  "anyEnabledFeatureIsLocaleConditional enabled =
     list_ex (\<lambda>key. key \<in> set LOCALE_CONDITIONAL_FEATURE_KEYS) enabled"

lemma set_RUNTIME_FEATURE_KEYS [simp]: "set RUNTIME_FEATURE_KEYS = UNIV"
proof -
  have "k \<in> set RUNTIME_FEATURE_KEYS" for k
    by (cases k) (simp_all add: RUNTIME_FEATURE_KEYS_def)
  then show ?thesis by blast
qed

lemma distinct_RUNTIME_FEATURE_KEYS [simp]: "distinct RUNTIME_FEATURE_KEYS"
  by (simp add: RUNTIME_FEATURE_KEYS_def)

lemma keyName_inject [simp]: "keyName j = keyName k \<longleftrightarrow> j = k"
proof -
  have "distinct (map keyName RUNTIME_FEATURE_KEYS)" by code_simp
  then have "inj keyName" by (simp add: distinct_map)
  then show ?thesis by (auto dest: injD)
qed

lemma isRuntimeFeatureKey_keyName [simp]: "isRuntimeFeatureKey (keyName k)"
  by (simp add: isRuntimeFeatureKey_def)

lemma isRuntimeFeatureKey_iff: "isRuntimeFeatureKey s \<longleftrightarrow> (\<exists>k. s = keyName k)"
  by (auto simp: isRuntimeFeatureKey_def)


section \<open>Composition port slots\<close>

datatype port_name =
    RespondentPlaceSource | StatusReader | AttachmentStore | RespondentHistorySource
  | OfflineSubmitQueue | PaymentRailAdapter | EmbedTransport | ScreenerDocumentSource
  | SafeAddressDirectory | DraftStore | IdentityProvider | SubmitTransport
  | LifecycleActionClient

datatype port_binding = OnePort port_name | Ports "port_name list"

fun FEATURE_PORT_MAP :: "feature_key \<Rightarrow> port_binding" where
  "FEATURE_PORT_MAP RespondentPlace = OnePort RespondentPlaceSource"
| "FEATURE_PORT_MAP Status = OnePort StatusReader"
| "FEATURE_PORT_MAP DocumentPresentation = OnePort RespondentPlaceSource"
| "FEATURE_PORT_MAP FileUpload = OnePort AttachmentStore"
| "FEATURE_PORT_MAP CrossIssuerHistory = OnePort RespondentHistorySource"
| "FEATURE_PORT_MAP OfflineSubmit = OnePort OfflineSubmitQueue"
| "FEATURE_PORT_MAP Payment = OnePort PaymentRailAdapter"
| "FEATURE_PORT_MAP Embed = OnePort EmbedTransport"
| "FEATURE_PORT_MAP Screener = OnePort ScreenerDocumentSource"
| "FEATURE_PORT_MAP PreparerFiling = Ports []"
| "FEATURE_PORT_MAP TrustedReviewer = Ports []"
| "FEATURE_PORT_MAP BringYourOwnAssistant = Ports []"
| "FEATURE_PORT_MAP SafeAddress = OnePort SafeAddressDirectory"
| "FEATURE_PORT_MAP DuressAware = Ports []"
| "FEATURE_PORT_MAP MultiParty = Ports [DraftStore, IdentityProvider, SubmitTransport]"
| "FEATURE_PORT_MAP RecordLifecycle = OnePort LifecycleActionClient"

definition featurePortNames :: "feature_key \<Rightarrow> port_name list" where
  "featurePortNames featureKey =
     (case FEATURE_PORT_MAP featureKey of OnePort p \<Rightarrow> [p] | Ports ps \<Rightarrow> ps)"


section \<open>Policy documents\<close>

datatype run_mode = Demo | Production

definition isCapabilityAvailability :: "jsval \<Rightarrow> bool" where
  "isCapabilityAvailability value =
     (value \<in> {Str ''available'', Str ''demo-stub'', Str ''unavailable''})"

definition isOrgFeaturePolicyMode :: "jsval \<Rightarrow> bool" where
  "isOrgFeaturePolicyMode value =
     (value \<in> {Str ''forbidden'', Str ''allowed'', Str ''default-on'', Str ''required''})"

definition isFormFeaturePolicyMode :: "jsval \<Rightarrow> bool" where
  "isFormFeaturePolicyMode value =
     (value \<in> {Str ''forbidden'', Str ''optional'', Str ''required''})"

text \<open>
  \<open>OrgRuntimePolicy\<close> and \<open>FormRuntimePolicy\<close> have the same members: a feature-mode object,
  per-feature limits and the record-lifecycle block.
\<close>

record OrgRuntimePolicy =
  features :: props
  limits :: jsval
  recordLifecycle :: jsval

type_synonym FormRuntimePolicy = OrgRuntimePolicy

definition getEmbedLimits :: "OrgRuntimePolicy \<Rightarrow> jsval" where
  "getEmbedLimits policy = getp (limits policy) ''embed''"

datatype DisabledCause =
    InstanceUnavailable | OrgForbidden | FormForbidden | OptionalNoInstance
  | DefaultOnNoInstance | ProductionRejectsDemoStub | NotRequested

text \<open>The record-lifecycle acts of \<open>keyof RecordLifecyclePolicy\<close>.\<close>

datatype lifecycle_act = Correctable | Withdrawable | Disputable


section \<open>Errors\<close>

datatype document_kind = InstanceDoc | OrgDoc | FormDoc

datatype conflict_kind = OrgRequiredFormForbidden | FormRequiredOrgForbidden

datatype unavailable_reason =
    MarkedUnavailable | DemoStubInProduction | UnknownAvailability jsval

datatype unsupported_reason = CapabilityReason unavailable_reason | TierExceeds jsval jsval

datatype embed_invalid =
    EmbedNotObject | EmbedOriginsNotArray | EmbedEntryNotString
  | EmbedEntryNotUrl string | EmbedEntryNotOrigin string

datatype multi_party_invalid =
    MpNotObject | MpTier | MpTooFewParties | MpPartyNotObject | MpRoleId
  | MpDuplicateRole string | MpRole | MpVisibilityScope
  | MpCardinalityObject | MpCardinalityMin | MpCardinalityMax | MpEmptyAudience string
  | MpInvitationChannel | MpDeadlineObject | MpExpirationAction | MpPerPartyDeadline
  | MpNotDeclared

datatype safe_address_invalid =
    SaNotObject | SaTier | SaClasses | SaDirectoryRef | SaFieldsNotArray | SaRendererHints
  | SaFieldNotObject | SaFieldPath | SaFieldClass
  | SaNoField | SaNoClass | SaNoJurisdiction | SaNoAudience
  | SaEmptyEffective jsval | SaUnauthorizedEffective jsval | SaInvisibleEffective jsval
  | SaNoPlaintext jsval | SaNoCommonAudience jsval

datatype lifecycle_invalid =
    RlEnabled lifecycle_act | RlFieldSetMissing | RlFieldSetEmpty | RlFieldSetEntry
  | RlBoolean lifecycle_act string | RlKernelMode | RlPostIntent | RlIssuerAcceptance
  | RlPartyScope | RlWindowObject lifecycle_act | RlWindowState lifecycle_act
  | RlClosesAt lifecycle_act | RlClosedAt lifecycle_act

datatype invalid_reason =
    CapabilityInvalid feature_key | UnknownFeatureKey string | InvalidMode jsval string
  | NotStringArray string | EmbedInvalid embed_invalid | MultiPartyInvalid multi_party_invalid
  | SafeAddressInvalid safe_address_invalid | LifecycleInvalid lifecycle_invalid

datatype embed_reason = HostOriginUnknown | HostOriginNotListed string

text \<open>\<open>JsTypeError\<close> is the engine's own error on a member of null or a non-iterable.\<close>

datatype RuntimePolicyError =
    UnsupportedRequiredFeature feature_key unsupported_reason
  | FeaturePolicyConflict feature_key conflict_kind
  | OrgPolicyUnsatisfied feature_key unavailable_reason
  | InvalidRuntimePolicy document_kind invalid_reason
  | EmbedOriginNotAllowed embed_reason
  | PaymentRequiresOnline
  | HiddenDefinitionRuntimeState string
  | JsTypeError

definition isRuntimePolicyError :: "RuntimePolicyError \<Rightarrow> bool" where
  "isRuntimePolicyError value = (value \<noteq> JsTypeError)"

end
