(* ===== verification/Policy_Validation.thy ===== *)
theory Policy_Validation
  imports Feature_Policy
begin

text \<open>
  The boot-time validation of the policy documents, \<open>validateInput\<close> of
  \<open>src/policy/resolver.ts\<close> and the validators it calls. A validator is the sequence of its
  guards in source order; it returns the first one that throws. The platform's \<open>URL\<close>
  constructor is the parameter \<open>url\<close>: \<open>None\<close> when it throws, \<open>Some\<close> of the parsed
  \<open>origin\<close> otherwise.
\<close>

text \<open>The record every resolution starts from (\<open>ResolveRuntimeFeaturesInput\<close>).\<close>

record ResolveRuntimeFeaturesInput =
  mode :: run_mode
  inst :: props
  org :: OrgRuntimePolicy
  form :: FormRuntimePolicy

abbreviation invalid :: "document_kind \<Rightarrow> invalid_reason \<Rightarrow> RuntimePolicyError" where
  "invalid \<equiv> InvalidRuntimePolicy"

abbreviation invalidEmbed :: "document_kind \<Rightarrow> embed_invalid \<Rightarrow> RuntimePolicyError" where
  "invalidEmbed layer r \<equiv> InvalidRuntimePolicy layer (EmbedInvalid r)"

abbreviation invalidMp :: "document_kind \<Rightarrow> multi_party_invalid \<Rightarrow> RuntimePolicyError" where
  "invalidMp layer r \<equiv> InvalidRuntimePolicy layer (MultiPartyInvalid r)"

abbreviation invalidSa :: "document_kind \<Rightarrow> safe_address_invalid \<Rightarrow> RuntimePolicyError" where
  "invalidSa layer r \<equiv> InvalidRuntimePolicy layer (SafeAddressInvalid r)"

abbreviation invalidRl :: "document_kind \<Rightarrow> lifecycle_invalid \<Rightarrow> RuntimePolicyError" where
  "invalidRl layer r \<equiv> InvalidRuntimePolicy layer (LifecycleInvalid r)"


section \<open>Shared shapes\<close>

definition validateOptionalStringArray ::
  "document_kind \<Rightarrow> string \<Rightarrow> jsval \<Rightarrow> RuntimePolicyError + unit" where
  "validateOptionalStringArray layer cite value =
     throwIf (value \<noteq> Undefined \<and>
              (\<not> isArray value \<or> \<not> list_all isNonEmptyString (arrItems value)))
       (invalid layer (NotStringArray cite))"

text \<open>The strings of an array of strings, the view the resolver takes of a validated array.\<close>

definition strItems :: "jsval \<Rightarrow> string list" where
  "strItems v = map strOf (arrItems v)"

definition isStringArray :: "jsval \<Rightarrow> bool" where
  "isStringArray v = (isArray v \<and> list_all isNonEmptyString (arrItems v))"

lemma list_all_isNonEmptyString:
  "list_all isNonEmptyString xs \<longleftrightarrow> (\<exists>ss. xs = map Str ss \<and> [] \<notin> set ss)"
proof (induction xs)
  case (Cons x xs)
  show ?case
  proof
    assume "list_all isNonEmptyString (x # xs)"
    then have "isNonEmptyString x" "list_all isNonEmptyString xs" by simp_all
    then obtain s ss where "x = Str s" "s \<noteq> []" "xs = map Str ss" "[] \<notin> set ss"
      using Cons.IH unfolding isNonEmptyString_iff by blast
    then have "x # xs = map Str (s # ss) \<and> [] \<notin> set (s # ss)" by simp
    then show "\<exists>ss. x # xs = map Str ss \<and> [] \<notin> set ss" by (rule exI [of _ "s # ss"])
  next
    assume "\<exists>ss. x # xs = map Str ss \<and> [] \<notin> set ss"
    then obtain ss where eq: "x # xs = map Str ss" and ne: "[] \<notin> set ss" by (elim exE conjE)
    from ne have "list_all isNonEmptyString (map Str ss)" by (induction ss) auto
    then show "list_all isNonEmptyString (x # xs)" by (simp only: eq)
  qed
qed simp

lemma validateOptionalStringArray_ok [check_simps]:
  "validateOptionalStringArray layer cite v = Inr () \<longleftrightarrow> v = Undefined \<or> isStringArray v"
  by (auto simp: validateOptionalStringArray_def isStringArray_def)

lemma isStringArray_conv: "isStringArray v \<longleftrightarrow> (\<exists>ss. v = Arr (map Str ss) \<and> [] \<notin> set ss)"
proof (cases v)
  case (Arr xs)
  then have "isStringArray v \<longleftrightarrow> list_all isNonEmptyString xs" by (simp add: isStringArray_def)
  also have "\<dots> \<longleftrightarrow> (\<exists>ss. xs = map Str ss \<and> [] \<notin> set ss)" by (rule list_all_isNonEmptyString)
  finally show ?thesis using Arr by simp
qed (simp_all add: isStringArray_def)

lemma strItems_map_Str [simp]: "strItems (Arr (map Str ss)) = ss"
  by (simp add: strItems_def comp_def)

lemma strItems_simps [simp]: "strItems Undefined = []" "strItems Null = []"
  by (simp_all add: strItems_def)


section \<open>Embed limits\<close>

definition validateEmbedOrigin ::
  "(string \<Rightarrow> string option) \<Rightarrow> jsval \<Rightarrow> RuntimePolicyError + unit" where
  "validateEmbedOrigin url entry =
     (if \<not> isNonEmptyString entry then Inl (invalidEmbed OrgDoc EmbedEntryNotString)
      else if entry = Str ''*'' then Inr ()
      else (case url (strOf entry) of
              None \<Rightarrow> Inl (invalidEmbed OrgDoc (EmbedEntryNotUrl (strOf entry)))
            | Some origin \<Rightarrow>
                throwIf (origin \<noteq> strOf entry)
                  (invalidEmbed OrgDoc (EmbedEntryNotOrigin (strOf entry)))))"

definition validateEmbedLimits ::
  "(string \<Rightarrow> string option) \<Rightarrow> jsval \<Rightarrow> RuntimePolicyError + unit" where
  "validateEmbedLimits url value =
     (if value = Undefined then Inr ()
      else checks
        [throwIf (\<not> isObjectType value) (invalidEmbed OrgDoc EmbedNotObject),
         throwIf (\<not> isArray (getp value ''allowedOrigins'')) (invalidEmbed OrgDoc EmbedOriginsNotArray),
         forEach (validateEmbedOrigin url) (arrItems (getp value ''allowedOrigins''))])"

text \<open>What the gate accepts as an allow-list entry: the wildcard or a serialized origin.\<close>

definition originEntry :: "(string \<Rightarrow> string option) \<Rightarrow> string \<Rightarrow> bool" where
  "originEntry url s = (s \<noteq> [] \<and> (s = ''*'' \<or> url s = Some s))"

lemma validateEmbedOrigin_ok [check_simps]:
  "validateEmbedOrigin url v = Inr () \<longleftrightarrow> (\<exists>s. v = Str s \<and> originEntry url s)"
  by (cases v) (auto simp: validateEmbedOrigin_def originEntry_def split: option.splits)

lemma validateEmbedLimits_ok [check_simps]:
  "validateEmbedLimits url v = Inr () \<longleftrightarrow>
     v = Undefined \<or>
     (\<exists>xs. getp v ''allowedOrigins'' = Arr xs \<and>
        (\<forall>x\<in>set xs. \<exists>s. x = Str s \<and> originEntry url s))"
  by (cases v) (auto simp: validateEmbedLimits_def check_simps isArray_iff)


section \<open>Multi-party limits\<close>

definition validateMultiPartyCardinality ::
  "document_kind \<Rightarrow> jsval \<Rightarrow> RuntimePolicyError + unit" where
  "validateMultiPartyCardinality layer value =
     (let min = getp value ''min''; max = getp value ''max'' in checks
        [throwIf (\<not> isPlainObject value) (invalidMp layer MpCardinalityObject),
         throwIf (case integerOf min of None \<Rightarrow> True | Some m \<Rightarrow> m < 1)
           (invalidMp layer MpCardinalityMin),
         throwIf (max \<noteq> Str ''unbounded'' \<and>
                  (case (integerOf max, integerOf min) of
                     (Some n, Some m) \<Rightarrow> n < m | _ \<Rightarrow> True))
           (invalidMp layer MpCardinalityMax)])"

definition validateParty ::
  "document_kind \<Rightarrow> string list \<Rightarrow> jsval \<Rightarrow> RuntimePolicyError + unit" where
  "validateParty layer roleIds party =
     (let roleId = getp party ''roleId''; role = getp party ''role'';
          audience = getp party ''safeAddressAudience''; visibleTo = getp party ''visibleTo''
      in checks
        [throwIf (\<not> isPlainObject party) (invalidMp layer MpPartyNotObject),
         throwIf (\<not> isNonEmptyString roleId) (invalidMp layer MpRoleId),
         throwIf (strOf roleId \<in> set roleIds) (invalidMp layer (MpDuplicateRole (strOf roleId))),
         throwIf (role \<noteq> Str ''coEqual'' \<and> role \<noteq> Str ''asymmetricPrimary'' \<and>
                  role \<noteq> Str ''asymmetricSecondary'' \<and> role \<noteq> Str ''guardianFor'')
           (invalidMp layer MpRole),
         throwIf (getp party ''visibilityScope'' \<noteq> Str ''shared'' \<and>
                  getp party ''visibilityScope'' \<noteq> Str ''scoped'')
           (invalidMp layer MpVisibilityScope),
         validateMultiPartyCardinality layer (getp party ''cardinality''),
         validateOptionalStringArray layer ''limits.multiParty.parties[].visibleTo'' visibleTo,
         validateOptionalStringArray layer ''limits.multiParty.parties[].editableBy''
           (getp party ''editableBy''),
         validateOptionalStringArray layer ''limits.multiParty.parties[].signedBy''
           (getp party ''signedBy''),
         validateOptionalStringArray layer ''limits.multiParty.parties[].safeAddressAudience''
           audience,
         throwIf (truthy audience \<and> truthy visibleTo \<and>
                  filter (\<lambda>entry. entry \<in> set (strItems visibleTo)) (strItems audience) = [])
           (invalidMp layer (MpEmptyAudience (strOf roleId)))])"

text \<open>The loop over the parties carries the set of role ids seen so far.\<close>

fun validateParties ::
  "document_kind \<Rightarrow> string list \<Rightarrow> jsval list \<Rightarrow> RuntimePolicyError + unit" where
  "validateParties layer roleIds [] = Inr ()"
| "validateParties layer roleIds (party # rest) =
     (case validateParty layer roleIds party of Inl e \<Rightarrow> Inl e
      | Inr _ \<Rightarrow> validateParties layer (strOf (getp party ''roleId'') # roleIds) rest)"

definition validateMultiPartyLimits ::
  "jsval \<Rightarrow> document_kind \<Rightarrow> RuntimePolicyError + unit" where
  "validateMultiPartyLimits value layer =
     (if value = Undefined then Inr ()
      else
        let tier = getp value ''tier''; parties = getp value ''parties'';
            channel = getp value ''invitationChannel'';
            deadline = getp value ''deadlinePolicy'';
            perParty = getp deadline ''perPartyDeadline''
        in checks
          [throwIf (\<not> isPlainObject value) (invalidMp layer MpNotObject),
           throwIf (tier \<noteq> Str ''coEqual'' \<and> tier \<noteq> Str ''asymmetric'') (invalidMp layer MpTier),
           throwIf (\<not> isArray parties \<or> length (arrItems parties) < 2)
             (invalidMp layer MpTooFewParties),
           validateParties layer [] (arrItems parties),
           throwIf (channel \<noteq> Undefined \<and> channel \<noteq> Str ''magic-link'' \<and>
                    channel \<noteq> Str ''wos-task'' \<and> channel \<noteq> Str ''out-of-band'')
             (invalidMp layer MpInvitationChannel),
           throwIf (deadline \<noteq> Undefined \<and> \<not> isPlainObject deadline)
             (invalidMp layer MpDeadlineObject),
           throwIf (deadline \<noteq> Undefined \<and>
                    getp deadline ''expirationAction'' \<noteq> Str ''void-submission'' \<and>
                    getp deadline ''expirationAction'' \<noteq> Str ''convert-to-partial'')
             (invalidMp layer MpExpirationAction),
           throwIf (deadline \<noteq> Undefined \<and> perParty \<noteq> Undefined \<and> \<not> isNonEmptyString perParty)
             (invalidMp layer MpPerPartyDeadline)])"

text \<open>The declarative reading of a valid cardinality, party and party list.\<close>

definition validCardinality :: "jsval \<Rightarrow> bool" where
  "validCardinality v \<longleftrightarrow>
     (\<exists>m. getp v ''min'' = jsInt m \<and> 1 \<le> m \<and>
        (getp v ''max'' = Str ''unbounded'' \<or> (\<exists>n. getp v ''max'' = jsInt n \<and> m \<le> n)))"

definition validPartyShape :: "jsval \<Rightarrow> bool" where
  "validPartyShape p \<longleftrightarrow>
     isPlainObject p \<and> isNonEmptyString (getp p ''roleId'') \<and>
     getp p ''role'' \<in> {Str ''coEqual'', Str ''asymmetricPrimary'', Str ''asymmetricSecondary'',
                       Str ''guardianFor''} \<and>
     getp p ''visibilityScope'' \<in> {Str ''shared'', Str ''scoped''} \<and>
     validCardinality (getp p ''cardinality'') \<and>
     (\<forall>k\<in>{''visibleTo'', ''editableBy'', ''signedBy'', ''safeAddressAudience''}.
        getp p k = Undefined \<or> isStringArray (getp p k)) \<and>
     (getp p ''safeAddressAudience'' \<noteq> Undefined \<and> getp p ''visibleTo'' \<noteq> Undefined \<longrightarrow>
        set (strItems (getp p ''safeAddressAudience'')) \<inter> set (strItems (getp p ''visibleTo'')) \<noteq> {})"

lemma getp_isPlainObject: "getp v k \<noteq> Undefined \<Longrightarrow> isPlainObject v"
  by (cases v) auto

lemma validateMultiPartyCardinality_ok [check_simps]:
  "validateMultiPartyCardinality layer v = Inr () \<longleftrightarrow> validCardinality v"
proof -
  have "isPlainObject v" if "integerOf (getp v ''min'') = Some m" for m
    using that by (intro getp_isPlainObject [of v "''min''"]) auto
  then show ?thesis
    by (auto simp: validateMultiPartyCardinality_def validCardinality_def check_simps Let_def
        integerOf_Some split: option.splits)
qed

lemma truthy_stringArray: "v = Undefined \<or> isStringArray v \<Longrightarrow> truthy v \<longleftrightarrow> v \<noteq> Undefined"
  by (cases v) (auto simp: isStringArray_def)

lemma filter_mem_Nil_iff: "filter (\<lambda>x. x \<in> set ys) xs = [] \<longleftrightarrow> set xs \<inter> set ys = {}"
  by (auto simp: filter_empty_conv)

lemma validateParty_ok [check_simps]:
  "validateParty layer seen p = Inr () \<longleftrightarrow>
     validPartyShape p \<and> strOf (getp p ''roleId'') \<notin> set seen"
  unfolding validateParty_def validPartyShape_def Let_def
  using truthy_stringArray [of "getp p ''safeAddressAudience''"]
    truthy_stringArray [of "getp p ''visibleTo''"]
  by (simp add: check_simps filter_mem_Nil_iff) blast

lemma validateParties_ok [check_simps]:
  "validateParties layer seen ps = Inr () \<longleftrightarrow>
     (\<forall>p\<in>set ps. validPartyShape p) \<and>
     distinct (map (\<lambda>p. strOf (getp p ''roleId'')) ps) \<and>
     set (map (\<lambda>p. strOf (getp p ''roleId'')) ps) \<inter> set seen = {}"
proof (induction ps arbitrary: seen)
  case (Cons p ps)
  show ?case
  proof (cases "validateParty layer seen p")
    case (Inl e)
    then have "\<not> (validPartyShape p \<and> strOf (getp p ''roleId'') \<notin> set seen)"
      using validateParty_ok [of layer seen p] by simp
    with Inl show ?thesis by auto
  next
    case (Inr u)
    then have "validPartyShape p" "strOf (getp p ''roleId'') \<notin> set seen"
      using validateParty_ok [of layer seen p] by auto
    with Inr show ?thesis by (auto simp: Cons.IH)
  qed
qed simp

text \<open>A valid multi-party block, as the resolved profile relies on it.\<close>

definition validMultiParty :: "jsval \<Rightarrow> bool" where
  "validMultiParty v \<longleftrightarrow>
     isPlainObject v \<and> getp v ''tier'' \<in> {Str ''coEqual'', Str ''asymmetric''} \<and>
     isArray (getp v ''parties'') \<and> 2 \<le> length (arrItems (getp v ''parties'')) \<and>
     (\<forall>p\<in>set (arrItems (getp v ''parties'')). validPartyShape p) \<and>
     distinct (map (\<lambda>p. strOf (getp p ''roleId'')) (arrItems (getp v ''parties''))) \<and>
     getp v ''invitationChannel'' \<in> {Undefined, Str ''magic-link'', Str ''wos-task'',
                                    Str ''out-of-band''} \<and>
     (getp v ''deadlinePolicy'' \<noteq> Undefined \<longrightarrow>
        isPlainObject (getp v ''deadlinePolicy'') \<and>
        getp (getp v ''deadlinePolicy'') ''expirationAction''
          \<in> {Str ''void-submission'', Str ''convert-to-partial''} \<and>
        (getp (getp v ''deadlinePolicy'') ''perPartyDeadline'' = Undefined \<or>
         isNonEmptyString (getp (getp v ''deadlinePolicy'') ''perPartyDeadline'')))"

lemma validateMultiPartyLimits_ok [check_simps]:
  "validateMultiPartyLimits v layer = Inr () \<longleftrightarrow> v = Undefined \<or> validMultiParty v"
  unfolding validateMultiPartyLimits_def validMultiParty_def Let_def
  by (simp add: check_simps not_less) blast


section \<open>Safe-address limits\<close>

definition isSafeAddressAccessClass :: "jsval \<Rightarrow> bool" where
  "isSafeAddressAccessClass value =
     (value = Str ''safe-address'' \<or> value = Str ''safe-contact'' \<or> value = Str ''safe-employer'')"

definition isSafeAddressReceiptPostureTier :: "jsval \<Rightarrow> bool" where
  "isSafeAddressReceiptPostureTier value =
     (value = Str ''verifier-grade'' \<or> value = Str ''phase-1-fallback'')"

definition validateSafeAddressField ::
  "document_kind \<Rightarrow> jsval \<Rightarrow> RuntimePolicyError + unit" where
  "validateSafeAddressField layer field = checks
     [throwIf (\<not> isPlainObject field) (invalidSa layer SaFieldNotObject),
      throwIf (\<not> isString (getp field ''path'') \<or>
               \<not> startsWith ''/'' (strOf (getp field ''path'')))
        (invalidSa layer SaFieldPath),
      throwIf (\<not> isSafeAddressAccessClass (getp field ''accessClass''))
        (invalidSa layer SaFieldClass),
      validateOptionalStringArray layer ''limits.safeAddress.fields[].visibleTo''
        (getp field ''visibleTo''),
      validateOptionalStringArray layer ''limits.safeAddress.fields[].plaintextAudiences''
        (getp field ''plaintextAudiences''),
      validateOptionalStringArray layer ''limits.safeAddress.fields[].effectiveAudiences''
        (getp field ''effectiveAudiences'')]"

definition validateSafeAddressLimits ::
  "jsval \<Rightarrow> document_kind \<Rightarrow> RuntimePolicyError + unit" where
  "validateSafeAddressLimits value layer =
     (if value = Undefined then Inr ()
      else
        let tier = getp value ''receiptPostureTier'';
            classes = getp value ''enabledClasses'';
            ref = getp value ''substituteAddressDirectoryRef'';
            fields = getp value ''fields'';
            hints = getp value ''rendererHints''
        in checks
          [throwIf (\<not> isPlainObject value) (invalidSa layer SaNotObject),
           throwIf (tier \<noteq> Undefined \<and> \<not> isSafeAddressReceiptPostureTier tier)
             (invalidSa layer SaTier),
           validateOptionalStringArray layer ''limits.safeAddress.enabledClasses'' classes,
           throwIf (isArray classes \<and> \<not> list_all isSafeAddressAccessClass (arrItems classes))
             (invalidSa layer SaClasses),
           validateOptionalStringArray layer ''limits.safeAddress.acpJurisdictionsAccepted''
             (getp value ''acpJurisdictionsAccepted''),
           validateOptionalStringArray layer ''limits.safeAddress.authorizedAudiences''
             (getp value ''authorizedAudiences''),
           throwIf (ref \<noteq> Undefined \<and> \<not> isNonEmptyString ref) (invalidSa layer SaDirectoryRef),
           throwIf (fields \<noteq> Undefined \<and> \<not> isArray fields) (invalidSa layer SaFieldsNotArray),
           forEach (validateSafeAddressField layer) (arrItems fields),
           throwIf (hints \<noteq> Undefined \<and> \<not> isPlainObject hints)
             (invalidSa layer SaRendererHints)])"

definition validSafeField :: "jsval \<Rightarrow> bool" where
  "validSafeField f \<longleftrightarrow>
     (\<exists>s. getp f ''path'' = Str s \<and> startsWith ''/'' s) \<and>
     isSafeAddressAccessClass (getp f ''accessClass'') \<and>
     (\<forall>k\<in>{''visibleTo'', ''plaintextAudiences'', ''effectiveAudiences''}.
        getp f k = Undefined \<or> isStringArray (getp f k))"

lemma validateSafeAddressField_ok [check_simps]:
  "validateSafeAddressField layer f = Inr () \<longleftrightarrow> validSafeField f"
proof -
  have "isPlainObject f" if "getp f ''path'' = Str s" for s
    using that by (intro getp_isPlainObject [of f "''path''"]) simp
  then show ?thesis
    unfolding validateSafeAddressField_def validSafeField_def
    by (auto simp: check_simps isString_iff)
qed

lemma validateSafeAddressLimits_fields:
  assumes "validateSafeAddressLimits v layer = Inr ()" "x \<in> set (arrItems (getp v ''fields''))"
  shows "validSafeField x"
proof -
  have "v \<noteq> Undefined" using assms(2) by auto
  then show ?thesis
    using assms by (auto simp: validateSafeAddressLimits_def Let_def check_simps)
qed

lemma validateSafeAddressLimits_arrays:
  assumes "validateSafeAddressLimits v layer = Inr ()"
    and "k \<in> {''enabledClasses'', ''acpJurisdictionsAccepted'', ''authorizedAudiences''}"
  shows "getp v k = Undefined \<or> isStringArray (getp v k)"
  using assms
  by (cases "v = Undefined") (auto simp: validateSafeAddressLimits_def Let_def check_simps)

lemma validateSafeAddressLimits_tier:
  assumes "validateSafeAddressLimits v layer = Inr ()"
  shows "getp v ''receiptPostureTier'' = Undefined \<or>
    isSafeAddressReceiptPostureTier (getp v ''receiptPostureTier'')"
  using assms
  by (cases "v = Undefined") (auto simp: validateSafeAddressLimits_def Let_def check_simps)

end
