(* ===== verification/Record_Lifecycle.thy ===== *)
theory Record_Lifecycle
  imports Policy_Validation
begin

text \<open>
  The record-lifecycle block of the policy documents (\<open>src/policy/resolver.ts\<close>): its
  validation per layer, the merge of the org and the form layer, and the resolved policy with
  its defaults. The lemmas give the declarative reading of the validators, the normal form of
  windows, and what the merge preserves of an org policy.
\<close>

section \<open>Validation\<close>

fun actName :: "lifecycle_act \<Rightarrow> string" where
  "actName Correctable = ''correctable''"
| "actName Withdrawable = ''withdrawable''"
| "actName Disputable = ''disputable''"

text \<open>\<open>k in v\<close> on a value already known to be an object or an array.\<close>

fun hasIn :: "jsval \<Rightarrow> string \<Rightarrow> bool" where
  "hasIn (Obj ps) k = hasOwn ps k"
| "hasIn _ k = False"

text \<open>\<open>for (const x of v)\<close>: arrays and strings iterate, everything else is a TypeError.\<close>

fun iterItems :: "jsval \<Rightarrow> jsval list option" where
  "iterItems (Arr xs) = Some xs"
| "iterItems (Str s) = Some (map (\<lambda>c. Str [c]) s)"
| "iterItems _ = None"

definition validateRecordLifecycleWindow ::
  "document_kind \<Rightarrow> lifecycle_act \<Rightarrow> jsval \<Rightarrow> RuntimePolicyError + unit" where
  "validateRecordLifecycleWindow source action value =
     (if value = Undefined then Inr ()
      else if \<not> isObjectType value then Inl (invalidRl source (RlWindowObject action))
      else if hasIn value ''state'' then
        let state = getp value ''state'' in checks
          [throwIf (state \<noteq> Str ''open'' \<and> state \<noteq> Str ''closes-at'' \<and> state \<noteq> Str ''closed'')
             (invalidRl source (RlWindowState action)),
           throwIf (state = Str ''closes-at'' \<and> \<not> isString (getp value ''closesAt''))
             (invalidRl source (RlClosesAt action)),
           throwIf (state = Str ''closed'' \<and> getp value ''closedAt'' \<noteq> Undefined \<and>
                    \<not> isString (getp value ''closedAt''))
             (invalidRl source (RlClosedAt action))]
      else throwIf (\<not> hasIn value ''closesAt'' \<or> \<not> isString (getp value ''closesAt''))
             (invalidRl source (RlClosesAt action)))"

definition validateFieldSet :: "document_kind \<Rightarrow> jsval \<Rightarrow> RuntimePolicyError + unit" where
  "validateFieldSet source fieldSet =
     (case iterItems fieldSet of None \<Rightarrow> Inl JsTypeError
      | Some paths \<Rightarrow>
          forEach (\<lambda>path. throwIf (\<not> isString path \<or> \<not> startsWith ''/'' (strOf path))
                     (invalidRl source RlFieldSetEntry)) paths)"

definition validateOptionalBoolean ::
  "document_kind \<Rightarrow> lifecycle_act \<Rightarrow> string \<Rightarrow> jsval \<Rightarrow> RuntimePolicyError + unit" where
  "validateOptionalBoolean source action property value =
     throwIf (value \<noteq> Undefined \<and> \<not> isBoolean value)
       (invalidRl source (RlBoolean action property))"

definition validateCorrectable :: "document_kind \<Rightarrow> jsval \<Rightarrow> RuntimePolicyError + unit" where
  "validateCorrectable source value =
     (let fieldSet = getp value ''correctableFieldSet''; on = (getp value ''enabled'' = Bool True)
      in checks
        [throwIf (on \<and> \<not> isArray fieldSet) (invalidRl source RlFieldSetMissing),
         throwIf (on \<and> arrItems fieldSet = []) (invalidRl source RlFieldSetEmpty),
         (if fieldSet \<noteq> Undefined then validateFieldSet source fieldSet else Inr ()),
         validateOptionalBoolean source Correctable ''requiresEvidence''
           (getp value ''requiresEvidence''),
         validateOptionalBoolean source Correctable ''requiresReason''
           (getp value ''requiresReason'')])"

definition validateWithdrawable :: "document_kind \<Rightarrow> jsval \<Rightarrow> RuntimePolicyError + unit" where
  "validateWithdrawable source value =
     (let kernelMode = getp value ''preDeterminationKernelMode'';
          intent = getp value ''postDeterminationIntent'';
          scope = getp value ''partyScope''
      in checks
        [validateOptionalBoolean source Withdrawable ''requiresReason''
           (getp value ''requiresReason''),
         validateOptionalBoolean source Withdrawable ''requiresIssuerAcceptance''
           (getp value ''requiresIssuerAcceptance''),
         throwIf (kernelMode \<noteq> Undefined \<and> kernelMode \<noteq> Str ''applicant-withdrawn'')
           (invalidRl source RlKernelMode),
         throwIf (intent \<noteq> Undefined \<and> intent \<noteq> Str ''rescission-requested'')
           (invalidRl source RlPostIntent),
         throwIf (intent = Str ''rescission-requested'' \<and>
                  getp value ''requiresIssuerAcceptance'' \<noteq> Bool True)
           (invalidRl source RlIssuerAcceptance),
         throwIf (scope \<noteq> Undefined \<and> scope \<noteq> Str ''any-party'' \<and>
                  scope \<noteq> Str ''all-parties-must-agree'')
           (invalidRl source RlPartyScope)])"

definition validateDisputable :: "document_kind \<Rightarrow> jsval \<Rightarrow> RuntimePolicyError + unit" where
  "validateDisputable source value = checks
     [validateOptionalBoolean source Disputable ''requiresEvidence''
        (getp value ''requiresEvidence''),
      validateOptionalBoolean source Disputable ''requiresReason'' (getp value ''requiresReason''),
      validateOptionalBoolean source Disputable ''signerOnly'' (getp value ''signerOnly'')]"

definition validateRecordLifecycleAction ::
  "document_kind \<Rightarrow> lifecycle_act \<Rightarrow> jsval \<Rightarrow> RuntimePolicyError + unit" where
  "validateRecordLifecycleAction source action value =
     (if value = Undefined then Inr ()
      else checks
        [throwIf (value = Null) JsTypeError,
         throwIf (\<not> isBoolean (getp value ''enabled'')) (invalidRl source (RlEnabled action)),
         validateRecordLifecycleWindow source action (getp value ''window''),
         (case action of
            Correctable \<Rightarrow> validateCorrectable source value
          | Withdrawable \<Rightarrow> validateWithdrawable source value
          | Disputable \<Rightarrow> validateDisputable source value)])"

definition validateRecordLifecyclePolicy ::
  "document_kind \<Rightarrow> jsval \<Rightarrow> RuntimePolicyError + unit" where
  "validateRecordLifecyclePolicy source value =
     (if value = Undefined then Inr ()
      else checks
        [throwIf (value = Null) JsTypeError,
         validateRecordLifecycleAction source Correctable (getp value ''correctable''),
         validateRecordLifecycleAction source Withdrawable (getp value ''withdrawable''),
         validateRecordLifecycleAction source Disputable (getp value ''disputable'')])"


section \<open>Merge and resolution\<close>

definition mergeActionPolicy :: "jsval \<Rightarrow> jsval \<Rightarrow> jsval" where
  "mergeActionPolicy orgAction formAction =
     (if \<not> truthy orgAction \<and> \<not> truthy formAction then Undefined
      else Obj (spread (spread [] (ownProps orgAction)) (ownProps formAction)))"

definition mergeRecordLifecyclePolicy :: "jsval \<Rightarrow> jsval \<Rightarrow> jsval" where
  "mergeRecordLifecyclePolicy orgPolicy formPolicy =
     (if \<not> truthy orgPolicy \<and> \<not> truthy formPolicy then Undefined
      else Obj
        [(''correctable'',
            mergeActionPolicy (getp orgPolicy ''correctable'') (getp formPolicy ''correctable'')),
         (''withdrawable'',
            mergeActionPolicy (getp orgPolicy ''withdrawable'') (getp formPolicy ''withdrawable'')),
         (''disputable'',
            mergeActionPolicy (getp orgPolicy ''disputable'') (getp formPolicy ''disputable''))])"

definition windowOpen :: jsval where
  "windowOpen = Obj [(''state'', Str ''open'')]"

definition windowClosesAt :: "jsval \<Rightarrow> jsval" where
  "windowClosesAt t = Obj [(''state'', Str ''closes-at''), (''closesAt'', t)]"

definition windowClosed :: "jsval \<Rightarrow> jsval" where
  "windowClosed t =
     Obj (if t = Undefined then [(''state'', Str ''closed'')]
          else [(''state'', Str ''closed''), (''closedAt'', t)])"

definition normalizeRecordLifecycleWindow :: "jsval \<Rightarrow> jsval" where
  "normalizeRecordLifecycleWindow value =
     (if value = Undefined then Undefined
      else if hasIn value ''state'' then
        (if getp value ''state'' = Str ''open'' then windowOpen
         else if getp value ''state'' = Str ''closed'' then windowClosed (getp value ''closedAt'')
         else windowClosesAt (getp value ''closesAt''))
      else if getp value ''closesAt'' = Str ''never'' then windowOpen
      else windowClosesAt (getp value ''closesAt''))"

text \<open>\<open>v ? Object.freeze([...v]) : undefined\<close>; spreading a non-iterable throws.\<close>

definition copyArray :: "jsval \<Rightarrow> RuntimePolicyError + jsval" where
  "copyArray v =
     (if truthy v then (case iterItems v of None \<Rightarrow> Inl JsTypeError | Some xs \<Rightarrow> Inr (Arr xs))
      else Inr Undefined)"

definition resolveCorrectable :: "jsval \<Rightarrow> RuntimePolicyError + jsval" where
  "resolveCorrectable m =
     bindR (copyArray (getp m ''correctableFieldSet'')) (\<lambda>fieldSet. Inr (Obj
       [(''enabled'', getp m ''enabled''),
        (''correctableFieldSet'', fieldSet),
        (''window'', normalizeRecordLifecycleWindow (getp m ''window'')),
        (''requiresEvidence'', coalesce (getp m ''requiresEvidence'') (Bool False)),
        (''requiresReason'', coalesce (getp m ''requiresReason'') (Bool True))]))"

definition resolveWithdrawable :: "jsval \<Rightarrow> jsval" where
  "resolveWithdrawable m = Obj
     [(''enabled'', getp m ''enabled''),
      (''window'', normalizeRecordLifecycleWindow (getp m ''window'')),
      (''requiresReason'', coalesce (getp m ''requiresReason'') (Bool True)),
      (''preDeterminationKernelMode'',
         coalesce (getp m ''preDeterminationKernelMode'') (Str ''applicant-withdrawn'')),
      (''postDeterminationIntent'', getp m ''postDeterminationIntent''),
      (''requiresIssuerAcceptance'',
         coalesce (getp m ''requiresIssuerAcceptance'') (Bool False)),
      (''partyScope'', coalesce (getp m ''partyScope'') (Str ''any-party''))]"

definition resolveDisputable :: "jsval \<Rightarrow> jsval" where
  "resolveDisputable m = Obj
     [(''enabled'', getp m ''enabled''),
      (''window'', normalizeRecordLifecycleWindow (getp m ''window'')),
      (''requiresEvidence'', coalesce (getp m ''requiresEvidence'') (Bool False)),
      (''requiresReason'', coalesce (getp m ''requiresReason'') (Bool True)),
      (''signerOnly'', coalesce (getp m ''signerOnly'') (Bool True))]"

definition resolveRecordLifecyclePolicy ::
  "jsval \<Rightarrow> jsval \<Rightarrow> RuntimePolicyError + jsval" where
  "resolveRecordLifecyclePolicy orgPolicy formPolicy =
     (let merged = mergeRecordLifecyclePolicy orgPolicy formPolicy;
          c = getp merged ''correctable''; w = getp merged ''withdrawable'';
          d = getp merged ''disputable''
      in if \<not> truthy merged then Inr Undefined
         else bindR (if truthy c then bindR (resolveCorrectable c) (\<lambda>r. Inr [(''correctable'', r)])
                     else Inr [])
           (\<lambda>cs. Inr (Obj (cs @
              (if truthy w then [(''withdrawable'', resolveWithdrawable w)] else []) @
              (if truthy d then [(''disputable'', resolveDisputable d)] else [])))))"


section \<open>What the validators accept\<close>

lemma validateOptionalBoolean_ok [check_simps]:
  "validateOptionalBoolean source action property v = Inr () \<longleftrightarrow> v = Undefined \<or> isBoolean v"
  by (auto simp: validateOptionalBoolean_def)

lemma validateFieldSet_ok [check_simps]:
  "validateFieldSet source v = Inr () \<longleftrightarrow>
     (\<exists>xs. iterItems v = Some xs \<and> (\<forall>x\<in>set xs. isString x \<and> startsWith ''/'' (strOf x)))"
  by (auto simp: validateFieldSet_def check_simps split: option.splits)

definition validAction :: "document_kind \<Rightarrow> lifecycle_act \<Rightarrow> jsval \<Rightarrow> bool" where
  "validAction source action v \<longleftrightarrow> validateRecordLifecycleAction source action v = Inr ()"

lemma validAction_enabled:
  assumes "validAction source action v" "v \<noteq> Undefined"
  shows "\<exists>ps b. v = Obj ps \<and> propOf ps ''enabled'' = Bool b"
  using assms
  by (cases v) (auto simp: validAction_def validateRecordLifecycleAction_def check_simps
      isBoolean_iff)

lemma validateRecordLifecyclePolicy_actions:
  assumes "validateRecordLifecyclePolicy source v = Inr ()"
  shows "validAction source Correctable (getp v ''correctable'')"
    "validAction source Withdrawable (getp v ''withdrawable'')"
    "validAction source Disputable (getp v ''disputable'')"
  using assms
  by (cases "v = Undefined"; simp add: validateRecordLifecyclePolicy_def check_simps validAction_def
      validateRecordLifecycleAction_def [of _ _ Undefined])+

lemma validAction_Correctable_fieldSet:
  assumes "validAction source Correctable v" "getp v ''correctableFieldSet'' \<noteq> Undefined"
  shows "\<exists>xs. iterItems (getp v ''correctableFieldSet'') = Some xs \<and>
    (\<forall>x\<in>set xs. isString x \<and> startsWith ''/'' (strOf x))"
proof -
  have "v \<noteq> Undefined" using assms(2) by auto
  with assms show ?thesis
    by (simp add: validAction_def validateRecordLifecycleAction_def validateCorrectable_def
        Let_def check_simps)
qed

lemma validAction_Correctable_enabled:
  assumes "validAction source Correctable v" "getp v ''enabled'' = Bool True"
  shows "\<exists>x xs. getp v ''correctableFieldSet'' = Arr (x # xs)"
proof -
  have "v \<noteq> Undefined" using assms(2) by auto
  with assms have "isArray (getp v ''correctableFieldSet'')"
    "arrItems (getp v ''correctableFieldSet'') \<noteq> []"
    by (simp_all add: validAction_def validateRecordLifecycleAction_def validateCorrectable_def
        Let_def check_simps)
  then show ?thesis
    by (cases "getp v ''correctableFieldSet''") (auto simp: neq_Nil_conv)
qed

lemma validAction_window:
  assumes "validAction source action v"
  shows "validateRecordLifecycleWindow source action (getp v ''window'') = Inr ()"
  using assms
  by (cases "v = Undefined")
    (simp_all add: validAction_def validateRecordLifecycleAction_def check_simps
      validateRecordLifecycleWindow_def [of _ _ Undefined])


section \<open>Windows\<close>

text \<open>The three window states of a resolved policy.\<close>

definition resolvedWindow :: "jsval \<Rightarrow> bool" where
  "resolvedWindow w \<longleftrightarrow>
     w = windowOpen \<or> (\<exists>t. w = windowClosesAt (Str t)) \<or> w = windowClosed Undefined \<or>
     (\<exists>t. w = windowClosed (Str t))"

lemma resolvedWindow_intros [simp]:
  "resolvedWindow windowOpen" "resolvedWindow (windowClosesAt (Str t))"
  "resolvedWindow (windowClosed Undefined)" "resolvedWindow (windowClosed (Str t))"
  unfolding resolvedWindow_def by metis+

lemma normalize_resolved:
  assumes "validateRecordLifecycleWindow source action v = Inr ()" "v \<noteq> Undefined"
  shows "resolvedWindow (normalizeRecordLifecycleWindow v)"
proof -
  consider (state) "hasIn v ''state''" | (legacy) "\<not> hasIn v ''state''" by blast
  then show ?thesis
  proof cases
    case state
    with assms have "getp v ''state'' = Str ''open'' \<or>
        getp v ''state'' = Str ''closes-at'' \<and> isString (getp v ''closesAt'') \<or>
        getp v ''state'' = Str ''closed'' \<and>
          (getp v ''closedAt'' = Undefined \<or> isString (getp v ''closedAt''))"
      by (auto simp: validateRecordLifecycleWindow_def Let_def check_simps split: if_splits)
    with state assms(2) show ?thesis
      unfolding isString_iff
      by (elim disjE conjE exE; simp add: normalizeRecordLifecycleWindow_def)
  next
    case legacy
    with assms have "isString (getp v ''closesAt'')"
      by (auto simp: validateRecordLifecycleWindow_def split: if_splits)
    with legacy assms(2) show ?thesis
      unfolding isString_iff
      by (elim exE; simp add: normalizeRecordLifecycleWindow_def)
  qed
qed

lemma normalize_idem:
  "resolvedWindow w \<Longrightarrow> normalizeRecordLifecycleWindow w = w"
  unfolding resolvedWindow_def
  by (elim disjE exE; simp add: normalizeRecordLifecycleWindow_def windowOpen_def
      windowClosesAt_def windowClosed_def)


section \<open>The merge\<close>

text \<open>
  \<open>wfObj\<close>: an object value has each key once, as every JavaScript object does.
\<close>

fun wfObj :: "jsval \<Rightarrow> bool" where
  "wfObj (Obj ps) = wfProps ps"
| "wfObj _ = True"

lemma getp_mergeAction:
  assumes "wfObj orgA" "wfObj formA" "truthy orgA \<or> truthy formA"
  shows "getp (mergeActionPolicy orgA formA) k =
    (if hasOwn (ownProps formA) k then getp formA k else getp orgA k)"
proof -
  have wf: "wfProps (ownProps orgA)" "wfProps (ownProps formA)"
    using assms(1,2) by (cases orgA; simp add: wfProps_def) (use assms(2) in \<open>cases formA; simp add: wfProps_def\<close>)
  have "getp (mergeActionPolicy orgA formA) k =
      (if hasOwn (ownProps formA) k then propOf (ownProps formA) k
       else if hasOwn (ownProps orgA) k then propOf (ownProps orgA) k else Undefined)"
    using assms(3) wf by (auto simp: mergeActionPolicy_def propOf_spread)
  then show ?thesis
    by (simp add: getp_ownProps propOf_not_own)
qed

lemma mergeAction_Undefined_form [simp]:
  "wfObj orgA \<Longrightarrow> truthy orgA \<Longrightarrow>
     getp (mergeActionPolicy orgA Undefined) k = getp orgA k"
  by (simp add: getp_mergeAction)

lemma truthy_validAction:
  "validAction source action v \<Longrightarrow> truthy v \<longleftrightarrow> v \<noteq> Undefined"
  using validAction_enabled [of source action v] by (cases v) auto

text \<open>The merged action takes each member from the form layer if it has it, else from the org.\<close>

lemma merged_member:
  assumes "wfObj a" "wfObj b" "P Undefined" "P (getp a k)" "P (getp b k)"
  shows "P (getp (mergeActionPolicy a b) k)"
proof (cases "truthy a \<or> truthy b")
  case True
  with assms show ?thesis by (simp add: getp_mergeAction)
next
  case False
  with assms show ?thesis by (simp add: mergeActionPolicy_def)
qed

lemma merged_window:
  assumes "wfObj a" "wfObj b" "validAction s act a" "validAction t act b"
  shows "normalizeRecordLifecycleWindow (getp (mergeActionPolicy a b) ''window'') = Undefined \<or>
    resolvedWindow (normalizeRecordLifecycleWindow (getp (mergeActionPolicy a b) ''window''))"
proof (rule merged_member [OF assms(1,2)])
  have "normalizeRecordLifecycleWindow w = Undefined \<or> resolvedWindow (normalizeRecordLifecycleWindow w)"
    if "validateRecordLifecycleWindow u act w = Inr ()" for u w
    using normalize_resolved [OF that] by (cases "w = Undefined") (auto simp: normalizeRecordLifecycleWindow_def)
  then show "normalizeRecordLifecycleWindow (getp a ''window'') = Undefined \<or>
      resolvedWindow (normalizeRecordLifecycleWindow (getp a ''window''))"
    and "normalizeRecordLifecycleWindow (getp b ''window'') = Undefined \<or>
      resolvedWindow (normalizeRecordLifecycleWindow (getp b ''window''))"
    using validAction_window [OF assms(3)] validAction_window [OF assms(4)] by blast+
qed (simp add: normalizeRecordLifecycleWindow_def)

text \<open>The field set of an enabled correction is the non-empty one its own layer declares.\<close>

lemma merged_fieldSet:
  assumes wf: "wfObj a" "wfObj b" and va: "validAction s Correctable a" "validAction t Correctable b"
    and on: "getp (mergeActionPolicy a b) ''enabled'' = Bool True"
  shows "\<exists>x xs. getp (mergeActionPolicy a b) ''correctableFieldSet'' = Arr (x # xs)"
proof (cases "b = Undefined")
  case True
  then have "truthy a" using on by (cases "truthy a") (auto simp: mergeActionPolicy_def)
  with True wf on show ?thesis
    using validAction_Correctable_enabled [OF va(1)] by simp
next
  case False
  then have tb: "truthy b" using truthy_validAction [OF va(2)] by simp
  obtain ps e where b: "b = Obj ps" "propOf ps ''enabled'' = Bool e"
    using validAction_enabled [OF va(2) False] by blast
  have own: "hasOwn ps k" if "propOf ps k \<noteq> Undefined" for k
    using that propOf_not_own by blast
  have m: "getp (mergeActionPolicy a b) k = propOf ps k" if "propOf ps k \<noteq> Undefined" for k
    using that own [OF that] tb wf b by (simp add: getp_mergeAction)
  have "getp b ''enabled'' = Bool True" using on m [of "''enabled''"] b by simp
  from validAction_Correctable_enabled [OF va(2) this] obtain x xs where
    "propOf ps ''correctableFieldSet'' = Arr (x # xs)" using b by auto
  then show ?thesis using m [of "''correctableFieldSet''"] by simp
qed

lemma merged_fieldSet_iter:
  assumes wf: "wfObj a" "wfObj b" and va: "validAction s Correctable a" "validAction t Correctable b"
  shows "isOk (copyArray (getp (mergeActionPolicy a b) ''correctableFieldSet''))"
proof (rule merged_member [OF wf])
  have "isOk (copyArray (getp v ''correctableFieldSet''))" if "validAction u Correctable v" for u v
    using validAction_Correctable_fieldSet [OF that]
    by (cases "getp v ''correctableFieldSet'' = Undefined") (auto simp: copyArray_def)
  then show "isOk (copyArray (getp a ''correctableFieldSet''))"
    and "isOk (copyArray (getp b ''correctableFieldSet''))" using va by blast+
qed (simp add: copyArray_def)

text \<open>An object whose lifecycle acts are well-formed objects.\<close>

definition wfLifecycle :: "jsval \<Rightarrow> bool" where
  "wfLifecycle v \<longleftrightarrow> (\<forall>k\<in>{''correctable'', ''withdrawable'', ''disputable''}. wfObj (getp v k))"

lemma resolveRecordLifecyclePolicy_shape:
  assumes "resolveRecordLifecyclePolicy o' f = Inr r" "truthy o' \<or> truthy f"
  shows "getp r ''correctable'' = Undefined \<or>
      resolveCorrectable (mergeActionPolicy (getp o' ''correctable'') (getp f ''correctable''))
        = Inr (getp r ''correctable'')"
    and "getp r ''withdrawable'' = Undefined \<or> getp r ''withdrawable'' =
      resolveWithdrawable (mergeActionPolicy (getp o' ''withdrawable'') (getp f ''withdrawable''))"
    and "getp r ''disputable'' = Undefined \<or> getp r ''disputable'' =
      resolveDisputable (mergeActionPolicy (getp o' ''disputable'') (getp f ''disputable''))"
  using assms
  by (auto simp: resolveRecordLifecyclePolicy_def mergeRecordLifecyclePolicy_def Let_def
      bindR_Inr_iff split: if_splits)

lemma resolveRecordLifecyclePolicy_total:
  assumes "validAction s Correctable (getp o' ''correctable'')"
    "validAction t Correctable (getp f ''correctable'')" "wfLifecycle o'" "wfLifecycle f"
  shows "\<exists>r. resolveRecordLifecyclePolicy o' f = Inr r"
proof -
  have "isOk (copyArray (getp (mergeActionPolicy (getp o' ''correctable'') (getp f ''correctable''))
      ''correctableFieldSet''))"
    using assms by (intro merged_fieldSet_iter) (auto simp: wfLifecycle_def)
  then show ?thesis
    by (auto simp: resolveRecordLifecyclePolicy_def mergeRecordLifecyclePolicy_def Let_def
        resolveCorrectable_def isOk_iff)
qed

lemma resolveCorrectable_getp:
  assumes "resolveCorrectable m = Inr r"
  shows "getp r ''enabled'' = getp m ''enabled''"
    "copyArray (getp m ''correctableFieldSet'') = Inr (getp r ''correctableFieldSet'')"
    "getp r ''window'' = normalizeRecordLifecycleWindow (getp m ''window'')"
  using assms by (auto simp: resolveCorrectable_def bindR_Inr_iff)

section \<open>Properties\<close>

definition sampleLifecycle :: "bool \<Rightarrow> jsval" where
  "sampleLifecycle accept = Obj [(''correctable'', Obj [(''enabled'', Bool True),
       (''correctableFieldSet'', Arr [Str ''/fullName'']),
       (''window'', Obj [(''closesAt'', Str ''never'')])]),
     (''withdrawable'', Obj ((''enabled'', Bool True) #
        (if accept then [(''postDeterminationIntent'', Str ''rescission-requested''),
           (''requiresIssuerAcceptance'', Bool True)]
         else [(''requiresIssuerAcceptance'', Bool False)])))]"

text \<open>C31. On validated layers the record-lifecycle block always resolves. An enabled correction
  carries a non-empty field set, and every window of the result is undefined or one of the
  three normal states (the legacy \<open>{closesAt}\<close> form is gone).\<close>

theorem lifecycle_resolution_wellformed:
  assumes vo: "validateRecordLifecyclePolicy OrgDoc orgL = Inr ()"
    and vf: "validateRecordLifecyclePolicy FormDoc formL = Inr ()"
    and wf: "wfLifecycle orgL" "wfLifecycle formL"
  shows "\<exists>r. resolveRecordLifecyclePolicy orgL formL = Inr r \<and>
    (getp (getp r ''correctable'') ''enabled'' = Bool True \<longrightarrow>
       (\<exists>x xs. getp (getp r ''correctable'') ''correctableFieldSet'' = Arr (x # xs))) \<and>
    (\<forall>act. getp (getp r (actName act)) ''window'' = Undefined \<or>
       resolvedWindow (getp (getp r (actName act)) ''window''))"
proof -
  note vs = validateRecordLifecyclePolicy_actions [OF vo] validateRecordLifecyclePolicy_actions [OF vf]
  have w: "wfObj (getp v ''correctable'')" "wfObj (getp v ''withdrawable'')" "wfObj (getp v ''disputable'')"
    if "v = orgL \<or> v = formL" for v using wf that by (auto simp: wfLifecycle_def)
  obtain r where r: "resolveRecordLifecyclePolicy orgL formL = Inr r"
    using resolveRecordLifecyclePolicy_total [OF vs(1) vs(4) wf] by blast
  show ?thesis
  proof (cases "truthy orgL \<or> truthy formL")
    case False
    then have "r = Undefined" using r
      by (simp add: resolveRecordLifecyclePolicy_def mergeRecordLifecyclePolicy_def)
    with r show ?thesis by simp
  next
    case True
    note sh = resolveRecordLifecyclePolicy_shape [OF r True]
    let ?c = "mergeActionPolicy (getp orgL ''correctable'') (getp formL ''correctable'')"
    have fs: "\<exists>x xs. getp (getp r ''correctable'') ''correctableFieldSet'' = Arr (x # xs)"
      if on: "getp (getp r ''correctable'') ''enabled'' = Bool True"
    proof -
      have rc: "resolveCorrectable ?c = Inr (getp r ''correctable'')" using sh(1) on by auto
      then have "getp ?c ''enabled'' = Bool True"
        using on resolveCorrectable_getp(1) [OF rc] by simp
      then obtain x xs where "getp ?c ''correctableFieldSet'' = Arr (x # xs)"
        using merged_fieldSet [OF w(1) w(1) vs(1) vs(4)] by auto
      with resolveCorrectable_getp(2) [OF rc]
      have "getp (getp r ''correctable'') ''correctableFieldSet'' = Arr (x # xs)"
        by (simp add: copyArray_def)
      then show ?thesis by blast
    qed
    have "getp (getp r (actName act)) ''window'' = Undefined \<or>
        resolvedWindow (getp (getp r (actName act)) ''window'')" for act
    proof (cases act)
      case Correctable
      then show ?thesis using sh(1) merged_window [OF w(1) w(1) vs(1) vs(4)]
        by (auto simp: resolveCorrectable_getp(3))
    next
      case Withdrawable
      then show ?thesis using sh(2) merged_window [OF w(2) w(2) vs(2) vs(5)]
        by (auto simp: resolveWithdrawable_def)
    next
      case Disputable
      then show ?thesis using sh(3) merged_window [OF w(3) w(3) vs(3) vs(6)]
        by (auto simp: resolveDisputable_def)
    qed
    with r fs show ?thesis by blast
  qed
qed

theorem lifecycle_resolution_wellformed_witness:
  "\<exists>r. resolveRecordLifecyclePolicy (sampleLifecycle True) Undefined = Inr r"
proof -
  have a: "validateRecordLifecyclePolicy OrgDoc (sampleLifecycle True) = Inr ()" by code_simp
  have b: "validateRecordLifecyclePolicy FormDoc Undefined = Inr ()" by code_simp
  have c: "wfLifecycle (sampleLifecycle True)"
    by (simp add: wfLifecycle_def sampleLifecycle_def wfProps_def)
  have d: "wfLifecycle Undefined" by (simp add: wfLifecycle_def)
  show ?thesis using lifecycle_resolution_wellformed [OF a b c d] by blast
qed

text \<open>The per-layer rule \<^emph>\<open>a rescission intent requires issuer acceptance\<close> does not survive the
  merge: two layers that both validate resolve to a withdrawal that requests rescission and does
  not require the issuer's acceptance, because the merged block is not validated again.\<close>

theorem merge_drops_issuer_acceptance:
  "validateRecordLifecyclePolicy OrgDoc (sampleLifecycle True) = Inr () \<and>
   validateRecordLifecyclePolicy FormDoc (sampleLifecycle False) = Inr () \<and>
   (\<exists>r. resolveRecordLifecyclePolicy (sampleLifecycle True) (sampleLifecycle False) = Inr r \<and>
      getp (getp r ''withdrawable'') ''enabled'' = Bool True \<and>
      getp (getp r ''withdrawable'') ''postDeterminationIntent'' = Str ''rescission-requested'' \<and>
      getp (getp r ''withdrawable'') ''requiresIssuerAcceptance'' = Bool False \<and>
      validateRecordLifecycleAction OrgDoc Withdrawable
        (mergeActionPolicy (getp (sampleLifecycle True) ''withdrawable'')
           (getp (sampleLifecycle False) ''withdrawable'')) \<noteq> Inr ())"
proof (intro conjI)
  show "validateRecordLifecyclePolicy OrgDoc (sampleLifecycle True) = Inr ()" by code_simp
  show "validateRecordLifecyclePolicy FormDoc (sampleLifecycle False) = Inr ()" by code_simp
  let ?r = "resolveRecordLifecyclePolicy (sampleLifecycle True) (sampleLifecycle False)"
  have "map_sum id (\<lambda>r. (getp (getp r ''withdrawable'') ''enabled'',
      getp (getp r ''withdrawable'') ''postDeterminationIntent'',
      getp (getp r ''withdrawable'') ''requiresIssuerAcceptance'')) ?r =
      Inr (Bool True, Str ''rescission-requested'', Bool False)" by code_simp
  moreover have "validateRecordLifecycleAction OrgDoc Withdrawable
      (mergeActionPolicy (getp (sampleLifecycle True) ''withdrawable'')
         (getp (sampleLifecycle False) ''withdrawable'')) = Inl (invalidRl OrgDoc RlIssuerAcceptance)"
    by code_simp
  ultimately show "\<exists>r. ?r = Inr r \<and>
      getp (getp r ''withdrawable'') ''enabled'' = Bool True \<and>
      getp (getp r ''withdrawable'') ''postDeterminationIntent'' = Str ''rescission-requested'' \<and>
      getp (getp r ''withdrawable'') ''requiresIssuerAcceptance'' = Bool False \<and>
      validateRecordLifecycleAction OrgDoc Withdrawable
        (mergeActionPolicy (getp (sampleLifecycle True) ''withdrawable'')
           (getp (sampleLifecycle False) ''withdrawable'')) \<noteq> Inr ()"
    by (cases ?r) auto
qed

end
