(* ===== verification/Safe_Address_Policy.thy ===== *)
theory Safe_Address_Policy
  imports Policy_Validation
begin

text \<open>
  Resolution of the safe-address block (\<open>resolveSafeAddressPolicy\<close> and its helpers in
  \<open>src/policy/resolver.ts\<close>): which audiences may see a protected value in plaintext, the
  receipt tier, the accepted jurisdictions. The lemmas show that no resolved field is readable
  by an audience outside the deployment's authorized set or outside the party policy, and that
  every resolved field keeps at least one audience.
\<close>

section \<open>Reading the two layers\<close>

definition stringValue :: "jsval \<Rightarrow> jsval" where
  "stringValue value = (if isNonEmptyString value then value else Undefined)"

definition stringArrayFrom :: "jsval \<Rightarrow> string list option" where
  "stringArrayFrom value =
     (if isArray value then Some (map strOf (filter isNonEmptyString (arrItems value))) else None)"

definition nonEmptyStringArrayFrom :: "jsval \<Rightarrow> string list option" where
  "nonEmptyStringArrayFrom value =
     (case stringArrayFrom value of
        Some (x # xs) \<Rightarrow> Some (x # xs) | _ \<Rightarrow> None)"

definition resolveSafeAddressAuthorizedAudiences :: "jsval \<Rightarrow> jsval \<Rightarrow> string list" where
  "resolveSafeAddressAuthorizedAudiences orgValue formValue =
     (let orgAudiences = (case stringArrayFrom orgValue of
                            Some xs \<Rightarrow> xs | None \<Rightarrow> [''issuer_verification''])
      in case nonEmptyStringArrayFrom formValue of
           None \<Rightarrow> orgAudiences
         | Some formAudiences \<Rightarrow> filter (\<lambda>entry. entry \<in> set orgAudiences) formAudiences)"

definition safeAddressTierRank :: "jsval \<Rightarrow> nat" where
  "safeAddressTierRank tier = (if tier = Str ''verifier-grade'' then 2 else 1)"

definition safeAddressLimitObject :: "jsval \<Rightarrow> jsval" where
  "safeAddressLimitObject value = (if isPlainObject value then value else Obj [])"

definition fieldPolicies :: "jsval \<Rightarrow> jsval list" where
  "fieldPolicies value = (if isArray value then arrItems value else [])"

definition freezeSafeAddressField :: "jsval \<Rightarrow> jsval" where
  "freezeSafeAddressField field =
     (let copy = (\<lambda>v. if truthy v then Arr (arrItems v) else Undefined) in Obj
        [(''path'', getp field ''path''),
         (''label'', getp field ''label''),
         (''accessClass'', getp field ''accessClass''),
         (''visibleTo'', copy (getp field ''visibleTo'')),
         (''plaintextAudiences'', copy (getp field ''plaintextAudiences'')),
         (''effectiveAudiences'', copy (getp field ''effectiveAudiences''))])"

definition safeAddressRendererHints :: "jsval \<Rightarrow> jsval" where
  "safeAddressRendererHints value =
     (let mask = stringValue (getp value ''maskRenderToken'');
          reveal = stringValue (getp value ''revealAffordanceLabel'')
      in if \<not> isPlainObject value then Undefined
         else if \<not> truthy mask \<and> \<not> truthy reveal then Undefined
         else Obj [(''maskRenderToken'', mask), (''revealAffordanceLabel'', reveal)])"


section \<open>Audiences of one field\<close>

text \<open>\<open>field.plaintextAudiences ?? defaultPlaintextAudiences\<close>\<close>

definition plaintextBase :: "jsval \<Rightarrow> string list \<Rightarrow> string list" where
  "plaintextBase field defaultPlaintextAudiences =
     (if getp field ''plaintextAudiences'' \<in> {Undefined, Null} then defaultPlaintextAudiences
      else strItems (getp field ''plaintextAudiences''))"

definition resolveSafeAddressFieldAudience ::
  "jsval \<Rightarrow> string list \<Rightarrow> RuntimePolicyError + jsval" where
  "resolveSafeAddressFieldAudience field defaultPlaintextAudiences =
     (let path = getp field ''path'';
          effective = getp field ''effectiveAudiences'';
          visibleTo = getp field ''visibleTo'';
          authorized = (\<lambda>entry. entry \<in> set defaultPlaintextAudiences);
          with = (\<lambda>ps. Obj (spread (ownProps field) ps))
      in if effective \<noteq> Undefined then
           (if strItems effective = [] then Inl (invalidSa FormDoc (SaEmptyEffective path))
            else if filter (\<lambda>entry. \<not> authorized entry) (strItems effective) \<noteq> []
              then Inl (invalidSa FormDoc (SaUnauthorizedEffective path))
            else if visibleTo \<noteq> Undefined \<and>
                filter (\<lambda>entry. entry \<notin> set (strItems visibleTo)) (strItems effective) \<noteq> []
              then Inl (invalidSa FormDoc (SaInvisibleEffective path))
            else Inr (with [(''plaintextAudiences'', effective), (''effectiveAudiences'', effective)]))
         else
           let plaintext = filter authorized (plaintextBase field defaultPlaintextAudiences);
               common = filter (\<lambda>entry. entry \<in> set plaintext) (strItems visibleTo)
           in if plaintext = [] then Inl (invalidSa FormDoc (SaNoPlaintext path))
              else if visibleTo \<noteq> Undefined then
                (if common = [] then Inl (invalidSa FormDoc (SaNoCommonAudience path))
                 else Inr (with [(''plaintextAudiences'', Arr (map Str common))]))
              else Inr (with [(''plaintextAudiences'', Arr (map Str plaintext))]))"

section \<open>The resolved block\<close>

record SafeAddressRuntimeConfig =
  enabledClasses :: "jsval list"
  receiptPostureTier :: jsval
  substituteAddressDirectoryRef :: jsval
  acpJurisdictionsAccepted :: "string list"
  authorizedAudiences :: "string list"
  saFields :: "jsval list"
  rendererHints :: jsval

definition resolveSafeAddressPolicy ::
  "jsval \<Rightarrow> jsval \<Rightarrow> RuntimePolicyError + SafeAddressRuntimeConfig" where
  "resolveSafeAddressPolicy orgLimit formLimit =
     (let o' = safeAddressLimitObject orgLimit;
          f = safeAddressLimitObject formLimit;
          fields = fieldPolicies (getp f ''fields'');
          safeClasses = (\<lambda>xs. filter isSafeAddressAccessClass (map Str xs));
          classes = (case nonEmptyStringArrayFrom (getp f ''enabledClasses'') of
                       Some xs \<Rightarrow> safeClasses xs
                     | None \<Rightarrow>
                         (case nonEmptyStringArrayFrom (getp o' ''enabledClasses'') of
                            Some xs \<Rightarrow> safeClasses xs
                          | None \<Rightarrow> uniq (map (\<lambda>field. getp field ''accessClass'') fields)));
          audiences = resolveSafeAddressAuthorizedAudiences
                        (getp o' ''authorizedAudiences'') (getp f ''authorizedAudiences'');
          jurisdictions = (case nonEmptyStringArrayFrom (getp f ''acpJurisdictionsAccepted'') of
                             Some xs \<Rightarrow> xs
                           | None \<Rightarrow>
                               (case stringArrayFrom (getp o' ''acpJurisdictionsAccepted'') of
                                  Some xs \<Rightarrow> xs | None \<Rightarrow> []));
          deploymentTier = coalesce (getp o' ''receiptPostureTier'') (Str ''phase-1-fallback'');
          tier = coalesce (getp f ''receiptPostureTier'') deploymentTier
      in if fields = [] then Inl (invalidSa FormDoc SaNoField)
         else if classes = [] then Inl (invalidSa FormDoc SaNoClass)
         else if jurisdictions = [] then Inl (invalidSa OrgDoc SaNoJurisdiction)
         else if audiences = [] then Inl (invalidSa OrgDoc SaNoAudience)
         else if safeAddressTierRank tier > safeAddressTierRank deploymentTier then
           Inl (UnsupportedRequiredFeature SafeAddress (TierExceeds tier deploymentTier))
         else bindR (mapR (\<lambda>field. resolveSafeAddressFieldAudience field audiences) fields)
           (\<lambda>resolvedFields. Inr
             \<lparr>enabledClasses = classes,
              receiptPostureTier = tier,
              substituteAddressDirectoryRef =
                coalesce (stringValue (getp f ''substituteAddressDirectoryRef''))
                  (coalesce (stringValue (getp o' ''substituteAddressDirectoryRef''))
                     (Str ''composition:safeAddressDirectory'')),
              acpJurisdictionsAccepted = jurisdictions,
              authorizedAudiences = audiences,
              saFields = map freezeSafeAddressField resolvedFields,
              rendererHints = safeAddressRendererHints
                (coalesce (getp f ''rendererHints'') (getp o' ''rendererHints''))\<rparr>))"


section \<open>Audience containment\<close>

text \<open>The audiences that may read a resolved field in plaintext, and its party-policy bound.\<close>

definition plaintextOf :: "jsval \<Rightarrow> string set" where
  "plaintextOf field = set (strItems (getp field ''plaintextAudiences''))"

definition withinPartyPolicy :: "jsval \<Rightarrow> string set \<Rightarrow> bool" where
  "withinPartyPolicy field A \<longleftrightarrow>
     (getp field ''visibleTo'' \<noteq> Undefined \<longrightarrow> A \<subseteq> set (strItems (getp field ''visibleTo'')))"

lemma wfProps_pairs [simp]: "wfProps []" "wfProps [(k, v)]"
  by (simp_all add: wfProps_def)

lemma wfProps_pair2 [simp]: "wfProps [(k, v), (k', v')] \<longleftrightarrow> k \<noteq> k'"
  by (auto simp: wfProps_def)

lemma resolveFieldAudience_sound:
  assumes valid: "validSafeField field"
    and res: "resolveSafeAddressFieldAudience field auds = Inr r"
  shows "plaintextOf r \<noteq> {} \<and> plaintextOf r \<subseteq> set auds \<and> withinPartyPolicy field (plaintextOf r) \<and>
    getp r ''visibleTo'' = getp field ''visibleTo'' \<and> getp r ''path'' = getp field ''path'' \<and>
    getp r ''accessClass'' = getp field ''accessClass'' \<and>
    isArray (getp r ''plaintextAudiences'')"
proof (cases "getp field ''effectiveAudiences'' = Undefined")
  case False
  let ?e = "getp field ''effectiveAudiences''"
  have e: "isStringArray ?e" using valid False by (auto simp: validSafeField_def)
  from res False have r: "r = Obj (spread (ownProps field)
      [(''plaintextAudiences'', ?e), (''effectiveAudiences'', ?e)])"
    and ne: "strItems ?e \<noteq> []"
    and sub: "set (strItems ?e) \<subseteq> set auds"
    and vis: "withinPartyPolicy field (set (strItems ?e))"
    by (auto simp: resolveSafeAddressFieldAudience_def Let_def withinPartyPolicy_def
        filter_empty_conv split: if_splits)
  have "plaintextOf r = set (strItems ?e)"
    by (simp add: r plaintextOf_def propOf_setProp)
  then show ?thesis
    using ne sub vis e by (simp add: r propOf_setProp getp_ownProps [of field] isStringArray_def)
next
  case True
  let ?p = "filter (\<lambda>entry. entry \<in> set auds) (plaintextBase field auds)"
  let ?c = "filter (\<lambda>entry. entry \<in> set ?p) (strItems (getp field ''visibleTo''))"
  have ne: "?p \<noteq> []" using res True
    by (auto simp: resolveSafeAddressFieldAudience_def Let_def split: if_splits)
  have pp: "set ?p \<subseteq> set auds" by auto
  define q where "q = (if getp field ''visibleTo'' = Undefined then ?p else ?c)"
  have r: "r = Obj (spread (ownProps field) [(''plaintextAudiences'', Arr (map Str q))])"
    and qne: "q \<noteq> []"
    using res True ne unfolding q_def resolveSafeAddressFieldAudience_def Let_def
    by (auto split: if_splits)
  have q: "set q \<subseteq> set auds" "withinPartyPolicy field (set q)"
    using pp by (auto simp: q_def withinPartyPolicy_def)
  have "plaintextOf r = set q"
    by (simp add: r plaintextOf_def propOf_setProp)
  then show ?thesis
    using q qne by (simp add: r propOf_setProp getp_ownProps [of field])
qed

lemma freeze_plaintext:
  assumes "isArray (getp field ''plaintextAudiences'')"
  shows "getp (freezeSafeAddressField field) ''plaintextAudiences'' = getp field ''plaintextAudiences''"
  using assms by (auto simp: freezeSafeAddressField_def Let_def isArray_iff)

lemma freeze_visibleTo:
  assumes "getp field ''visibleTo'' = Undefined \<or> isArray (getp field ''visibleTo'')"
  shows "getp (freezeSafeAddressField field) ''visibleTo'' = getp field ''visibleTo''"
  using assms by (auto simp: freezeSafeAddressField_def Let_def isArray_iff)

lemma freeze_path:
  "getp (freezeSafeAddressField field) ''path'' = getp field ''path''"
  "getp (freezeSafeAddressField field) ''accessClass'' = getp field ''accessClass''"
  by (simp_all add: freezeSafeAddressField_def Let_def)

lemma fieldPolicies_items [simp]: "fieldPolicies v = arrItems v"
  by (cases v) (simp_all add: fieldPolicies_def)

lemma safeAddressLimitObject_getp [simp]: "getp (safeAddressLimitObject v) k = getp v k"
  by (cases v) (simp_all add: safeAddressLimitObject_def)

lemma authorizedAudiences_within_org:
  "set (resolveSafeAddressAuthorizedAudiences orgV formV) \<subseteq>
     set (case stringArrayFrom orgV of Some xs \<Rightarrow> xs | None \<Rightarrow> [''issuer_verification''])"
  by (auto simp: resolveSafeAddressAuthorizedAudiences_def Let_def split: option.splits)

text \<open>What a successful resolution tells about each resolved field.\<close>

lemma resolveSafeAddressPolicy_fields:
  assumes valid: "validateSafeAddressLimits formL FormDoc = Inr ()"
    and res: "resolveSafeAddressPolicy orgL formL = Inr c"
    and mem: "r \<in> set (saFields c)"
  shows "plaintextOf r \<noteq> {} \<and> plaintextOf r \<subseteq> set (authorizedAudiences c) \<and>
    withinPartyPolicy r (plaintextOf r) \<and>
    (\<exists>field\<in>set (arrItems (getp formL ''fields'')). getp r ''path'' = getp field ''path'' \<and>
       getp r ''accessClass'' = getp field ''accessClass'' \<and> getp r ''visibleTo'' = getp field ''visibleTo'')"
proof -
  from res obtain rs where
    rs: "mapR (\<lambda>field. resolveSafeAddressFieldAudience field (authorizedAudiences c))
           (arrItems (getp formL ''fields'')) = Inr rs"
    and c: "saFields c = map freezeSafeAddressField rs"
    by (auto simp: resolveSafeAddressPolicy_def Let_def bindR_Inr_iff split: if_splits)
  from mem c obtain x where x: "x \<in> set rs" "r = freezeSafeAddressField x" by auto
  from mapR_Inr_mem [OF rs x(1)] obtain field where
    field: "field \<in> set (arrItems (getp formL ''fields''))"
      "resolveSafeAddressFieldAudience field (authorizedAudiences c) = Inr x" by blast
  have vf: "validSafeField field" by (rule validateSafeAddressLimits_fields [OF valid field(1)])
  note s = resolveFieldAudience_sound [OF vf field(2)]
  have vis: "getp x ''visibleTo'' = Undefined \<or> isArray (getp x ''visibleTo'')"
    using vf s by (auto simp: validSafeField_def isStringArray_def)
  have "plaintextOf r = plaintextOf x"
    using s by (simp add: x plaintextOf_def freeze_plaintext)
  then show ?thesis
    using s field(1) by (auto simp: x freeze_path freeze_visibleTo [OF vis] withinPartyPolicy_def)
qed

lemma resolveSafeAddressPolicy_tier:
  assumes "resolveSafeAddressPolicy orgL formL = Inr c"
  shows "safeAddressTierRank (receiptPostureTier c) \<le>
    safeAddressTierRank (coalesce (getp orgL ''receiptPostureTier'') (Str ''phase-1-fallback''))"
  using assms
  by (auto simp: resolveSafeAddressPolicy_def Let_def bindR_Inr_iff not_less split: if_splits)

lemma resolveSafeAddressPolicy_audiences:
  assumes "resolveSafeAddressPolicy orgL formL = Inr c"
  shows "authorizedAudiences c \<noteq> [] \<and> set (authorizedAudiences c) \<subseteq>
      set (case stringArrayFrom (getp orgL ''authorizedAudiences'') of
             Some xs \<Rightarrow> xs | None \<Rightarrow> [''issuer_verification''])"
proof -
  have "authorizedAudiences c = resolveSafeAddressAuthorizedAudiences
      (getp orgL ''authorizedAudiences'') (getp formL ''authorizedAudiences'')"
    "authorizedAudiences c \<noteq> []"
    using assms
    by (auto simp: resolveSafeAddressPolicy_def Let_def bindR_Inr_iff split: if_splits)
  then show ?thesis using authorizedAudiences_within_org by metis
qed

end
