(* ===== verification/Policy_Resolver.thy ===== *)
theory Policy_Resolver
  imports Record_Lifecycle Safe_Address_Policy
begin

text \<open>
  \<open>resolveRuntimeFeatures\<close> of \<open>src/policy/resolver.ts\<close>: it validates the documents, decides
  every feature key from the instance capability and the two policy modes, merges the limits and
  resolves the three structured blocks. The abstract specification is a request/permission
  table (\<open>requested\<close>, \<open>forbidden\<close>, \<open>canSatisfy\<close>); \<open>decide\<close> refines it branch by branch.
  The returned profile is immutable in the source (\<open>Object.freeze\<close>, \<open>freezeSet\<close>,
  \<open>freezeMap\<close>), which a HOL value is by itself.
\<close>

section \<open>Validation of the whole input\<close>

definition validateFeatureModes ::
  "document_kind \<Rightarrow> (jsval \<Rightarrow> bool) \<Rightarrow> props \<Rightarrow> RuntimePolicyError + unit" where
  "validateFeatureModes doc isMode fs =
     forEach (\<lambda>candidate. checks
       [throwIf (\<not> isRuntimeFeatureKey candidate) (invalid doc (UnknownFeatureKey candidate)),
        throwIf (propOf fs candidate \<noteq> Undefined \<and> \<not> isMode (propOf fs candidate))
          (invalid doc (InvalidMode (propOf fs candidate) candidate))])
     (map fst fs)"

definition validateInput ::
  "(string \<Rightarrow> string option) \<Rightarrow> ResolveRuntimeFeaturesInput \<Rightarrow> RuntimePolicyError + unit" where
  "validateInput url input = checks
     [forEach (\<lambda>key. throwIf (\<not> isCapabilityAvailability (propOf (inst input) (keyName key)))
                 (invalid InstanceDoc (CapabilityInvalid key))) RUNTIME_FEATURE_KEYS,
      validateFeatureModes OrgDoc isOrgFeaturePolicyMode (features (org input)),
      validateFeatureModes FormDoc isFormFeaturePolicyMode (features (form input)),
      validateEmbedLimits url (getp (limits (org input)) ''embed''),
      validateMultiPartyLimits (getp (limits (org input)) ''multiParty'') OrgDoc,
      validateMultiPartyLimits (getp (limits (form input)) ''multiParty'') FormDoc,
      validateSafeAddressLimits (getp (limits (org input)) ''safeAddress'') OrgDoc,
      validateSafeAddressLimits (getp (limits (form input)) ''safeAddress'') FormDoc,
      validateRecordLifecyclePolicy OrgDoc (recordLifecycle (org input)),
      validateRecordLifecyclePolicy FormDoc (recordLifecycle (form input))]"


section \<open>Deciding one feature\<close>

datatype disabled_message =
    ForbiddenBy feature_key document_kind | DefaultOnBut feature_key unavailable_reason
  | OptionalBut feature_key unavailable_reason | NotRequestedByAny feature_key

record DisabledReason =
  cause :: DisabledCause
  reasonText :: disabled_message

datatype Decision = Enabled | Disabled DisabledReason

definition canSatisfy :: "run_mode \<Rightarrow> jsval \<Rightarrow> bool" where
  "canSatisfy m capability =
     (if capability = Str ''available'' then True
      else if capability = Str ''demo-stub'' then m = Demo
      else False)"

definition reasonForUnavailable :: "run_mode \<Rightarrow> jsval \<Rightarrow> unavailable_reason" where
  "reasonForUnavailable m capability =
     (if capability = Str ''unavailable'' then MarkedUnavailable
      else if capability = Str ''demo-stub'' \<and> m = Production then DemoStubInProduction
      else UnknownAvailability capability)"

definition decide ::
  "run_mode \<Rightarrow> feature_key \<Rightarrow> jsval \<Rightarrow> jsval \<Rightarrow> jsval \<Rightarrow> RuntimePolicyError + Decision" where
  "decide m featureKey capability orgMode formMode =
     (let instanceCanDo = canSatisfy m capability;
          why = reasonForUnavailable m capability
      in if orgMode = Str ''required'' \<and> formMode = Str ''forbidden'' then
           Inl (FeaturePolicyConflict featureKey OrgRequiredFormForbidden)
         else if formMode = Str ''required'' \<and> orgMode = Str ''forbidden'' then
           Inl (FeaturePolicyConflict featureKey FormRequiredOrgForbidden)
         else if orgMode = Str ''required'' \<and> \<not> instanceCanDo then
           Inl (OrgPolicyUnsatisfied featureKey why)
         else if formMode = Str ''required'' then
           (if \<not> instanceCanDo then
              Inl (UnsupportedRequiredFeature featureKey (CapabilityReason why))
            else Inr Enabled)
         else if orgMode = Str ''required'' then Inr Enabled
         else if formMode = Str ''forbidden'' \<or> orgMode = Str ''forbidden'' then
           Inr (Disabled
             (if formMode = Str ''forbidden''
              then \<lparr>cause = FormForbidden, reasonText = ForbiddenBy featureKey FormDoc\<rparr>
              else \<lparr>cause = OrgForbidden, reasonText = ForbiddenBy featureKey OrgDoc\<rparr>))
         else if orgMode = Str ''default-on'' then
           (if instanceCanDo then Inr Enabled
            else Inr (Disabled \<lparr>cause = DefaultOnNoInstance,
                                reasonText = DefaultOnBut featureKey why\<rparr>))
         else if formMode = Str ''optional'' \<and>
                 (orgMode = Str ''allowed'' \<or> orgMode = Undefined) then
           (if instanceCanDo then Inr Enabled
            else Inr (Disabled \<lparr>cause = OptionalNoInstance,
                                reasonText = OptionalBut featureKey why\<rparr>))
         else Inr (Disabled \<lparr>cause = NotRequested, reasonText = NotRequestedByAny featureKey\<rparr>))"


section \<open>Limits and structured blocks\<close>

definition mergeFeatureLimits :: "jsval \<Rightarrow> jsval \<Rightarrow> jsval" where
  "mergeFeatureLimits orgLimit formLimit =
     (if orgLimit = Undefined then formLimit
      else if formLimit = Undefined then orgLimit
      else if isPlainObject orgLimit \<and> isPlainObject formLimit then
        Obj (spread (ownProps orgLimit) (ownProps formLimit))
      else formLimit)"

definition copyParty :: "jsval \<Rightarrow> jsval" where
  "copyParty party =
     Obj (setProp ''cardinality'' (Obj (ownProps (getp party ''cardinality''))) (ownProps party))"

definition resolveMultiPartyPolicy :: "jsval \<Rightarrow> RuntimePolicyError + jsval" where
  "resolveMultiPartyPolicy value =
     bindR (validateMultiPartyLimits value FormDoc) (\<lambda>_.
       if \<not> truthy value then Inl (invalidMp FormDoc MpNotDeclared)
       else Inr (Obj (spread (ownProps value)
         [(''invitationChannel'', coalesce (getp value ''invitationChannel'') (Str ''out-of-band'')),
          (''parties'', Arr (map copyParty (arrItems (getp value ''parties'')))),
          (''deadlinePolicy'',
             if truthy (getp value ''deadlinePolicy'')
             then Obj (ownProps (getp value ''deadlinePolicy'')) else Undefined)])))"


section \<open>Resolution\<close>

record ResolvedRuntimeProfile =
  profileMode :: run_mode
  enabled :: "feature_key list"
  disabled :: "(feature_key \<times> DisabledReason) list"
  profileLimits :: "(feature_key \<times> jsval) list"
  lifecyclePolicy :: jsval
  multiPartyPolicy :: jsval
  safeAddressPolicy :: "SafeAddressRuntimeConfig option"

definition decideFor ::
  "ResolveRuntimeFeaturesInput \<Rightarrow> feature_key \<Rightarrow> RuntimePolicyError + Decision" where
  "decideFor input key =
     decide (mode input) key (propOf (inst input) (keyName key))
       (propOf (features (org input)) (keyName key))
       (propOf (features (form input)) (keyName key))"

definition limitFor :: "ResolveRuntimeFeaturesInput \<Rightarrow> feature_key \<Rightarrow> jsval" where
  "limitFor input key =
     mergeFeatureLimits (getp (limits (org input)) (keyName key))
       (getp (limits (form input)) (keyName key))"

type_synonym accumulator =
  "feature_key list \<times> (feature_key \<times> DisabledReason) list \<times> (feature_key \<times> jsval) list"

fun resolveLoop ::
  "ResolveRuntimeFeaturesInput \<Rightarrow> feature_key list \<Rightarrow> accumulator \<Rightarrow>
   RuntimePolicyError + accumulator" where
  "resolveLoop input [] acc = Inr acc"
| "resolveLoop input (key # keys) (es, ds, ls) =
     (case decideFor input key of
        Inl e \<Rightarrow> Inl e
      | Inr Enabled \<Rightarrow>
          resolveLoop input keys
            (es @ [key], ds,
             if limitFor input key \<noteq> Undefined then ls @ [(key, limitFor input key)] else ls)
      | Inr (Disabled reason) \<Rightarrow> resolveLoop input keys (es, ds @ [(key, reason)], ls))"

definition limitOf :: "(feature_key \<times> jsval) list \<Rightarrow> feature_key \<Rightarrow> jsval" where
  "limitOf ls key = (case map_of ls key of None \<Rightarrow> Undefined | Some v \<Rightarrow> v)"

definition resolveRuntimeFeatures ::
  "(string \<Rightarrow> string option) \<Rightarrow> ResolveRuntimeFeaturesInput \<Rightarrow>
   RuntimePolicyError + ResolvedRuntimeProfile" where
  "resolveRuntimeFeatures url input =
     bindR (validateInput url input) (\<lambda>_.
     bindR (resolveLoop input RUNTIME_FEATURE_KEYS ([], [], [])) (\<lambda>(es, ds, ls).
     bindR (if RecordLifecycle \<in> set es
            then resolveRecordLifecyclePolicy (recordLifecycle (org input))
                   (recordLifecycle (form input))
            else Inr Undefined) (\<lambda>lifecycle.
     bindR (if MultiParty \<in> set es then resolveMultiPartyPolicy (limitOf ls MultiParty)
            else Inr Undefined) (\<lambda>multiParty.
     bindR (if SafeAddress \<in> set es
            then bindR (resolveSafeAddressPolicy (getp (limits (org input)) ''safeAddress'')
                          (getp (limits (form input)) ''safeAddress'')) (\<lambda>c. Inr (Some c))
            else Inr None) (\<lambda>safeAddress.
     Inr \<lparr>profileMode = mode input, enabled = es, disabled = ds, profileLimits = ls,
          lifecyclePolicy = lifecycle, multiPartyPolicy = multiParty,
          safeAddressPolicy = safeAddress\<rparr>)))))"

definition getMultiPartyRuntimeConfig :: "ResolvedRuntimeProfile \<Rightarrow> jsval" where
  "getMultiPartyRuntimeConfig profile =
     (if MultiParty \<in> set (enabled profile) then multiPartyPolicy profile else Undefined)"

definition getSafeAddressRuntimeConfig ::
  "ResolvedRuntimeProfile \<Rightarrow> SafeAddressRuntimeConfig option" where
  "getSafeAddressRuntimeConfig profile =
     (if SafeAddress \<notin> set (enabled profile) then None else safeAddressPolicy profile)"


section \<open>The abstract decision table\<close>

definition validOrgMode :: "jsval \<Rightarrow> bool" where
  "validOrgMode v \<longleftrightarrow> v = Undefined \<or> isOrgFeaturePolicyMode v"

definition validFormMode :: "jsval \<Rightarrow> bool" where
  "validFormMode v \<longleftrightarrow> v = Undefined \<or> isFormFeaturePolicyMode v"

definition forbidden :: "jsval \<Rightarrow> jsval \<Rightarrow> bool" where
  "forbidden orgMode formMode \<longleftrightarrow> orgMode = Str ''forbidden'' \<or> formMode = Str ''forbidden''"

definition mandated :: "jsval \<Rightarrow> jsval \<Rightarrow> bool" where
  "mandated orgMode formMode \<longleftrightarrow> orgMode = Str ''required'' \<or> formMode = Str ''required''"

definition requested :: "jsval \<Rightarrow> jsval \<Rightarrow> bool" where
  "requested orgMode formMode \<longleftrightarrow>
     orgMode \<in> {Str ''required'', Str ''default-on''} \<or>
     formMode \<in> {Str ''required'', Str ''optional''}"

lemma canSatisfy_iff:
  "canSatisfy m c \<longleftrightarrow> c = Str ''available'' \<or> c = Str ''demo-stub'' \<and> m = Demo"
  by (auto simp: canSatisfy_def)

lemmas mode_defs = validOrgMode_def isOrgFeaturePolicyMode_def validFormMode_def
  isFormFeaturePolicyMode_def

lemma decide_enabled_iff:
  assumes "validOrgMode om" "validFormMode fm"
  shows "decide m k c om fm = Inr Enabled \<longleftrightarrow>
    requested om fm \<and> \<not> forbidden om fm \<and> canSatisfy m c"
  using assms unfolding mode_defs
  by (elim disjE insertE emptyE; simp add: decide_def Let_def requested_def forbidden_def)

lemma decide_throws_iff:
  assumes "validOrgMode om" "validFormMode fm"
  shows "(\<exists>e. decide m k c om fm = Inl e) \<longleftrightarrow>
    mandated om fm \<and> (forbidden om fm \<or> \<not> canSatisfy m c)"
  using assms unfolding mode_defs
  by (elim disjE insertE emptyE; simp add: decide_def Let_def mandated_def forbidden_def)

text \<open>Which reason an optional feature carries when it falls off.\<close>

lemma decide_disabled_cause:
  assumes "validOrgMode om" "validFormMode fm" "decide m k c om fm = Inr (Disabled r)"
  shows "cause r =
    (if fm = Str ''forbidden'' then FormForbidden
     else if om = Str ''forbidden'' then OrgForbidden
     else if om = Str ''default-on'' then DefaultOnNoInstance
     else if fm = Str ''optional'' then OptionalNoInstance else NotRequested)"
  using assms unfolding mode_defs
  by (elim disjE insertE emptyE; auto simp: decide_def Let_def split: if_splits)

section \<open>The loop\<close>

lemma resolveLoop_ok:
  "resolveLoop input keys (es, ds, ls) = Inr (es', ds', ls') \<Longrightarrow>
     (\<forall>k\<in>set keys. isOk (decideFor input k)) \<and>
     es' = es @ filter (\<lambda>k. decideFor input k = Inr Enabled) keys \<and>
     map fst ds' = map fst ds @ filter (\<lambda>k. decideFor input k \<noteq> Inr Enabled) keys \<and>
     (\<forall>(k, r)\<in>set ds'. (k, r) \<in> set ds \<or> decideFor input k = Inr (Disabled r)) \<and>
     ls' = ls @ map (\<lambda>k. (k, limitFor input k))
       (filter (\<lambda>k. decideFor input k = Inr Enabled \<and> limitFor input k \<noteq> Undefined) keys)"
proof (induction input keys "(es, ds, ls)" arbitrary: es ds ls rule: resolveLoop.induct)
  case (1 input)
  then show ?case by auto
next
  case (2 input key keys es ds ls)
  show ?case
  proof (cases "decideFor input key")
    case (Inl e)
    with 2(3) show ?thesis by simp
  next
    case (Inr d)
    show ?thesis
    proof (cases d)
      case Enabled
      with Inr 2(1) [OF Inr Enabled] 2(3) show ?thesis by (cases "limitFor input key = Undefined") auto
    next
      case (Disabled r)
      with Inr 2(2) [OF Inr Disabled] 2(3) show ?thesis by auto
    qed
  qed
qed

lemma resolveLoop_total:
  "\<forall>k\<in>set keys. isOk (decideFor input k) \<Longrightarrow> isOk (resolveLoop input keys acc)"
proof (induction input keys acc rule: resolveLoop.induct)
  case (2 input key keys es ds ls)
  show ?case
  proof (cases "decideFor input key")
    case (Inl e)
    with 2(3) show ?thesis by simp
  next
    case (Inr d)
    with 2 show ?thesis by (cases d) auto
  qed
qed simp

text \<open>Validated documents hold valid modes at every key.\<close>

lemma validateFeatureModes_ok:
  assumes "validateFeatureModes doc isMode fs = Inr ()"
  shows "propOf fs k = Undefined \<or> isMode (propOf fs k)"
proof (cases "propOf fs k = Undefined")
  case False
  then have "k \<in> set (map fst fs)" using propOf_mem [of fs k] by force
  with assms False show ?thesis
    by (auto simp: validateFeatureModes_def check_simps)
qed simp

lemma validateFeatureModes_known:
  assumes "validateFeatureModes doc isMode fs = Inr ()" "k \<in> fst ` set fs"
  shows "isRuntimeFeatureKey k"
  using assms by (auto simp: validateFeatureModes_def check_simps)

lemma validateInput_modes:
  assumes "validateInput url input = Inr ()"
  shows "validOrgMode (propOf (features (org input)) k)"
    "validFormMode (propOf (features (form input)) k)"
    "isCapabilityAvailability (propOf (inst input) (keyName key))"
proof -
  from assms have v: "validateFeatureModes OrgDoc isOrgFeaturePolicyMode (features (org input)) = Inr ()"
    "validateFeatureModes FormDoc isFormFeaturePolicyMode (features (form input)) = Inr ()"
    by (simp_all add: validateInput_def check_simps)
  show "validOrgMode (propOf (features (org input)) k)"
    using validateFeatureModes_ok [OF v(1)] by (simp add: validOrgMode_def)
  show "validFormMode (propOf (features (form input)) k)"
    using validateFeatureModes_ok [OF v(2)] by (simp add: validFormMode_def)
  show "isCapabilityAvailability (propOf (inst input) (keyName key))"
    using assms by (simp add: validateInput_def check_simps)
qed

lemma resolve_inv:
  assumes "resolveRuntimeFeatures url input = Inr p"
  shows "validateInput url input = Inr ()"
    and "resolveLoop input RUNTIME_FEATURE_KEYS ([], [], []) =
           Inr (enabled p, disabled p, profileLimits p)"
    and "profileMode p = mode input"
    and "RecordLifecycle \<in> set (enabled p) \<Longrightarrow>
           resolveRecordLifecyclePolicy (recordLifecycle (org input)) (recordLifecycle (form input))
             = Inr (lifecyclePolicy p)"
    and "MultiParty \<in> set (enabled p) \<Longrightarrow>
           resolveMultiPartyPolicy (limitOf (profileLimits p) MultiParty)
             = Inr (multiPartyPolicy p)"
    and "SafeAddress \<in> set (enabled p) \<Longrightarrow> \<exists>c. safeAddressPolicy p = Some c \<and>
           resolveSafeAddressPolicy (getp (limits (org input)) ''safeAddress'')
             (getp (limits (form input)) ''safeAddress'') = Inr c"
  using assms
  by (auto simp: resolveRuntimeFeatures_def bindR_Inr_iff split: if_splits)

lemmas resolve_loop = resolveLoop_ok [OF resolve_inv(2), simplified]

lemma resolve_enabled_iff:
  assumes "resolveRuntimeFeatures url input = Inr p"
  shows "k \<in> set (enabled p) \<longleftrightarrow> decideFor input k = Inr Enabled"
  using resolve_loop [OF assms] by simp


section \<open>Properties\<close>

text \<open>A deployment used by the witnesses: a few features served, a few asked for.\<close>

definition sampleCaps :: props where
  "sampleCaps = map (\<lambda>k. (keyName k,
     if k \<in> {Payment, FileUpload, RecordLifecycle, MultiParty, SafeAddress, Embed} then Str ''available''
     else if k = OfflineSubmit then Str ''demo-stub'' else Str ''unavailable'')) RUNTIME_FEATURE_KEYS"

definition sampleOrg :: OrgRuntimePolicy where
  "sampleOrg = \<lparr>features = [(''payment'', Str ''required''), (''offlineSubmit'', Str ''default-on''),
     (''fileUpload'', Str ''allowed''), (''safeAddress'', Str ''allowed'')],
     limits = Obj [(''safeAddress'', Obj [(''acpJurisdictionsAccepted'', Arr [Str ''CA-ACP'']),
       (''authorizedAudiences'', Arr [Str ''issuer'', Str ''court''])])],
     recordLifecycle = Undefined\<rparr>"

definition sampleForm :: FormRuntimePolicy where
  "sampleForm = \<lparr>features = [(''fileUpload'', Str ''optional''), (''safeAddress'', Str ''required'')],
     limits = Obj [(''safeAddress'', Obj [(''fields'', Arr [Obj
       [(''path'', Str ''/home''), (''accessClass'', Str ''safe-address''),
        (''visibleTo'', Arr [Str ''court'', Str ''clerk''])]])])],
     recordLifecycle = Undefined\<rparr>"

definition sampleInput :: "run_mode \<Rightarrow> ResolveRuntimeFeaturesInput" where
  "sampleInput m = \<lparr>mode = m, inst = sampleCaps, org = sampleOrg, form = sampleForm\<rparr>"

lemma sample_resolves:
  "map_sum id (\<lambda>p. (enabled p, map fst (disabled p)))
     (resolveRuntimeFeatures (\<lambda>_. None) (sampleInput Production)) =
   Inr ([FileUpload, Payment, SafeAddress],
        [RespondentPlace, Status, DocumentPresentation, CrossIssuerHistory, OfflineSubmit, Embed,
         Screener, PreparerFiling, TrustedReviewer, BringYourOwnAssistant, DuressAware,
         MultiParty, RecordLifecycle])"
  by code_simp

lemma sample_profile:
  obtains p where "resolveRuntimeFeatures (\<lambda>_. None) (sampleInput Production) = Inr p"
    "enabled p = [FileUpload, Payment, SafeAddress]"
  using sample_resolves
  by (cases "resolveRuntimeFeatures (\<lambda>_. None) (sampleInput Production)") auto


text \<open>The profile partitions the taxonomy: every feature key is either enabled or disabled with a
  reason, never both and never twice, and both parts keep the append-only order of the keys.\<close>

theorem resolve_partition:
  assumes "resolveRuntimeFeatures url input = Inr p"
  shows "set (enabled p) \<union> fst ` set (disabled p) = UNIV \<and>
    set (enabled p) \<inter> fst ` set (disabled p) = {} \<and>
    distinct (enabled p) \<and> distinct (map fst (disabled p)) \<and>
    enabled p = filter (\<lambda>k. k \<in> set (enabled p)) RUNTIME_FEATURE_KEYS \<and>
    map fst (disabled p) = filter (\<lambda>k. k \<notin> set (enabled p)) RUNTIME_FEATURE_KEYS"
proof -
  note l = resolve_loop [OF assms]
  have es: "enabled p = filter (\<lambda>k. k \<in> set (enabled p)) RUNTIME_FEATURE_KEYS"
    using l by simp
  have ds: "map fst (disabled p) = filter (\<lambda>k. k \<notin> set (enabled p)) RUNTIME_FEATURE_KEYS"
    using l by simp
  then have "fst ` set (disabled p) = - set (enabled p)"
    by (simp flip: set_map) auto
  moreover have "distinct (enabled p)" "distinct (map fst (disabled p))"
    by (subst es, simp) (simp add: ds)
  ultimately show ?thesis using es ds by blast
qed

theorem resolve_partition_witness:
  "\<exists>p. resolveRuntimeFeatures (\<lambda>_. None) (sampleInput Production) = Inr p \<and>
     set (enabled p) \<union> fst ` set (disabled p) = UNIV \<and>
     set (enabled p) \<inter> fst ` set (disabled p) = {}"
proof -
  obtain p where "resolveRuntimeFeatures (\<lambda>_. None) (sampleInput Production) = Inr p"
    by (rule sample_profile)
  with resolve_partition [OF this] show ?thesis by blast
qed

text \<open>C1. The resolver refines the abstract decision table: a key of the profile is enabled exactly
  when a layer requests it, no layer forbids it and the instance can satisfy it in this mode.\<close>

theorem resolve_refines_table:
  assumes "resolveRuntimeFeatures url input = Inr p"
  shows "k \<in> set (enabled p) \<longleftrightarrow>
    requested (propOf (features (org input)) (keyName k)) (propOf (features (form input)) (keyName k)) \<and>
    \<not> forbidden (propOf (features (org input)) (keyName k)) (propOf (features (form input)) (keyName k)) \<and>
    canSatisfy (mode input) (propOf (inst input) (keyName k))"
  using resolve_enabled_iff [OF assms] validateInput_modes [OF resolve_inv(1) [OF assms]]
  by (simp add: decideFor_def decide_enabled_iff)

theorem resolve_refines_table_witness:
  "\<exists>p. resolveRuntimeFeatures (\<lambda>_. None) (sampleInput Production) = Inr p \<and>
     Payment \<in> set (enabled p) \<and>
     requested (propOf (features sampleOrg) ''payment'') (propOf (features sampleForm) ''payment'')"
proof -
  obtain p where p: "resolveRuntimeFeatures (\<lambda>_. None) (sampleInput Production) = Inr p"
    "enabled p = [FileUpload, Payment, SafeAddress]"
    by (rule sample_profile)
  with resolve_refines_table [OF p(1), of Payment] show ?thesis
    by (auto simp: sampleInput_def)
qed

text \<open>C3. A production profile never enables a feature that is backed by a demo stub or by nothing:
  the declared capability of every enabled key is \<open>available\<close>.\<close>

theorem production_enables_only_available:
  assumes "resolveRuntimeFeatures url input = Inr p" "mode input = Production" "k \<in> set (enabled p)"
  shows "propOf (inst input) (keyName k) = Str ''available''"
  using resolve_enabled_iff [OF assms(1), of k] assms(2,3)
    validateInput_modes [OF resolve_inv(1) [OF assms(1)]]
  by (simp add: decideFor_def decide_enabled_iff canSatisfy_iff)

theorem production_enables_only_available_witness:
  "propOf sampleCaps ''payment'' = Str ''available''"
proof -
  obtain p where p: "resolveRuntimeFeatures (\<lambda>_. None) (sampleInput Production) = Inr p"
    "enabled p = [FileUpload, Payment, SafeAddress]"
    by (rule sample_profile)
  show ?thesis
    using production_enables_only_available [OF p(1), of Payment] p(2) by (simp add: sampleInput_def)
qed

lemma resolveLoop_first_error:
  assumes "resolveLoop input keys acc = Inl e"
  shows "\<exists>as k bs. keys = as @ k # bs \<and> decideFor input k = Inl e \<and>
    (\<forall>j\<in>set as. isOk (decideFor input j))"
  using assms
proof (induction input keys acc rule: resolveLoop.induct)
  case (2 input key keys es ds ls)
  show ?case
  proof (cases "decideFor input key")
    case (Inl e')
    with 2(3) have "decideFor input key = Inl e" by simp
    then show ?thesis by (intro exI [of _ "[]"]) auto
  next
    case (Inr d)
    with 2 obtain as k bs where "keys = as @ k # bs" "decideFor input k = Inl e"
      "\<forall>j\<in>set as. isOk (decideFor input j)"
      by (cases d) (auto split: if_splits)
    with Inr show ?thesis by (intro exI [of _ "key # as"]) auto
  qed
qed simp

text \<open>Failure semantics: on validated documents the resolver throws at the first key (in
  taxonomy order) that a layer mandates although a layer forbids it or the instance cannot
  satisfy it; the error is the one \<open>decide\<close> raises for that key.\<close>

theorem resolve_fails_at_first_unsatisfied_mandate:
  assumes ok: "validateInput url input = Inr ()"
    and bad: "mandated (propOf (features (org input)) (keyName k)) (propOf (features (form input)) (keyName k))"
      "forbidden (propOf (features (org input)) (keyName k)) (propOf (features (form input)) (keyName k)) \<or>
       \<not> canSatisfy (mode input) (propOf (inst input) (keyName k))"
  shows "\<exists>e as j bs. resolveRuntimeFeatures url input = Inl e \<and>
    RUNTIME_FEATURE_KEYS = as @ j # bs \<and> decideFor input j = Inl e \<and>
    (\<forall>i\<in>set as. isOk (decideFor input i))"
proof -
  have "\<not> isOk (decideFor input k)"
    using decide_throws_iff [OF validateInput_modes(1,2) [OF ok], of "mode input" k
        "propOf (inst input) (keyName k)" "keyName k" "keyName k"] bad
    by (auto simp: decideFor_def isOk_def)
  then obtain e where e: "resolveLoop input RUNTIME_FEATURE_KEYS ([], [], []) = Inl e"
    using resolveLoop_ok [of input RUNTIME_FEATURE_KEYS "[]" "[]" "[]"]
    by (cases "resolveLoop input RUNTIME_FEATURE_KEYS ([], [], [])") auto
  then have "resolveRuntimeFeatures url input = Inl e"
    by (simp add: resolveRuntimeFeatures_def ok)
  with resolveLoop_first_error [OF e] show ?thesis by blast
qed

theorem resolve_fails_at_first_unsatisfied_mandate_witness:
  "\<exists>e. resolveRuntimeFeatures (\<lambda>_. None)
     ((sampleInput Production)\<lparr>inst := setProp ''payment'' (Str ''demo-stub'') sampleCaps\<rparr>) = Inl e"
proof -
  let ?i = "(sampleInput Production)\<lparr>inst := setProp ''payment'' (Str ''demo-stub'') sampleCaps\<rparr>"
  have ok: "validateInput (\<lambda>_. None) ?i = Inr ()" by code_simp
  have m: "mandated (propOf (features (org ?i)) (keyName Payment))
      (propOf (features (form ?i)) (keyName Payment))" by code_simp
  have c: "\<not> canSatisfy (mode ?i) (propOf (inst ?i) (keyName Payment))" by code_simp
  show ?thesis
    using resolve_fails_at_first_unsatisfied_mandate [OF ok m disjI2 [OF c]] by blast
qed

text \<open>Every disabled key records why: the cause is determined by the two modes, form before org,
  and the two causes reserved for later (\<open>instance-unavailable\<close>,
  \<open>production-rejects-demo-stub\<close>) are never emitted.\<close>

theorem resolve_disabled_cause:
  assumes "resolveRuntimeFeatures url input = Inr p" "(k, r) \<in> set (disabled p)"
  shows "cause r =
    (let om = propOf (features (org input)) (keyName k); fm = propOf (features (form input)) (keyName k)
     in if fm = Str ''forbidden'' then FormForbidden
        else if om = Str ''forbidden'' then OrgForbidden
        else if om = Str ''default-on'' then DefaultOnNoInstance
        else if fm = Str ''optional'' then OptionalNoInstance else NotRequested)"
proof -
  have "decideFor input k = Inr (Disabled r)"
    using resolve_loop [OF assms(1)] assms(2) by auto
  then show ?thesis
    using decide_disabled_cause [OF validateInput_modes(1,2) [OF resolve_inv(1) [OF assms(1)]]]
    by (simp add: decideFor_def Let_def)
qed

theorem resolve_disabled_cause_witness:
  "\<exists>p r. resolveRuntimeFeatures (\<lambda>_. None) (sampleInput Production) = Inr p \<and>
     (OfflineSubmit, r) \<in> set (disabled p) \<and> cause r = DefaultOnNoInstance"
proof -
  obtain p where p: "resolveRuntimeFeatures (\<lambda>_. None) (sampleInput Production) = Inr p"
    "enabled p = [FileUpload, Payment, SafeAddress]"
    by (rule sample_profile)
  then have "OfflineSubmit \<in> fst ` set (disabled p)"
    using sample_resolves by (auto simp flip: set_map)
  then obtain r where r: "(OfflineSubmit, r) \<in> set (disabled p)" by auto
  have "cause r = DefaultOnNoInstance"
    using resolve_disabled_cause [OF p(1) r] by (simp add: sampleInput_def sampleOrg_def sampleForm_def)
  with p r show ?thesis by blast
qed

text \<open>C30. Audience containment: in a resolved safe-address block every field has at least one
  plaintext audience, all of them are authorized by the deployment (never more than the org
  layer declares, or \<open>issuer_verification\<close> by default), and where the field carries a party
  policy they are within it.\<close>

theorem safe_address_audiences_contained:
  assumes "resolveRuntimeFeatures url input = Inr p"
    and "getSafeAddressRuntimeConfig p = Some c" and "field \<in> set (saFields c)"
  shows "plaintextOf field \<noteq> {} \<and>
    plaintextOf field \<subseteq> set (case stringArrayFrom
       (getp (getp (limits (org input)) ''safeAddress'') ''authorizedAudiences'') of
         Some xs \<Rightarrow> xs | None \<Rightarrow> [''issuer_verification'']) \<and>
    withinPartyPolicy field (plaintextOf field)"
proof -
  have en: "SafeAddress \<in> set (enabled p)" and c: "safeAddressPolicy p = Some c"
    using assms(2) by (auto simp: getSafeAddressRuntimeConfig_def split: if_splits)
  from resolve_inv(6) [OF assms(1) en] c
  have res: "resolveSafeAddressPolicy (getp (limits (org input)) ''safeAddress'')
      (getp (limits (form input)) ''safeAddress'') = Inr c" by simp
  have "validateSafeAddressLimits (getp (limits (form input)) ''safeAddress'') FormDoc = Inr ()"
    using resolve_inv(1) [OF assms(1)] by (simp add: validateInput_def check_simps)
  from resolveSafeAddressPolicy_fields [OF this res assms(3)]
    resolveSafeAddressPolicy_audiences [OF res]
  show ?thesis by (auto split: option.splits)
qed

lemma sample_safe_address:
  "map_sum id (\<lambda>p. map_option (\<lambda>c. (receiptPostureTier c, saFields c)) (getSafeAddressRuntimeConfig p))
     (resolveRuntimeFeatures (\<lambda>_. None) (sampleInput Production)) =
   Inr (Some (Str ''phase-1-fallback'', [Obj [(''path'', Str ''/home''), (''label'', Undefined),
     (''accessClass'', Str ''safe-address''), (''visibleTo'', Arr [Str ''court'', Str ''clerk'']),
     (''plaintextAudiences'', Arr [Str ''court'']), (''effectiveAudiences'', Undefined)]]))"
  by code_simp

lemma sample_safe_config:
  obtains p c field where "resolveRuntimeFeatures (\<lambda>_. None) (sampleInput Production) = Inr p"
    "getSafeAddressRuntimeConfig p = Some c" "saFields c = [field]"
  using sample_safe_address
  by (cases "resolveRuntimeFeatures (\<lambda>_. None) (sampleInput Production)") auto

theorem safe_address_audiences_contained_witness:
  "\<exists>p c field. resolveRuntimeFeatures (\<lambda>_. None) (sampleInput Production) = Inr p \<and>
     getSafeAddressRuntimeConfig p = Some c \<and> field \<in> set (saFields c) \<and>
     plaintextOf field \<subseteq> {''issuer'', ''court''}"
proof -
  obtain p c field where p: "resolveRuntimeFeatures (\<lambda>_. None) (sampleInput Production) = Inr p"
    and c: "getSafeAddressRuntimeConfig p = Some c" and f: "saFields c = [field]"
    by (rule sample_safe_config)
  have "plaintextOf field \<subseteq> {''issuer'', ''court''}"
    using safe_address_audiences_contained [OF p c, of field] f
    by (simp add: sampleInput_def sampleOrg_def stringArrayFrom_def)
  with p c f show ?thesis by (intro exI [of _ p] exI [of _ c] exI [of _ field]) simp
qed

text \<open>The receipt posture of a resolved safe-address block never exceeds what the deployment
  declares; a deployment that declares nothing stays on the phase-1 fallback.\<close>

theorem safe_address_tier_bounded:
  assumes "resolveRuntimeFeatures url input = Inr p" "getSafeAddressRuntimeConfig p = Some c"
  shows "safeAddressTierRank (receiptPostureTier c) \<le> safeAddressTierRank
    (coalesce (getp (getp (limits (org input)) ''safeAddress'') ''receiptPostureTier'')
       (Str ''phase-1-fallback''))"
proof -
  have en: "SafeAddress \<in> set (enabled p)" and c: "safeAddressPolicy p = Some c"
    using assms(2) by (auto simp: getSafeAddressRuntimeConfig_def split: if_splits)
  from resolve_inv(6) [OF assms(1) en] c show ?thesis
    using resolveSafeAddressPolicy_tier by auto
qed

theorem safe_address_tier_bounded_witness:
  "\<exists>p c. resolveRuntimeFeatures (\<lambda>_. None) (sampleInput Production) = Inr p \<and>
     getSafeAddressRuntimeConfig p = Some c \<and> safeAddressTierRank (receiptPostureTier c) \<le> 1"
proof -
  obtain p c field where p: "resolveRuntimeFeatures (\<lambda>_. None) (sampleInput Production) = Inr p"
    and c: "getSafeAddressRuntimeConfig p = Some c" and f: "saFields c = [field]"
    by (rule sample_safe_config)
  have "safeAddressTierRank (receiptPostureTier c) \<le> 1"
    using safe_address_tier_bounded [OF p c]
    by (simp add: sampleInput_def sampleOrg_def safeAddressTierRank_def split: if_splits)
  with p c show ?thesis by blast
qed

end
