(* ===== verification/Keys.thy ===== *)
theory Keys
  imports Prelude "HOL-Library.Word"
begin

text \<open>
  Idempotency keys and scope keys: \<open>src/shared/idempotency-key.ts\<close> and
  \<open>src/shared/scope-key.ts\<close>, at the width of the bytes they compute with. SHA-256 (WebCrypto,
  \<open>@noble/hashes\<close>) and the \<open>uuid\<close> package are parameters: a digest function on bytes, and the
  record \<open>uuid_lib\<close> of its two functions, with what the code relies on stated as
  \<open>uuid_lib_spec\<close>.
\<close>

unbundle bit_operations_syntax

type_synonym byte = "8 word"


section \<open>Bytes and hexadecimal text\<close>

definition byteOf :: "nat \<Rightarrow> byte" where
  "byteOf n = word_of_nat n"

text \<open>\<open>TextEncoder.encode\<close> on code units below 256.\<close>

definition utf8Char :: "char \<Rightarrow> byte list" where
  "utf8Char c = (let n = of_char c :: nat in
     if n < 128 then [byteOf n] else [byteOf (192 + n div 64), byteOf (128 + n mod 64)])"

definition utf8 :: "string \<Rightarrow> byte list" where
  "utf8 s = concat (map utf8Char s)"

definition hexDigit :: "nat \<Rightarrow> char" where
  "hexDigit d = ''0123456789abcdef'' ! d"

text \<open>\<open>b.toString(16).padStart(2, '0')\<close>\<close>

definition toString16 :: "nat \<Rightarrow> string" where
  "toString16 n = (if n < 16 then [hexDigit n] else [hexDigit (n div 16), hexDigit (n mod 16)])"

definition hexByte :: "byte \<Rightarrow> string" where
  "hexByte b = padStart 2 (CHR ''0'') (toString16 (unat b))"

definition bytesToHex :: "byte list \<Rightarrow> string" where
  "bytesToHex bs = concat (map hexByte bs)"

definition isHexLower :: "char \<Rightarrow> bool" where
  "isHexLower c = (c \<in> set ''0123456789abcdef'')"

lemma hexDigit_inject: "i < 16 \<Longrightarrow> j < 16 \<Longrightarrow> hexDigit i = hexDigit j \<Longrightarrow> i = j"
proof -
  have "\<forall>i\<in>set [0..<16]. \<forall>j\<in>set [0..<16]. hexDigit i = hexDigit j \<longrightarrow> i = j" by code_simp
  then show "i < 16 \<Longrightarrow> j < 16 \<Longrightarrow> hexDigit i = hexDigit j \<Longrightarrow> i = j" by simp
qed

lemma hexDigit_hex [simp]: "i < 16 \<Longrightarrow> isHexLower (hexDigit i)"
proof -
  have "\<forall>i\<in>set [0..<16]. isHexLower (hexDigit i)" by code_simp
  then show "i < 16 \<Longrightarrow> ?thesis" by simp
qed

lemma byte_div: "unat (b :: byte) div 16 < 16"
  using unsigned_less [of b, where 'a = nat] by simp

lemma hexByte_eq: "hexByte b = [hexDigit (unat b div 16), hexDigit (unat b mod 16)]"
  by (simp add: hexByte_def toString16_def padStart_def hexDigit_def numeral_2_eq_2)

lemma length_hexByte [simp]: "length (hexByte b) = 2"
  by (simp add: hexByte_eq)

lemma hexByte_inject [simp]: "hexByte a = hexByte b \<longleftrightarrow> a = b"
proof
  assume "hexByte a = hexByte b"
  then have "unat a div 16 = unat b div 16" "unat a mod 16 = unat b mod 16"
    using hexDigit_inject byte_div by (simp_all add: hexByte_eq)
  then have "unat a = unat b" by (metis div_mult_mod_eq)
  then show "a = b" by (simp add: word_unat_eq_iff)
qed simp

lemma bytesToHex_Cons: "bytesToHex (b # bs) = hexByte b @ bytesToHex bs"
  by (simp add: bytesToHex_def)

lemma length_bytesToHex [simp]: "length (bytesToHex bs) = 2 * length bs"
  by (induction bs) (simp_all add: bytesToHex_def)

lemma bytesToHex_inject [simp]: "bytesToHex as = bytesToHex bs \<longleftrightarrow> as = bs"
proof
  assume eq: "bytesToHex as = bytesToHex bs"
  then have "length as = length bs" by (metis length_bytesToHex mult_cancel1 zero_neq_numeral)
  then show "as = bs" using eq
    by (induction as bs rule: list_induct2) (simp_all add: bytesToHex_Cons)
qed simp

lemma bytesToHex_hex: "c \<in> set (bytesToHex bs) \<Longrightarrow> isHexLower c"
  by (induction bs) (auto simp: bytesToHex_def hexByte_eq byte_div)

lemma bytesToHex_nth:
  "i < length bs \<Longrightarrow> bytesToHex bs ! (2 * i) = hexDigit (unat (bs ! i) div 16)"
proof (induction bs arbitrary: i)
  case (Cons b bs)
  then show ?case by (cases i) (simp_all add: bytesToHex_Cons hexByte_eq)
qed simp


section \<open>Idempotency keys\<close>

record uuid_lib =
  validateUuid :: "string \<Rightarrow> bool"
  uuidVersion :: "string \<Rightarrow> nat"

datatype key_error = NotUuidV7 | BadScopeKey | BadScopeNames

definition isUuidV7IdempotencyKey :: "uuid_lib \<Rightarrow> string \<Rightarrow> bool" where
  "isUuidV7IdempotencyKey lib value = (validateUuid lib value \<and> uuidVersion lib value = 7)"

definition assertUuidV7IdempotencyKey :: "uuid_lib \<Rightarrow> string \<Rightarrow> key_error + unit" where
  "assertUuidV7IdempotencyKey lib value = throwIf (\<not> isUuidV7IdempotencyKey lib value) NotUuidV7"

definition slice :: "nat \<Rightarrow> nat \<Rightarrow> 'a list \<Rightarrow> 'a list" where
  "slice i j xs = take (j - i) (drop i xs)"

definition uuidBytes :: "byte list \<Rightarrow> byte list" where
  "uuidBytes digest =
     (let uuid = take 16 digest;
          uuid = uuid[6 := (uuid ! 6 AND 0x0f) OR 0x70]
      in uuid[8 := (uuid ! 8 AND 0x3f) OR 0x80])"

definition formatUuid :: "byte list \<Rightarrow> string" where
  "formatUuid uuid =
     (let hex = bytesToHex uuid
      in slice 0 8 hex @ ''-'' @ slice 8 12 hex @ ''-'' @ slice 12 16 hex @ ''-'' @
         slice 16 20 hex @ ''-'' @ drop 20 hex)"

definition deriveUuidV7FromString ::
  "uuid_lib \<Rightarrow> (byte list \<Rightarrow> byte list) \<Rightarrow> string \<Rightarrow> string \<Rightarrow> key_error + string" where
  "deriveUuidV7FromString lib sha256 base suffix =
     (let formatted = formatUuid (uuidBytes (sha256 (utf8 (base @ '':'' @ suffix))))
      in bindR (assertUuidV7IdempotencyKey lib formatted) (\<lambda>_. Inr formatted))"

text \<open>
  What the \<open>uuid\<close> package documents: \<open>validate\<close> accepts the RFC 9562 text form, and
  \<open>version\<close> reads the version digit.
\<close>

definition isRfcUuid :: "string \<Rightarrow> bool" where
  "isRfcUuid s = (let gs = splitOn (CHR ''-'') s in
     map length gs = [8, 4, 4, 4, 12] \<and> list_all (list_all isHexLower) gs \<and>
     gs ! 2 ! 0 \<in> set ''12345678'' \<and> gs ! 3 ! 0 \<in> set ''89ab'')"

definition rfcVersion :: "string \<Rightarrow> nat" where
  "rfcVersion s = of_char (splitOn (CHR ''-'') s ! 2 ! 0) - 48"

definition uuid_lib_spec :: "uuid_lib \<Rightarrow> bool" where
  "uuid_lib_spec lib \<longleftrightarrow>
     (\<forall>s. isRfcUuid s \<longrightarrow> validateUuid lib s \<and> uuidVersion lib s = rfcVersion s)"

definition rfcLib :: uuid_lib where
  "rfcLib = \<lparr>validateUuid = isRfcUuid, uuidVersion = rfcVersion\<rparr>"

lemma rfcLib_spec: "uuid_lib_spec rfcLib"
  by (simp add: uuid_lib_spec_def rfcLib_def)

lemma disjoint_or: "x AND y = 0 \<Longrightarrow> x OR y = x + y" for x y :: "'a::len word"
  using word_plus_and_or [of x y] by simp

lemma unat_set_version: "unat ((w AND 0x0f) OR 0x70) = unat w mod 16 + 112" for w :: byte
proof -
  have z: "(w AND 0x0f) AND 0x70 = 0" by (simp add: and.assoc)
  have m: "w AND 0x0f = take_bit 4 w" by (simp add: take_bit_eq_mask mask_eq_exp_minus_1)
  have u: "unat (take_bit 4 w) = unat w mod 16"
    by (simp only: unsigned_take_bit_eq) (simp add: take_bit_eq_mod)
  have "(w AND 0x0f) OR 0x70 = take_bit 4 w + 0x70" using disjoint_or [OF z] m by simp
  moreover have "unat (take_bit 4 w + 112) = unat (take_bit 4 w) + unat (112 :: byte)"
    by (subst unat_plus_simple [symmetric]) (simp add: no_olen_add_nat u)
  ultimately show ?thesis by (simp add: u)
qed

lemma unat_set_variant: "unat ((w AND 0x3f) OR 0x80) = unat w mod 64 + 128" for w :: byte
proof -
  have z: "(w AND 0x3f) AND 0x80 = 0" by (simp add: and.assoc)
  have m: "w AND 0x3f = take_bit 6 w" by (simp add: take_bit_eq_mask mask_eq_exp_minus_1)
  have u: "unat (take_bit 6 w) = unat w mod 64"
    by (simp only: unsigned_take_bit_eq) (simp add: take_bit_eq_mod)
  have "(w AND 0x3f) OR 0x80 = take_bit 6 w + 0x80" using disjoint_or [OF z] m by simp
  moreover have "unat (take_bit 6 w + 128) = unat (take_bit 6 w) + unat (128 :: byte)"
    by (subst unat_plus_simple [symmetric]) (simp add: no_olen_add_nat u)
  ultimately show ?thesis by (simp add: u)
qed


lemma length_uuidBytes [simp]: "length (uuidBytes d) = min 16 (length d)"
  by (simp add: uuidBytes_def Let_def)

lemma uuidBytes_nth:
  "16 \<le> length d \<Longrightarrow> uuidBytes d ! 6 = (d ! 6 AND 0x0f) OR 0x70"
  "16 \<le> length d \<Longrightarrow> uuidBytes d ! 8 = (d ! 8 AND 0x3f) OR 0x80"
  by (simp_all add: uuidBytes_def Let_def)

lemma formatUuid_join:
  "formatUuid u = (let hex = bytesToHex u in
     joinWith ''-'' [slice 0 8 hex, slice 8 12 hex, slice 12 16 hex, slice 16 20 hex, drop 20 hex])"
  by (simp add: formatUuid_def Let_def)

lemma slice_hex: "c \<in> set (slice i j (bytesToHex u)) \<Longrightarrow> isHexLower c"
  by (auto simp: slice_def dest!: in_set_takeD in_set_dropD intro: bytesToHex_hex)

lemma dash_not_hex: "\<not> isHexLower (CHR ''-'')"
  by (simp add: isHexLower_def)

lemma splitOn_formatUuid:
  "splitOn (CHR ''-'') (formatUuid u) = (let hex = bytesToHex u in
     [slice 0 8 hex, slice 8 12 hex, slice 12 16 hex, slice 16 20 hex, drop 20 hex])"
proof -
  have "CHR ''-'' \<notin> set (slice i j (bytesToHex u))" for i j
    using slice_hex dash_not_hex by metis
  moreover have "CHR ''-'' \<notin> set (drop 20 (bytesToHex u))"
    using bytesToHex_hex [of "CHR ''-''" u] dash_not_hex in_set_dropD [of _ 20 "bytesToHex u"] by metis
  ultimately show ?thesis unfolding formatUuid_join Let_def
    by (intro splitOn_joinWith) simp_all
qed

lemma formatUuid_inject:
  assumes "length u = 16" "length v = 16" "formatUuid u = formatUuid v"
  shows "u = v"
proof -
  have "concat (splitOn (CHR ''-'') (formatUuid w)) = bytesToHex w" if "length w = 16" for w
  proof -
    have "concat (splitOn (CHR ''-'') (formatUuid w)) =
        take 8 (bytesToHex w) @ take 4 (drop 8 (bytesToHex w)) @ take 4 (drop 12 (bytesToHex w)) @
        take 4 (drop 16 (bytesToHex w)) @ drop 20 (bytesToHex w)"
      by (simp add: splitOn_formatUuid Let_def slice_def)
    also have "take 4 (drop 16 (bytesToHex w)) @ drop 20 (bytesToHex w) = drop 16 (bytesToHex w)"
      using append_take_drop_id [of 4 "drop 16 (bytesToHex w)"] by simp
    also have "take 4 (drop 12 (bytesToHex w)) @ drop 16 (bytesToHex w) = drop 12 (bytesToHex w)"
      using append_take_drop_id [of 4 "drop 12 (bytesToHex w)"] by simp
    also have "take 4 (drop 8 (bytesToHex w)) @ drop 12 (bytesToHex w) = drop 8 (bytesToHex w)"
      using append_take_drop_id [of 4 "drop 8 (bytesToHex w)"] by simp
    finally show ?thesis by simp
  qed
  with assms show ?thesis by (metis bytesToHex_inject)
qed

lemma slice_nth0: "i < length xs \<Longrightarrow> i < j \<Longrightarrow> slice i j xs ! 0 = xs ! i"
  by (simp add: slice_def)

lemma version_digit:
  assumes "16 \<le> length d"
  shows "bytesToHex (uuidBytes d) ! 12 = CHR ''7''"
    and "bytesToHex (uuidBytes d) ! 16 \<in> set ''89ab''"
proof -
  have "(unat (d ! 6) mod 16 + 112) div 16 = 7" by simp
  then show "bytesToHex (uuidBytes d) ! 12 = CHR ''7''"
    using bytesToHex_nth [of 6 "uuidBytes d"] assms
    by (simp add: uuidBytes_nth unat_set_version hexDigit_def)
  have "\<forall>m\<in>set [0..<64]. hexDigit ((m + 128) div 16) \<in> set ''89ab''" by code_simp
  then have "hexDigit ((unat (d ! 8) mod 64 + 128) div 16) \<in> set ''89ab''" by simp
  then show "bytesToHex (uuidBytes d) ! 16 \<in> set ''89ab''"
    using bytesToHex_nth [of 8 "uuidBytes d"] assms
    by (simp add: uuidBytes_nth unat_set_variant)
qed

lemma formatUuid_rfc:
  assumes "16 \<le> length d"
  shows "isRfcUuid (formatUuid (uuidBytes d))" "rfcVersion (formatUuid (uuidBytes d)) = 7"
proof -
  let ?h = "bytesToHex (uuidBytes d)"
  have l: "length ?h = 32" using assms by simp
  have hx: "list_all isHexLower (slice i j ?h)" "list_all isHexLower (drop 20 ?h)" for i j
    using slice_hex bytesToHex_hex in_set_dropD by (fastforce simp: list_all_iff)+
  have n: "slice 12 16 ?h ! 0 = CHR ''7''" "slice 16 20 ?h ! 0 \<in> set ''89ab''"
    using version_digit [OF assms] l by (simp_all add: slice_nth0)
  have len: "map length [slice 0 8 ?h, slice 8 12 ?h, slice 12 16 ?h, slice 16 20 ?h, drop 20 ?h]
      = [8, 4, 4, 4, 12]" using l by (simp add: slice_def)
  show "isRfcUuid (formatUuid (uuidBytes d))"
    unfolding isRfcUuid_def splitOn_formatUuid Let_def len
    using n hx by simp
  show "rfcVersion (formatUuid (uuidBytes d)) = 7"
    unfolding rfcVersion_def splitOn_formatUuid Let_def using n by simp
qed

lemma derive_ok:
  assumes "uuid_lib_spec lib" "16 \<le> length (sha256 (utf8 (base @ '':'' @ suffix)))"
  shows "deriveUuidV7FromString lib sha256 base suffix =
    Inr (formatUuid (uuidBytes (sha256 (utf8 (base @ '':'' @ suffix)))))"
  using assms formatUuid_rfc [OF assms(2)]
  by (simp add: deriveUuidV7FromString_def Let_def assertUuidV7IdempotencyKey_def
      isUuidV7IdempotencyKey_def uuid_lib_spec_def)


section \<open>Scope keys\<close>

record ScopeNames =
  tenant :: string
  workspace :: string
  environment :: "string option"

definition SCOPE_KEY_TAG :: string where
  "SCOPE_KEY_TAG = ''stack-scope-key-v1''"

definition isLowerLetter :: "char \<Rightarrow> bool" where
  "isLowerLetter c = (97 \<le> (of_char c :: nat) \<and> (of_char c :: nat) \<le> 122)"

definition isDecDigit :: "char \<Rightarrow> bool" where
  "isDecDigit c = (48 \<le> (of_char c :: nat) \<and> (of_char c :: nat) \<le> 57)"

text \<open>\<open>DNS_LABEL\<close>: a letter, then at most 61 letters, digits or hyphens and a last letter or digit.\<close>

definition DNS_LABEL :: "string \<Rightarrow> bool" where
  "DNS_LABEL s = (case s of [] \<Rightarrow> False
     | c # cs \<Rightarrow> isLowerLetter c \<and> (cs = [] \<or>
         length (butlast cs) \<le> 61 \<and>
         list_all (\<lambda>x. isLowerLetter x \<or> isDecDigit x \<or> x = CHR ''-'') (butlast cs) \<and>
         (isLowerLetter (last cs) \<or> isDecDigit (last cs))))"

definition parseScopeKey :: "jsval \<Rightarrow> key_error + string" where
  "parseScopeKey value = (case value of
     Str s \<Rightarrow> if length s = 64 \<and> list_all isHexLower s then Inr s else Inl BadScopeKey
   | _ \<Rightarrow> Inl BadScopeKey)"

text \<open>\<open>DataView.setUint32\<close> is big-endian and keeps the low 32 bits.\<close>

definition be32 :: "nat \<Rightarrow> byte list" where
  "be32 n = [byteOf (n div 256 div 256 div 256), byteOf (n div 256 div 256), byteOf (n div 256), byteOf n]"

definition framed :: "byte list \<Rightarrow> byte list" where
  "framed bytes = be32 (length bytes) @ bytes"

definition scopePreimage :: "ScopeNames \<Rightarrow> byte list" where
  "scopePreimage names =
     (let fields = concat (map (\<lambda>name. framed (utf8 name))
            [tenant names, workspace names, case environment names of None \<Rightarrow> [] | Some e \<Rightarrow> e])
      in framed (utf8 SCOPE_KEY_TAG) @ framed fields)"

definition deriveScopeKey :: "(byte list \<Rightarrow> byte list) \<Rightarrow> ScopeNames \<Rightarrow> key_error + string" where
  "deriveScopeKey sha256 names =
     (let named = (case environment names of None \<Rightarrow> [tenant names, workspace names]
                   | Some e \<Rightarrow> [tenant names, workspace names, e])
      in if \<not> list_all DNS_LABEL named then Inl BadScopeNames
         else Inr (bytesToHex (sha256 (scopePreimage names))))"

fun selectsScope :: "string option \<Rightarrow> jsval \<Rightarrow> bool" where
  "selectsScope None scope = False"
| "selectsScope (Some key) scope = (scope = Str key)"

definition scopeKeyHeaders :: "string option \<Rightarrow> (string \<times> string) list" where
  "scopeKeyHeaders key = (case key of None \<Rightarrow> [] | Some k \<Rightarrow> [(''x-stack-scope-key'', k)])"

lemma unat_byteOf: "unat (byteOf n) = n mod 256"
  by (simp add: byteOf_def unsigned_of_nat take_bit_eq_mod)

lemma be32_inject: "be32 m = be32 n \<Longrightarrow> m < 2 ^ 32 \<Longrightarrow> n < 2 ^ 32 \<Longrightarrow> m = n"
proof -
  assume "be32 m = be32 n" and b: "m < 2 ^ 32" "n < 2 ^ 32"
  then have e: "m div 256 div 256 div 256 mod 256 = n div 256 div 256 div 256 mod 256"
    "m div 256 div 256 mod 256 = n div 256 div 256 mod 256"
    "m div 256 mod 256 = n div 256 mod 256" "m mod 256 = n mod 256"
    by (simp_all add: be32_def flip: unat_byteOf)
  have "k div 256 div 256 div 256 mod 256 = k div 256 div 256 div 256" if "k < 2 ^ 32" for k :: nat
    using that by (simp add: div_mult2_eq [symmetric])
  with b e have "m div 256 div 256 div 256 = n div 256 div 256 div 256" by metis
  with e show "m = n" by (metis div_mult_mod_eq)
qed

lemma length_be32 [simp]: "length (be32 n) = 4"
  by (simp add: be32_def)

lemma framed_append_inject:
  assumes "framed a @ x = framed b @ y" "length a < 2 ^ 32" "length b < 2 ^ 32"
  shows "a = b \<and> x = y"
proof -
  have "be32 (length a) = be32 (length b)" and r: "a @ x = b @ y"
    using assms(1) by (auto simp: framed_def)
  then have "length a = length b" using be32_inject assms by blast
  with r show ?thesis by simp
qed

definition isAscii :: "string \<Rightarrow> bool" where
  "isAscii s \<longleftrightarrow> (\<forall>c\<in>set s. (of_char c :: nat) < 128)"

lemma utf8_ascii: "isAscii s \<Longrightarrow> utf8 s = map (\<lambda>c. byteOf (of_char c)) s"
  by (induction s) (auto simp: isAscii_def utf8_def utf8Char_def)

lemma byteOf_char_inject: "byteOf (of_char c) = byteOf (of_char d) \<longleftrightarrow> c = d"
proof
  assume "byteOf (of_char c) = byteOf (of_char d)"
  then have "(of_char c :: nat) mod 256 = of_char d mod 256" by (simp flip: unat_byteOf)
  then have "(of_char c :: nat) = of_char d" by simp
  then show "c = d" by simp
qed simp

lemma utf8_inject: "isAscii s \<Longrightarrow> isAscii t \<Longrightarrow> utf8 s = utf8 t \<longleftrightarrow> s = t"
  by (simp add: utf8_ascii inj_map_eq_map inj_def byteOf_char_inject)

lemma DNS_LABEL_props:
  assumes "DNS_LABEL s"
  shows "s \<noteq> []" "isAscii s" "length s \<le> 63"
proof -
  obtain c cs where s: "s = c # cs" and c: "isLowerLetter c"
    using assms by (auto simp: DNS_LABEL_def split: list.splits)
  then show "s \<noteq> []" by simp
  have ok: "cs = [] \<or> length (butlast cs) \<le> 61 \<and>
      (\<forall>x\<in>set (butlast cs). isLowerLetter x \<or> isDecDigit x \<or> x = CHR ''-'') \<and>
      (isLowerLetter (last cs) \<or> isDecDigit (last cs))"
    using assms s by (auto simp: DNS_LABEL_def list_all_iff)
  then show "length s \<le> 63" using s by auto
  have "\<forall>x\<in>set cs. isLowerLetter x \<or> isDecDigit x \<or> x = CHR ''-''"
  proof (cases cs rule: rev_cases)
    case (snoc ys y)
    with ok show ?thesis by auto
  qed simp
  then show "isAscii s"
    using s c by (auto simp: isAscii_def isLowerLetter_def isDecDigit_def)
qed

lemma length_utf8_ascii: "isAscii s \<Longrightarrow> length (utf8 s) = length s"
  by (simp add: utf8_ascii)

lemma length_framed [simp]: "length (framed b) = 4 + length b"
  by (simp add: framed_def)

definition envText :: "ScopeNames \<Rightarrow> string" where
  "envText names = (case environment names of None \<Rightarrow> [] | Some e \<Rightarrow> e)"

lemma derive_valid_names:
  assumes "deriveScopeKey sha256 n = Inr k"
  shows "DNS_LABEL (tenant n)" "DNS_LABEL (workspace n)"
    "environment n = None \<or> DNS_LABEL (envText n)" "k = bytesToHex (sha256 (scopePreimage n))"
  using assms by (auto simp: deriveScopeKey_def Let_def envText_def split: option.splits if_splits)

lemma derive_framing:
  assumes "deriveScopeKey sha256 x = Inr y"
  shows "isAscii (tenant x)" "length (utf8 (tenant x)) \<le> 63"
    "isAscii (workspace x)" "length (utf8 (workspace x)) \<le> 63"
    "isAscii (envText x)" "length (utf8 (envText x)) \<le> 63"
    "environment x = None \<longleftrightarrow> envText x = []"
proof -
  have e: "isAscii (envText x)" "length (envText x) \<le> 63" "environment x = None \<longleftrightarrow> envText x = []"
    using derive_valid_names(3) [OF assms] DNS_LABEL_props [of "envText x"]
    by (auto simp: envText_def isAscii_def split: option.splits)
  note t = DNS_LABEL_props [OF derive_valid_names(1) [OF assms]]
  note w = DNS_LABEL_props [OF derive_valid_names(2) [OF assms]]
  show "isAscii (tenant x)" "length (utf8 (tenant x)) \<le> 63"
    "isAscii (workspace x)" "length (utf8 (workspace x)) \<le> 63"
    "isAscii (envText x)" "length (utf8 (envText x)) \<le> 63"
    "environment x = None \<longleftrightarrow> envText x = []"
    using t w e by (simp_all add: length_utf8_ascii)
qed

lemma scopePreimage_inject:
  assumes a: "deriveScopeKey sha256 m = Inr j" and b: "deriveScopeKey sha256 n = Inr k"
    and eq: "scopePreimage m = scopePreimage n"
  shows "m = n"
proof -
  note vm = derive_framing [OF a] and vn = derive_framing [OF b]
  define f where "f x = framed (utf8 (tenant x)) @ framed (utf8 (workspace x)) @ framed (utf8 (envText x)) @ []" for x
  have p: "scopePreimage x = framed (utf8 SCOPE_KEY_TAG) @ framed (f x) @ []" for x
    by (simp add: scopePreimage_def envText_def f_def)
  have "length (utf8 SCOPE_KEY_TAG) = 18" by code_simp
  then have "framed (f m) @ [] = framed (f n) @ []"
    using framed_append_inject [OF eq [unfolded p]] by simp
  moreover have "length (f m) < 2 ^ 32" "length (f n) < 2 ^ 32" using vm vn by (simp_all add: f_def)
  ultimately have "f m = f n" using framed_append_inject by blast
  note f = this [unfolded f_def]
  have t: "utf8 (tenant m) = utf8 (tenant n)" and
    f2: "framed (utf8 (workspace m)) @ framed (utf8 (envText m)) @ [] =
         framed (utf8 (workspace n)) @ framed (utf8 (envText n)) @ []"
    using framed_append_inject [OF f] vm vn by simp_all
  have w: "utf8 (workspace m) = utf8 (workspace n)" and
    f3: "framed (utf8 (envText m)) @ [] = framed (utf8 (envText n)) @ []"
    using framed_append_inject [OF f2] vm vn by simp_all
  have e: "utf8 (envText m) = utf8 (envText n)"
    using framed_append_inject [OF f3] vm vn by simp
  have "tenant m = tenant n" "workspace m = workspace n" and et: "envText m = envText n"
    using t w e vm vn by (simp_all add: utf8_inject)
  moreover have "environment m = environment n"
    using et vm(7) vn(7) by (auto simp: envText_def split: option.splits)
  ultimately show ?thesis by simp
qed

section \<open>Properties\<close>

text \<open>A stand-in digest of 32 bytes for the witnesses.\<close>

definition sampleDigest :: "byte list \<Rightarrow> byte list" where
  "sampleDigest bs = take 32 (rev bs @ replicate 32 0xff)"

text \<open>Rail-key derivation never throws: for every base key and suffix the formatted digest
  passes the UUIDv7 check, and two derived keys are equal exactly when the 16 stamped digest
  bytes are, so formatting loses nothing.\<close>

theorem derived_key_is_uuidv7:
  assumes "uuid_lib_spec lib" "\<forall>bs. length (sha256 bs) = 32"
  shows "\<exists>k. deriveUuidV7FromString lib sha256 base suffix = Inr k \<and> isUuidV7IdempotencyKey lib k \<and>
    (deriveUuidV7FromString lib sha256 base' suffix' = Inr k \<longleftrightarrow>
       uuidBytes (sha256 (utf8 (base' @ '':'' @ suffix'))) = uuidBytes (sha256 (utf8 (base @ '':'' @ suffix))))"
proof -
  let ?d = "\<lambda>b s. sha256 (utf8 (b @ '':'' @ s))"
  have d: "deriveUuidV7FromString lib sha256 b s = Inr (formatUuid (uuidBytes (?d b s)))" for b s
    using derive_ok [OF assms(1)] assms(2) by simp
  have "isUuidV7IdempotencyKey lib (formatUuid (uuidBytes (?d base suffix)))"
    using formatUuid_rfc [of "?d base suffix"] assms
    by (simp add: isUuidV7IdempotencyKey_def uuid_lib_spec_def)
  moreover have "formatUuid (uuidBytes (?d base' suffix')) = formatUuid (uuidBytes (?d base suffix))
      \<longleftrightarrow> uuidBytes (?d base' suffix') = uuidBytes (?d base suffix)"
    using formatUuid_inject assms(2) by auto
  ultimately show ?thesis by (simp add: d)
qed

theorem derived_key_is_uuidv7_witness:
  "\<exists>k. deriveUuidV7FromString rfcLib sampleDigest ''base'' ''capture'' = Inr k \<and>
     isUuidV7IdempotencyKey rfcLib k \<and>
     deriveUuidV7FromString rfcLib sampleDigest ''base'' ''void'' \<noteq> Inr k"
proof -
  have l: "\<forall>bs. length (sampleDigest bs) = 32" by (simp add: sampleDigest_def min_def)
  have "uuidBytes (sampleDigest (utf8 ''base:void'')) \<noteq> uuidBytes (sampleDigest (utf8 ''base:capture''))"
    by code_simp
  then show ?thesis
    using derived_key_is_uuidv7 [OF rfcLib_spec l, of "''base''" "''capture''" "''base''" "''void''"] by auto
qed

text \<open>The scope-key framing is unambiguous: two deployments with the same key have the same
  tenant, workspace and environment (an absent environment being different from every named
  one), or exhibit a SHA-256 collision between their two preimages.\<close>

theorem scope_key_unambiguous:
  assumes "deriveScopeKey sha256 m = Inr k" "deriveScopeKey sha256 n = Inr k"
  shows "m = n \<or> scopePreimage m \<noteq> scopePreimage n \<and>
    sha256 (scopePreimage m) = sha256 (scopePreimage n)"
  using scopePreimage_inject [OF assms] derive_valid_names(4) [OF assms(1)]
    derive_valid_names(4) [OF assms(2)] by auto

theorem scope_key_unambiguous_witness:
  "\<exists>k. deriveScopeKey sampleDigest \<lparr>tenant = ''acme'', workspace = ''w1'', environment = None\<rparr> = Inr k \<and>
    deriveScopeKey sampleDigest \<lparr>tenant = ''acme'', workspace = ''w1'', environment = Some ''prod''\<rparr> \<noteq> Inr k"
proof -
  let ?m = "\<lparr>tenant = ''acme'', workspace = ''w1'', environment = None\<rparr>"
  let ?n = "\<lparr>tenant = ''acme'', workspace = ''w1'', environment = Some ''prod''\<rparr>"
  have "isOk (deriveScopeKey sampleDigest ?m)" by code_simp
  then obtain k where k: "deriveScopeKey sampleDigest ?m = Inr k" by (auto simp: isOk_iff)
  have c: "sampleDigest (scopePreimage ?m) \<noteq> sampleDigest (scopePreimage ?n)" by code_simp
  have "deriveScopeKey sampleDigest ?n \<noteq> Inr k"
    using scope_key_unambiguous [OF k, of ?n] c by auto
  with k show ?thesis by blast
qed

text \<open>Every derived scope key is accepted verbatim by \<open>parseScopeKey\<close>, and a payload selects
  the deployment's scope exactly when it carries that key.\<close>

theorem scope_key_roundtrip:
  assumes "deriveScopeKey sha256 n = Inr k" "length (sha256 (scopePreimage n)) = 32"
  shows "parseScopeKey (Str k) = Inr k \<and>
    (\<forall>v. selectsScope (Some k) v \<longleftrightarrow> parseScopeKey v = Inr k)"
proof -
  have k: "k = bytesToHex (sha256 (scopePreimage n))" by (rule derive_valid_names(4) [OF assms(1)])
  then have p: "parseScopeKey (Str k) = Inr k"
    using assms(2) by (auto simp: parseScopeKey_def list_all_iff bytesToHex_hex)
  moreover have "v = Str k" if "parseScopeKey v = Inr k" for v
    using that by (cases v) (simp_all add: parseScopeKey_def split: if_splits)
  ultimately show ?thesis by (metis selectsScope.simps(2))
qed

theorem scope_key_roundtrip_witness:
  "\<exists>k. deriveScopeKey sampleDigest \<lparr>tenant = ''acme'', workspace = ''w1'', environment = None\<rparr> = Inr k \<and>
     parseScopeKey (Str k) = Inr k"
proof -
  let ?m = "\<lparr>tenant = ''acme'', workspace = ''w1'', environment = None\<rparr>"
  have "isOk (deriveScopeKey sampleDigest ?m)" by code_simp
  then obtain k where k: "deriveScopeKey sampleDigest ?m = Inr k" by (auto simp: isOk_iff)
  have "length (sampleDigest (scopePreimage ?m)) = 32" by (simp add: sampleDigest_def)
  from scope_key_roundtrip [OF k this] k show ?thesis by blast
qed

end
