(* ===== verification/Multi_Party.thy ===== *)
theory Multi_Party
  imports Policy_Resolver Keys
begin

text \<open>
  Multi-party signing of \<open>src/app/respondent-flow.ts\<close>: the required slots of a resolved policy,
  the signer state machine, its persisted form inside a draft response and the aggregate
  response. The policy is the resolved multi-party block of the profile (a JSON value); the
  canonical byte encoding of a response (\<open>@formspec-org/integrity-canonical\<close>) and SHA-256 are
  parameters, the latter absent when the browser has no WebCrypto. The wall clock is an argument.
\<close>

unbundle bit_operations_syntax

type_synonym FormResponse = jsval

record MultiPartyPartySlot =
  partyRef :: string
  roleId :: string
  slotLabel :: jsval

record MultiPartySignatureRecord =
  sigPartyRef :: string
  sigRoleId :: string
  sigSubjectRef :: string
  sigResponseRef :: string
  sigResponseHash :: string
  signedAt :: string

record MultiPartySignerProgress =
  activePartyRef :: string
  signatures :: "MultiPartySignatureRecord list"

record MultiPartyStoredResponse =
  storedPartyRef :: string
  storedResponse :: FormResponse

record MultiPartyPersistedState =
  progress :: MultiPartySignerProgress
  responses :: "MultiPartyStoredResponse list"

datatype multi_party_error =
    NoRequiredSlot | SignerMustAuthenticate | AlreadySigned string | IdentityNotDistinct
  | UnknownActiveParty string | MissingResponseSlice string | HashUnavailable


section \<open>Slots\<close>

text \<open>\<open>ref.replace(/[-_:]+/g, ' ')\<close>, then each word's first character in upper case.\<close>

definition isRefSeparator :: "char \<Rightarrow> bool" where
  "isRefSeparator c = (c \<in> set ''-_:'')"

fun spaceSeparators :: "bool \<Rightarrow> string \<Rightarrow> string" where
  "spaceSeparators inRun [] = []"
| "spaceSeparators inRun (c # cs) =
     (if isRefSeparator c then (if inRun then [] else '' '') @ spaceSeparators True cs
      else c # spaceSeparators False cs)"

definition isWordChar :: "char \<Rightarrow> bool" where
  "isWordChar c = (let n = of_char c :: nat in
     48 \<le> n \<and> n \<le> 57 \<or> 65 \<le> n \<and> n \<le> 90 \<or> 97 \<le> n \<and> n \<le> 122 \<or> n = 95)"

definition toUpperWord :: "char \<Rightarrow> char" where
  "toUpperWord c = (let n = of_char c :: nat in if 97 \<le> n \<and> n \<le> 122 then char_of (n - 32) else c)"

fun capitalizeWords :: "bool \<Rightarrow> string \<Rightarrow> string" where
  "capitalizeWords inWord [] = []"
| "capitalizeWords inWord (c # cs) =
     (if isWordChar c then (if inWord then c else toUpperWord c) # capitalizeWords True cs
      else c # capitalizeWords False cs)"

definition labelFromPartyRef :: "string \<Rightarrow> string" where
  "labelFromPartyRef ref = capitalizeWords False (spaceSeparators False ref)"

definition partyMin :: "jsval \<Rightarrow> nat" where
  "partyMin party = (case integerOf (getp (getp party ''cardinality'') ''min'') of
     None \<Rightarrow> 0 | Some n \<Rightarrow> nat n)"

definition partySlots :: "jsval \<Rightarrow> MultiPartyPartySlot list" where
  "partySlots party =
     (let count = partyMin party; role = strOf (getp party ''roleId'')
      in map (\<lambda>index.
           let ref = (if count = 1 then role else role @ '':'' @ showNat (index + 1))
           in \<lparr>partyRef = ref, roleId = role,
               slotLabel = coalesce (getp party ''label'') (Str (labelFromPartyRef ref))\<rparr>)
         [0..<count])"

definition requiredMultiPartySlots :: "jsval \<Rightarrow> MultiPartyPartySlot list" where
  "requiredMultiPartySlots policy = concat (map partySlots (arrItems (getp policy ''parties'')))"

definition slotRefs :: "jsval \<Rightarrow> string list" where
  "slotRefs policy = map partyRef (requiredMultiPartySlots policy)"


section \<open>The signer state machine\<close>

definition createMultiPartySignerProgress :: "jsval \<Rightarrow> multi_party_error + MultiPartySignerProgress" where
  "createMultiPartySignerProgress policy = (case requiredMultiPartySlots policy of
     [] \<Rightarrow> Inl NoRequiredSlot
   | first # _ \<Rightarrow> Inr \<lparr>activePartyRef = partyRef first, signatures = []\<rparr>)"

definition createMultiPartyPersistedState :: "jsval \<Rightarrow> multi_party_error + MultiPartyPersistedState" where
  "createMultiPartyPersistedState policy =
     bindR (createMultiPartySignerProgress policy) (\<lambda>p. Inr \<lparr>progress = p, responses = []\<rparr>)"

text \<open>The claim is the subject reference of the authenticated identity, if there is one.\<close>

definition assertMultiPartySignerCanSubmit ::
  "string option \<Rightarrow> jsval \<Rightarrow> MultiPartySignerProgress \<Rightarrow> multi_party_error + MultiPartyPartySlot" where
  "assertMultiPartySignerCanSubmit claim policy p = (case claim of
     None \<Rightarrow> Inl SignerMustAuthenticate
   | Some subjectRef \<Rightarrow>
       if list_ex (\<lambda>s. sigPartyRef s = activePartyRef p) (signatures p) then
         Inl (AlreadySigned (activePartyRef p))
       else if list_ex (\<lambda>s. sigSubjectRef s = subjectRef \<and> sigPartyRef s \<noteq> activePartyRef p) (signatures p)
       then Inl IdentityNotDistinct
       else (case find (\<lambda>slot. partyRef slot = activePartyRef p) (requiredMultiPartySlots policy) of
           None \<Rightarrow> Inl (UnknownActiveParty (activePartyRef p))
         | Some slot \<Rightarrow> Inr slot))"

definition responseHash ::
  "(byte list \<Rightarrow> byte list) option \<Rightarrow> (FormResponse \<Rightarrow> byte list) \<Rightarrow> FormResponse \<Rightarrow> multi_party_error + string" where
  "responseHash sha256 canonical response = (case sha256 of
     None \<Rightarrow> Inl HashUnavailable
   | Some digest \<Rightarrow> Inr (''sha256:'' @ bytesToHex (digest (canonical response))))"

definition recordMultiPartySigner ::
  "(byte list \<Rightarrow> byte list) option \<Rightarrow> (FormResponse \<Rightarrow> byte list) \<Rightarrow> string \<Rightarrow> string option \<Rightarrow> string \<Rightarrow>
   jsval \<Rightarrow> MultiPartySignerProgress \<Rightarrow> FormResponse \<Rightarrow> multi_party_error + MultiPartySignerProgress" where
  "recordMultiPartySigner sha256 canonical now claim key policy p response =
     bindR (assertMultiPartySignerCanSubmit claim policy p) (\<lambda>activeSlot.
     bindR (responseHash sha256 canonical response) (\<lambda>digest.
       let next = signatures p @
             [\<lparr>sigPartyRef = partyRef activeSlot, sigRoleId = roleId activeSlot,
               sigSubjectRef = (case claim of None \<Rightarrow> [] | Some s \<Rightarrow> s),
               sigResponseRef = ''response:'' @ strOf (coalesce (getp response ''id'') (Str key)),
               sigResponseHash = digest, signedAt = now\<rparr>];
           nextSlot = find (\<lambda>slot. \<not> list_ex (\<lambda>s. sigPartyRef s = partyRef slot) next)
                        (requiredMultiPartySlots policy)
       in Inr \<lparr>activePartyRef = (case nextSlot of None \<Rightarrow> partyRef activeSlot | Some slot \<Rightarrow> partyRef slot),
               signatures = next\<rparr>))"

definition multiPartyComplete :: "jsval \<Rightarrow> MultiPartySignerProgress \<Rightarrow> bool" where
  "multiPartyComplete policy p =
     (let signed = map sigPartyRef (signatures p)
      in list_all (\<lambda>slot. partyRef slot \<in> set signed) (requiredMultiPartySlots policy))"

definition recordMultiPartySignerState ::
  "(byte list \<Rightarrow> byte list) option \<Rightarrow> (FormResponse \<Rightarrow> byte list) \<Rightarrow> string \<Rightarrow> string option \<Rightarrow> string \<Rightarrow>
   jsval \<Rightarrow> MultiPartyPersistedState \<Rightarrow> FormResponse \<Rightarrow> multi_party_error + MultiPartyPersistedState" where
  "recordMultiPartySignerState sha256 canonical now claim key policy state response =
     (let active = activePartyRef (progress state)
      in bindR (recordMultiPartySigner sha256 canonical now claim key policy (progress state) response) (\<lambda>p.
         Inr \<lparr>progress = p,
              responses = filter (\<lambda>e. storedPartyRef e \<noteq> active) (responses state) @
                [\<lparr>storedPartyRef = active, storedResponse = response\<rparr>]\<rparr>))"


section \<open>Persistence in a draft response\<close>

definition MULTI_PARTY_DATA_KEY :: string where
  "MULTI_PARTY_DATA_KEY = ''x-formspec-multi-party''"

definition isMultiPartySignatureRecord :: "jsval \<Rightarrow> bool" where
  "isMultiPartySignatureRecord value =
     (isPlainObject value \<and>
      isString (getp value ''partyRef'') \<and> isString (getp value ''roleId'') \<and>
      isString (getp value ''subjectRef'') \<and> isString (getp value ''responseRef'') \<and>
      isString (getp value ''responseHash'') \<and> isString (getp value ''signedAt''))"

definition isMultiPartyStoredResponse :: "jsval \<Rightarrow> bool" where
  "isMultiPartyStoredResponse value =
     (isPlainObject value \<and> isString (getp value ''partyRef'') \<and> isPlainObject (getp value ''response'') \<and>
      getp (getp value ''response'') ''$formspecResponse'' = Str ''1.0'')"

text \<open>The typed views of a record the guards accepted, and the JSON the records serialize to.\<close>

definition signatureOf :: "jsval \<Rightarrow> MultiPartySignatureRecord" where
  "signatureOf v = \<lparr>sigPartyRef = strOf (getp v ''partyRef''), sigRoleId = strOf (getp v ''roleId''),
     sigSubjectRef = strOf (getp v ''subjectRef''), sigResponseRef = strOf (getp v ''responseRef''),
     sigResponseHash = strOf (getp v ''responseHash''), signedAt = strOf (getp v ''signedAt'')\<rparr>"

definition signatureJson :: "MultiPartySignatureRecord \<Rightarrow> jsval" where
  "signatureJson s = Obj [(''partyRef'', Str (sigPartyRef s)), (''roleId'', Str (sigRoleId s)),
     (''subjectRef'', Str (sigSubjectRef s)), (''responseRef'', Str (sigResponseRef s)),
     (''responseHash'', Str (sigResponseHash s)), (''signedAt'', Str (signedAt s))]"

definition storedOf :: "jsval \<Rightarrow> MultiPartyStoredResponse" where
  "storedOf v = \<lparr>storedPartyRef = strOf (getp v ''partyRef''), storedResponse = getp v ''response''\<rparr>"

definition storedJson :: "MultiPartyStoredResponse \<Rightarrow> jsval" where
  "storedJson r = Obj [(''partyRef'', Str (storedPartyRef r)), (''response'', storedResponse r)]"

definition multiPartyStateDraftResponse ::
  "string \<Rightarrow> string \<Rightarrow> string \<Rightarrow> MultiPartyPersistedState \<Rightarrow> FormResponse" where
  "multiPartyStateDraftResponse now url version state = Obj
     [(''$formspecResponse'', Str ''1.0''), (''definitionUrl'', Str url),
      (''definitionVersion'', Str version), (''status'', Str ''in-progress''),
      (''data'', Obj [(MULTI_PARTY_DATA_KEY, Obj
         [(''activePartyRef'', Str (activePartyRef (progress state))),
          (''signatures'', Arr (map signatureJson (signatures (progress state)))),
          (''responses'', Arr (map storedJson (responses state)))])]),
      (''authored'', Str now)]"

definition multiPartyStateFromDraft ::
  "FormResponse option \<Rightarrow> jsval \<Rightarrow> multi_party_error + MultiPartyPersistedState" where
  "multiPartyStateFromDraft response policy = (case response of
     None \<Rightarrow> createMultiPartyPersistedState policy
   | Some r \<Rightarrow>
      (let raw = getp (getp r ''data'') MULTI_PARTY_DATA_KEY;
           slots = requiredMultiPartySlots policy;
           refs = set (map partyRef slots);
           saved = getp raw ''activePartyRef'';
           active = (if isString saved \<and> strOf saved \<in> refs then Some (strOf saved)
                     else case slots of [] \<Rightarrow> None | first # _ \<Rightarrow> Some (partyRef first));
           sigs = filter isMultiPartySignatureRecord (arrItems (getp raw ''signatures''));
           resps = filter isMultiPartyStoredResponse (arrItems (getp raw ''responses''))
       in if \<not> isPlainObject raw then createMultiPartyPersistedState policy
          else (case active of
              None \<Rightarrow> createMultiPartyPersistedState policy
            | Some [] \<Rightarrow> createMultiPartyPersistedState policy
            | Some ref \<Rightarrow> Inr
                \<lparr>progress = \<lparr>activePartyRef = ref,
                    signatures = filter (\<lambda>s. sigPartyRef s \<in> refs) (map signatureOf sigs)\<rparr>,
                 responses = filter (\<lambda>e. storedPartyRef e \<in> refs) (map storedOf resps)\<rparr>)))"


section \<open>Draft keys\<close>

record DraftKey =
  formUrl :: string
  formVersion :: "string option"
  draftSubjectRef :: "string option"
  draftPartyRef :: "string option"

definition MULTI_PARTY_PROGRESS_PARTY_REF :: string where
  "MULTI_PARTY_PROGRESS_PARTY_REF = ''__formspec-multi-party-progress''"

definition multiPartyDraftKey :: "DraftKey \<Rightarrow> string option \<Rightarrow> DraftKey" where
  "multiPartyDraftKey base ref = (case ref of
     None \<Rightarrow> base | Some [] \<Rightarrow> base | Some r \<Rightarrow> base\<lparr>draftPartyRef := Some r\<rparr>)"

text \<open>
  FNV-1a on 32 bits: \<open>hash ^= byte\<close> and \<open>Math.imul\<close> both wrap to a signed 32-bit number, which
  \<open>toString(16)\<close> prints with its sign.
\<close>

definition fallbackHashStep :: "32 word \<Rightarrow> byte \<Rightarrow> 32 word" where
  "fallbackHashStep hash byte = (hash XOR ucast byte) * 16777619"

fun hexNat :: "nat \<Rightarrow> string" where
  "hexNat n = (if n < 16 then [hexDigit n] else hexNat (n div 16) @ [hexDigit (n mod 16)])"

declare hexNat.simps [simp del]

definition hexInt :: "int \<Rightarrow> string" where
  "hexInt i = (if i < 0 then ''-'' @ hexNat (nat (- i)) else hexNat (nat i))"

definition fallbackHash :: "byte list \<Rightarrow> string" where
  "fallbackHash bytes = padStart 8 (CHR ''0'')
     (if bytes = [] then hexNat 2166136261 else hexInt (sint (foldl fallbackHashStep 2166136261 bytes)))"

definition stableFormScope :: "string \<Rightarrow> string option \<Rightarrow> string" where
  "stableFormScope url version =
     fallbackHash (utf8 (url @ ''|'' @ (case version of None \<Rightarrow> ''latest'' | Some v \<Rightarrow> v)))"

definition multiPartyProgressDraftKey :: "DraftKey \<Rightarrow> DraftKey" where
  "multiPartyProgressDraftKey base =
     \<lparr>formUrl = formUrl base, formVersion = formVersion base,
      draftSubjectRef = Some (''formspec:multi-party:'' @ stableFormScope (formUrl base) (formVersion base)),
      draftPartyRef = Some MULTI_PARTY_PROGRESS_PARTY_REF\<rparr>"


section \<open>The aggregate response\<close>

definition signedResponse :: "MultiPartyPersistedState \<Rightarrow> MultiPartySignatureRecord \<Rightarrow>
    multi_party_error + MultiPartySignatureRecord \<times> FormResponse" where
  "signedResponse state s = (case find (\<lambda>e. storedPartyRef e = sigPartyRef s) (responses state) of
     None \<Rightarrow> Inl (MissingResponseSlice (sigPartyRef s))
   | Some stored \<Rightarrow> Inr (s, storedResponse stored))"

definition partyMembers :: "MultiPartySignatureRecord \<Rightarrow> props" where
  "partyMembers s = [(''partyRef'', Str (sigPartyRef s)), (''roleId'', Str (sigRoleId s)),
     (''subjectRef'', Str (sigSubjectRef s))]"

definition buildMultiPartyAggregateResponse ::
  "string \<Rightarrow> string \<Rightarrow> string \<Rightarrow> string \<Rightarrow> MultiPartyPersistedState \<Rightarrow> multi_party_error + FormResponse" where
  "buildMultiPartyAggregateResponse now url version i state =
     bindR (mapR (signedResponse state) (signatures (progress state))) (\<lambda>signed.
       let sigs = Arr (map signatureJson (signatures (progress state)));
           merged = foldl (\<lambda>acc (s, r). spread acc (ownProps (getp r ''data''))) [] signed;
           slices = Arr (map (\<lambda>(s, r). Obj (partyMembers s @
                      [(''responseId'', getp r ''id''), (''responseData'', getp r ''data'')])) signed);
           full = Arr (map (\<lambda>(s, r). Obj (partyMembers s @ [(''response'', r)])) signed)
       in Inr (Obj
         [(''$formspecResponse'', Str ''1.0''), (''definitionUrl'', Str url),
          (''definitionVersion'', Str version), (''status'', Str ''completed''), (''id'', Str i),
          (''data'', Obj (setProp MULTI_PARTY_DATA_KEY
             (Obj [(''partySignatures'', sigs), (''partyResponses'', slices)]) merged)),
          (''authored'', Str now),
          (''extensions'', Obj [(MULTI_PARTY_DATA_KEY,
             Obj [(''partySignatures'', sigs), (''partyResponses'', full)])])]))"


section \<open>Signing steps and their invariant\<close>

inductive signing :: "(byte list \<Rightarrow> byte list) option \<Rightarrow> (FormResponse \<Rightarrow> byte list) \<Rightarrow> jsval \<Rightarrow>
    MultiPartyPersistedState \<Rightarrow> bool" for sha256 canonical policy where
  init: "createMultiPartyPersistedState policy = Inr st \<Longrightarrow> signing sha256 canonical policy st"
| sign: "signing sha256 canonical policy st \<Longrightarrow>
    recordMultiPartySignerState sha256 canonical now claim key policy st response = Inr st' \<Longrightarrow>
    signing sha256 canonical policy st'"

definition signedRefs :: "MultiPartySignerProgress \<Rightarrow> string list" where
  "signedRefs p = map sigPartyRef (signatures p)"

definition signerInv :: "jsval \<Rightarrow> MultiPartyPersistedState \<Rightarrow> bool" where
  "signerInv policy st \<longleftrightarrow>
     distinct (signedRefs (progress st)) \<and> distinct (map sigSubjectRef (signatures (progress st))) \<and>
     (\<forall>s\<in>set (signatures (progress st)). \<exists>slot\<in>set (requiredMultiPartySlots policy).
        partyRef slot = sigPartyRef s \<and> roleId slot = sigRoleId s) \<and>
     activePartyRef (progress st) \<in> set (slotRefs policy) \<and>
     (multiPartyComplete policy (progress st) \<or>
        activePartyRef (progress st) \<notin> set (signedRefs (progress st))) \<and>
     set (signedRefs (progress st)) \<subseteq> storedPartyRef ` set (responses st)"

lemma multiPartyComplete_iff: "multiPartyComplete policy p \<longleftrightarrow> set (slotRefs policy) \<subseteq> set (signedRefs p)"
  by (auto simp: multiPartyComplete_def list_all_iff slotRefs_def signedRefs_def)

lemma assertMultiPartySignerCanSubmit_ok:
  "assertMultiPartySignerCanSubmit claim policy p = Inr slot \<Longrightarrow>
     \<exists>subject. claim = Some subject \<and> activePartyRef p \<notin> set (signedRefs p) \<and>
       subject \<notin> sigSubjectRef ` set (signatures p) \<and>
       slot \<in> set (requiredMultiPartySlots policy) \<and> partyRef slot = activePartyRef p"
  by (auto simp: assertMultiPartySignerCanSubmit_def signedRefs_def list_ex_iff find_Some_iff
      split: option.splits if_splits dest: nth_mem)

lemma recordMultiPartySigner_ok:
  assumes "recordMultiPartySigner sha256 canonical now claim key policy p response = Inr p'"
  obtains subject slot s where "claim = Some subject" "activePartyRef p \<notin> set (signedRefs p)"
    "subject \<notin> sigSubjectRef ` set (signatures p)" "slot \<in> set (requiredMultiPartySlots policy)"
    "partyRef slot = activePartyRef p" "sigPartyRef s = partyRef slot" "sigRoleId s = roleId slot"
    "sigSubjectRef s = subject" "signatures p' = signatures p @ [s]"
    "activePartyRef p' \<in> set (slotRefs policy)"
    "multiPartyComplete policy p' \<or> activePartyRef p' \<notin> set (signedRefs p')"
proof -
  obtain slot digest where a: "assertMultiPartySignerCanSubmit claim policy p = Inr slot"
    and d: "responseHash sha256 canonical response = Inr digest"
    using assms by (auto simp: recordMultiPartySigner_def bindR_Inr_iff)
  obtain subject where c: "claim = Some subject" "activePartyRef p \<notin> set (signedRefs p)"
    "subject \<notin> sigSubjectRef ` set (signatures p)" "slot \<in> set (requiredMultiPartySlots policy)"
    "partyRef slot = activePartyRef p"
    using assertMultiPartySignerCanSubmit_ok [OF a] by blast
  define s where "s = \<lparr>sigPartyRef = partyRef slot, sigRoleId = roleId slot, sigSubjectRef = subject,
     sigResponseRef = ''response:'' @ strOf (coalesce (getp response ''id'') (Str key)),
     sigResponseHash = digest, signedAt = now\<rparr>"
  let ?next = "find (\<lambda>slot. \<not> list_ex (\<lambda>s. sigPartyRef s = partyRef slot) (signatures p @ [s]))
      (requiredMultiPartySlots policy)"
  have p': "p' = \<lparr>activePartyRef = (case ?next of None \<Rightarrow> partyRef slot | Some slot \<Rightarrow> partyRef slot),
      signatures = signatures p @ [s]\<rparr>"
    using assms a d c(1) by (simp add: recordMultiPartySigner_def Let_def s_def)
  have act: "activePartyRef p' \<in> set (slotRefs policy) \<and>
      (multiPartyComplete policy p' \<or> activePartyRef p' \<notin> set (signedRefs p'))"
  proof (cases ?next)
    case None
    then have "\<forall>slot'\<in>set (requiredMultiPartySlots policy). \<exists>x\<in>set (signatures p @ [s]).
        sigPartyRef x = partyRef slot'" unfolding find_None_iff list_ex_iff by blast
    then have "multiPartyComplete policy p'"
      unfolding multiPartyComplete_def Let_def list_all_iff p' by (simp; metis image_eqI)
    with None c(4) show ?thesis by (simp add: p' slotRefs_def)
  next
    case (Some slot')
    then have "slot' \<in> set (requiredMultiPartySlots policy)" "partyRef slot' \<notin> set (signedRefs p')"
      by (auto simp: find_Some_iff signedRefs_def p' list_ex_iff)
    with Some show ?thesis by (simp add: p' slotRefs_def)
  qed
  show ?thesis
    by (rule that [OF c, of s]) (use act in \<open>simp_all add: s_def p'\<close>)
qed

lemma signing_inv: "signing sha256 canonical policy st \<Longrightarrow> signerInv policy st"
proof (induction rule: signing.induct)
  case (init st)
  then show ?case
    by (auto simp: createMultiPartyPersistedState_def createMultiPartySignerProgress_def bindR_Inr_iff
        signerInv_def signedRefs_def slotRefs_def split: list.splits)
next
  case (sign st now claim key response st')
  have rec: "recordMultiPartySigner sha256 canonical now claim key policy (progress st) response = Inr (progress st')"
    and resp: "responses st' = filter (\<lambda>e. storedPartyRef e \<noteq> activePartyRef (progress st)) (responses st) @
      [\<lparr>storedPartyRef = activePartyRef (progress st), storedResponse = response\<rparr>]"
    using sign.hyps(2) by (auto simp: recordMultiPartySignerState_def bindR_Inr_iff Let_def)
  have stored: "storedPartyRef ` set (responses st') = insert (activePartyRef (progress st)) (storedPartyRef ` set (responses st))"
    unfolding resp by auto
  show ?case
    using rec
  proof (rule recordMultiPartySigner_ok)
    fix subject slot s
    assume h: "activePartyRef (progress st) \<notin> set (signedRefs (progress st))"
      "subject \<notin> sigSubjectRef ` set (signatures (progress st))"
      "slot \<in> set (requiredMultiPartySlots policy)" "partyRef slot = activePartyRef (progress st)"
      "sigPartyRef s = partyRef slot" "sigRoleId s = roleId slot" "sigSubjectRef s = subject"
      "signatures (progress st') = signatures (progress st) @ [s]"
      "activePartyRef (progress st') \<in> set (slotRefs policy)"
      "multiPartyComplete policy (progress st') \<or>
         activePartyRef (progress st') \<notin> set (signedRefs (progress st'))"
    have refs: "signedRefs (progress st') = signedRefs (progress st) @ [activePartyRef (progress st)]"
      using h by (simp add: signedRefs_def)
    show ?thesis
      unfolding signerInv_def refs stored h(8) using sign.IH h
      by (auto simp: signerInv_def refs)
  qed
qed

section \<open>Slot references\<close>

lemma partySlots_role: "slot \<in> set (partySlots party) \<Longrightarrow> roleId slot = strOf (getp party ''roleId'')"
  by (auto simp: partySlots_def Let_def)

lemma distinct_partySlots: "distinct (map partyRef (partySlots party))"
proof (cases "partyMin party = 1")
  case True
  then show ?thesis by (simp add: partySlots_def Let_def)
next
  case False
  then show ?thesis by (simp add: partySlots_def Let_def comp_def distinct_map inj_on_def)
qed

lemma takeWhile_colon:
  assumes "CHR '':'' \<notin> set w"
  shows "takeWhile (\<lambda>c. c \<noteq> CHR '':'') w = w" "takeWhile (\<lambda>c. c \<noteq> CHR '':'') (w @ CHR '':'' # u) = w"
  using assms by (induction w) auto

lemma colon_free_role:
  assumes "CHR '':'' \<notin> set (strOf (getp party ''roleId''))" "slot \<in> set (partySlots party)"
  shows "takeWhile (\<lambda>c. c \<noteq> CHR '':'') (partyRef slot) = roleId slot"
proof -
  have "partyRef slot = strOf (getp party ''roleId'') \<or>
      (\<exists>u. partyRef slot = strOf (getp party ''roleId'') @ CHR '':'' # u)"
    using assms(2) by (cases "partyMin party = 1") (auto simp: partySlots_def Let_def)
  then show ?thesis
  proof (elim disjE exE)
    assume "partyRef slot = strOf (getp party ''roleId'')"
    then show ?thesis by (simp only: takeWhile_colon(1) [OF assms(1)] partySlots_role [OF assms(2)])
  next
    fix u assume "partyRef slot = strOf (getp party ''roleId'') @ CHR '':'' # u"
    then show ?thesis by (simp only: takeWhile_colon(2) [OF assms(1)] partySlots_role [OF assms(2)])
  qed
qed

lemma slot_role_unique:
  assumes "\<forall>p\<in>set (arrItems (getp policy ''parties'')). CHR '':'' \<notin> set (strOf (getp p ''roleId''))"
    and "s1 \<in> set (requiredMultiPartySlots policy)" "s2 \<in> set (requiredMultiPartySlots policy)"
    "partyRef s1 = partyRef s2"
  shows "roleId s1 = roleId s2"
proof -
  have "takeWhile (\<lambda>c. c \<noteq> CHR '':'') (partyRef s) = roleId s" if "s \<in> set (requiredMultiPartySlots policy)" for s
    using that assms(1) colon_free_role by (auto simp: requiredMultiPartySlots_def)
  with assms show ?thesis by metis
qed



section \<open>Properties\<close>

text \<open>C26. Each party signs once and with its own identity: in every reachable signing state the
  signed party references are pairwise distinct, so are the authenticated subjects, and every
  signature belongs to a required slot of the policy with the slot's role.\<close>

theorem signing_one_identity_per_party:
  assumes "signing sha256 canonical policy st"
  shows "distinct (map sigPartyRef (signatures (progress st))) \<and>
    distinct (map sigSubjectRef (signatures (progress st))) \<and>
    (\<forall>s\<in>set (signatures (progress st)). \<exists>slot\<in>set (requiredMultiPartySlots policy).
       partyRef slot = sigPartyRef s \<and> roleId slot = sigRoleId s)"
  using signing_inv [OF assms] by (simp add: signerInv_def signedRefs_def)

definition sampleParty :: "string \<Rightarrow> int \<Rightarrow> jsval" where
  "sampleParty r n = Obj [(''roleId'', Str r), (''role'', Str ''coEqual''),
     (''cardinality'', Obj [(''min'', jsInt n), (''max'', jsInt n)]), (''visibilityScope'', Str ''shared'')]"

definition samplePolicy :: "jsval list \<Rightarrow> jsval" where
  "samplePolicy ps = Obj [(''tier'', Str ''coEqual''), (''parties'', Arr ps),
     (''invitationChannel'', Str ''out-of-band'')]"

definition sampleResponse :: FormResponse where
  "sampleResponse = Obj [(''$formspecResponse'', Str ''1.0''), (''id'', Str ''r1''),
     (''data'', Obj [(''a'', Bool True)])]"

definition sampleSign :: "jsval \<Rightarrow> string \<Rightarrow> multi_party_error + MultiPartyPersistedState \<Rightarrow>
    multi_party_error + MultiPartyPersistedState" where
  "sampleSign policy subject st = bindR st (\<lambda>s.
     recordMultiPartySignerState (Some sampleDigest) (\<lambda>_. []) ''now'' (Some subject) ''k'' policy s sampleResponse)"

lemma sampleSign_signing:
  assumes "\<And>s. st = Inr s \<Longrightarrow> signing (Some sampleDigest) (\<lambda>_. []) policy s"
    and "sampleSign policy subject st = Inr s'"
  shows "signing (Some sampleDigest) (\<lambda>_. []) policy s'"
  using assms by (auto simp: sampleSign_def bindR_Inr_iff intro: signing.sign)

definition couplePolicy :: jsval where
  "couplePolicy = samplePolicy [sampleParty ''a'' 1, sampleParty ''b'' 1]"

definition coupleState :: "multi_party_error + MultiPartyPersistedState" where
  "coupleState = sampleSign couplePolicy ''s2'' (sampleSign couplePolicy ''s1''
     (createMultiPartyPersistedState couplePolicy))"

lemma coupleState_signing: "coupleState = Inr st \<Longrightarrow> signing (Some sampleDigest) (\<lambda>_. []) couplePolicy st"
  unfolding coupleState_def
  by (elim sampleSign_signing [rotated]) (rule signing.init)

theorem signing_one_identity_per_party_witness:
  "\<exists>st. coupleState = Inr st \<and> length (signatures (progress st)) = 2 \<and>
     distinct (map sigSubjectRef (signatures (progress st)))"
proof -
  have "map_sum id (\<lambda>s. length (signatures (progress s))) coupleState = Inr 2" by code_simp
  from map_sum_InrD [OF this]
  obtain st where st: "coupleState = Inr st" "length (signatures (progress st)) = 2" by blast
  from signing_one_identity_per_party [OF coupleState_signing [OF st(1)]] st show ?thesis by blast
qed

text \<open>Signing cannot get stuck: until the form is complete a signer with an identity that has not
  signed yet always succeeds, the attempt adds exactly one signature, and the form is complete
  exactly when as many parties signed as there are distinct slots.\<close>

theorem signing_progresses:
  assumes reach: "signing (Some digest) canonical policy st"
    and open': "\<not> multiPartyComplete policy (progress st)"
    and new: "subject \<notin> sigSubjectRef ` set (signatures (progress st))"
  shows "\<exists>st'. recordMultiPartySignerState (Some digest) canonical now (Some subject) key policy st response = Inr st' \<and>
    length (signatures (progress st')) = Suc (length (signatures (progress st))) \<and>
    (multiPartyComplete policy (progress st') \<longleftrightarrow>
       length (signatures (progress st')) = card (set (slotRefs policy)))"
proof -
  let ?p = "progress st"
  have inv: "signerInv policy st" by (rule signing_inv [OF reach])
  have act: "activePartyRef ?p \<in> set (slotRefs policy)" "activePartyRef ?p \<notin> set (signedRefs ?p)"
    using inv open' by (auto simp: signerInv_def)
  obtain slot where f: "find (\<lambda>slot. partyRef slot = activePartyRef ?p) (requiredMultiPartySlots policy) = Some slot"
    using act(1) by (cases "find (\<lambda>slot. partyRef slot = activePartyRef ?p) (requiredMultiPartySlots policy)")
      (auto simp: find_None_iff slotRefs_def)
  have "\<not> list_ex (\<lambda>s. sigPartyRef s = activePartyRef ?p) (signatures ?p)"
    using act(2) unfolding list_ex_iff signedRefs_def set_map by (metis imageI)
  moreover have "\<not> list_ex (\<lambda>s. sigSubjectRef s = subject \<and> sigPartyRef s \<noteq> activePartyRef ?p) (signatures ?p)"
    using new by (auto simp: list_ex_iff)
  ultimately have "isOk (assertMultiPartySignerCanSubmit (Some subject) policy ?p)"
    by (simp add: assertMultiPartySignerCanSubmit_def f)
  then obtain st' where st': "recordMultiPartySignerState (Some digest) canonical now (Some subject) key policy st response = Inr st'"
    by (auto simp: recordMultiPartySignerState_def recordMultiPartySigner_def responseHash_def isOk_iff Let_def)
  then have rec: "recordMultiPartySigner (Some digest) canonical now (Some subject) key policy ?p response = Inr (progress st')"
    by (auto simp: recordMultiPartySignerState_def bindR_Inr_iff Let_def)
  obtain s where s: "signatures (progress st') = signatures ?p @ [s]"
    using rec by (rule recordMultiPartySigner_ok) blast
  have inv': "signerInv policy st'" by (rule signing_inv [OF signing.sign [OF reach st']])
  have "length (signatures (progress st')) = card (set (signedRefs (progress st')))"
    using distinct_card [of "signedRefs (progress st')"] inv' by (simp add: signerInv_def signedRefs_def)
  moreover have "set (signedRefs (progress st')) \<subseteq> set (slotRefs policy)"
    using inv' unfolding signerInv_def signedRefs_def slotRefs_def set_map by (metis image_subsetI imageI)
  ultimately have "multiPartyComplete policy (progress st') \<longleftrightarrow>
      length (signatures (progress st')) = card (set (slotRefs policy))"
    using card_subset_eq [of "set (slotRefs policy)" "set (signedRefs (progress st'))"]
    unfolding multiPartyComplete_iff by (metis finite_set subset_antisym subset_refl)
  with st' s show ?thesis by auto
qed

theorem signing_progresses_witness:
  "\<exists>st'. recordMultiPartySignerState (Some sampleDigest) (\<lambda>_. []) ''now'' (Some ''s1'') ''k'' couplePolicy
     \<lparr>progress = \<lparr>activePartyRef = ''a'', signatures = []\<rparr>, responses = []\<rparr> sampleResponse = Inr st' \<and>
     \<not> multiPartyComplete couplePolicy (progress st')"
proof -
  let ?s = "\<lparr>progress = \<lparr>activePartyRef = ''a'', signatures = []\<rparr>, responses = []\<rparr>"
  have r: "slotRefs couplePolicy = [''a'', ''b'']" by code_simp
  have "createMultiPartyPersistedState couplePolicy = Inr ?s" by code_simp
  then have i: "signing (Some sampleDigest) (\<lambda>_. []) couplePolicy ?s" by (rule signing.init)
  have n: "\<not> multiPartyComplete couplePolicy (progress ?s)" by (simp add: multiPartyComplete_iff r signedRefs_def)
  have e: "''s1'' \<notin> sigSubjectRef ` set (signatures (progress ?s))" by simp
  from signing_progresses [OF i n e, of "''now''" "''k''" sampleResponse] show ?thesis
    by (auto simp: r)
qed

text \<open>When role ids contain no colon, completion means what the policy says: a complete reachable
  state holds at least the required minimum of signatures for every role.\<close>

theorem complete_meets_minimums:
  assumes reach: "signing sha256 canonical policy st"
    and colon: "\<forall>p\<in>set (arrItems (getp policy ''parties'')). CHR '':'' \<notin> set (strOf (getp p ''roleId''))"
    and done': "multiPartyComplete policy (progress st)"
    and party: "party \<in> set (arrItems (getp policy ''parties''))"
  shows "partyMin party \<le> length (filter (\<lambda>s. sigRoleId s = strOf (getp party ''roleId'')) (signatures (progress st)))"
proof -
  let ?fs = "filter (\<lambda>s. sigRoleId s = strOf (getp party ''roleId'')) (signatures (progress st))"
  have inv: "signerInv policy st" by (rule signing_inv [OF reach])
  have "partyRef slot \<in> sigPartyRef ` set ?fs" if slot: "slot \<in> set (partySlots party)" for slot
  proof -
    have mem: "slot \<in> set (requiredMultiPartySlots policy)"
      using slot party by (auto simp: requiredMultiPartySlots_def)
    then have "partyRef slot \<in> set (signedRefs (progress st))"
      using done' by (auto simp: multiPartyComplete_iff slotRefs_def)
    then obtain s where s: "s \<in> set (signatures (progress st))" "sigPartyRef s = partyRef slot"
      by (auto simp: signedRefs_def)
    then obtain slot' where "slot' \<in> set (requiredMultiPartySlots policy)" "partyRef slot' = sigPartyRef s"
      "roleId slot' = sigRoleId s" using inv by (auto simp: signerInv_def)
    then have "sigRoleId s = roleId slot" using slot_role_unique [OF colon _ mem, of slot'] s(2) by simp
    then show ?thesis using s partySlots_role [OF slot] by (auto intro!: image_eqI [of _ _ s])
  qed
  then have "set (map partyRef (partySlots party)) \<subseteq> set (map sigPartyRef ?fs)" by auto
  then have "card (set (map partyRef (partySlots party))) \<le> card (set (map sigPartyRef ?fs))"
    by (rule card_mono [OF finite_set])
  also have "\<dots> \<le> length ?fs" using card_length [of "map sigPartyRef ?fs"] by simp
  finally have "card (set (map partyRef (partySlots party))) \<le> length ?fs" .
  then have "length (partySlots party) \<le> length ?fs"
    unfolding distinct_card [OF distinct_partySlots] by (simp only: length_map)
  then show ?thesis by (simp add: partySlots_def Let_def)
qed

theorem complete_meets_minimums_witness:
  "\<exists>st. coupleState = Inr st \<and>
     1 \<le> length (filter (\<lambda>s. sigRoleId s = ''b'') (signatures (progress st)))"
proof -
  have "map_sum id (\<lambda>s. multiPartyComplete couplePolicy (progress s)) coupleState = Inr True" by code_simp
  from map_sum_InrD [OF this]
  obtain st where st: "coupleState = Inr st" "multiPartyComplete couplePolicy (progress st)" by auto
  have c: "\<forall>p\<in>set (arrItems (getp couplePolicy ''parties'')). CHR '':'' \<notin> set (strOf (getp p ''roleId''))"
    by code_simp
  have m: "sampleParty ''b'' 1 \<in> set (arrItems (getp couplePolicy ''parties''))"
    by (simp add: couplePolicy_def samplePolicy_def)
  have "partyMin (sampleParty ''b'' 1) = 1" "strOf (getp (sampleParty ''b'' 1) ''roleId'') = ''b''" by code_simp+
  with complete_meets_minimums [OF coupleState_signing [OF st(1)] c st(2) m] st(1) show ?thesis by auto
qed

definition collidingPolicy :: jsval where
  "collidingPolicy = samplePolicy [sampleParty ''a'' 2, sampleParty ''a:1'' 1]"

definition collidingState :: "multi_party_error + MultiPartyPersistedState" where
  "collidingState = sampleSign collidingPolicy ''s2'' (sampleSign collidingPolicy ''s1''
     (createMultiPartyPersistedState collidingPolicy))"

text \<open>Slot references collide: a policy that the resolver accepts, with a role \<open>a\<close> of two signers
  and a role \<open>a:1\<close> of one, is complete after two signatures although nobody signed for
  \<open>a:1\<close>, because \<open>a\<close>'s first slot and the role \<open>a:1\<close> have the same reference.\<close>

theorem slot_reference_collision:
  "validateMultiPartyLimits collidingPolicy FormDoc = Inr () \<and>
   (\<exists>st. signing (Some sampleDigest) (\<lambda>_. []) collidingPolicy st \<and>
      multiPartyComplete collidingPolicy (progress st) \<and>
      ''a:1'' \<notin> sigRoleId ` set (signatures (progress st)))"
proof
  show "validateMultiPartyLimits collidingPolicy FormDoc = Inr ()" by code_simp
  have "map_sum id (\<lambda>s. (multiPartyComplete collidingPolicy (progress s), map sigRoleId (signatures (progress s))))
      collidingState = Inr (True, [''a'', ''a''])" by code_simp
  from map_sum_InrD [OF this] obtain st where st: "collidingState = Inr st"
    "multiPartyComplete collidingPolicy (progress st)"
    "map sigRoleId (signatures (progress st)) = [''a'', ''a'']" by auto
  have "signing (Some sampleDigest) (\<lambda>_. []) collidingPolicy st"
    using st(1) unfolding collidingState_def
    by (elim sampleSign_signing [rotated]) (rule signing.init)
  moreover have "sigRoleId ` set (signatures (progress st)) = {''a''}"
    using arg_cong [OF st(3), of set] by simp
  ultimately show "\<exists>st. signing (Some sampleDigest) (\<lambda>_. []) collidingPolicy st \<and>
      multiPartyComplete collidingPolicy (progress st) \<and>
      ''a:1'' \<notin> sigRoleId ` set (signatures (progress st))"
    using st(2) by (intro exI [of _ st]) simp
qed


lemma signature_roundtrip: "isMultiPartySignatureRecord (signatureJson s)" "signatureOf (signatureJson s) = s"
  by (simp_all add: isMultiPartySignatureRecord_def signatureJson_def signatureOf_def)

lemma stored_roundtrip:
  "isPlainObject (storedResponse r) \<Longrightarrow> getp (storedResponse r) ''$formspecResponse'' = Str ''1.0'' \<Longrightarrow>
     isMultiPartyStoredResponse (storedJson r)"
  "storedOf (storedJson r) = r"
  by (simp_all add: isMultiPartyStoredResponse_def storedJson_def storedOf_def)

lemma filter_map_id:
  "(\<forall>x\<in>set xs. P (f x) \<and> g (f x) = x \<and> Q x) \<Longrightarrow> filter Q (map g (filter P (map f xs))) = xs"
  by (induction xs) auto

text \<open>C27. Saving the signing state into a draft response and loading it again gives the same state,
  for every state whose parties are slots of the policy and whose stored slices are form
  responses.\<close>

theorem multi_party_state_roundtrip:
  assumes "activePartyRef (progress st) \<in> set (slotRefs policy)" "activePartyRef (progress st) \<noteq> []"
    and "\<forall>s\<in>set (signatures (progress st)). sigPartyRef s \<in> set (slotRefs policy)"
    and "\<forall>r\<in>set (responses st). storedPartyRef r \<in> set (slotRefs policy) \<and>
      isPlainObject (storedResponse r) \<and> getp (storedResponse r) ''$formspecResponse'' = Str ''1.0''"
  shows "multiPartyStateFromDraft (Some (multiPartyStateDraftResponse now url version st)) policy = Inr st"
proof -
  let ?Q = "\<lambda>ref. ref \<in> set (map partyRef (requiredMultiPartySlots policy))"
  have sg: "filter (\<lambda>s. ?Q (sigPartyRef s)) (map signatureOf (filter isMultiPartySignatureRecord
      (map signatureJson (signatures (progress st))))) = signatures (progress st)"
    using assms(3) by (intro filter_map_id) (simp add: signature_roundtrip slotRefs_def)
  have rs: "filter (\<lambda>e. ?Q (storedPartyRef e)) (map storedOf (filter isMultiPartyStoredResponse
      (map storedJson (responses st)))) = responses st"
    using assms(4) by (intro filter_map_id) (simp add: stored_roundtrip slotRefs_def)
  obtain c cs where c: "activePartyRef (progress st) = c # cs" using assms(2) by (cases "activePartyRef (progress st)") auto
  show ?thesis
    using assms(1) c
    by (simp add: multiPartyStateFromDraft_def multiPartyStateDraftResponse_def MULTI_PARTY_DATA_KEY_def
        slotRefs_def sg [simplified] rs [simplified] Let_def)
qed

theorem multi_party_state_roundtrip_witness:
  "\<exists>st. coupleState = Inr st \<and>
     multiPartyStateFromDraft (Some (multiPartyStateDraftResponse ''now'' ''u'' ''1'' st)) couplePolicy = Inr st"
proof -
  have "map_sum id (\<lambda>s. (activePartyRef (progress s), map sigPartyRef (signatures (progress s)),
      map (\<lambda>r. (storedPartyRef r, isPlainObject (storedResponse r),
         getp (storedResponse r) ''$formspecResponse'')) (responses s))) coupleState
      = Inr (''b'', [''a'', ''b''], [(''a'', True, Str ''1.0''), (''b'', True, Str ''1.0'')])" by code_simp
  from map_sum_InrD [OF this] obtain st where st: "coupleState = Inr st" "activePartyRef (progress st) = ''b''"
    "map sigPartyRef (signatures (progress st)) = [''a'', ''b'']"
    "map (\<lambda>r. (storedPartyRef r, isPlainObject (storedResponse r),
         getp (storedResponse r) ''$formspecResponse'')) (responses st)
       = [(''a'', True, Str ''1.0''), (''b'', True, Str ''1.0'')]" by auto
  have r: "slotRefs couplePolicy = [''a'', ''b'']" by code_simp
  have "multiPartyStateFromDraft (Some (multiPartyStateDraftResponse ''now'' ''u'' ''1'' st)) couplePolicy = Inr st"
    using st(2-4) by (intro multi_party_state_roundtrip) (auto simp: r)
  with st(1) show ?thesis by blast
qed

lemma signedResponse_ok:
  "sigPartyRef s \<in> storedPartyRef ` set (responses st) \<Longrightarrow>
     \<exists>r. signedResponse st s = Inr (s, storedResponse r) \<and> r \<in> set (responses st) \<and> storedPartyRef r = sigPartyRef s"
proof (cases "find (\<lambda>e. storedPartyRef e = sigPartyRef s) (responses st)")
  case None
  assume "sigPartyRef s \<in> storedPartyRef ` set (responses st)"
  with None show ?thesis by (auto simp: find_None_iff)
next
  case (Some r)
  then have "r \<in> set (responses st)" "storedPartyRef r = sigPartyRef s"
    by (auto simp: find_Some_iff)
  with Some show ?thesis by (auto simp: signedResponse_def)
qed

text \<open>The aggregate of a reachable state always builds and loses no signer: it carries one party
  response per signature, in signing order, with the data of the slice that party stored.\<close>

theorem aggregate_complete:
  assumes "signing sha256 canonical policy st"
  shows "\<exists>agg. buildMultiPartyAggregateResponse now url version i st = Inr agg \<and>
    (let slices = arrItems (getp (getp (getp agg ''data'') ''x-formspec-multi-party'') ''partyResponses'')
     in map (\<lambda>v. strOf (getp v ''partyRef'')) slices = signedRefs (progress st) \<and>
        (\<forall>v\<in>set slices. \<exists>r\<in>set (responses st). storedPartyRef r = strOf (getp v ''partyRef'') \<and>
           getp v ''responseData'' = getp (storedResponse r) ''data''))"
proof -
  have stored: "\<exists>r. signedResponse st s = Inr (s, storedResponse r) \<and> r \<in> set (responses st) \<and>
      storedPartyRef r = sigPartyRef s" if "s \<in> set (signatures (progress st))" for s
    using signing_inv [OF assms] that by (intro signedResponse_ok) (auto simp: signerInv_def signedRefs_def)
  have "\<exists>xs. mapR (signedResponse st) ss = Inr xs \<and> map fst xs = ss \<and>
      (\<forall>(s, d)\<in>set xs. \<exists>r\<in>set (responses st). storedPartyRef r = sigPartyRef s \<and> d = storedResponse r)"
    if "set ss \<subseteq> set (signatures (progress st))" for ss
    using that
  proof (induction ss)
    case (Cons s ss)
    obtain r where "signedResponse st s = Inr (s, storedResponse r)" "r \<in> set (responses st)"
      "storedPartyRef r = sigPartyRef s" using stored Cons.prems by force
    moreover obtain xs where "mapR (signedResponse st) ss = Inr xs" "map fst xs = ss"
      "\<forall>(s, d)\<in>set xs. \<exists>r\<in>set (responses st). storedPartyRef r = sigPartyRef s \<and> d = storedResponse r"
      using Cons by auto
    ultimately show ?case by (intro exI [of _ "(s, storedResponse r) # xs"]) auto
  qed simp
  then obtain xs where xs: "mapR (signedResponse st) (signatures (progress st)) = Inr xs"
    "map fst xs = signatures (progress st)"
    "\<forall>(s, d)\<in>set xs. \<exists>r\<in>set (responses st). storedPartyRef r = sigPartyRef s \<and> d = storedResponse r" by blast
  let ?slices = "map (\<lambda>(s, r). Obj (partyMembers s @
      [(''responseId'', getp r ''id''), (''responseData'', getp r ''data'')])) xs"
  have refs: "map (\<lambda>v. strOf (getp v ''partyRef'')) ?slices = signedRefs (progress st)"
    by (simp add: signedRefs_def xs(2) [symmetric] comp_def partyMembers_def split_def)
  have data: "\<forall>v\<in>set ?slices. \<exists>r\<in>set (responses st). storedPartyRef r = strOf (getp v ''partyRef'') \<and>
      getp v ''responseData'' = getp (storedResponse r) ''data''"
    using xs(3) by (force simp: partyMembers_def)
  show ?thesis
    using refs data
    by (auto simp: buildMultiPartyAggregateResponse_def xs(1) Let_def MULTI_PARTY_DATA_KEY_def propOf_setProp)
qed

theorem aggregate_complete_witness:
  "\<exists>st agg. coupleState = Inr st \<and> buildMultiPartyAggregateResponse ''now'' ''u'' ''1'' ''i'' st = Inr agg"
proof -
  have "map_sum id (\<lambda>s. length (signatures (progress s))) coupleState = Inr 2" by code_simp
  from map_sum_InrD [OF this] obtain st where st: "coupleState = Inr st" by blast
  from aggregate_complete [OF coupleState_signing [OF st], of "''now''" "''u''" "''1''" "''i''"] st
  show ?thesis by blast
qed

end
