(* ===== verification/Submit_Transport.thy ===== *)
theory Submit_Transport
  imports Keys
begin

text \<open>
  The \<open>SubmitTransport\<close> port (\<open>src/ports/submit-transport.ts\<close>): its contract as the locale
  \<open>submit_transport\<close>, and the in-memory adapter of
  \<open>src/adapters/stub/submit-transport.ts\<close> as an instance. An asynchronous method of an adapter is
  a function of its private state that returns the settled promise (\<open>Inl\<close> a rejection) and the
  state afterwards. The handoff is an opaque JSON value here.
\<close>

type_synonym IntakeHandoff = jsval

datatype conf_status = Accepted | Queued | Rejected

record SubmitConfirmation =
  referenceNumber :: string
  confStatus :: conf_status
  caseUrn :: "string option"

text \<open>The rejections of the in-memory adapters; \<open>Injected\<close> is an error a test injects.\<close>

datatype adapter_error =
    KeyError key_error
  | AmountNotInteger | AmountNegative | CurrencyEmpty
  | UnknownAuthorization string | AlreadyCaptured string | AlreadyVoided string
  | CapturedUseRefund string
  | Injected string

definition keyGuard :: "uuid_lib \<Rightarrow> string \<Rightarrow> adapter_error + unit" where
  "keyGuard lib key = (case assertUuidV7IdempotencyKey lib key of
     Inl e \<Rightarrow> Inl (KeyError e) | Inr _ \<Rightarrow> Inr ())"

lemma keyGuard_Inr [simp]: "keyGuard lib key = Inr () \<longleftrightarrow> isUuidV7IdempotencyKey lib key"
  by (simp add: keyGuard_def assertUuidV7IdempotencyKey_def throwIf_def)

lemma keyGuard_simps:
  "isUuidV7IdempotencyKey lib key \<Longrightarrow> keyGuard lib key = Inr ()"
  "\<not> isUuidV7IdempotencyKey lib key \<Longrightarrow> keyGuard lib key = Inl (KeyError NotUuidV7)"
  by (simp_all add: keyGuard_def assertUuidV7IdempotencyKey_def)


section \<open>The port's contract\<close>

text \<open>
  \<open>accepted t k\<close> is the confirmation the service holds for key \<open>k\<close>. A submission that resolves
  leaves its confirmation there, a rejected one leaves every confirmation alone, and a key that
  is already known resolves to its confirmation again.
\<close>

locale submit_transport =
  fixes submit :: "'h \<Rightarrow> string \<Rightarrow> 't \<Rightarrow> ('e + SubmitConfirmation) \<times> 't"
    and accepted :: "'t \<Rightarrow> string \<Rightarrow> SubmitConfirmation option"
  assumes submit_ok: "submit h k t = (Inr c, t') \<Longrightarrow> accepted t' = (accepted t)(k \<mapsto> c)"
    and submit_err: "submit h k t = (Inl e, t') \<Longrightarrow> accepted t' = accepted t"
    and submit_known: "accepted t k = Some c \<Longrightarrow> submit h k t = (Inr c, t)"
begin

lemma submit_accepts: "submit h k t = (Inr c, t') \<Longrightarrow> accepted t' k = Some c"
  by (simp add: submit_ok)

lemma submit_keeps:
  assumes "submit h k t = (r, t')" "accepted t j = Some c"
  shows "accepted t' j = Some c"
proof (cases r)
  case (Inl e)
  with assms submit_err [of h k t e t'] show ?thesis by simp
next
  case (Inr d)
  show ?thesis
  proof (cases "j = k")
    case True
    then have "t' = t" using assms submit_known [of t k c h] by simp
    with assms(2) show ?thesis by simp
  next
    case False
    with assms Inr submit_ok [of h k t d t'] show ?thesis by simp
  qed
qed

lemma submit_retry: "submit h k t = (Inr c, t') \<Longrightarrow> submit h' k t' = (Inr c, t')"
  by (rule submit_known) (rule submit_accepts)

end


section \<open>The in-memory transport\<close>

record transport =
  replayMap :: "string \<rightharpoonup> SubmitConfirmation"
  counter :: nat

definition emptyTransport :: transport where
  "emptyTransport = \<lparr>replayMap = Map.empty, counter = 0\<rparr>"

definition stubSubmit ::
  "uuid_lib \<Rightarrow> IntakeHandoff \<Rightarrow> string \<Rightarrow> transport \<Rightarrow> (adapter_error + SubmitConfirmation) \<times> transport" where
  "stubSubmit lib handoff idempotencyKey t = (case keyGuard lib idempotencyKey of
     Inl e \<Rightarrow> (Inl e, t)
   | Inr _ \<Rightarrow> (case replayMap t idempotencyKey of
       Some existing \<Rightarrow> (Inr existing, t)
     | None \<Rightarrow>
        (let n = counter t + 1;
             refTail = padStart 6 (CHR ''0'') (showNat n);
             confirmation = \<lparr>referenceNumber = ''STUB-'' @ refTail, confStatus = Accepted,
                             caseUrn = Some (''urn:wos:case_demo_'' @ refTail)\<rparr>
         in (Inr confirmation,
             t\<lparr>replayMap := (replayMap t)(idempotencyKey \<mapsto> confirmation), counter := n\<rparr>))))"

text \<open>The confirmations a transport holds under well-formed keys.\<close>

definition stubAccepted :: "uuid_lib \<Rightarrow> transport \<Rightarrow> string \<Rightarrow> SubmitConfirmation option" where
  "stubAccepted lib t k = (if isUuidV7IdempotencyKey lib k then replayMap t k else None)"

interpretation stubTransport: submit_transport "stubSubmit lib" "stubAccepted lib" for lib
  by unfold_locales
    (auto simp: stubSubmit_def stubAccepted_def keyGuard_simps Let_def fun_eq_iff
      split: sum.splits option.splits if_splits)

text \<open>Reachable transports never give out the same reference twice.\<close>

inductive transport_reach :: "uuid_lib \<Rightarrow> transport \<Rightarrow> bool" for lib where
  init: "transport_reach lib emptyTransport"
| step: "transport_reach lib t \<Longrightarrow> transport_reach lib (snd (stubSubmit lib h k t))"

definition stubRef :: "nat \<Rightarrow> string" where
  "stubRef n = ''STUB-'' @ padStart 6 (CHR ''0'') (showNat n)"

lemma stubRef_inject [simp]: "stubRef m = stubRef n \<longleftrightarrow> m = n"
  by (simp add: stubRef_def)

definition refsOk :: "(string \<rightharpoonup> SubmitConfirmation) \<Rightarrow> nat \<Rightarrow> bool" where
  "refsOk m n \<longleftrightarrow>
     (\<forall>k c. m k = Some c \<longrightarrow> (\<exists>i\<le>n. referenceNumber c = stubRef i)) \<and>
     (\<forall>k k' c c'. m k = Some c \<longrightarrow> m k' = Some c' \<longrightarrow>
        referenceNumber c = referenceNumber c' \<longrightarrow> k = k')"

definition transportInv :: "transport \<Rightarrow> bool" where
  "transportInv t \<longleftrightarrow> refsOk (replayMap t) (counter t)"

lemma stubSubmit_cases:
  obtains (rejected) "\<not> isUuidV7IdempotencyKey lib k" "stubSubmit lib h k t = (Inl (KeyError NotUuidV7), t)"
  | (known) c where "isUuidV7IdempotencyKey lib k" "replayMap t k = Some c" "stubSubmit lib h k t = (Inr c, t)"
  | (fresh) c where "isUuidV7IdempotencyKey lib k" "replayMap t k = None"
      "referenceNumber c = stubRef (counter t + 1)"
      "stubSubmit lib h k t =
         (Inr c, t\<lparr>replayMap := (replayMap t)(k \<mapsto> c), counter := counter t + 1\<rparr>)"
proof (cases "isUuidV7IdempotencyKey lib k")
  case False
  then show ?thesis by (intro rejected) (simp_all add: stubSubmit_def keyGuard_simps)
next
  case True
  show ?thesis
  proof (cases "replayMap t k")
    case None
    show ?thesis
      by (rule fresh [of "\<lparr>referenceNumber = ''STUB-'' @ padStart 6 (CHR ''0'') (showNat (counter t + 1)),
            confStatus = Accepted,
            caseUrn = Some (''urn:wos:case_demo_'' @ padStart 6 (CHR ''0'') (showNat (counter t + 1)))\<rparr>"])
        (simp_all add: True None stubSubmit_def keyGuard_simps Let_def stubRef_def)
  next
    case (Some c)
    then show ?thesis using True by (intro known) (simp_all add: stubSubmit_def keyGuard_simps)
  qed
qed

lemma transportInv_reach: "transport_reach lib t \<Longrightarrow> transportInv t"
proof (induction rule: transport_reach.induct)
  case init
  then show ?case by (simp add: transportInv_def refsOk_def emptyTransport_def)
next
  case (step t h k)
  show ?case
  proof (cases rule: stubSubmit_cases [of lib k h t])
    case (fresh c)
    have inv: "replayMap t j = Some c' \<Longrightarrow> \<exists>i\<le>counter t. referenceNumber c' = stubRef i"
      "replayMap t j = Some c1 \<Longrightarrow> replayMap t j' = Some c2 \<Longrightarrow>
        referenceNumber c1 = referenceNumber c2 \<Longrightarrow> j = j'" for j j' c' c1 c2
      using step.IH by (simp_all add: transportInv_def refsOk_def)
    have new: "referenceNumber c \<noteq> referenceNumber c'" if "replayMap t j = Some c'" for j c'
      using inv(1) [OF that] fresh(3) by auto
    have "\<exists>i\<le>counter t + 1. referenceNumber c' = stubRef i"
      if "((replayMap t)(k \<mapsto> c)) j = Some c'" for j c'
      using that inv(1) [of j c'] fresh(3) by (cases "j = k") (auto intro: le_SucI)
    moreover have "j = j'" if u: "((replayMap t)(k \<mapsto> c)) j = Some c1"
        "((replayMap t)(k \<mapsto> c)) j' = Some c2" "referenceNumber c1 = referenceNumber c2" for j j' c1 c2
    proof (rule ccontr)
      assume ne: "j \<noteq> j'"
      show False
      proof (cases "j = k \<or> j' = k")
        case True
        then show False
        proof
          assume jk: "j = k"
          then have "c1 = c" using u(1) by simp
          moreover have "replayMap t j' = Some c2" using jk ne u(2) by simp
          ultimately show False using new u(3) by metis
        next
          assume jk: "j' = k"
          then have "c2 = c" using u(2) by simp
          moreover have "replayMap t j = Some c1" using jk ne u(1) by simp
          ultimately show False using new u(3) by metis
        qed
      next
        case False
        then have "replayMap t j = Some c1" "replayMap t j' = Some c2" using u(1,2) by simp_all
        from inv(2) [OF this u(3)] ne show False by simp
      qed
    qed
    ultimately have "refsOk ((replayMap t)(k \<mapsto> c)) (counter t + 1)"
      unfolding refsOk_def by blast
    then show ?thesis by (simp add: transportInv_def fresh(4))
  qed (use step.IH in simp_all)
qed

text \<open>The in-memory transport is idempotent per key and never reuses a reference number: in
  every reachable state a repeated submission returns the first confirmation and changes
  nothing, and two keys with the same reference number are the same key.\<close>

theorem transport_idempotent_and_injective:
  assumes "transport_reach lib t"
  shows "(stubSubmit lib h k t = (Inr c, t') \<longrightarrow> stubSubmit lib h' k t' = (Inr c, t')) \<and>
    (replayMap t k = Some c \<longrightarrow> replayMap t k' = Some c' \<longrightarrow>
       referenceNumber c = referenceNumber c' \<longrightarrow> k = k')"
  using stubTransport.submit_retry [of lib h k t c t' h'] transportInv_reach [OF assms]
  unfolding transportInv_def refsOk_def by blast

definition sampleKey :: string where
  "sampleKey = ''01890a5d-ac96-774b-bcce-b302099a8057''"

theorem transport_idempotent_and_injective_witness:
  "\<exists>c t. stubSubmit rfcLib (Str ''h'') sampleKey emptyTransport = (Inr c, t) \<and>
     stubSubmit rfcLib (Str ''other'') sampleKey t = (Inr c, t)"
proof -
  have "isOk (fst (stubSubmit rfcLib (Str ''h'') sampleKey emptyTransport))" by code_simp
  then obtain c t where s: "stubSubmit rfcLib (Str ''h'') sampleKey emptyTransport = (Inr c, t)"
    by (cases "stubSubmit rfcLib (Str ''h'') sampleKey emptyTransport") (auto simp: isOk_iff)
  with transport_idempotent_and_injective [OF transport_reach.init, of rfcLib "Str ''h''" sampleKey c t "Str ''other''"]
  show ?thesis by blast
qed

end
