(* ===== verification/Payment_Rail.thy ===== *)
theory Payment_Rail
  imports Submit_Transport
begin

text \<open>
  The \<open>PaymentRailAdapter\<close> port (\<open>src/ports/payment-rail-adapter.ts\<close>): its contract as the
  locale \<open>payment_rail\<close> over the ledger of holds, and the in-memory rail of
  \<open>src/adapters/stub/payment-rail-adapter.ts\<close> as its instance, with reachability and
  invariants of that state machine.
\<close>

record Money =
  amountMinorUnits :: jsnum
  currency :: string

record Authorization =
  authId :: string
  authAmount :: Money
  authRailLabel :: string

record CaptureReceipt =
  authorizationId :: string
  receiptAmount :: Money
  settledTransactionId :: string
  receiptRailLabel :: string

datatype StubAuthorizationStatus = Authorized | Captured | Voided


section \<open>The port's contract\<close>

text \<open>
  \<open>ledger s i\<close> is the status and amount the rail holds for authorization \<open>i\<close>; \<open>authOf\<close>,
  \<open>capOf\<close> and \<open>voidUsed\<close> are what it remembers per idempotency key. New keys move the ledger,
  known keys replay the stored value, a rejection moves nothing.
\<close>

locale payment_rail =
  fixes authorize :: "Money \<Rightarrow> string \<Rightarrow> string \<Rightarrow> 's \<Rightarrow> ('e + Authorization) \<times> 's"
    and capture :: "Authorization \<Rightarrow> string \<Rightarrow> 's \<Rightarrow> ('e + CaptureReceipt) \<times> 's"
    and voidAuthorization :: "Authorization \<Rightarrow> string \<Rightarrow> 's \<Rightarrow> ('e + unit) \<times> 's"
    and ledger :: "'s \<Rightarrow> string \<rightharpoonup> StubAuthorizationStatus \<times> Money"
    and authOf :: "'s \<Rightarrow> string \<rightharpoonup> Authorization"
    and capOf :: "'s \<Rightarrow> string \<rightharpoonup> CaptureReceipt"
    and voidUsed :: "'s \<Rightarrow> string set"
    and inv :: "'s \<Rightarrow> bool"
  assumes authorize_inv: "inv s \<Longrightarrow> inv (snd (authorize m tok k s))"
    and capture_inv: "inv s \<Longrightarrow> inv (snd (capture A k s))"
    and void_inv: "inv s \<Longrightarrow> inv (snd (voidAuthorization A k s))"
    and authorize_new: "inv s \<Longrightarrow> authorize m tok k s = (Inr A, s') \<Longrightarrow> authOf s k = None \<Longrightarrow>
      ledger s (authId A) = None \<and> authAmount A = m \<and>
      ledger s' = (ledger s)(authId A \<mapsto> (Authorized, m)) \<and> authOf s' = (authOf s)(k \<mapsto> A) \<and>
      capOf s' = capOf s \<and> voidUsed s' = voidUsed s"
    and authorize_known: "authorize m tok k s = (Inr A, s') \<Longrightarrow> authOf s k = Some B \<Longrightarrow> A = B \<and> s' = s"
    and authorize_again: "authorize m tok k s = (Inr A, s') \<Longrightarrow> authOf s2 k = Some A \<Longrightarrow>
      authorize m tok k s2 = (Inr A, s2)"
    and authorize_err: "authorize m tok k s = (Inl e, s') \<Longrightarrow> ledger s' = ledger s \<and>
      authOf s' = authOf s \<and> capOf s' = capOf s \<and> voidUsed s' = voidUsed s"
    and capture_new: "inv s \<Longrightarrow> capture A k s = (Inr R, s') \<Longrightarrow> capOf s k = None \<Longrightarrow>
      (\<exists>m. ledger s (authId A) = Some (Authorized, m) \<and>
         ledger s' = (ledger s)(authId A \<mapsto> (Captured, m))) \<and>
      authorizationId R = authId A \<and> receiptAmount R = authAmount A \<and>
      capOf s' = (capOf s)(k \<mapsto> R) \<and> authOf s' = authOf s \<and> voidUsed s' = voidUsed s"
    and capture_known: "capture A k s = (Inr R, s') \<Longrightarrow> capOf s k = Some R' \<Longrightarrow> R = R' \<and> s' = s"
    and capture_again: "capture A k s = (Inr R, s') \<Longrightarrow> capOf s2 k = Some R \<Longrightarrow>
      capture A k s2 = (Inr R, s2)"
    and capture_err: "capture A k s = (Inl e, s') \<Longrightarrow> ledger s' = ledger s \<and>
      authOf s' = authOf s \<and> capOf s' = capOf s \<and> voidUsed s' = voidUsed s"
    and void_new: "inv s \<Longrightarrow> voidAuthorization A k s = (Inr u, s') \<Longrightarrow> k \<notin> voidUsed s \<Longrightarrow>
      authOf s' = authOf s \<and> capOf s' = capOf s \<and> voidUsed s' = insert k (voidUsed s) \<and>
      (case ledger s (authId A) of
         None \<Rightarrow> ledger s' = ledger s
       | Some (st, m) \<Rightarrow> st \<noteq> Captured \<and> ledger s' = (ledger s)(authId A \<mapsto> (Voided, m)))"
    and void_err: "voidAuthorization A k s = (Inl e, s') \<Longrightarrow> ledger s' = ledger s \<and>
      authOf s' = authOf s \<and> capOf s' = capOf s \<and> voidUsed s' = voidUsed s"
begin

text \<open>The same capture key never charges twice, and a captured hold cannot be charged again.\<close>

lemma capture_idempotent:
  assumes "inv s" "capture A k s = (Inr R, s')"
  shows "capture A k s' = (Inr R, s')"
proof -
  have "capOf s' k = Some R"
    using capture_new [OF assms] capture_known [OF assms(2)] by (cases "capOf s k") auto
  then show ?thesis using capture_again [OF assms(2)] by simp
qed

lemma double_capture_rejected:
  assumes "inv s" "capture A k s = (Inr R, s')" "capOf s k = None" "capOf s' k' = None"
    "capture A k' s' = (r, s'')"
  shows "\<exists>e. r = Inl e"
proof (cases r)
  case (Inr R')
  have i: "inv s'" using capture_inv [OF assms(1), of A k] assms(2) by simp
  obtain m where m: "ledger s' (authId A) = Some (Captured, m)"
    using capture_new [OF assms(1,2,3)] by auto
  obtain m' where "ledger s' (authId A) = Some (Authorized, m')"
    using capture_new [OF i, of A k' R' s''] assms(4,5) Inr by auto
  with m show ?thesis by simp
qed simp

end


section \<open>The in-memory rail\<close>

record StubAuthorizationState =
  authStatus :: StubAuthorizationStatus
  stateAmount :: Money
  stateMethodToken :: string

record rail =
  railLabel :: string
  states :: "string \<rightharpoonup> StubAuthorizationState"
  authorizationsByKey :: "string \<rightharpoonup> Authorization"
  capturesByKey :: "string \<rightharpoonup> CaptureReceipt"
  voidsByKey :: "string set"
  nextId :: nat
  pendingAuthorizeError :: "string option"
  pendingCaptureError :: "string option"
  pendingVoidError :: "string option"

definition stubPaymentRailAdapter :: "string option \<Rightarrow> rail" where
  "stubPaymentRailAdapter label = \<lparr>railLabel = (case label of None \<Rightarrow> ''Card'' | Some l \<Rightarrow> l),
     states = Map.empty, authorizationsByKey = Map.empty, capturesByKey = Map.empty,
     voidsByKey = {}, nextId = 0, pendingAuthorizeError = None, pendingCaptureError = None,
     pendingVoidError = None\<rparr>"

fun negativeNum :: "jsnum \<Rightarrow> bool" where
  "negativeNum (Fin q) = (q < 0)"
| "negativeNum NegInfinity = True"
| "negativeNum _ = False"

definition assertWellFormedMoney :: "Money \<Rightarrow> adapter_error + unit" where
  "assertWellFormedMoney amount = checks
     [throwIf (integerOf (Num (amountMinorUnits amount)) = None) AmountNotInteger,
      throwIf (negativeNum (amountMinorUnits amount)) AmountNegative,
      throwIf (currency amount = []) CurrencyEmpty]"

definition authorizeStub ::
  "uuid_lib \<Rightarrow> Money \<Rightarrow> string \<Rightarrow> string \<Rightarrow> rail \<Rightarrow> (adapter_error + Authorization) \<times> rail" where
  "authorizeStub lib amount methodToken key r =
     (case bindR (keyGuard lib key) (\<lambda>_. assertWellFormedMoney amount) of
        Inl e \<Rightarrow> (Inl e, r)
      | Inr _ \<Rightarrow> (case authorizationsByKey r key of
          Some existing \<Rightarrow> (Inr existing, r)
        | None \<Rightarrow> (case pendingAuthorizeError r of
            Some e \<Rightarrow> (Inl (Injected e), r\<lparr>pendingAuthorizeError := None\<rparr>)
          | None \<Rightarrow>
             (let n = nextId r + 1;
                  i = ''stub-auth-'' @ padStart 6 (CHR ''0'') (showNat n);
                  authorization = \<lparr>authId = i, authAmount = amount, authRailLabel = railLabel r\<rparr>
              in (Inr authorization,
                  r\<lparr>nextId := n,
                    authorizationsByKey := (authorizationsByKey r)(key \<mapsto> authorization),
                    states := (states r)(i \<mapsto> \<lparr>authStatus = Authorized, stateAmount = amount,
                                                stateMethodToken = methodToken\<rparr>)\<rparr>)))))"

definition captureStub ::
  "uuid_lib \<Rightarrow> Authorization \<Rightarrow> string \<Rightarrow> rail \<Rightarrow> (adapter_error + CaptureReceipt) \<times> rail" where
  "captureStub lib authorization key r = (case keyGuard lib key of
     Inl e \<Rightarrow> (Inl e, r)
   | Inr _ \<Rightarrow> (case capturesByKey r key of
       Some existing \<Rightarrow> (Inr existing, r)
     | None \<Rightarrow> (case states r (authId authorization) of
         None \<Rightarrow> (Inl (UnknownAuthorization (authId authorization)), r)
       | Some st \<Rightarrow>
          if authStatus st = Captured then (Inl (AlreadyCaptured (authId authorization)), r)
          else if authStatus st = Voided then (Inl (AlreadyVoided (authId authorization)), r)
          else (case pendingCaptureError r of
            Some e \<Rightarrow> (Inl (Injected e), r\<lparr>pendingCaptureError := None\<rparr>)
          | None \<Rightarrow>
             (let receipt = \<lparr>authorizationId = authId authorization,
                    receiptAmount = authAmount authorization,
                    settledTransactionId = ''stub-txn-'' @ authId authorization,
                    receiptRailLabel = authRailLabel authorization\<rparr>
              in (Inr receipt,
                  r\<lparr>capturesByKey := (capturesByKey r)(key \<mapsto> receipt),
                    states := (states r)(authId authorization \<mapsto> st\<lparr>authStatus := Captured\<rparr>)\<rparr>))))))"

definition voidAuthorizationStub ::
  "uuid_lib \<Rightarrow> Authorization \<Rightarrow> string \<Rightarrow> rail \<Rightarrow> (adapter_error + unit) \<times> rail" where
  "voidAuthorizationStub lib authorization key r = (case keyGuard lib key of
     Inl e \<Rightarrow> (Inl e, r)
   | Inr _ \<Rightarrow>
      if key \<in> voidsByKey r then (Inr (), r)
      else (case states r (authId authorization) of
         None \<Rightarrow> (Inr (), r\<lparr>voidsByKey := insert key (voidsByKey r)\<rparr>)
       | Some st \<Rightarrow>
          if authStatus st = Captured then (Inl (CapturedUseRefund (authId authorization)), r)
          else (case pendingVoidError r of
            Some e \<Rightarrow> (Inl (Injected e), r\<lparr>pendingVoidError := None\<rparr>)
          | None \<Rightarrow>
             (Inr (), r\<lparr>voidsByKey := insert key (voidsByKey r),
                        states := (states r)(authId authorization \<mapsto> st\<lparr>authStatus := Voided\<rparr>)\<rparr>))))"

definition failNextAuthorize :: "string \<Rightarrow> rail \<Rightarrow> rail" where
  "failNextAuthorize e r = r\<lparr>pendingAuthorizeError := Some e\<rparr>"

definition failNextCapture :: "string \<Rightarrow> rail \<Rightarrow> rail" where
  "failNextCapture e r = r\<lparr>pendingCaptureError := Some e\<rparr>"

definition failNextVoid :: "string \<Rightarrow> rail \<Rightarrow> rail" where
  "failNextVoid e r = r\<lparr>pendingVoidError := Some e\<rparr>"


section \<open>The ledger view and the interpretation\<close>

definition authName :: "nat \<Rightarrow> string" where
  "authName n = ''stub-auth-'' @ padStart 6 (CHR ''0'') (showNat n)"

lemma authName_inject [simp]: "authName m = authName n \<longleftrightarrow> m = n"
  by (simp add: authName_def)

definition railLedger :: "rail \<Rightarrow> string \<rightharpoonup> StubAuthorizationStatus \<times> Money" where
  "railLedger r i = map_option (\<lambda>st. (authStatus st, stateAmount st)) (states r i)"

definition idsOk :: "rail \<Rightarrow> bool" where
  "idsOk r \<longleftrightarrow> (\<forall>i\<in>dom (states r). \<exists>n\<le>nextId r. i = authName n)"

definition capturedIds :: "rail \<Rightarrow> string set" where
  "capturedIds r = {i. \<exists>st. states r i = Some st \<and> authStatus st = Captured}"

text \<open>Capture keys and captured holds correspond one to one.\<close>

definition receiptsOk :: "rail \<Rightarrow> bool" where
  "receiptsOk r \<longleftrightarrow> bij_betw (\<lambda>k. authorizationId (the (capturesByKey r k)))
     (dom (capturesByKey r)) (capturedIds r)"

definition railInv :: "rail \<Rightarrow> bool" where
  "railInv r \<longleftrightarrow> idsOk r \<and> receiptsOk r"

definition goodCall :: "uuid_lib \<Rightarrow> Money \<Rightarrow> string \<Rightarrow> bool" where
  "goodCall lib m k \<longleftrightarrow> isUuidV7IdempotencyKey lib k \<and> assertWellFormedMoney m = Inr ()"

lemma guard_cases:
  obtains "goodCall lib m k" "bindR (keyGuard lib k) (\<lambda>_. assertWellFormedMoney m) = Inr ()"
  | e where "\<not> goodCall lib m k" "bindR (keyGuard lib k) (\<lambda>_. assertWellFormedMoney m) = Inl e"
  by (cases "isUuidV7IdempotencyKey lib k"; cases "assertWellFormedMoney m")
    (auto simp: goodCall_def keyGuard_simps)

text \<open>The four behaviours of an authorization, the five of a capture, the five of a void.\<close>

lemma authorizeStub_cases:
  obtains (rejected) e where "\<not> goodCall lib m k" "authorizeStub lib m tok k r = (Inl e, r)"
  | (known) A where "goodCall lib m k" "authorizationsByKey r k = Some A"
      "authorizeStub lib m tok k r = (Inr A, r)"
  | (injected) e where "goodCall lib m k" "authorizationsByKey r k = None"
      "authorizeStub lib m tok k r = (Inl (Injected e), r\<lparr>pendingAuthorizeError := None\<rparr>)"
  | (fresh) A where "goodCall lib m k" "authorizationsByKey r k = None"
      "authId A = authName (nextId r + 1)" "authAmount A = m" "authRailLabel A = railLabel r"
      "authorizeStub lib m tok k r = (Inr A, r\<lparr>nextId := nextId r + 1,
         authorizationsByKey := (authorizationsByKey r)(k \<mapsto> A),
         states := (states r)(authId A \<mapsto> \<lparr>authStatus = Authorized, stateAmount = m,
                                              stateMethodToken = tok\<rparr>)\<rparr>)"
proof (cases rule: guard_cases [of lib m k])
  case (2 e)
  then show ?thesis by (intro rejected [of e]) (simp_all add: authorizeStub_def)
next
  case g: 1
  show ?thesis
  proof (cases "authorizationsByKey r k")
    case (Some A)
    then show ?thesis using g by (intro known [of A]) (simp_all add: authorizeStub_def)
  next
    case None
    show ?thesis
    proof (cases "pendingAuthorizeError r")
      case (Some e)
      then show ?thesis using g None by (intro injected [of e]) (simp_all add: authorizeStub_def)
    next
      case no: None
      show ?thesis
        by (rule fresh [of "\<lparr>authId = authName (nextId r + 1), authAmount = m, authRailLabel = railLabel r\<rparr>"])
          (use g None no in \<open>simp_all add: authorizeStub_def Let_def authName_def\<close>)
    qed
  qed
qed

lemma captureStub_cases:
  obtains (rejected) e where "\<not> isUuidV7IdempotencyKey lib k" "captureStub lib A k r = (Inl e, r)"
  | (known) R where "isUuidV7IdempotencyKey lib k" "capturesByKey r k = Some R"
      "captureStub lib A k r = (Inr R, r)"
  | (refused) e where "capturesByKey r k = None"
      "\<forall>st. states r (authId A) = Some st \<longrightarrow> authStatus st \<noteq> Authorized"
      "captureStub lib A k r = (Inl e, r)"
  | (injected) e where "capturesByKey r k = None"
      "captureStub lib A k r = (Inl (Injected e), r\<lparr>pendingCaptureError := None\<rparr>)"
  | (fresh) R st where "isUuidV7IdempotencyKey lib k" "capturesByKey r k = None"
      "states r (authId A) = Some st" "authStatus st = Authorized"
      "authorizationId R = authId A" "receiptAmount R = authAmount A"
      "captureStub lib A k r = (Inr R, r\<lparr>capturesByKey := (capturesByKey r)(k \<mapsto> R),
         states := (states r)(authId A \<mapsto> st\<lparr>authStatus := Captured\<rparr>)\<rparr>)"
proof (cases "isUuidV7IdempotencyKey lib k")
  case False
  then show ?thesis by (intro rejected [of "KeyError NotUuidV7"]) (simp_all add: captureStub_def keyGuard_simps)
next
  case v: True
  note d = captureStub_def keyGuard_simps
  show ?thesis
  proof (cases "capturesByKey r k")
    case (Some R)
    then show ?thesis using v by (intro known [of R]) (simp_all add: d)
  next
    case c: None
    show ?thesis
    proof (cases "states r (authId A)")
      case None
      then show ?thesis using v c
        by (intro refused [of "UnknownAuthorization (authId A)"]) (simp_all add: d)
    next
      case s: (Some st)
      show ?thesis
      proof (cases "authStatus st")
        case Captured
        then show ?thesis using v c s by (intro refused [of "AlreadyCaptured (authId A)"]) (simp_all add: d)
      next
        case Voided
        then show ?thesis using v c s by (intro refused [of "AlreadyVoided (authId A)"]) (simp_all add: d)
      next
        case a: Authorized
        show ?thesis
        proof (cases "pendingCaptureError r")
          case (Some e)
          then show ?thesis using v c s a by (intro injected [of e]) (simp_all add: d)
        next
          case None
          then show ?thesis using v c s a by (intro fresh) (simp_all add: d Let_def)
        qed
      qed
    qed
  qed
qed

lemma voidStub_cases:
  obtains (rejected) e where "\<not> isUuidV7IdempotencyKey lib k" "voidAuthorizationStub lib A k r = (Inl e, r)"
  | (known) "k \<in> voidsByKey r" "voidAuthorizationStub lib A k r = (Inr (), r)"
  | (unknown) "k \<notin> voidsByKey r" "states r (authId A) = None"
      "voidAuthorizationStub lib A k r = (Inr (), r\<lparr>voidsByKey := insert k (voidsByKey r)\<rparr>)"
  | (captured) st e where "k \<notin> voidsByKey r" "states r (authId A) = Some st" "authStatus st = Captured"
      "voidAuthorizationStub lib A k r = (Inl e, r)"
  | (injected) e where "k \<notin> voidsByKey r"
      "voidAuthorizationStub lib A k r = (Inl (Injected e), r\<lparr>pendingVoidError := None\<rparr>)"
  | (released) st where "k \<notin> voidsByKey r" "states r (authId A) = Some st" "authStatus st \<noteq> Captured"
      "voidAuthorizationStub lib A k r = (Inr (), r\<lparr>voidsByKey := insert k (voidsByKey r),
         states := (states r)(authId A \<mapsto> st\<lparr>authStatus := Voided\<rparr>)\<rparr>)"
proof (cases "isUuidV7IdempotencyKey lib k")
  case False
  then show ?thesis
    by (intro rejected [of "KeyError NotUuidV7"]) (simp_all add: voidAuthorizationStub_def keyGuard_simps)
next
  case v: True
  note d = voidAuthorizationStub_def keyGuard_simps
  show ?thesis
  proof (cases "k \<in> voidsByKey r")
    case True
    then show ?thesis using v by (intro known) (simp_all add: d)
  next
    case k: False
    show ?thesis
    proof (cases "states r (authId A)")
      case None
      then show ?thesis using v k by (intro unknown) (simp_all add: d)
    next
      case s: (Some st)
      show ?thesis
      proof (cases "authStatus st = Captured")
        case True
        then show ?thesis using v k s
          by (intro captured [of st "CapturedUseRefund (authId A)"]) (simp_all add: d)
      next
        case n: False
        show ?thesis
        proof (cases "pendingVoidError r")
          case (Some e)
          then show ?thesis using v k s n by (intro injected [of e]) (simp_all add: d)
        next
          case None
          then show ?thesis using v k s n by (intro released [of st]) (simp_all add: d)
        qed
      qed
    qed
  qed
qed

lemma idsOkD: "idsOk r \<Longrightarrow> n > nextId r \<Longrightarrow> states r (authName n) = None"
  by (force simp: idsOk_def)

lemma idsOk_upd:
  "idsOk r \<Longrightarrow> states r i \<noteq> None \<Longrightarrow> nextId r' = nextId r \<Longrightarrow> states r' = (states r)(i \<mapsto> st) \<Longrightarrow> idsOk r'"
  by (auto simp: idsOk_def)

lemma receiptsOk_same:
  "receiptsOk r \<Longrightarrow> capturesByKey r' = capturesByKey r \<Longrightarrow> capturedIds r' = capturedIds r \<Longrightarrow> receiptsOk r'"
  by (simp add: receiptsOk_def)

lemma capturedIds_upd:
  assumes "states r' = (states r)(i \<mapsto> st)"
  shows "capturedIds r' = (if authStatus st = Captured then insert i (capturedIds r) else capturedIds r - {i})"
  using assms by (auto simp: capturedIds_def)

lemma receiptsOk_capture:
  assumes "receiptsOk r" "capturesByKey r k = None" "i \<notin> capturedIds r" "authorizationId R = i"
    and r': "capturesByKey r' = (capturesByKey r)(k \<mapsto> R)" "capturedIds r' = insert i (capturedIds r)"
  shows "receiptsOk r'"
proof -
  let ?f = "\<lambda>r k. authorizationId (the (capturesByKey r k))"
  have "bij_betw (?f r) (dom (capturesByKey r)) (capturedIds r)" using assms(1) by (simp add: receiptsOk_def)
  then have "bij_betw (?f r') (dom (capturesByKey r)) (capturedIds r)"
    using assms(2) r'(1) by (subst bij_betw_cong [of _ "?f r'" "?f r"]) auto
  moreover have "?f r' k = i" using r'(1) assms(4) by simp
  moreover have "k \<notin> dom (capturesByKey r)" using assms(2) by auto
  ultimately have "bij_betw (?f r') (dom (capturesByKey r) \<union> {k}) (capturedIds r \<union> {?f r' k})"
    using assms(3) by (intro notIn_Un_bij_betw) auto
  then show ?thesis using r' assms(4) by (simp add: receiptsOk_def)
qed

lemma authorizeStub_inv:
  assumes "railInv r" shows "railInv (snd (authorizeStub lib m tok k r))"
proof (cases rule: authorizeStub_cases [of lib m k tok r])
  case (injected e)
  then show ?thesis using assms by (simp add: railInv_def idsOk_def receiptsOk_def capturedIds_def)
next
  case (fresh A)
  let ?r = "snd (authorizeStub lib m tok k r)"
  have old: "idsOk r" "receiptsOk r" using assms by (simp_all add: railInv_def)
  have "states r (authId A) = None" using idsOkD [OF old(1)] fresh(3) by simp
  then have "authId A \<notin> capturedIds r" by (simp add: capturedIds_def)
  then have "capturedIds ?r = capturedIds r"
    by (subst capturedIds_upd [of _ r "authId A"
          "\<lparr>authStatus = Authorized, stateAmount = m, stateMethodToken = tok\<rparr>"]) (simp_all add: fresh(6))
  moreover have "idsOk ?r" using old(1) fresh(3,6) by (auto simp: idsOk_def intro: le_SucI)
  ultimately show ?thesis using receiptsOk_same [OF old(2), of ?r] by (simp add: railInv_def fresh(6))
qed (use assms in simp_all)

lemma captureStub_inv:
  assumes "railInv r" shows "railInv (snd (captureStub lib A k r))"
proof (cases rule: captureStub_cases [of lib k A r])
  case (injected e)
  then show ?thesis using assms by (simp add: railInv_def idsOk_def receiptsOk_def capturedIds_def)
next
  case (fresh R st)
  let ?r = "snd (captureStub lib A k r)"
  have old: "idsOk r" "receiptsOk r" using assms by (simp_all add: railInv_def)
  have n: "authId A \<notin> capturedIds r" using fresh(3,4) by (simp add: capturedIds_def)
  have c: "capturedIds ?r = insert (authId A) (capturedIds r)"
    by (subst capturedIds_upd [of _ r "authId A" "st\<lparr>authStatus := Captured\<rparr>"]) (simp_all add: fresh(7))
  have "idsOk ?r"
    by (rule idsOk_upd [OF old(1), of "authId A" _ "st\<lparr>authStatus := Captured\<rparr>"]) (simp_all add: fresh)
  moreover have "receiptsOk ?r"
    by (rule receiptsOk_capture [OF old(2) fresh(2) n fresh(5) _ c]) (simp add: fresh(7))
  ultimately show ?thesis by (simp add: railInv_def)
qed (use assms in simp_all)

lemma voidStub_inv:
  assumes "railInv r" shows "railInv (snd (voidAuthorizationStub lib A k r))"
proof (cases rule: voidStub_cases [of lib k A r])
  case (released st)
  let ?r = "snd (voidAuthorizationStub lib A k r)"
  have old: "idsOk r" "receiptsOk r" using assms by (simp_all add: railInv_def)
  have "authId A \<notin> capturedIds r" using released(2,3) by (simp add: capturedIds_def)
  then have "capturedIds ?r = capturedIds r"
    by (subst capturedIds_upd [of _ r "authId A" "st\<lparr>authStatus := Voided\<rparr>"]) (simp_all add: released(4))
  moreover have "idsOk ?r"
    by (rule idsOk_upd [OF old(1), of "authId A" _ "st\<lparr>authStatus := Voided\<rparr>"]) (simp_all add: released)
  ultimately show ?thesis using receiptsOk_same [OF old(2), of ?r] by (simp add: railInv_def released(4))
qed (use assms in \<open>simp_all add: railInv_def idsOk_def receiptsOk_def capturedIds_def\<close>)

lemma railLedger_upd:
  "states r' = (states r)(i \<mapsto> st) \<Longrightarrow> railLedger r' = (railLedger r)(i \<mapsto> (authStatus st, stateAmount st))"
  by (auto simp: railLedger_def fun_eq_iff)

lemma railLedger_same: "states r' = states r \<Longrightarrow> railLedger r' = railLedger r"
  by (simp add: railLedger_def fun_eq_iff)

interpretation stubRail: payment_rail "authorizeStub lib" "captureStub lib" "voidAuthorizationStub lib"
  railLedger authorizationsByKey capturesByKey voidsByKey railInv for lib
proof
  fix s s' s2 :: rail and m tok k A B R R' e u
  show "railInv s \<Longrightarrow> railInv (snd (authorizeStub lib m tok k s))" by (rule authorizeStub_inv)
  show "railInv s \<Longrightarrow> railInv (snd (captureStub lib A k s))" by (rule captureStub_inv)
  show "railInv s \<Longrightarrow> railInv (snd (voidAuthorizationStub lib A k s))" by (rule voidStub_inv)
  show "railLedger s (authId A) = None \<and> authAmount A = m \<and>
      railLedger s' = (railLedger s)(authId A \<mapsto> (Authorized, m)) \<and>
      authorizationsByKey s' = (authorizationsByKey s)(k \<mapsto> A) \<and>
      capturesByKey s' = capturesByKey s \<and> voidsByKey s' = voidsByKey s"
    if "railInv s" "authorizeStub lib m tok k s = (Inr A, s')" "authorizationsByKey s k = None"
  proof (cases rule: authorizeStub_cases [of lib m k tok s])
    case (fresh A')
    have n: "states s (authId A') = None" using that(1) idsOkD fresh(3) by (simp add: railInv_def)
    have eq: "A = A'" "s' = s\<lparr>nextId := nextId s + 1,
         authorizationsByKey := (authorizationsByKey s)(k \<mapsto> A'),
         states := (states s)(authId A' \<mapsto> \<lparr>authStatus = Authorized, stateAmount = m,
                                              stateMethodToken = tok\<rparr>)\<rparr>"
      using fresh(6) that(2) by simp_all
    have "railLedger s' = (railLedger s)(authId A' \<mapsto> (Authorized, m))"
      by (subst railLedger_upd [of s' s "authId A'" "\<lparr>authStatus = Authorized, stateAmount = m,
            stateMethodToken = tok\<rparr>"]) (simp_all add: eq)
    then show ?thesis using eq n fresh(4) by (simp add: railLedger_def)
  qed (use that in simp_all)
  show "A = B \<and> s' = s" if "authorizeStub lib m tok k s = (Inr A, s')" "authorizationsByKey s k = Some B"
    using that by (cases rule: authorizeStub_cases [of lib m k tok s]) auto
  show "authorizeStub lib m tok k s2 = (Inr A, s2)"
    if "authorizeStub lib m tok k s = (Inr A, s')" "authorizationsByKey s2 k = Some A"
  proof -
    have "goodCall lib m k" using that(1) by (cases rule: authorizeStub_cases [of lib m k tok s]) auto
    then show ?thesis using that(2) by (cases rule: authorizeStub_cases [of lib m k tok s2]) auto
  qed
  show "railLedger s' = railLedger s \<and> authorizationsByKey s' = authorizationsByKey s \<and>
      capturesByKey s' = capturesByKey s \<and> voidsByKey s' = voidsByKey s"
    if "authorizeStub lib m tok k s = (Inl e, s')"
    using that by (cases rule: authorizeStub_cases [of lib m k tok s]) (auto simp: railLedger_def [abs_def])
  show "(\<exists>m. railLedger s (authId A) = Some (Authorized, m) \<and>
         railLedger s' = (railLedger s)(authId A \<mapsto> (Captured, m))) \<and>
      authorizationId R = authId A \<and> receiptAmount R = authAmount A \<and>
      capturesByKey s' = (capturesByKey s)(k \<mapsto> R) \<and>
      authorizationsByKey s' = authorizationsByKey s \<and> voidsByKey s' = voidsByKey s"
    if "railInv s" "captureStub lib A k s = (Inr R, s')" "capturesByKey s k = None"
  proof (cases rule: captureStub_cases [of lib k A s])
    case (fresh R' st)
    then show ?thesis using that(2) by (auto simp: railLedger_def fun_eq_iff)
  qed (use that in simp_all)
  show "R = R' \<and> s' = s" if "captureStub lib A k s = (Inr R, s')" "capturesByKey s k = Some R'"
    using that by (cases rule: captureStub_cases [of lib k A s]) auto
  show "captureStub lib A k s2 = (Inr R, s2)"
    if "captureStub lib A k s = (Inr R, s')" "capturesByKey s2 k = Some R"
  proof -
    have "isUuidV7IdempotencyKey lib k" using that(1) by (cases rule: captureStub_cases [of lib k A s]) auto
    then show ?thesis using that(2) by (cases rule: captureStub_cases [of lib k A s2]) auto
  qed
  show "railLedger s' = railLedger s \<and> authorizationsByKey s' = authorizationsByKey s \<and>
      capturesByKey s' = capturesByKey s \<and> voidsByKey s' = voidsByKey s"
    if "captureStub lib A k s = (Inl e, s')"
    using that by (cases rule: captureStub_cases [of lib k A s]) (auto simp: railLedger_def [abs_def])
  show "authorizationsByKey s' = authorizationsByKey s \<and> capturesByKey s' = capturesByKey s \<and>
      voidsByKey s' = insert k (voidsByKey s) \<and>
      (case railLedger s (authId A) of None \<Rightarrow> railLedger s' = railLedger s
       | Some (st, m) \<Rightarrow> st \<noteq> Captured \<and> railLedger s' = (railLedger s)(authId A \<mapsto> (Voided, m)))"
    if "railInv s" "voidAuthorizationStub lib A k s = (Inr u, s')" "k \<notin> voidsByKey s"
    using that
    by (cases rule: voidStub_cases [of lib k A s]) (auto simp: railLedger_def fun_eq_iff)
  show "railLedger s' = railLedger s \<and> authorizationsByKey s' = authorizationsByKey s \<and>
      capturesByKey s' = capturesByKey s \<and> voidsByKey s' = voidsByKey s"
    if "voidAuthorizationStub lib A k s = (Inl e, s')"
    using that by (cases rule: voidStub_cases [of lib k A s]) (auto simp: railLedger_def [abs_def])
qed


section \<open>Properties\<close>

inductive rail_step :: "uuid_lib \<Rightarrow> rail \<Rightarrow> rail \<Rightarrow> bool" for lib where
  "rail_step lib r (snd (authorizeStub lib m tok k r))"
| "rail_step lib r (snd (captureStub lib A k r))"
| "rail_step lib r (snd (voidAuthorizationStub lib A k r))"
| "rail_step lib r (failNextAuthorize e r)"
| "rail_step lib r (failNextCapture e r)"
| "rail_step lib r (failNextVoid e r)"

inductive_cases rail_stepE: "rail_step lib r r'"

definition rail_reach :: "uuid_lib \<Rightarrow> rail \<Rightarrow> bool" where
  "rail_reach lib r \<longleftrightarrow> (\<exists>label. (rail_step lib)\<^sup>*\<^sup>* (stubPaymentRailAdapter label) r)"

lemma rail_step_inv: "rail_step lib r r' \<Longrightarrow> railInv r \<Longrightarrow> railInv r'"
proof (erule rail_stepE)
qed (simp_all add: authorizeStub_inv captureStub_inv voidStub_inv,
     simp_all add: railInv_def idsOk_def receiptsOk_def capturedIds_def failNextAuthorize_def
       failNextCapture_def failNextVoid_def)

lemma rail_reach_inv: "rail_reach lib r \<Longrightarrow> railInv r"
proof -
  assume "rail_reach lib r"
  then obtain label where "(rail_step lib)\<^sup>*\<^sup>* (stubPaymentRailAdapter label) r"
    by (auto simp: rail_reach_def)
  then show "railInv r"
  proof induction
    case base
    then show ?case by (simp add: railInv_def idsOk_def receiptsOk_def capturedIds_def
          stubPaymentRailAdapter_def bij_betw_def)
  qed (rule rail_step_inv)
qed

lemma bij_betw_Ex1:
  assumes "bij_betw f A B" shows "b \<in> B \<longleftrightarrow> (\<exists>!a. a \<in> A \<and> f a = b)"
proof
  assume "b \<in> B"
  then obtain a where a: "a \<in> A" "f a = b" using assms by (auto simp: bij_betw_def)
  show "\<exists>!a. a \<in> A \<and> f a = b"
    using a assms by (intro ex1I [of _ a]) (auto simp: bij_betw_def dest: inj_onD)
next
  assume "\<exists>!a. a \<in> A \<and> f a = b"
  then show "b \<in> B" using assms by (auto simp: bij_betw_def)
qed

text \<open>C24. No double charge: in every reachable rail each captured hold has exactly one capture key,
  and each capture key a captured hold.\<close>

theorem rail_single_capture:
  assumes "rail_reach lib r"
  shows "(\<exists>st. states r i = Some st \<and> authStatus st = Captured) \<longleftrightarrow>
    (\<exists>!k. \<exists>R. capturesByKey r k = Some R \<and> authorizationId R = i)"
proof -
  have b: "bij_betw (\<lambda>k. authorizationId (the (capturesByKey r k))) (dom (capturesByKey r)) (capturedIds r)"
    using rail_reach_inv [OF assms] by (simp add: railInv_def receiptsOk_def)
  have "(\<exists>st. states r i = Some st \<and> authStatus st = Captured) \<longleftrightarrow> i \<in> capturedIds r"
    by (simp add: capturedIds_def)
  also have "\<dots> \<longleftrightarrow> (\<exists>!k. k \<in> dom (capturesByKey r) \<and> authorizationId (the (capturesByKey r k)) = i)"
    by (rule bij_betw_Ex1 [OF b])
  also have "\<dots> \<longleftrightarrow> (\<exists>!k. \<exists>R. capturesByKey r k = Some R \<and> authorizationId R = i)"
    by (rule arg_cong [where f = Ex1]) (auto simp: fun_eq_iff dom_def)
  finally show ?thesis .
qed

definition sampleMoney :: Money where
  "sampleMoney = \<lparr>amountMinorUnits = Fin 2500, currency = ''USD''\<rparr>"

definition sampleAuthorized :: rail where
  "sampleAuthorized = snd (authorizeStub rfcLib sampleMoney ''tok'' sampleKey (stubPaymentRailAdapter None))"

definition sampleAuthorization :: Authorization where
  "sampleAuthorization = \<lparr>authId = ''stub-auth-000001'', authAmount = sampleMoney, authRailLabel = ''Card''\<rparr>"

definition sampleCaptured :: rail where
  "sampleCaptured = snd (captureStub rfcLib sampleAuthorization sampleKey sampleAuthorized)"

lemma sampleCaptured_reach: "rail_reach rfcLib sampleAuthorized" "rail_reach rfcLib sampleCaptured"
proof -
  have a: "rail_step rfcLib (stubPaymentRailAdapter None) sampleAuthorized"
    unfolding sampleAuthorized_def by (rule rail_step.intros)
  have b: "rail_step rfcLib sampleAuthorized sampleCaptured"
    unfolding sampleCaptured_def by (rule rail_step.intros)
  show "rail_reach rfcLib sampleAuthorized" unfolding rail_reach_def using a by blast
  show "rail_reach rfcLib sampleCaptured" unfolding rail_reach_def using a b
    by (meson rtranclp.rtrancl_into_rtrancl r_into_rtranclp)
qed

theorem rail_single_capture_witness:
  "\<exists>!k. \<exists>R. capturesByKey sampleCaptured k = Some R \<and> authorizationId R = ''stub-auth-000001''"
proof -
  have "map_option authStatus (states sampleCaptured ''stub-auth-000001'') = Some Captured" by code_simp
  then have "\<exists>st. states sampleCaptured ''stub-auth-000001'' = Some st \<and> authStatus st = Captured" by auto
  with rail_single_capture [OF sampleCaptured_reach(2)] show ?thesis by blast
qed

text \<open>Settled holds are final: no sequence of operations, injected failures included, changes a
  captured hold, turns a voided one into a charge, or alters the amount of a hold.\<close>

theorem rail_settled_final:
  assumes "rail_reach lib r" "(rail_step lib)\<^sup>*\<^sup>* r r'" "railLedger r i = Some (st, m)" "st \<noteq> Authorized"
  shows "railLedger r' i = Some (st, m)"
  using assms(2)
proof induction
  case base
  then show ?case by (rule assms(3))
next
  case (step y z)
  have "rail_reach lib y" using assms(1) step.hyps(1) unfolding rail_reach_def by (meson rtranclp_trans)
  then have inv: "railInv y" by (rule rail_reach_inv)
  have fin: "railLedger y i = Some (st, m)" by (rule step.IH)
  from step.hyps(2) show ?case
  proof (rule rail_stepE)
    fix m' tok k assume z: "z = snd (authorizeStub lib m' tok k y)"
    show ?case
    proof (cases rule: authorizeStub_cases [of lib m' k tok y])
      case (fresh A)
      have "states y (authId A) = None" using inv idsOkD fresh(3) by (simp add: railInv_def)
      then have "i \<noteq> authId A" using fin by (auto simp: railLedger_def)
      then show ?thesis using fin by (simp add: z fresh(6) railLedger_def)
    qed (use fin in \<open>simp_all add: z railLedger_def\<close>)
  next
    fix A k assume z: "z = snd (captureStub lib A k y)"
    show ?case
    proof (cases rule: captureStub_cases [of lib k A y])
      case (fresh R s)
      then have "i \<noteq> authId A" using fin assms(4) by (auto simp: railLedger_def)
      then show ?thesis using fin by (simp add: z fresh(7) railLedger_def)
    qed (use fin in \<open>simp_all add: z railLedger_def\<close>)
  next
    fix A k assume z: "z = snd (voidAuthorizationStub lib A k y)"
    show ?case
    proof (cases rule: voidStub_cases [of lib k A y])
      case (released s)
      have "st = Voided" if "i = authId A"
        using that fin assms(4) released(2,3) by (cases st) (auto simp: railLedger_def)
      then show ?thesis using fin released(2) by (auto simp: z released(4) railLedger_def)
    qed (use fin in \<open>simp_all add: z railLedger_def\<close>)
  qed (use fin in \<open>simp_all add: railLedger_def failNextAuthorize_def failNextCapture_def failNextVoid_def\<close>)
qed

theorem rail_settled_final_witness:
  "railLedger (snd (voidAuthorizationStub rfcLib sampleAuthorization sampleKey sampleCaptured))
     ''stub-auth-000001'' = Some (Captured, sampleMoney)"
proof -
  have l: "railLedger sampleCaptured ''stub-auth-000001'' = Some (Captured, sampleMoney)" by code_simp
  have s: "(rail_step rfcLib)\<^sup>*\<^sup>* sampleCaptured
      (snd (voidAuthorizationStub rfcLib sampleAuthorization sampleKey sampleCaptured))"
    by (rule r_into_rtranclp) (rule rail_step.intros)
  show ?thesis using rail_settled_final [OF sampleCaptured_reach(2) s l] by simp
qed

end
