(* ===== verification/Form_Extract.thy ===== *)
theory Form_Extract
  imports Policy_Resolver Payment_Rail
begin

text \<open>
  The form-policy walkers of \<open>src/policy/extract-form-policy.ts\<close> and the extractors that compose
  them (\<open>src/adapters/composing/form-runtime-policy-extractor.ts\<close>). A definition is its item
  tree and its extension, governance and parties members; absent \<open>items\<close> or \<open>children\<close> are the
  empty list, on which the walkers behave the same. An extracted object keeps the members that
  are present with the value undefined, because the later spreads see them.
\<close>

datatype FormItem = FormItem
  (itemType: string) (itemKey: string) (itemLabel: jsval) (dataType: jsval)
  (accessControl: jsval) (itemVisibleTo: jsval) (children: "FormItem list")

record FormDefinition =
  items :: "FormItem list"
  extensions :: jsval
  governance :: jsval
  definitionParties :: jsval


section \<open>Scalar helpers\<close>

definition nonEmptyString :: "jsval \<Rightarrow> jsval" where
  "nonEmptyString value = (if isNonEmptyString value then value else Undefined)"

definition positiveInteger :: "jsval \<Rightarrow> jsval" where
  "positiveInteger value = (case integerOf value of
     Some n \<Rightarrow> if n > 0 then value else Undefined | None \<Rightarrow> Undefined)"

definition stringArray :: "jsval \<Rightarrow> jsval" where
  "stringArray value = (if isArray value then Arr (filter isNonEmptyString (arrItems value)) else Undefined)"

definition parseBoolean :: "jsval \<Rightarrow> jsval" where
  "parseBoolean value = (if isBoolean value then value else Undefined)"

definition parseStringArray :: "jsval \<Rightarrow> jsval" where
  "parseStringArray value = (if isArray value then Arr (filter isString (arrItems value)) else Undefined)"

definition safeClass :: "jsval \<Rightarrow> jsval" where
  "safeClass value =
     (if value = Str ''safe-address'' \<or> value = Str ''safe-contact'' \<or> value = Str ''safe-employer''
      then value else Undefined)"

text \<open>\<open>oneOf vs v d\<close>: the value when it is one of the literals, else the default.\<close>

definition oneOf :: "string list \<Rightarrow> jsval \<Rightarrow> jsval \<Rightarrow> jsval" where
  "oneOf literals value other = (if value \<in> set (map Str literals) then value else other)"


section \<open>Feature requests\<close>

fun hasAttachmentItem :: "FormItem \<Rightarrow> bool" where
  "hasAttachmentItem (FormItem ty k l dt ac vt cs) =
     (ty = ''field'' \<and> dt = Str ''attachment'' \<or> ty = ''group'' \<and> list_ex hasAttachmentItem cs)"

definition hasAttachmentField :: "FormItem list \<Rightarrow> bool" where
  "hasAttachmentField is = list_ex hasAttachmentItem is"

definition extractAttachmentRequirement :: "FormDefinition \<Rightarrow> jsval" where
  "extractAttachmentRequirement definition' =
     (if hasAttachmentField (items definition') then Str ''required'' else Undefined)"

definition extractOfflineSubmitOptIn :: "FormDefinition \<Rightarrow> jsval" where
  "extractOfflineSubmitOptIn d =
     (if getp (extensions d) ''x-formspec-offline-submit'' = Bool True then Str ''optional'' else Undefined)"

definition extractPaymentRequirement :: "FormDefinition \<Rightarrow> jsval" where
  "extractPaymentRequirement d =
     (if getp (extensions d) ''x-formspec-payment-required'' = Bool True then Str ''required'' else Undefined)"

definition extractEmbeddableOptIn :: "FormDefinition \<Rightarrow> jsval" where
  "extractEmbeddableOptIn d =
     (if getp (extensions d) ''x-formspec-embeddable'' = Bool True then Str ''optional'' else Undefined)"

definition extractPaymentAmount :: "FormDefinition \<Rightarrow> Money option" where
  "extractPaymentAmount d =
     (let raw = getp (extensions d) ''x-formspec-payment-amount'';
          amount = getp raw ''amountMinorUnits''; cur = getp raw ''currency''
      in case (amount, integerOf amount) of
           (Num x, Some n) \<Rightarrow>
             if n < 0 then None
             else if isNonEmptyString cur then Some \<lparr>amountMinorUnits = x, currency = strOf cur\<rparr>
             else None
         | _ \<Rightarrow> None)"


section \<open>Record lifecycle\<close>

definition parseActionBlock :: "jsval \<Rightarrow> jsval" where
  "parseActionBlock value =
     (if \<not> isPlainObject value then Undefined
      else if \<not> isBoolean (getp value ''enabled'') then Undefined else value)"

definition parseRecordLifecycleWindow :: "jsval \<Rightarrow> jsval" where
  "parseRecordLifecycleWindow value =
     (let state = getp value ''state''; closesAt = getp value ''closesAt''; closedAt = getp value ''closedAt''
      in if \<not> isPlainObject value then Undefined
         else if state = Str ''open'' then Obj [(''state'', Str ''open'')]
         else if state = Str ''closes-at'' \<and> isString closesAt then
           Obj [(''state'', Str ''closes-at''), (''closesAt'', closesAt)]
         else if state = Str ''closed'' then
           (if isString closedAt then Obj [(''state'', Str ''closed''), (''closedAt'', closedAt)]
            else Obj [(''state'', Str ''closed'')])
         else if isString closesAt then Obj [(''closesAt'', closesAt)]
         else Undefined)"

definition parseCorrectablePolicy :: "jsval \<Rightarrow> jsval" where
  "parseCorrectablePolicy value =
     (let block = parseActionBlock value
      in if \<not> truthy block then Undefined
         else Obj [(''enabled'', getp block ''enabled''),
                   (''correctableFieldSet'', parseStringArray (getp block ''correctableFieldSet'')),
                   (''window'', parseRecordLifecycleWindow (getp block ''window'')),
                   (''requiresEvidence'', parseBoolean (getp block ''requiresEvidence'')),
                   (''requiresReason'', parseBoolean (getp block ''requiresReason''))])"

definition parseWithdrawablePolicy :: "jsval \<Rightarrow> jsval" where
  "parseWithdrawablePolicy value =
     (let block = parseActionBlock value
      in if \<not> truthy block then Undefined
         else Obj [(''enabled'', getp block ''enabled''),
                   (''window'', parseRecordLifecycleWindow (getp block ''window'')),
                   (''requiresReason'', parseBoolean (getp block ''requiresReason'')),
                   (''preDeterminationKernelMode'',
                      oneOf [''applicant-withdrawn''] (getp block ''preDeterminationKernelMode'') Undefined),
                   (''postDeterminationIntent'',
                      oneOf [''rescission-requested''] (getp block ''postDeterminationIntent'') Undefined),
                   (''requiresIssuerAcceptance'', parseBoolean (getp block ''requiresIssuerAcceptance'')),
                   (''partyScope'',
                      oneOf [''any-party'', ''all-parties-must-agree''] (getp block ''partyScope'') Undefined)])"

definition parseDisputablePolicy :: "jsval \<Rightarrow> jsval" where
  "parseDisputablePolicy value =
     (let block = parseActionBlock value
      in if \<not> truthy block then Undefined
         else Obj [(''enabled'', getp block ''enabled''),
                   (''window'', parseRecordLifecycleWindow (getp block ''window'')),
                   (''requiresEvidence'', parseBoolean (getp block ''requiresEvidence'')),
                   (''requiresReason'', parseBoolean (getp block ''requiresReason'')),
                   (''signerOnly'', parseBoolean (getp block ''signerOnly''))])"

definition recordLifecycleBlockEnablesAnyAction :: "jsval \<Rightarrow> bool" where
  "recordLifecycleBlockEnablesAnyAction value =
     (isObjectType value \<and>
      (getp (getp value ''correctable'') ''enabled'' = Bool True \<or>
       getp (getp value ''withdrawable'') ''enabled'' = Bool True \<or>
       getp (getp value ''disputable'') ''enabled'' = Bool True))"

definition parseRecordLifecycleBlock :: "jsval \<Rightarrow> jsval" where
  "parseRecordLifecycleBlock value =
     (if \<not> isPlainObject value then Undefined
      else let policy = Obj [(''correctable'', parseCorrectablePolicy (getp value ''correctable'')),
                             (''withdrawable'', parseWithdrawablePolicy (getp value ''withdrawable'')),
                             (''disputable'', parseDisputablePolicy (getp value ''disputable''))]
           in if recordLifecycleBlockEnablesAnyAction policy then policy else Undefined)"

definition extractRecordLifecyclePolicy :: "FormDefinition \<Rightarrow> jsval" where
  "extractRecordLifecyclePolicy d =
     coalesce (parseRecordLifecycleBlock (getp (governance d) ''recordLifecycle''))
       (parseRecordLifecycleBlock (getp (extensions d) ''x-formspec-record-lifecycle''))"

definition extractRecordLifecycleOptIn :: "FormDefinition \<Rightarrow> jsval" where
  "extractRecordLifecycleOptIn d =
     (if getp (extensions d) ''x-formspec-record-lifecycle'' = Bool True \<or>
         getp (governance d) ''recordLifecycle'' = Bool True \<or>
         recordLifecycleBlockEnablesAnyAction (extractRecordLifecyclePolicy d)
      then Str ''optional'' else Undefined)"


section \<open>Multi-party\<close>

definition parseMultiPartyCardinality :: "jsval \<Rightarrow> jsval" where
  "parseMultiPartyCardinality value =
     (if \<not> isPlainObject value then Obj [(''min'', jsInt 1), (''max'', jsInt 1)]
      else let min' = coalesce (positiveInteger (getp value ''min'')) (jsInt 1);
               max' = (if getp value ''max'' = Str ''unbounded'' then Str ''unbounded''
                       else coalesce (positiveInteger (getp value ''max'')) min')
           in Obj [(''min'', min'), (''max'', max')])"

definition parseAssuranceFloor :: "jsval \<Rightarrow> jsval" where
  "parseAssuranceFloor value =
     (if \<not> isPlainObject value then Undefined
      else let ial = nonEmptyString (getp value ''ial''); aal = nonEmptyString (getp value ''aal'');
               fal = nonEmptyString (getp value ''fal'')
           in if truthy ial \<or> truthy aal \<or> truthy fal
              then Obj [(''ial'', ial), (''aal'', aal), (''fal'', fal)] else Undefined)"

definition parseMultiPartyDeadlinePolicy :: "jsval \<Rightarrow> jsval" where
  "parseMultiPartyDeadlinePolicy value =
     (if \<not> isPlainObject value then Undefined
      else let act = oneOf [''convert-to-partial'', ''void-submission''] (getp value ''expirationAction'') Undefined
           in if \<not> truthy act then Undefined
              else Obj [(''expirationAction'', act),
                        (''perPartyDeadline'', nonEmptyString (getp value ''perPartyDeadline''))])"

definition parseMultiPartyRole :: "jsval \<Rightarrow> jsval" where
  "parseMultiPartyRole value =
     (if \<not> isPlainObject value then Undefined
      else let roleId = nonEmptyString (getp value ''roleId'');
               role = oneOf [''coEqual'', ''asymmetricPrimary'', ''asymmetricSecondary'', ''guardianFor'']
                        (getp value ''role'') Undefined;
               cardinality = parseMultiPartyCardinality (getp value ''cardinality'')
           in if \<not> truthy roleId \<or> \<not> truthy role \<or> \<not> truthy cardinality then Undefined
              else Obj [(''roleId'', roleId), (''label'', nonEmptyString (getp value ''label'')),
                        (''role'', role), (''cardinality'', cardinality),
                        (''assuranceFloor'', parseAssuranceFloor (getp value ''assuranceFloor'')),
                        (''visibilityScope'',
                           oneOf [''scoped'', ''shared''] (getp value ''visibilityScope'') (Str ''shared'')),
                        (''visibleTo'', stringArray (getp value ''visibleTo'')),
                        (''editableBy'', stringArray (getp value ''editableBy'')),
                        (''signedBy'', stringArray (getp value ''signedBy'')),
                        (''safeAddressAudience'', stringArray (getp value ''safeAddressAudience''))])"

definition parseMultiPartyBlock :: "jsval \<Rightarrow> jsval" where
  "parseMultiPartyBlock value =
     (if \<not> isPlainObject value then Undefined
      else let tier = oneOf [''coEqual'', ''asymmetric''] (getp value ''tier'') Undefined;
               rawParties = getp value ''parties'';
               parsed = filter (\<lambda>p. p \<noteq> Undefined) (map parseMultiPartyRole (arrItems rawParties))
           in if \<not> truthy tier \<or> length parsed < 2 \<or> length parsed \<noteq> length (arrItems rawParties)
              then Undefined
              else Obj [(''tier'', tier), (''parties'', Arr parsed),
                        (''invitationChannel'',
                           oneOf [''magic-link'', ''wos-task'', ''out-of-band'']
                             (getp value ''invitationChannel'') (Str ''out-of-band'')),
                        (''deadlinePolicy'', parseMultiPartyDeadlinePolicy (getp value ''deadlinePolicy''))])"

definition extractMultiPartyPolicy :: "FormDefinition \<Rightarrow> FormRuntimePolicy option" where
  "extractMultiPartyPolicy d =
     (let raw = coalesce (coalesce (getp (extensions d) ''x-formspec-multi-party'')
                  (getp (governance d) ''multiParty'')) (definitionParties d);
          policy = parseMultiPartyBlock raw
      in if \<not> truthy policy then None
         else Some \<lparr>features = [(''multiParty'', Str ''required'')],
                    limits = Obj [(''multiParty'', policy)], recordLifecycle = Undefined\<rparr>)"


section \<open>Safe addresses\<close>

definition safeAccessClass :: "FormItem \<Rightarrow> jsval" where
  "safeAccessClass item = safeClass (getp (accessControl item) ''class'')"

definition itemFieldPolicy :: "string list \<Rightarrow> FormItem \<Rightarrow> jsval list" where
  "itemFieldPolicy ancestors item =
     (let accessClass = safeAccessClass item
      in if truthy accessClass then
           [Obj [(''path'', Str (''/'' @ joinWith ''/'' (ancestors @ [itemKey item]))),
                 (''label'', itemLabel item), (''accessClass'', accessClass),
                 (''visibleTo'', stringArray (itemVisibleTo item)),
                 (''plaintextAudiences'', stringArray (getp (accessControl item) ''plaintextAudiences'')),
                 (''effectiveAudiences'', stringArray (getp (accessControl item) ''effectiveAudiences''))]]
         else [])"

fun safeAddressFieldsFromItem :: "string list \<Rightarrow> FormItem \<Rightarrow> jsval list" where
  "safeAddressFieldsFromItem ancestors (FormItem ty k l dt ac vt cs) =
     itemFieldPolicy ancestors (FormItem ty k l dt ac vt cs) @
     (if ty = ''group'' then concat (map (safeAddressFieldsFromItem (ancestors @ [k])) cs) else [])"

definition safeAddressFieldsFromItems :: "FormItem list \<Rightarrow> string list \<Rightarrow> jsval list" where
  "safeAddressFieldsFromItems is ancestors = concat (map (safeAddressFieldsFromItem ancestors) is)"

definition parseSafeAddressField :: "jsval \<Rightarrow> jsval" where
  "parseSafeAddressField entry =
     (if \<not> isPlainObject entry then Undefined
      else let accessClass = safeClass (getp entry ''accessClass''); path = nonEmptyString (getp entry ''path'')
           in if \<not> truthy path \<or> \<not> truthy accessClass then Undefined
              else Obj [(''path'', path), (''label'', nonEmptyString (getp entry ''label'')),
                        (''accessClass'', accessClass),
                        (''visibleTo'', stringArray (getp entry ''visibleTo'')),
                        (''plaintextAudiences'', stringArray (getp entry ''plaintextAudiences'')),
                        (''effectiveAudiences'', stringArray (getp entry ''effectiveAudiences''))])"

definition safeAddressFieldArray :: "jsval \<Rightarrow> jsval" where
  "safeAddressFieldArray value =
     (if \<not> isArray value then Undefined
      else let fieldList = filter (\<lambda>e. e \<noteq> Undefined) (map parseSafeAddressField (arrItems value))
           in if fieldList \<noteq> [] then Arr fieldList else Undefined)"

definition parseSafeAddressRendererHints :: "jsval \<Rightarrow> jsval" where
  "parseSafeAddressRendererHints value =
     (if \<not> isPlainObject value then Undefined
      else let mask = nonEmptyString (getp value ''maskRenderToken'');
               reveal = nonEmptyString (getp value ''revealAffordanceLabel'')
           in if \<not> truthy mask \<and> \<not> truthy reveal then Undefined
              else Obj [(''maskRenderToken'', mask), (''revealAffordanceLabel'', reveal)])"

definition safeClassArray :: "jsval \<Rightarrow> jsval" where
  "safeClassArray value =
     (if \<not> isArray value then Undefined
      else let classes = filter (\<lambda>e. safeClass e \<noteq> Undefined) (arrItems value)
           in if classes \<noteq> [] then Arr classes else Undefined)"

definition uniqueSafeClasses :: "jsval list \<Rightarrow> jsval" where
  "uniqueSafeClasses fieldList = Arr (uniq (map (\<lambda>field. getp field ''accessClass'') fieldList))"

definition parseSafeAddressBlock :: "jsval \<Rightarrow> jsval" where
  "parseSafeAddressBlock value =
     (if value = Bool True then Obj [(''enabled'', Bool True)]
      else if \<not> isPlainObject value then Obj [(''enabled'', Bool False)]
      else let mode = oneOf [''optional'', ''required''] (getp value ''mode'') Undefined
           in Obj [(''enabled'', Bool (getp value ''enabled'' = Bool True \<or> mode \<noteq> Undefined)),
                   (''mode'', mode),
                   (''receiptPostureTier'',
                      oneOf [''verifier-grade'', ''phase-1-fallback''] (getp value ''receiptPostureTier'') Undefined),
                   (''enabledClasses'', safeClassArray (getp value ''enabledClasses'')),
                   (''acpJurisdictionsAccepted'', stringArray (getp value ''acpJurisdictionsAccepted'')),
                   (''authorizedAudiences'', stringArray (getp value ''authorizedAudiences'')),
                   (''substituteAddressDirectoryRef'',
                      nonEmptyString (getp value ''substituteAddressDirectoryRef'')),
                   (''fields'', safeAddressFieldArray (getp value ''fields'')),
                   (''rendererHints'', parseSafeAddressRendererHints (getp value ''rendererHints''))])"

definition extractSafeAddressPolicy :: "FormDefinition \<Rightarrow> FormRuntimePolicy option" where
  "extractSafeAddressPolicy d =
     (let raw = getp (extensions d) ''x-formspec-safe-address'';
          block = parseSafeAddressBlock raw;
          fieldList = safeAddressFieldsFromItems (items d) [] @ arrItems (getp block ''fields'')
      in if raw = Bool False \<and> fieldList = [] then
           Some \<lparr>features = [(''safeAddress'', Str ''forbidden'')], limits = Undefined, recordLifecycle = Undefined\<rparr>
         else if getp block ''enabled'' \<noteq> Bool True \<and> fieldList = [] then None
         else Some
           \<lparr>features = [(''safeAddress'',
              if fieldList \<noteq> [] then Str ''required'' else coalesce (getp block ''mode'') (Str ''required''))],
            limits = Obj [(''safeAddress'', Obj
              [(''enabledClasses'', coalesce (getp block ''enabledClasses'') (uniqueSafeClasses fieldList)),
               (''receiptPostureTier'', coalesce (getp block ''receiptPostureTier'') (Str ''phase-1-fallback'')),
               (''substituteAddressDirectoryRef'',
                  coalesce (getp block ''substituteAddressDirectoryRef'') (Str ''composition:safeAddressDirectory'')),
               (''acpJurisdictionsAccepted'', coalesce (getp block ''acpJurisdictionsAccepted'') (Arr [])),
               (''authorizedAudiences'', coalesce (getp block ''authorizedAudiences'') (Arr [])),
               (''fields'', Arr fieldList),
               (''rendererHints'', getp block ''rendererHints'')])],
            recordLifecycle = Undefined\<rparr>)"


section \<open>The extractors and their composition\<close>

type_synonym extractor = "FormDefinition \<Rightarrow> FormRuntimePolicy"

definition policyOf :: "props \<Rightarrow> FormRuntimePolicy" where
  "policyOf fs = \<lparr>features = fs, limits = Undefined, recordLifecycle = Undefined\<rparr>"

definition emptyExtractor :: extractor where
  "emptyExtractor d = policyOf []"

text \<open>\<open>value ? { features: { key: value } } : { features: {} }\<close>\<close>

definition requestOf :: "string \<Rightarrow> jsval \<Rightarrow> FormRuntimePolicy" where
  "requestOf k v = (if truthy v then policyOf [(k, v)] else policyOf [])"

definition attachmentExtractor :: extractor where
  "attachmentExtractor d = requestOf ''fileUpload'' (extractAttachmentRequirement d)"

definition offlineSubmitExtractor :: extractor where
  "offlineSubmitExtractor d = requestOf ''offlineSubmit'' (extractOfflineSubmitOptIn d)"

definition paymentExtractor :: extractor where
  "paymentExtractor d = requestOf ''payment'' (extractPaymentRequirement d)"

definition embeddableExtractor :: extractor where
  "embeddableExtractor d = requestOf ''embed'' (extractEmbeddableOptIn d)"

definition recordLifecycleExtractor :: extractor where
  "recordLifecycleExtractor d =
     (let v = extractRecordLifecycleOptIn d
      in if truthy v then (policyOf [(''recordLifecycle'', v)])\<lparr>recordLifecycle := extractRecordLifecyclePolicy d\<rparr>
         else policyOf [])"

definition multiPartyExtractor :: extractor where
  "multiPartyExtractor d = (case extractMultiPartyPolicy d of Some p \<Rightarrow> p | None \<Rightarrow> policyOf [])"

definition safeAddressExtractor :: extractor where
  "safeAddressExtractor d = (case extractSafeAddressPolicy d of Some p \<Rightarrow> p | None \<Rightarrow> policyOf [])"

fun compositeLoop :: "extractor list \<Rightarrow> FormDefinition \<Rightarrow> props \<times> props \<times> props \<Rightarrow> props \<times> props \<times> props" where
  "compositeLoop [] d acc = acc"
| "compositeLoop (extract # es) d (fs, ls, rl) =
     (let policy = extract d
      in compositeLoop es d (spread fs (features policy), spread ls (ownProps (limits policy)),
           spread rl (ownProps (recordLifecycle policy))))"

definition compositeExtractor :: "extractor list \<Rightarrow> extractor" where
  "compositeExtractor extractors d =
     (case compositeLoop extractors d ([], [], []) of (fs, ls, rl) \<Rightarrow>
        \<lparr>features = fs, limits = (if ls \<noteq> [] then Obj ls else Undefined),
         recordLifecycle = (if rl \<noteq> [] then Obj rl else Undefined)\<rparr>)"

text \<open>The extractor both composition roots wire (\<open>composition/default.ts\<close>, \<open>composition/stub.ts\<close>).\<close>

definition defaultExtractor :: extractor where
  "defaultExtractor = compositeExtractor
     [attachmentExtractor, offlineSubmitExtractor, paymentExtractor, embeddableExtractor,
      multiPartyExtractor, recordLifecycleExtractor, safeAddressExtractor]"


section \<open>The extractor contract\<close>

text \<open>
  A form-policy extractor answers every definition with well-formed requests: known feature keys,
  each once, with valid form modes. The composite keeps the contract.
\<close>

locale policy_extractor =
  fixes doExtract :: extractor
  assumes features_wf: "wfProps (features (doExtract d))"
    and features_known: "(k, v) \<in> set (features (doExtract d)) \<Longrightarrow> isRuntimeFeatureKey k"
    and features_mode: "(k, v) \<in> set (features (doExtract d)) \<Longrightarrow> isFormFeaturePolicyMode v"
begin

lemma features_valid: "validateFeatureModes FormDoc isFormFeaturePolicyMode (features (doExtract d)) = Inr ()"
proof -
  have "isRuntimeFeatureKey k" "isFormFeaturePolicyMode (propOf (features (doExtract d)) k)"
    if mem: "k \<in> fst ` set (features (doExtract d))" for k
  proof -
    obtain v where v: "(k, v) \<in> set (features (doExtract d))" using mem by auto
    then show "isRuntimeFeatureKey k" by (rule features_known)
    have "propOf (features (doExtract d)) k = v"
      using v features_wf [of d] by (simp add: propOf_def wfProps_def)
    with v show "isFormFeaturePolicyMode (propOf (features (doExtract d)) k)" using features_mode by simp
  qed
  then show ?thesis by (auto simp: validateFeatureModes_def check_simps)
qed

end

lemma setProp_mem: "(j, w) \<in> set (setProp k v ps) \<Longrightarrow> (j, w) = (k, v) \<or> (j, w) \<in> set ps"
  by (induction k v ps rule: setProp.induct) (auto split: if_splits)

lemma spread_mem: "(j, w) \<in> set (spread a b) \<Longrightarrow> (j, w) \<in> set a \<or> (j, w) \<in> set b"
  by (induction a b rule: spread.induct) (auto dest: setProp_mem)

lemma compositeLoop_features:
  "fst (compositeLoop es d (fs, ls, rl)) = foldl (\<lambda>a e. spread a (features (e d))) fs es"
  by (induction es arbitrary: fs ls rl) (simp_all add: Let_def)

lemma compositeExtractor_features:
  "features (compositeExtractor es d) = foldl (\<lambda>a e. spread a (features (e d))) [] es"
  using compositeLoop_features [of es d "[]" "[]" "[]"]
  by (cases "compositeLoop es d ([], [], [])") (simp add: compositeExtractor_def)

lemma composite_contract:
  assumes "\<forall>e\<in>set es. policy_extractor e"
  shows "policy_extractor (compositeExtractor es)"
proof -
  have *: "wfProps (foldl (\<lambda>a e. spread a (features (e d))) fs es) \<and>
      (\<forall>(k, v)\<in>set (foldl (\<lambda>a e. spread a (features (e d))) fs es).
         (k, v) \<in> set fs \<or> isRuntimeFeatureKey k \<and> isFormFeaturePolicyMode v)"
    if "wfProps fs" for d fs
    using assms that
  proof (induction es arbitrary: fs)
    case (Cons e es)
    have "policy_extractor e" using Cons.prems(1) by simp
    then have e: "\<And>k v. (k, v) \<in> set (features (e d)) \<Longrightarrow> isRuntimeFeatureKey k \<and> isFormFeaturePolicyMode v"
      by (simp add: policy_extractor_def) blast
    have "wfProps (spread fs (features (e d)))" using Cons.prems(2) by (rule wfProps_spread)
    from Cons.IH [OF _ this] Cons.prems(1) e show ?case by (fastforce dest: spread_mem)
  qed auto
  have "wfProps []" by (simp add: wfProps_def)
  from * [OF this] show ?thesis
    by unfold_locales (auto simp: compositeExtractor_features)
qed

interpretation emptyEx: policy_extractor emptyExtractor
  by unfold_locales (auto simp: emptyExtractor_def policyOf_def wfProps_def)

lemma requestOf_contract:
  assumes "\<And>d. f d = Undefined \<or> isFormFeaturePolicyMode (f d)" "isRuntimeFeatureKey k"
  shows "policy_extractor (\<lambda>d. requestOf k (f d))"
proof
  fix d j v
  show "wfProps (features (requestOf k (f d)))" by (simp add: requestOf_def policyOf_def wfProps_def)
  assume "(j, v) \<in> set (features (requestOf k (f d)))"
  then have "j = k" "v = f d" "truthy (f d)" by (auto simp: requestOf_def policyOf_def split: if_splits)
  then show "isRuntimeFeatureKey j" "isFormFeaturePolicyMode v" using assms(1) [of d] assms(2) by auto
qed

lemma feature_name: "isRuntimeFeatureKey (keyName k)" by simp

lemmas extract_defs = attachmentExtractor_def offlineSubmitExtractor_def paymentExtractor_def
  embeddableExtractor_def extractAttachmentRequirement_def extractOfflineSubmitOptIn_def
  extractPaymentRequirement_def extractEmbeddableOptIn_def

interpretation attachmentEx: policy_extractor attachmentExtractor
  unfolding extract_defs [abs_def] using feature_name [of FileUpload]
  by (intro requestOf_contract) (auto simp: isFormFeaturePolicyMode_def)

interpretation offlineEx: policy_extractor offlineSubmitExtractor
  unfolding extract_defs [abs_def] using feature_name [of OfflineSubmit]
  by (intro requestOf_contract) (auto simp: isFormFeaturePolicyMode_def)

interpretation paymentEx: policy_extractor paymentExtractor
  unfolding extract_defs [abs_def] using feature_name [of Payment]
  by (intro requestOf_contract) (auto simp: isFormFeaturePolicyMode_def)

interpretation embedEx: policy_extractor embeddableExtractor
  unfolding extract_defs [abs_def] using feature_name [of Embed]
  by (intro requestOf_contract) (auto simp: isFormFeaturePolicyMode_def)

interpretation lifecycleEx: policy_extractor recordLifecycleExtractor
  using feature_name [of RecordLifecycle]
  by unfold_locales (auto simp: recordLifecycleExtractor_def extractRecordLifecycleOptIn_def policyOf_def
      wfProps_def isFormFeaturePolicyMode_def Let_def split: if_splits)

interpretation multiPartyEx: policy_extractor multiPartyExtractor
  using feature_name [of MultiParty]
  by unfold_locales (auto simp: multiPartyExtractor_def extractMultiPartyPolicy_def policyOf_def
      wfProps_def isFormFeaturePolicyMode_def Let_def split: if_splits)

lemma block_mode: "getp (parseSafeAddressBlock v) ''mode'' \<in> {Undefined, Str ''optional'', Str ''required''}"
  by (simp add: parseSafeAddressBlock_def oneOf_def Let_def)

lemma safeAddressExtractor_features:
  "\<exists>m. features (safeAddressExtractor d) = [] \<or>
     features (safeAddressExtractor d) = [(''safeAddress'', Str m)] \<and> m \<in> {''forbidden'', ''optional'', ''required''}"
proof -
  let ?r = "getp (extensions d) ''x-formspec-safe-address''"
  let ?m = "coalesce (getp (parseSafeAddressBlock ?r) ''mode'') (Str ''required'')"
  have "?m = Str ''optional'' \<or> ?m = Str ''required''" using block_mode [of ?r] by auto
  then show ?thesis
    by (auto simp: safeAddressExtractor_def extractSafeAddressPolicy_def policyOf_def Let_def)
qed

interpretation safeAddressEx: policy_extractor safeAddressExtractor
proof
  fix d j v
  obtain m where m: "features (safeAddressExtractor d) = [] \<or>
     features (safeAddressExtractor d) = [(''safeAddress'', Str m)] \<and> m \<in> {''forbidden'', ''optional'', ''required''}"
    using safeAddressExtractor_features by blast
  then show "wfProps (features (safeAddressExtractor d))" by (auto simp: wfProps_def)
  assume "(j, v) \<in> set (features (safeAddressExtractor d))"
  with m have "j = ''safeAddress''" "v \<in> {Str ''forbidden'', Str ''optional'', Str ''required''}" by auto
  then show "isRuntimeFeatureKey j" "isFormFeaturePolicyMode v"
    using feature_name [of SafeAddress] by (auto simp: isFormFeaturePolicyMode_def)
qed

interpretation defaultEx: policy_extractor defaultExtractor
  unfolding defaultExtractor_def
  by (rule composite_contract) (simp add: attachmentEx.policy_extractor_axioms
      offlineEx.policy_extractor_axioms paymentEx.policy_extractor_axioms
      embedEx.policy_extractor_axioms multiPartyEx.policy_extractor_axioms
      lifecycleEx.policy_extractor_axioms safeAddressEx.policy_extractor_axioms)


section \<open>What the walkers find\<close>

text \<open>The items of a definition: the listed ones and those nested in groups.\<close>

inductive nestedItem :: "FormItem list \<Rightarrow> FormItem \<Rightarrow> bool" where
  here: "i \<in> set is \<Longrightarrow> nestedItem is i"
| inGroup: "g \<in> set is \<Longrightarrow> itemType g = ''group'' \<Longrightarrow> nestedItem (children g) i \<Longrightarrow> nestedItem is i"

lemma hasAttachmentItem_iff:
  "hasAttachmentItem i \<longleftrightarrow> itemType i = ''field'' \<and> dataType i = Str ''attachment'' \<or>
     itemType i = ''group'' \<and> hasAttachmentField (children i)"
  by (cases i) (simp add: hasAttachmentField_def)

lemma hasAttachmentField_sound:
  "hasAttachmentItem i \<Longrightarrow> i \<in> set is \<Longrightarrow>
     \<exists>x. nestedItem is x \<and> itemType x = ''field'' \<and> dataType x = Str ''attachment''"
proof (induction i arbitrary: "is" rule: hasAttachmentItem.induct)
  case (1 ty k l dt ac vt cs)
  let ?i = "FormItem ty k l dt ac vt cs"
  from 1(2) consider "ty = ''field''" "dt = Str ''attachment''" | "ty = ''group''" "list_ex hasAttachmentItem cs"
    by auto
  then show ?case
  proof cases
    case 1
    then show ?thesis using \<open>?i \<in> set is\<close> by (intro exI [of _ ?i]) (auto intro: nestedItem.here)
  next
    case 2
    then obtain c where "c \<in> set cs" "hasAttachmentItem c" by (auto simp: list_ex_iff)
    from 1(1) [OF this(1) this(2) this(1)] obtain x where
      "nestedItem cs x" "itemType x = ''field''" "dataType x = Str ''attachment''" by blast
    then show ?thesis using 2 1(3) by (intro exI [of _ x]) (auto intro: nestedItem.inGroup)
  qed
qed

lemma hasAttachmentField_complete:
  "nestedItem is x \<Longrightarrow> itemType x = ''field'' \<Longrightarrow> dataType x = Str ''attachment'' \<Longrightarrow> hasAttachmentField is"
proof (induction rule: nestedItem.induct)
  case (here i "is")
  then have "hasAttachmentItem i" using hasAttachmentItem_iff [of i] by blast
  with here show ?case by (auto simp: hasAttachmentField_def list_ex_iff)
next
  case (inGroup g "is" i)
  then have "hasAttachmentItem g" using hasAttachmentItem_iff [of g] by blast
  with inGroup show ?case by (auto simp: hasAttachmentField_def list_ex_iff)
qed

lemma isStringArray_stringArray: "stringArray v = Undefined \<or> isStringArray (stringArray v)"
  by (auto simp: stringArray_def isStringArray_def list_all_iff)

lemma safeClass_class: "truthy (safeClass v) \<Longrightarrow> isSafeAddressAccessClass (safeClass v)"
  by (auto simp: safeClass_def isSafeAddressAccessClass_def split: if_splits)

lemma itemFieldPolicy_valid: "f \<in> set (itemFieldPolicy as i) \<Longrightarrow> validSafeField f"
  using safeClass_class [of "getp (accessControl i) ''class''"] isStringArray_stringArray
  by (auto simp: itemFieldPolicy_def safeAccessClass_def validSafeField_def Let_def startsWith_def
      split: if_splits)

lemma fieldsFromItem_valid: "f \<in> set (safeAddressFieldsFromItem as i) \<Longrightarrow> validSafeField f"
proof (induction as i rule: safeAddressFieldsFromItem.induct)
  case (1 as ty k l dt ac vt cs)
  then show ?case by (auto intro: itemFieldPolicy_valid split: if_splits)
qed

lemma safe_item_listed:
  "nestedItem is x \<Longrightarrow> truthy (safeAccessClass x) \<Longrightarrow>
     \<exists>f\<in>set (safeAddressFieldsFromItems is as). getp f ''accessClass'' = safeAccessClass x"
proof (induction arbitrary: as rule: nestedItem.induct)
  case (here i "is")
  have "set (itemFieldPolicy as i) \<subseteq> set (safeAddressFieldsFromItem as i)" by (cases i) auto
  then show ?case using here
    by (force simp: safeAddressFieldsFromItems_def itemFieldPolicy_def Let_def)
next
  case (inGroup g "is" i)
  have "set (safeAddressFieldsFromItems (children g) (as @ [itemKey g])) \<subseteq> set (safeAddressFieldsFromItem as g)"
    using inGroup.hyps(2) by (cases g) (auto simp: safeAddressFieldsFromItems_def)
  moreover have "set (safeAddressFieldsFromItem as g) \<subseteq> set (safeAddressFieldsFromItems is as)"
    using inGroup.hyps(1) by (auto simp: safeAddressFieldsFromItems_def)
  ultimately show ?case using inGroup.IH [OF inGroup.prems, of "as @ [itemKey g]"] by blast
qed

text \<open>A parsed role meets the resolver's rules except the two that relate its members.\<close>

lemma integerOf_positiveInteger:
  "positiveInteger v = Undefined \<or> (\<exists>n. v = jsInt n \<and> n > 0 \<and> positiveInteger v = jsInt n)"
  by (auto simp: positiveInteger_def integerOf_Some split: option.splits)

lemma coalesce_jsInt [simp]: "coalesce (jsInt n) v = jsInt n"
  by (simp add: jsInt_def)

definition minLeMax :: "jsval \<Rightarrow> bool" where
  "minLeMax c \<longleftrightarrow> getp c ''max'' = Str ''unbounded'' \<or>
     (\<exists>m n. getp c ''min'' = jsInt m \<and> getp c ''max'' = jsInt n \<and> m \<le> n)"

lemma validCardinality_parsed: "validCardinality (parseMultiPartyCardinality v) \<longleftrightarrow> minLeMax (parseMultiPartyCardinality v)"
proof -
  have "\<exists>m\<ge>1. coalesce (positiveInteger (getp v ''min'')) (jsInt 1) = jsInt m"
    using integerOf_positiveInteger [of "getp v ''min''"] by auto
  then obtain m where m: "1 \<le> m" "coalesce (positiveInteger (getp v ''min'')) (jsInt 1) = jsInt m" by auto
  show ?thesis
    using m by (auto simp: parseMultiPartyCardinality_def validCardinality_def minLeMax_def Let_def)
qed

definition audienceMeets :: "jsval \<Rightarrow> bool" where
  "audienceMeets p \<longleftrightarrow> getp p ''safeAddressAudience'' = Undefined \<or> getp p ''visibleTo'' = Undefined \<or>
     set (strItems (getp p ''safeAddressAudience'')) \<inter> set (strItems (getp p ''visibleTo'')) \<noteq> {}"

lemma nonEmptyString_truthy: "truthy (nonEmptyString v) \<longleftrightarrow> isNonEmptyString v"
  by (cases v) (auto simp: nonEmptyString_def)

lemma parseMultiPartyRole_valid:
  assumes "parseMultiPartyRole v \<noteq> Undefined"
  shows "validPartyShape (parseMultiPartyRole v) \<longleftrightarrow>
    minLeMax (getp (parseMultiPartyRole v) ''cardinality'') \<and> audienceMeets (parseMultiPartyRole v)"
proof -
  have v: "isPlainObject v" "isNonEmptyString (getp v ''roleId'')"
    "getp v ''role'' \<in> {Str ''coEqual'', Str ''asymmetricPrimary'', Str ''asymmetricSecondary'', Str ''guardianFor''}"
    using assms by (auto simp: parseMultiPartyRole_def Let_def oneOf_def nonEmptyString_truthy split: if_splits)
  have c: "truthy (parseMultiPartyCardinality w)" for w
    by (simp add: parseMultiPartyCardinality_def Let_def)
  have p: "parseMultiPartyRole v = Obj
      [(''roleId'', getp v ''roleId''), (''label'', nonEmptyString (getp v ''label'')),
       (''role'', getp v ''role''), (''cardinality'', parseMultiPartyCardinality (getp v ''cardinality'')),
       (''assuranceFloor'', parseAssuranceFloor (getp v ''assuranceFloor'')),
       (''visibilityScope'', oneOf [''scoped'', ''shared''] (getp v ''visibilityScope'') (Str ''shared'')),
       (''visibleTo'', stringArray (getp v ''visibleTo'')),
       (''editableBy'', stringArray (getp v ''editableBy'')),
       (''signedBy'', stringArray (getp v ''signedBy'')),
       (''safeAddressAudience'', stringArray (getp v ''safeAddressAudience''))]"
    using v c by (auto simp: parseMultiPartyRole_def Let_def oneOf_def nonEmptyString_def
        isNonEmptyString_iff)
  have "oneOf [''scoped'', ''shared''] w (Str ''shared'') \<in> {Str ''shared'', Str ''scoped''}" for w
    by (auto simp: oneOf_def)
  then show ?thesis
    unfolding validPartyShape_def audienceMeets_def p
    using v isStringArray_stringArray by (simp add: validCardinality_parsed) blast
qed


section \<open>Properties\<close>

text \<open>A form requires uploads exactly when an attachment field occurs in it, at the top level or
  nested in groups at any depth.\<close>

theorem attachment_requirement_iff:
  "extractAttachmentRequirement d =
     (if \<exists>x. nestedItem (items d) x \<and> itemType x = ''field'' \<and> dataType x = Str ''attachment''
      then Str ''required'' else Undefined)"
proof -
  have "hasAttachmentField (items d) \<longleftrightarrow>
      (\<exists>x. nestedItem (items d) x \<and> itemType x = ''field'' \<and> dataType x = Str ''attachment'')"
    using hasAttachmentField_sound hasAttachmentField_complete
    unfolding hasAttachmentField_def list_ex_iff by blast
  then show ?thesis by (simp add: extractAttachmentRequirement_def)
qed

text \<open>The extractor wired in both composition roots never produces a request the resolver
  rejects as malformed: on every definition the feature keys are known and their modes valid.\<close>

theorem default_extractor_requests_valid:
  "validateFeatureModes FormDoc isFormFeaturePolicyMode (features (defaultExtractor d)) = Inr ()"
  by (rule defaultEx.features_valid)

text \<open>Composition is last-wins per feature key: adding an extractor at the end overrides exactly
  the keys it answers and keeps every other answer.\<close>

theorem composite_last_wins:
  assumes "policy_extractor e"
  shows "propOf (features (compositeExtractor (es @ [e]) d)) k =
    (if hasOwn (features (e d)) k then propOf (features (e d)) k
     else propOf (features (compositeExtractor es d)) k)"
proof -
  have "wfProps (features (e d))" using assms by (simp add: policy_extractor_def)
  then show ?thesis by (simp add: compositeExtractor_features propOf_spread)
qed

theorem composite_last_wins_witness:
  "propOf (features (compositeExtractor ([emptyExtractor] @ [paymentExtractor])
     \<lparr>items = [], extensions = Obj [(''x-formspec-payment-required'', Bool True)],
      governance = Undefined, definitionParties = Undefined\<rparr>)) ''payment'' = Str ''required''"
  using composite_last_wins [OF paymentEx.policy_extractor_axioms, of "[emptyExtractor]"
      "\<lparr>items = [], extensions = Obj [(''x-formspec-payment-required'', Bool True)],
      governance = Undefined, definitionParties = Undefined\<rparr>" "''payment''"]
  by (simp add: paymentExtractor_def requestOf_def extractPaymentRequirement_def policyOf_def)

text \<open>A multi-party block that the form walker accepts passes the resolver's validation exactly
  when its role ids are distinct and every role has a minimum within its maximum and a
  safe-address audience that meets its visible parties; every other rule is met by extraction.\<close>

theorem extracted_multi_party_validates_iff:
  assumes "parseMultiPartyBlock v \<noteq> Undefined"
  shows "validateMultiPartyLimits (parseMultiPartyBlock v) FormDoc = Inr () \<longleftrightarrow>
    distinct (map (\<lambda>p. strOf (getp p ''roleId'')) (arrItems (getp (parseMultiPartyBlock v) ''parties''))) \<and>
    (\<forall>p\<in>set (arrItems (getp (parseMultiPartyBlock v) ''parties'')).
       minLeMax (getp p ''cardinality'') \<and> audienceMeets p)"
proof -
  let ?ps = "filter (\<lambda>p. p \<noteq> Undefined) (map parseMultiPartyRole (arrItems (getp v ''parties'')))"
  have t: "getp v ''tier'' \<in> {Str ''coEqual'', Str ''asymmetric''}" and l: "2 \<le> length ?ps"
    using assms by (auto simp: parseMultiPartyBlock_def Let_def oneOf_def split: if_splits)
  have b: "parseMultiPartyBlock v = Obj [(''tier'', getp v ''tier''), (''parties'', Arr ?ps),
      (''invitationChannel'', oneOf [''magic-link'', ''wos-task'', ''out-of-band'']
         (getp v ''invitationChannel'') (Str ''out-of-band'')),
      (''deadlinePolicy'', parseMultiPartyDeadlinePolicy (getp v ''deadlinePolicy''))]"
    using assms t by (auto simp: parseMultiPartyBlock_def Let_def oneOf_def split: if_splits)
  have shape: "validPartyShape p \<longleftrightarrow> minLeMax (getp p ''cardinality'') \<and> audienceMeets p"
    if "p \<in> set ?ps" for p
    using that parseMultiPartyRole_valid by auto
  have ch: "oneOf [''magic-link'', ''wos-task'', ''out-of-band''] w (Str ''out-of-band'')
      \<in> {Undefined, Str ''magic-link'', Str ''wos-task'', Str ''out-of-band''}" for w
    by (auto simp: oneOf_def)
  have dl: "parseMultiPartyDeadlinePolicy w = Undefined \<or>
      (\<exists>a q. parseMultiPartyDeadlinePolicy w = Obj [(''expirationAction'', a), (''perPartyDeadline'', q)] \<and>
         a \<in> {Str ''void-submission'', Str ''convert-to-partial''} \<and> (q = Undefined \<or> isNonEmptyString q))" for w
    by (auto simp: parseMultiPartyDeadlinePolicy_def Let_def oneOf_def nonEmptyString_def)
  have valid: "validMultiParty (Obj [(''tier'', T), (''parties'', Arr ps), (''invitationChannel'', C),
        (''deadlinePolicy'', D)]) \<longleftrightarrow>
      (\<forall>p\<in>set ps. validPartyShape p) \<and> distinct (map (\<lambda>p. strOf (getp p ''roleId'')) ps)"
    if "T \<in> {Str ''coEqual'', Str ''asymmetric''}" "2 \<le> length ps"
      "C \<in> {Undefined, Str ''magic-link'', Str ''wos-task'', Str ''out-of-band''}"
      "D = Undefined \<or> (\<exists>a q. D = Obj [(''expirationAction'', a), (''perPartyDeadline'', q)] \<and>
         a \<in> {Str ''void-submission'', Str ''convert-to-partial''} \<and> (q = Undefined \<or> isNonEmptyString q))"
    for T ps C D
    unfolding validMultiParty_def using that by (elim disjE exE conjE) simp_all
  have "validMultiParty (parseMultiPartyBlock v) \<longleftrightarrow>
      (\<forall>p\<in>set ?ps. validPartyShape p) \<and> distinct (map (\<lambda>p. strOf (getp p ''roleId'')) ?ps)"
    unfolding b by (rule valid [OF t l ch dl])
  moreover have "getp (parseMultiPartyBlock v) ''parties'' = Arr ?ps" by (simp add: b)
  ultimately show ?thesis using shape assms by (auto simp: validateMultiPartyLimits_ok simp del: set_filter)
qed

definition sampleParties :: "jsval list \<Rightarrow> jsval" where
  "sampleParties ps = Obj [(''tier'', Str ''coEqual''), (''parties'', Arr ps)]"

definition sampleRole :: "string \<Rightarrow> jsval" where
  "sampleRole r = Obj [(''roleId'', Str r), (''role'', Str ''coEqual'')]"

theorem extracted_multi_party_validates_iff_witness:
  "validateMultiPartyLimits (parseMultiPartyBlock (sampleParties [sampleRole ''a'', sampleRole ''a''])) FormDoc
     \<noteq> Inr ()"
proof -
  have a: "parseMultiPartyBlock (sampleParties [sampleRole ''a'', sampleRole ''a'']) \<noteq> Undefined" by code_simp
  have "\<not> distinct (map (\<lambda>p. strOf (getp p ''roleId'')) (arrItems (getp
      (parseMultiPartyBlock (sampleParties [sampleRole ''a'', sampleRole ''a''])) ''parties'')))" by code_simp
  then show ?thesis using extracted_multi_party_validates_iff [OF a] by blast
qed

text \<open>Whenever an item carries a safe-address access class, at any depth, the form requires the
  feature and the extracted block lists a valid field policy with that class.\<close>

theorem safe_items_require_safe_address:
  assumes "nestedItem (items d) x" "truthy (safeAccessClass x)"
  shows "\<exists>p. extractSafeAddressPolicy d = Some p \<and>
    features p = [(''safeAddress'', Str ''required'')] \<and>
    (\<exists>f\<in>set (arrItems (getp (getp (limits p) ''safeAddress'') ''fields'')).
       validSafeField f \<and> getp f ''accessClass'' = safeAccessClass x)"
proof -
  obtain f where f: "f \<in> set (safeAddressFieldsFromItems (items d) [])" "getp f ''accessClass'' = safeAccessClass x"
    using safe_item_listed [OF assms] by blast
  have "validSafeField f"
    using f(1) fieldsFromItem_valid by (auto simp: safeAddressFieldsFromItems_def)
  moreover have "safeAddressFieldsFromItems (items d) [] \<noteq> []" using f(1) by auto
  ultimately show ?thesis using f by (auto simp: extractSafeAddressPolicy_def Let_def)
qed

definition safeItem :: FormItem where
  "safeItem = FormItem ''field'' ''home'' Undefined Undefined
     (Obj [(''class'', Str ''safe-address'')]) Undefined []"

theorem safe_items_require_safe_address_witness:
  "\<exists>p. extractSafeAddressPolicy \<lparr>items = [FormItem ''group'' ''g'' Undefined Undefined Undefined Undefined [safeItem]],
      extensions = Undefined, governance = Undefined, definitionParties = Undefined\<rparr> = Some p \<and>
     features p = [(''safeAddress'', Str ''required'')]"
proof -
  let ?d = "\<lparr>items = [FormItem ''group'' ''g'' Undefined Undefined Undefined Undefined [safeItem]],
      extensions = Undefined, governance = Undefined, definitionParties = Undefined\<rparr>"
  have "nestedItem [safeItem] safeItem" by (simp add: nestedItem.here)
  then have n: "nestedItem (items ?d) safeItem"
    by (rule_tac g = "FormItem ''group'' ''g'' Undefined Undefined Undefined Undefined [safeItem]"
        in nestedItem.inGroup) simp_all
  have t: "truthy (safeAccessClass safeItem)" by code_simp
  from safe_items_require_safe_address [OF n t] show ?thesis by blast
qed

text \<open>A form that enables corrections and says nothing about evidence erases the deployment's
  evidence requirement: the walker emits the member with the value undefined, the spread lets it
  override the org's \<open>true\<close>, and the resolved policy falls back to \<open>false\<close>.\<close>

theorem silent_form_erases_org_evidence:
  assumes "isBoolean (getp b ''enabled'')" "\<not> isBoolean (getp b ''requiresEvidence'')"
    and "wfObj orgC" "resolveCorrectable (mergeActionPolicy orgC (parseCorrectablePolicy b)) = Inr r"
  shows "getp r ''requiresEvidence'' = Bool False"
proof -
  have "isPlainObject b" using assms(1) by (intro getp_isPlainObject [of b "''enabled''"]) (auto simp: isBoolean_iff)
  then have p: "parseCorrectablePolicy b = Obj [(''enabled'', getp b ''enabled''),
      (''correctableFieldSet'', parseStringArray (getp b ''correctableFieldSet'')),
      (''window'', parseRecordLifecycleWindow (getp b ''window'')), (''requiresEvidence'', Undefined),
      (''requiresReason'', parseBoolean (getp b ''requiresReason''))]"
    using assms(1,2) by (cases b) (simp_all add: parseCorrectablePolicy_def parseActionBlock_def parseBoolean_def)
  have "getp (mergeActionPolicy orgC (parseCorrectablePolicy b)) ''requiresEvidence'' = Undefined"
    using getp_mergeAction [OF assms(3), of "parseCorrectablePolicy b" "''requiresEvidence''"]
    by (simp add: p wfProps_def)
  then show ?thesis using assms(4) by (auto simp: resolveCorrectable_def bindR_Inr_iff)
qed

theorem silent_form_erases_org_evidence_witness:
  "\<exists>r. resolveCorrectable (mergeActionPolicy
      (Obj [(''enabled'', Bool True), (''correctableFieldSet'', Arr [Str ''/a'']), (''requiresEvidence'', Bool True)])
      (parseCorrectablePolicy (Obj [(''enabled'', Bool True), (''correctableFieldSet'', Arr [Str ''/b''])]))) = Inr r \<and>
     getp r ''requiresEvidence'' = Bool False"
proof -
  let ?o = "Obj [(''enabled'', Bool True), (''correctableFieldSet'', Arr [Str ''/a'']), (''requiresEvidence'', Bool True)]"
  let ?b = "Obj [(''enabled'', Bool True), (''correctableFieldSet'', Arr [Str ''/b''])]"
  have "isOk (resolveCorrectable (mergeActionPolicy ?o (parseCorrectablePolicy ?b)))" by code_simp
  then obtain r where r: "resolveCorrectable (mergeActionPolicy ?o (parseCorrectablePolicy ?b)) = Inr r"
    by (auto simp: isOk_iff)
  have "getp r ''requiresEvidence'' = Bool False"
    by (rule silent_form_erases_org_evidence [OF _ _ _ r]) (simp_all add: wfProps_def)
  with r show ?thesis by blast
qed

end
