(* ===== verification/Offline_Queue.thy ===== *)
theory Offline_Queue
  imports Submit_Transport
begin

text \<open>
  The \<open>OfflineSubmitQueue\<close> port and its in-memory adapter
  (\<open>src/ports/offline-submit-queue.ts\<close>, \<open>src/adapters/stub/offline-submit-queue.ts\<close>). The
  state is the adapter's key order and its map of entries; \<open>replay\<close> drains through an arbitrary
  transport function. The abstract queue is the list of pending entries: \<open>enqueue\<close> refines
  appending a new key, \<open>replay\<close> refines the structural \<open>drain\<close>.
\<close>

record 'h QueuedSubmit =
  idempotencyKey :: string
  handoff :: 'h
  enqueuedAt :: string

datatype 'e ReplayOutcome =
    Sent string SubmitConfirmation
  | Failed string 'e

primrec outcomeKey :: "'e ReplayOutcome \<Rightarrow> string" where
  "outcomeKey (Sent k c) = k"
| "outcomeKey (Failed k e) = k"

primrec isSent :: "'e ReplayOutcome \<Rightarrow> bool" where
  "isSent (Sent k c) = True"
| "isSent (Failed k e) = False"


section \<open>The port's contract\<close>

locale submit_queue =
  fixes enqueue :: "string \<Rightarrow> 'h \<Rightarrow> string \<Rightarrow> 'q \<Rightarrow> ('e + 'h QueuedSubmit) \<times> 'q"
    and pending :: "'q \<Rightarrow> 'h QueuedSubmit list"
    and inv :: "'q \<Rightarrow> bool"
  assumes enqueue_inv: "inv q \<Longrightarrow> inv (snd (enqueue now h k q))"
    and enqueue_new: "inv q \<Longrightarrow> enqueue now h k q = (Inr s, q') \<Longrightarrow> k \<notin> idempotencyKey ` set (pending q) \<Longrightarrow>
      pending q' = pending q @ [s] \<and> idempotencyKey s = k \<and> handoff s = h"
    and enqueue_old: "inv q \<Longrightarrow> enqueue now h k q = (Inr s, q') \<Longrightarrow> k \<in> idempotencyKey ` set (pending q) \<Longrightarrow>
      q' = q \<and> s \<in> set (pending q) \<and> idempotencyKey s = k"
    and enqueue_err: "enqueue now h k q = (Inl e, q') \<Longrightarrow> q' = q"
    and pending_distinct: "inv q \<Longrightarrow> distinct (map idempotencyKey (pending q))"
begin

lemma enqueue_pending:
  assumes "inv q" "enqueue now h k q = (Inr s, q')"
  shows "s \<in> set (pending q')" "idempotencyKey s = k"
  using enqueue_new [OF assms] enqueue_old [OF assms]
  by (cases "k \<in> idempotencyKey ` set (pending q)"; simp)+

text \<open>A second call with the same key returns the entry of the first and queues nothing.\<close>

lemma enqueue_first_wins:
  assumes "inv q" "enqueue now h k q = (Inr s, q')" "enqueue now' h' k q' = (Inr s', q'')"
  shows "s' = s \<and> q'' = q'"
proof -
  have i: "inv q'" using enqueue_inv [OF assms(1), of now h k] assms(2) by simp
  have "k \<in> idempotencyKey ` set (pending q')"
    using enqueue_pending [OF assms(1,2)] by blast
  from enqueue_old [OF i assms(3) this]
  have o2: "q'' = q'" "s' \<in> set (pending q')" "idempotencyKey s' = k" by auto
  then have "s' = s"
    using pending_distinct [OF i] enqueue_pending [OF assms(1,2)]
    by (metis distinct_map inj_on_def)
  with o2 show ?thesis by simp
qed

end


section \<open>The in-memory queue\<close>

record 'h queue =
  order :: "string list"
  byKey :: "string \<rightharpoonup> 'h QueuedSubmit"

definition emptyQueue :: "'h queue" where
  "emptyQueue = \<lparr>order = [], byKey = Map.empty\<rparr>"

definition enqueue ::
  "uuid_lib \<Rightarrow> string \<Rightarrow> 'h \<Rightarrow> string \<Rightarrow> 'h queue \<Rightarrow> (adapter_error + 'h QueuedSubmit) \<times> 'h queue" where
  "enqueue lib now h key q = (case keyGuard lib key of
     Inl e \<Rightarrow> (Inl e, q)
   | Inr _ \<Rightarrow> (case byKey q key of
       Some existing \<Rightarrow> (Inr existing, q)
     | None \<Rightarrow>
        (let queued = \<lparr>idempotencyKey = key, handoff = h, enqueuedAt = now\<rparr>
         in (Inr queued, q\<lparr>byKey := (byKey q)(key \<mapsto> queued), order := order q @ [key]\<rparr>))))"

fun replayLoop ::
  "('h \<Rightarrow> string \<Rightarrow> 't \<Rightarrow> ('e + SubmitConfirmation) \<times> 't) \<Rightarrow> string list \<Rightarrow> 'h queue \<Rightarrow> 't \<Rightarrow>
   'e ReplayOutcome list \<times> 'h queue \<times> 't" where
  "replayLoop submit [] q t = ([], q, t)"
| "replayLoop submit (key # keys) q t = (case byKey q key of
     None \<Rightarrow> replayLoop submit keys q t
   | Some entry \<Rightarrow> (case submit (handoff entry) (idempotencyKey entry) t of
       (Inr confirmation, t1) \<Rightarrow>
         (let (outs, q2, t2) = replayLoop submit keys
                (q\<lparr>byKey := (byKey q)(key := None), order := remove1 key (order q)\<rparr>) t1
          in (Sent key confirmation # outs, q2, t2))
     | (Inl e, t1) \<Rightarrow>
         (let (outs, q2, t2) = replayLoop submit keys q t1 in (Failed key e # outs, q2, t2))))"

definition replay ::
  "('h \<Rightarrow> string \<Rightarrow> 't \<Rightarrow> ('e + SubmitConfirmation) \<times> 't) \<Rightarrow> 'h queue \<Rightarrow> 't \<Rightarrow>
   'e ReplayOutcome list \<times> 'h queue \<times> 't" where
  "replay submit q t = replayLoop submit (order q) q t"

definition pending :: "'h queue \<Rightarrow> 'h QueuedSubmit list" where
  "pending q = map the (filter (\<lambda>e. e \<noteq> None) (map (byKey q) (order q)))"

definition pendingCount :: "'h queue \<Rightarrow> nat" where
  "pendingCount q = length (order q)"

definition queueInv :: "'h queue \<Rightarrow> bool" where
  "queueInv q \<longleftrightarrow> distinct (order q) \<and> set (order q) = dom (byKey q) \<and>
     (\<forall>k s. byKey q k = Some s \<longrightarrow> idempotencyKey s = k)"

lemma queueInvD:
  assumes "queueInv q"
  shows "distinct (order q)" "k \<in> set (order q) \<longleftrightarrow> byKey q k \<noteq> None"
    "byKey q k = Some s \<Longrightarrow> idempotencyKey s = k"
  using assms by (auto simp: queueInv_def)

lemma pending_keys: "queueInv q \<Longrightarrow> map idempotencyKey (pending q) = order q"
proof -
  assume i: "queueInv q"
  have "map idempotencyKey (map the (filter (\<lambda>e. e \<noteq> None) (map (byKey q) ks))) = ks"
    if "set ks \<subseteq> set (order q)" for ks
    using that by (induction ks) (use queueInvD [OF i] in auto)
  then show ?thesis by (simp add: pending_def)
qed

lemma pending_mem: "queueInv q \<Longrightarrow> s \<in> set (pending q) \<longleftrightarrow> byKey q (idempotencyKey s) = Some s"
proof -
  assume i: "queueInv q"
  have "s \<in> set (pending q) \<longleftrightarrow> (\<exists>k\<in>set (order q). byKey q k = Some s)"
    by (force simp: pending_def image_iff)
  then show ?thesis using queueInvD [OF i] by (metis option.distinct(1))
qed

lemma enqueue_cases:
  obtains (rejected) "\<not> isUuidV7IdempotencyKey lib k" "enqueue lib now h k q = (Inl (KeyError NotUuidV7), q)"
  | (known) s where "isUuidV7IdempotencyKey lib k" "byKey q k = Some s" "enqueue lib now h k q = (Inr s, q)"
  | (new) "isUuidV7IdempotencyKey lib k" "byKey q k = None"
      "enqueue lib now h k q = (Inr \<lparr>idempotencyKey = k, handoff = h, enqueuedAt = now\<rparr>,
         q\<lparr>byKey := (byKey q)(k \<mapsto> \<lparr>idempotencyKey = k, handoff = h, enqueuedAt = now\<rparr>),
           order := order q @ [k]\<rparr>)"
proof (cases "isUuidV7IdempotencyKey lib k")
  case False
  then show ?thesis by (intro rejected) (simp_all add: enqueue_def keyGuard_simps)
next
  case True
  then show ?thesis
    by (cases "byKey q k") (simp_all add: enqueue_def keyGuard_simps Let_def known new)
qed

lemma enqueue_queueInv: "queueInv q \<Longrightarrow> queueInv (snd (enqueue lib now h k q))"
proof (cases rule: enqueue_cases [of lib k now h q])
  case new
  assume "queueInv q"
  with new show ?thesis by (auto simp: queueInv_def)
qed simp_all

lemma pending_upd_absent:
  "k \<notin> set (order q) \<Longrightarrow>
     pending (q\<lparr>byKey := (byKey q)(k \<mapsto> s), order := order q @ [k]\<rparr>) = pending q @ [s]"
  by (simp add: pending_def)

interpretation stubQueue: submit_queue "enqueue lib" pending queueInv for lib
proof
  fix q :: "'a queue" and now h k s q' e
  show "queueInv q \<Longrightarrow> queueInv (snd (enqueue lib now h k q))" by (rule enqueue_queueInv)
  show "queueInv q \<Longrightarrow> distinct (map idempotencyKey (pending q))"
    by (simp add: pending_keys queueInvD)
  show "enqueue lib now h k q = (Inl e, q') \<Longrightarrow> q' = q"
    by (cases rule: enqueue_cases [of lib k now h q]) simp_all
  assume i: "queueInv q" and e: "enqueue lib now h k q = (Inr s, q')"
  have keys: "k \<in> idempotencyKey ` set (pending q) \<longleftrightarrow> k \<in> set (order q)"
    using pending_keys [OF i] by (metis set_map)
  show "k \<notin> idempotencyKey ` set (pending q) \<Longrightarrow>
      pending q' = pending q @ [s] \<and> idempotencyKey s = k \<and> handoff s = h"
    unfolding keys using e queueInvD(2) [OF i, of k]
    by (cases rule: enqueue_cases [of lib k now h q]) (auto simp: pending_upd_absent)
  show "k \<in> idempotencyKey ` set (pending q) \<Longrightarrow>
      q' = q \<and> s \<in> set (pending q) \<and> idempotencyKey s = k"
    unfolding keys using e queueInvD(2,3) [OF i, of k] pending_mem [OF i]
    by (cases rule: enqueue_cases [of lib k now h q]) auto
qed


section \<open>Replay refines a structural drain\<close>

fun drain ::
  "('h \<Rightarrow> string \<Rightarrow> 't \<Rightarrow> ('e + SubmitConfirmation) \<times> 't) \<Rightarrow> 'h QueuedSubmit list \<Rightarrow> 't \<Rightarrow>
   'e ReplayOutcome list \<times> 'h QueuedSubmit list \<times> 't" where
  "drain submit [] t = ([], [], t)"
| "drain submit (e # es) t =
     (let (r, t1) = submit (handoff e) (idempotencyKey e) t;
          (outs, rest, t2) = drain submit es t1
      in case r of
           Inr c \<Rightarrow> (Sent (idempotencyKey e) c # outs, rest, t2)
         | Inl x \<Rightarrow> (Failed (idempotencyKey e) x # outs, e # rest, t2))"

definition sentKeys :: "'e ReplayOutcome list \<Rightarrow> string set" where
  "sentKeys outs = outcomeKey ` {x \<in> set outs. isSent x}"

lemma sentKeys_simps [simp]:
  "sentKeys [] = {}" "sentKeys (Sent k c # outs) = insert k (sentKeys outs)"
  "sentKeys (Failed k e # outs) = sentKeys outs"
proof -
  have "{x \<in> set (Sent k c # outs). isSent x} = insert (Sent k c) {x \<in> set outs. isSent x}"
    "{x \<in> set (Failed k e # outs). isSent x} = {x \<in> set outs. isSent x}" by auto
  then show "sentKeys [] = {}" "sentKeys (Sent k c # outs) = insert k (sentKeys outs)"
    "sentKeys (Failed k e # outs) = sentKeys outs" by (simp_all add: sentKeys_def)
qed

lemma sentKeys_list: "sentKeys outs = set (map outcomeKey (filter isSent outs))"
  by (auto simp: sentKeys_def)

lemma drain_keys: "drain submit es t = (outs, rest, t') \<Longrightarrow> map outcomeKey outs = map idempotencyKey es"
  by (induction es arbitrary: t outs rest t') (auto simp: Let_def split: prod.splits sum.splits)

lemma drain_rest:
  "drain submit es t = (outs, rest, t') \<Longrightarrow> distinct (map idempotencyKey es) \<Longrightarrow>
     rest = filter (\<lambda>e. idempotencyKey e \<notin> sentKeys outs) es"
proof (induction es arbitrary: t outs rest t')
  case (Cons e es)
  obtain r t1 where r: "submit (handoff e) (idempotencyKey e) t = (r, t1)" by fastforce
  obtain outs1 rest1 t2 where d: "drain submit es t1 = (outs1, rest1, t2)" by (cases "drain submit es t1")
  have ih: "rest1 = filter (\<lambda>e. idempotencyKey e \<notin> sentKeys outs1) es"
    using Cons.IH [OF d] Cons.prems(2) by simp
  have "sentKeys outs1 \<subseteq> idempotencyKey ` set es"
    using drain_keys [OF d] unfolding sentKeys_def
    by (metis (no_types, lifting) image_mono list.set_map mem_Collect_eq subsetI)
  moreover have "idempotencyKey e \<notin> idempotencyKey ` set es" using Cons.prems(2) by simp
  ultimately have ne: "idempotencyKey e \<notin> sentKeys outs1" by blast
  show ?case
  proof (cases r)
    case (Inl x)
    then show ?thesis using Cons.prems(1) r d ne ih by auto
  next
    case (Inr c)
    have "filter (\<lambda>e'. idempotencyKey e' \<notin> insert (idempotencyKey e) (sentKeys outs1)) es = rest1"
      unfolding ih using Cons.prems(2) by (intro filter_cong) (auto simp: image_iff dest: sym)
    then show ?thesis using Inr Cons.prems(1) r d by auto
  qed
qed simp

lemma replayLoop_drain:
  assumes "queueInv q" "distinct ks" "set ks \<subseteq> set (order q)"
    and "drain submit (map (\<lambda>k. the (byKey q k)) ks) t = (outs, rest, t')"
  shows "\<exists>q'. replayLoop submit ks q t = (outs, q', t') \<and> queueInv q' \<and>
    order q' = filter (\<lambda>k. k \<notin> sentKeys outs) (order q) \<and>
    byKey q' = (\<lambda>k. if k \<in> sentKeys outs then None else byKey q k)"
  using assms
proof (induction ks arbitrary: q t outs rest t')
  case (Cons k ks)
  note inv = queueInvD [OF Cons.prems(1)]
  obtain e where e: "byKey q k = Some e" "idempotencyKey e = k"
    using inv Cons.prems(3) by force
  obtain r t1 where r: "submit (handoff e) k t = (r, t1)" by fastforce
  obtain outs1 rest1 t2 where d: "drain submit (map (\<lambda>k. the (byKey q k)) ks) t1 = (outs1, rest1, t2)"
    by (cases "drain submit (map (\<lambda>k. the (byKey q k)) ks) t1")
  show ?case
  proof (cases r)
    case (Inl x)
    have eq: "outs = Failed k x # outs1" "t' = t2" using Cons.prems(4) e r d Inl by simp_all
    obtain q' where "replayLoop submit ks q t1 = (outs1, q', t2)" "queueInv q'"
      "order q' = filter (\<lambda>k. k \<notin> sentKeys outs1) (order q)"
      "byKey q' = (\<lambda>k. if k \<in> sentKeys outs1 then None else byKey q k)"
      using Cons.IH [OF Cons.prems(1) _ _ d] Cons.prems(2,3) by auto
    then show ?thesis using eq e r Inl by (intro exI [of _ q']) simp
  next
    case (Inr c)
    have eq: "outs = Sent k c # outs1" "t' = t2" using Cons.prems(4) e r d Inr by simp_all
    let ?q = "q\<lparr>byKey := (byKey q)(k := None), order := remove1 k (order q)\<rparr>"
    have i: "queueInv ?q"
      using Cons.prems(1) by (auto simp: queueInv_def set_remove1_eq)
    have "map (\<lambda>k. the (byKey ?q k)) ks = map (\<lambda>k. the (byKey q k)) ks" using Cons.prems(2) by auto
    then have d': "drain submit (map (\<lambda>k. the (byKey ?q k)) ks) t1 = (outs1, rest1, t2)" using d by (simp only:)
    have s: "set ks \<subseteq> set (order ?q)" using Cons.prems(2,3) inv(1) by (auto simp: set_remove1_eq)
    obtain q' where q': "replayLoop submit ks ?q t1 = (outs1, q', t2)" "queueInv q'"
      "order q' = filter (\<lambda>k. k \<notin> sentKeys outs1) (order ?q)"
      "byKey q' = (\<lambda>k. if k \<in> sentKeys outs1 then None else byKey ?q k)"
      using Cons.IH [OF i _ s d'] Cons.prems(2) by auto
    have "order q' = filter (\<lambda>j. j \<notin> insert k (sentKeys outs1)) (order q)"
      unfolding q'(3) using inv(1) by (auto simp: distinct_remove1_removeAll removeAll_filter_not_eq
          intro!: filter_cong)
    then show ?thesis using q' eq e r Inr by (intro exI [of _ q']) (auto simp: fun_eq_iff)
  qed
qed simp

lemma replay_drain:
  assumes "queueInv q" "drain submit (pending q) t = (outs, rest, t')"
  shows "\<exists>q'. replay submit q t = (outs, q', t') \<and> queueInv q' \<and> pending q' = rest"
proof -
  have p: "pending q = map (\<lambda>k. the (byKey q k)) (order q)"
  proof -
    have "map the (filter (\<lambda>e. e \<noteq> None) (map (byKey q) ks)) = map (\<lambda>k. the (byKey q k)) ks"
      if "set ks \<subseteq> set (order q)" for ks
      using that queueInvD(2) [OF assms(1)] by (induction ks) auto
    then show ?thesis by (simp add: pending_def)
  qed
  obtain q' where q': "replayLoop submit (order q) q t = (outs, q', t')" "queueInv q'"
    "order q' = filter (\<lambda>k. k \<notin> sentKeys outs) (order q)"
    "byKey q' = (\<lambda>k. if k \<in> sentKeys outs then None else byKey q k)"
    using replayLoop_drain [OF assms(1) _ _ assms(2) [unfolded p]] queueInvD(1) [OF assms(1)] by auto
  have "rest = filter (\<lambda>e. idempotencyKey e \<notin> sentKeys outs) (pending q)"
    using drain_rest [OF assms(2)] queueInvD(1) [OF assms(1)] by (simp add: pending_keys [OF assms(1)])
  also have "\<dots> = pending q'"
  proof -
    have "filter (\<lambda>e. idempotencyKey e \<notin> sentKeys outs) (map (\<lambda>k. the (byKey q k)) ks) =
        map the (filter (\<lambda>e. e \<noteq> None) (map (byKey q') (filter (\<lambda>k. k \<notin> sentKeys outs) ks)))"
      if "set ks \<subseteq> set (order q)" for ks
      using that queueInvD [OF assms(1)] by (induction ks) (auto simp: q'(4))
    from this [of "order q"] show ?thesis unfolding p pending_def [of q'] q'(3) by blast
  qed
  finally show ?thesis using q' by (auto simp: replay_def)
qed


section \<open>Properties\<close>

inductive queue_reach :: "uuid_lib \<Rightarrow> IntakeHandoff queue \<Rightarrow> transport \<Rightarrow> bool" for lib where
  init: "queue_reach lib emptyQueue emptyTransport"
| enq: "queue_reach lib q t \<Longrightarrow> queue_reach lib (snd (enqueue lib now h k q)) t"
| submits: "queue_reach lib q t \<Longrightarrow> queue_reach lib q (snd (stubSubmit lib h k t))"
| replays: "queue_reach lib q t \<Longrightarrow> replay (stubSubmit lib) q t = (outs, q', t') \<Longrightarrow> queue_reach lib q' t'"

definition queueKeysOk :: "uuid_lib \<Rightarrow> 'h queue \<Rightarrow> bool" where
  "queueKeysOk lib q \<longleftrightarrow> queueInv q \<and> (\<forall>k\<in>set (order q). isUuidV7IdempotencyKey lib k)"

lemma drain_stub:
  assumes "\<forall>e\<in>set es. isUuidV7IdempotencyKey lib (idempotencyKey e)"
    and "drain (stubSubmit lib) es t = (outs, rest, t')"
  shows "rest = [] \<and> (\<forall>x\<in>set outs. isSent x) \<and>
    (\<forall>k c. stubAccepted lib t k = Some c \<longrightarrow> stubAccepted lib t' k = Some c) \<and>
    (\<forall>e\<in>set es. \<exists>c. Sent (idempotencyKey e) c \<in> set outs \<and>
       stubAccepted lib t' (idempotencyKey e) = Some c)"
  using assms
proof (induction es arbitrary: t outs rest t')
  case (Cons e es)
  have v: "isUuidV7IdempotencyKey lib (idempotencyKey e)" using Cons.prems(1) by simp
  then obtain c t1 where s: "stubSubmit lib (handoff e) (idempotencyKey e) t = (Inr c, t1)"
    by (cases rule: stubSubmit_cases [of lib "idempotencyKey e" "handoff e" t]) auto
  obtain outs1 rest1 t2 where d: "drain (stubSubmit lib) es t1 = (outs1, rest1, t2)"
    by (cases "drain (stubSubmit lib) es t1")
  have ih: "rest1 = []" "\<forall>x\<in>set outs1. isSent x"
    "\<And>k c. stubAccepted lib t1 k = Some c \<Longrightarrow> stubAccepted lib t2 k = Some c"
    "\<forall>e\<in>set es. \<exists>c. Sent (idempotencyKey e) c \<in> set outs1 \<and>
       stubAccepted lib t2 (idempotencyKey e) = Some c"
    using Cons.IH [OF _ d] Cons.prems(1) by auto
  have a: "stubAccepted lib t2 (idempotencyKey e) = Some c"
    using ih(3) stubTransport.submit_accepts [OF s] by blast
  have k: "stubAccepted lib t2 j = Some c'" if "stubAccepted lib t j = Some c'" for j c'
    using ih(3) stubTransport.submit_keeps [OF s that] by blast
  have eq: "outs = Sent (idempotencyKey e) c # outs1" "rest = rest1" "t' = t2"
    using Cons.prems(2) s d by simp_all
  show ?case unfolding eq using ih a k by auto
qed simp

lemma queue_reach_inv: "queue_reach lib q t \<Longrightarrow> queueKeysOk lib q"
proof (induction rule: queue_reach.induct)
  case init
  then show ?case by (simp add: queueKeysOk_def queueInv_def emptyQueue_def)
next
  case (enq q t now h k)
  then have "queueInv (snd (enqueue lib now h k q))"
    by (intro enqueue_queueInv) (simp add: queueKeysOk_def)
  then show ?case using enq.IH
    by (cases rule: enqueue_cases [of lib k now h q]) (auto simp: queueKeysOk_def)
next
  case (replays q t outs q' t')
  then have i: "queueInv q" by (simp add: queueKeysOk_def)
  obtain o' r' u' where d: "drain (stubSubmit lib) (pending q) t = (o', r', u')"
    by (cases "drain (stubSubmit lib) (pending q) t")
  have "\<forall>e\<in>set (pending q). isUuidV7IdempotencyKey lib (idempotencyKey e)"
    using replays.IH pending_keys [OF i] unfolding queueKeysOk_def by (metis image_eqI list.set_map)
  then have "r' = []" using drain_stub [OF _ d] by blast
  then have "queueInv q'" "pending q' = []"
    using replay_drain [OF i d] replays.hyps(2) by auto
  then show ?case using pending_keys [of q'] by (simp add: queueKeysOk_def)
qed

text \<open>Enqueueing refines an append of a new key: in a well-formed queue the first call with a
  key appends exactly one entry that carries the key and the handoff verbatim, a repeated
  call returns the first entry and queues nothing, a malformed key changes nothing.\<close>

theorem enqueue_refines_append:
  assumes "queueInv q"
  shows "\<exists>r q'. enqueue lib now h k q = (r, q') \<and> queueInv q' \<and>
    (if \<not> isUuidV7IdempotencyKey lib k then r = Inl (KeyError NotUuidV7) \<and> q' = q
     else \<exists>s. r = Inr s \<and> idempotencyKey s = k \<and>
       (if k \<in> set (map idempotencyKey (pending q)) then s \<in> set (pending q) \<and> q' = q
        else handoff s = h \<and> pending q' = pending q @ [s]))"
proof -
  obtain r q' where e: "enqueue lib now h k q = (r, q')" by (cases "enqueue lib now h k q")
  have i: "queueInv q'" using enqueue_queueInv [OF assms, of lib now h k] e by simp
  show ?thesis
  proof (cases r)
    case (Inl x)
    then show ?thesis using e i
      by (cases rule: enqueue_cases [of lib k now h q]) auto
  next
    case (Inr s)
    have v: "isUuidV7IdempotencyKey lib k"
      using e Inr by (cases rule: enqueue_cases [of lib k now h q]) auto
    show ?thesis
      using e i v Inr stubQueue.enqueue_new [OF assms, of lib now h k s q']
        stubQueue.enqueue_old [OF assms, of lib now h k s q'] by (intro exI [of _ r] exI [of _ q']) auto
  qed
qed

theorem enqueue_refines_append_witness:
  "\<exists>r q'. enqueue rfcLib ''t0'' (Str ''h'') sampleKey emptyQueue = (r, q') \<and> length (pending q') = 1"
proof -
  have i: "queueInv (emptyQueue :: jsval queue)" by (simp add: queueInv_def emptyQueue_def)
  have v: "isUuidV7IdempotencyKey rfcLib sampleKey" by code_simp
  have p: "pending (emptyQueue :: jsval queue) = []" by (simp add: pending_def emptyQueue_def)
  show ?thesis using enqueue_refines_append [OF i, of rfcLib "''t0''" "Str ''h''" sampleKey] v p by auto
qed

text \<open>Replay is a FIFO drain for every transport, failing ones included: outcomes come one per
  pending entry in enqueue order, each entry is submitted with its own handoff under its own
  key, the sent entries leave the queue and the failed ones stay in order.\<close>

theorem replay_is_fifo_drain:
  assumes "queueInv q"
  shows "\<exists>outs q' t'. replay submit q t = (outs, q', t') \<and> queueInv q' \<and>
    drain submit (pending q) t = (outs, pending q', t') \<and>
    map outcomeKey outs = map idempotencyKey (pending q) \<and>
    pending q' = filter (\<lambda>e. idempotencyKey e \<notin> sentKeys outs) (pending q)"
proof -
  obtain outs rest t' where d: "drain submit (pending q) t = (outs, rest, t')"
    by (cases "drain submit (pending q) t")
  moreover have "rest = filter (\<lambda>e. idempotencyKey e \<notin> sentKeys outs) (pending q)"
    using drain_rest [OF d] queueInvD(1) [OF assms] by (simp add: pending_keys [OF assms])
  ultimately show ?thesis using replay_drain [OF assms d] drain_keys [OF d] by auto
qed

definition flakySubmit ::
  "string \<Rightarrow> IntakeHandoff \<Rightarrow> string \<Rightarrow> transport \<Rightarrow> (adapter_error + SubmitConfirmation) \<times> transport" where
  "flakySubmit down h k t =
     (if k = down then (Inl (Injected ''network''), t) else stubSubmit rfcLib h k t)"

definition sampleKey2 :: string where
  "sampleKey2 = ''01890a5d-ac96-774b-bcce-b302099a8058''"

definition sampleQueue :: "IntakeHandoff queue" where
  "sampleQueue = snd (enqueue rfcLib ''t1'' (Str ''b'') sampleKey2
     (snd (enqueue rfcLib ''t0'' (Str ''a'') sampleKey emptyQueue)))"

theorem replay_is_fifo_drain_witness:
  "\<exists>outs q' t'. replay (flakySubmit sampleKey) sampleQueue emptyTransport = (outs, q', t') \<and>
     map idempotencyKey (pending q') = [sampleKey] \<and> map outcomeKey outs = [sampleKey, sampleKey2]"
proof -
  have i: "queueInv sampleQueue"
    unfolding sampleQueue_def
    by (intro enqueue_queueInv) (simp add: queueInv_def emptyQueue_def)
  have k: "map idempotencyKey (pending sampleQueue) = [sampleKey, sampleKey2]" by code_simp
  have "map outcomeKey (filter isSent
      (fst (replay (flakySubmit sampleKey) sampleQueue emptyTransport))) = [sampleKey2]" by code_simp
  then have s: "sentKeys (fst (replay (flakySubmit sampleKey) sampleQueue emptyTransport)) = {sampleKey2}"
    by (metis sentKeys_list list.set(1,2))
  have ne: "sampleKey \<noteq> sampleKey2" by (simp add: sampleKey_def sampleKey2_def)
  obtain outs q' t' where r: "replay (flakySubmit sampleKey) sampleQueue emptyTransport = (outs, q', t')"
    and ks: "map outcomeKey outs = map idempotencyKey (pending sampleQueue)"
    and p: "pending q' = filter (\<lambda>e. idempotencyKey e \<notin> sentKeys outs) (pending sampleQueue)"
    using replay_is_fifo_drain [OF i, of "flakySubmit sampleKey" emptyTransport] by blast
  have "map idempotencyKey (pending q') =
      filter (\<lambda>k. k \<notin> sentKeys outs) (map idempotencyKey (pending sampleQueue))"
    by (simp add: p filter_map comp_def)
  then have "map idempotencyKey (pending q') = [sampleKey]" using k s r ne by simp
  with r ks k show ?thesis by auto
qed

text \<open>Nothing queued is lost or duplicated: in every reachable state one replay against the
  in-memory transport empties the queue, and every entry that was pending is accepted under its
  original key with the confirmation its outcome reports.\<close>

theorem replay_delivers_all:
  assumes "queue_reach lib q t"
  shows "\<exists>outs q' t'. replay (stubSubmit lib) q t = (outs, q', t') \<and> pending q' = [] \<and>
    (\<forall>e\<in>set (pending q). \<exists>c. Sent (idempotencyKey e) c \<in> set outs \<and>
       replayMap t' (idempotencyKey e) = Some c)"
proof -
  have i: "queueInv q" "\<forall>k\<in>set (order q). isUuidV7IdempotencyKey lib k"
    using queue_reach_inv [OF assms] by (auto simp: queueKeysOk_def)
  obtain outs rest t' where d: "drain (stubSubmit lib) (pending q) t = (outs, rest, t')"
    by (cases "drain (stubSubmit lib) (pending q) t")
  have v: "\<forall>e\<in>set (pending q). isUuidV7IdempotencyKey lib (idempotencyKey e)"
    using i(2) pending_keys [OF i(1)] by (metis image_eqI list.set_map)
  from drain_stub [OF v d] have "rest = []"
    "\<forall>e\<in>set (pending q). \<exists>c. Sent (idempotencyKey e) c \<in> set outs \<and>
       stubAccepted lib t' (idempotencyKey e) = Some c" by auto
  then show ?thesis using replay_drain [OF i(1) d] v
    by (auto simp: stubAccepted_def)
qed

theorem replay_delivers_all_witness:
  "\<exists>outs q' t'. replay (stubSubmit rfcLib) sampleQueue emptyTransport = (outs, q', t') \<and> pending q' = []"
proof -
  have "queue_reach rfcLib sampleQueue emptyTransport"
    unfolding sampleQueue_def by (intro queue_reach.intros)
  from replay_delivers_all [OF this] show ?thesis by blast
qed

end
