(* ===== verification/Submit_Flow.thy ===== *)
theory Submit_Flow
  imports Form_Extract Offline_Queue
begin

text \<open>
  The submit path of \<open>src/app/respondent-flow.ts\<close>: \<open>submitOrQueue\<close> and the
  authorize-submit-capture-or-void orchestration \<open>submitWithPayment\<close>. The ports are arguments
  (the record \<open>railPort\<close> of the three rail calls, a transport function, an enqueue function), the
  state is the pair of their private states. The locale \<open>payment_submit\<close> joins the two port
  contracts; the properties rest on its interpretation on the in-memory adapters.
\<close>

section \<open>submitOrQueue\<close>

datatype 'h SubmitOrQueueOutcome =
    Submitted SubmitConfirmation
  | QueuedOutcome "'h QueuedSubmit"

definition submitOrQueue ::
  "('h \<Rightarrow> string \<Rightarrow> 't \<Rightarrow> ('e + SubmitConfirmation) \<times> 't) \<Rightarrow>
   ('h \<Rightarrow> string \<Rightarrow> 'q \<Rightarrow> ('e + 'h QueuedSubmit) \<times> 'q) \<Rightarrow>
   bool \<Rightarrow> ResolvedRuntimeProfile \<Rightarrow> 'h \<Rightarrow> string \<Rightarrow> 't \<times> 'q \<Rightarrow>
   ('e + 'h SubmitOrQueueOutcome) \<times> 't \<times> 'q" where
  "submitOrQueue submit enqueue' navigatorOnLine profile h key st =
     (let (t, q) = st; offlineEnabled = (OfflineSubmit \<in> set (enabled profile))
      in if \<not> navigatorOnLine \<and> offlineEnabled then
           (case enqueue' h key q of
              (Inl e, q') \<Rightarrow> (Inl e, t, q')
            | (Inr queued, q') \<Rightarrow> (Inr (QueuedOutcome queued), t, q'))
         else
           (case submit h key t of
              (Inl e, t') \<Rightarrow> (Inl e, t', q)
            | (Inr confirmation, t') \<Rightarrow> (Inr (Submitted confirmation), t', q)))"


section \<open>submitWithPayment\<close>

datatype flow_error =
    PaymentDisabled | AmountMissing | NoMethodToken | RailKeyError key_error

datatype ('e, 'f) SubmitWithPaymentOutcome =
    SubmittedWithPayment SubmitConfirmation CaptureReceipt
  | AuthorizeFailed 'e
  | SubmitFailedPaymentVoided Authorization 'f
  | VoidFailedAfterSubmitFailure Authorization 'f 'e
  | CaptureFailed SubmitConfirmation Authorization 'e

record ('s, 'e) railPort =
  authorizeOp :: "Money \<Rightarrow> string \<Rightarrow> string \<Rightarrow> 's \<Rightarrow> ('e + Authorization) \<times> 's"
  captureOp :: "Authorization \<Rightarrow> string \<Rightarrow> 's \<Rightarrow> ('e + CaptureReceipt) \<times> 's"
  voidOp :: "Authorization \<Rightarrow> string \<Rightarrow> 's \<Rightarrow> ('e + unit) \<times> 's"

record 'h SubmitWithPaymentInput =
  runtimeProfile :: ResolvedRuntimeProfile
  formDefinition :: FormDefinition
  inputHandoff :: 'h
  orchestrationKey :: string
  methodToken :: "string option"
  authorizeKey :: "string option"
  captureKey :: "string option"
  voidKey :: "string option"

definition PAYMENT_FALLBACK_METHOD_TOKEN :: string where
  "PAYMENT_FALLBACK_METHOD_TOKEN = ''demo-method-stub''"

definition readMethodToken :: "'h SubmitWithPaymentInput \<Rightarrow> flow_error + string" where
  "readMethodToken input =
     (let fromDefinition = getp (extensions (formDefinition input)) ''x-formspec-payment-method-token''
      in case methodToken input of
           Some (c # cs) \<Rightarrow> Inr (c # cs)
         | _ \<Rightarrow> if isNonEmptyString fromDefinition then Inr (strOf fromDefinition)
                else if profileMode (runtimeProfile input) = Demo then Inr PAYMENT_FALLBACK_METHOD_TOKEN
                else Inl NoMethodToken)"

definition resolveRailKey ::
  "uuid_lib \<Rightarrow> (byte list \<Rightarrow> byte list) \<Rightarrow> string option \<Rightarrow> string \<Rightarrow> string \<Rightarrow> flow_error + string" where
  "resolveRailKey lib sha256 override base suffix =
     (case (case override of
              Some k \<Rightarrow> bindR (assertUuidV7IdempotencyKey lib k) (\<lambda>_. Inr k)
            | None \<Rightarrow> deriveUuidV7FromString lib sha256 base suffix) of
        Inl e \<Rightarrow> Inl (RailKeyError e) | Inr k \<Rightarrow> Inr k)"

definition railCalls ::
  "('s, 'e) railPort \<Rightarrow> ('h \<Rightarrow> string \<Rightarrow> 't \<Rightarrow> ('f + SubmitConfirmation) \<times> 't) \<Rightarrow>
   Money \<Rightarrow> string \<Rightarrow> string \<times> string \<times> string \<Rightarrow> 'h \<Rightarrow> string \<Rightarrow> 's \<times> 't \<Rightarrow>
   ('e, 'f) SubmitWithPaymentOutcome \<times> 's \<times> 't" where
  "railCalls port submit amount token keys h key st =
     (let (s, t) = st; (ka, kc, kv) = keys
      in case authorizeOp port amount token ka s of
           (Inl e, s1) \<Rightarrow> (AuthorizeFailed e, s1, t)
         | (Inr authorization, s1) \<Rightarrow>
             (case submit h key t of
                (Inl submitError, t1) \<Rightarrow>
                  (case voidOp port authorization kv s1 of
                     (Inl voidError, s2) \<Rightarrow>
                       (VoidFailedAfterSubmitFailure authorization submitError voidError, s2, t1)
                   | (Inr _, s2) \<Rightarrow> (SubmitFailedPaymentVoided authorization submitError, s2, t1))
              | (Inr confirmation, t1) \<Rightarrow>
                  (case captureOp port authorization kc s1 of
                     (Inr receipt, s2) \<Rightarrow> (SubmittedWithPayment confirmation receipt, s2, t1)
                   | (Inl e, s2) \<Rightarrow> (CaptureFailed confirmation authorization e, s2, t1))))"

text \<open>The checks and derivations before the first rail call: amount, method token and the key triple.\<close>

definition preparePayment ::
  "uuid_lib \<Rightarrow> (byte list \<Rightarrow> byte list) \<Rightarrow> 'h SubmitWithPaymentInput \<Rightarrow>
   flow_error + Money \<times> string \<times> string \<times> string \<times> string" where
  "preparePayment lib sha256 input =
     (if Payment \<notin> set (enabled (runtimeProfile input)) then Inl PaymentDisabled
      else case extractPaymentAmount (formDefinition input) of
        None \<Rightarrow> Inl AmountMissing
      | Some amount \<Rightarrow>
          bindR (readMethodToken input) (\<lambda>token.
          bindR (resolveRailKey lib sha256 (authorizeKey input) (orchestrationKey input) ''authorize'') (\<lambda>ka.
          bindR (resolveRailKey lib sha256 (captureKey input) (orchestrationKey input) ''capture'') (\<lambda>kc.
          bindR (resolveRailKey lib sha256 (voidKey input) (orchestrationKey input) ''void'') (\<lambda>kv.
          Inr (amount, token, ka, kc, kv))))))"

definition submitWithPayment ::
  "uuid_lib \<Rightarrow> (byte list \<Rightarrow> byte list) \<Rightarrow> ('s, 'e) railPort \<Rightarrow>
   ('h \<Rightarrow> string \<Rightarrow> 't \<Rightarrow> ('f + SubmitConfirmation) \<times> 't) \<Rightarrow> 'h SubmitWithPaymentInput \<Rightarrow> 's \<times> 't \<Rightarrow>
   (flow_error + ('e, 'f) SubmitWithPaymentOutcome) \<times> 's \<times> 't" where
  "submitWithPayment lib sha256 port submit input st =
     (case preparePayment lib sha256 input of
        Inl e \<Rightarrow> (Inl e, st)
      | Inr (amount, token, keys) \<Rightarrow>
          (case railCalls port submit amount token keys (inputHandoff input) (orchestrationKey input) st of
             (outcome, st') \<Rightarrow> (Inr outcome, st')))"


section \<open>The orchestration over the port contracts\<close>

context payment_rail
begin

abbreviation port :: "('s, 'e) railPort" where
  "port \<equiv> \<lparr>authorizeOp = authorize, captureOp = capture, voidOp = voidAuthorization\<rparr>"

text \<open>What each outcome means for the ledger, when the three keys are new to the rail.\<close>

lemma railCalls_fresh:
  assumes inv: "inv s" and fresh: "authOf s ka = None" "capOf s kc = None" "kv \<notin> voidUsed s"
    and run: "railCalls port submit amount token (ka, kc, kv) h key (s, t) = (out, s', t')"
  shows "inv s' \<and> (case out of
      SubmittedWithPayment c R \<Rightarrow> submit h key t = (Inr c, t') \<and> receiptAmount R = amount \<and>
        ledger s (authorizationId R) = None \<and>
        ledger s' = (ledger s)(authorizationId R \<mapsto> (Captured, amount)) \<and>
        (\<exists>A. authOf s' ka = Some A) \<and> capOf s' kc = Some R
    | AuthorizeFailed e \<Rightarrow> t' = t \<and> ledger s' = ledger s
    | SubmitFailedPaymentVoided A e \<Rightarrow> submit h key t = (Inl e, t') \<and> ledger s (authId A) = None \<and>
        ledger s' = (ledger s)(authId A \<mapsto> (Voided, amount)) \<and>
        authOf s' ka = Some A \<and> capOf s' kc = None
    | VoidFailedAfterSubmitFailure A e f \<Rightarrow> submit h key t = (Inl e, t') \<and> ledger s (authId A) = None \<and>
        ledger s' = (ledger s)(authId A \<mapsto> (Authorized, amount))
    | CaptureFailed c A e \<Rightarrow> submit h key t = (Inr c, t') \<and> ledger s (authId A) = None \<and>
        ledger s' = (ledger s)(authId A \<mapsto> (Authorized, amount)))"
proof -
  obtain r1 s1 where a: "authorize amount token ka s = (r1, s1)" by (cases "authorize amount token ka s")
  have i1: "inv s1" using authorize_inv [OF inv, of amount token ka] a by simp
  show ?thesis
  proof (cases r1)
    case (Inl e)
    then show ?thesis using run a i1 authorize_err [of amount token ka s e s1]
      by (auto simp: railCalls_def)
  next
    case A: (Inr A)
    note new = authorize_new [OF inv a [unfolded A] fresh(1)]
    have keep: "capOf s1 kc = None" "kv \<notin> voidUsed s1" using new fresh by simp_all
    obtain r2 t1 where u: "submit h key t = (r2, t1)" by (cases "submit h key t")
    show ?thesis
    proof (cases r2)
      case f: (Inl e)
      obtain r3 s2 where v: "voidAuthorization A kv s1 = (r3, s2)" by (cases "voidAuthorization A kv s1")
      have i2: "inv s2" using void_inv [OF i1, of A kv] v by simp
      show ?thesis
      proof (cases r3)
        case (Inl x)
        then show ?thesis using run a A u f v i2 new void_err [of A kv s1 x s2]
          by (auto simp: railCalls_def)
      next
        case (Inr y)
        then show ?thesis using run a A u f v i2 new keep void_new [OF i1 v [unfolded Inr] keep(2)]
          by (auto simp: railCalls_def)
      qed
    next
      case c: (Inr c)
      obtain r3 s2 where p: "capture A kc s1 = (r3, s2)" by (cases "capture A kc s1")
      have i2: "inv s2" using capture_inv [OF i1, of A kc] p by simp
      show ?thesis
      proof (cases r3)
        case (Inl x)
        then show ?thesis using run a A u c p i2 new capture_err [of A kc s1 x s2]
          by (auto simp: railCalls_def)
      next
        case (Inr R)
        then show ?thesis using run a A u c p i2 new capture_new [OF i1 p [unfolded Inr] keep(1)]
          by (auto simp: railCalls_def)
      qed
    qed
  qed
qed

text \<open>
  A retry after a void: the rail answers the known authorize key with the voided hold, so the
  payment of the retry cannot be captured, whatever the transport does.
\<close>

lemma railCalls_retry_after_void:
  assumes "inv s" "authOf s ka = Some A" "capOf s kc = None" "ledger s (authId A) = Some (Voided, m)"
    and "authorize amount token ka s0 = (Inr A, s1)"
    and "railCalls port submit amount token (ka, kc, kv) h key (s, t) = (out, s', t')"
  shows "case submit h key t of
      (Inr c, u) \<Rightarrow> (\<exists>e. out = CaptureFailed c A e) \<and> t' = u \<and> ledger s' = ledger s
    | (Inl e, u) \<Rightarrow> \<not> (\<exists>c R. out = SubmittedWithPayment c R)"
proof -
  have a: "authorize amount token ka s = (Inr A, s)" by (rule authorize_again [OF assms(5,2)])
  obtain r u where u: "submit h key t = (r, u)" by (cases "submit h key t")
  show ?thesis
  proof (cases r)
    case (Inl e)
    then show ?thesis using assms(6) a u
      by (auto simp: railCalls_def split: prod.splits sum.splits)
  next
    case (Inr c)
    obtain r2 s2 where p: "capture A kc s = (r2, s2)" by (cases "capture A kc s")
    have "\<exists>e. r2 = Inl e"
    proof (cases r2)
      case (Inr R)
      from capture_new [OF assms(1) p [unfolded Inr] assms(3)] assms(4) show ?thesis by auto
    qed simp
    then obtain e where e: "r2 = Inl e" by blast
    then show ?thesis using assms(6) a u Inr p capture_err [of A kc s e s2]
      by (auto simp: railCalls_def)
  qed
qed

end

text \<open>Both contracts together: a payment that went through is replayed, never repeated.\<close>

locale payment_submit =
  payment_rail authorize capture voidAuthorization ledger authOf capOf voidUsed inv +
  submit_transport submit accepted
  for authorize :: "Money \<Rightarrow> string \<Rightarrow> string \<Rightarrow> 's \<Rightarrow> ('e + Authorization) \<times> 's"
    and capture voidAuthorization ledger authOf capOf voidUsed inv
    and submit :: "'h \<Rightarrow> string \<Rightarrow> 't \<Rightarrow> ('f + SubmitConfirmation) \<times> 't" and accepted
begin

lemma railCalls_retry_after_success:
  assumes "inv s" and run: "railCalls port submit amount token (ka, kc, kv) h key (s, t)
      = (SubmittedWithPayment c R, s', t')"
  shows "railCalls port submit amount token (ka, kc, kv') h' key (s', t')
      = (SubmittedWithPayment c R, s', t')"
proof -
  obtain A s1 where a: "authorize amount token ka s = (Inr A, s1)" and
    u: "submit h key t = (Inr c, t')" and p: "capture A kc s1 = (Inr R, s')"
    using run by (auto simp: railCalls_def split: prod.splits sum.splits)
  have i1: "inv s1" using authorize_inv [OF assms(1), of amount token ka] a by simp
  have a1: "authOf s1 ka = Some A"
    using authorize_new [OF assms(1) a] authorize_known [OF a] by (cases "authOf s ka") auto
  have a': "authOf s' ka = Some A"
    using capture_new [OF i1 p] capture_known [OF p] a1 by (cases "capOf s1 kc") auto
  show ?thesis
    using authorize_again [OF a a'] submit_retry [OF u, of h'] capture_idempotent [OF i1 p]
    by (simp add: railCalls_def)
qed

end

interpretation stubPay: payment_submit "authorizeStub lib" "captureStub lib" "voidAuthorizationStub lib"
  railLedger authorizationsByKey capturesByKey voidsByKey railInv "stubSubmit lib" "stubAccepted lib" for lib
  by unfold_locales


section \<open>Properties\<close>

definition stubPort :: "uuid_lib \<Rightarrow> (rail, adapter_error) railPort" where
  "stubPort lib = \<lparr>authorizeOp = authorizeStub lib, captureOp = captureStub lib,
     voidOp = voidAuthorizationStub lib\<rparr>"

definition freshKeys :: "rail \<Rightarrow> string \<times> string \<times> string \<Rightarrow> bool" where
  "freshKeys r keys \<longleftrightarrow> (case keys of (ka, kc, kv) \<Rightarrow>
     authorizationsByKey r ka = None \<and> capturesByKey r kc = None \<and> kv \<notin> voidsByKey r)"

lemma submitWithPayment_calls:
  assumes "preparePayment lib sha256 input = Inr (amount, token, keys)"
  shows "submitWithPayment lib sha256 port submit input st = (Inr out, s', t') \<longleftrightarrow>
    railCalls port submit amount token keys (inputHandoff input) (orchestrationKey input) st = (out, s', t')"
  using assms by (simp add: submitWithPayment_def split: prod.splits)

text \<open>C23. Pay and submit as one transaction: with a reachable rail, a new key triple and any
  transport, money moves exactly in the outcome \<open>submitted-with-payment\<close>, whose submission
  resolved; after a failed submission the new hold is voided or, when the void failed too,
  still only held; a failed authorization submits nothing.\<close>

theorem submit_with_payment_atomic:
  assumes "rail_reach lib r" "preparePayment lib sha256 input = Inr (amount, token, keys)"
    and "freshKeys r keys"
    and "submitWithPayment lib sha256 (stubPort lib) submit input (r, t) = (Inr out, r', t')"
  shows "case out of
      SubmittedWithPayment c R \<Rightarrow> submit (inputHandoff input) (orchestrationKey input) t = (Inr c, t') \<and>
        railLedger r (authorizationId R) = None \<and> receiptAmount R = amount \<and>
        railLedger r' = (railLedger r)(authorizationId R \<mapsto> (Captured, amount))
    | AuthorizeFailed e \<Rightarrow> t' = t \<and> railLedger r' = railLedger r
    | SubmitFailedPaymentVoided A e \<Rightarrow> submit (inputHandoff input) (orchestrationKey input) t = (Inl e, t') \<and>
        railLedger r (authId A) = None \<and> railLedger r' = (railLedger r)(authId A \<mapsto> (Voided, amount))
    | VoidFailedAfterSubmitFailure A e f \<Rightarrow>
        submit (inputHandoff input) (orchestrationKey input) t = (Inl e, t') \<and>
        railLedger r (authId A) = None \<and> railLedger r' = (railLedger r)(authId A \<mapsto> (Authorized, amount))
    | CaptureFailed c A e \<Rightarrow> submit (inputHandoff input) (orchestrationKey input) t = (Inr c, t') \<and>
        railLedger r (authId A) = None \<and> railLedger r' = (railLedger r)(authId A \<mapsto> (Authorized, amount))"
proof -
  obtain ka kc kv where k: "keys = (ka, kc, kv)" by (cases keys)
  have run: "railCalls (stubPort lib) submit amount token (ka, kc, kv) (inputHandoff input)
      (orchestrationKey input) (r, t) = (out, r', t')"
    using assms(4) by (simp only: submitWithPayment_calls [OF assms(2)] k)
  have f: "authorizationsByKey r ka = None" "capturesByKey r kc = None" "kv \<notin> voidsByKey r"
    using assms(3) k by (simp_all add: freshKeys_def)
  show ?thesis
    using stubRail.railCalls_fresh [OF rail_reach_inv [OF assms(1)] f run [unfolded stubPort_def]]
    by (cases out) simp_all
qed

definition paidProfile :: ResolvedRuntimeProfile where
  "paidProfile = \<lparr>profileMode = Demo, enabled = [OfflineSubmit, Payment], disabled = [], profileLimits = [],
     lifecyclePolicy = Undefined, multiPartyPolicy = Undefined, safeAddressPolicy = None\<rparr>"

definition paidForm :: FormDefinition where
  "paidForm = \<lparr>items = [], extensions = Obj [(''x-formspec-payment-amount'',
     Obj [(''amountMinorUnits'', jsInt 2500), (''currency'', Str ''USD'')])],
     governance = Undefined, definitionParties = Undefined\<rparr>"

definition paidInput :: "IntakeHandoff SubmitWithPaymentInput" where
  "paidInput = \<lparr>runtimeProfile = paidProfile, formDefinition = paidForm, inputHandoff = Str ''h'',
     orchestrationKey = sampleKey, methodToken = None, authorizeKey = Some sampleKey,
     captureKey = Some sampleKey, voidKey = Some sampleKey\<rparr>"

lemma paidInput_prepares:
  "preparePayment rfcLib sampleDigest paidInput =
     Inr (sampleMoney, PAYMENT_FALLBACK_METHOD_TOKEN, sampleKey, sampleKey, sampleKey)"
  by code_simp

lemma fresh_rail: "rail_reach lib (stubPaymentRailAdapter None)"
  unfolding rail_reach_def by blast

lemma fresh_sample: "freshKeys (stubPaymentRailAdapter None) (sampleKey, sampleKey, sampleKey)"
  by code_simp

theorem submit_with_payment_atomic_witness:
  "\<exists>A e r' t'. submitWithPayment rfcLib sampleDigest (stubPort rfcLib) (flakySubmit sampleKey) paidInput
     (stubPaymentRailAdapter None, emptyTransport) = (Inr (SubmitFailedPaymentVoided A e), r', t') \<and>
   railLedger r' (authId A) = Some (Voided, sampleMoney)"
proof -
  let ?run = "submitWithPayment rfcLib sampleDigest (stubPort rfcLib) (flakySubmit sampleKey) paidInput
     (stubPaymentRailAdapter None, emptyTransport)"
  have "case fst ?run of Inr (SubmitFailedPaymentVoided A e) \<Rightarrow> True | _ \<Rightarrow> False" by code_simp
  then obtain A e r' t' where r: "?run = (Inr (SubmitFailedPaymentVoided A e), r', t')"
    by (cases ?run) (auto split: sum.splits SubmitWithPaymentOutcome.splits)
  with submit_with_payment_atomic [OF fresh_rail paidInput_prepares fresh_sample r] show ?thesis by auto
qed

text \<open>Retrying a payment that went through replays it: the same input over the in-memory
  adapters returns the same confirmation and receipt, and neither the rail nor the transport
  changes, so no second hold, charge or submission exists.\<close>

theorem submit_with_payment_retry_replays:
  assumes "rail_reach lib r"
    and "submitWithPayment lib sha256 (stubPort lib) (stubSubmit lib) input (r, t)
           = (Inr (SubmittedWithPayment c R), r', t')"
  shows "submitWithPayment lib sha256 (stubPort lib) (stubSubmit lib) input (r', t')
           = (Inr (SubmittedWithPayment c R), r', t')"
proof -
  obtain amount token ka kc kv where p: "preparePayment lib sha256 input = Inr (amount, token, ka, kc, kv)"
    using assms(2) by (cases "preparePayment lib sha256 input") (auto simp: submitWithPayment_def)
  note calls = submitWithPayment_calls [OF p, where submit = "stubSubmit lib" and port = "stubPort lib"]
  have "railCalls (stubPort lib) (stubSubmit lib) amount token (ka, kc, kv) (inputHandoff input)
      (orchestrationKey input) (r, t) = (SubmittedWithPayment c R, r', t')"
    using assms(2) calls by blast
  from stubPay.railCalls_retry_after_success [OF rail_reach_inv [OF assms(1)] this [unfolded stubPort_def]]
  show ?thesis using calls unfolding stubPort_def by blast
qed

theorem submit_with_payment_retry_replays_witness:
  "\<exists>c R r' t'. submitWithPayment rfcLib sampleDigest (stubPort rfcLib) (stubSubmit rfcLib) paidInput (r', t')
     = (Inr (SubmittedWithPayment c R), r', t')"
proof -
  let ?run = "submitWithPayment rfcLib sampleDigest (stubPort rfcLib) (stubSubmit rfcLib) paidInput
     (stubPaymentRailAdapter None, emptyTransport)"
  have "case fst ?run of Inr (SubmittedWithPayment c R) \<Rightarrow> True | _ \<Rightarrow> False" by code_simp
  then obtain c R r' t' where "?run = (Inr (SubmittedWithPayment c R), r', t')"
    by (cases ?run) (auto split: sum.splits SubmitWithPaymentOutcome.splits)
  from submit_with_payment_retry_replays [OF fresh_rail this] show ?thesis by blast
qed

text \<open>A retry with the same orchestration key after a voided payment submits without charging:
  the deterministic key triple makes the rail answer with the voided hold, so when the
  submission now succeeds the outcome is always \<open>capture-failed\<close> and no money moves, while the
  helper documents that a successful submission with no charge never happens.\<close>

theorem retry_after_void_submits_uncharged:
  assumes "rail_reach lib r" "preparePayment lib sha256 input = Inr (amount, token, keys)"
    and "freshKeys r keys"
    and "submitWithPayment lib sha256 (stubPort lib) submit input (r, t)
           = (Inr (SubmitFailedPaymentVoided A e), r1, t1)"
    and "submit' (inputHandoff input) (orchestrationKey input) t1 = (Inr c, t2)"
  shows "\<exists>e' r2. submitWithPayment lib sha256 (stubPort lib) submit' input (r1, t1)
           = (Inr (CaptureFailed c A e'), r2, t2) \<and> railLedger r2 = railLedger r1 \<and>
         railLedger r2 (authId A) = Some (Voided, amount)"
proof -
  obtain ka kc kv where k: "keys = (ka, kc, kv)" by (cases keys)
  have run: "railCalls (stubPort lib) submit amount token (ka, kc, kv) (inputHandoff input)
      (orchestrationKey input) (r, t) = (SubmitFailedPaymentVoided A e, r1, t1)"
    using assms(4) by (simp only: submitWithPayment_calls [OF assms(2)] k)
  have f: "authorizationsByKey r ka = None" "capturesByKey r kc = None" "kv \<notin> voidsByKey r"
    using assms(3) k by (simp_all add: freshKeys_def)
  from stubRail.railCalls_fresh [OF rail_reach_inv [OF assms(1)] f run [unfolded stubPort_def]]
  have s: "railInv r1" "railLedger r1 (authId A) = Some (Voided, amount)" "authorizationsByKey r1 ka = Some A"
    "capturesByKey r1 kc = None" by simp_all
  obtain ra where a: "authorizeStub lib amount token ka r = (Inr A, ra)"
    using run by (auto simp: railCalls_def stubPort_def split: prod.splits sum.splits)
  obtain out r2 t' where run2: "railCalls (stubPort lib) submit' amount token (ka, kc, kv) (inputHandoff input)
      (orchestrationKey input) (r1, t1) = (out, r2, t')"
    by (cases "railCalls (stubPort lib) submit' amount token (ka, kc, kv) (inputHandoff input)
      (orchestrationKey input) (r1, t1)")
  from stubRail.railCalls_retry_after_void [OF s(1,3,4,2) a run2 [unfolded stubPort_def]] assms(5)
  obtain e' where "out = CaptureFailed c A e'" "t' = t2" "railLedger r2 = railLedger r1" by auto
  with run2 s(2) submitWithPayment_calls [OF assms(2)] k show ?thesis by metis
qed

theorem retry_after_void_submits_uncharged_witness:
  "\<exists>c A e r1 t1 r2 t2. submitWithPayment rfcLib sampleDigest (stubPort rfcLib) (stubSubmit rfcLib) paidInput
     (r1, t1) = (Inr (CaptureFailed c A e), r2, t2)"
proof -
  let ?run = "submitWithPayment rfcLib sampleDigest (stubPort rfcLib) (flakySubmit sampleKey) paidInput
     (stubPaymentRailAdapter None, emptyTransport)"
  have "case fst ?run of Inr (SubmitFailedPaymentVoided A e) \<Rightarrow> True | _ \<Rightarrow> False" by code_simp
  then obtain A e r1 t1 where r: "?run = (Inr (SubmitFailedPaymentVoided A e), r1, t1)"
    by (cases ?run) (auto split: sum.splits SubmitWithPaymentOutcome.splits)
  have v: "isUuidV7IdempotencyKey rfcLib (orchestrationKey paidInput)" by code_simp
  obtain c t2 where u: "stubSubmit rfcLib (inputHandoff paidInput) (orchestrationKey paidInput) t1 = (Inr c, t2)"
    by (rule stubSubmit_cases [of rfcLib "orchestrationKey paidInput" "inputHandoff paidInput" t1])
      (use v in auto)
  from retry_after_void_submits_uncharged [where submit' = "stubSubmit rfcLib",
      OF fresh_rail paidInput_prepares fresh_sample r u]
  show ?thesis by blast
qed

definition tokenAvailable :: "'h SubmitWithPaymentInput \<Rightarrow> bool" where
  "tokenAvailable input \<longleftrightarrow> (\<exists>s. methodToken input = Some s \<and> s \<noteq> []) \<or>
     isNonEmptyString (getp (extensions (formDefinition input)) ''x-formspec-payment-method-token'') \<or>
     profileMode (runtimeProfile input) = Demo"

lemma readMethodToken_ok: "isOk (readMethodToken input) \<longleftrightarrow> tokenAvailable input"
  by (auto simp: readMethodToken_def tokenAvailable_def Let_def split: option.splits list.splits)

lemma resolveRailKey_ok:
  assumes "uuid_lib_spec lib" "\<forall>bs. length (sha256 bs) = 32"
  shows "isOk (resolveRailKey lib sha256 override base suffix) \<longleftrightarrow>
    (\<forall>k. override = Some k \<longrightarrow> isUuidV7IdempotencyKey lib k)"
  using derive_ok [OF assms(1), of sha256 base suffix] assms(2)
  by (cases override) (auto simp: resolveRailKey_def assertUuidV7IdempotencyKey_def throwIf_def)

lemma isOk_bindR: "isOk (bindR m f) \<longleftrightarrow> (\<exists>x. m = Inr x \<and> isOk (f x))"
  by (cases m) auto

text \<open>The orchestration starts the rail exactly when payment is enabled, the form declares a
  well-formed amount, a method token is available and every caller-supplied key is a UUIDv7;
  derived keys never fail.\<close>

theorem payment_starts_iff:
  assumes "uuid_lib_spec lib" "\<forall>bs. length (sha256 bs) = 32"
  shows "isOk (preparePayment lib sha256 input) \<longleftrightarrow>
    Payment \<in> set (enabled (runtimeProfile input)) \<and> extractPaymentAmount (formDefinition input) \<noteq> None \<and>
    tokenAvailable input \<and>
    (\<forall>k. authorizeKey input = Some k \<or> captureKey input = Some k \<or> voidKey input = Some k \<longrightarrow>
       isUuidV7IdempotencyKey lib k)"
proof -
  have "isOk (preparePayment lib sha256 input) \<longleftrightarrow>
      Payment \<in> set (enabled (runtimeProfile input)) \<and> extractPaymentAmount (formDefinition input) \<noteq> None \<and>
      isOk (readMethodToken input) \<and>
      isOk (resolveRailKey lib sha256 (authorizeKey input) (orchestrationKey input) ''authorize'') \<and>
      isOk (resolveRailKey lib sha256 (captureKey input) (orchestrationKey input) ''capture'') \<and>
      isOk (resolveRailKey lib sha256 (voidKey input) (orchestrationKey input) ''void'')"
    by (cases "readMethodToken input";
        cases "resolveRailKey lib sha256 (authorizeKey input) (orchestrationKey input) ''authorize''";
        cases "resolveRailKey lib sha256 (captureKey input) (orchestrationKey input) ''capture''";
        cases "resolveRailKey lib sha256 (voidKey input) (orchestrationKey input) ''void''")
      (simp_all add: preparePayment_def split: option.split)
  then show ?thesis
    unfolding readMethodToken_ok resolveRailKey_ok [OF assms] by blast
qed

theorem payment_starts_iff_witness:
  "isOk (preparePayment rfcLib sampleDigest paidInput) \<and>
   \<not> isOk (preparePayment rfcLib sampleDigest (paidInput\<lparr>captureKey := Some ''not-a-key''\<rparr>))"
proof -
  have l: "\<forall>bs. length (sampleDigest bs) = 32" by (simp add: sampleDigest_def min_def)
  have "\<not> isUuidV7IdempotencyKey rfcLib ''not-a-key''" by code_simp
  then have "\<not> isOk (preparePayment rfcLib sampleDigest (paidInput\<lparr>captureKey := Some ''not-a-key''\<rparr>))"
    unfolding payment_starts_iff [OF rfcLib_spec l] by auto
  then show ?thesis by (simp add: paidInput_prepares)
qed

section \<open>Offline submissions\<close>

text \<open>A transport that also records what it is called with and what it answers.\<close>

definition recording ::
  "('h \<Rightarrow> string \<Rightarrow> 't \<Rightarrow> ('e + SubmitConfirmation) \<times> 't) \<Rightarrow>
   'h \<Rightarrow> string \<Rightarrow> 't \<times> ('h \<times> string \<times> ('e + SubmitConfirmation)) list \<Rightarrow>
   ('e + SubmitConfirmation) \<times> 't \<times> ('h \<times> string \<times> ('e + SubmitConfirmation)) list" where
  "recording submit h k st = (let (t, calls) = st; (r, t') = submit h k t in (r, t', calls @ [(h, k, r)]))"

text \<open>The states a queue is in, whatever is queued and replayed over a transport.\<close>

inductive queueStates :: "uuid_lib \<Rightarrow> ('h \<Rightarrow> string \<Rightarrow> 't \<Rightarrow> ('e + SubmitConfirmation) \<times> 't) \<Rightarrow> 'h queue \<Rightarrow> bool"
  for lib submit where
  empty_queue: "queueStates lib submit emptyQueue"
| enqueued: "queueStates lib submit q \<Longrightarrow> queueStates lib submit (snd (enqueue lib now h k q))"
| replayed: "queueStates lib submit q \<Longrightarrow> replay submit q t = (outs, q', t') \<Longrightarrow> queueStates lib submit q'"

lemma replay_queueInv: "queueInv q \<Longrightarrow> replay submit q t = (outs, q', t') \<Longrightarrow> queueInv q'"
proof -
  assume inv: "queueInv q" and r: "replay submit q t = (outs, q', t')"
  obtain o' r' u' where "drain submit (pending q) t = (o', r', u')" by (cases "drain submit (pending q) t")
  from replay_drain [OF inv this] r show "queueInv q'" by auto
qed

lemma queueStates_inv: "queueStates lib submit q \<Longrightarrow> queueInv q"
proof (induction rule: queueStates.induct)
  case empty_queue
  then show ?case by (simp add: queueInv_def emptyQueue_def)
qed (auto intro: enqueue_queueInv replay_queueInv)

lemma drain_recording:
  assumes "drain (recording submit) es (t, calls0) = (outs, rest, t2, calls)"
  shows "\<exists>l. calls = calls0 @ l \<and> map (\<lambda>(h, k, _). (h, k)) l = map (\<lambda>e. (handoff e, idempotencyKey e)) es \<and>
    (\<forall>e\<in>set es. \<exists>r. (handoff e, idempotencyKey e, r) \<in> set l \<and>
      (case r of Inr c \<Rightarrow> Sent (idempotencyKey e) c \<in> set outs | Inl x \<Rightarrow> Failed (idempotencyKey e) x \<in> set outs \<and> e \<in> set rest))"
  using assms
proof (induction es arbitrary: t calls0 outs rest)
  case (Cons e es)
  obtain r t1 where r: "submit (handoff e) (idempotencyKey e) t = (r, t1)" by fastforce
  have rr: "recording submit (handoff e) (idempotencyKey e) (t, calls0) = (r, t1, calls0 @ [(handoff e, idempotencyKey e, r)])"
    by (simp add: recording_def r)
  obtain outs1 rest1 t3 calls1 where d: "drain (recording submit) es (t1, calls0 @ [(handoff e, idempotencyKey e, r)]) = (outs1, rest1, t3, calls1)"
    by (cases "drain (recording submit) es (t1, calls0 @ [(handoff e, idempotencyKey e, r)])") auto
  have eq: "calls1 = calls" "t3 = t2"
      "outs = (case r of Inr c \<Rightarrow> Sent (idempotencyKey e) c | Inl x \<Rightarrow> Failed (idempotencyKey e) x) # outs1"
      "rest = (case r of Inr c \<Rightarrow> rest1 | Inl x \<Rightarrow> e # rest1)"
    using Cons.prems rr d by (auto split: sum.splits)
  from Cons.IH [OF d [unfolded eq(1,2)]] obtain l where l: "calls = (calls0 @ [(handoff e, idempotencyKey e, r)]) @ l"
      "map (\<lambda>(h, k, _). (h, k)) l = map (\<lambda>e. (handoff e, idempotencyKey e)) es"
      "\<forall>e\<in>set es. \<exists>r. (handoff e, idempotencyKey e, r) \<in> set l \<and>
        (case r of Inr c \<Rightarrow> Sent (idempotencyKey e) c \<in> set outs1 | Inl x \<Rightarrow> Failed (idempotencyKey e) x \<in> set outs1 \<and> e \<in> set rest1)"
    by blast
  have more: "\<exists>r'. (handoff e', idempotencyKey e', r') \<in> insert (handoff e, idempotencyKey e, r) (set l) \<and>
      (case r' of Inr c \<Rightarrow> Sent (idempotencyKey e') c \<in> set outs | Inl x \<Rightarrow> Failed (idempotencyKey e') x \<in> set outs \<and> e' \<in> set rest)"
    if old: "e' \<in> set es" for e'
  proof -
    obtain r' where "(handoff e', idempotencyKey e', r') \<in> set l"
      "case r' of Inr c \<Rightarrow> Sent (idempotencyKey e') c \<in> set outs1 | Inl x \<Rightarrow> Failed (idempotencyKey e') x \<in> set outs1 \<and> e' \<in> set rest1"
      using l(3) old by blast
    then show ?thesis by (intro exI [of _ r']) (auto simp: eq split: sum.splits)
  qed
  have "case r of Inr c \<Rightarrow> Sent (idempotencyKey e) c \<in> set outs | Inl x \<Rightarrow> Failed (idempotencyKey e) x \<in> set outs \<and> e \<in> set rest"
    by (simp add: eq split: sum.splits)
  then show ?case using l(1,2) more by (intro exI [of _ "(handoff e, idempotencyKey e, r) # l"]) auto
qed simp

lemma drain_sent_gone:
  assumes "queueInv q1" "drain submit (pending q1) t = (outs, rest, t2)" "replay submit q1 t = (outs', q2, t2')"
  shows "outs' = outs \<and> t2' = t2 \<and> queueInv q2 \<and> pending q2 = rest \<and> (Sent key c \<in> set outs \<longrightarrow> byKey q2 key = None)"
proof -
  obtain q' where q': "replay submit q1 t = (outs, q', t2)" "queueInv q'" "pending q' = rest"
    using replay_drain [OF assms(1,2)] by blast
  then have eq: "outs' = outs" "q2 = q'" "t2' = t2" using assms(3) by auto
  have "byKey q' key = None" if "Sent key c \<in> set outs"
  proof (rule ccontr)
    assume "byKey q' key \<noteq> None"
    then obtain e where e: "byKey q' key = Some e" "idempotencyKey e = key" using queueInvD(3) [OF q'(2)] by auto
    then have "e \<in> set rest" using pending_mem [OF q'(2)] q'(3) by auto
    then have "key \<notin> sentKeys outs"
      using drain_rest [OF assms(2)] queueInvD(1) [OF assms(1)] e(2) by (auto simp: pending_keys [OF assms(1)])
    then show False using that by (force simp: sentKeys_def)
  qed
  then show ?thesis using q' eq by auto
qed

text \<open>C32. An offline submission is not lost, over any transport: with \<open>offlineSubmit\<close> enabled, no network
  and a valid UUIDv7 key, the handoff is queued last under its key (a key that is already queued keeps
  its first entry) and nothing is sent. The next replay calls the transport once for each pending
  entry, in order, with the queued handoff and its own key; what the transport answers is reported
  for that key, and the entry leaves the queue if it was confirmed and stays in it if it failed.\<close>

theorem offline_submission_delivered:
  assumes "queueStates lib submit q" "OfflineSubmit \<in> set (enabled profile)" "isUuidV7IdempotencyKey lib key"
  shows "\<exists>queued q1 outs q2 t2 calls r.
    submitOrQueue submit (enqueue lib now) False profile h key (t, q) = (Inr (QueuedOutcome queued), t, q1) \<and>
    queued = (case byKey q key of Some e \<Rightarrow> e | None \<Rightarrow> \<lparr>idempotencyKey = key, handoff = h, enqueuedAt = now\<rparr>) \<and>
    pending q1 = pending q @ (if byKey q key = None then [queued] else []) \<and> queued \<in> set (pending q1) \<and> distinct (map idempotencyKey (pending q1)) \<and>
    replay (recording submit) q1 (t', []) = (outs, q2, t2, calls) \<and>
    map (\<lambda>(h, k, _). (h, k)) calls = map (\<lambda>e. (handoff e, idempotencyKey e)) (pending q1) \<and>
    (handoff queued, key, r) \<in> set calls \<and>
    (case r of Inr c \<Rightarrow> Sent key c \<in> set outs \<and> byKey q2 key = None
     | Inl x \<Rightarrow> Failed key x \<in> set outs \<and> byKey q2 key = Some queued)"
proof -
  have inv: "queueInv q" by (rule queueStates_inv [OF assms(1)])
  define queued where "queued = (case byKey q key of Some e \<Rightarrow> e | None \<Rightarrow> \<lparr>idempotencyKey = key, handoff = h, enqueuedAt = now\<rparr>)"
  obtain q1 where e: "enqueue lib now h key q = (Inr queued, q1)"
    by (rule enqueue_cases [of lib key now h q]) (use assms(3) in \<open>auto simp: queued_def\<close>)
  have inv1: "queueInv q1" using enqueue_queueInv [OF inv, of lib now h key] e by simp
  have new: "pending q1 = pending q @ (if byKey q key = None then [queued] else [])"
    by (rule enqueue_cases [of lib key now h q]) (use assms(3) e inv queueInvD(2) [OF inv, of key] in \<open>auto simp: pending_upd_absent queued_def\<close>)
  have k: "idempotencyKey queued = key" using queueInvD(3) [OF inv] by (auto simp: queued_def split: option.splits)
  have pend: "queued \<in> set (pending q1)"
    using new pending_mem [OF inv, of queued] k by (auto simp: queued_def split: option.splits)
  obtain outs q2 t2 calls where r: "replay (recording submit) q1 (t', []) = (outs, q2, t2, calls)" by (cases "replay (recording submit) q1 (t', [])") auto
  obtain outs' rest u calls' where "drain (recording submit) (pending q1) (t', []) = (outs', rest, u, calls')"
    by (cases "drain (recording submit) (pending q1) (t', [])") auto
  with drain_sent_gone [OF inv1 this r] have d: "drain (recording submit) (pending q1) (t', []) = (outs, rest, t2, calls)"
      "queueInv q2" "pending q2 = rest" "\<And>c. Sent key c \<in> set outs \<Longrightarrow> byKey q2 key = None" by auto
  from drain_recording [OF d(1)] obtain x where calls: "map (\<lambda>(h, k, _). (h, k)) calls = map (\<lambda>e. (handoff e, idempotencyKey e)) (pending q1)"
      "(handoff queued, key, x) \<in> set calls"
      "case x of Inr c \<Rightarrow> Sent key c \<in> set outs | Inl y \<Rightarrow> Failed key y \<in> set outs \<and> queued \<in> set rest"
    using pend k by auto
  moreover have "queued \<in> set rest \<Longrightarrow> byKey q2 key = Some queued" using pending_mem [OF d(2)] d(3) k by auto
  ultimately show ?thesis
    using e r new pend d(4) assms(2) pending_keys [OF inv1] queueInvD(1) [OF inv1]
    by (intro exI [of _ queued] exI [of _ q1] exI [of _ outs] exI [of _ q2] exI [of _ t2] exI [of _ calls] exI [of _ x])
      (auto simp: submitOrQueue_def queued_def split: sum.splits)
qed

theorem offline_submission_delivered_witness:
  "\<exists>queued q1 outs q2 t2 calls. submitOrQueue (stubSubmit rfcLib) (enqueue rfcLib ''t0'') False paidProfile (Str ''h'') sampleKey
     (emptyTransport, emptyQueue) = (Inr (QueuedOutcome queued), emptyTransport, q1) \<and> handoff queued = Str ''h'' \<and>
     replay (recording (stubSubmit rfcLib)) q1 (emptyTransport, []) = (outs, q2, t2, calls) \<and>
     map (\<lambda>(h, k, _). (h, k)) calls = [(Str ''h'', sampleKey)]"
proof -
  have o': "OfflineSubmit \<in> set (enabled paidProfile)" by code_simp
  have v: "isUuidV7IdempotencyKey rfcLib sampleKey" by code_simp
  have "pending emptyQueue = []" "byKey emptyQueue sampleKey = None" by (simp_all add: pending_def emptyQueue_def)
  then show ?thesis
    using offline_submission_delivered [OF queueStates.empty_queue o' v, of "stubSubmit rfcLib" "''t0''" "Str ''h''" emptyTransport emptyTransport]
    by fastforce
qed

end
