(* ===== verification/Respondent_Place.thy ===== *)
theory Respondent_Place
  imports Prelude
begin

text \<open>
  The structural guards of \<open>src/shared/respondent-place.ts\<close> and
  \<open>src/shared/respondent-history.ts\<close>: which JSON values the respondent-place, applicant-status
  and history sources hand to the runtime. A guard is the conjunction of its tests in source
  order. The reference is a schema language (\<open>schema\<close>, \<open>conforms\<close>) with one schema per
  document type; the lemmas show each guard equal to its schema, and the guards of the
  applicant-status union disjoint outside of empty pages.
\<close>

section \<open>Helpers\<close>

definition isOptional :: "(jsval \<Rightarrow> bool) \<Rightarrow> jsval \<Rightarrow> bool" where
  "isOptional p v = (v = Undefined \<or> p v)"

definition stringIn :: "string list \<Rightarrow> jsval \<Rightarrow> bool" where
  "stringIn xs v = (isString v \<and> strOf v \<in> set xs)"

definition hasOnlyKeys :: "jsval \<Rightarrow> string list \<Rightarrow> bool \<Rightarrow> bool" where
  "hasOnlyKeys v allowedKeys allowTopLevelExtensions =
     list_all (\<lambda>key. key \<in> set allowedKeys \<or> allowTopLevelExtensions \<and> startsWith ''x-'' key)
       (map fst (ownProps v))"

definition isExtensions :: "jsval \<Rightarrow> bool" where
  "isExtensions v = (isPlainObject v \<and> list_all (startsWith ''x-'') (map fst (ownProps v)))"

definition isArrayOf :: "(jsval \<Rightarrow> bool) \<Rightarrow> jsval \<Rightarrow> bool" where
  "isArrayOf p v = (isArray v \<and> list_all p (arrItems v))"

definition isOptionalArray :: "jsval \<Rightarrow> (jsval \<Rightarrow> bool) \<Rightarrow> bool" where
  "isOptionalArray v itemGuard = (v = Undefined \<or> isArrayOf itemGuard v)"

definition isLowerAz :: "char \<Rightarrow> bool" where
  "isLowerAz c = (97 \<le> (of_char c :: nat) \<and> (of_char c :: nat) \<le> 122)"

definition isDigit09 :: "char \<Rightarrow> bool" where
  "isDigit09 c = (48 \<le> (of_char c :: nat) \<and> (of_char c :: nat) \<le> 57)"

text \<open>The extension pattern \<open>/^x-[a-z][a-z0-9-]*$/\<close>.\<close>

definition isExtensionName :: "string \<Rightarrow> bool" where
  "isExtensionName s = (case s of
     a # b # c # rest \<Rightarrow> a = CHR ''x'' \<and> b = CHR ''-'' \<and> isLowerAz c \<and>
       list_all (\<lambda>d. isLowerAz d \<or> isDigit09 d \<or> d = CHR ''-'') rest
   | _ \<Rightarrow> False)"

definition isReservedOrExtension :: "string \<Rightarrow> string list \<Rightarrow> bool" where
  "isReservedOrExtension s reserved = (s \<in> set reserved \<or> isExtensionName s)"

definition reservedString :: "string list \<Rightarrow> jsval \<Rightarrow> bool" where
  "reservedString reserved v = (isString v \<and> isReservedOrExtension (strOf v) reserved)"

definition isCount :: "jsval \<Rightarrow> bool" where
  "isCount v = (case integerOf v of None \<Rightarrow> False | Some i \<Rightarrow> 0 \<le> i)"

definition isUnitInterval :: "jsval \<Rightarrow> bool" where
  "isUnitInterval v = (case v of Num (Fin q) \<Rightarrow> 0 \<le> q \<and> q \<le> 1 | _ \<Rightarrow> False)"


section \<open>Closed vocabularies\<close>

definition applicantProjectionKinds :: "string list" where
  "applicantProjectionKinds = [''ApplicantCaseSummary'', ''ApplicantCaseDetail'', ''ApplicantTaskSummary'',
     ''ApplicantNotificationListItem'', ''ApplicantStatusTimelineEntry'']"

definition respondentDocumentKinds :: "string list" where
  "respondentDocumentKinds = [''identity-proof'', ''income-proof'', ''proof-of-address'', ''proof-of-age'',
     ''eligibility-evidence'', ''form-attachment'', ''signed-receipt'', ''correspondence'', ''other'']"

definition obligationStates :: "string list" where
  "obligationStates = [''upcoming'', ''due'', ''overdue'', ''submitted'', ''satisfied'', ''closed'', ''unknown'']"

definition storagePostures :: "string list" where
  "storagePostures = [''client-encrypted'', ''client-local-only'', ''export-snapshot'']"

definition issuerIsolationModes :: "string list" where
  "issuerIsolationModes = [''per-issuer'', ''per-program'', ''respondent-chosen'']"

definition presentationDefaults :: "string list" where
  "presentationDefaults = [''explicit-consent'', ''deny-by-default'']"

definition presentationScopes :: "string list" where
  "presentationScopes = [''selected-documents'', ''all-documents'', ''metadata-only'']"

definition presentationPurposes :: "string list" where
  "presentationPurposes = [''eligibility'', ''identity-proofing'', ''appeal'', ''renewal'', ''audit'',
     ''respondent-export'', ''other'']"

definition presentationProtocols :: "string list" where
  "presentationProtocols = [''openid4vp'', ''w3c-vc-data-model-2.0'', ''download'', ''copy-link'']"

definition exportFormats :: "string list" where
  "exportFormats = [''portable-json'', ''encrypted-portable-json'']"

definition exportIncludes :: "string list" where
  "exportIncludes = [''documents'', ''submissions'', ''obligations'', ''presentation-policies'']"

definition privacyTiers :: "string list" where
  "privacyTiers = [''anonymous'', ''pseudonymous'', ''verified'']"

definition lifecycleStates :: "string list" where
  "lifecycleStates = [''active'', ''suspended'', ''migrating'', ''completed'', ''terminated'', ''stalled'']"

definition taskKinds :: "string list" where
  "taskKinds = [''intake'', ''correspondence-response'', ''signature'', ''verification'']"

definition taskStatuses :: "string list" where
  "taskStatuses = [''pending'', ''drafted'', ''submitted'', ''dismissed'', ''expired'']"

definition notificationKinds :: "string list" where
  "notificationKinds = [''task-assigned'', ''task-deadline-approaching'', ''case-update'',
     ''correspondence-received'', ''decision-reached'']"

definition notificationStatuses :: "string list" where
  "notificationStatuses = [''unread'', ''read'', ''archived'']"

definition timelineEvents :: "string list" where
  "timelineEvents = [''case-created'', ''lifecycle-changed'', ''applicant-task-assigned'',
     ''applicant-task-submitted'', ''decision-reached'', ''correspondence-sent'', ''correspondence-received'']"

definition agentRoles :: "string list" where
  "agentRoles = [''advisory'', ''primary'', ''fallback'']"

definition WOS_APPLICANT_SCHEMA_ID :: string where
  "WOS_APPLICANT_SCHEMA_ID = ''https://schemas.formspec.io/wos-api/applicant/v1''"


section \<open>The respondent's place\<close>

definition isApplicantStatusProjection :: "jsval \<Rightarrow> bool" where
  "isApplicantStatusProjection v = (isPlainObject v \<and>
     hasOnlyKeys v [''sourceSchema'', ''projectionKind'', ''resourceRef'', ''endpoint'', ''updatedAt'',
       ''headline'', ''summary'', ''payloadDigest'', ''extensions''] False \<and>
     getp v ''sourceSchema'' = Str WOS_APPLICANT_SCHEMA_ID \<and>
     stringIn applicantProjectionKinds (getp v ''projectionKind'') \<and>
     isString (getp v ''updatedAt'') \<and>
     isOptional isString (getp v ''resourceRef'') \<and>
     isOptional isString (getp v ''endpoint'') \<and>
     isOptional isString (getp v ''headline'') \<and>
     isOptional isString (getp v ''summary'') \<and>
     isOptional isString (getp v ''payloadDigest'') \<and>
     isOptional isExtensions (getp v ''extensions''))"

definition isRespondentTrustModel :: "jsval \<Rightarrow> bool" where
  "isRespondentTrustModel v = (isPlainObject v \<and>
     hasOnlyKeys v [''storagePosture'', ''issuerIsolation'', ''serverAggregation'', ''presentationDefault'',
       ''extensions''] False \<and>
     stringIn storagePostures (getp v ''storagePosture'') \<and>
     stringIn issuerIsolationModes (getp v ''issuerIsolation'') \<and>
     getp v ''serverAggregation'' = Str ''forbidden'' \<and>
     stringIn presentationDefaults (getp v ''presentationDefault'') \<and>
     isOptional isExtensions (getp v ''extensions''))"

definition isSubjectBinding :: "jsval \<Rightarrow> bool" where
  "isSubjectBinding v = (isPlainObject v \<and>
     hasOnlyKeys v [''subjectRef'', ''privacyTier'', ''assuranceRef'', ''extensions''] False \<and>
     isString (getp v ''subjectRef'') \<and>
     stringIn privacyTiers (getp v ''privacyTier'') \<and>
     isOptional isString (getp v ''assuranceRef'') \<and>
     isOptional isExtensions (getp v ''extensions''))"

definition isIssuerRef :: "jsval \<Rightarrow> bool" where
  "isIssuerRef v = (isPlainObject v \<and>
     hasOnlyKeys v [''name'', ''url'', ''identifier'', ''extensions''] False \<and>
     isString (getp v ''name'') \<and>
     isOptional isString (getp v ''url'') \<and>
     isOptional isString (getp v ''identifier'') \<and>
     isOptional isExtensions (getp v ''extensions''))"

definition isDefinitionRef :: "jsval \<Rightarrow> bool" where
  "isDefinitionRef v = (isPlainObject v \<and>
     hasOnlyKeys v [''url'', ''version''] False \<and>
     isString (getp v ''url'') \<and>
     isOptional isString (getp v ''version''))"

definition isContentRef :: "jsval \<Rightarrow> bool" where
  "isContentRef v = (isPlainObject v \<and>
     hasOnlyKeys v [''uri'', ''mediaType'', ''sha256'', ''extensions''] False \<and>
     isString (getp v ''uri'') \<and>
     isString (getp v ''mediaType'') \<and>
     isOptional isString (getp v ''sha256'') \<and>
     isOptional isExtensions (getp v ''extensions''))"

definition isRespondentObligation :: "jsval \<Rightarrow> bool" where
  "isRespondentObligation v = (isPlainObject v \<and>
     hasOnlyKeys v [''id'', ''issuer'', ''title'', ''description'', ''state'', ''dueAt'', ''formRef'',
       ''submissionRef'', ''extensions''] False \<and>
     isString (getp v ''id'') \<and>
     isIssuerRef (getp v ''issuer'') \<and>
     isString (getp v ''title'') \<and>
     isOptional isString (getp v ''description'') \<and>
     stringIn obligationStates (getp v ''state'') \<and>
     isOptional isString (getp v ''dueAt'') \<and>
     isOptional isDefinitionRef (getp v ''formRef'') \<and>
     isOptional isString (getp v ''submissionRef'') \<and>
     isOptional isExtensions (getp v ''extensions''))"

definition isRespondentDocumentRecord :: "jsval \<Rightarrow> bool" where
  "isRespondentDocumentRecord v = (isPlainObject v \<and>
     hasOnlyKeys v [''id'', ''kind'', ''displayName'', ''issuer'', ''capturedAt'', ''expiresAt'', ''contentRef'',
       ''sourceSubmissionRef'', ''presentationPolicyRef'', ''extensions''] False \<and>
     isString (getp v ''id'') \<and>
     stringIn respondentDocumentKinds (getp v ''kind'') \<and>
     isString (getp v ''displayName'') \<and>
     isOptional isIssuerRef (getp v ''issuer'') \<and>
     isString (getp v ''capturedAt'') \<and>
     isOptional isString (getp v ''expiresAt'') \<and>
     isContentRef (getp v ''contentRef'') \<and>
     isOptional isString (getp v ''sourceSubmissionRef'') \<and>
     isOptional isString (getp v ''presentationPolicyRef'') \<and>
     isOptional isExtensions (getp v ''extensions''))"

definition isRespondentSubmissionRecord :: "jsval \<Rightarrow> bool" where
  "isRespondentSubmissionRecord v = (isPlainObject v \<and>
     hasOnlyKeys v [''id'', ''issuer'', ''definitionRef'', ''submittedAt'', ''applicantStatus'', ''receiptRef'',
       ''documentRefs'', ''extensions''] False \<and>
     isString (getp v ''id'') \<and>
     isIssuerRef (getp v ''issuer'') \<and>
     isDefinitionRef (getp v ''definitionRef'') \<and>
     isString (getp v ''submittedAt'') \<and>
     isOptional isApplicantStatusProjection (getp v ''applicantStatus'') \<and>
     isOptional isString (getp v ''receiptRef'') \<and>
     isOptional (isArrayOf isString) (getp v ''documentRefs'') \<and>
     isOptional isExtensions (getp v ''extensions''))"

definition isPresentationPolicy :: "jsval \<Rightarrow> bool" where
  "isPresentationPolicy v =
     (if \<not> isPlainObject v \<or> \<not> isString (getp v ''id'') \<or> \<not> isString (getp v ''scope'') then False
      else if \<not> hasOnlyKeys v [''id'', ''scope'', ''documentRefs'', ''allowedPurposes'', ''recipientIssuer'',
        ''protocolHints'', ''expiresAt'', ''extensions''] False then False
      else if strOf (getp v ''scope'') \<notin> set presentationScopes then False
      else if \<not> isArray (getp v ''allowedPurposes'') \<or> arrItems (getp v ''allowedPurposes'') = [] then False
      else if \<not> list_all (stringIn presentationPurposes) (arrItems (getp v ''allowedPurposes'')) then False
      else if getp v ''protocolHints'' \<noteq> Undefined \<and>
        \<not> isArrayOf (stringIn presentationProtocols) (getp v ''protocolHints'') then False
      else if getp v ''recipientIssuer'' \<noteq> Undefined \<and> \<not> isIssuerRef (getp v ''recipientIssuer'') then False
      else if getp v ''expiresAt'' \<noteq> Undefined \<and> \<not> isString (getp v ''expiresAt'') then False
      else if getp v ''extensions'' \<noteq> Undefined \<and> \<not> isExtensions (getp v ''extensions'') then False
      else if getp v ''scope'' = Str ''selected-documents'' then
        isArray (getp v ''documentRefs'') \<and> arrItems (getp v ''documentRefs'') \<noteq> [] \<and>
        list_all isString (arrItems (getp v ''documentRefs''))
      else True)"

definition isEncryptionEnvelope :: "jsval \<Rightarrow> bool" where
  "isEncryptionEnvelope v =
     (if \<not> isPlainObject v \<or>
         \<not> hasOnlyKeys v [''mode'', ''keyDerivation'', ''recipientKeyRef'', ''cipherSuite'', ''extensions''] False \<or>
         getp v ''mode'' \<noteq> Str ''none'' \<and> getp v ''mode'' \<noteq> Str ''passkey-hpke'' then False
      else if getp v ''mode'' = Str ''passkey-hpke'' then
        (getp v ''keyDerivation'' = Str ''passkey-derived'' \<or> getp v ''keyDerivation'' = Str ''external-key'') \<and>
        isString (getp v ''recipientKeyRef'') \<and>
        isOptional isString (getp v ''cipherSuite'') \<and>
        isOptional isExtensions (getp v ''extensions'')
      else
        getp v ''keyDerivation'' = Undefined \<and>
        getp v ''recipientKeyRef'' = Undefined \<and>
        isOptional isString (getp v ''cipherSuite'') \<and>
        isOptional isExtensions (getp v ''extensions''))"

definition isExportPackage :: "jsval \<Rightarrow> bool" where
  "isExportPackage v = (isPlainObject v \<and>
     hasOnlyKeys v [''id'', ''format'', ''createdAt'', ''includes'', ''encryption'', ''extensions''] False \<and>
     isString (getp v ''id'') \<and>
     stringIn exportFormats (getp v ''format'') \<and>
     isString (getp v ''createdAt'') \<and>
     isArray (getp v ''includes'') \<and>
     arrItems (getp v ''includes'') \<noteq> [] \<and>
     list_all (stringIn exportIncludes) (arrItems (getp v ''includes'')) \<and>
     isOptional isEncryptionEnvelope (getp v ''encryption'') \<and>
     isOptional isExtensions (getp v ''extensions''))"

definition isRespondentPlaceSnapshot :: "jsval \<Rightarrow> bool" where
  "isRespondentPlaceSnapshot v =
     (if \<not> isPlainObject v \<or> \<not> isPlainObject (getp v ''subject'') \<or> \<not> isPlainObject (getp v ''trustModel'')
      then False
      else if \<not> hasOnlyKeys v [''$formspecRespondentLibrary'', ''version'', ''libraryId'', ''subject'',
          ''aggregationMode'', ''trustModel'', ''encryption'', ''obligations'', ''documents'', ''submissions'',
          ''presentationPolicies'', ''export'', ''extensions''] True \<or>
        getp v ''$formspecRespondentLibrary'' \<noteq> Str ''1.0'' \<or>
        \<not> isString (getp v ''version'') \<or>
        \<not> isString (getp v ''libraryId'') \<or>
        getp v ''aggregationMode'' \<noteq> Str ''client-wallet'' \<or>
        \<not> isSubjectBinding (getp v ''subject'') \<or>
        \<not> isRespondentTrustModel (getp v ''trustModel'') \<or>
        getp v ''extensions'' \<noteq> Undefined \<and> \<not> isExtensions (getp v ''extensions'') then False
      else if getp v ''encryption'' \<noteq> Undefined \<and> \<not> isEncryptionEnvelope (getp v ''encryption'') then False
      else if getp v ''export'' \<noteq> Undefined \<and> \<not> isExportPackage (getp v ''export'') then False
      else if \<not> isOptionalArray (getp v ''obligations'') isRespondentObligation then False
      else if \<not> isOptionalArray (getp v ''documents'') isRespondentDocumentRecord then False
      else if \<not> isOptionalArray (getp v ''submissions'') isRespondentSubmissionRecord then False
      else if \<not> isOptionalArray (getp v ''presentationPolicies'') isPresentationPolicy then False
      else True)"

section \<open>Applicant status resources\<close>

definition isApplicantCaseSummary :: "jsval \<Rightarrow> bool" where
  "isApplicantCaseSummary v = (isPlainObject v \<and>
     hasOnlyKeys v [''id'', ''workflowUrl'', ''lifecycleState'', ''actionNeeded'', ''title'',
       ''continuationOfServicesActive'', ''continuationOfServicesEndsAt'', ''createdAt'', ''updatedAt''] False \<and>
     isString (getp v ''id'') \<and>
     isString (getp v ''workflowUrl'') \<and>
     stringIn lifecycleStates (getp v ''lifecycleState'') \<and>
     isBoolean (getp v ''actionNeeded'') \<and>
     isOptional isString (getp v ''title'') \<and>
     isOptional isBoolean (getp v ''continuationOfServicesActive'') \<and>
     isOptional isString (getp v ''continuationOfServicesEndsAt'') \<and>
     isString (getp v ''createdAt'') \<and>
     isString (getp v ''updatedAt''))"

definition isApplicantTaskSummary :: "jsval \<Rightarrow> bool" where
  "isApplicantTaskSummary v = (isPlainObject v \<and>
     hasOnlyKeys v [''id'', ''processId'', ''kind'', ''status'', ''title'', ''deadline'', ''createdAt'',
       ''updatedAt''] False \<and>
     isString (getp v ''id'') \<and>
     isString (getp v ''processId'') \<and>
     reservedString taskKinds (getp v ''kind'') \<and>
     reservedString taskStatuses (getp v ''status'') \<and>
     isString (getp v ''title'') \<and>
     isOptional isString (getp v ''deadline'') \<and>
     isString (getp v ''createdAt'') \<and>
     isOptional isString (getp v ''updatedAt''))"

definition isApplicantNotificationListItem :: "jsval \<Rightarrow> bool" where
  "isApplicantNotificationListItem v = (isPlainObject v \<and>
     hasOnlyKeys v [''id'', ''kind'', ''status'', ''title'', ''body'', ''processId'', ''taskId'', ''createdAt'',
       ''readAt''] False \<and>
     isString (getp v ''id'') \<and>
     reservedString notificationKinds (getp v ''kind'') \<and>
     stringIn notificationStatuses (getp v ''status'') \<and>
     isString (getp v ''title'') \<and>
     isString (getp v ''body'') \<and>
     isOptional isString (getp v ''processId'') \<and>
     isOptional isString (getp v ''taskId'') \<and>
     isString (getp v ''createdAt'') \<and>
     isOptional isString (getp v ''readAt''))"

definition isApplicantStatusTimelineEntry :: "jsval \<Rightarrow> bool" where
  "isApplicantStatusTimelineEntry v = (isPlainObject v \<and>
     hasOnlyKeys v [''event'', ''occurredAt'', ''summary'', ''newLifecycleState'', ''taskId''] False \<and>
     reservedString timelineEvents (getp v ''event'') \<and>
     isString (getp v ''occurredAt'') \<and>
     isOptional isString (getp v ''summary'') \<and>
     isOptional (stringIn lifecycleStates) (getp v ''newLifecycleState'') \<and>
     isOptional isString (getp v ''taskId''))"

definition isApplicantAgentSummary :: "jsval \<Rightarrow> bool" where
  "isApplicantAgentSummary v = (isPlainObject v \<and>
     hasOnlyKeys v [''displayName'', ''roleInDecision'', ''confidence''] False \<and>
     isString (getp v ''displayName'') \<and>
     stringIn agentRoles (getp v ''roleInDecision'') \<and>
     isOptional isUnitInterval (getp v ''confidence''))"

definition isApplicantAiInvolvementSummary :: "jsval \<Rightarrow> bool" where
  "isApplicantAiInvolvementSummary v = (isPlainObject v \<and>
     hasOnlyKeys v [''agentsInvolved'', ''narrativeRecordCount'', ''humanReviewedAllAgentDecisions''] False \<and>
     isArrayOf isApplicantAgentSummary (getp v ''agentsInvolved'') \<and>
     isCount (getp v ''narrativeRecordCount'') \<and>
     isBoolean (getp v ''humanReviewedAllAgentDecisions''))"

definition isPageOf :: "(jsval \<Rightarrow> bool) \<Rightarrow> jsval \<Rightarrow> bool" where
  "isPageOf item v = (isPlainObject v \<and>
     hasOnlyKeys v [''items'', ''cursor'', ''hasMore''] False \<and>
     isArrayOf item (getp v ''items'') \<and>
     isOptional isString (getp v ''cursor'') \<and>
     isBoolean (getp v ''hasMore''))"

definition isApplicantCaseSummaryPage :: "jsval \<Rightarrow> bool" where
  "isApplicantCaseSummaryPage = isPageOf isApplicantCaseSummary"

definition isApplicantTaskPage :: "jsval \<Rightarrow> bool" where
  "isApplicantTaskPage = isPageOf isApplicantTaskSummary"

definition isApplicantNotificationPage :: "jsval \<Rightarrow> bool" where
  "isApplicantNotificationPage = isPageOf isApplicantNotificationListItem"

definition isApplicantCaseDetail :: "jsval \<Rightarrow> bool" where
  "isApplicantCaseDetail v = (isPlainObject v \<and>
     hasOnlyKeys v [''summary'', ''openTasks'', ''recentNotifications'', ''statusTimeline'',
       ''aiInvolvement''] False \<and>
     isApplicantCaseSummary (getp v ''summary'') \<and>
     isArrayOf isApplicantTaskSummary (getp v ''openTasks'') \<and>
     isArrayOf isApplicantNotificationListItem (getp v ''recentNotifications'') \<and>
     isArrayOf isApplicantStatusTimelineEntry (getp v ''statusTimeline'') \<and>
     isOptional isApplicantAiInvolvementSummary (getp v ''aiInvolvement''))"

definition isApplicantStatusResource :: "jsval \<Rightarrow> bool" where
  "isApplicantStatusResource v \<longleftrightarrow>
     isApplicantCaseDetail v \<or>
     isApplicantCaseSummaryPage v \<or>
     isApplicantTaskPage v \<or>
     isApplicantNotificationPage v \<or>
     isApplicantCaseSummary v \<or>
     isApplicantTaskSummary v \<or>
     isApplicantNotificationListItem v \<or>
     isApplicantStatusTimelineEntry v \<or>
     isApplicantAiInvolvementSummary v \<or>
     isApplicantAgentSummary v"


section \<open>History snapshots\<close>

definition HISTORY_ENTRY_KINDS :: "string list" where
  "HISTORY_ENTRY_KINDS = [''draft'', ''submission'', ''signed-record'']"

definition isHistoryEntry :: "jsval \<Rightarrow> bool" where
  "isHistoryEntry v =
     (let issuer = getp v ''issuer''; def = getp v ''definitionRef'' in
      if \<not> isObjectType v then False
      else if \<not> isString (getp v ''id'') then False
      else if \<not> stringIn HISTORY_ENTRY_KINDS (getp v ''kind'') then False
      else if \<not> isString (getp v ''timestamp'') then False
      else if \<not> isString (getp v ''title'') then False
      else if \<not> isObjectType issuer then False
      else if \<not> isString (getp issuer ''name'') then False
      else if getp issuer ''url'' \<noteq> Undefined \<and> \<not> isString (getp issuer ''url'') then False
      else if getp issuer ''identifier'' \<noteq> Undefined \<and> \<not> isString (getp issuer ''identifier'') then False
      else if getp v ''applicantStatusRef'' \<noteq> Undefined \<and> \<not> isString (getp v ''applicantStatusRef'') then False
      else if getp v ''receiptRef'' \<noteq> Undefined \<and> \<not> isString (getp v ''receiptRef'') then False
      else if getp v ''documentRefs'' \<noteq> Undefined \<and> \<not> isArrayOf isString (getp v ''documentRefs'') then False
      else if def \<noteq> Undefined \<and>
        (\<not> isObjectType def \<or> \<not> isString (getp def ''url'') \<or>
         getp def ''version'' \<noteq> Undefined \<and> \<not> isString (getp def ''version'')) then False
      else True)"

definition isHistorySnapshot :: "jsval \<Rightarrow> bool" where
  "isHistorySnapshot v =
     (if \<not> isObjectType v then False
      else if getp v ''$formspecRespondentHistory'' \<noteq> Str ''1.0'' then False
      else if getp v ''aggregationMode'' \<noteq> Str ''client-wallet'' then False
      else if \<not> isString (getp v ''subjectRef'') then False
      else if \<not> isArray (getp v ''entries'') then False
      else list_all isHistoryEntry (arrItems (getp v ''entries'')))"


section \<open>The reference: a schema language\<close>

text \<open>
  \<open>Rec x fs\<close> is a closed object with the members \<open>fs\<close> (name, optional, schema); with \<open>x\<close> it
  also admits any member named \<open>x-\<dots>\<close>. An optional member may hold undefined.
\<close>

datatype schema =
    AnyT | NeverT | StrT | BoolT | ConstT string | EnumT "string list" | ReservedT "string list"
  | CountT | UnitT | ExtT | ListT schema | NonEmptyT schema
  | Rec bool "(string \<times> bool \<times> schema) list" | AltT schema schema

fun conforms :: "schema \<Rightarrow> jsval \<Rightarrow> bool" where
  "conforms AnyT v = True"
| "conforms NeverT v = False"
| "conforms StrT v = isString v"
| "conforms BoolT v = isBoolean v"
| "conforms (ConstT s) v = (v = Str s)"
| "conforms (EnumT xs) v = stringIn xs v"
| "conforms (ReservedT xs) v = reservedString xs v"
| "conforms CountT v = isCount v"
| "conforms UnitT v = isUnitInterval v"
| "conforms ExtT v = isExtensions v"
| "conforms (ListT s) v = (isArray v \<and> (\<forall>x\<in>set (arrItems v). conforms s x))"
| "conforms (NonEmptyT s) v = (isArray v \<and> arrItems v \<noteq> [] \<and> (\<forall>x\<in>set (arrItems v). conforms s x))"
| "conforms (Rec x fs) v = (isPlainObject v \<and> hasOnlyKeys v (map fst fs) x \<and>
     (\<forall>(k, optional, s)\<in>set fs. optional \<and> getp v k = Undefined \<or> conforms s (getp v k)))"
| "conforms (AltT s t) v = (conforms s v \<or> conforms t v)"

abbreviation req :: "string \<Rightarrow> schema \<Rightarrow> string \<times> bool \<times> schema" where
  "req k s \<equiv> (k, False, s)"

abbreviation opt :: "string \<Rightarrow> schema \<Rightarrow> string \<times> bool \<times> schema" where
  "opt k s \<equiv> (k, True, s)"

definition projectionSchema :: schema where
  "projectionSchema = Rec False [req ''sourceSchema'' (ConstT WOS_APPLICANT_SCHEMA_ID),
     req ''projectionKind'' (EnumT applicantProjectionKinds), opt ''resourceRef'' StrT, opt ''endpoint'' StrT,
     req ''updatedAt'' StrT, opt ''headline'' StrT, opt ''summary'' StrT, opt ''payloadDigest'' StrT,
     opt ''extensions'' ExtT]"

definition trustSchema :: schema where
  "trustSchema = Rec False [req ''storagePosture'' (EnumT storagePostures),
     req ''issuerIsolation'' (EnumT issuerIsolationModes), req ''serverAggregation'' (ConstT ''forbidden''),
     req ''presentationDefault'' (EnumT presentationDefaults), opt ''extensions'' ExtT]"

definition subjectSchema :: schema where
  "subjectSchema = Rec False [req ''subjectRef'' StrT, req ''privacyTier'' (EnumT privacyTiers),
     opt ''assuranceRef'' StrT, opt ''extensions'' ExtT]"

definition issuerSchema :: schema where
  "issuerSchema = Rec False [req ''name'' StrT, opt ''url'' StrT, opt ''identifier'' StrT, opt ''extensions'' ExtT]"

definition definitionRefSchema :: schema where
  "definitionRefSchema = Rec False [req ''url'' StrT, opt ''version'' StrT]"

definition contentRefSchema :: schema where
  "contentRefSchema = Rec False [req ''uri'' StrT, req ''mediaType'' StrT, opt ''sha256'' StrT, opt ''extensions'' ExtT]"

definition obligationSchema :: schema where
  "obligationSchema = Rec False [req ''id'' StrT, req ''issuer'' issuerSchema, req ''title'' StrT,
     opt ''description'' StrT, req ''state'' (EnumT obligationStates), opt ''dueAt'' StrT,
     opt ''formRef'' definitionRefSchema, opt ''submissionRef'' StrT, opt ''extensions'' ExtT]"

definition documentSchema :: schema where
  "documentSchema = Rec False [req ''id'' StrT, req ''kind'' (EnumT respondentDocumentKinds),
     req ''displayName'' StrT, opt ''issuer'' issuerSchema, req ''capturedAt'' StrT, opt ''expiresAt'' StrT,
     req ''contentRef'' contentRefSchema, opt ''sourceSubmissionRef'' StrT,
     opt ''presentationPolicyRef'' StrT, opt ''extensions'' ExtT]"

definition submissionSchema :: schema where
  "submissionSchema = Rec False [req ''id'' StrT, req ''issuer'' issuerSchema,
     req ''definitionRef'' definitionRefSchema, req ''submittedAt'' StrT,
     opt ''applicantStatus'' projectionSchema, opt ''receiptRef'' StrT, opt ''documentRefs'' (ListT StrT),
     opt ''extensions'' ExtT]"

text \<open>
  Only the scope \<open>selected-documents\<close> constrains \<open>documentRefs\<close>; under the other scopes the guard
  admits any value there, which the schema states as \<open>AnyT\<close>.
\<close>

definition presentationSchemaFor :: "schema \<Rightarrow> bool \<Rightarrow> schema \<Rightarrow> schema" where
  "presentationSchemaFor sc optional refs = Rec False [req ''id'' StrT, req ''scope'' sc,
     (''documentRefs'', optional, refs), req ''allowedPurposes'' (NonEmptyT (EnumT presentationPurposes)),
     opt ''recipientIssuer'' issuerSchema, opt ''protocolHints'' (ListT (EnumT presentationProtocols)),
     opt ''expiresAt'' StrT, opt ''extensions'' ExtT]"

definition presentationSchema :: schema where
  "presentationSchema = AltT
     (presentationSchemaFor (ConstT ''selected-documents'') False (NonEmptyT StrT))
     (presentationSchemaFor (EnumT [''all-documents'', ''metadata-only'']) True AnyT)"

definition encryptionSchemaFor :: "string \<Rightarrow> bool \<Rightarrow> schema \<Rightarrow> schema \<Rightarrow> schema" where
  "encryptionSchemaFor m optional derivation keyRef = Rec False [req ''mode'' (ConstT m),
     (''keyDerivation'', optional, derivation), (''recipientKeyRef'', optional, keyRef),
     opt ''cipherSuite'' StrT, opt ''extensions'' ExtT]"

definition encryptionSchema :: schema where
  "encryptionSchema = AltT
     (encryptionSchemaFor ''passkey-hpke'' False (EnumT [''passkey-derived'', ''external-key'']) StrT)
     (encryptionSchemaFor ''none'' True NeverT NeverT)"

definition exportSchema :: schema where
  "exportSchema = Rec False [req ''id'' StrT, req ''format'' (EnumT exportFormats), req ''createdAt'' StrT,
     req ''includes'' (NonEmptyT (EnumT exportIncludes)), opt ''encryption'' encryptionSchema,
     opt ''extensions'' ExtT]"

definition snapshotSchema :: schema where
  "snapshotSchema = Rec True [req ''$formspecRespondentLibrary'' (ConstT ''1.0''), req ''version'' StrT,
     req ''libraryId'' StrT, req ''subject'' subjectSchema, req ''aggregationMode'' (ConstT ''client-wallet''),
     req ''trustModel'' trustSchema, opt ''encryption'' encryptionSchema,
     opt ''obligations'' (ListT obligationSchema), opt ''documents'' (ListT documentSchema),
     opt ''submissions'' (ListT submissionSchema), opt ''presentationPolicies'' (ListT presentationSchema),
     opt ''export'' exportSchema, opt ''extensions'' ExtT]"

text \<open>Each guard is its schema.\<close>

lemma stringIn_Cons [simp]: "stringIn [x] v \<longleftrightarrow> v = Str x"
  by (cases v) (auto simp: stringIn_def)

lemmas guard_defs = isOptional_def isArrayOf_def isOptionalArray_def list_all_iff

lemma issuer_schema: "isIssuerRef = conforms issuerSchema"
  by (rule ext) (simp add: isIssuerRef_def issuerSchema_def guard_defs)

lemma definitionRef_schema: "isDefinitionRef = conforms definitionRefSchema"
  by (rule ext) (simp add: isDefinitionRef_def definitionRefSchema_def guard_defs)

lemma contentRef_schema: "isContentRef = conforms contentRefSchema"
  by (rule ext) (simp add: isContentRef_def contentRefSchema_def guard_defs)

lemma projection_schema: "isApplicantStatusProjection = conforms projectionSchema"
  by (rule ext) (simp add: isApplicantStatusProjection_def projectionSchema_def guard_defs conj_ac)

lemma trust_schema: "isRespondentTrustModel = conforms trustSchema"
  by (rule ext) (simp add: isRespondentTrustModel_def trustSchema_def guard_defs)

lemma subject_schema: "isSubjectBinding = conforms subjectSchema"
  by (rule ext) (simp add: isSubjectBinding_def subjectSchema_def guard_defs)

lemma obligation_schema: "isRespondentObligation = conforms obligationSchema"
  by (rule ext) (simp add: isRespondentObligation_def obligationSchema_def guard_defs issuer_schema definitionRef_schema)

lemma document_schema: "isRespondentDocumentRecord = conforms documentSchema"
  by (rule ext) (simp add: isRespondentDocumentRecord_def documentSchema_def guard_defs issuer_schema contentRef_schema)

lemma submission_schema: "isRespondentSubmissionRecord = conforms submissionSchema"
  by (rule ext) (simp add: isRespondentSubmissionRecord_def submissionSchema_def guard_defs issuer_schema
    definitionRef_schema projection_schema)

lemma presentation_schema: "isPresentationPolicy = conforms presentationSchema"
proof
  fix v
  have "(isString (getp v ''scope'') \<and> strOf (getp v ''scope'') \<in> set presentationScopes) \<longleftrightarrow>
      getp v ''scope'' = Str ''selected-documents'' \<or>
      stringIn [''all-documents'', ''metadata-only''] (getp v ''scope'')"
    by (cases "getp v ''scope''") (simp_all add: presentationScopes_def stringIn_def)
  moreover have "\<not> stringIn [''all-documents'', ''metadata-only''] (Str ''selected-documents'')"
    by (simp add: stringIn_def)
  ultimately show "isPresentationPolicy v = conforms presentationSchema v"
    unfolding isPresentationPolicy_def presentationSchema_def presentationSchemaFor_def
      list_all_iff isArrayOf_def issuer_schema
    by (simp only: conforms.simps fst_conv list.map ball_simps set_simps ball_Un split_def snd_conv) (cases "getp v ''scope'' = Str ''selected-documents''"; simp; blast)
qed

lemma encryption_schema: "isEncryptionEnvelope = conforms encryptionSchema"
proof
  fix v
  have two: "stringIn [a, b] w \<longleftrightarrow> w = Str a \<or> w = Str b" for a b w
    by (cases w) (auto simp: stringIn_def)
  show "isEncryptionEnvelope v = conforms encryptionSchema v"
    by (simp add: isEncryptionEnvelope_def encryptionSchema_def encryptionSchemaFor_def guard_defs two) blast
qed

lemma export_schema: "isExportPackage = conforms exportSchema"
  by (rule ext) (simp add: isExportPackage_def exportSchema_def guard_defs encryption_schema)

lemmas place_schemas = issuer_schema definitionRef_schema contentRef_schema projection_schema trust_schema
  subject_schema obligation_schema document_schema submission_schema presentation_schema encryption_schema
  export_schema

text \<open>The snapshot guard of the respondent's place is exactly its closed schema: a value is
  accepted when every declared member has its declared type, required ones are present, and at
  every depth no undeclared member occurs (at the top level none outside the \<open>x-\<close> names).\<close>

theorem place_snapshot_iff_schema: "isRespondentPlaceSnapshot v \<longleftrightarrow> conforms snapshotSchema v"
proof -
  have "isPlainObject w" if "conforms subjectSchema w \<or> conforms trustSchema w" for w
    using that by (auto simp: subjectSchema_def trustSchema_def)
  then show ?thesis
    unfolding isRespondentPlaceSnapshot_def snapshotSchema_def isOptionalArray_def isArrayOf_def list_all_iff
      place_schemas
    by (simp only: conforms.simps fst_conv list.map ball_simps set_simps split_def snd_conv) auto
qed

text \<open>Which member tells the applicant-status kinds apart.\<close>

lemma hasOnlyKeys_absent:
  assumes "hasOnlyKeys v ks False" "k \<notin> set ks"
  shows "getp v k = Undefined"
proof -
  have "k \<notin> fst ` set (ownProps v)" using assms by (auto simp: hasOnlyKeys_def list_all_iff)
  then show ?thesis by (simp add: getp_ownProps propOf_not_own hasOwn_keys)
qed

definition statusKind :: "jsval \<Rightarrow> nat" where
  "statusKind v = (if getp v ''openTasks'' \<noteq> Undefined then 0
     else if getp v ''items'' \<noteq> Undefined then 1
     else if getp v ''workflowUrl'' \<noteq> Undefined then 2
     else if getp v ''body'' \<noteq> Undefined then 3
     else if getp v ''event'' \<noteq> Undefined then 4
     else if getp v ''agentsInvolved'' \<noteq> Undefined then 5
     else if getp v ''roleInDecision'' \<noteq> Undefined then 6 else 7)"

lemma absent_members:
  assumes "hasOnlyKeys v ks False"
  shows "(''openTasks'' \<notin> set ks \<longrightarrow> getp v ''openTasks'' = Undefined) \<and>
    (''items'' \<notin> set ks \<longrightarrow> getp v ''items'' = Undefined) \<and>
    (''workflowUrl'' \<notin> set ks \<longrightarrow> getp v ''workflowUrl'' = Undefined) \<and>
    (''body'' \<notin> set ks \<longrightarrow> getp v ''body'' = Undefined) \<and>
    (''event'' \<notin> set ks \<longrightarrow> getp v ''event'' = Undefined) \<and>
    (''agentsInvolved'' \<notin> set ks \<longrightarrow> getp v ''agentsInvolved'' = Undefined) \<and>
    (''roleInDecision'' \<notin> set ks \<longrightarrow> getp v ''roleInDecision'' = Undefined)"
  using hasOnlyKeys_absent [OF assms] by blast

lemma present_members:
  "isString u \<Longrightarrow> u \<noteq> Undefined" "isArrayOf p u \<Longrightarrow> u \<noteq> Undefined" "stringIn xs u \<Longrightarrow> u \<noteq> Undefined"
  "reservedString xs u \<Longrightarrow> u \<noteq> Undefined"
  by (auto simp: isArrayOf_def stringIn_def reservedString_def)

lemma kind_detail: "isApplicantCaseDetail v \<Longrightarrow> statusKind v = 0"
  unfolding isApplicantCaseDetail_def by (elim conjE, frule absent_members) (simp add: statusKind_def present_members)

lemma kind_page: "isPageOf p v \<Longrightarrow> statusKind v = 1"
  unfolding isPageOf_def by (elim conjE, frule absent_members) (simp add: statusKind_def present_members)

lemma kind_summary: "isApplicantCaseSummary v \<Longrightarrow> statusKind v = 2"
  unfolding isApplicantCaseSummary_def by (elim conjE, frule absent_members) (simp add: statusKind_def present_members)

lemma kind_notification: "isApplicantNotificationListItem v \<Longrightarrow> statusKind v = 3"
  unfolding isApplicantNotificationListItem_def by (elim conjE, frule absent_members) (simp add: statusKind_def present_members)

lemma kind_timeline: "isApplicantStatusTimelineEntry v \<Longrightarrow> statusKind v = 4"
  unfolding isApplicantStatusTimelineEntry_def by (elim conjE, frule absent_members) (simp add: statusKind_def present_members)

lemma kind_ai: "isApplicantAiInvolvementSummary v \<Longrightarrow> statusKind v = 5"
  unfolding isApplicantAiInvolvementSummary_def by (elim conjE, frule absent_members) (simp add: statusKind_def present_members)

lemma kind_agent: "isApplicantAgentSummary v \<Longrightarrow> statusKind v = 6"
  unfolding isApplicantAgentSummary_def by (elim conjE, frule absent_members) (simp add: statusKind_def present_members)

lemma kind_task: "isApplicantTaskSummary v \<Longrightarrow> statusKind v = 7"
  unfolding isApplicantTaskSummary_def by (elim conjE, frule absent_members) (simp add: statusKind_def present_members)

definition applicantGuards :: "(jsval \<Rightarrow> bool) list" where
  "applicantGuards = [isApplicantCaseDetail, isApplicantCaseSummaryPage, isApplicantTaskPage,
     isApplicantNotificationPage, isApplicantCaseSummary, isApplicantTaskSummary,
     isApplicantNotificationListItem, isApplicantStatusTimelineEntry, isApplicantAiInvolvementSummary,
     isApplicantAgentSummary]"

lemma page_item: "isPageOf p v \<Longrightarrow> getp v ''items'' = Arr (x # xs) \<Longrightarrow> p x"
  by (simp add: isPageOf_def isArrayOf_def)

lemma pages_disjoint:
  assumes "isPageOf p v" "isPageOf q v" "\<And>x. p x \<Longrightarrow> statusKind x = m" "\<And>x. q x \<Longrightarrow> statusKind x = n" "m \<noteq> n"
  shows "getp v ''items'' = Arr []"
proof -
  obtain xs where xs: "getp v ''items'' = Arr xs"
    using assms(1) by (auto simp: isPageOf_def isArrayOf_def isArray_iff)
  then show ?thesis using assms page_item [OF assms(1)] page_item [OF assms(2)] by (cases xs) fastforce+
qed

lemma empty_pages: "getp v ''items'' = Arr [] \<Longrightarrow> isPageOf p v \<longleftrightarrow> isPageOf q v"
  by (simp add: isPageOf_def isArrayOf_def)

lemmas status_kinds = kind_detail kind_summary kind_notification kind_timeline kind_ai kind_agent kind_task

text \<open>The applicant-status union is unambiguous: an accepted value is accepted by exactly one of
  the ten guards, except an empty page, which all three page guards accept.\<close>

theorem status_resource_unambiguous:
  assumes "isApplicantStatusResource v"
  shows "length (filter (\<lambda>g. g v) applicantGuards) = (if getp v ''items'' = Arr [] then 3 else 1)"
proof (cases "statusKind v = 1")
  case True
  have n: "\<not> isApplicantCaseDetail v" "\<not> isApplicantCaseSummary v" "\<not> isApplicantTaskSummary v"
    "\<not> isApplicantNotificationListItem v" "\<not> isApplicantStatusTimelineEntry v"
    "\<not> isApplicantAiInvolvementSummary v" "\<not> isApplicantAgentSummary v"
    using True status_kinds [of v] by auto
  have d: "getp v ''items'' = Arr []"
    if "isApplicantCaseSummaryPage v \<and> isApplicantTaskPage v \<or>
        isApplicantCaseSummaryPage v \<and> isApplicantNotificationPage v \<or>
        isApplicantTaskPage v \<and> isApplicantNotificationPage v"
    using that pages_disjoint [OF _ _ kind_summary kind_task] pages_disjoint [OF _ _ kind_summary kind_notification]
      pages_disjoint [OF _ _ kind_task kind_notification]
    by (auto simp: isApplicantCaseSummaryPage_def isApplicantTaskPage_def isApplicantNotificationPage_def)
  show ?thesis
  proof (cases "getp v ''items'' = Arr []")
    case True
    with assms n show ?thesis
      using empty_pages [OF True, of isApplicantCaseSummary isApplicantTaskSummary]
        empty_pages [OF True, of isApplicantCaseSummary isApplicantNotificationListItem]
      by (simp add: applicantGuards_def isApplicantStatusResource_def isApplicantCaseSummaryPage_def
          isApplicantTaskPage_def isApplicantNotificationPage_def)
  next
    case False
    with assms n d show ?thesis
      by (auto simp: applicantGuards_def isApplicantStatusResource_def)
  qed
next
  case False
  have p: "\<not> isApplicantCaseSummaryPage v" "\<not> isApplicantTaskPage v" "\<not> isApplicantNotificationPage v"
    using False kind_page [of _ v] 
    by (auto simp: isApplicantCaseSummaryPage_def isApplicantTaskPage_def isApplicantNotificationPage_def)
  have items: "getp v ''items'' \<noteq> Arr []"
  proof (cases "isApplicantCaseDetail v")
    case True
    then have "getp v ''items'' = Undefined"
      using absent_members by (fastforce simp: isApplicantCaseDetail_def)
    then show ?thesis by simp
  next
    case no_detail: False
    then have "statusKind v \<noteq> 0" using assms p status_kinds [of v] by (auto simp: isApplicantStatusResource_def)
    with False show ?thesis by (auto simp: statusKind_def split: if_splits)
  qed
  from assms p have "isApplicantCaseDetail v \<or> isApplicantCaseSummary v \<or> isApplicantTaskSummary v \<or>
      isApplicantNotificationListItem v \<or> isApplicantStatusTimelineEntry v \<or>
      isApplicantAiInvolvementSummary v \<or> isApplicantAgentSummary v"
    by (simp add: isApplicantStatusResource_def)
  then show ?thesis
    using items p status_kinds [of v] by (elim disjE; simp add: applicantGuards_def; fastforce)
qed

theorem status_resource_unambiguous_witness:
  "\<exists>v. isApplicantStatusResource v \<and> length (filter (\<lambda>g. g v) applicantGuards) = 1"
proof -
  let ?v = "Obj [(''displayName'', Str ''Assistant''), (''roleInDecision'', Str ''advisory'')]"
  have r: "isApplicantStatusResource ?v" by code_simp
  from status_resource_unambiguous [OF r] r show ?thesis by (intro exI [of _ ?v]) simp
qed

end
