(* ===== verification/Identity.thy ===== *)
theory Identity
  imports Prelude
begin

text \<open>
  Identity: the \<open>IdentityProvider\<close> port (\<open>src/ports/identity-provider.ts\<close>), the session and
  assurance helpers (\<open>src/adapters/identity/assurance.ts\<close>), the in-memory provider
  (\<open>src/adapters/stub/identity-provider.ts\<close>), the composing provider
  (\<open>src/adapters/composing/identity-provider.ts\<close>) and the identity policy of
  \<open>src/app/respondent-flow.ts\<close>. A wrapped provider is the record \<open>idp\<close> of its calls over a
  private state; the providers of a composite share one state type. A listener is a number, the
  calls it received are logged. The random suffix of a generated subject reference is an argument.
\<close>

section \<open>Claims, options and assurance\<close>

datatype AssuranceLevel = L1 | L2 | L3 | L4

fun assuranceRank :: "AssuranceLevel \<Rightarrow> nat" where
  "assuranceRank L1 = 1"
| "assuranceRank L2 = 2"
| "assuranceRank L3 = 3"
| "assuranceRank L4 = 4"

record nist_assurance =
  ial :: "string option"
  aal :: "string option"
  fal :: "string option"

record IdentityClaim =
  claimProvider :: string
  claimAdapter :: string
  subjectRef :: string
  did :: "string option"
  verificationMethod :: "string option"
  credentialType :: string
  credentialRef :: "string option"
  personhoodCheck :: "string option"
  subjectBinding :: string
  assuranceLevel :: AssuranceLevel
  privacyTier :: "string option"
  selectiveDisclosureProfile :: "string option"
  evidenceRef :: "string option"
  expiresAt :: "string option"
  nistAssurance :: "nist_assurance option"

datatype IdpOption =
    MagicLink string AssuranceLevel \<comment> \<open>\<open>channel\<close>, \<open>minAssurance\<close>\<close>
  | Oidc string string AssuranceLevel \<comment> \<open>\<open>issuer\<close>, \<open>displayName\<close>, \<open>minAssurance\<close>\<close>
  | AnonymousOption

fun minAssurance :: "IdpOption \<Rightarrow> AssuranceLevel" where
  "minAssurance (MagicLink c m) = m"
| "minAssurance (Oidc i d m) = m"
| "minAssurance AnonymousOption = L1"

definition meetsAssurance :: "AssuranceLevel \<Rightarrow> AssuranceLevel option \<Rightarrow> bool" where
  "meetsAssurance actual required = (case required of None \<Rightarrow> True
     | Some r \<Rightarrow> assuranceRank actual \<ge> assuranceRank r)"

instantiation AssuranceLevel :: linorder
begin

definition less_eq_AssuranceLevel :: "AssuranceLevel \<Rightarrow> AssuranceLevel \<Rightarrow> bool" where
  "less_eq_AssuranceLevel a b = (assuranceRank a \<le> assuranceRank b)"

definition less_AssuranceLevel :: "AssuranceLevel \<Rightarrow> AssuranceLevel \<Rightarrow> bool" where
  "less_AssuranceLevel a b = (assuranceRank a < assuranceRank b)"

instance
proof
  fix a b c :: AssuranceLevel
  show "a < b \<longleftrightarrow> a \<le> b \<and> \<not> b \<le> a"
    by (auto simp: less_eq_AssuranceLevel_def less_AssuranceLevel_def)
  show "a \<le> a" by (simp add: less_eq_AssuranceLevel_def)
  show "a \<le> b \<Longrightarrow> b \<le> c \<Longrightarrow> a \<le> c" by (simp add: less_eq_AssuranceLevel_def)
  show "a \<le> b \<Longrightarrow> b \<le> a \<Longrightarrow> a = b"
    by (cases a; cases b) (simp_all add: less_eq_AssuranceLevel_def)
  show "a \<le> b \<or> b \<le> a" by (auto simp: less_eq_AssuranceLevel_def)
qed

end

lemma assuranceRank_le [simp]: "assuranceRank a \<le> assuranceRank b \<longleftrightarrow> a \<le> b"
  by (simp add: less_eq_AssuranceLevel_def)

lemma L1_least [simp]: "L1 \<le> a"
  by (cases a) (simp_all add: less_eq_AssuranceLevel_def)

lemma meetsAssurance_simps [simp]:
  "meetsAssurance a None" "meetsAssurance a (Some r) \<longleftrightarrow> r \<le> a"
  by (simp_all add: meetsAssurance_def)


section \<open>Sessions\<close>

record session =
  current :: "IdentityClaim option"
  listeners :: "nat list"
  calls :: "(nat \<times> IdentityClaim option) list"

definition emptySession :: session where
  "emptySession = \<lparr>current = None, listeners = [], calls = []\<rparr>"

definition sessionSet :: "IdentityClaim option \<Rightarrow> session \<Rightarrow> session" where
  "sessionSet claim s = s\<lparr>current := claim, calls := calls s @ map (\<lambda>l. (l, claim)) (listeners s)\<rparr>"

definition sessionSubscribe :: "nat \<Rightarrow> session \<Rightarrow> session" where
  "sessionSubscribe l s =
     s\<lparr>listeners := (if l \<in> set (listeners s) then listeners s else listeners s @ [l]),
       calls := calls s @ [(l, current s)]\<rparr>"

definition sessionUnsubscribe :: "nat \<Rightarrow> session \<Rightarrow> session" where
  "sessionUnsubscribe l s = s\<lparr>listeners := remove1 l (listeners s)\<rparr>"

inductive session_reach :: "session \<Rightarrow> bool" where
  init: "session_reach emptySession"
| set_claim: "session_reach s \<Longrightarrow> session_reach (sessionSet c s)"
| subscribe: "session_reach s \<Longrightarrow> session_reach (sessionSubscribe l s)"
| unsubscribe: "session_reach s \<Longrightarrow> session_reach (sessionUnsubscribe l s)"

text \<open>The claims a listener was called with, in order.\<close>

definition heard :: "session \<Rightarrow> nat \<Rightarrow> IdentityClaim option list" where
  "heard s l = map snd (filter (\<lambda>c. fst c = l) (calls s))"

lemma heard_append: "heard (s\<lparr>calls := calls s @ xs\<rparr>) l = heard s l @ map snd (filter (\<lambda>c. fst c = l) xs)"
  by (simp add: heard_def)

lemma heard_set:
  "distinct (listeners s) \<Longrightarrow>
     heard (sessionSet c s) l = heard s l @ (if l \<in> set (listeners s) then [c] else [])"
proof -
  have "map snd (filter (\<lambda>p. fst p = l) (map (\<lambda>l. (l, c)) ls)) = (if l \<in> set ls then [c] else [])"
    if "distinct ls" for ls
    using that by (induction ls) auto
  then show "distinct (listeners s) \<Longrightarrow> ?thesis" by (simp add: heard_def sessionSet_def)
qed

lemma session_distinct: "session_reach s \<Longrightarrow> distinct (listeners s)"
  by (induction rule: session_reach.induct)
    (auto simp: emptySession_def sessionSet_def sessionSubscribe_def sessionUnsubscribe_def)

text \<open>Every subscribed listener knows the session: in each reachable state the last call a
  current subscriber received carried the current claim.\<close>

theorem session_subscribers_current:
  assumes "session_reach s" "l \<in> set (listeners s)"
  shows "heard s l \<noteq> [] \<and> last (heard s l) = current s"
  using assms
proof (induction rule: session_reach.induct)
  case init
  then show ?case by (simp add: emptySession_def)
next
  case (set_claim s c)
  then show ?case using heard_set [OF session_distinct [OF set_claim(1)]] by (simp add: sessionSet_def)
next
  case (subscribe s k)
  then show ?case by (cases "k = l") (auto simp: sessionSubscribe_def heard_def split: if_splits)
next
  case (unsubscribe s k)
  then have "l \<in> set (listeners s)" by (auto simp: sessionUnsubscribe_def dest: set_remove1_subset [THEN subsetD])
  with unsubscribe show ?case by (simp add: sessionUnsubscribe_def heard_def)
qed

definition anonymousClaim :: IdentityClaim where
  "anonymousClaim = \<lparr>claimProvider = ''stub-anonymous'', claimAdapter = ''stub-identity-provider@0'',
     subjectRef = ''stub-1'', did = None, verificationMethod = None, credentialType = ''other'',
     credentialRef = None, personhoodCheck = None, subjectBinding = ''respondent'', assuranceLevel = L1,
     privacyTier = Some ''anonymous'', selectiveDisclosureProfile = None, evidenceRef = None,
     expiresAt = None, nistAssurance = None\<rparr>"

theorem session_subscribers_current_witness:
  "last (heard (sessionSet (Some anonymousClaim) (sessionSubscribe 7 emptySession)) 7) = Some anonymousClaim"
proof -
  let ?s = "sessionSet (Some anonymousClaim) (sessionSubscribe 7 emptySession)"
  have "session_reach ?s" by (intro session_reach.intros)
  moreover have "7 \<in> set (listeners ?s)" by (simp add: sessionSet_def sessionSubscribe_def emptySession_def)
  ultimately show ?thesis
    using session_subscribers_current [of ?s 7] by (simp add: sessionSet_def)
qed

section \<open>Providers\<close>

record ('s, 'e) idp =
  discoverOp :: "AssuranceLevel option \<Rightarrow> 's \<Rightarrow> ('e + IdpOption list) \<times> 's"
  authenticateOp :: "IdpOption \<Rightarrow> 's \<Rightarrow> ('e + IdentityClaim) \<times> 's"
  revokeOp :: "IdentityClaim \<Rightarrow> 's \<Rightarrow> ('e + unit) \<times> 's"

text \<open>
  What the runtime relies on: under a floor a provider only offers options that meet it, and a
  claim obtained through an option just offered is at least as strong as that option.
\<close>

locale identity_provider =
  fixes discover :: "AssuranceLevel option \<Rightarrow> 's \<Rightarrow> ('e + IdpOption list) \<times> 's"
    and authenticate :: "IdpOption \<Rightarrow> 's \<Rightarrow> ('f + IdentityClaim) \<times> 's"
    and inv :: "'s \<Rightarrow> bool"
  assumes discover_inv: "inv s \<Longrightarrow> inv (snd (discover needs s))"
    and discover_floor: "inv s \<Longrightarrow> discover needs s = (Inr os, s') \<Longrightarrow> opt \<in> set os \<Longrightarrow>
      meetsAssurance (minAssurance opt) needs"
    and authenticate_inv: "inv s \<Longrightarrow> inv (snd (authenticate opt s))"
    and authenticate_assurance: "inv s \<Longrightarrow> discover needs s = (Inr os, s1) \<Longrightarrow> opt \<in> set os \<Longrightarrow>
      authenticate opt s1 = (Inr c, s') \<Longrightarrow> minAssurance opt \<le> assuranceLevel c"
begin

lemma step_up:
  assumes "inv s" "discover needs s = (Inr os, s1)" "opt \<in> set os" "authenticate opt s1 = (Inr c, s2)"
  shows "inv s2 \<and> meetsAssurance (assuranceLevel c) needs"
proof -
  have i: "inv s1" using discover_inv [OF assms(1), of needs] assms(2) by simp
  have "minAssurance opt \<le> assuranceLevel c" using authenticate_assurance [OF assms] .
  moreover have "meetsAssurance (minAssurance opt) needs" using discover_floor [OF assms(1-3)] .
  ultimately show ?thesis
    using authenticate_inv [OF i, of opt] assms(4) by (cases needs) auto
qed

end

text \<open>The in-memory provider.\<close>

definition stubOptions :: "IdpOption list" where
  "stubOptions = [AnonymousOption,
     Oidc ''https://stub-idp.example.test'' ''Stub high assurance identity'' L3]"

definition claimForOption :: "string \<Rightarrow> IdpOption \<Rightarrow> IdentityClaim" where
  "claimForOption nonce opt = (case opt of
     AnonymousOption \<Rightarrow> anonymousClaim\<lparr>subjectRef := ''stub-'' @ nonce\<rparr>
   | Oidc issuer displayName m \<Rightarrow>
       anonymousClaim\<lparr>claimProvider := issuer, subjectRef := ''stub-oidc-'' @ nonce,
         credentialType := ''oidc-token'', credentialRef := Some ''stub:credential'', assuranceLevel := m,
         privacyTier := Some ''pseudonymous'', evidenceRef := Some ''stub:evidence:l3''\<rparr>
   | MagicLink c m \<Rightarrow>
       anonymousClaim\<lparr>claimProvider := ''stub-magic-link'', subjectRef := ''stub-magic-'' @ nonce,
         credentialType := ''provider-assertion'', credentialRef := Some ''stub:magic-link'',
         assuranceLevel := m, privacyTier := Some ''pseudonymous''\<rparr>)"

definition stubDiscover :: "AssuranceLevel option \<Rightarrow> session \<Rightarrow> (string + IdpOption list) \<times> session" where
  "stubDiscover needs s = (case needs of
     None \<Rightarrow> (Inr stubOptions, s)
   | Some r \<Rightarrow> (Inr (filter (\<lambda>opt. assuranceRank (minAssurance opt) \<ge> assuranceRank r) stubOptions), s))"

definition stubAuthenticate :: "string \<Rightarrow> IdpOption \<Rightarrow> session \<Rightarrow> (string + IdentityClaim) \<times> session" where
  "stubAuthenticate nonce opt s =
     (let claim = claimForOption nonce opt in (Inr claim, sessionSet (Some claim) s))"

definition stubRevoke :: "IdentityClaim \<Rightarrow> session \<Rightarrow> (string + unit) \<times> session" where
  "stubRevoke claim s = (Inr (), sessionSet None s)"

definition stubIdentityProvider :: "string \<Rightarrow> (session, string) idp" where
  "stubIdentityProvider nonce = \<lparr>discoverOp = stubDiscover, authenticateOp = stubAuthenticate nonce,
     revokeOp = stubRevoke\<rparr>"

lemma claimForOption_level [simp]: "assuranceLevel (claimForOption nonce opt) = minAssurance opt"
  by (cases opt) (simp_all add: claimForOption_def anonymousClaim_def)

interpretation stubIdp: identity_provider stubDiscover "stubAuthenticate nonce" session_reach
  by unfold_locales
    (auto simp: stubDiscover_def stubAuthenticate_def Let_def intro: session_reach.intros split: option.splits)


section \<open>The composing provider\<close>

datatype 'e composite_error = NoOwner | Rejected 'e

record 's composite =
  wrapped :: "'s list"
  optionOwnerCache :: "(string \<rightharpoonup> nat) option"
  claimOwnerCache :: "string \<rightharpoonup> nat"

fun optionKey :: "IdpOption \<Rightarrow> string" where
  "optionKey (Oidc i d m) = ''oidc:'' @ i"
| "optionKey (MagicLink c m) = ''magic-link:'' @ c"
| "optionKey AnonymousOption = ''anonymous''"

text \<open>The inner loop of \<open>discover\<close> over one provider's offer, and the outer one over the settled calls.\<close>

fun addOffered :: "nat \<Rightarrow> IdpOption list \<Rightarrow> (string \<rightharpoonup> nat) \<times> IdpOption list \<Rightarrow> (string \<rightharpoonup> nat) \<times> IdpOption list" where
  "addOffered i [] acc = acc"
| "addOffered i (opt # opts) (cache, result) =
     (if cache (optionKey opt) \<noteq> None then addOffered i opts (cache, result)
      else addOffered i opts (cache(optionKey opt \<mapsto> i), result @ [opt]))"

fun collectOffers :: "nat \<Rightarrow> ('e + IdpOption list) list \<Rightarrow> (string \<rightharpoonup> nat) \<times> IdpOption list \<Rightarrow> (string \<rightharpoonup> nat) \<times> IdpOption list" where
  "collectOffers i [] acc = acc"
| "collectOffers i (Inl e # settled) acc = collectOffers (Suc i) settled acc"
| "collectOffers i (Inr offered # settled) acc = collectOffers (Suc i) settled (addOffered i offered acc)"

definition settleDiscover :: "('s, 'e) idp list \<Rightarrow> AssuranceLevel option \<Rightarrow> 's list \<Rightarrow> (('e + IdpOption list) \<times> 's) list" where
  "settleDiscover ps needs ss = map2 (\<lambda>p. discoverOp p needs) ps ss"

definition compositeDiscover :: "('s, 'e) idp list \<Rightarrow> AssuranceLevel option \<Rightarrow> 's composite \<Rightarrow> ('e composite_error + IdpOption list) \<times> 's composite" where
  "compositeDiscover ps needs c =
     (let settled = settleDiscover ps needs (wrapped c);
          (cache, result) = collectOffers 0 (map fst settled) (Map.empty, [])
      in (Inr result, c\<lparr>wrapped := map snd settled, optionOwnerCache := Some cache\<rparr>))"

definition ownerFor :: "('s, 'e) idp list \<Rightarrow> IdpOption \<Rightarrow> 's composite \<Rightarrow> nat option \<times> 's composite" where
  "ownerFor ps opt c =
     (let c1 = (if optionOwnerCache c = None then snd (compositeDiscover ps None c) else c)
      in (case optionOwnerCache c1 of None \<Rightarrow> None | Some cache \<Rightarrow> cache (optionKey opt), c1))"

definition compositeAuthenticate :: "('s, 'e) idp list \<Rightarrow> IdpOption \<Rightarrow> 's composite \<Rightarrow> ('e composite_error + IdentityClaim) \<times> 's composite" where
  "compositeAuthenticate ps opt c = (case ownerFor ps opt c of
     (None, c1) \<Rightarrow> (Inl NoOwner, c1)
   | (Some i, c1) \<Rightarrow>
      (case authenticateOp (ps ! i) opt (wrapped c1 ! i) of
         (Inl e, s) \<Rightarrow> (Inl (Rejected e), c1\<lparr>wrapped := (wrapped c1)[i := s]\<rparr>)
       | (Inr claim, s) \<Rightarrow> (Inr claim, c1\<lparr>wrapped := (wrapped c1)[i := s],
           claimOwnerCache := (claimOwnerCache c1)(subjectRef claim \<mapsto> i)\<rparr>)))"

definition compositeRevoke :: "('s, 'e) idp list \<Rightarrow> IdentityClaim \<Rightarrow> 's composite \<Rightarrow> ('e composite_error + unit) \<times> 's composite" where
  "compositeRevoke ps claim c = (case claimOwnerCache c (subjectRef claim) of
     Some i \<Rightarrow>
       (let c1 = c\<lparr>claimOwnerCache := (claimOwnerCache c)(subjectRef claim := None)\<rparr>
        in case revokeOp (ps ! i) claim (wrapped c1 ! i) of
             (Inl e, s) \<Rightarrow> (Inl (Rejected e), c1\<lparr>wrapped := (wrapped c1)[i := s]\<rparr>)
           | (Inr _, s) \<Rightarrow> (Inr (), c1\<lparr>wrapped := (wrapped c1)[i := s]\<rparr>))
   | None \<Rightarrow> (Inr (), c\<lparr>wrapped := map snd (map2 (\<lambda>p. revokeOp p claim) ps (wrapped c))\<rparr>))"

definition createCompositeIdentityProvider :: "'s list \<Rightarrow> 's composite" where
  "createCompositeIdentityProvider ss = \<lparr>wrapped = ss, optionOwnerCache = None, claimOwnerCache = Map.empty\<rparr>"

text \<open>
  What the loops keep: the cache's keys are the keys of the result, each collected option was
  offered by the provider the cache names, and no earlier provider offered its key.
\<close>

definition offered :: "('e + IdpOption list) list \<Rightarrow> nat \<Rightarrow> IdpOption list" where
  "offered settled j = (case settled ! j of Inl _ \<Rightarrow> [] | Inr os \<Rightarrow> os)"

definition collected :: "(nat \<Rightarrow> IdpOption list) \<Rightarrow> nat \<Rightarrow> (string \<rightharpoonup> nat) \<times> IdpOption list \<Rightarrow> bool" where
  "collected off i acc \<longleftrightarrow>
     dom (fst acc) = optionKey ` set (snd acc) \<and> distinct (map optionKey (snd acc)) \<and>
     (\<forall>opt\<in>set (snd acc). \<exists>j<i. fst acc (optionKey opt) = Some j \<and> opt \<in> set (off j) \<and>
        (\<forall>k<j. optionKey opt \<notin> optionKey ` set (off k)))"

lemma addOffered_keeps:
  "fst acc k = Some j \<Longrightarrow> fst (addOffered i os acc) k = Some j"
  by (induction i os acc rule: addOffered.induct) (auto, metis option.distinct(1))

lemma addOffered_mono: "set (snd acc) \<subseteq> set (snd (addOffered i os acc))"
  by (induction i os acc rule: addOffered.induct) auto

lemma addOffered_covers: "opt \<in> set os \<Longrightarrow> fst (addOffered i os acc) (optionKey opt) \<noteq> None"
proof (induction i os acc rule: addOffered.induct)
  case (2 i opt' opts cache result)
  show ?case
  proof (cases "cache (optionKey opt') = None")
    case True
    then show ?thesis
      using 2 addOffered_keeps [of "(cache(optionKey opt' \<mapsto> i), result @ [opt'])" "optionKey opt'" i i opts]
      by auto
  next
    case False
    then obtain j where "cache (optionKey opt') = Some j" by auto
    then show ?thesis
      using 2 False addOffered_keeps [of "(cache, result)" "optionKey opt'" j i opts] by auto
  qed
qed simp

lemma addOffered_collected:
  assumes "collected off (Suc i) acc" "set os \<subseteq> set (off i)"
    and "\<forall>k<i. \<forall>opt\<in>set (off k). fst acc (optionKey opt) \<noteq> None"
  shows "collected off (Suc i) (addOffered i os acc)"
  using assms
proof (induction i os acc rule: addOffered.induct)
  case (2 i opt opts cache result)
  show ?case
  proof (cases "cache (optionKey opt) = None")
    case False
    with 2 show ?thesis by simp
  next
    case True
    let ?acc = "(cache(optionKey opt \<mapsto> i), result @ [opt])"
    have "\<forall>k<i. optionKey opt \<notin> optionKey ` set (off k)" using 2(5) True by force
    moreover have "optionKey opt \<notin> optionKey ` set result"
      using 2(3) True by (auto simp: collected_def domIff)
    moreover have "optionKey o' \<noteq> optionKey opt" if "o' \<in> set result" for o'
      using that \<open>optionKey opt \<notin> optionKey ` set result\<close> by (metis imageI)
    ultimately have "collected off (Suc i) ?acc"
      using 2(3,4) by (auto simp: collected_def)
    moreover have "\<forall>k<i. \<forall>o'\<in>set (off k). fst ?acc (optionKey o') \<noteq> None" using 2(5) by auto
    ultimately show ?thesis using 2(2) True 2(4) by simp
  qed
qed simp

lemma collectOffers_collected:
  assumes "full = pre @ settled" "i = length pre" "collected (offered full) i acc"
    and "\<forall>k<i. \<forall>opt\<in>set (offered full k). fst acc (optionKey opt) \<noteq> None"
  shows "collected (offered full) (length full) (collectOffers i settled acc) \<and>
    (\<forall>k<length full. \<forall>opt\<in>set (offered full k). fst (collectOffers i settled acc) (optionKey opt) \<noteq> None)"
  using assms
proof (induction i settled acc arbitrary: pre rule: collectOffers.induct)
  case (1 i acc)
  then show ?case by simp
next
  case (2 i e settled acc)
  have "offered full i = []" using 2(2,3) by (simp add: offered_def)
  moreover have "collected (offered full) (Suc i) acc"
    using 2(4) unfolding collected_def by (meson less_SucI)
  ultimately show ?case using 2(1) [of "pre @ [Inl e]"] 2(2,3,5) by (auto simp: less_Suc_eq)
next
  case (3 i os settled acc)
  have o: "offered full i = os" using 3(2,3) by (simp add: offered_def)
  have "collected (offered full) (Suc i) acc" using 3(4) unfolding collected_def by (meson less_SucI)
  then have "collected (offered full) (Suc i) (addOffered i os acc)"
    using 3(5) o by (intro addOffered_collected) auto
  moreover have "fst (addOffered i os acc) (optionKey opt) \<noteq> None"
    if k: "k < Suc i" "opt \<in> set (offered full k)" for k opt
  proof (cases "k = i")
    case True
    with k o show ?thesis by (intro addOffered_covers) simp
  next
    case False
    with k have "fst acc (optionKey opt) \<noteq> None" using 3(5) by (simp add: less_Suc_eq)
    then obtain j where "fst acc (optionKey opt) = Some j" by blast
    then show ?thesis by (simp add: addOffered_keeps)
  qed
  ultimately show ?case using 3(1) [of "pre @ [Inr os]"] 3(2,3) by simp
qed

lemma collectOffers_start:
  "collected (offered settled) (length settled) (collectOffers 0 settled (Map.empty, []))"
  "k < length settled \<Longrightarrow> opt \<in> set (offered settled k) \<Longrightarrow>
     fst (collectOffers 0 settled (Map.empty, [])) (optionKey opt) \<noteq> None"
  using collectOffers_collected [of settled "[]" settled 0 "(Map.empty, [])"] by (auto simp: collected_def)

text \<open>What a wrapped provider offers under a floor; a provider whose call fails offers nothing.\<close>

definition offeredBy :: "('s, 'e) idp list \<Rightarrow> AssuranceLevel option \<Rightarrow> 's list \<Rightarrow> nat \<Rightarrow> IdpOption list" where
  "offeredBy ps needs ss j = (case fst (discoverOp (ps ! j) needs (ss ! j)) of Inl _ \<Rightarrow> [] | Inr os \<Rightarrow> os)"

lemma offered_settle:
  "length ss = length ps \<Longrightarrow> j < length ps \<Longrightarrow>
     offered (map fst (settleDiscover ps needs ss)) j = offeredBy ps needs ss j"
  by (simp add: offered_def offeredBy_def settleDiscover_def)

lemma length_settle [simp]: "length ss = length ps \<Longrightarrow> length (settleDiscover ps needs ss) = length ps"
  by (simp add: settleDiscover_def)

lemma compositeDiscover_result:
  assumes "length (wrapped c) = length ps"
  obtains cache result where "compositeDiscover ps needs c = (Inr result,
      c\<lparr>wrapped := map snd (settleDiscover ps needs (wrapped c)), optionOwnerCache := Some cache\<rparr>)"
    "collected (offeredBy ps needs (wrapped c)) (length ps) (cache, result)"
    "\<And>k opt. k < length ps \<Longrightarrow> opt \<in> set (offeredBy ps needs (wrapped c) k) \<Longrightarrow> cache (optionKey opt) \<noteq> None"
proof -
  let ?settled = "map fst (settleDiscover ps needs (wrapped c))"
  obtain cache result where acc: "collectOffers 0 ?settled (Map.empty, []) = (cache, result)"
    by (cases "collectOffers 0 ?settled (Map.empty, [])")
  have "collected (offeredBy ps needs (wrapped c)) (length ps) (cache, result)"
    using collectOffers_start(1) [of ?settled] acc offered_settle [OF assms]
    by (auto simp: collected_def assms)
  moreover have "cache (optionKey opt) \<noteq> None"
    if "k < length ps" "opt \<in> set (offeredBy ps needs (wrapped c) k)" for k opt
    using collectOffers_start(2) [of k ?settled opt] acc that offered_settle [OF assms] by (simp add: assms)
  ultimately show ?thesis
    using that [of result cache] acc by (simp add: compositeDiscover_def Let_def)
qed

text \<open>The composing provider routes an option to the first provider that offered it: of the
  options a discovery returned, each is owned by a wrapped provider that offered exactly this
  option under the same floor, no earlier provider offered its key, and no two options of the
  result share a key; every key a healthy provider offers is in the result.\<close>

theorem composite_routes_to_first_offerer:
  assumes "length (wrapped c) = length ps" "compositeDiscover ps needs c = (Inr os, c1)"
  shows "(\<forall>opt\<in>set os. \<exists>i<length ps. ownerFor ps opt c1 = (Some i, c1) \<and>
      opt \<in> set (offeredBy ps needs (wrapped c) i) \<and>
      (\<forall>k<i. optionKey opt \<notin> optionKey ` set (offeredBy ps needs (wrapped c) k))) \<and>
    distinct (map optionKey os) \<and>
    optionKey ` set os = (\<Union>k<length ps. optionKey ` set (offeredBy ps needs (wrapped c) k))"
proof -
  obtain result cache where r: "compositeDiscover ps needs c = (Inr result,
      c\<lparr>wrapped := map snd (settleDiscover ps needs (wrapped c)), optionOwnerCache := Some cache\<rparr>)"
    "collected (offeredBy ps needs (wrapped c)) (length ps) (cache, result)"
    "\<And>k opt. k < length ps \<Longrightarrow> opt \<in> set (offeredBy ps needs (wrapped c) k) \<Longrightarrow> cache (optionKey opt) \<noteq> None"
    by (rule compositeDiscover_result [OF assms(1), of needs]) (erule that, assumption, blast)
  have e: "os = result" "optionOwnerCache c1 = Some cache" using assms(2) r(1) by auto
  have owner: "ownerFor ps opt c1 = (cache (optionKey opt), c1)" for opt
    using e(2) by (simp add: ownerFor_def Let_def)
  have routed: "\<exists>i<length ps. ownerFor ps opt c1 = (Some i, c1) \<and>
      opt \<in> set (offeredBy ps needs (wrapped c) i) \<and>
      (\<forall>k<i. optionKey opt \<notin> optionKey ` set (offeredBy ps needs (wrapped c) k))" if "opt \<in> set os" for opt
  proof -
    from r(2) that e(1) obtain i where "i < length ps" "cache (optionKey opt) = Some i"
      "opt \<in> set (offeredBy ps needs (wrapped c) i)"
      "\<forall>k<i. optionKey opt \<notin> optionKey ` set (offeredBy ps needs (wrapped c) k)"
      unfolding collected_def by fastforce
    then show ?thesis unfolding owner by blast
  qed
  have keys: "optionKey ` set os = (\<Union>k<length ps. optionKey ` set (offeredBy ps needs (wrapped c) k))"
  proof (intro equalityI subsetI)
    fix key assume "key \<in> optionKey ` set os"
    then obtain opt where opt: "opt \<in> set os" "key = optionKey opt" by blast
    then obtain i where "i < length ps" "opt \<in> set (offeredBy ps needs (wrapped c) i)" using routed by blast
    with opt(2) show "key \<in> (\<Union>k<length ps. optionKey ` set (offeredBy ps needs (wrapped c) k))" by blast
  next
    fix key assume "key \<in> (\<Union>k<length ps. optionKey ` set (offeredBy ps needs (wrapped c) k))"
    then obtain k opt where "k < length ps" "opt \<in> set (offeredBy ps needs (wrapped c) k)" "key = optionKey opt" by auto
    then have "key \<in> dom cache" using r(3) by auto
    then show "key \<in> optionKey ` set os" using r(2) e(1) by (simp add: collected_def)
  qed
  have "distinct (map optionKey os)" using r(2) e(1) by (simp add: collected_def)
  with routed keys show ?thesis by blast
qed

theorem composite_routes_to_first_offerer_witness:
  "\<exists>os c1. compositeDiscover [stubIdentityProvider ''a'', stubIdentityProvider ''b''] (Some L2)
      (createCompositeIdentityProvider [emptySession, emptySession]) = (Inr os, c1) \<and>
    distinct (map optionKey os) \<and> (\<forall>opt\<in>set os. \<exists>i<2.
      ownerFor [stubIdentityProvider ''a'', stubIdentityProvider ''b''] opt c1 = (Some i, c1))"
proof -
  let ?ps = "[stubIdentityProvider ''a'', stubIdentityProvider ''b'']"
  let ?c = "createCompositeIdentityProvider [emptySession, emptySession]"
  obtain os c1 where d: "compositeDiscover ?ps (Some L2) ?c = (Inr os, c1)"
    by (cases "compositeDiscover ?ps (Some L2) ?c") (auto simp: compositeDiscover_def Let_def split: prod.splits)
  have "length (wrapped ?c) = length ?ps" by (simp add: createCompositeIdentityProvider_def)
  from composite_routes_to_first_offerer [OF this d] d show ?thesis by fastforce
qed

text \<open>The composite of lawful providers is lawful.\<close>

definition compositeInv :: "nat \<Rightarrow> ('s \<Rightarrow> bool) \<Rightarrow> 's composite \<Rightarrow> bool" where
  "compositeInv n pinv c \<longleftrightarrow> length (wrapped c) = n \<and> (\<forall>s\<in>set (wrapped c). pinv s) \<and>
     (\<forall>cache key i. optionOwnerCache c = Some cache \<longrightarrow> cache key = Some i \<longrightarrow> i < n) \<and>
     (\<forall>key i. claimOwnerCache c key = Some i \<longrightarrow> i < n)"

locale composite_provider =
  fixes ps :: "('s, 'e) idp list" and pinv :: "'s \<Rightarrow> bool"
  assumes lawful: "p \<in> set ps \<Longrightarrow> identity_provider (discoverOp p) (authenticateOp p) pinv"
begin

lemma settle_inv:
  assumes "length ss = length ps" "\<forall>s\<in>set ss. pinv s" "s \<in> set (map snd (settleDiscover ps needs ss))"
  shows "pinv s"
proof -
  obtain i where "i < length ps" "s = snd (discoverOp (ps ! i) needs (ss ! i))"
    using assms(1,3) by (auto simp: settleDiscover_def in_set_conv_nth)
  then show ?thesis
    using identity_provider.discover_inv [OF lawful [of "ps ! i"], of "ss ! i" needs] assms(1,2) by auto
qed

lemma discover_keeps:
  assumes "compositeInv (length ps) pinv c"
  shows "compositeInv (length ps) pinv (snd (compositeDiscover ps needs c))"
proof -
  have l: "length (wrapped c) = length ps" "\<forall>s\<in>set (wrapped c). pinv s" using assms by (auto simp: compositeInv_def)
  obtain result cache where r: "compositeDiscover ps needs c = (Inr result,
      c\<lparr>wrapped := map snd (settleDiscover ps needs (wrapped c)), optionOwnerCache := Some cache\<rparr>)"
    "collected (offeredBy ps needs (wrapped c)) (length ps) (cache, result)"
    by (rule compositeDiscover_result [OF l(1), of needs]) (erule that)
  have "i < length ps" if key: "cache key = Some i" for key i
  proof -
    have "key \<in> optionKey ` set result" using r(2) key by (auto simp: collected_def)
    then obtain opt where "opt \<in> set result" "key = optionKey opt" by blast
    then show ?thesis using r(2) key unfolding collected_def by fastforce
  qed
  moreover have "\<forall>key i. claimOwnerCache c key = Some i \<longrightarrow> i < length ps" using assms by (simp add: compositeInv_def)
  ultimately show ?thesis using settle_inv [OF l] l(1) by (auto simp: r(1) compositeInv_def)
qed

lemma ownerFor_keeps:
  assumes "compositeInv (length ps) pinv c" "ownerFor ps opt c = (r, c1)"
  shows "compositeInv (length ps) pinv c1 \<and> (\<forall>i. r = Some i \<longrightarrow> i < length ps)"
proof -
  have c1: "compositeInv (length ps) pinv c1"
    using assms discover_keeps [OF assms(1)] by (auto simp: ownerFor_def Let_def split: if_splits)
  have "r = (case optionOwnerCache c1 of None \<Rightarrow> None | Some cache \<Rightarrow> cache (optionKey opt))"
    using assms(2) by (auto simp: ownerFor_def Let_def)
  with c1 show ?thesis by (auto simp: compositeInv_def split: option.splits)
qed

lemma authenticate_step:
  assumes "compositeInv (length ps) pinv c"
  shows "compositeInv (length ps) pinv (snd (compositeAuthenticate ps opt c))"
proof -
  obtain o1 c1 where o1: "ownerFor ps opt c = (o1, c1)" by (cases "ownerFor ps opt c")
  have i1: "compositeInv (length ps) pinv c1" "\<forall>i. o1 = Some i \<longrightarrow> i < length ps"
    using ownerFor_keeps [OF assms(1) o1] by auto
  show ?thesis
  proof (cases o1)
    case None
    with o1 i1 show ?thesis by (auto simp: compositeAuthenticate_def)
  next
    case (Some i)
    have i: "i < length ps" using Some i1(2) by simp
    then have s: "pinv (wrapped c1 ! i)" using i1(1) by (simp add: compositeInv_def)
    obtain ra s' where ra: "authenticateOp (ps ! i) opt (wrapped c1 ! i) = (ra, s')" by fastforce
    have law: "identity_provider (discoverOp (ps ! i)) (authenticateOp (ps ! i)) pinv" using i by (intro lawful) simp
    have "pinv s'" using identity_provider.authenticate_inv [OF law s, of opt] ra by simp
    then show ?thesis
      using i1(1) o1 Some i ra set_update_subset_insert [of "wrapped c1" i s']
      by (cases ra) (auto simp: compositeAuthenticate_def compositeInv_def split: if_splits)
  qed
qed

text \<open>An option just discovered is authenticated by the provider that offered it, in the state its
  discovery left.\<close>

lemma authenticate_owner:
  assumes "compositeInv (length ps) pinv c" "compositeDiscover ps needs c = (Inr os, c1)" "opt \<in> set os"
    and "compositeAuthenticate ps opt c1 = (Inr claim, c2)"
  shows "minAssurance opt \<le> assuranceLevel claim"
proof -
  have l: "length (wrapped c) = length ps" using assms(1) by (simp add: compositeInv_def)
  obtain result cache where r: "compositeDiscover ps needs c = (Inr result,
      c\<lparr>wrapped := map snd (settleDiscover ps needs (wrapped c)), optionOwnerCache := Some cache\<rparr>)"
    "collected (offeredBy ps needs (wrapped c)) (length ps) (cache, result)"
    by (rule compositeDiscover_result [OF l, of needs]) (erule that)
  then obtain i where i: "i < length ps" "cache (optionKey opt) = Some i" "opt \<in> set (offeredBy ps needs (wrapped c) i)"
    using assms(2,3) unfolding collected_def by fastforce
  obtain os' s' where d: "discoverOp (ps ! i) needs (wrapped c ! i) = (Inr os', s')" "opt \<in> set os'"
    using i(3) by (cases "discoverOp (ps ! i) needs (wrapped c ! i)") (auto simp: offeredBy_def split: sum.splits)
  have own: "ownerFor ps opt c1 = (Some i, c1)" and w: "wrapped c1 ! i = s'"
    using assms(2) r(1) i(1,2) d(1) l by (auto simp: ownerFor_def Let_def settleDiscover_def)
  obtain s'' where "authenticateOp (ps ! i) opt s' = (Inr claim, s'')"
    using assms(4) own w by (auto simp: compositeAuthenticate_def split: prod.splits sum.splits)
  moreover have "pinv (wrapped c ! i)" using assms(1) i(1) by (simp add: compositeInv_def)
  ultimately show ?thesis
    using identity_provider.authenticate_assurance [OF lawful [of "ps ! i"] _ d(1)] d(2) i(1) by simp
qed

end

sublocale composite_provider \<subseteq> composed: identity_provider "compositeDiscover ps" "compositeAuthenticate ps"
    "compositeInv (length ps) pinv"
proof
  fix s needs
  assume "compositeInv (length ps) pinv s"
  then show "compositeInv (length ps) pinv (snd (compositeDiscover ps needs s))" by (rule discover_keeps)
next
  fix s s' needs os opt
  assume s: "compositeInv (length ps) pinv s" and d: "compositeDiscover ps needs s = (Inr os, s')" "opt \<in> set os"
  have l: "length (wrapped s) = length ps" using s by (simp add: compositeInv_def)
  obtain result cache where r: "compositeDiscover ps needs s = (Inr result,
      s\<lparr>wrapped := map snd (settleDiscover ps needs (wrapped s)), optionOwnerCache := Some cache\<rparr>)"
    "collected (offeredBy ps needs (wrapped s)) (length ps) (cache, result)"
    by (rule compositeDiscover_result [OF l, of needs]) (erule that)
  then obtain i where i: "i < length ps" "opt \<in> set (offeredBy ps needs (wrapped s) i)"
    using d unfolding collected_def by fastforce
  then obtain os' s'' where "discoverOp (ps ! i) needs (wrapped s ! i) = (Inr os', s'')" "opt \<in> set os'"
    by (cases "discoverOp (ps ! i) needs (wrapped s ! i)") (auto simp: offeredBy_def split: sum.splits)
  moreover have "pinv (wrapped s ! i)" using s i by (simp add: compositeInv_def)
  ultimately show "meetsAssurance (minAssurance opt) needs"
    using identity_provider.discover_floor [OF lawful [of "ps ! i"]] i(1) by simp
next
  fix s opt
  assume "compositeInv (length ps) pinv s"
  then show "compositeInv (length ps) pinv (snd (compositeAuthenticate ps opt s))" by (rule authenticate_step)
next
  fix s needs os s1 opt c s'
  assume "compositeInv (length ps) pinv s" "compositeDiscover ps needs s = (Inr os, s1)" "opt \<in> set os"
    "compositeAuthenticate ps opt s1 = (Inr c, s')"
  then show "minAssurance opt \<le> assuranceLevel c" by (rule authenticate_owner)
qed

interpretation stubComposite: composite_provider "map stubIdentityProvider nonces" session_reach
proof (rule composite_provider.intro)
  fix p assume "p \<in> set (map stubIdentityProvider nonces)"
  then show "identity_provider (discoverOp p) (authenticateOp p) session_reach"
    using stubIdp.identity_provider_axioms by (auto simp: stubIdentityProvider_def)
qed

text \<open>Step-up through the composing provider: over any number of in-memory providers in reachable
  sessions, a claim obtained for an option that discovery offered under a floor meets that floor.\<close>

theorem composite_step_up:
  assumes "compositeInv (length nonces) session_reach c"
    and "compositeDiscover (map stubIdentityProvider nonces) needs c = (Inr os, c1)" "opt \<in> set os"
    and "compositeAuthenticate (map stubIdentityProvider nonces) opt c1 = (Inr claim, c2)"
  shows "compositeInv (length nonces) session_reach c2 \<and> meetsAssurance (assuranceLevel claim) needs"
  using stubComposite.composed.step_up [of nonces c needs os c1 opt claim c2] assms by simp

theorem composite_step_up_witness:
  "\<exists>claim. fst (compositeAuthenticate [stubIdentityProvider ''a''] (stubOptions ! 1)
      (snd (compositeDiscover [stubIdentityProvider ''a''] (Some L3) (createCompositeIdentityProvider [emptySession]))))
      = Inr claim \<and> L3 \<le> assuranceLevel claim"
proof -
  let ?ps = "map stubIdentityProvider [''a'']"
  let ?c = "createCompositeIdentityProvider [emptySession]"
  have inv: "compositeInv (length [''a'']) session_reach ?c"
    by (simp add: compositeInv_def createCompositeIdentityProvider_def session_reach.init)
  have "fst (compositeDiscover ?ps (Some L3) ?c) = Inr [stubOptions ! 1]" by code_simp
  then obtain c1 where d: "compositeDiscover ?ps (Some L3) ?c = (Inr [stubOptions ! 1], c1)"
    by (cases "compositeDiscover ?ps (Some L3) ?c") auto
  have "map_sum id assuranceLevel (fst (compositeAuthenticate ?ps (stubOptions ! 1)
      (snd (compositeDiscover ?ps (Some L3) ?c)))) = Inr L3" by code_simp
  from map_sum_InrD [OF this] obtain claim where
    cl: "fst (compositeAuthenticate ?ps (stubOptions ! 1) (snd (compositeDiscover ?ps (Some L3) ?c))) = Inr claim"
    by blast
  then obtain c2 where a: "compositeAuthenticate ?ps (stubOptions ! 1) c1 = (Inr claim, c2)"
    using d by (cases "compositeAuthenticate ?ps (stubOptions ! 1) c1") simp
  from composite_step_up [OF inv d _ a] have "L3 \<le> assuranceLevel claim" by simp
  with cl show ?thesis by auto
qed

text \<open>Revoking a claim reaches the provider that issued it and no sibling, once.\<close>

lemma revoke_reaches_issuer:
  assumes "compositeAuthenticate ps opt c = (Inr claim, c1)" "compositeRevoke ps claim c1 = (r, c2)"
  shows "\<exists>i. ownerFor ps opt c = (Some i, c1\<lparr>wrapped := wrapped (snd (ownerFor ps opt c)),
      claimOwnerCache := claimOwnerCache (snd (ownerFor ps opt c))\<rparr>) \<and>
    wrapped c2 = (wrapped c1)[i := snd (revokeOp (ps ! i) claim (wrapped c1 ! i))] \<and>
    claimOwnerCache c2 (subjectRef claim) = None"
  using assms
  by (cases "ownerFor ps opt c")
    (auto simp: compositeAuthenticate_def compositeRevoke_def Let_def split: option.splits sum.splits prod.splits)


section \<open>The composite subscription\<close>

text \<open>\<open>claimEquivalent\<close>: the outer \<open>None\<close> is the sentinel undefined, the inner one is null.\<close>

definition nistAssuranceEquivalent :: "nist_assurance option \<Rightarrow> nist_assurance option \<Rightarrow> bool" where
  "nistAssuranceEquivalent a b = (case (a, b) of
     (Some x, Some y) \<Rightarrow> ial x = ial y \<and> aal x = aal y \<and> fal x = fal y
   | _ \<Rightarrow> a = None \<and> b = None)"

definition claimEquivalent :: "IdentityClaim option option \<Rightarrow> IdentityClaim option \<Rightarrow> bool" where
  "claimEquivalent a b = (case a of None \<Rightarrow> False
   | Some None \<Rightarrow> b = None
   | Some (Some x) \<Rightarrow> (case b of None \<Rightarrow> False
     | Some y \<Rightarrow> subjectRef x = subjectRef y \<and> claimProvider x = claimProvider y \<and>
         claimAdapter x = claimAdapter y \<and> credentialType x = credentialType y \<and>
         credentialRef x = credentialRef y \<and> evidenceRef x = evidenceRef y \<and>
         expiresAt x = expiresAt y \<and> did x = did y \<and> verificationMethod x = verificationMethod y \<and>
         personhoodCheck x = personhoodCheck y \<and> subjectBinding x = subjectBinding y \<and>
         privacyTier x = privacyTier y \<and>
         selectiveDisclosureProfile x = selectiveDisclosureProfile y \<and>
         assuranceLevel x = assuranceLevel y \<and> nistAssuranceEquivalent (nistAssurance x) (nistAssurance y)))"

record subscription =
  lastEmitted :: "IdentityClaim option option"
  delivered :: "IdentityClaim option list"

definition dedupedListener :: "IdentityClaim option \<Rightarrow> subscription \<Rightarrow> subscription" where
  "dedupedListener claim s = (if claimEquivalent (lastEmitted s) claim then s
     else \<lparr>lastEmitted = Some claim, delivered = delivered s @ [claim]\<rparr>)"

text \<open>
  \<open>initial\<close> lists, per wrapped provider, the claims it delivers synchronously on subscription;
  later events reach \<open>dedupedListener\<close> one by one.
\<close>

definition compositeSubscribe :: "IdentityClaim option list list \<Rightarrow> subscription" where
  "compositeSubscribe initial =
     (let s = fold dedupedListener (concat initial) \<lparr>lastEmitted = None, delivered = []\<rparr>
      in if lastEmitted s = None then \<lparr>lastEmitted = Some None, delivered = delivered s @ [None]\<rparr> else s)"

text \<open>The comparison covers every member of a claim, so it only drops repetitions.\<close>

lemma claimEquivalent_iff: "claimEquivalent a b \<longleftrightarrow> a = Some b"
  by (auto simp: claimEquivalent_def nistAssuranceEquivalent_def split: option.splits)

lemma dedupe_run:
  assumes "delivered s \<noteq> []" "lastEmitted s = Some (last (delivered s))"
  shows "delivered (fold dedupedListener evs s) =
    butlast (delivered s) @ remdups_adj (last (delivered s) # evs)"
  using assms
proof (induction evs arbitrary: s)
  case Nil
  then show ?case by simp
next
  case (Cons e evs)
  show ?case
  proof (cases "e = last (delivered s)")
    case True
    then have "dedupedListener e s = s" using Cons.prems by (simp add: dedupedListener_def claimEquivalent_iff)
    with Cons True show ?thesis by simp
  next
    case False
    let ?s = "\<lparr>lastEmitted = Some e, delivered = delivered s @ [e]\<rparr>"
    have "dedupedListener e s = ?s" using Cons.prems False by (simp add: dedupedListener_def claimEquivalent_iff)
    then have "delivered (fold dedupedListener (e # evs) s) = delivered s @ remdups_adj (e # evs)"
      using Cons.IH [of ?s] by simp
    also have "delivered s = butlast (delivered s) @ [last (delivered s)]" using Cons.prems by simp
    finally show ?thesis using False by simp
  qed
qed

text \<open>Subscribing to the composite delivers every session change exactly once: the listener's
  trace is the providers' emissions, in order, without immediate repetitions, starting with a
  synchronous null when no provider delivers one.\<close>

theorem subscription_trace:
  "delivered (fold dedupedListener evs (compositeSubscribe initial)) =
     remdups_adj ((if concat initial = [] then [None] else concat initial) @ evs)"
proof (cases "concat initial")
  case Nil
  then have "compositeSubscribe initial = \<lparr>lastEmitted = Some None, delivered = [None]\<rparr>"
    unfolding compositeSubscribe_def Nil by simp
  then show ?thesis using Nil by (simp add: dedupe_run)
next
  case (Cons e es)
  let ?s = "\<lparr>lastEmitted = Some e, delivered = [e]\<rparr>"
  have first: "fold dedupedListener (concat initial) \<lparr>lastEmitted = None, delivered = []\<rparr> =
      fold dedupedListener es ?s"
    by (simp add: Cons dedupedListener_def claimEquivalent_iff)
  have some: "lastEmitted (fold dedupedListener xs s) \<noteq> None" if "lastEmitted s \<noteq> None" for xs s
    using that by (induction xs arbitrary: s) (auto simp: dedupedListener_def)
  have "compositeSubscribe initial = fold dedupedListener es ?s"
    using some [of ?s es] by (simp add: compositeSubscribe_def first Let_def)
  then have "fold dedupedListener evs (compositeSubscribe initial) = fold dedupedListener (es @ evs) ?s" by simp
  then show ?thesis using dedupe_run [of ?s "es @ evs"] Cons by simp
qed


section \<open>Identity policy of the respondent runtime\<close>

datatype identity_error = NotAnObject string | BadAssuranceLevel string | BadJurisdiction | SignInRequired

definition selectBootIdentityOption :: "IdpOption list \<Rightarrow> bool \<Rightarrow> IdpOption option" where
  "selectBootIdentityOption options pickerWillRender =
     (if pickerWillRender then None else find (\<lambda>opt. opt = AnonymousOption) options)"

text \<open>\<open>oidcRequired\<close> is the identity mode \<open>'oidc-required'\<close>, \<open>production\<close> the runtime mode.\<close>

definition isOidc :: "IdpOption \<Rightarrow> bool" where
  "isOidc opt = (case opt of Oidc _ _ _ \<Rightarrow> True | _ \<Rightarrow> False)"

definition signInOptionsForIdentityPolicy :: "IdpOption list \<Rightarrow> bool \<Rightarrow> bool \<Rightarrow> IdpOption list" where
  "signInOptionsForIdentityPolicy options oidcRequired production =
     (if \<not> production then []
      else if oidcRequired then filter isOidc options
      else if options = [] then []
      else if length options = 1 \<and> options ! 0 = AnonymousOption then []
      else options)"

definition isAssuranceLevel :: "jsval \<Rightarrow> AssuranceLevel option" where
  "isAssuranceLevel v = (if v = Str ''L1'' then Some L1 else if v = Str ''L2'' then Some L2
     else if v = Str ''L3'' then Some L3 else if v = Str ''L4'' then Some L4 else None)"

definition optionalObject :: "jsval \<Rightarrow> string \<Rightarrow> identity_error + jsval option" where
  "optionalObject source key =
     (if \<not> isObjectType source then Inr None
      else (let v = getp source key
            in if v = Undefined then Inr None
               else if isPlainObject v then Inr (Some v)
               else Inl (NotAnObject key)))"

definition optionalAssuranceLevel :: "jsval \<Rightarrow> string \<Rightarrow> identity_error + AssuranceLevel option" where
  "optionalAssuranceLevel source key =
     (let v = getp source key
      in if v = Undefined then Inr None
         else (case isAssuranceLevel v of Some l \<Rightarrow> Inr (Some l) | None \<Rightarrow> Inl (BadAssuranceLevel key)))"

definition optionalString :: "jsval \<Rightarrow> string \<Rightarrow> identity_error + string option" where
  "optionalString source key =
     (let v = getp source key
      in if v = Undefined then Inr None
         else if isString v then Inr (Some (strOf v)) else Inl BadJurisdiction)"

definition formAssuranceFloorForDefinition :: "jsval \<Rightarrow> identity_error + AssuranceLevel option" where
  "formAssuranceFloorForDefinition def =
     bindR (optionalObject def ''metadata'') (\<lambda>metadata.
     bindR (optionalObject (case metadata of None \<Rightarrow> Undefined | Some m \<Rightarrow> m) ''assurance'') (\<lambda>assurance.
       case assurance of None \<Rightarrow> Inr None
       | Some a \<Rightarrow>
          bindR (optionalAssuranceLevel a ''ial'') (\<lambda>i.
          bindR (optionalAssuranceLevel a ''aal'') (\<lambda>l.
          bindR (optionalString a ''jurisdiction'') (\<lambda>_.
            Inr (case (i, l) of (None, _) \<Rightarrow> l | (_, None) \<Rightarrow> i
              | (Some x, Some y) \<Rightarrow> if assuranceRank x \<ge> assuranceRank y then i else l))))))"

definition identityClaimMeetsAssurance :: "IdentityClaim option \<Rightarrow> AssuranceLevel option \<Rightarrow> bool" where
  "identityClaimMeetsAssurance claim required = (case required of None \<Rightarrow> True
     | Some r \<Rightarrow> (case claim of None \<Rightarrow> False
         | Some c \<Rightarrow> assuranceRank (assuranceLevel c) \<ge> assuranceRank r))"

definition idpOptionMeetsAssurance :: "IdpOption \<Rightarrow> AssuranceLevel option \<Rightarrow> bool" where
  "idpOptionMeetsAssurance opt required = (case required of None \<Rightarrow> True
     | Some r \<Rightarrow> assuranceRank (minAssurance opt) \<ge> assuranceRank r)"

definition subjectOf :: "IdentityClaim option \<Rightarrow> string option" where
  "subjectOf claim = map_option subjectRef claim"

definition subjectRefInvalidatedByIdentityChange :: "IdentityClaim option \<Rightarrow> IdentityClaim option \<Rightarrow> string option" where
  "subjectRefInvalidatedByIdentityChange previous nextClaim = (case subjectOf previous of
     None \<Rightarrow> None
   | Some p \<Rightarrow> if p = [] \<or> subjectOf nextClaim = Some p then None else Some p)"

definition identitySubjectChanged :: "IdentityClaim option \<Rightarrow> IdentityClaim option \<Rightarrow> bool" where
  "identitySubjectChanged previous nextClaim = (subjectOf previous \<noteq> subjectOf nextClaim)"

definition assertIdentityPolicySatisfied :: "IdentityClaim option \<Rightarrow> bool \<Rightarrow> bool \<Rightarrow> identity_error + unit" where
  "assertIdentityPolicySatisfied claim oidcRequired production =
     throwIf (production \<and> oidcRequired \<and> claim = None) SignInRequired"

lemma identityClaimMeets_iff:
  "identityClaimMeetsAssurance claim required \<longleftrightarrow>
     (\<forall>r. required = Some r \<longrightarrow> (\<exists>c. claim = Some c \<and> r \<le> assuranceLevel c))"
  by (auto simp: identityClaimMeetsAssurance_def split: option.splits)

lemma idpOptionMeets: "idpOptionMeetsAssurance opt required = meetsAssurance (minAssurance opt) required"
  by (simp add: idpOptionMeetsAssurance_def meetsAssurance_def)

text \<open>The levels a definition declares in \<open>metadata.assurance\<close>.\<close>

definition declaredLevels :: "jsval \<Rightarrow> AssuranceLevel set" where
  "declaredLevels d = (let a = getp (getp d ''metadata'') ''assurance''
     in {l. isAssuranceLevel (getp a ''ial'') = Some l \<or> isAssuranceLevel (getp a ''aal'') = Some l})"

lemma optionalObject_Inr:
  "optionalObject v k = Inr r \<Longrightarrow> (case r of None \<Rightarrow> getp v k = Undefined | Some m \<Rightarrow> m = getp v k)"
  by (cases v) (auto simp: optionalObject_def Let_def split: if_splits)

lemma optionalAssuranceLevel_Inr:
  "optionalAssuranceLevel v k = Inr r \<Longrightarrow> isAssuranceLevel (getp v k) = r"
  by (auto simp: optionalAssuranceLevel_def Let_def isAssuranceLevel_def split: if_splits option.splits)

lemma getp_Undefined [simp]: "getp Undefined k = Undefined"
  by simp

text \<open>The assurance floor of a form is the stricter of its two declared levels: when the
  definition's \<open>metadata.assurance\<close> is well-formed, a session meets the floor exactly when it
  meets the identity level and the authenticator level, each if declared.\<close>

lemma assurance_floor_strictest:
  assumes "formAssuranceFloorForDefinition d = Inr required"
  shows "identityClaimMeetsAssurance claim required \<longleftrightarrow>
    (\<forall>l\<in>declaredLevels d. \<exists>c. claim = Some c \<and> l \<le> assuranceLevel c)"
proof -
  obtain m where m: "optionalObject d ''metadata'' = Inr m" and
    rest: "bindR (optionalObject (case m of None \<Rightarrow> Undefined | Some x \<Rightarrow> x) ''assurance'') (\<lambda>assurance.
       case assurance of None \<Rightarrow> Inr None
       | Some a \<Rightarrow>
          bindR (optionalAssuranceLevel a ''ial'') (\<lambda>i.
          bindR (optionalAssuranceLevel a ''aal'') (\<lambda>l.
          bindR (optionalString a ''jurisdiction'') (\<lambda>_.
            Inr (case (i, l) of (None, _) \<Rightarrow> l | (_, None) \<Rightarrow> i
              | (Some x, Some y) \<Rightarrow> if assuranceRank x \<ge> assuranceRank y then i else l))))) = Inr required"
    using assms by (auto simp: formAssuranceFloorForDefinition_def bindR_Inr_iff)
  have mv: "(case m of None \<Rightarrow> Undefined | Some x \<Rightarrow> x) = getp d ''metadata''"
    using optionalObject_Inr [OF m] by (simp split: option.splits)
  from rest obtain a where a: "optionalObject (getp d ''metadata'') ''assurance'' = Inr a" and
    tail: "(case a of None \<Rightarrow> Inr None
       | Some a \<Rightarrow>
          bindR (optionalAssuranceLevel a ''ial'') (\<lambda>i.
          bindR (optionalAssuranceLevel a ''aal'') (\<lambda>l.
          bindR (optionalString a ''jurisdiction'') (\<lambda>_.
            Inr (case (i, l) of (None, _) \<Rightarrow> l | (_, None) \<Rightarrow> i
              | (Some x, Some y) \<Rightarrow> if assuranceRank x \<ge> assuranceRank y then i else l))))) = Inr required"
    unfolding mv bindR_Inr_iff by blast
  show ?thesis
  proof (cases a)
    case None
    then have "getp (getp d ''metadata'') ''assurance'' = Undefined" using optionalObject_Inr [OF a] by simp
    then have "declaredLevels d = {}" by (simp add: declaredLevels_def isAssuranceLevel_def)
    with None tail show ?thesis by (simp add: identityClaimMeetsAssurance_def)
  next
    case (Some av)
    then have av: "av = getp (getp d ''metadata'') ''assurance''" using optionalObject_Inr [OF a] by simp
    from tail Some obtain i l where "optionalAssuranceLevel av ''ial'' = Inr i" "optionalAssuranceLevel av ''aal'' = Inr l"
      and r: "required = (case (i, l) of (None, _) \<Rightarrow> l | (_, None) \<Rightarrow> i
              | (Some x, Some y) \<Rightarrow> if assuranceRank x \<ge> assuranceRank y then i else l)"
      by (auto simp: bindR_Inr_iff)
    then have "isAssuranceLevel (getp av ''ial'') = i" "isAssuranceLevel (getp av ''aal'') = l"
      by (simp_all add: optionalAssuranceLevel_Inr)
    then have "declaredLevels d = {x. i = Some x \<or> l = Some x}" by (simp add: declaredLevels_def av)
    then show ?thesis
      unfolding r identityClaimMeets_iff by (cases i; cases l) (auto intro: order_trans)
  qed
qed


end
