(* ===== verification/Identity_Adapters.thy ===== *)
theory Identity_Adapters
  imports Identity Keys
begin

text \<open>
  The reference identity adapters: anonymous (\<open>src/adapters/identity/anonymous.ts\<close>), magic link
  (\<open>magic-link.ts\<close>) and OIDC (\<open>oidc.ts\<close>), and their selection in the composition root
  (\<open>identityProviderFor\<close> in \<open>src/composition/default.ts\<close>). Each is an instance of the
  identity-provider contract. What an adapter reads from its collaborators is an argument: the
  random suffix, the outcome of the notification and of the magic-link exchange, the snapshots of
  the browser auth session, SHA-256.
\<close>

section \<open>The anonymous adapter\<close>

datatype adapter_failure =
    WrongOption
  | DeliveryFailed string
  | ExchangeFailed string
  | BelowRequired AssuranceLevel AssuranceLevel
  | InteractionStarted
  | SessionUnavailable
  | IssuerMismatch
  | UnusableSubject
  | UnmappedAcr
  | SubjectRefFailed string
  | SessionChanged

definition singleOffer :: "IdpOption \<Rightarrow> AssuranceLevel option \<Rightarrow> IdpOption list" where
  "singleOffer opt needs = (if meetsAssurance (minAssurance opt) needs then [opt] else [])"

definition anonymousDiscover :: "AssuranceLevel option \<Rightarrow> session \<Rightarrow> (adapter_failure + IdpOption list) \<times> session" where
  "anonymousDiscover needs s = (Inr (singleOffer AnonymousOption needs), s)"

definition anonymousAuthenticate :: "string \<Rightarrow> IdpOption \<Rightarrow> session \<Rightarrow> (adapter_failure + IdentityClaim) \<times> session" where
  "anonymousAuthenticate uuid opt s =
     (if opt \<noteq> AnonymousOption then (Inl WrongOption, s)
      else (let claim = \<lparr>claimProvider = ''anonymous'', claimAdapter = ''anonymous@0'',
                 subjectRef = ''anon:'' @ uuid, did = None, verificationMethod = None,
                 credentialType = ''other'', credentialRef = None, personhoodCheck = Some ''not-performed'',
                 subjectBinding = ''respondent'', assuranceLevel = L1, privacyTier = Some ''anonymous'',
                 selectiveDisclosureProfile = None, evidenceRef = None, expiresAt = None, nistAssurance = None\<rparr>
            in (Inr claim, sessionSet (Some claim) s)))"

lemma singleOffer_mem: "opt' \<in> set (singleOffer opt needs) \<longleftrightarrow> opt' = opt \<and> meetsAssurance (minAssurance opt) needs"
  by (simp add: singleOffer_def)

interpretation anonymousIdp: identity_provider anonymousDiscover "anonymousAuthenticate uuid" session_reach
  by unfold_locales
    (auto simp: anonymousDiscover_def anonymousAuthenticate_def singleOffer_mem Let_def intro: session_reach.set_claim)


section \<open>The magic-link adapter\<close>

record MagicLinkExchangeRequest =
  nonce :: string
  channelName :: string
  toAddress :: string
  magicLinkUrl :: string
  requestedAssurance :: AssuranceLevel

record notification =
  notifyChannel :: string
  notifyTo :: string
  notifySubject :: string
  notifyBody :: string
  notifyUrl :: string

record MagicLinkAdapterConfig =
  exchange :: "MagicLinkExchangeRequest \<Rightarrow> string + IdentityClaim"
  callbackUrl :: "string \<Rightarrow> string"
  linkTo :: string
  linkChannel :: "string option"
  linkMinAssurance :: AssuranceLevel
  linkSubject :: "string option"
  linkBody :: "(string \<Rightarrow> string) option"

text \<open>
  \<open>callbackUrl\<close> is the function form, or \<open>resolveMagicLinkUrl\<close> of the string form (the URL with
  its \<open>token\<close> parameter set). The adapter's state is its session and the notifications it sent.
\<close>

definition magicLinkOption :: "MagicLinkAdapterConfig \<Rightarrow> IdpOption" where
  "magicLinkOption config = MagicLink (case linkChannel config of None \<Rightarrow> ''email'' | Some c \<Rightarrow> c) (linkMinAssurance config)"

definition magicLinkDiscover :: "MagicLinkAdapterConfig \<Rightarrow> AssuranceLevel option \<Rightarrow> session \<times> notification list \<Rightarrow>
    (adapter_failure + IdpOption list) \<times> session \<times> notification list" where
  "magicLinkDiscover config needs s = (Inr (singleOffer (magicLinkOption config) needs), s)"

definition isMagicLink :: "IdpOption \<Rightarrow> bool" where
  "isMagicLink opt = (case opt of MagicLink _ _ \<Rightarrow> True | _ \<Rightarrow> False)"

definition magicLinkAuthenticate :: "MagicLinkAdapterConfig \<Rightarrow> (notification \<Rightarrow> string + unit) \<Rightarrow> string \<Rightarrow> IdpOption \<Rightarrow>
    session \<times> notification list \<Rightarrow> (adapter_failure + IdentityClaim) \<times> session \<times> notification list" where
  "magicLinkAuthenticate config send nonceValue opt st = (case st of (s, sent) \<Rightarrow>
     if \<not> isMagicLink opt then (Inl WrongOption, s, sent)
     else (let url = callbackUrl config nonceValue;
               chan = (case linkChannel config of None \<Rightarrow> ''email'' | Some c \<Rightarrow> c);
               message = \<lparr>notifyChannel = chan, notifyTo = linkTo config,
                 notifySubject = (case linkSubject config of None \<Rightarrow> ''Your Formspec sign-in link'' | Some t \<Rightarrow> t),
                 notifyBody = (case linkBody config of None \<Rightarrow> ''Use this link to continue: '' @ url | Some f \<Rightarrow> f url),
                 notifyUrl = url\<rparr>
           in case send message of
                Inl e \<Rightarrow> (Inl (DeliveryFailed e), s, sent)
              | Inr _ \<Rightarrow>
                 (case exchange config \<lparr>nonce = nonceValue, channelName = chan, toAddress = linkTo config,
                     magicLinkUrl = url, requestedAssurance = linkMinAssurance config\<rparr> of
                    Inl e \<Rightarrow> (Inl (ExchangeFailed e), s, sent @ [message])
                  | Inr claim \<Rightarrow>
                      if assuranceRank (assuranceLevel claim) < assuranceRank (linkMinAssurance config)
                      then (Inl (BelowRequired (assuranceLevel claim) (linkMinAssurance config)), s, sent @ [message])
                      else (let normalizedClaim = claim\<lparr>claimAdapter :=
                                  (if claimAdapter claim = [] then ''magic-link@0'' else claimAdapter claim)\<rparr>
                            in (Inr normalizedClaim, sessionSet (Some normalizedClaim) s, sent @ [message])))))"

lemma magicLinkAuthenticate_ok:
  "magicLinkAuthenticate config send n opt (s, sent) = (Inr claim, s', sent') \<Longrightarrow>
     linkMinAssurance config \<le> assuranceLevel claim \<and> s' = sessionSet (Some claim) s"
  by (auto simp: magicLinkAuthenticate_def Let_def not_less split: if_splits sum.splits)

lemma magicLinkAuthenticate_session:
  "session_reach s \<Longrightarrow> session_reach (fst (snd (magicLinkAuthenticate config send n opt (s, sent))))"
  by (auto simp: magicLinkAuthenticate_def Let_def intro: session_reach.set_claim split: sum.split)

interpretation magicLinkIdp: identity_provider "magicLinkDiscover config" "magicLinkAuthenticate config send n"
    "\<lambda>s. session_reach (fst s)"
proof
  show "\<And>s needs. session_reach (fst s) \<Longrightarrow> session_reach (fst (snd (magicLinkDiscover config needs s)))"
    by (simp add: magicLinkDiscover_def)
  show "\<And>s needs os s' opt. session_reach (fst s) \<Longrightarrow> magicLinkDiscover config needs s = (Inr os, s') \<Longrightarrow>
      opt \<in> set os \<Longrightarrow> meetsAssurance (minAssurance opt) needs"
    by (auto simp: magicLinkDiscover_def singleOffer_mem)
  show "\<And>s opt. session_reach (fst s) \<Longrightarrow> session_reach (fst (snd (magicLinkAuthenticate config send n opt s)))"
    by (auto intro: magicLinkAuthenticate_session)
  show "\<And>s needs os s1 opt c s'. session_reach (fst s) \<Longrightarrow> magicLinkDiscover config needs s = (Inr os, s1) \<Longrightarrow>
      opt \<in> set os \<Longrightarrow> magicLinkAuthenticate config send n opt s1 = (Inr c, s') \<Longrightarrow> minAssurance opt \<le> assuranceLevel c"
    by (auto simp: magicLinkDiscover_def singleOffer_mem magicLinkOption_def dest: magicLinkAuthenticate_ok)
qed

section \<open>The OIDC adapter\<close>

type_synonym AcrAssuranceMap = "(string \<times> AssuranceLevel) list"

definition defaultAcrAssuranceMap :: AcrAssuranceMap where
  "defaultAcrAssuranceMap =
     [(''L1'', L1), (''l1'', L1), (''formspec:l1'', L1), (''urn:formspec:assurance:l1'', L1),
      (''L2'', L2), (''l2'', L2), (''formspec:l2'', L2), (''urn:formspec:assurance:l2'', L2),
      (''L3'', L3), (''l3'', L3), (''formspec:l3'', L3), (''urn:formspec:assurance:l3'', L3),
      (''L4'', L4), (''l4'', L4), (''formspec:l4'', L4), (''urn:formspec:assurance:l4'', L4)]"

text \<open>
  The values of the \<open>acr\<close> claim that map to a level, sorted by descending rank. Levels of equal
  rank are equal, so the stable sort is the reversed ascending one.
\<close>

definition mappedLevels :: "jsval \<Rightarrow> AcrAssuranceMap \<Rightarrow> AssuranceLevel list" where
  "mappedLevels acr m = List.map_filter (\<lambda>v. map_of m (strOf v))
     (filter isString (if isArray acr then arrItems acr else [acr]))"

definition assuranceLevelFromAcr :: "jsval \<Rightarrow> AcrAssuranceMap \<Rightarrow> adapter_failure + AssuranceLevel" where
  "assuranceLevelFromAcr acr m = (case rev (sort (mappedLevels acr m)) of
     [] \<Rightarrow> Inl UnmappedAcr
   | highest # _ \<Rightarrow> Inr highest)"

definition defaultSubjectRefFactory :: "(byte list \<Rightarrow> byte list) option \<Rightarrow> string \<Rightarrow> string \<Rightarrow> string + string" where
  "defaultSubjectRefFactory sha256 issuer subject = (case sha256 of
     None \<Rightarrow> Inl ''SHA-256 is unavailable; configure a subject reference mapper''
   | Some digest \<Rightarrow> Inr (''oidc:'' @ take 32 (bytesToHex (digest (utf8 (issuer @ [char_of (0::nat)] @ subject))))))"

record BrowserAuthSessionState =
  authIssuer :: string
  authExpiresAt :: string
  revision :: int

text \<open>What the adapter reads of the admitted user: the profile object and the id token.\<close>

record oidc_user =
  userProfile :: jsval
  idToken :: "string option"

record OidcAdapterConfig =
  oidcIssuer :: string
  oidcDisplayName :: "string option"
  oidcMinAssurance :: AssuranceLevel
  acrAssuranceMap :: "AcrAssuranceMap option"
  subjectRefFactory :: "(string \<Rightarrow> string \<Rightarrow> string + string) option"

text \<open>The session snapshots one \<open>authenticate\<close> reads: before, the user, and after the normalization.\<close>

record oidc_reads =
  sessionBefore :: "BrowserAuthSessionState option"
  admittedUser :: "oidc_user option"
  sessionAfter :: "BrowserAuthSessionState option"

record oidc_state =
  oidcSession :: session
  hasClaim :: bool
  redirects :: nat

definition emptyOidc :: oidc_state where
  "emptyOidc = \<lparr>oidcSession = emptySession, hasClaim = False, redirects = 0\<rparr>"

definition oidcOption :: "OidcAdapterConfig \<Rightarrow> IdpOption" where
  "oidcOption config = Oidc (oidcIssuer config)
     (case oidcDisplayName config of None \<Rightarrow> oidcIssuer config | Some d \<Rightarrow> d) (oidcMinAssurance config)"

definition oidcDiscover :: "OidcAdapterConfig \<Rightarrow> AssuranceLevel option \<Rightarrow> oidc_state \<Rightarrow> (adapter_failure + IdpOption list) \<times> oidc_state" where
  "oidcDiscover config needs s = (Inr (singleOffer (oidcOption config) needs), s)"

definition oidcClaim :: "(byte list \<Rightarrow> byte list) option \<Rightarrow> OidcAdapterConfig \<Rightarrow> oidc_reads \<Rightarrow> AssuranceLevel \<Rightarrow>
    BrowserAuthSessionState \<Rightarrow> oidc_user \<Rightarrow> adapter_failure + IdentityClaim" where
  "oidcClaim sha256 config reads optionFloor state user =
     (let subject = getp (userProfile user) ''sub'' in
      bindR (throwIf (authIssuer state \<noteq> oidcIssuer config \<or> getp (userProfile user) ''iss'' \<noteq> Str (oidcIssuer config))
         IssuerMismatch) (\<lambda>_.
      bindR (throwIf (\<not> isNonEmptyString subject) UnusableSubject) (\<lambda>_.
      bindR (assuranceLevelFromAcr (getp (userProfile user) ''acr'')
         (case acrAssuranceMap config of None \<Rightarrow> defaultAcrAssuranceMap | Some m \<Rightarrow> m)) (\<lambda>level.
      bindR (throwIf (assuranceRank level < max (assuranceRank optionFloor) (assuranceRank (oidcMinAssurance config)))
         (BelowRequired level optionFloor)) (\<lambda>_.
      bindR (map_sum SubjectRefFailed id ((case subjectRefFactory config of
           None \<Rightarrow> defaultSubjectRefFactory sha256 | Some f \<Rightarrow> f) (oidcIssuer config) (strOf subject))) (\<lambda>ref.
      bindR (throwIf (map_option revision (sessionAfter reads) \<noteq> Some (revision state)) SessionChanged) (\<lambda>_.
        Inr \<lparr>claimProvider = oidcIssuer config, claimAdapter = ''oidc-client-ts'', subjectRef = ref,
          did = None, verificationMethod = None, credentialType = ''oidc-token'',
          credentialRef = (case idToken user of None \<Rightarrow> None
             | Some t \<Rightarrow> if t = [] then None else Some (''oidc:'' @ oidcIssuer config @ '':id-token'')),
          personhoodCheck = Some ''not-performed'', subjectBinding = ''respondent'', assuranceLevel = level,
          privacyTier = Some ''pseudonymous'', selectiveDisclosureProfile = None,
          evidenceRef = Some (''oidc:'' @ oidcIssuer config @ '':acr''),
          expiresAt = Some (authExpiresAt state), nistAssurance = None\<rparr>)))))))"

definition oidcAuthenticate :: "(byte list \<Rightarrow> byte list) option \<Rightarrow> OidcAdapterConfig \<Rightarrow> oidc_reads \<Rightarrow> IdpOption \<Rightarrow>
    oidc_state \<Rightarrow> (adapter_failure + IdentityClaim) \<times> oidc_state" where
  "oidcAuthenticate sha256 config reads opt s = (case opt of
     Oidc issuer _ optionFloor \<Rightarrow>
       if issuer \<noteq> oidcIssuer config then (Inl WrongOption, s)
       else (case sessionBefore reads of
          None \<Rightarrow> (Inl InteractionStarted, s\<lparr>redirects := redirects s + 1\<rparr>)
        | Some state \<Rightarrow> (case admittedUser reads of
            None \<Rightarrow> (Inl SessionUnavailable, s)
          | Some user \<Rightarrow> (case oidcClaim sha256 config reads optionFloor state user of
              Inl e \<Rightarrow> (Inl e, s)
            | Inr claim \<Rightarrow> (Inr claim, s\<lparr>hasClaim := True, oidcSession := sessionSet (Some claim) (oidcSession s)\<rparr>))))
   | _ \<Rightarrow> (Inl WrongOption, s))"

definition clearClaim :: "oidc_state \<Rightarrow> oidc_state" where
  "clearClaim s = (if \<not> hasClaim s then s
     else s\<lparr>hasClaim := False, oidcSession := sessionSet None (oidcSession s)\<rparr>)"

definition oidcSubscribe :: "nat \<Rightarrow> oidc_state \<Rightarrow> oidc_state" where
  "oidcSubscribe l s = s\<lparr>oidcSession := sessionSubscribe l (oidcSession s)\<rparr>"

lemma hd_rev_sort: "xs \<noteq> [] \<Longrightarrow> rev (sort xs) = y # ys \<Longrightarrow> y = Max (set xs)"
proof -
  assume "xs \<noteq> []" "rev (sort xs) = y # ys"
  then have s: "sort xs = rev ys @ [y]" by (simp add: rev_eq_Cons_iff)
  then have "sorted (rev ys @ [y])" by (metis sorted_sort)
  then have "\<forall>x\<in>set ys. x \<le> y" by (simp add: sorted_append)
  moreover have "set xs = insert y (set ys)" using s by (metis list.simps(15) set_rev set_sort rotate1.simps(2) set_rotate1)
  ultimately show ?thesis by (intro Max_eqI [symmetric]) auto
qed

lemma assuranceLevelFromAcr_Max:
  "assuranceLevelFromAcr acr m = (if mappedLevels acr m = [] then Inl UnmappedAcr else Inr (Max (set (mappedLevels acr m))))"
proof (cases "rev (sort (mappedLevels acr m))")
  case Nil
  then have "set (sort (mappedLevels acr m)) = {}" by simp
  then have "mappedLevels acr m = []" by (metis set_empty set_sort)
  then show ?thesis by (simp add: assuranceLevelFromAcr_def)
next
  case (Cons y ys)
  then have "mappedLevels acr m \<noteq> []" by auto
  with Cons show ?thesis using hd_rev_sort [OF _ Cons] by (simp add: assuranceLevelFromAcr_def)
qed

definition acrLevels :: "OidcAdapterConfig \<Rightarrow> oidc_user \<Rightarrow> AssuranceLevel list" where
  "acrLevels config user = mappedLevels (getp (userProfile user) ''acr'')
     (case acrAssuranceMap config of None \<Rightarrow> defaultAcrAssuranceMap | Some m \<Rightarrow> m)"

lemma oidcClaim_ok:
  assumes "oidcClaim sha256 config reads optionFloor state user = Inr claim"
  shows "credentialType claim = ''oidc-token'' \<and> claimProvider claim = oidcIssuer config \<and>
    optionFloor \<le> assuranceLevel claim \<and> oidcMinAssurance config \<le> assuranceLevel claim \<and>
    map_option revision (sessionAfter reads) = Some (revision state) \<and>
    getp (userProfile user) ''iss'' = Str (oidcIssuer config) \<and> authIssuer state = oidcIssuer config \<and>
    acrLevels config user \<noteq> [] \<and> assuranceLevel claim = Max (set (acrLevels config user))"
  using assms
  by (auto simp: oidcClaim_def Let_def bindR_Inr_iff not_less assuranceLevelFromAcr_Max acrLevels_def
      split: if_splits)

lemma oidcAuthenticate_ok:
  "oidcAuthenticate sha256 config reads opt s = (Inr claim, s') \<Longrightarrow>
     \<exists>d m. opt = Oidc (oidcIssuer config) d m \<and> m \<le> assuranceLevel claim \<and> credentialType claim = ''oidc-token'' \<and>
       s' = s\<lparr>hasClaim := True, oidcSession := sessionSet (Some claim) (oidcSession s)\<rparr>"
  by (auto simp: oidcAuthenticate_def dest: oidcClaim_ok
      split: IdpOption.splits if_splits option.splits sum.splits)

lemma oidcAuthenticate_session:
  "session_reach (oidcSession s) \<Longrightarrow> session_reach (oidcSession (snd (oidcAuthenticate sha256 config reads opt s)))"
  by (auto simp: oidcAuthenticate_def intro: session_reach.set_claim
      split: IdpOption.split option.split sum.split)

interpretation oidcIdp: identity_provider "oidcDiscover config" "oidcAuthenticate sha256 config reads"
    "\<lambda>s. session_reach (oidcSession s)"
proof
  show "\<And>s needs. session_reach (oidcSession s) \<Longrightarrow> session_reach (oidcSession (snd (oidcDiscover config needs s)))"
    by (simp add: oidcDiscover_def)
  show "\<And>s needs os s' opt. session_reach (oidcSession s) \<Longrightarrow> oidcDiscover config needs s = (Inr os, s') \<Longrightarrow>
      opt \<in> set os \<Longrightarrow> meetsAssurance (minAssurance opt) needs"
    by (auto simp: oidcDiscover_def singleOffer_mem)
  show "\<And>s opt. session_reach (oidcSession s) \<Longrightarrow>
      session_reach (oidcSession (snd (oidcAuthenticate sha256 config reads opt s)))"
    by (rule oidcAuthenticate_session)
  show "\<And>s needs os s1 opt c s'. session_reach (oidcSession s) \<Longrightarrow> oidcDiscover config needs s = (Inr os, s1) \<Longrightarrow>
      opt \<in> set os \<Longrightarrow> oidcAuthenticate sha256 config reads opt s1 = (Inr c, s') \<Longrightarrow> minAssurance opt \<le> assuranceLevel c"
    by (auto dest: oidcAuthenticate_ok)
qed

text \<open>An OIDC claim is what the identity provider vouched for: authentication only succeeds on an
  admitted session and user of the configured issuer whose session did not change meanwhile; the
  claim's level is the highest level its \<open>acr\<close> values map to and meets the adapter's and the
  option's minimum, and the claim becomes the session's.\<close>

theorem oidc_claim_sound:
  assumes "oidcAuthenticate sha256 config reads opt s = (Inr claim, s')"
  shows "\<exists>state user. sessionBefore reads = Some state \<and> admittedUser reads = Some user \<and>
    map_option revision (sessionAfter reads) = Some (revision state) \<and>
    authIssuer state = oidcIssuer config \<and> getp (userProfile user) ''iss'' = Str (oidcIssuer config) \<and>
    claimProvider claim = oidcIssuer config \<and> acrLevels config user \<noteq> [] \<and>
    assuranceLevel claim = Max (set (acrLevels config user)) \<and>
    max (oidcMinAssurance config) (minAssurance opt) \<le> assuranceLevel claim \<and>
    current (oidcSession s') = Some claim"
proof -
  obtain d m where opt: "opt = Oidc (oidcIssuer config) d m"
    and s': "s' = s\<lparr>hasClaim := True, oidcSession := sessionSet (Some claim) (oidcSession s)\<rparr>"
    using oidcAuthenticate_ok [OF assms] by blast
  from assms opt obtain state user where "sessionBefore reads = Some state" "admittedUser reads = Some user"
    "oidcClaim sha256 config reads m state user = Inr claim"
    by (auto simp: oidcAuthenticate_def split: option.splits sum.splits)
  with oidcClaim_ok [OF this(3)] opt s' show ?thesis
    by (intro exI [of _ state] exI [of _ user]) (auto simp: sessionSet_def)
qed

definition sampleOidcConfig :: OidcAdapterConfig where
  "sampleOidcConfig = \<lparr>oidcIssuer = ''https://idp'', oidcDisplayName = None, oidcMinAssurance = L2,
     acrAssuranceMap = None, subjectRefFactory = Some (\<lambda>i s. Inr (''sub:'' @ s))\<rparr>"

definition sampleReads :: oidc_reads where
  "sampleReads = (let state = \<lparr>authIssuer = ''https://idp'', authExpiresAt = ''later'', revision = 4\<rparr>
     in \<lparr>sessionBefore = Some state, admittedUser = Some \<lparr>userProfile = Obj [(''iss'', Str ''https://idp''),
           (''sub'', Str ''u1''), (''acr'', Arr [Str ''L2'', Str ''formspec:l3'', Num (Fin 1)])], idToken = Some ''t''\<rparr>,
         sessionAfter = Some state\<rparr>)"

theorem oidc_claim_sound_witness:
  "\<exists>claim s'. oidcAuthenticate None sampleOidcConfig sampleReads (oidcOption sampleOidcConfig) emptyOidc = (Inr claim, s') \<and>
     L2 \<le> assuranceLevel claim"
proof -
  let ?run = "oidcAuthenticate None sampleOidcConfig sampleReads (oidcOption sampleOidcConfig) emptyOidc"
  have "map_sum id assuranceLevel (fst ?run) = Inr L3" by code_simp
  from map_sum_InrD [OF this] obtain claim where "fst ?run = Inr claim" by blast
  then obtain s' where run: "?run = (Inr claim, s')" by (cases ?run) simp
  from oidc_claim_sound [OF run] have "max (oidcMinAssurance sampleOidcConfig) (minAssurance (oidcOption sampleOidcConfig))
      \<le> assuranceLevel claim" by blast
  then have "L2 \<le> assuranceLevel claim" by (simp add: sampleOidcConfig_def)
  with run show ?thesis by blast
qed


section \<open>Selection in the composition root\<close>

datatype provider_kind = AnonymousKind | OidcKind | MagicLinkKind

datatype identity_binding = AnonymousBinding | HttpAnonymousBinding | OidcBinding OidcAdapterConfig

datatype binding_error = OidcRequiresOidcProvider | ProviderNotConfigured provider_kind

definition identityProviderFor :: "bool \<Rightarrow> provider_kind \<Rightarrow> OidcAdapterConfig option \<Rightarrow> bool \<Rightarrow> binding_error + identity_binding" where
  "identityProviderFor oidcRequiredMode kind oidcConfig hasProductionContext =
     (if oidcRequiredMode \<and> kind \<noteq> OidcKind then Inl OidcRequiresOidcProvider
      else if kind = AnonymousKind then
        (if hasProductionContext then Inr HttpAnonymousBinding else Inr AnonymousBinding)
      else (case oidcConfig of
          Some config \<Rightarrow> if kind = OidcKind then Inr (OidcBinding config) else Inl (ProviderNotConfigured kind)
        | None \<Rightarrow> Inl (ProviderNotConfigured kind)))"

lemma identityProviderFor_oidc:
  "identityProviderFor True kind oidcConfig ctx = Inr b \<Longrightarrow> \<exists>config. oidcConfig = Some config \<and> b = OidcBinding config"
  by (auto simp: identityProviderFor_def split: if_splits option.splits)

end
