(* ===== verification/Embed.thy ===== *)
theory Embed
  imports Policy_Resolver
begin

text \<open>
  Embedding in a host page: the \<open>EmbedTransport\<close> port (\<open>src/ports/embed-transport.ts\<close>) with its
  in-memory adapter (\<open>src/adapters/stub/embed-transport.ts\<close>), and the origin gate of the form
  load (\<open>verifyEmbedOriginAllowed\<close>, \<open>matchesAllowedOrigin\<close> in \<open>src/app/respondent-flow.ts\<close>).
  The platform's \<open>URL\<close> constructor is the parameter \<open>url\<close>: the serialized origin of a string,
  or \<open>None\<close> when it does not parse. A message handler is a number, its calls are logged.
\<close>

section \<open>The origin gate\<close>

fun matchEntries :: "(string \<Rightarrow> string option) \<Rightarrow> string \<Rightarrow> string list \<Rightarrow> bool" where
  "matchEntries url normalizedHost [] = False"
| "matchEntries url normalizedHost (entry # entries) =
     (if entry = ''*'' then True
      else (case url entry of
          None \<Rightarrow> matchEntries url normalizedHost entries
        | Some normalizedEntry \<Rightarrow>
            if normalizedEntry = normalizedHost then True else matchEntries url normalizedHost entries))"

definition matchesAllowedOrigin :: "(string \<Rightarrow> string option) \<Rightarrow> string \<Rightarrow> string list \<Rightarrow> bool" where
  "matchesAllowedOrigin url hostOrigin allowed =
     (if allowed = [] then False
      else (case url hostOrigin of None \<Rightarrow> False | Some h \<Rightarrow> matchEntries url h allowed))"

text \<open>
  The transport is read once: whether the page is embedded and its host origin. The allow-list
  is the org policy's, whose entries are strings once the policy has been validated.
\<close>

definition verifyEmbedOriginAllowed ::
  "(string \<Rightarrow> string option) \<Rightarrow> ResolvedRuntimeProfile \<Rightarrow> OrgRuntimePolicy \<Rightarrow> bool \<Rightarrow> string option \<Rightarrow>
   RuntimePolicyError + unit" where
  "verifyEmbedOriginAllowed url runtimeProfile orgRuntimePolicy isEmbedded hostOrigin =
     (if Embed \<notin> set (enabled runtimeProfile) then Inr ()
      else if \<not> isEmbedded then Inr ()
      else (case hostOrigin of
          None \<Rightarrow> Inl (EmbedOriginNotAllowed HostOriginUnknown)
        | Some host \<Rightarrow>
           (let limits = getEmbedLimits orgRuntimePolicy;
                allowed = map strOf (arrItems (getp limits ''allowedOrigins''))
            in if \<not> matchesAllowedOrigin url host allowed
               then Inl (EmbedOriginNotAllowed (HostOriginNotListed host))
               else Inr ())))"

lemma matchEntries_iff:
  "matchEntries url h es \<longleftrightarrow> ''*'' \<in> set es \<or> (\<exists>e\<in>set es. url e = Some h)"
  by (induction es) (auto split: option.splits)

lemma matchesAllowedOrigin_iff:
  "matchesAllowedOrigin url host allowed \<longleftrightarrow>
     (\<exists>h. url host = Some h \<and> (''*'' \<in> set allowed \<or> (\<exists>e\<in>set allowed. url e = Some h)))"
  by (auto simp: matchesAllowedOrigin_def matchEntries_iff split: option.splits)

text \<open>Over a validated allow-list the entries are origins already, so matching is membership.\<close>

lemma matches_validated:
  assumes "\<forall>e\<in>set allowed. originEntry url e"
  shows "matchesAllowedOrigin url host allowed \<longleftrightarrow>
    (\<exists>h. url host = Some h \<and> (''*'' \<in> set allowed \<or> h \<in> set allowed))"
  using assms unfolding matchesAllowedOrigin_iff originEntry_def by (metis option.inject)

definition allowedOrigins :: "OrgRuntimePolicy \<Rightarrow> string list" where
  "allowedOrigins policy = map strOf (arrItems (getp (getEmbedLimits policy) ''allowedOrigins''))"

lemma allowedOrigins_valid:
  assumes "validateEmbedLimits url (getEmbedLimits policy) = Inr ()"
  shows "\<forall>e\<in>set (allowedOrigins policy). originEntry url e"
proof (cases "getEmbedLimits policy = Undefined")
  case True
  then show ?thesis by (simp add: allowedOrigins_def)
next
  case False
  then obtain xs where "getp (getEmbedLimits policy) ''allowedOrigins'' = Arr xs"
    "\<forall>x\<in>set xs. \<exists>s. x = Str s \<and> originEntry url s"
    using assms by (auto simp: check_simps)
  then show ?thesis by (force simp: allowedOrigins_def)
qed

text \<open>The origin gate is exact: with a validated policy, a form load passes precisely when
  embedding is disabled, or the page is not embedded, or the host's origin is known and it or the
  wildcard is on the allow-list; an unknown host origin never passes.\<close>

lemma embed_gate_exact:
  assumes "validateEmbedLimits url (getEmbedLimits policy) = Inr ()"
  shows "verifyEmbedOriginAllowed url p policy embedded host = Inr () \<longleftrightarrow>
    Embed \<notin> set (enabled p) \<or> \<not> embedded \<or>
    (\<exists>h. Option.bind host url = Some h \<and>
       (''*'' \<in> set (allowedOrigins policy) \<or> h \<in> set (allowedOrigins policy)))"
  using matches_validated [OF allowedOrigins_valid [OF assms]]
  by (auto simp: verifyEmbedOriginAllowed_def Let_def allowedOrigins_def split: option.splits)



section \<open>The transport\<close>

datatype embed_error = WildcardTarget | EmptyTarget | TargetNotUrl string | TargetNotOrigin string string

definition assertWellFormedTargetOrigin :: "(string \<Rightarrow> string option) \<Rightarrow> string \<Rightarrow> embed_error + unit" where
  "assertWellFormedTargetOrigin url v =
     (if v = [] then Inl EmptyTarget
      else (case url v of
          None \<Rightarrow> Inl (TargetNotUrl v)
        | Some origin \<Rightarrow> if origin \<noteq> v then Inl (TargetNotOrigin v origin) else Inr ()))"

text \<open>
  The adapter's state: its options, the messages sent, the set of handlers in insertion order and
  the subscriptions handed out (the handler and whether its unsubscribe function has run).
\<close>

record 'm embed =
  embedded :: bool
  configuredHostOrigin :: "string option"
  sent :: "('m \<times> string) list"
  subscribers :: "nat list"
  tokens :: "(nat \<times> bool) list"
  handled :: "(nat \<times> 'm \<times> string) list"

definition stubEmbedTransport :: "bool \<Rightarrow> string option \<Rightarrow> 'm embed" where
  "stubEmbedTransport isEmb host = \<lparr>embedded = isEmb, configuredHostOrigin = host, sent = [],
     subscribers = [], tokens = [], handled = []\<rparr>"

definition hostOriginOf :: "'m embed \<Rightarrow> string option" where
  "hostOriginOf s = (if embedded s then configuredHostOrigin s else None)"

definition postMessage :: "(string \<Rightarrow> string option) \<Rightarrow> 'm \<Rightarrow> string \<Rightarrow> 'm embed \<Rightarrow> (embed_error + unit) \<times> 'm embed" where
  "postMessage url message targetOrigin s =
     (if targetOrigin = ''*'' then (Inl WildcardTarget, s)
      else (case assertWellFormedTargetOrigin url targetOrigin of
          Inl e \<Rightarrow> (Inl e, s)
        | Inr _ \<Rightarrow> (Inr (), s\<lparr>sent := sent s @ [(message, targetOrigin)]\<rparr>)))"

definition subscribeFromHost :: "nat \<Rightarrow> 'm embed \<Rightarrow> nat \<times> 'm embed" where
  "subscribeFromHost handler s = (length (tokens s),
     s\<lparr>subscribers := (if handler \<in> set (subscribers s) then subscribers s else subscribers s @ [handler]),
       tokens := tokens s @ [(handler, False)]\<rparr>)"

definition unsubscribeFromHost :: "nat \<Rightarrow> 'm embed \<Rightarrow> 'm embed" where
  "unsubscribeFromHost t s =
     (case tokens s ! t of (handler, removed) \<Rightarrow>
        if removed then s
        else s\<lparr>tokens := (tokens s)[t := (handler, True)], subscribers := remove1 handler (subscribers s)\<rparr>)"

definition simulateHostMessage :: "'m \<Rightarrow> string \<Rightarrow> 'm embed \<Rightarrow> 'm embed" where
  "simulateHostMessage message origin s =
     s\<lparr>handled := handled s @ map (\<lambda>h. (h, message, origin)) (subscribers s)\<rparr>"

inductive embed_reach :: "(string \<Rightarrow> string option) \<Rightarrow> 'm embed \<Rightarrow> bool" for url where
  init: "embed_reach url (stubEmbedTransport e h)"
| post: "embed_reach url s \<Longrightarrow> embed_reach url (snd (postMessage url m target s))"
| subscribe: "embed_reach url s \<Longrightarrow> embed_reach url (snd (subscribeFromHost k s))"
| unsubscribe: "embed_reach url s \<Longrightarrow> t < length (tokens s) \<Longrightarrow> embed_reach url (unsubscribeFromHost t s)"
| message: "embed_reach url s \<Longrightarrow> embed_reach url (simulateHostMessage m origin s)"

text \<open>The contract of the port; \<open>sentTo\<close> observes the targets of the messages sent so far.\<close>

locale embed_transport =
  fixes url :: "string \<Rightarrow> string option"
    and isEmbeddedOp :: "'s \<Rightarrow> bool"
    and hostOriginOp :: "'s \<Rightarrow> string option"
    and post :: "'m \<Rightarrow> string \<Rightarrow> 's \<Rightarrow> ('e + unit) \<times> 's"
    and sentTo :: "'s \<Rightarrow> string list"
    and inv :: "'s \<Rightarrow> bool"
  assumes top_level: "inv s \<Longrightarrow> \<not> isEmbeddedOp s \<Longrightarrow> hostOriginOp s = None"
    and post_wildcard: "inv s \<Longrightarrow> isOk (fst (post m ''*'' s)) \<Longrightarrow> False"
    and post_ok: "inv s \<Longrightarrow> post m target s = (Inr u, s') \<Longrightarrow> url target = Some target \<and> sentTo s' = sentTo s @ [target]"
    and post_err: "inv s \<Longrightarrow> post m target s = (Inl e, s') \<Longrightarrow> s' = s"
    and post_inv: "inv s \<Longrightarrow> inv (snd (post m target s))"
begin

fun postAll :: "('m \<times> string) list \<Rightarrow> 's \<Rightarrow> 's" where
  "postAll [] s = s"
| "postAll ((m, target) # ms) s = postAll ms (snd (post m target s))"

text \<open>Whatever is posted, only concrete canonical origins are ever sent to.\<close>

lemma postAll_concrete:
  assumes "inv s" "\<forall>o'\<in>set (sentTo s). url o' = Some o' \<and> o' \<noteq> ''*''"
  shows "\<forall>o'\<in>set (sentTo (postAll ms s)). url o' = Some o' \<and> o' \<noteq> ''*''"
  using assms
proof (induction ms s rule: postAll.induct)
  case (2 m target ms s)
  obtain r s' where r: "post m target s = (r, s')" by fastforce
  have "\<forall>o'\<in>set (sentTo s'). url o' = Some o' \<and> o' \<noteq> ''*''"
  proof (cases r)
    case (Inl e)
    then show ?thesis using post_err [OF 2(2), of m target e s'] r 2(3) by simp
  next
    case (Inr u)
    have "target \<noteq> ''*''" using post_wildcard [OF 2(2), of m] r Inr by auto
    then show ?thesis using post_ok [OF 2(2), of m target u s'] r Inr 2(3) by simp
  qed
  moreover have "inv s'" using post_inv [OF 2(2), of m target] r by simp
  ultimately show ?case using 2(1) r by simp
qed simp

end

lemma postMessage_ok:
  "postMessage url m target s = (Inr u, s') \<Longrightarrow>
     target \<noteq> ''*'' \<and> url target = Some target \<and> s' = s\<lparr>sent := sent s @ [(m, target)]\<rparr>"
  by (auto simp: postMessage_def assertWellFormedTargetOrigin_def split: if_splits option.splits sum.splits)

lemma postMessage_err: "postMessage url m target s = (Inl e, s') \<Longrightarrow> s' = s"
  by (auto simp: postMessage_def split: if_splits sum.splits)

interpretation stubEmbed: embed_transport url embedded hostOriginOf "postMessage url" "\<lambda>s. map snd (sent s)" "embed_reach url"
proof
  show "\<And>s. embed_reach url s \<Longrightarrow> \<not> embedded s \<Longrightarrow> hostOriginOf s = None"
    by (simp add: hostOriginOf_def)
  show "\<And>s m. embed_reach url s \<Longrightarrow> isOk (fst (postMessage url m ''*'' s)) \<Longrightarrow> False"
    by (simp add: postMessage_def)
  show "\<And>s m target u s'. embed_reach url s \<Longrightarrow> postMessage url m target s = (Inr u, s') \<Longrightarrow>
      url target = Some target \<and> map snd (sent s') = map snd (sent s) @ [target]"
    by (drule postMessage_ok) simp
  show "\<And>s m target e s'. embed_reach url s \<Longrightarrow> postMessage url m target s = (Inl e, s') \<Longrightarrow> s' = s"
    by (rule postMessage_err)
  show "\<And>s m target. embed_reach url s \<Longrightarrow> embed_reach url (snd (postMessage url m target s))"
    by (rule embed_reach.post)
qed

text \<open>The wildcard never leaves the page: in every reachable state of the in-memory transport each
  message was sent to a concrete canonical origin.\<close>

lemma embed_targets_concrete:
  assumes "embed_reach url s"
  shows "\<forall>(m, target)\<in>set (sent s). url target = Some target \<and> target \<noteq> ''*''"
  using assms
proof (induction rule: embed_reach.induct)
  case (post s m target)
  obtain r s' where r: "postMessage url m target s = (r, s')" by fastforce
  show ?case
  proof (cases r)
    case (Inl e)
    then show ?thesis using post r postMessage_err [of url m target s e s'] by simp
  next
    case (Inr u)
    then show ?thesis using post r postMessage_ok [of url m target s u s'] by auto
  qed
next
  case (unsubscribe s t)
  then show ?case by (auto simp: unsubscribeFromHost_def split: prod.splits)
qed (auto simp: stubEmbedTransport_def subscribeFromHost_def simulateHostMessage_def)

end
