(* ===== verification/Form_Load.thy ===== *)
theory Form_Load
  imports Identity_Adapters Embed Form_Extract
begin

text \<open>
  The form-load boundary of \<open>src/app/RespondentRuntime.tsx\<close>: \<open>bootIdentity\<close>,
  \<open>identityClaimAllowedForPolicy\<close> and the admission steps of \<open>createReadyState\<close>, in order,
  up to the point where documents and drafts are loaded. The identity provider is an argument (its
  discovery and authentication over a private state, and the claim it replays to a new
  subscriber); so are the form-policy extractor, the host page and the browser's online flag.
\<close>

section \<open>Boot\<close>

text \<open>A picker policy: is the identity mode \<open>oidc-required\<close>, and the runtime mode.\<close>

record pickerPolicy =
  oidcRequired :: bool
  runtimeMode :: run_mode

abbreviation signIn :: "IdpOption list \<Rightarrow> pickerPolicy \<Rightarrow> IdpOption list" where
  "signIn options policy \<equiv>
     signInOptionsForIdentityPolicy options (oidcRequired policy) (runtimeMode policy = Production)"

definition identityClaimAllowedForPolicy :: "IdentityClaim option \<Rightarrow> pickerPolicy option \<Rightarrow> bool" where
  "identityClaimAllowedForPolicy claim policy = (case policy of None \<Rightarrow> True
     | Some p \<Rightarrow> runtimeMode p \<noteq> Production \<or> \<not> oidcRequired p \<or>
         map_option credentialType claim = Some ''oidc-token'')"

definition bootIdentity ::
  "(AssuranceLevel option \<Rightarrow> 's \<Rightarrow> ('e + IdpOption list) \<times> 's) \<Rightarrow>
   (IdpOption \<Rightarrow> 's \<Rightarrow> ('e + IdentityClaim) \<times> 's) \<Rightarrow> ('s \<Rightarrow> IdentityClaim option) \<Rightarrow>
   AssuranceLevel \<Rightarrow> pickerPolicy option \<Rightarrow> 's \<Rightarrow> ('e + IdentityClaim option \<times> IdpOption list) \<times> 's" where
  "bootIdentity discover authenticate replayed needs policy s = (case discover (Some needs) s of
     (Inl e, s1) \<Rightarrow> (Inl e, s1)
   | (Inr options, s1) \<Rightarrow>
      (let currentClaim = replayed s1
       in if currentClaim \<noteq> None \<and> identityClaimAllowedForPolicy currentClaim policy
          then (Inr (currentClaim, options), s1)
          else (let pickerWillRender = (case policy of None \<Rightarrow> False | Some p \<Rightarrow> signIn options p \<noteq> [])
                in case selectBootIdentityOption options pickerWillRender of
                     None \<Rightarrow> (Inr (None, options), s1)
                   | Some opt \<Rightarrow> (case authenticate opt s1 of
                        (Inl e, s2) \<Rightarrow> (Inl e, s2)
                      | (Inr claim, s2) \<Rightarrow> (Inr (Some claim, options), s2)))))"

text \<open>How a boot under \<open>oidc-required\<close> in production can end with a claim.\<close>

lemma boot_oidc_required:
  assumes "bootIdentity discover authenticate replayed needs (Some p) s = (Inr (Some c, options), s')"
    and "oidcRequired p" "runtimeMode p = Production"
  shows "credentialType c = ''oidc-token'' \<or>
    filter isOidc options = [] \<and> AnonymousOption \<in> set options \<and>
    (\<exists>s1. authenticate AnonymousOption s1 = (Inr c, s'))"
  using assms
  by (auto simp: bootIdentity_def identityClaimAllowedForPolicy_def Let_def signInOptionsForIdentityPolicy_def
      selectBootIdentityOption_def find_Some_iff in_set_conv_nth split: prod.splits sum.splits if_splits option.splits)


section \<open>Admission\<close>

datatype admission_error =
    IdentityRejected identity_error
  | InvalidAssurance identity_error
  | ExtractorThrew string
  | PolicyRejected RuntimePolicyError

datatype 'e load_error =
    AdmissionFailed admission_error
  | NoProviderFor "AssuranceLevel option"
  | ProviderFailed 'e

datatype load_outcome =
    Admitted ResolvedRuntimeProfile
  | StepUpRequired "IdpOption list" "AssuranceLevel option"

record load_env =
  composition_mode :: run_mode
  loadCapabilities :: props
  orgRuntimePolicy :: OrgRuntimePolicy
  extractPolicy :: "jsval \<Rightarrow> string + FormRuntimePolicy"
  identityOidcRequired :: bool
  pageEmbedded :: bool
  pageHostOrigin :: "string option"
  onLine :: bool

abbreviation identityPolicy :: "load_env \<Rightarrow> pickerPolicy" where
  "identityPolicy env \<equiv> \<lparr>oidcRequired = identityOidcRequired env, runtimeMode = composition_mode env\<rparr>"

abbreviation profileInput :: "load_env \<Rightarrow> FormRuntimePolicy \<Rightarrow> ResolveRuntimeFeaturesInput" where
  "profileInput env formPolicy \<equiv> \<lparr>mode = composition_mode env, inst = loadCapabilities env,
     org = orgRuntimePolicy env, form = formPolicy\<rparr>"

text \<open>The checks before the assurance gate, giving the profile and the form's floor.\<close>

definition loadProfile ::
  "(string \<Rightarrow> string option) \<Rightarrow> load_env \<Rightarrow> IdentityClaim option \<Rightarrow> jsval \<Rightarrow>
   admission_error + ResolvedRuntimeProfile \<times> AssuranceLevel option" where
  "loadProfile url env claim def =
     bindR (map_sum IdentityRejected id (assertIdentityPolicySatisfied claim
        (oidcRequired (identityPolicy env)) (runtimeMode (identityPolicy env) = Production))) (\<lambda>_.
     bindR (map_sum InvalidAssurance id (formAssuranceFloorForDefinition def)) (\<lambda>needs.
     bindR (map_sum ExtractorThrew id (extractPolicy env def)) (\<lambda>formPolicy.
     bindR (map_sum PolicyRejected id (resolveRuntimeFeatures url (profileInput env formPolicy))) (\<lambda>profile.
     bindR (map_sum PolicyRejected id (verifyEmbedOriginAllowed url profile (orgRuntimePolicy env)
        (pageEmbedded env) (pageHostOrigin env))) (\<lambda>_.
     bindR (throwIf (Payment \<in> set (enabled profile) \<and> OfflineSubmit \<in> set (enabled profile) \<and> \<not> onLine env)
        (PolicyRejected PaymentRequiresOnline)) (\<lambda>_.
       Inr (profile, needs)))))))"

definition createReadyState ::
  "(string \<Rightarrow> string option) \<Rightarrow> (AssuranceLevel option \<Rightarrow> 's \<Rightarrow> ('e + IdpOption list) \<times> 's) \<Rightarrow>
   load_env \<Rightarrow> IdentityClaim option \<Rightarrow> jsval \<Rightarrow> 's \<Rightarrow> ('e load_error + load_outcome) \<times> 's" where
  "createReadyState url discover env claim def s = (case loadProfile url env claim def of
     Inl e \<Rightarrow> (Inl (AdmissionFailed e), s)
   | Inr (profile, needs) \<Rightarrow>
      if identityClaimMeetsAssurance claim needs then (Inr (Admitted profile), s)
      else (case discover needs s of
          (Inl e, s1) \<Rightarrow> (Inl (ProviderFailed e), s1)
        | (Inr discovered, s1) \<Rightarrow>
           (let signInOptions = signIn (filter (\<lambda>opt. idpOptionMeetsAssurance opt needs) discovered)
                  (identityPolicy env)
            in if signInOptions = [] then (Inl (NoProviderFor needs), s1)
               else (Inr (StepUpRequired signInOptions needs), s1))))"

lemma map_sum_id_Inr: "map_sum f id r = Inr y \<longleftrightarrow> r = Inr y"
  by (cases r) auto

lemma loadProfile_Inr:
  "loadProfile url env claim def = Inr (profile, needs) \<longleftrightarrow>
     assertIdentityPolicySatisfied claim (identityOidcRequired env) (composition_mode env = Production) = Inr () \<and>
     formAssuranceFloorForDefinition def = Inr needs \<and>
     (\<exists>formPolicy. extractPolicy env def = Inr formPolicy \<and>
        resolveRuntimeFeatures url (profileInput env formPolicy) = Inr profile) \<and>
     verifyEmbedOriginAllowed url profile (orgRuntimePolicy env) (pageEmbedded env) (pageHostOrigin env) = Inr () \<and>
     \<not> (Payment \<in> set (enabled profile) \<and> OfflineSubmit \<in> set (enabled profile) \<and> \<not> onLine env)"
  by (auto simp: loadProfile_def bindR_Inr_iff map_sum_id_Inr)

lemma createReadyState_admitted:
  "createReadyState url discover env claim def s = (Inr (Admitted profile), s') \<longleftrightarrow> s' = s \<and>
     (\<exists>needs. loadProfile url env claim def = Inr (profile, needs) \<and> identityClaimMeetsAssurance claim needs)"
  by (auto simp: createReadyState_def Let_def split: sum.splits prod.splits if_splits)

lemma createReadyState_step_up:
  assumes "createReadyState url discover env claim def s = (Inr (StepUpRequired options needs), s')"
  shows "\<exists>profile discovered. loadProfile url env claim def = Inr (profile, needs) \<and>
    \<not> identityClaimMeetsAssurance claim needs \<and> discover needs s = (Inr discovered, s') \<and>
    options \<noteq> [] \<and> set options \<subseteq> {opt\<in>set discovered. idpOptionMeetsAssurance opt needs}"
  using assms
  by (auto simp: createReadyState_def Let_def signInOptionsForIdentityPolicy_def
      split: sum.splits prod.splits if_splits)

lemma validated_embed:
  "validateInput url input = Inr () \<Longrightarrow> validateEmbedLimits url (getEmbedLimits (org input)) = Inr ()"
  by (simp add: validateInput_def getEmbedLimits_def check_simps)

lemma resolve_validated: "resolveRuntimeFeatures url input = Inr p \<Longrightarrow> validateInput url input = Inr ()"
  by (auto simp: resolveRuntimeFeatures_def bindR_Inr_iff)

lemma profile_embed_gate:
  assumes "resolveRuntimeFeatures url (profileInput env formPolicy) = Inr profile"
  shows "verifyEmbedOriginAllowed url profile (orgRuntimePolicy env) emb host = Inr () \<longleftrightarrow>
    Embed \<notin> set (enabled profile) \<or> \<not> emb \<or>
    (\<exists>h. Option.bind host url = Some h \<and>
       (''*'' \<in> set (allowedOrigins (orgRuntimePolicy env)) \<or> h \<in> set (allowedOrigins (orgRuntimePolicy env))))"
  using embed_gate_exact [OF validated_embed [OF resolve_validated [OF assms]]] by simp

definition sampleEnv :: load_env where
  "sampleEnv = \<lparr>composition_mode = Production, loadCapabilities = sampleCaps,
     orgRuntimePolicy = sampleOrg, extractPolicy = (\<lambda>_. Inr sampleForm), identityOidcRequired = True,
     pageEmbedded = False, pageHostOrigin = None, onLine = True\<rparr>"

definition steppedForm :: jsval where
  "steppedForm = Obj [(''metadata'', Obj [(''assurance'', Obj [(''ial'', Str ''L2'')])])]"

lemma steppedForm_floor: "formAssuranceFloorForDefinition steppedForm = Inr (Some L2)"
  by code_simp

lemma sampleEnv_profile:
  obtains p where "resolveRuntimeFeatures (\<lambda>_. None) (profileInput sampleEnv sampleForm) = Inr p"
    "enabled p = [FileUpload, Payment, SafeAddress]"
proof -
  have "profileInput sampleEnv sampleForm = sampleInput Production" by (simp add: sampleEnv_def sampleInput_def)
  then show ?thesis using sample_profile that by metis
qed

text \<open>The declared assurance of a definition is absent or an object with known levels.\<close>

definition assuranceWellFormed :: "jsval \<Rightarrow> bool" where
  "assuranceWellFormed d =
    (let m = getp d ''metadata''; a = getp m ''assurance'' in
     (m = Undefined \<or> isPlainObject m) \<and> (a = Undefined \<or> isPlainObject a) \<and>
     list_all (\<lambda>k. getp a k = Undefined \<or> isAssuranceLevel (getp a k) \<noteq> None) [''ial'', ''aal''] \<and>
     (getp a ''jurisdiction'' = Undefined \<or> isString (getp a ''jurisdiction'')))"

lemma optionalObject_eq:
  "optionalObject v k = (if getp v k = Undefined then Inr None else if isPlainObject (getp v k) then Inr (Some (getp v k)) else Inl (NotAnObject k))"
  by (cases v) (auto simp: optionalObject_def Let_def)

lemma optionalAssuranceLevel_ok: "(\<exists>x. optionalAssuranceLevel a k = Inr x) \<longleftrightarrow> getp a k = Undefined \<or> isAssuranceLevel (getp a k) \<noteq> None"
  by (auto simp: optionalAssuranceLevel_def Let_def split: option.split)

lemma optionalString_ok: "(\<exists>x. optionalString a k = Inr x) \<longleftrightarrow> getp a k = Undefined \<or> isString (getp a k)"
  by (auto simp: optionalString_def Let_def)

lemma floor_of_object:
  "(\<exists>y. bindR p (\<lambda>i. bindR q (\<lambda>l. bindR r (\<lambda>_. Inr (f i l)))) = Inr y) \<longleftrightarrow>
     (\<exists>x. p = Inr x) \<and> (\<exists>x. q = Inr x) \<and> (\<exists>x. r = Inr x)"
  by (cases p; cases q; cases r) simp_all

lemma assurance_floor_ok: "(\<exists>needs. formAssuranceFloorForDefinition d = Inr needs) \<longleftrightarrow> assuranceWellFormed d"
proof -
  define m a where "m = getp d ''metadata''" and "a = getp m ''assurance''"
  note eqs = formAssuranceFloorForDefinition_def assuranceWellFormed_def optionalObject_eq m_def [symmetric] Let_def
  consider "m = Undefined" | "m \<noteq> Undefined" "\<not> isPlainObject m" | "m \<noteq> Undefined" "isPlainObject m" by blast
  then show ?thesis
  proof cases
    case 1
    then show ?thesis by (simp add: eqs)
  next
    case 2
    then show ?thesis by (simp add: eqs)
  next
    case 3
    then have f: "formAssuranceFloorForDefinition d = (if a = Undefined then Inr None else if \<not> isPlainObject a then Inl (NotAnObject ''assurance'')
        else bindR (optionalAssuranceLevel a ''ial'') (\<lambda>i. bindR (optionalAssuranceLevel a ''aal'') (\<lambda>l.
          bindR (optionalString a ''jurisdiction'') (\<lambda>_. Inr (case (i, l) of (None, _) \<Rightarrow> l | (_, None) \<Rightarrow> i
            | (Some x, Some y) \<Rightarrow> if assuranceRank x \<ge> assuranceRank y then i else l)))))"
      by (simp add: eqs a_def)
    have w: "assuranceWellFormed d \<longleftrightarrow> (a = Undefined \<or> isPlainObject a) \<and>
        list_all (\<lambda>k. getp a k = Undefined \<or> isAssuranceLevel (getp a k) \<noteq> None) [''ial'', ''aal''] \<and>
        (getp a ''jurisdiction'' = Undefined \<or> isString (getp a ''jurisdiction''))"
      using 3 by (simp add: assuranceWellFormed_def Let_def m_def [symmetric] a_def)
    show ?thesis
    proof (cases "a = Undefined \<or> \<not> isPlainObject a")
      case True
      then show ?thesis by (auto simp: f w)
    next
      case False
      then show ?thesis by (simp add: f w floor_of_object optionalAssuranceLevel_ok optionalString_ok)
    qed
  qed
qed

text \<open>C4. What a loaded form stands for: the load boundary admits a form under a profile precisely when
  the identity policy has its claim, the declared assurance is well-formed and the claim meets every
  declared level, the extractor and the resolver give that profile, the host page (if any, with
  embedding enabled) has a known origin on the deployment's allow-list, and a fee-bearing form that
  can queue offline is loaded online; the identity provider is not consulted.\<close>

theorem form_admitted_iff:
  "createReadyState url discover env claim def s = (Inr (Admitted profile), s') \<longleftrightarrow>
    s' = s \<and>
    \<not> (composition_mode env = Production \<and> identityOidcRequired env \<and> claim = None) \<and>
    assuranceWellFormed def \<and>
    (\<forall>l\<in>declaredLevels def. \<exists>c. claim = Some c \<and> l \<le> assuranceLevel c) \<and>
    (\<exists>formPolicy. extractPolicy env def = Inr formPolicy \<and> resolveRuntimeFeatures url (profileInput env formPolicy) = Inr profile) \<and>
    (Embed \<notin> set (enabled profile) \<or> \<not> pageEmbedded env \<or>
      (\<exists>h. Option.bind (pageHostOrigin env) url = Some h \<and>
         (''*'' \<in> set (allowedOrigins (orgRuntimePolicy env)) \<or> h \<in> set (allowedOrigins (orgRuntimePolicy env))))) \<and>
    \<not> (Payment \<in> set (enabled profile) \<and> OfflineSubmit \<in> set (enabled profile) \<and> \<not> onLine env)"
proof (cases "\<exists>needs formPolicy. formAssuranceFloorForDefinition def = Inr needs \<and> extractPolicy env def = Inr formPolicy \<and>
    resolveRuntimeFeatures url (profileInput env formPolicy) = Inr profile")
  case True
  then obtain needs formPolicy where ok: "formAssuranceFloorForDefinition def = Inr needs" "extractPolicy env def = Inr formPolicy"
      "resolveRuntimeFeatures url (profileInput env formPolicy) = Inr profile" by blast
  moreover have "assuranceWellFormed def" using ok(1) assurance_floor_ok by blast
  ultimately show ?thesis
    by (simp add: createReadyState_admitted loadProfile_Inr assurance_floor_strictest [OF ok(1), symmetric]
        profile_embed_gate [OF ok(3)] assertIdentityPolicySatisfied_def conj_ac)
next
  case False
  then show ?thesis using assurance_floor_ok [of def] by (auto simp: createReadyState_admitted loadProfile_Inr)
qed

theorem form_admitted_iff_witness:
  "\<exists>p. createReadyState (\<lambda>_. None) stubDiscover sampleEnv (Some (claimForOption ''x'' (stubOptions ! 1))) steppedForm
     emptySession = (Inr (Admitted p), emptySession)"
proof -
  obtain p where p: "resolveRuntimeFeatures (\<lambda>_. None) (profileInput sampleEnv sampleForm) = Inr p"
    "enabled p = [FileUpload, Payment, SafeAddress]" by (rule sampleEnv_profile)
  have x: "extractPolicy sampleEnv steppedForm = Inr sampleForm" by (simp add: sampleEnv_def)
  have "declaredLevels steppedForm = {L2}"
    by (auto simp: declaredLevels_def steppedForm_def isAssuranceLevel_def)
  moreover have "L2 \<le> L3" by (simp add: less_eq_AssuranceLevel_def)
  moreover have "assuranceWellFormed steppedForm" using assurance_floor_ok steppedForm_floor by blast
  ultimately show ?thesis
    using p x by (intro exI [of _ p], subst form_admitted_iff) (auto simp: sampleEnv_def stubOptions_def)
qed

context identity_provider
begin

text \<open>One step-up suffices: the claim of any option the boundary asked for is admitted.\<close>

lemma step_up_admits:
  assumes "inv s" "createReadyState url discover env claim def s = (Inr (StepUpRequired options needs), s1)"
    and "opt \<in> set options" "authenticate opt s1 = (Inr c, s2)"
  shows "\<exists>profile. createReadyState url discover env (Some c) def s2 = (Inr (Admitted profile), s2)"
proof -
  obtain profile discovered where p: "loadProfile url env claim def = Inr (profile, needs)"
    and d: "discover needs s = (Inr discovered, s1)" "opt \<in> set discovered"
    using createReadyState_step_up [OF assms(2)] assms(3) by blast
  have "meetsAssurance (assuranceLevel c) needs" using step_up [OF assms(1) d assms(4)] by simp
  then have "identityClaimMeetsAssurance (Some c) needs"
    by (simp add: identityClaimMeets_iff meetsAssurance_def split: option.splits)
  moreover have "loadProfile url env (Some c) def = Inr (profile, needs)"
    using p by (simp add: loadProfile_Inr assertIdentityPolicySatisfied_def)
  ultimately show ?thesis by (auto simp: createReadyState_admitted)
qed

end

text \<open>One step-up suffices: when the boundary asks for a stronger sign-in, authenticating any of
  the options it returned, through the OIDC adapter or through a composing provider, gives a claim
  with which the same form is admitted.\<close>

theorem step_up_then_admitted:
  assumes "session_reach (oidcSession s)"
    and "createReadyState url (oidcDiscover config) env claim def s = (Inr (StepUpRequired options needs), s1)"
    and "opt \<in> set options" "oidcAuthenticate sha256 config reads opt s1 = (Inr c, s2)"
  shows "\<exists>profile. createReadyState url (oidcDiscover config) env (Some c) def s2 = (Inr (Admitted profile), s2)"
  by (rule oidcIdp.step_up_admits [OF assms])

theorem step_up_then_admitted_witness:
  "\<exists>profile claim s2. createReadyState (\<lambda>_. None) (oidcDiscover sampleOidcConfig) sampleEnv (Some claim) steppedForm s2
     = (Inr (Admitted profile), s2)"
proof -
  obtain p where p: "resolveRuntimeFeatures (\<lambda>_. None) (profileInput sampleEnv sampleForm) = Inr p"
    "enabled p = [FileUpload, Payment, SafeAddress]" by (rule sampleEnv_profile)
  let ?weak = "Some anonymousClaim"
  have load: "loadProfile (\<lambda>_. None) sampleEnv ?weak steppedForm = Inr (p, Some L2)"
    using p by (simp add: loadProfile_Inr steppedForm_floor assertIdentityPolicySatisfied_def sampleEnv_def
        verifyEmbedOriginAllowed_def)
  have opts: "idpOptionMeetsAssurance (oidcOption sampleOidcConfig) (Some L2)" "isOidc (oidcOption sampleOidcConfig)"
    "oidcOption sampleOidcConfig \<noteq> AnonymousOption" "composition_mode sampleEnv = Production"
    by (simp_all add: sampleEnv_def idpOptionMeetsAssurance_def isOidc_def oidcOption_def sampleOidcConfig_def)
  have "\<not> identityClaimMeetsAssurance ?weak (Some L2)"
    by (simp add: identityClaimMeetsAssurance_def anonymousClaim_def)
  moreover have "oidcDiscover sampleOidcConfig (Some L2) emptyOidc = (Inr [oidcOption sampleOidcConfig], emptyOidc)"
    by (simp add: oidcDiscover_def singleOffer_def oidcOption_def sampleOidcConfig_def)
  ultimately have r: "createReadyState (\<lambda>_. None) (oidcDiscover sampleOidcConfig) sampleEnv ?weak steppedForm emptyOidc
      = (Inr (StepUpRequired [oidcOption sampleOidcConfig] (Some L2)), emptyOidc)"
    by (simp add: createReadyState_def load Let_def signInOptionsForIdentityPolicy_def opts)
  let ?run = "oidcAuthenticate None sampleOidcConfig sampleReads (oidcOption sampleOidcConfig) emptyOidc"
  have "map_sum id assuranceLevel (fst ?run) = Inr L3" by code_simp
  from map_sum_InrD [OF this] obtain claim where "fst ?run = Inr claim" by blast
  then obtain s2 where run: "?run = (Inr claim, s2)" by (cases ?run) simp
  have "session_reach (oidcSession emptyOidc)" by (simp add: emptyOidc_def session_reach.init)
  from step_up_then_admitted [OF this r _ run] show ?thesis by auto
qed

text \<open>The reference composition never boots anonymously under \<open>oidc-required\<close>: its selection
  only yields the OIDC provider, and booting over it in production ends without a claim or with
  an OIDC claim replayed by the session.\<close>

theorem oidc_required_never_anonymous:
  assumes "identityProviderFor True kind oidcConfig ctx = Inr binding"
  shows "\<exists>config. binding = OidcBinding config \<and>
    (\<forall>sha256 reads needs p s. oidcRequired p \<and> runtimeMode p = Production \<longrightarrow>
       (case fst (bootIdentity (oidcDiscover config) (oidcAuthenticate sha256 config reads)
            (\<lambda>s. current (oidcSession s)) needs (Some p) s) of
          Inl _ \<Rightarrow> False
        | Inr (claim, options) \<Rightarrow> \<forall>c. claim = Some c \<longrightarrow> credentialType c = ''oidc-token''))"
proof -
  obtain config where b: "binding = OidcBinding config" using identityProviderFor_oidc [OF assms] by blast
  have no_anon: "AnonymousOption \<notin> set (singleOffer (oidcOption config) needs)" for needs
    by (simp add: singleOffer_mem oidcOption_def)
  have boot: "case fst (bootIdentity (oidcDiscover config) (oidcAuthenticate sha256 config reads)
            (\<lambda>s. current (oidcSession s)) needs (Some p) s) of
          Inl _ \<Rightarrow> False
        | Inr (claim, options) \<Rightarrow> \<forall>c. claim = Some c \<longrightarrow> credentialType c = ''oidc-token''"
    if "oidcRequired p" "runtimeMode p = Production" for sha256 reads needs p s
  proof (cases "bootIdentity (oidcDiscover config) (oidcAuthenticate sha256 config reads)
            (\<lambda>s. current (oidcSession s)) needs (Some p) s")
    case (Pair r s')
    show ?thesis
    proof (cases r)
      case (Inl e)
      have "find (\<lambda>opt. opt = AnonymousOption) (singleOffer (oidcOption config) (Some needs)) = None"
        using no_anon by (auto simp: find_None_iff)
      with Pair Inl show ?thesis
        by (simp add: bootIdentity_def oidcDiscover_def Let_def selectBootIdentityOption_def split: if_splits)
    next
      case (Inr co)
      obtain claim options where co: "co = (claim, options)" by (cases co)
      have "options = singleOffer (oidcOption config) (Some needs)"
        using Pair Inr co
        by (auto simp: bootIdentity_def oidcDiscover_def Let_def split: if_splits option.splits prod.splits sum.splits)
      then have "AnonymousOption \<notin> set options" using no_anon by simp
      then have "credentialType c = ''oidc-token''" if "claim = Some c" for c
        using boot_oidc_required [of _ _ _ needs p s c options s'] Pair Inr co that \<open>oidcRequired p\<close>
          \<open>runtimeMode p = Production\<close> by blast
      with Pair Inr co show ?thesis by simp
    qed
  qed
  from b boot show ?thesis by blast
qed

theorem oidc_required_never_anonymous_witness:
  "\<exists>config. identityProviderFor True OidcKind (Some sampleOidcConfig) True = Inr (OidcBinding config)"
proof -
  have r: "identityProviderFor True OidcKind (Some sampleOidcConfig) True = Inr (OidcBinding sampleOidcConfig)"
    by (simp add: identityProviderFor_def)
  from oidc_required_never_anonymous [OF r] r show ?thesis by blast
qed

end
