(* ===== verification/Coherence.thy ===== *)
theory Coherence
  imports Feature_Policy "HOL-Library.AList"
begin

text \<open>
  Adapter provenance markers (\<open>src/policy/sentinel.ts\<close>) and the coherence assertion every
  composition root runs at boot (\<open>src/policy/composition-coherence.ts\<close>). A wired adapter is the
  value of a composition slot; of an adapter object only the two symbol-keyed markers are
  observable here. The error keeps the feature key and the kind; its message text is left out.
\<close>

section \<open>Provenance markers\<close>

record AdapterProvenanceMeta =
  metaFeatureKey :: feature_key
  metaReason :: string

text \<open>The symbol-keyed properties of an adapter object: absent, or holding the metadata.\<close>

record adapter =
  UNAVAILABLE_ADAPTER :: "AdapterProvenanceMeta option"
  DEMO_STUB_ADAPTER :: "AdapterProvenanceMeta option"

datatype slot = NotWired | Primitive jsval | Wired adapter

datatype marker_error = AlreadyMarked

definition assertNotAlreadyMarked :: "adapter \<Rightarrow> marker_error + unit" where
  "assertNotAlreadyMarked a =
     throwIf (UNAVAILABLE_ADAPTER a \<noteq> None \<or> DEMO_STUB_ADAPTER a \<noteq> None) AlreadyMarked"

definition markUnavailableAdapter ::
  "adapter \<Rightarrow> AdapterProvenanceMeta \<Rightarrow> marker_error + adapter" where
  "markUnavailableAdapter a meta =
     bindR (assertNotAlreadyMarked a) (\<lambda>_. Inr (a\<lparr>UNAVAILABLE_ADAPTER := Some meta\<rparr>))"

definition markDemoStubAdapter ::
  "adapter \<Rightarrow> AdapterProvenanceMeta \<Rightarrow> marker_error + adapter" where
  "markDemoStubAdapter a meta =
     bindR (assertNotAlreadyMarked a) (\<lambda>_. Inr (a\<lparr>DEMO_STUB_ADAPTER := Some meta\<rparr>))"

fun isUnavailableAdapter :: "slot \<Rightarrow> bool" where
  "isUnavailableAdapter (Wired a) = (UNAVAILABLE_ADAPTER a \<noteq> None)"
| "isUnavailableAdapter _ = False"

fun isDemoStubAdapter :: "slot \<Rightarrow> bool" where
  "isDemoStubAdapter (Wired a) = (DEMO_STUB_ADAPTER a \<noteq> None)"
| "isDemoStubAdapter _ = False"

text \<open>An adapter in use carries at most one marker: new objects have none, marking keeps it so.\<close>

inductive marked_adapter :: "adapter \<Rightarrow> bool" where
  fresh: "marked_adapter \<lparr>UNAVAILABLE_ADAPTER = None, DEMO_STUB_ADAPTER = None\<rparr>"
| unavailable: "marked_adapter a \<Longrightarrow> markUnavailableAdapter a meta = Inr b \<Longrightarrow> marked_adapter b"
| demoStub: "marked_adapter a \<Longrightarrow> markDemoStubAdapter a meta = Inr b \<Longrightarrow> marked_adapter b"

lemma markUnavailableAdapter_ok:
  "markUnavailableAdapter a meta = Inr b \<longleftrightarrow> UNAVAILABLE_ADAPTER a = None \<and>
     DEMO_STUB_ADAPTER a = None \<and> b = a\<lparr>UNAVAILABLE_ADAPTER := Some meta\<rparr>"
  by (auto simp: markUnavailableAdapter_def assertNotAlreadyMarked_def bindR_Inr_iff)

lemma markDemoStubAdapter_ok:
  "markDemoStubAdapter a meta = Inr b \<longleftrightarrow> UNAVAILABLE_ADAPTER a = None \<and>
     DEMO_STUB_ADAPTER a = None \<and> b = a\<lparr>DEMO_STUB_ADAPTER := Some meta\<rparr>"
  by (auto simp: markDemoStubAdapter_def assertNotAlreadyMarked_def bindR_Inr_iff)


section \<open>The coherence assertion\<close>

record CompositionLike =
  compMode :: run_mode
  instanceCapabilities :: props
  ports :: "port_name \<Rightarrow> slot"

datatype CompositionIncoherenceKind =
    SentinelWithoutUnavailableDeclaration | UnavailableDeclarationWithoutSentinel
  | DemoStubAdapterInProductionComposition | DemoStubAdapterWithoutDemoStubDeclaration
  | DemoStubDeclarationWithoutDemoStubAdapter | AvailableDeclarationPairedWithMarkedAdapter
  | SharedSlotDeclarationConflict | FeatureWithoutPortBinding

record CompositionIncoherenceError =
  errFeatureKey :: feature_key
  errKind :: CompositionIncoherenceKind

definition declaredFor :: "CompositionLike \<Rightarrow> feature_key \<Rightarrow> jsval" where
  "declaredFor composition k = propOf (instanceCapabilities composition) (keyName k)"

text \<open>The \<open>portToKeys\<close> map, built key by key and port by port.\<close>

fun addPortKeys ::
  "feature_key \<Rightarrow> port_name list \<Rightarrow> (port_name \<times> feature_key list) list \<Rightarrow>
   (port_name \<times> feature_key list) list" where
  "addPortKeys featureKey [] m = m"
| "addPortKeys featureKey (portName # ps) m =
     addPortKeys featureKey ps
       (AList.update portName
          ((case map_of m portName of None \<Rightarrow> [] | Some ks \<Rightarrow> ks) @ [featureKey]) m)"

definition portToKeys :: "(port_name \<times> feature_key list) list" where
  "portToKeys = fold (\<lambda>k. addPortKeys k (featurePortNames k)) RUNTIME_FEATURE_KEYS []"

definition slotKeysOf :: "feature_key \<Rightarrow> port_name \<Rightarrow> feature_key list" where
  "slotKeysOf featureKey portName =
     (case map_of portToKeys portName of None \<Rightarrow> [featureKey] | Some ks \<Rightarrow> ks)"

definition checkPort ::
  "CompositionLike \<Rightarrow> feature_key \<Rightarrow> port_name \<Rightarrow> CompositionIncoherenceError + unit" where
  "checkPort composition featureKey portName =
     (let declared = declaredFor composition featureKey;
          adapter = ports composition portName;
          adapterIsUnavailable = isUnavailableAdapter adapter;
          adapterIsDemoStub = isDemoStubAdapter adapter;
          slotKeys = slotKeysOf featureKey portName;
          slotIsShared = length slotKeys > 1;
          slotHasNonUnavailableKey =
            list_ex (\<lambda>k. declaredFor composition k \<noteq> Str ''unavailable'') slotKeys;
          fail = (\<lambda>kind. \<lparr>errFeatureKey = featureKey, errKind = kind\<rparr>)
      in if adapter = NotWired \<or> adapter = Primitive Undefined then
           Inl (fail FeatureWithoutPortBinding)
         else if slotIsShared \<and> declared = Str ''unavailable'' \<and> slotHasNonUnavailableKey then Inr ()
         else checks
           [throwIf (adapterIsUnavailable \<and> declared \<noteq> Str ''unavailable'')
              (fail SentinelWithoutUnavailableDeclaration),
            throwIf (declared = Str ''unavailable'' \<and> \<not> adapterIsUnavailable)
              (fail UnavailableDeclarationWithoutSentinel),
            throwIf (adapterIsDemoStub \<and> compMode composition = Production)
              (fail DemoStubAdapterInProductionComposition),
            throwIf (adapterIsDemoStub \<and> declared \<noteq> Str ''demo-stub'')
              (fail DemoStubAdapterWithoutDemoStubDeclaration),
            throwIf (declared = Str ''demo-stub'' \<and> \<not> adapterIsDemoStub)
              (fail DemoStubDeclarationWithoutDemoStubAdapter),
            throwIf (declared = Str ''available'' \<and> (adapterIsUnavailable \<or> adapterIsDemoStub))
              (fail (if slotIsShared then SharedSlotDeclarationConflict
                     else AvailableDeclarationPairedWithMarkedAdapter))])"

definition checkFeature ::
  "CompositionLike \<Rightarrow> feature_key \<Rightarrow> CompositionIncoherenceError + unit" where
  "checkFeature composition featureKey =
     (let declared = declaredFor composition featureKey;
          portNames = featurePortNames featureKey
      in if featureKey = MultiParty \<and> declared = Str ''unavailable'' then Inr ()
         else if portNames = [] then
           throwIf (declared \<noteq> Str ''unavailable'')
             \<lparr>errFeatureKey = featureKey, errKind = FeatureWithoutPortBinding\<rparr>
         else forEach (checkPort composition featureKey) portNames)"

definition assertCompositionCoherence ::
  "CompositionLike \<Rightarrow> CompositionIncoherenceError + unit" where
  "assertCompositionCoherence composition = forEach (checkFeature composition) RUNTIME_FEATURE_KEYS"

definition freezeComposition ::
  "CompositionLike \<Rightarrow> CompositionIncoherenceError + CompositionLike" where
  "freezeComposition composition =
     bindR (assertCompositionCoherence composition) (\<lambda>_. Inr composition)"


section \<open>The declarative rules\<close>

text \<open>The three rules of the source's header comment for a declaration and a wired slot.\<close>

definition agrees :: "run_mode \<Rightarrow> jsval \<Rightarrow> slot \<Rightarrow> bool" where
  "agrees m declared s \<longleftrightarrow>
     (isUnavailableAdapter s \<longleftrightarrow> declared = Str ''unavailable'') \<and>
     (isDemoStubAdapter s \<longleftrightarrow> declared = Str ''demo-stub'') \<and>
     (isDemoStubAdapter s \<longrightarrow> m = Demo)"

definition wired :: "CompositionLike \<Rightarrow> port_name \<Rightarrow> bool" where
  "wired composition p \<longleftrightarrow> ports composition p \<notin> {NotWired, Primitive Undefined}"

text \<open>A key opts out of a slot that a sibling key keeps live.\<close>

definition optedOut :: "CompositionLike \<Rightarrow> feature_key \<Rightarrow> port_name \<Rightarrow> bool" where
  "optedOut composition k p \<longleftrightarrow> declaredFor composition k = Str ''unavailable'' \<and>
     (\<exists>j. p \<in> set (featurePortNames j) \<and> declaredFor composition j \<noteq> Str ''unavailable'')"

definition coherent :: "CompositionLike \<Rightarrow> bool" where
  "coherent composition \<longleftrightarrow> (\<forall>k.
     k = MultiParty \<and> declaredFor composition k = Str ''unavailable'' \<or>
     (if featurePortNames k = [] then declaredFor composition k = Str ''unavailable''
      else \<forall>p\<in>set (featurePortNames k). wired composition p \<and>
        (optedOut composition k p \<or>
         agrees (compMode composition) (declaredFor composition k) (ports composition p))))"

text \<open>The keys of a slot are exactly the keys whose binding names it.\<close>

lemma slotKeysOf_filter:
  "p \<in> set (featurePortNames k) \<Longrightarrow>
     slotKeysOf k p = filter (\<lambda>j. p \<in> set (featurePortNames j)) RUNTIME_FEATURE_KEYS"
proof -
  have "\<forall>k\<in>set RUNTIME_FEATURE_KEYS. \<forall>p\<in>set (featurePortNames k).
      slotKeysOf k p = filter (\<lambda>j. p \<in> set (featurePortNames j)) RUNTIME_FEATURE_KEYS"
    by code_simp
  then show "p \<in> set (featurePortNames k) \<Longrightarrow> ?thesis" by simp
qed

lemma slotKeysOf_set: "p \<in> set (featurePortNames k) \<Longrightarrow> set (slotKeysOf k p) = {j. p \<in> set (featurePortNames j)}"
  by (simp add: slotKeysOf_filter)

lemma shared_if_two:
  assumes "j \<in> set xs" "k \<in> set xs" "j \<noteq> k" shows "length xs > 1"
  using assms by (cases xs rule: remdups_adj.cases) auto

lemma optedOut_iff:
  assumes "p \<in> set (featurePortNames k)"
  shows "optedOut c k p \<longleftrightarrow> length (slotKeysOf k p) > 1 \<and> declaredFor c k = Str ''unavailable'' \<and>
     list_ex (\<lambda>j. declaredFor c j \<noteq> Str ''unavailable'') (slotKeysOf k p)"
proof -
  have "length (slotKeysOf k p) > 1"
    if "j \<in> set (slotKeysOf k p)" "declaredFor c j \<noteq> Str ''unavailable''"
      "declaredFor c k = Str ''unavailable''" for j
    using shared_if_two [OF that(1), of k] that assms slotKeysOf_set [OF assms] by auto
  then show ?thesis
    using slotKeysOf_set [OF assms] by (auto simp: optedOut_def list_ex_iff)
qed

lemma checkPort_ok:
  assumes "p \<in> set (featurePortNames k)"
  shows "checkPort c k p = Inr () \<longleftrightarrow> wired c p \<and>
    (optedOut c k p \<or> agrees (compMode c) (declaredFor c k) (ports c p))"
proof (cases "wired c p \<and> \<not> optedOut c k p")
  case True
  have "compMode c = Demo \<longleftrightarrow> compMode c \<noteq> Production" by (cases "compMode c") auto
  then show ?thesis using True
    by (auto simp: checkPort_def Let_def wired_def optedOut_iff [OF assms] check_simps agrees_def)
next
  case False
  then show ?thesis
    by (auto simp: checkPort_def Let_def wired_def optedOut_iff [OF assms])
qed

lemma checkFeature_ok:
  "checkFeature c k = Inr () \<longleftrightarrow>
     k = MultiParty \<and> declaredFor c k = Str ''unavailable'' \<or>
     (if featurePortNames k = [] then declaredFor c k = Str ''unavailable''
      else \<forall>p\<in>set (featurePortNames k). wired c p \<and>
        (optedOut c k p \<or> agrees (compMode c) (declaredFor c k) (ports c p)))"
  by (cases "featurePortNames k = []") (auto simp: checkFeature_def Let_def check_simps checkPort_ok)

lemma assertCompositionCoherence_ok: "assertCompositionCoherence c = Inr () \<longleftrightarrow> coherent c"
  by (simp add: assertCompositionCoherence_def check_simps coherent_def checkFeature_ok)

lemma checkPort_kinds:
  assumes "checkPort c k p = Inl e"
  shows "errKind e \<notin> {AvailableDeclarationPairedWithMarkedAdapter, SharedSlotDeclarationConflict}"
  using assms by (auto simp: checkPort_def Let_def checks_Cons_Inl split: if_splits)


section \<open>Properties\<close>

definition sampleAdapter :: "bool \<Rightarrow> bool \<Rightarrow> slot" where
  "sampleAdapter u d = Wired
     \<lparr>UNAVAILABLE_ADAPTER = if u then Some \<lparr>metaFeatureKey = Status, metaReason = ''absent''\<rparr> else None,
      DEMO_STUB_ADAPTER = if d then Some \<lparr>metaFeatureKey = Status, metaReason = ''fixture''\<rparr> else None\<rparr>"

text \<open>A production deployment that serves payment, uploads and safe addresses.\<close>

definition sampleComposition :: "props \<Rightarrow> CompositionLike" where
  "sampleComposition caps = \<lparr>compMode = Production, instanceCapabilities = caps,
     ports = (\<lambda>p. sampleAdapter
       (\<not> list_ex (\<lambda>k. propOf caps (keyName k) = Str ''available'')
          (filter (\<lambda>k. p \<in> set (featurePortNames k)) RUNTIME_FEATURE_KEYS)) False)\<rparr>"

definition servedCaps :: props where
  "servedCaps = map (\<lambda>k. (keyName k,
     if k \<in> {Payment, FileUpload, RespondentPlace} then Str ''available'' else Str ''unavailable''))
     RUNTIME_FEATURE_KEYS"

text \<open>C5. The boot assertion accepts exactly the coherent compositions: for every key with ports
  each port is wired and, unless a sibling key keeps a shared slot live, the adapter's markers
  agree with the declaration (unavailable both ways, demo-stub both ways and only in demo mode);
  a key without ports is declared unavailable; \<open>multiParty\<close> may be unavailable over live ports.\<close>

theorem freezeComposition_iff_coherent:
  "freezeComposition c = Inr c' \<longleftrightarrow> coherent c \<and> c' = c"
  by (auto simp: freezeComposition_def bindR_Inr_iff assertCompositionCoherence_ok)

text \<open>In a coherent production composition no demo stub and no unavailable sentinel stands
  behind a capability that is declared: every port of a key that is not declared unavailable is
  wired with an adapter that carries neither marker, and the declaration is not a demo stub.\<close>

theorem production_composition_honest:
  assumes "freezeComposition c = Inr c'" "compMode c = Production"
    and "declaredFor c k \<noteq> Str ''unavailable''" "p \<in> set (featurePortNames k)"
  shows "wired c p \<and> \<not> isUnavailableAdapter (ports c p) \<and> \<not> isDemoStubAdapter (ports c p) \<and>
    declaredFor c k \<noteq> Str ''demo-stub''"
proof -
  have "coherent c" using assms(1)
    by (auto simp: freezeComposition_def bindR_Inr_iff assertCompositionCoherence_ok)
  then have "k = MultiParty \<and> declaredFor c k = Str ''unavailable'' \<or>
     (if featurePortNames k = [] then declaredFor c k = Str ''unavailable''
      else \<forall>p\<in>set (featurePortNames k). wired c p \<and> (optedOut c k p \<or>
         agrees (compMode c) (declaredFor c k) (ports c p)))" by (simp only: coherent_def)
  with assms have "wired c p" "agrees Production (declaredFor c k) (ports c p)"
    by (auto simp: optedOut_def split: if_splits)
  with assms(3) show ?thesis by (auto simp: agrees_def)
qed

theorem production_composition_honest_witness:
  "\<not> isDemoStubAdapter (ports (sampleComposition servedCaps) PaymentRailAdapter)"
proof -
  have a: "isOk (freezeComposition (sampleComposition servedCaps))" by code_simp
  then obtain c' where c: "freezeComposition (sampleComposition servedCaps) = Inr c'"
    by (auto simp: isOk_iff)
  have b: "compMode (sampleComposition servedCaps) = Production" by code_simp
  have d: "declaredFor (sampleComposition servedCaps) Payment \<noteq> Str ''unavailable''" by code_simp
  have e: "PaymentRailAdapter \<in> set (featurePortNames Payment)" by code_simp
  show ?thesis using production_composition_honest [OF c b d e] by blast
qed

text \<open>Two documented error kinds are never raised: the guards before the last one already
  reject every marked adapter under an \<open>available\<close> declaration, so neither
  \<open>available-declaration-paired-with-marked-adapter\<close> nor
  \<open>shared-slot-declaration-conflict\<close> can be observed.\<close>

theorem coherence_unreachable_kinds:
  assumes "assertCompositionCoherence c = Inl e"
  shows "errKind e \<noteq> AvailableDeclarationPairedWithMarkedAdapter \<and>
    errKind e \<noteq> SharedSlotDeclarationConflict"
proof -
  obtain k where "checkFeature c k = Inl e"
    using assms forEach_Inl_mem unfolding assertCompositionCoherence_def by fast
  then consider "errKind e = FeatureWithoutPortBinding"
    | "forEach (checkPort c k) (featurePortNames k) = Inl e"
    by (auto simp: checkFeature_def Let_def split: if_splits)
  then show ?thesis
  proof cases
    case 2
    then obtain p where "checkPort c k p = Inl e" using forEach_Inl_mem by fast
    from checkPort_kinds [OF this] show ?thesis by simp
  qed simp
qed

theorem coherence_unreachable_kinds_witness:
  "\<exists>e. assertCompositionCoherence ((sampleComposition servedCaps)\<lparr>ports := \<lambda>_. sampleAdapter False True\<rparr>)
     = Inl e \<and> errKind e \<noteq> AvailableDeclarationPairedWithMarkedAdapter"
proof -
  have "\<not> isOk (assertCompositionCoherence
      ((sampleComposition servedCaps)\<lparr>ports := \<lambda>_. sampleAdapter False True\<rparr>))" by code_simp
  then obtain e where e: "assertCompositionCoherence
      ((sampleComposition servedCaps)\<lparr>ports := \<lambda>_. sampleAdapter False True\<rparr>) = Inl e"
    by (cases "assertCompositionCoherence
      ((sampleComposition servedCaps)\<lparr>ports := \<lambda>_. sampleAdapter False True\<rparr>)") auto
  from coherence_unreachable_kinds [OF e] e show ?thesis by blast
qed

text \<open>Provenance markers are mutually exclusive on every adapter that was marked through
  the two marking functions.\<close>

theorem markers_exclusive:
  assumes "marked_adapter a"
  shows "\<not> (isUnavailableAdapter (Wired a) \<and> isDemoStubAdapter (Wired a))"
  using assms by induction (auto simp: markUnavailableAdapter_ok markDemoStubAdapter_ok)

theorem markers_exclusive_witness:
  "\<not> isDemoStubAdapter (Wired \<lparr>UNAVAILABLE_ADAPTER =
      Some \<lparr>metaFeatureKey = Status, metaReason = ''absent''\<rparr>, DEMO_STUB_ADAPTER = None\<rparr>)"
proof -
  have "marked_adapter \<lparr>UNAVAILABLE_ADAPTER =
      Some \<lparr>metaFeatureKey = Status, metaReason = ''absent''\<rparr>, DEMO_STUB_ADAPTER = None\<rparr>"
    by (rule marked_adapter.unavailable [OF marked_adapter.fresh]) (simp add: markUnavailableAdapter_ok)
  from markers_exclusive [OF this] show ?thesis by simp
qed

end
