(* ===== verification/Composition_Roots.thy ===== *)
theory Composition_Roots
  imports Coherence Policy_Resolver Identity_Adapters Form_Extract
begin

text \<open>
  The composition roots: \<open>createUnavailableComposition\<close> (\<open>src/composition/unavailable.ts\<close>),
  \<open>createDefaultComposition\<close> (\<open>src/composition/default.ts\<close>, the form route and the local package
  preview) and \<open>createRouteNarrowedComposition\<close> (\<open>src/composition/route-narrowing.ts\<close>), with the
  unavailable sentinels of \<open>src/adapters/unavailable\<close>. An adapter object is its provenance
  markers; the constructors of the HTTP adapters return unmarked objects and are not run. The native
  package root is one outcome, reached after the guards that are modelled.
\<close>

section \<open>Adapters\<close>

definition plainAdapter :: adapter where
  "plainAdapter = \<lparr>UNAVAILABLE_ADAPTER = None, DEMO_STUB_ADAPTER = None\<rparr>"

definition markedUnavailable :: "feature_key \<Rightarrow> string \<Rightarrow> slot" where
  "markedUnavailable k message =
     (case markUnavailableAdapter plainAdapter \<lparr>metaFeatureKey = k, metaReason = message\<rparr> of
        Inl _ \<Rightarrow> NotWired | Inr a \<Rightarrow> Wired a)"

text \<open>The sentinel of each slot that has one.\<close>

fun unavailableAdapter :: "port_name \<Rightarrow> slot" where
  "unavailableAdapter RespondentPlaceSource =
     markedUnavailable RespondentPlace ''Respondent place adapter is not configured for this deployment.''"
| "unavailableAdapter StatusReader =
     markedUnavailable Status ''Applicant status adapter is not configured for this deployment.''"
| "unavailableAdapter AttachmentStore =
     markedUnavailable FileUpload ''File upload adapter is not configured for this deployment.''"
| "unavailableAdapter RespondentHistorySource =
     markedUnavailable CrossIssuerHistory ''Respondent history adapter is not configured for this deployment.''"
| "unavailableAdapter OfflineSubmitQueue =
     markedUnavailable OfflineSubmit ''Offline submit queue adapter is not configured for this deployment.''"
| "unavailableAdapter PaymentRailAdapter =
     markedUnavailable Payment ''Payment rail adapter is not configured for this deployment.''"
| "unavailableAdapter EmbedTransport =
     markedUnavailable Embed ''Embed transport adapter is not configured for this deployment.''"
| "unavailableAdapter ScreenerDocumentSource =
     markedUnavailable Screener ''Screener catalog adapter is not configured for this deployment.''"
| "unavailableAdapter SafeAddressDirectory =
     markedUnavailable SafeAddress ''Safe address directory is not configured for this deployment.''"
| "unavailableAdapter LifecycleActionClient =
     markedUnavailable RecordLifecycle ''Lifecycle action client is not configured for this deployment.''"
| "unavailableAdapter _ = NotWired"

text \<open>
  The slots of a composition whose features are all unavailable: the sentinels, and an unmarked
  adapter in the three slots every form needs.
\<close>

fun sentinelPorts :: "slot \<Rightarrow> slot \<Rightarrow> slot \<Rightarrow> port_name \<Rightarrow> slot" where
  "sentinelPorts draftStore submitTransport identityProvider DraftStore = draftStore"
| "sentinelPorts draftStore submitTransport identityProvider SubmitTransport = submitTransport"
| "sentinelPorts draftStore submitTransport identityProvider IdentityProvider = identityProvider"
| "sentinelPorts draftStore submitTransport identityProvider p = unavailableAdapter p"


section \<open>The roots\<close>

text \<open>What a root produces for the resolver: the slots, the organization's policy, the extractor.\<close>

record composition =
  slots :: CompositionLike
  orgPolicy :: OrgRuntimePolicy
  formExtractor :: extractor

definition allKeys :: "string \<Rightarrow> props" where
  "allKeys m = map (\<lambda>k. (keyName k, Str m)) RUNTIME_FEATURE_KEYS"

definition allowedOrgPolicy :: OrgRuntimePolicy where
  "allowedOrgPolicy = \<lparr>features = allKeys ''allowed'',
     limits = Obj [(''embed'', Obj [(''allowedOrigins'', Arr [])])], recordLifecycle = Undefined\<rparr>"

definition frozen :: "composition \<Rightarrow> CompositionIncoherenceError + composition" where
  "frozen c = bindR (freezeComposition (slots c)) (\<lambda>_. Inr c)"

definition createUnavailableComposition :: "CompositionIncoherenceError + composition" where
  "createUnavailableComposition = frozen
     \<lparr>slots = \<lparr>compMode = Production, instanceCapabilities = allKeys ''unavailable'',
        ports = sentinelPorts (Wired plainAdapter) (Wired plainAdapter) (Wired plainAdapter)\<rparr>,
      orgPolicy = allowedOrgPolicy, formExtractor = emptyExtractor\<rparr>"

text \<open>
  A configuration and the caller's options, as far as the roots read them: what is configured or
  absent, and the values that select a branch. An identity binding is its provider's adapter object
  and whether it has a bearer provider and a browser session.
\<close>

record root_binding =
  bindingProvider :: slot
  hasAccessToken :: bool
  hasBrowserSession :: bool

record root_config =
  formspecServerUrl :: "string option"
  nativeSigningConfigured :: bool
  surfaceDeployment :: bool
  dataPorts :: "(string \<times> string) list"
  oidcRequiredMode :: bool
  identityPort :: provider_kind
  oidcClient :: "OidcAdapterConfig option"

record root_options =
  initialDefinitionUrl :: "string option"
  packageUrl :: "string option"
  optionBinding :: "root_binding option"
  ownedDraftResume :: bool
  nativeTask :: bool

datatype root_error =
    ResumeNeedsNativePackage | TaskNeedsNativeSigning | NativeAndSurfaceDeployments
  | NativeNeedsPackageAndServer | DataPortsMismatch "string list" | DefinitionUrlRequired
  | ServerUrlRequired | OidcProviderRequired | BindingFailed binding_error
  | AuthenticatedPackageIncomplete | StatusReaderNeedsOidc
  | Incoherent CompositionIncoherenceError

datatype root = NativePackageRoot string | Root composition

text \<open>A JavaScript string that is present and not empty.\<close>

definition given :: "string option \<Rightarrow> bool" where
  "given s = (s \<noteq> None \<and> s \<noteq> Some [])"

definition assertReferenceHttpDataPorts :: "root_config \<Rightarrow> root_error + unit" where
  "assertReferenceHttpDataPorts config =
     (let mismatches = filter (\<lambda>p. map_of (dataPorts config) p \<noteq> Some ''reference-http'')
            [''definitionSource'', ''draftStore'', ''submitTransport'']
      in throwIf (mismatches \<noteq> []) (DataPortsMismatch mismatches))"

definition requiredInitialDefinitionUrl :: "string option \<Rightarrow> root_error + string" where
  "requiredInitialDefinitionUrl v = (case v of
     None \<Rightarrow> Inl DefinitionUrlRequired
   | Some s \<Rightarrow> if trim s = [] then Inl DefinitionUrlRequired else Inr s)"

primrec bindingOf :: "identity_binding \<Rightarrow> root_binding" where
  "bindingOf AnonymousBinding = \<lparr>bindingProvider = Wired plainAdapter, hasAccessToken = False, hasBrowserSession = False\<rparr>"
| "bindingOf HttpAnonymousBinding = \<lparr>bindingProvider = Wired plainAdapter, hasAccessToken = False, hasBrowserSession = False\<rparr>"
| "bindingOf (OidcBinding config) = \<lparr>bindingProvider = Wired plainAdapter, hasAccessToken = True, hasBrowserSession = True\<rparr>"

definition fullComposition :: "root_binding \<Rightarrow> composition" where
  "fullComposition binding =
     \<lparr>slots = \<lparr>compMode = Production, instanceCapabilities = allKeys ''unavailable'',
        ports = sentinelPorts (Wired plainAdapter) (Wired plainAdapter) (bindingProvider binding)\<rparr>,
      orgPolicy = allowedOrgPolicy, formExtractor = defaultExtractor\<rparr>"

text \<open>The local package preview spreads the unavailable composition and overrides what it serves.\<close>

definition previewComposition :: "composition \<Rightarrow> root_binding \<Rightarrow> composition" where
  "previewComposition preview binding =
     preview\<lparr>slots := (slots preview)
       \<lparr>instanceCapabilities := spread (instanceCapabilities (slots preview))
          [(''offlineSubmit'', Str ''unavailable''), (''fileUpload'', Str ''available'')],
        ports := (ports (slots preview))
          (IdentityProvider := bindingProvider binding,
           OfflineSubmitQueue := unavailableAdapter OfflineSubmitQueue,
           AttachmentStore := Wired plainAdapter,
           DraftStore := Wired plainAdapter,
           SubmitTransport := Wired plainAdapter)\<rparr>\<rparr>"

abbreviation previewBinding :: root_binding where
  "previewBinding \<equiv> \<lparr>bindingProvider = Wired plainAdapter, hasAccessToken = False, hasBrowserSession = False\<rparr>"

definition selectBinding :: "root_config \<Rightarrow> root_options \<Rightarrow> root_error + root_binding" where
  "selectBinding config options =
     (let authenticatedPackage = (given (packageUrl options) \<and> identityPort config = OidcKind)
      in if given (packageUrl options) \<and> \<not> authenticatedPackage then Inr previewBinding
         else (case optionBinding options of
             Some b \<Rightarrow> Inr b
           | None \<Rightarrow> map_sum BindingFailed bindingOf
               (identityProviderFor (oidcRequiredMode config) (identityPort config) (oidcClient config) True)))"

definition createDefaultComposition :: "root_config \<Rightarrow> root_options \<Rightarrow> root_error + root" where
  "createDefaultComposition config options =
     bindR (throwIf (ownedDraftResume options \<and> \<not> nativeSigningConfigured config) ResumeNeedsNativePackage) (\<lambda>_.
     bindR (throwIf (nativeTask options \<and> \<not> nativeSigningConfigured config) TaskNeedsNativeSigning) (\<lambda>_.
     if nativeSigningConfigured config then
       bindR (throwIf (surfaceDeployment config) NativeAndSurfaceDeployments) (\<lambda>_.
       bindR (throwIf (\<not> given (formspecServerUrl config) \<or> \<not> given (packageUrl options)) NativeNeedsPackageAndServer) (\<lambda>_.
       bindR (assertReferenceHttpDataPorts config) (\<lambda>_.
       bindR (requiredInitialDefinitionUrl (initialDefinitionUrl options)) (\<lambda>url. Inr (NativePackageRoot url)))))
     else
       bindR (throwIf (\<not> given (formspecServerUrl config)) ServerUrlRequired) (\<lambda>_.
       bindR (assertReferenceHttpDataPorts config) (\<lambda>_.
       bindR (throwIf (oidcRequiredMode config \<and> identityPort config \<noteq> OidcKind) OidcProviderRequired) (\<lambda>_.
       bindR (requiredInitialDefinitionUrl (initialDefinitionUrl options)) (\<lambda>url.
       bindR (selectBinding config options) (\<lambda>binding.
       bindR (throwIf (given (packageUrl options) \<and> identityPort config = OidcKind \<and>
           (\<not> hasAccessToken binding \<or> \<not> hasBrowserSession binding)) AuthenticatedPackageIncomplete) (\<lambda>_.
         if given (packageUrl options) then
           bindR (map_sum Incoherent id createUnavailableComposition) (\<lambda>preview.
             map_sum Incoherent Root (frozen (previewComposition preview binding)))
         else map_sum Incoherent Root (frozen (fullComposition binding))))))))))"

text \<open>The narrowed routes: a route reads a set of features and may be identity-bound.\<close>

record RouteNarrowing =
  consumes :: "feature_key set"
  identityBound :: bool

text \<open>
  \<open>respondentPlace\<close> is always declared unavailable here, so the real identity provider of an
  identity-bound route is never constructed and the noop provider stands in.
\<close>

definition narrowedComposition :: "slot option \<Rightarrow> root_binding option \<Rightarrow> composition" where
  "narrowedComposition statusReader binding =
     \<lparr>slots = \<lparr>compMode = Production,
        instanceCapabilities = setProp ''status''
          (Str (if statusReader \<noteq> None then ''available'' else ''unavailable'')) (allKeys ''unavailable''),
        ports = (sentinelPorts (Wired plainAdapter) (Wired plainAdapter)
            (case (statusReader, binding) of
               (Some _, Some b) \<Rightarrow> bindingProvider b | _ \<Rightarrow> Wired plainAdapter))
          (StatusReader := (case statusReader of Some r \<Rightarrow> r | None \<Rightarrow> unavailableAdapter StatusReader))\<rparr>,
      orgPolicy = allowedOrgPolicy, formExtractor = emptyExtractor\<rparr>"

definition createRouteNarrowedComposition ::
  "root_config \<Rightarrow> RouteNarrowing \<Rightarrow> slot option \<Rightarrow> root_binding option \<Rightarrow> root_error + root" where
  "createRouteNarrowedComposition config route statusReader binding =
     bindR (throwIf (\<not> given (formspecServerUrl config)) ServerUrlRequired) (\<lambda>_.
     bindR (throwIf (statusReader \<noteq> None \<and>
         (Status \<notin> consumes route \<or> \<not> identityBound route \<or> \<not> oidcRequiredMode config \<or>
          oidcClient config = None \<or>
          (case binding of None \<Rightarrow> True | Some b \<Rightarrow> \<not> hasBrowserSession b \<or> \<not> hasAccessToken b)))
         StatusReaderNeedsOidc) (\<lambda>_.
       map_sum Incoherent Root (frozen (narrowedComposition statusReader binding))))"

section \<open>Coherence of the roots\<close>

lemma propOf_allKeys [simp]: "propOf (allKeys m) (keyName k) = Str m"
  by (cases k) (simp_all add: allKeys_def RUNTIME_FEATURE_KEYS_def)

lemma frozen_Inr: "frozen c = Inr c' \<longleftrightarrow> coherent (slots c) \<and> c' = c"
  by (auto simp: frozen_def freezeComposition_def bindR_Inr_iff assertCompositionCoherence_ok)

lemma plain_unmarked [simp]:
  "\<not> isUnavailableAdapter (Wired plainAdapter)" "\<not> isDemoStubAdapter (Wired plainAdapter)"
  by (simp_all add: plainAdapter_def)

lemma markedUnavailable_slot [simp]:
  "isUnavailableAdapter (markedUnavailable k m)" "\<not> isDemoStubAdapter (markedUnavailable k m)"
  "markedUnavailable k m \<noteq> NotWired" "markedUnavailable k m \<noteq> Primitive Undefined"
  by (simp_all add: markedUnavailable_def markUnavailableAdapter_def assertNotAlreadyMarked_def plainAdapter_def)

text \<open>
  A composition of sentinels is coherent when the keys it declares available are served: its other
  keys are unavailable, and every slot other than those of \<open>multiParty\<close> is a sentinel unless its
  only key is available.
\<close>

lemma coherent_sentinels:
  assumes caps: "\<And>k. declaredFor c k = Str (if k \<in> served then ''available'' else ''unavailable'')"
    and served: "served \<subseteq> {FileUpload, Status}"
    and slots: "\<And>k p. p \<in> set (featurePortNames k) \<Longrightarrow> k \<noteq> MultiParty \<Longrightarrow>
      wired c p \<and> \<not> isDemoStubAdapter (ports c p) \<and> (isUnavailableAdapter (ports c p) \<longleftrightarrow> k \<notin> served)"
  shows "coherent c"
  unfolding coherent_def
proof
  fix k
  show "k = MultiParty \<and> declaredFor c k = Str ''unavailable'' \<or>
     (if featurePortNames k = [] then declaredFor c k = Str ''unavailable''
      else \<forall>p\<in>set (featurePortNames k). wired c p \<and>
        (optedOut c k p \<or> agrees (compMode c) (declaredFor c k) (ports c p)))"
  proof (cases "k = MultiParty")
    case True
    then show ?thesis using caps [of k] served by auto
  next
    case False
    have "featurePortNames k = [] \<Longrightarrow> k \<notin> served" using served by (cases k) (auto simp: featurePortNames_def)
    then show ?thesis using slots [OF _ False] caps [of k] by (auto simp: agrees_def)
  qed
qed

lemma sentinel_slot:
  assumes "p \<in> set (featurePortNames k)" "k \<noteq> MultiParty"
  shows "isUnavailableAdapter (unavailableAdapter p) \<and> \<not> isDemoStubAdapter (unavailableAdapter p) \<and>
    unavailableAdapter p \<noteq> NotWired \<and> unavailableAdapter p \<noteq> Primitive Undefined \<and>
    p \<notin> {DraftStore, SubmitTransport, IdentityProvider} \<and> (p = AttachmentStore \<longleftrightarrow> k = FileUpload) \<and>
    (p = StatusReader \<longleftrightarrow> k = Status)"
  using assms by (cases k) (auto simp: featurePortNames_def)

lemma sentinelPorts_other [simp]:
  "p \<notin> {DraftStore, SubmitTransport, IdentityProvider} \<Longrightarrow> sentinelPorts d t i p = unavailableAdapter p"
  by (cases p) auto

lemma coherent_full: "coherent (slots (fullComposition binding))"
  using sentinel_slot
  by (intro coherent_sentinels [where served = "{}"]) (auto simp: fullComposition_def declaredFor_def wired_def)

lemma unavailable_ok: "createUnavailableComposition = Inr
     \<lparr>slots = \<lparr>compMode = Production, instanceCapabilities = allKeys ''unavailable'',
        ports = sentinelPorts (Wired plainAdapter) (Wired plainAdapter) (Wired plainAdapter)\<rparr>,
      orgPolicy = allowedOrgPolicy, formExtractor = emptyExtractor\<rparr>"
  unfolding createUnavailableComposition_def frozen_Inr using sentinel_slot
  by (auto intro!: coherent_sentinels [where served = "{}"] simp: declaredFor_def wired_def)

lemma coherent_preview:
  assumes "createUnavailableComposition = Inr preview"
  shows "coherent (slots (previewComposition preview binding))"
proof -
  have slots: "slots preview = \<lparr>compMode = Production, instanceCapabilities = allKeys ''unavailable'',
        ports = sentinelPorts (Wired plainAdapter) (Wired plainAdapter) (Wired plainAdapter)\<rparr>"
    using assms [unfolded unavailable_ok] by auto
  have caps: "declaredFor (slots (previewComposition preview binding)) k =
      Str (if k \<in> {FileUpload} then ''available'' else ''unavailable'')" for k
  proof -
    have "propOf (spread (allKeys ''unavailable'')
        [(''offlineSubmit'', Str ''unavailable''), (''fileUpload'', Str ''available'')]) (keyName k) =
        Str (if k = FileUpload then ''available'' else ''unavailable'')"
      by (cases k) (simp_all add: propOf_setProp allKeys_def RUNTIME_FEATURE_KEYS_def)
    then show ?thesis by (simp add: previewComposition_def declaredFor_def slots)
  qed
  show ?thesis
    by (rule coherent_sentinels [OF caps]) (use sentinel_slot in
        \<open>auto simp: previewComposition_def slots wired_def plainAdapter_def\<close>)
qed

lemma coherent_narrowed:
  "coherent (slots (narrowedComposition reader binding)) \<longleftrightarrow>
    (case reader of None \<Rightarrow> True
      | Some r \<Rightarrow> r \<noteq> NotWired \<and> r \<noteq> Primitive Undefined \<and> \<not> isUnavailableAdapter r \<and> \<not> isDemoStubAdapter r)"
proof -
  let ?c = "slots (narrowedComposition reader binding)"
  let ?served = "if reader = None then {} else {Status}"
  have caps: "declaredFor ?c k = Str (if k \<in> ?served then ''available'' else ''unavailable'')" for k
  proof -
    have "propOf (setProp ''status'' (Str s) (allKeys ''unavailable'')) (keyName k) =
        Str (if k = Status then s else ''unavailable'')" for s
      by (cases k) (simp_all add: propOf_setProp allKeys_def RUNTIME_FEATURE_KEYS_def)
    then show ?thesis by (simp add: narrowedComposition_def declaredFor_def)
  qed
  have slot: "ports ?c StatusReader = (case reader of None \<Rightarrow> unavailableAdapter StatusReader | Some r \<Rightarrow> r)"
    by (simp add: narrowedComposition_def)
  show ?thesis
  proof (cases reader)
    case None
    then have "coherent ?c"
      by (intro coherent_sentinels [OF caps]) (use sentinel_slot in \<open>auto simp: narrowedComposition_def wired_def\<close>)
    with None show ?thesis by simp
  next
    case (Some r)
    have "wired ?c StatusReader \<and> agrees Production (Str ''available'') (ports ?c StatusReader)" if "coherent ?c"
    proof -
      have facts: "declaredFor ?c Status = Str ''available''" "compMode ?c = Production"
        using caps [of Status] Some by (simp_all add: narrowedComposition_def)
      have "featurePortNames Status = [StatusReader]" by (simp add: featurePortNames_def)
      with that [unfolded coherent_def, THEN spec [of _ Status]] facts show ?thesis by (simp add: optedOut_def)
    qed
    moreover have "coherent ?c" if "r \<noteq> NotWired" "r \<noteq> Primitive Undefined" "\<not> isUnavailableAdapter r" "\<not> isDemoStubAdapter r"
      by (rule coherent_sentinels [OF caps])
        (use Some that sentinel_slot in \<open>auto simp: narrowedComposition_def wired_def\<close>)
    ultimately show ?thesis using slot Some by (auto simp: wired_def agrees_def)
  qed
qed

section \<open>Properties\<close>

text \<open>What a route asks the resolver for: a form document for the form route, a synthesized one elsewhere.\<close>

definition routeInput :: "composition \<Rightarrow> FormRuntimePolicy \<Rightarrow> ResolveRuntimeFeaturesInput" where
  "routeInput c formPolicy = \<lparr>mode = compMode (slots c), inst = instanceCapabilities (slots c),
     org = orgPolicy c, form = formPolicy\<rparr>"

text \<open>The document \<open>StatusRuntime\<close> synthesizes for the \<open>/status\<close> route.\<close>

definition statusRoutePolicy :: FormRuntimePolicy where
  "statusRoutePolicy = \<lparr>features = [(''status'', Str ''optional''), (''recordLifecycle'', Str ''optional'')],
     limits = Undefined, recordLifecycle = Undefined\<rparr>"

text \<open>The reference composition always boots: whatever the configuration and the options, the form
  and package roots never fail the coherence assertion.\<close>

theorem default_root_boots:
  "createDefaultComposition config options \<noteq> Inl (Incoherent e)"
proof -
  have full: "map_sum Incoherent Root (frozen (fullComposition b)) \<noteq> Inl (Incoherent e)" for b
  proof -
    have "frozen (fullComposition b) = Inr (fullComposition b)" using coherent_full by (simp add: frozen_Inr)
    then show ?thesis by simp
  qed
  obtain preview where p: "createUnavailableComposition = Inr preview" using unavailable_ok by blast
  have pre: "map_sum Incoherent Root (frozen (previewComposition preview b)) \<noteq> Inl (Incoherent e)" for b
  proof -
    have "frozen (previewComposition preview b) = Inr (previewComposition preview b)"
      using coherent_preview [OF p] by (simp add: frozen_Inr)
    then show ?thesis by simp
  qed
  have "selectBinding config options \<noteq> Inl (Incoherent e)"
    by (cases "identityProviderFor (oidcRequiredMode config) (identityPort config) (oidcClient config) True")
      (auto simp: selectBinding_def Let_def split: option.split)
  moreover have "requiredInitialDefinitionUrl u \<noteq> Inl (Incoherent e)" for u
    by (simp add: requiredInitialDefinitionUrl_def split: option.split)
  moreover have "map_sum Incoherent id createUnavailableComposition = Inr preview" unfolding p by simp
  ultimately show ?thesis
    using full pre
    by (auto simp: createDefaultComposition_def bindR_Inl_iff assertReferenceHttpDataPorts_def Let_def
        split: if_splits)
qed

lemma map_sum_Inr_Root: "map_sum f Root x = Inr (Root c) \<longleftrightarrow> x = Inr c"
  by (cases x) auto

text \<open>Applicant status is only served over an authenticated session: a narrowed route yields a
  composition exactly when a server is configured and, if a status reader is supplied, the route
  reads status and is identity-bound, the deployment requires OIDC and has a client, the binding
  has its browser session and bearer provider, and the reader is a real, unmarked adapter.\<close>

theorem narrowed_root_iff:
  "createRouteNarrowedComposition config route reader binding = Inr (Root c) \<longleftrightarrow>
     given (formspecServerUrl config) \<and> c = narrowedComposition reader binding \<and>
     (case reader of None \<Rightarrow> True | Some r \<Rightarrow>
        Status \<in> consumes route \<and> identityBound route \<and> oidcRequiredMode config \<and> oidcClient config \<noteq> None \<and>
        (\<exists>b. binding = Some b \<and> hasBrowserSession b \<and> hasAccessToken b) \<and>
        r \<noteq> NotWired \<and> r \<noteq> Primitive Undefined \<and> \<not> isUnavailableAdapter r \<and> \<not> isDemoStubAdapter r)"
proof -
  have "map_sum Incoherent Root (frozen (narrowedComposition reader binding)) = Inr (Root c) \<longleftrightarrow>
      coherent (slots (narrowedComposition reader binding)) \<and> c = narrowedComposition reader binding"
    unfolding map_sum_Inr_Root frozen_Inr by auto
  then show ?thesis
    by (cases reader; cases binding)
      (auto simp: createRouteNarrowedComposition_def bindR_Inr_iff coherent_narrowed)
qed

lemma unavailable_enables_nothing:
  assumes "resolveRuntimeFeatures url input = Inr p" "inst input = allKeys ''unavailable''"
  shows "enabled p = []"
proof -
  have "k \<notin> set (enabled p)" for k
    using resolve_enabled_iff [OF assms(1), of k] validateInput_modes [OF resolve_inv(1) [OF assms(1)]] assms(2)
    by (simp add: decideFor_def decide_enabled_iff canSatisfy_iff)
  then show ?thesis by (metis list.set_intros(1) neq_Nil_conv)
qed

lemma required_is_enabled:
  assumes "resolveRuntimeFeatures url input = Inr p" "propOf (features (form input)) (keyName k) = Str ''required''"
  shows "k \<in> set (enabled p)"
proof -
  have v: "validOrgMode (propOf (features (org input)) (keyName k))" "validFormMode (propOf (features (form input)) (keyName k))"
    using validateInput_modes [OF resolve_inv(1) [OF assms(1)]] by blast+
  have "isOk (decideFor input k)" using resolve_loop(1) [OF assms(1)] by simp
  then have "\<not> (\<exists>e. decideFor input k = Inl e)" by (auto simp: isOk_iff)
  then have "\<not> (forbidden (propOf (features (org input)) (keyName k)) (propOf (features (form input)) (keyName k)) \<or>
      \<not> canSatisfy (mode input) (propOf (inst input) (keyName k)))"
    unfolding decideFor_def decide_throws_iff [OF v] using assms(2) by (simp add: mandated_def)
  then have "decideFor input k = Inr Enabled"
    using assms(2) v by (simp add: decideFor_def decide_enabled_iff requested_def)
  then show ?thesis using resolve_enabled_iff [OF assms(1)] by simp
qed

text \<open>What the reference form route can load: over the default composition a definition resolves
  only when its walkers demand nothing (no required attachment, payment, signing or other
  feature), and the resolved profile enables no feature at all.\<close>

theorem reference_form_route_serves_nothing:
  assumes "createDefaultComposition config options = Inr (Root c)" "\<not> given (packageUrl options)"
    and "resolveRuntimeFeatures url (routeInput c (formExtractor c def)) = Inr p"
  shows "enabled p = [] \<and> (\<forall>k. propOf (features (defaultExtractor def)) (keyName k) \<noteq> Str ''required'')"
proof -
  obtain b where "map_sum Incoherent Root (frozen (fullComposition b)) = Inr (Root c)"
    using assms(1,2) by (auto simp: createDefaultComposition_def bindR_Inr_iff split: if_splits)
  then have c: "c = fullComposition b" by (simp add: map_sum_Inr_Root frozen_Inr)
  then have "enabled p = []"
    by (intro unavailable_enables_nothing [OF assms(3)]) (simp add: routeInput_def fullComposition_def)
  moreover have "formExtractor c = defaultExtractor" by (simp add: c fullComposition_def)
  ultimately show ?thesis using required_is_enabled [OF assms(3)] by (auto simp: routeInput_def)
qed

definition sampleRootConfig :: root_config where
  "sampleRootConfig = \<lparr>formspecServerUrl = Some ''https://server'', nativeSigningConfigured = False,
     surfaceDeployment = False, dataPorts = map (\<lambda>p. (p, ''reference-http''))
       [''definitionSource'', ''draftStore'', ''submitTransport''], oidcRequiredMode = False,
     identityPort = AnonymousKind, oidcClient = None\<rparr>"

definition sampleRootOptions :: root_options where
  "sampleRootOptions = \<lparr>initialDefinitionUrl = Some ''https://forms/intake'', packageUrl = None,
     optionBinding = None, ownedDraftResume = False, nativeTask = False\<rparr>"

lemma sample_root: "createDefaultComposition sampleRootConfig sampleRootOptions = Inr (Root (fullComposition previewBinding))"
proof -
  have "frozen (fullComposition previewBinding) = Inr (fullComposition previewBinding)"
    using coherent_full by (simp add: frozen_Inr)
  moreover have "trim ''https://forms/intake'' \<noteq> []" by code_simp
  ultimately show ?thesis
    by (simp add: createDefaultComposition_def sampleRootConfig_def sampleRootOptions_def given_def
        assertReferenceHttpDataPorts_def requiredInitialDefinitionUrl_def selectBinding_def identityProviderFor_def)
qed

definition plainForm :: FormDefinition where
  "plainForm = \<lparr>items = [], extensions = Undefined, governance = Undefined, definitionParties = Undefined\<rparr>"

theorem reference_form_route_serves_nothing_witness:
  "\<exists>p. resolveRuntimeFeatures (\<lambda>_. None) (routeInput (fullComposition previewBinding) (defaultExtractor plainForm)) = Inr p \<and>
     enabled p = []"
proof -
  have i: "routeInput (fullComposition previewBinding) (defaultExtractor plainForm) =
      \<lparr>mode = Production, inst = allKeys ''unavailable'', org = allowedOrgPolicy, form = defaultExtractor plainForm\<rparr>"
    by (simp add: routeInput_def fullComposition_def)
  have "isOk (resolveRuntimeFeatures (\<lambda>_. None) \<lparr>mode = Production, inst = allKeys ''unavailable'',
      org = allowedOrgPolicy, form = defaultExtractor plainForm\<rparr>)" by code_simp
  then obtain p where "resolveRuntimeFeatures (\<lambda>_. None)
      (routeInput (fullComposition previewBinding) (formExtractor (fullComposition previewBinding) plainForm)) = Inr p"
    unfolding i [symmetric] by (auto simp: isOk_iff fullComposition_def)
  from reference_form_route_serves_nothing [OF sample_root _ this] this show ?thesis
    by (auto simp: sampleRootOptions_def given_def fullComposition_def)
qed

text \<open>The status route follows its reader: over a narrowed composition the synthesized status
  document always resolves, and the profile enables status exactly when a reader is wired, and
  nothing else.\<close>

theorem status_route_follows_reader:
  assumes "createRouteNarrowedComposition config route reader binding = Inr (Root c)"
  shows "\<exists>p. resolveRuntimeFeatures url (routeInput c statusRoutePolicy) = Inr p \<and>
    enabled p = (if reader = None then [] else [Status])"
proof -
  have c: "c = narrowedComposition reader binding"
    using assms by (auto simp: createRouteNarrowedComposition_def bindR_Inr_iff map_sum_Inr_Root frozen_Inr)
  have "map_sum id enabled (resolveRuntimeFeatures url
      \<lparr>mode = Production, inst = setProp ''status'' (Str ''available'') (allKeys ''unavailable''),
       org = allowedOrgPolicy, form = statusRoutePolicy\<rparr>) = Inr [Status]"
    "map_sum id enabled (resolveRuntimeFeatures url
      \<lparr>mode = Production, inst = setProp ''status'' (Str ''unavailable'') (allKeys ''unavailable''),
       org = allowedOrgPolicy, form = statusRoutePolicy\<rparr>) = Inr []"
    by code_simp+
  then show ?thesis
    by (cases reader) (auto simp: c routeInput_def narrowedComposition_def dest!: map_sum_InrD)
qed

theorem status_route_follows_reader_witness:
  "\<exists>p. resolveRuntimeFeatures (\<lambda>_. None) (routeInput (narrowedComposition None None) statusRoutePolicy) = Inr p \<and>
     enabled p = []"
proof -
  have "createRouteNarrowedComposition sampleRootConfig \<lparr>consumes = {}, identityBound = False\<rparr> None None =
      Inr (Root (narrowedComposition None None))"
    using coherent_narrowed [of None None]
    by (simp add: createRouteNarrowedComposition_def sampleRootConfig_def given_def map_sum_Inr_Root frozen_Inr)
  from status_route_follows_reader [OF this] show ?thesis by simp
qed

end
