(* ===== verification/Safe_Address_Runtime.thy ===== *)
theory Safe_Address_Runtime
  imports Safe_Address_Policy
begin

text \<open>
  The safe-address runtime: masking of protected text and validation of a response's protected
  values before it leaves the browser (\<open>src/app/safe-address.ts\<close>), against the
  \<open>SafeAddressDirectory\<close> port (\<open>src/ports/safe-address-directory.ts\<close>) and its in-memory adapter
  (\<open>src/adapters/stub/safe-address-directory.ts\<close>). A directory is a function of the
  jurisdiction, the candidate and the access class; the response data is a JSON value.
\<close>

section \<open>Language helpers\<close>

text \<open>\<open>Number(s)\<close> of a string: decimal, exponent, \<open>Infinity\<close> and radix-prefixed literals.\<close>

definition digitValue :: "char \<Rightarrow> nat" where
  "digitValue c = (let n = of_char c in
     if 48 \<le> n \<and> n \<le> 57 then n - 48
     else if 97 \<le> n \<and> n \<le> 122 then n - 87
     else if 65 \<le> n \<and> n \<le> 90 then n - 55 else 255)"

definition readRadix :: "nat \<Rightarrow> string \<Rightarrow> nat option" where
  "readRadix r s = (if s \<noteq> [] \<and> list_all (\<lambda>c. digitValue c < r) s
     then Some (foldl (\<lambda>n c. r * n + digitValue c) 0 s) else None)"

definition splitSign :: "string \<Rightarrow> rat \<times> string" where
  "splitSign s = (case s of [] \<Rightarrow> (1, [])
     | c # cs \<Rightarrow> if c = CHR ''-'' then (-1, cs) else if c = CHR ''+'' then (1, cs) else (1, s))"

definition tenPow :: "rat \<Rightarrow> nat \<Rightarrow> rat" where
  "tenPow sign e = (if sign = 1 then 10 ^ e else 1 / 10 ^ e)"

definition readDecimal :: "string \<Rightarrow> jsnum" where
  "readDecimal s =
     (let (sign, body) = splitSign s;
          isDig = (\<lambda>c. digitValue c < 10);
          whole = takeWhile isDig body; rest = dropWhile isDig body;
          (frac, rest2) = (case rest of c # cs \<Rightarrow>
              if c = CHR ''.'' then (takeWhile isDig cs, dropWhile isDig cs) else ([], rest)
            | [] \<Rightarrow> ([], []));
          digits = whole @ frac;
          value = sign * of_nat (foldl (\<lambda>n c. 10 * n + digitValue c) 0 digits) / 10 ^ length frac
      in if body = ''Infinity'' then (if sign = 1 then PosInfinity else NegInfinity)
         else if digits = [] then NaN
         else (case rest2 of [] \<Rightarrow> Fin value
           | c # cs \<Rightarrow>
              if c \<noteq> CHR ''e'' \<and> c \<noteq> CHR ''E'' then NaN
              else (let (esign, ebody) = splitSign cs
                    in case readRadix 10 ebody of None \<Rightarrow> NaN
                       | Some e \<Rightarrow> Fin (value * tenPow esign e))))"

definition numberOfString :: "string \<Rightarrow> jsnum" where
  "numberOfString s =
     (let t = trim s; radix = (\<lambda>r. case readRadix r (drop 2 t) of None \<Rightarrow> NaN | Some n \<Rightarrow> Fin (of_nat n))
      in if t = [] then Fin 0
         else if startsWith ''0x'' t \<or> startsWith ''0X'' t then radix 16
         else if startsWith ''0o'' t \<or> startsWith ''0O'' t then radix 8
         else if startsWith ''0b'' t \<or> startsWith ''0B'' t then radix 2
         else readDecimal t)"

fun replacePair :: "char \<Rightarrow> char \<Rightarrow> char \<Rightarrow> string \<Rightarrow> string" where
  "replacePair a b c (x # y # s) =
     (if x = a \<and> y = b then c # replacePair a b c s else x # replacePair a b c (y # s))"
| "replacePair a b c s = s"


section \<open>Masking\<close>

record LifecycleProtectedText =
  ptext :: string
  accessClass :: "string option"

definition isSafeAccessClass :: "string option \<Rightarrow> bool" where
  "isSafeAccessClass v = (case v of None \<Rightarrow> False | Some s \<Rightarrow> startsWith ''safe-'' s)"

definition renderSafeAddressProtectedText :: "LifecycleProtectedText \<Rightarrow> string \<Rightarrow> string" where
  "renderSafeAddressProtectedText v withheldCopy =
     (if isSafeAccessClass (accessClass v) then withheldCopy else ptext v)"

definition safeAddressVerifierLine :: "string \<Rightarrow> bool \<Rightarrow> bool option \<Rightarrow> string" where
  "safeAddressVerifierLine label proofPresent fallbackStructuralTell =
     (if proofPresent then label @ '': protected value withheld; commitment proof verified.''
      else if fallbackStructuralTell = Some True
        then label @ '': protected value omitted; this receipt uses the structural-tell fallback.''
      else label @ '': protected value withheld.'')"


section \<open>Validation of protected values\<close>

definition pointerSegments :: "string \<Rightarrow> string list" where
  "pointerSegments pointer =
     map (\<lambda>segment. replacePair (CHR ''~'') (CHR ''0'') (CHR ''~'')
            (replacePair (CHR ''~'') (CHR ''1'') (CHR ''/'') segment))
       (filter (\<lambda>segment. segment \<noteq> [])
          (splitOn (CHR ''/'') (if startsWith ''/'' pointer then drop 1 pointer else pointer)))"

fun walkPointer :: "jsval \<Rightarrow> string list \<Rightarrow> jsval" where
  "walkPointer cur [] = cur"
| "walkPointer cur (segment # segments) =
     (if isArray cur then
        (case integerOf (Num (numberOfString segment)) of
           None \<Rightarrow> Undefined
         | Some i \<Rightarrow> if i < 0 then Undefined
             else walkPointer (if nat i < length (arrItems cur) then arrItems cur ! nat i else Undefined) segments)
      else if \<not> truthy cur \<or> \<not> isObjectType cur then Undefined
      else walkPointer (getp cur segment) segments)"

definition valueAtJsonPointer :: "jsval \<Rightarrow> string \<Rightarrow> jsval" where
  "valueAtJsonPointer source pointer = walkPointer source (pointerSegments pointer)"

datatype directory_reason = UnknownJurisdiction | NotRecognized | UnsupportedClass

type_synonym directory = "string \<Rightarrow> string \<Rightarrow> string option \<Rightarrow> (directory_reason \<times> string) + string"

datatype safe_data_error = NotSubstituteString string | SubstituteRejected string string

definition safeAddressFieldLabel :: "jsval \<Rightarrow> string" where
  "safeAddressFieldLabel field = strOf (coalesce (getp field ''label'') (getp field ''path''))"

definition defaultRejection :: string where
  "defaultRejection = ''This substitute address is not recognized by an accepted protection program.''"

text \<open>The loop over the accepted jurisdictions: \<open>None\<close> when one accepts, else the last message.\<close>

fun validateAgainst :: "directory \<Rightarrow> string list \<Rightarrow> string \<Rightarrow> jsval \<Rightarrow> string \<Rightarrow> string option" where
  "validateAgainst dir [] candidate field lastMessage = Some lastMessage"
| "validateAgainst dir (jurisdictionKey # keys) candidate field lastMessage =
     (case dir jurisdictionKey candidate (Some (strOf (getp field ''accessClass''))) of
        Inr _ \<Rightarrow> None
      | Inl (_, message) \<Rightarrow> validateAgainst dir keys candidate field message)"

definition validateAgainstAcceptedJurisdictions :: "directory \<Rightarrow> string list \<Rightarrow> string \<Rightarrow> jsval \<Rightarrow> string option" where
  "validateAgainstAcceptedJurisdictions dir keys candidate field =
     validateAgainst dir keys candidate field defaultRejection"

definition validateSafeField :: "directory \<Rightarrow> string list \<Rightarrow> jsval \<Rightarrow> jsval \<Rightarrow> safe_data_error + unit" where
  "validateSafeField dir jurisdictions data field =
     (let candidate = valueAtJsonPointer data (strOf (getp field ''path''))
      in if candidate = Undefined \<or> candidate = Null \<or> candidate = Str [] then Inr ()
         else if \<not> isString candidate then Inl (NotSubstituteString (safeAddressFieldLabel field))
         else (case validateAgainstAcceptedJurisdictions dir jurisdictions (strOf candidate) field of
             None \<Rightarrow> Inr ()
           | Some message \<Rightarrow> Inl (SubstituteRejected (safeAddressFieldLabel field) message)))"

definition validateSafeAddressResponseData :: "SafeAddressRuntimeConfig \<Rightarrow> directory \<Rightarrow> jsval \<Rightarrow> safe_data_error + unit" where
  "validateSafeAddressResponseData config dir data =
     forEach (validateSafeField dir (acpJurisdictionsAccepted config) data) (saFields config)"

lemma validateAgainst_iff:
  "validateAgainst dir keys candidate field m = None \<longleftrightarrow>
     (\<exists>k\<in>set keys. isOk (dir k candidate (Some (strOf (getp field ''accessClass'')))))"
  by (induction keys arbitrary: m) (auto split: sum.splits)

text \<open>A protected value is blank when the response leaves it out.\<close>

definition blankValue :: "jsval \<Rightarrow> bool" where
  "blankValue v = (v = Undefined \<or> v = Null \<or> v = Str [])"

lemma validateSafeField_ok:
  "validateSafeField dir js data field = Inr () \<longleftrightarrow>
     (let v = valueAtJsonPointer data (strOf (getp field ''path'')) in blankValue v \<or>
        (\<exists>s. v = Str s \<and> (\<exists>j\<in>set js. isOk (dir j s (Some (strOf (getp field ''accessClass'')))))))"
proof (cases "valueAtJsonPointer data (strOf (getp field ''path''))")
  case (Str s)
  have "validateAgainstAcceptedJurisdictions dir js s field = None \<longleftrightarrow>
      (\<exists>j\<in>set js. isOk (dir j s (Some (strOf (getp field ''accessClass'')))))"
    by (simp add: validateAgainstAcceptedJurisdictions_def validateAgainst_iff)
  with Str show ?thesis
    by (auto simp: validateSafeField_def Let_def blankValue_def split: option.splits)
qed (simp_all add: validateSafeField_def Let_def blankValue_def)

section \<open>The directory port\<close>

text \<open>
  \<open>recognised j c s\<close>: the program \<open>j\<close> lists a substitute for the class \<open>c\<close> that reads like \<open>s\<close>.
  A directory only accepts recognised candidates.
\<close>

locale safe_address_directory =
  fixes dir :: directory
    and recognised :: "string \<Rightarrow> string \<Rightarrow> string \<Rightarrow> bool"
  assumes accepts: "dir j s (Some c) = Inr n \<Longrightarrow> c \<noteq> [] \<Longrightarrow> recognised j c s"
begin

lemma accepted_values:
  assumes "validateSafeAddressResponseData config dir data = Inr ()"
    and "field \<in> set (saFields config)" "getp field ''accessClass'' = Str c" "c \<noteq> []"
    and "\<not> blankValue (valueAtJsonPointer data (strOf (getp field ''path'')))"
  shows "\<exists>s j. valueAtJsonPointer data (strOf (getp field ''path'')) = Str s \<and>
    j \<in> set (acpJurisdictionsAccepted config) \<and> recognised j c s"
proof -
  have "validateSafeField dir (acpJurisdictionsAccepted config) data field = Inr ()"
    using assms(1,2) by (simp add: validateSafeAddressResponseData_def check_simps)
  with assms(3-5) obtain s j where "valueAtJsonPointer data (strOf (getp field ''path'')) = Str s"
    "j \<in> set (acpJurisdictionsAccepted config)" "isOk (dir j s (Some c))"
    by (auto simp: validateSafeField_ok Let_def)
  moreover from this(3) obtain n where "dir j s (Some c) = Inr n" by (auto simp: isOk_iff)
  ultimately show ?thesis using accepts assms(4) by blast
qed

end

record StubSafeAddressEntry =
  jurisdictionKey :: string
  jurisdictionLabel :: string
  entryClass :: string
  substitutes :: "string list"

definition DEFAULT_ENTRIES :: "StubSafeAddressEntry list" where
  "DEFAULT_ENTRIES =
     [\<lparr>jurisdictionKey = ''CA-ACP'', jurisdictionLabel = ''California Safe at Home'',
       entryClass = ''safe-address'', substitutes = [''PO Box 846, Sacramento, CA 95812'']\<rparr>,
      \<lparr>jurisdictionKey = ''WA-ACP'', jurisdictionLabel = ''Washington Address Confidentiality Program'',
       entryClass = ''safe-address'', substitutes = [''PO Box 257, Olympia, WA 98507'']\<rparr>,
      \<lparr>jurisdictionKey = ''USMS-WitSec'', jurisdictionLabel = ''USMS Witness Security'',
       entryClass = ''safe-address'', substitutes = [''Protected federal substitute address'']\<rparr>]"

text \<open>\<open>value.trim().replace(/\s+/g, ' ').toLocaleLowerCase()\<close>\<close>

fun collapseSpaces :: "bool \<Rightarrow> string \<Rightarrow> string" where
  "collapseSpaces inSpace [] = []"
| "collapseSpaces inSpace (c # cs) =
     (if isSpaceChar c then (if inSpace then collapseSpaces True cs else CHR '' '' # collapseSpaces True cs)
      else c # collapseSpaces False cs)"

definition lowerChar :: "char \<Rightarrow> char" where
  "lowerChar c = (let n = of_char c :: nat in
     if 65 \<le> n \<and> n \<le> 90 \<or> 192 \<le> n \<and> n \<le> 222 \<and> n \<noteq> 215 then char_of (n + 32) else c)"

definition normalizeAddress :: "string \<Rightarrow> string" where
  "normalizeAddress v = map lowerChar (collapseSpaces False (trim v))"

definition entryFor :: "StubSafeAddressEntry list \<Rightarrow> string \<Rightarrow> StubSafeAddressEntry option" where
  "entryFor entries key = map_of (rev (map (\<lambda>e. (jurisdictionKey e, e)) entries)) key"

definition stubSafeAddressDirectory :: "StubSafeAddressEntry list \<Rightarrow> directory" where
  "stubSafeAddressDirectory entries key candidate cls = (case entryFor entries key of
     None \<Rightarrow> Inl (UnknownJurisdiction, ''This protection program is not configured for this site.'')
   | Some entry \<Rightarrow>
      if (case cls of None \<Rightarrow> False | Some c \<Rightarrow> c \<noteq> [] \<and> c \<noteq> entryClass entry) then
        Inl (UnsupportedClass, ''This protection program does not validate that protected field class.'')
      else (case find (\<lambda>substitute. normalizeAddress substitute = normalizeAddress candidate) (substitutes entry) of
          None \<Rightarrow> Inl (NotRecognized, ''This is not a recognized substitute address for the selected program.'')
        | Some match \<Rightarrow> Inr match))"

definition stubRecognised :: "StubSafeAddressEntry list \<Rightarrow> string \<Rightarrow> string \<Rightarrow> string \<Rightarrow> bool" where
  "stubRecognised entries j c s \<longleftrightarrow>
     (\<exists>entry\<in>set entries. jurisdictionKey entry = j \<and> entryClass entry = c \<and>
        (\<exists>sub\<in>set (substitutes entry). normalizeAddress sub = normalizeAddress s))"

lemma stubDirectory_accepts:
  assumes "stubSafeAddressDirectory entries j s (Some c) = Inr n" "c \<noteq> []"
  shows "stubRecognised entries j c s"
proof -
  obtain entry where e: "entryFor entries j = Some entry" "entryClass entry = c"
    "find (\<lambda>substitute. normalizeAddress substitute = normalizeAddress s) (substitutes entry) = Some n"
    using assms by (auto simp: stubSafeAddressDirectory_def split: option.splits if_splits)
  have "entry \<in> set entries" "jurisdictionKey entry = j"
    using map_of_SomeD [of "rev (map (\<lambda>e. (jurisdictionKey e, e)) entries)" j entry] e(1)
    by (auto simp: entryFor_def)
  with e(2,3) show ?thesis by (auto simp: stubRecognised_def find_Some_iff dest: nth_mem)
qed

interpretation stubDirectory: safe_address_directory "stubSafeAddressDirectory entries" "stubRecognised entries"
  by unfold_locales (rule stubDirectory_accepts)

text \<open>No unprotected address is submitted: when the runtime's check passes over the in-memory
  directory, every protected path of a field with an access class is blank or holds, up to case
  and spacing, a substitute that an accepted jurisdiction lists for that class.\<close>

theorem submitted_addresses_recognised:
  assumes "validateSafeAddressResponseData config (stubSafeAddressDirectory entries) data = Inr ()"
    and "field \<in> set (saFields config)" "getp field ''accessClass'' = Str c" "c \<noteq> []"
  shows "blankValue (valueAtJsonPointer data (strOf (getp field ''path''))) \<or>
    (\<exists>s j. valueAtJsonPointer data (strOf (getp field ''path'')) = Str s \<and>
       j \<in> set (acpJurisdictionsAccepted config) \<and> stubRecognised entries j c s)"
  using stubDirectory.accepted_values [OF assms] by blast

definition sampleSafeConfig :: SafeAddressRuntimeConfig where
  "sampleSafeConfig = \<lparr>enabledClasses = [Str ''safe-address''], receiptPostureTier = Str ''verifier-grade'',
     substituteAddressDirectoryRef = Str ''dir'', acpJurisdictionsAccepted = [''WA-ACP'', ''CA-ACP''],
     authorizedAudiences = [], saFields = [Obj [(''path'', Str ''/home/0''), (''accessClass'', Str ''safe-address'')]],
     rendererHints = Undefined\<rparr>"

theorem submitted_addresses_recognised_witness:
  "\<exists>s j. valueAtJsonPointer (Obj [(''home'', Arr [Str '' po box 846,  SACRAMENTO, ca 95812''])]) ''/home/0'' = Str s \<and>
     j \<in> set (acpJurisdictionsAccepted sampleSafeConfig) \<and> stubRecognised DEFAULT_ENTRIES j ''safe-address'' s"
proof -
  let ?data = "Obj [(''home'', Arr [Str '' po box 846,  SACRAMENTO, ca 95812''])]"
  let ?field = "Obj [(''path'', Str ''/home/0''), (''accessClass'', Str ''safe-address'')]"
  have ok: "validateSafeAddressResponseData sampleSafeConfig (stubSafeAddressDirectory DEFAULT_ENTRIES) ?data = Inr ()"
    by code_simp
  have "\<not> blankValue (valueAtJsonPointer ?data ''/home/0'')" by code_simp
  then show ?thesis
    using submitted_addresses_recognised [OF ok, of ?field "''safe-address''"]
    by (simp add: sampleSafeConfig_def)
qed

end
