(* ===== verification/Lifecycle_Client.thy ===== *)
theory Lifecycle_Client
  imports Submit_Transport Safe_Address_Runtime
begin

text \<open>
  The \<open>LifecycleActionClient\<close> port (\<open>src/ports/lifecycle-action-client.ts\<close>), its contract as the
  locale \<open>lifecycle_client\<close>, the in-memory client of \<open>src/adapters/stub/lifecycle-action-client.ts\<close>
  as an instance, and the panel of \<open>src/app/StatusRuntime.tsx\<close> that builds its requests. A JSON
  clone of a record is the record; the clock is a function of the number of times it was read.
\<close>

section \<open>Data\<close>

datatype LifecycleActionKind = CorrectKind | WithdrawKind | DisputeKind

datatype LifecycleActionWindow = WindowOpen | WindowClosesAt string | WindowClosed "string option"

datatype party_scope = AnyParty | AllPartiesMustAgree

record LifecycleActionAvailability =
  action :: LifecycleActionKind
  actionEnabled :: bool
  window :: "LifecycleActionWindow option"
  disabledText :: "string option"
  fieldSet :: "string list option"
  needsReason :: "bool option"
  needsEvidence :: "bool option"
  signerOnly :: "bool option"
  partyScope :: "party_scope option"
  rescissionIntent :: bool
  needsIssuerAcceptance :: "bool option"

text \<open>\<open>rescissionIntent\<close> says that \<open>postDeterminationIntent\<close> is \<open>rescission-requested\<close>, its only value.\<close>

record LifecycleChangedField =
  path :: string
  label :: string
  originalValue :: "LifecycleProtectedText option"
  correctedValue :: "LifecycleProtectedText option"

record event_base =
  eventId :: string
  occurredAt :: string
  verified :: bool
  actorLabel :: "string option"
  eventParty :: "string option"

datatype recorded_as = AsCorrection | AsAmendment

datatype LifecycleTimelineEvent =
    OriginalSubmission event_base string
  | Correction event_base recorded_as "LifecycleChangedField list" "LifecycleProtectedText option" "string list option"
  | Withdrawal event_base "LifecycleProtectedText option" "bool option" "bool option"
  | Dispute event_base "string option" "LifecycleProtectedText option"
  | ConsentRevocation event_base "string option" "LifecycleProtectedText option"

primrec eventBase :: "LifecycleTimelineEvent \<Rightarrow> event_base" where
  "eventBase (OriginalSubmission b _) = b"
| "eventBase (Correction b _ _ _ _) = b"
| "eventBase (Withdrawal b _ _ _) = b"
| "eventBase (Dispute b _ _) = b"
| "eventBase (ConsentRevocation b _ _) = b"

record LifecycleActionSnapshot =
  snapCase :: string
  snapActions :: "LifecycleActionAvailability list"
  snapEvents :: "LifecycleTimelineEvent list"
  updatedAt :: "string option"

record LifecycleActionRequest =
  reqCase :: string
  actorRef :: "string option"
  reqParty :: "string option"

record LifecycleCorrectionRequest = LifecycleActionRequest +
  changedFields :: "LifecycleChangedField list"
  correctableFieldSet :: "string list option"
  caseDecisionReached :: "bool option"
  correctionReason :: "string option"
  evidenceRefs :: "string list option"

record LifecycleWithdrawalRequest = LifecycleActionRequest +
  withdrawalReason :: "string option"
  rescissionRequested :: "bool option"
  requestScope :: "party_scope option"
  allPartiesApproved :: "bool option"

record LifecycleDisputeRequest = LifecycleActionRequest +
  disputedEventId :: "string option"
  statement :: string

record LifecycleActionReceipt =
  receiptAction :: LifecycleActionKind
  receiptEvent :: LifecycleTimelineEvent
  receiptSnapshot :: LifecycleActionSnapshot
  supportRef :: "string option"


section \<open>The port's contract\<close>

text \<open>Requests and their keys, submitted one after the other.\<close>

primrec runRequests :: "('r \<Rightarrow> string \<Rightarrow> 's \<Rightarrow> 'x \<times> 's) \<Rightarrow> ('r \<times> string) list \<Rightarrow> 's \<Rightarrow> 's" where
  "runRequests submit [] s = s"
| "runRequests submit (q # qs) s = runRequests submit qs (snd (submit (fst q) (snd q) s))"

text \<open>
  \<open>history s c\<close> is the timeline of case \<open>c\<close> and \<open>receipt s k\<close> the receipt held for key \<open>k\<close>. A known key
  is answered from its receipt; an accepted request appends exactly the event of its receipt to
  one timeline; a refused one leaves receipts and timelines alone (a case may be opened).
\<close>

locale lifecycle_client =
  fixes submit :: "'r \<Rightarrow> string \<Rightarrow> 's \<Rightarrow> ('e + LifecycleActionReceipt) \<times> 's"
    and caseOf :: "'r \<Rightarrow> string"
    and history :: "'s \<Rightarrow> string \<Rightarrow> LifecycleTimelineEvent list option"
    and receipt :: "'s \<Rightarrow> string \<Rightarrow> LifecycleActionReceipt option"
  assumes known: "receipt s k = Some R \<Longrightarrow> submit r k s = (Inr R, s)"
    and accepted: "submit r k s = (Inr R, s') \<Longrightarrow> receipt s k = None \<Longrightarrow>
        receipt s' = (receipt s)(k \<mapsto> R) \<and> (\<forall>c. c \<noteq> caseOf r \<longrightarrow> history s' c = history s c) \<and>
        (\<exists>h. (history s (caseOf r) = None \<or> history s (caseOf r) = Some h) \<and>
             history s' (caseOf r) = Some (h @ [receiptEvent R]))"
    and refused: "submit r k s = (Inl e, s') \<Longrightarrow> receipt s' = receipt s \<and>
        (\<forall>c. history s c \<noteq> None \<longrightarrow> history s' c = history s c)"
begin

lemma submit_keeps_receipt:
  assumes "receipt s k = Some R"
  shows "receipt (snd (submit r j s)) k = Some R"
proof (cases "fst (submit r j s)")
  case (Inl e)
  then have "submit r j s = (Inl e, snd (submit r j s))" by (metis prod.collapse)
  from refused [OF this] assms show ?thesis by simp
next
  case (Inr R')
  then have sub: "submit r j s = (Inr R', snd (submit r j s))" by (metis prod.collapse)
  show ?thesis
  proof (cases "receipt s j")
    case None
    with accepted [OF sub None] assms show ?thesis by auto
  next
    case (Some Q)
    with known [OF Some] assms show ?thesis by simp
  qed
qed

lemma submit_extends:
  assumes "history s c = Some h"
  shows "\<exists>t. history (snd (submit r j s)) c = Some (h @ t)"
proof (cases "fst (submit r j s)")
  case (Inl e)
  then have "submit r j s = (Inl e, snd (submit r j s))" by (metis prod.collapse)
  from refused [OF this] assms show ?thesis by (intro exI [of _ "[]"]) simp
next
  case (Inr R')
  then have sub: "submit r j s = (Inr R', snd (submit r j s))" by (metis prod.collapse)
  show ?thesis
  proof (cases "receipt s j")
    case None
    from accepted [OF sub None] assms show ?thesis by (cases "c = caseOf r") (auto intro: exI [of _ "[]"])
  next
    case (Some Q)
    with known [OF Some] assms show ?thesis by (intro exI [of _ "[]"]) simp
  qed
qed

lemma run_append_only:
  "history s c = Some h \<Longrightarrow> \<exists>t. history (runRequests submit qs s) c = Some (h @ t)"
proof (induction qs arbitrary: s h)
  case (Cons q qs)
  from submit_extends [OF Cons.prems] obtain t where
    "history (snd (submit (fst q) (snd q) s)) c = Some (h @ t)" by blast
  from Cons.IH [OF this] show ?case by auto
qed (auto intro: exI [of _ "[]"])

lemma run_keeps_receipt: "receipt s k = Some R \<Longrightarrow> receipt (runRequests submit qs s) k = Some R"
  by (induction qs arbitrary: s) (auto intro: submit_keeps_receipt)

lemma accepted_receipt:
  assumes "submit r k s = (Inr R, s')"
  shows "receipt s' k = Some R"
proof (cases "receipt s k")
  case None
  with accepted [OF assms] show ?thesis by simp
next
  case (Some Q)
  with known [OF Some, of r] assms show ?thesis by simp
qed

lemma accepted_recorded:
  assumes "submit r k s = (Inr R, s')" "receipt s k = None"
  shows "\<exists>h. history s' (caseOf r) = Some (h @ [receiptEvent R])"
  using accepted [OF assms] by blast

text \<open>A key is answered once: every later request under it returns the first receipt.\<close>

lemma retry_replays:
  "submit r k s = (Inr R, s') \<Longrightarrow> submit r' k (runRequests submit qs s') = (Inr R, runRequests submit qs s')"
  by (intro known run_keeps_receipt accepted_receipt)

end

section \<open>The in-memory client\<close>

record StubLifecycleActionClientOptions =
  initialSnapshots :: "LifecycleActionSnapshot list"
  optionFieldSet :: "string list option"
  signerRefs :: "string list option"

record lifecycle_store =
  snapshots :: "string \<rightharpoonup> LifecycleActionSnapshot"
  receiptsByKey :: "string \<rightharpoonup> LifecycleActionReceipt"
  nextEvent :: nat
  ticks :: nat

datatype lifecycle_error =
    BadKey adapter_error
  | NotAvailable LifecycleActionKind
  | WindowIsClosed LifecycleActionKind
  | NoChangedFields
  | FieldIncomplete
  | CorrectionReasonRequired
  | WithdrawalReasonRequired
  | EvidenceRequired
  | FieldSetUndeclared
  | AllPartiesRequired
  | RescissionUnavailable
  | SignersOnly
  | StatementRequired

definition DEFAULT_CORRECTABLE_FIELD_SET :: "string list" where
  "DEFAULT_CORRECTABLE_FIELD_SET = [''/fullName'', ''/householdSize'', ''/address/street'']"

definition availability :: "LifecycleActionKind \<Rightarrow> LifecycleActionAvailability" where
  "availability kind = \<lparr>action = kind, actionEnabled = True, window = None, disabledText = None,
     fieldSet = None, needsReason = Some True, needsEvidence = None, signerOnly = None,
     partyScope = None, rescissionIntent = False, needsIssuerAcceptance = None\<rparr>"

definition DEFAULT_ACTIONS :: "LifecycleActionAvailability list" where
  "DEFAULT_ACTIONS =
     [(availability CorrectKind)\<lparr>window := Some WindowOpen, fieldSet := Some DEFAULT_CORRECTABLE_FIELD_SET\<rparr>,
      (availability WithdrawKind)\<lparr>window := Some (WindowClosesAt ''2026-06-24T23:59:59.000Z'')\<rparr>,
      (availability DisputeKind)\<lparr>signerOnly := Some True\<rparr>]"

definition registerLifecycle :: "LifecycleActionSnapshot \<Rightarrow> lifecycle_store \<Rightarrow> lifecycle_store" where
  "registerLifecycle s st = st\<lparr>snapshots := (snapshots st)(snapCase s \<mapsto> s)\<rparr>"

definition stubLifecycleActionClient :: "StubLifecycleActionClientOptions \<Rightarrow> lifecycle_store" where
  "stubLifecycleActionClient opts = fold registerLifecycle (initialSnapshots opts)
     \<lparr>snapshots = Map.empty, receiptsByKey = Map.empty, nextEvent = 0, ticks = 0\<rparr>"

definition readLifecycle :: "LifecycleActionRequest \<Rightarrow> lifecycle_store \<Rightarrow> LifecycleActionSnapshot option" where
  "readLifecycle request st = snapshots st (reqCase request)"

text \<open>The next event id and the next clock reading.\<close>

definition eventName :: "string \<Rightarrow> nat \<Rightarrow> string" where
  "eventName prefix n = ''evt-'' @ prefix @ ''-'' @ padStart 6 (CHR ''0'') (showNat n)"

definition nextEventId :: "string \<Rightarrow> lifecycle_store \<Rightarrow> string \<times> lifecycle_store" where
  "nextEventId prefix st = (let n = nextEvent st + 1 in (eventName prefix n, st\<lparr>nextEvent := n\<rparr>))"

definition readClock :: "(nat \<Rightarrow> string) \<Rightarrow> lifecycle_store \<Rightarrow> string \<times> lifecycle_store" where
  "readClock now st = (now (ticks st), st\<lparr>ticks := ticks st + 1\<rparr>)"

definition originalSubmissionEvent :: "lifecycle_store \<Rightarrow> LifecycleTimelineEvent \<times> lifecycle_store" where
  "originalSubmissionEvent st = (let (eid, st1) = nextEventId ''original'' st
     in (OriginalSubmission \<lparr>eventId = eid, occurredAt = ''2026-05-23T12:00:00.000Z'', verified = True,
           actorLabel = Some ''Respondent'', eventParty = None\<rparr> ''Original signed submission'', st1))"

definition snapshotFor :: "(nat \<Rightarrow> string) \<Rightarrow> string \<Rightarrow> lifecycle_store \<Rightarrow> LifecycleActionSnapshot \<times> lifecycle_store" where
  "snapshotFor now c st = (case snapshots st c of
     Some existing \<Rightarrow> (existing, st)
   | None \<Rightarrow>
      (let (original, st1) = originalSubmissionEvent st;
           (stamp, st2) = readClock now st1;
           created = \<lparr>snapCase = c, snapActions = DEFAULT_ACTIONS, snapEvents = [original], updatedAt = Some stamp\<rparr>
       in (created, st2\<lparr>snapshots := (snapshots st2)(c \<mapsto> created)\<rparr>)))"

definition appendReceipt ::
  "(nat \<Rightarrow> string) \<Rightarrow> string \<Rightarrow> LifecycleActionKind \<Rightarrow> LifecycleTimelineEvent \<Rightarrow> string \<Rightarrow> lifecycle_store \<Rightarrow>
   LifecycleActionReceipt \<times> lifecycle_store" where
  "appendReceipt now c kind event key st =
     (let (cur, st1) = snapshotFor now c st;
          snapshot = cur\<lparr>snapEvents := snapEvents cur @ [event], updatedAt := Some (occurredAt (eventBase event))\<rparr>;
          receipt = \<lparr>receiptAction = kind, receiptEvent = event, receiptSnapshot = snapshot,
                     supportRef = Some (''lifecycle-'' @ eventId (eventBase event))\<rparr>
      in (receipt, st1\<lparr>snapshots := (snapshots st1)(c \<mapsto> snapshot),
                       receiptsByKey := (receiptsByKey st1)(key \<mapsto> receipt)\<rparr>))"

text \<open>The guards.\<close>

definition assertChangedFields :: "LifecycleChangedField list \<Rightarrow> lifecycle_error + unit" where
  "assertChangedFields fs = checks
     [throwIf (fs = []) NoChangedFields,
      forEach (\<lambda>f. throwIf (path f = [] \<or> label f = []) FieldIncomplete) fs]"

definition assertActionEnabled ::
  "LifecycleActionSnapshot \<Rightarrow> LifecycleActionKind \<Rightarrow> lifecycle_error + LifecycleActionAvailability" where
  "assertActionEnabled snapshot kind = (case List.find (\<lambda>a. action a = kind) (snapActions snapshot) of
     None \<Rightarrow> Inl (NotAvailable kind)
   | Some found \<Rightarrow>
       if \<not> actionEnabled found then Inl (NotAvailable kind)
       else (case window found of Some (WindowClosed _) \<Rightarrow> Inl (WindowIsClosed kind) | _ \<Rightarrow> Inr found))"

definition blankText :: "string option \<Rightarrow> bool" where
  "blankText t = (case t of None \<Rightarrow> True | Some s \<Rightarrow> s = [] \<or> trim s = [])"

definition assertReasonIfRequired ::
  "LifecycleActionAvailability \<Rightarrow> string option \<Rightarrow> lifecycle_error \<Rightarrow> lifecycle_error + unit" where
  "assertReasonIfRequired act reason message = throwIf (needsReason act = Some True \<and> blankText reason) message"

definition assertEvidenceIfRequired ::
  "LifecycleActionAvailability \<Rightarrow> string list option \<Rightarrow> lifecycle_error + unit" where
  "assertEvidenceIfRequired act refs =
     throwIf (needsEvidence act = Some True \<and> (refs = None \<or> refs = Some [])) EvidenceRequired"

definition assertSignerScope ::
  "LifecycleActionAvailability \<Rightarrow> string option \<Rightarrow> string list \<Rightarrow> lifecycle_error + unit" where
  "assertSignerScope act actor refs =
     (if signerOnly act \<noteq> Some True \<or> refs = [] then Inr ()
      else throwIf (actor = None \<or> actor = Some [] \<or> the actor \<notin> set refs) SignersOnly)"

definition assertPartyScope ::
  "LifecycleActionAvailability \<Rightarrow> LifecycleWithdrawalRequest \<Rightarrow> lifecycle_error + unit" where
  "assertPartyScope act request =
     (let scope = (case requestScope request of Some s \<Rightarrow> Some s | None \<Rightarrow> partyScope act)
      in throwIf (scope = Some AllPartiesMustAgree \<and> allPartiesApproved request \<noteq> Some True) AllPartiesRequired)"

definition assertRescissionPolicy ::
  "LifecycleActionAvailability \<Rightarrow> bool option \<Rightarrow> lifecycle_error + unit" where
  "assertRescissionPolicy act requested =
     (if requested \<noteq> Some True then Inr ()
      else throwIf (\<not> rescissionIntent act \<or> needsIssuerAcceptance act \<noteq> Some True) RescissionUnavailable)"

definition introducesNewField :: "LifecycleChangedField list \<Rightarrow> bool" where
  "introducesNewField fs = list_ex (\<lambda>f. originalValue f = None \<and> correctedValue f \<noteq> None) fs"

definition reasonText :: "string option \<Rightarrow> LifecycleProtectedText option" where
  "reasonText reason = (case reason of None \<Rightarrow> None
     | Some t \<Rightarrow> if t = [] then None else Some \<lparr>ptext = t, accessClass = None\<rparr>)"

text \<open>
  The steps the three handlers share: the key guard, the replay of a known key, the record's
  snapshot (created on first use, also when a guard then refuses), the guards of the action, and
  the event with its id and timestamp. The guards give the event as a function of its common fields.
\<close>

definition handleAction ::
  "uuid_lib \<Rightarrow> (nat \<Rightarrow> string) \<Rightarrow> LifecycleActionKind \<Rightarrow> string \<Rightarrow> string \<Rightarrow> string \<Rightarrow> string option \<Rightarrow>
   (LifecycleActionSnapshot \<Rightarrow> lifecycle_error + (event_base \<Rightarrow> LifecycleTimelineEvent)) \<Rightarrow> string \<Rightarrow>
   lifecycle_store \<Rightarrow> (lifecycle_error + LifecycleActionReceipt) \<times> lifecycle_store" where
  "handleAction lib now kind prefix actor urn party guards key st = (case keyGuard lib key of
     Inl e \<Rightarrow> (Inl (BadKey e), st)
   | Inr _ \<Rightarrow> (case receiptsByKey st key of
       Some existing \<Rightarrow> (Inr existing, st)
     | None \<Rightarrow> (case snapshotFor now (urn) st of
         (snapshot, st1) \<Rightarrow> (case guards snapshot of
            Inl e \<Rightarrow> (Inl e, st1)
          | Inr makeEvent \<Rightarrow>
             (let (eid, st2) = nextEventId prefix st1;
                  (stamp, st3) = readClock now st2;
                  event = makeEvent \<lparr>eventId = eid, occurredAt = stamp, verified = True,
                            actorLabel = Some actor, eventParty = party\<rparr>;
                  (receipt, st4) = appendReceipt now (urn) kind event key st3
              in (Inr receipt, st4))))))"

definition declaredFieldSet ::
  "StubLifecycleActionClientOptions \<Rightarrow> LifecycleCorrectionRequest \<Rightarrow> LifecycleActionAvailability \<Rightarrow> string list" where
  "declaredFieldSet opts request act = (case correctableFieldSet request of
     Some fs \<Rightarrow> fs
   | None \<Rightarrow> (case fieldSet act of
       Some fs \<Rightarrow> fs
     | None \<Rightarrow> (case optionFieldSet opts of Some fs \<Rightarrow> fs | None \<Rightarrow> DEFAULT_CORRECTABLE_FIELD_SET)))"

definition correctionEvent ::
  "StubLifecycleActionClientOptions \<Rightarrow> LifecycleCorrectionRequest \<Rightarrow> LifecycleActionSnapshot \<Rightarrow>
   lifecycle_error + (event_base \<Rightarrow> LifecycleTimelineEvent)" where
  "correctionEvent opts request snapshot =
     bindR (assertActionEnabled snapshot CorrectKind) (\<lambda>act.
     bindR (assertChangedFields (changedFields request)) (\<lambda>_.
     bindR (assertReasonIfRequired act (correctionReason request) CorrectionReasonRequired) (\<lambda>_.
     bindR (assertEvidenceIfRequired act (evidenceRefs request)) (\<lambda>_.
       (let declared = declaredFieldSet opts request act;
            isNarrowCorrection = (list_all (\<lambda>f. path f \<in> set declared) (changedFields request) \<and>
              caseDecisionReached request \<noteq> Some True \<and> \<not> introducesNewField (changedFields request))
        in bindR (throwIf (declared = []) FieldSetUndeclared) (\<lambda>_.
             Inr (\<lambda>base. Correction base (if isNarrowCorrection then AsCorrection else AsAmendment)
               (changedFields request) (reasonText (correctionReason request)) (evidenceRefs request))))))))"

definition withdrawalEvent ::
  "LifecycleWithdrawalRequest \<Rightarrow> LifecycleActionSnapshot \<Rightarrow>
   lifecycle_error + (event_base \<Rightarrow> LifecycleTimelineEvent)" where
  "withdrawalEvent request snapshot =
     bindR (assertActionEnabled snapshot WithdrawKind) (\<lambda>act.
     bindR (assertReasonIfRequired act (withdrawalReason request) WithdrawalReasonRequired) (\<lambda>_.
     bindR (assertPartyScope act request) (\<lambda>_.
     bindR (assertRescissionPolicy act (rescissionRequested request)) (\<lambda>_.
       Inr (\<lambda>base. Withdrawal base (reasonText (withdrawalReason request)) (rescissionRequested request)
         (if rescissionRequested request = Some True then Some True else None))))))"

definition disputeEvent ::
  "StubLifecycleActionClientOptions \<Rightarrow> LifecycleDisputeRequest \<Rightarrow> LifecycleActionSnapshot \<Rightarrow>
   lifecycle_error + (event_base \<Rightarrow> LifecycleTimelineEvent)" where
  "disputeEvent opts request snapshot =
     bindR (assertActionEnabled snapshot DisputeKind) (\<lambda>act.
     bindR (assertSignerScope act (actorRef request) (case signerRefs opts of None \<Rightarrow> [] | Some rs \<Rightarrow> rs)) (\<lambda>_.
     bindR (throwIf (trim (statement request) = []) StatementRequired) (\<lambda>_.
       Inr (\<lambda>base. Dispute base (disputedEventId request) (Some \<lparr>ptext = statement request, accessClass = None\<rparr>)))))"

definition submitCorrection ::
  "uuid_lib \<Rightarrow> (nat \<Rightarrow> string) \<Rightarrow> StubLifecycleActionClientOptions \<Rightarrow> LifecycleCorrectionRequest \<Rightarrow> string \<Rightarrow>
   lifecycle_store \<Rightarrow> (lifecycle_error + LifecycleActionReceipt) \<times> lifecycle_store" where
  "submitCorrection lib now opts request =
     handleAction lib now CorrectKind ''correction'' ''Respondent'' (reqCase request) (reqParty request) (correctionEvent opts request)"

definition submitWithdrawal ::
  "uuid_lib \<Rightarrow> (nat \<Rightarrow> string) \<Rightarrow> LifecycleWithdrawalRequest \<Rightarrow> string \<Rightarrow>
   lifecycle_store \<Rightarrow> (lifecycle_error + LifecycleActionReceipt) \<times> lifecycle_store" where
  "submitWithdrawal lib now request =
     handleAction lib now WithdrawKind ''withdrawal'' ''Applicant'' (reqCase request) (reqParty request) (withdrawalEvent request)"

definition submitDispute ::
  "uuid_lib \<Rightarrow> (nat \<Rightarrow> string) \<Rightarrow> StubLifecycleActionClientOptions \<Rightarrow> LifecycleDisputeRequest \<Rightarrow> string \<Rightarrow>
   lifecycle_store \<Rightarrow> (lifecycle_error + LifecycleActionReceipt) \<times> lifecycle_store" where
  "submitDispute lib now opts request =
     handleAction lib now DisputeKind ''dispute'' ''Signer'' (reqCase request) (reqParty request) (disputeEvent opts request)"

datatype lifecycle_request =
    CorrectRequest LifecycleCorrectionRequest
  | WithdrawRequest LifecycleWithdrawalRequest
  | DisputeRequest LifecycleDisputeRequest

definition submitLifecycle ::
  "uuid_lib \<Rightarrow> (nat \<Rightarrow> string) \<Rightarrow> StubLifecycleActionClientOptions \<Rightarrow> lifecycle_request \<Rightarrow> string \<Rightarrow>
   lifecycle_store \<Rightarrow> (lifecycle_error + LifecycleActionReceipt) \<times> lifecycle_store" where
  "submitLifecycle lib now opts r = (case r of
     CorrectRequest q \<Rightarrow> submitCorrection lib now opts q
   | WithdrawRequest q \<Rightarrow> submitWithdrawal lib now q
   | DisputeRequest q \<Rightarrow> submitDispute lib now opts q)"

primrec requestCase :: "lifecycle_request \<Rightarrow> string" where
  "requestCase (CorrectRequest q) = reqCase q"
| "requestCase (WithdrawRequest q) = reqCase q"
| "requestCase (DisputeRequest q) = reqCase q"

definition lifecycleHistory :: "lifecycle_store \<Rightarrow> string \<Rightarrow> LifecycleTimelineEvent list option" where
  "lifecycleHistory st c = map_option snapEvents (snapshots st c)"

definition lifecycleReceipt :: "uuid_lib \<Rightarrow> lifecycle_store \<Rightarrow> string \<Rightarrow> LifecycleActionReceipt option" where
  "lifecycleReceipt lib st k = (if isUuidV7IdempotencyKey lib k then receiptsByKey st k else None)"


section \<open>What the handlers do\<close>

lemma eventName_inject:
  assumes "CHR ''-'' \<notin> set p" "CHR ''-'' \<notin> set q"
  shows "eventName p m = eventName q n \<longleftrightarrow> p = q \<and> m = n"
proof
  assume "eventName p m = eventName q n"
  then have "p @ CHR ''-'' # padStart 6 (CHR ''0'') (showNat m) = q @ CHR ''-'' # padStart 6 (CHR ''0'') (showNat n)"
    by (simp add: eventName_def)
  then have "splitOn (CHR ''-'') (p @ CHR ''-'' # padStart 6 (CHR ''0'') (showNat m)) =
      splitOn (CHR ''-'') (q @ CHR ''-'' # padStart 6 (CHR ''0'') (showNat n))" by simp
  then have "p = q" using assms by (simp add: splitOn_append)
  with \<open>eventName p m = eventName q n\<close> show "p = q \<and> m = n" by (simp add: eventName_def)
qed simp

definition openedSnapshot :: "(nat \<Rightarrow> string) \<Rightarrow> string \<Rightarrow> lifecycle_store \<Rightarrow> LifecycleActionSnapshot" where
  "openedSnapshot now c st = \<lparr>snapCase = c, snapActions = DEFAULT_ACTIONS,
     snapEvents = [OriginalSubmission \<lparr>eventId = eventName ''original'' (nextEvent st + 1),
        occurredAt = ''2026-05-23T12:00:00.000Z'', verified = True, actorLabel = Some ''Respondent'',
        eventParty = None\<rparr> ''Original signed submission''],
     updatedAt = Some (now (ticks st))\<rparr>"

lemma snapshotFor_cases:
  obtains (known) s where "snapshots st c = Some s" "snapshotFor now c st = (s, st)"
  | (opened) "snapshots st c = None" "snapshotFor now c st =
      (openedSnapshot now c st, st\<lparr>snapshots := (snapshots st)(c \<mapsto> openedSnapshot now c st),
         nextEvent := nextEvent st + 1, ticks := ticks st + 1\<rparr>)"
proof (cases "snapshots st c")
  case None
  then show ?thesis
    by (intro opened) (simp_all add: snapshotFor_def openedSnapshot_def originalSubmissionEvent_def
        nextEventId_def readClock_def Let_def)
next
  case (Some s)
  then show ?thesis by (intro known) (simp_all add: snapshotFor_def)
qed

lemma snapshotFor_state:
  assumes "snapshotFor now c st = (s, st1)"
  shows "snapshots st1 = (snapshots st)(c \<mapsto> s) \<and> receiptsByKey st1 = receiptsByKey st \<and>
    nextEvent st \<le> nextEvent st1 \<and>
    (snapshots st c = Some s \<and> st1 = st \<or> snapshots st c = None \<and> s = openedSnapshot now c st \<and>
       nextEvent st1 = nextEvent st + 1)"
  using assms by (cases rule: snapshotFor_cases [of st c now]) (auto simp: fun_upd_idem)

definition actionBase where
  "actionBase now prefix actor party st1 = \<lparr>eventId = eventName prefix (nextEvent st1 + 1),
     occurredAt = now (ticks st1), verified = True, actorLabel = Some actor, eventParty = party\<rparr>"

lemma handleAction_cases:
  obtains (rejected) "\<not> isUuidV7IdempotencyKey lib k"
      "handleAction lib now kind prefix actor c p g k st = (Inl (BadKey (KeyError NotUuidV7)), st)"
  | (known) R where "isUuidV7IdempotencyKey lib k" "receiptsByKey st k = Some R"
      "handleAction lib now kind prefix actor c p g k st = (Inr R, st)"
  | (refused) s st1 e where "isUuidV7IdempotencyKey lib k" "receiptsByKey st k = None"
      "snapshotFor now (c) st = (s, st1)" "g s = Inl e"
      "handleAction lib now kind prefix actor c p g k st = (Inl e, st1)"
  | (accepted) s st1 mk R where "isUuidV7IdempotencyKey lib k" "receiptsByKey st k = None"
      "snapshotFor now (c) st = (s, st1)" "g s = Inr mk"
      "receiptAction R = kind" "receiptEvent R = mk (actionBase now prefix actor p st1)"
      "snapEvents (receiptSnapshot R) = snapEvents s @ [receiptEvent R]"
      "snapActions (receiptSnapshot R) = snapActions s"
      "handleAction lib now kind prefix actor c p g k st =
        (Inr R, st1\<lparr>snapshots := (snapshots st1)(c \<mapsto> receiptSnapshot R),
           receiptsByKey := (receiptsByKey st1)(k \<mapsto> R), nextEvent := nextEvent st1 + 1, ticks := ticks st1 + 1\<rparr>)"
proof (cases "isUuidV7IdempotencyKey lib k")
  case False
  then show ?thesis by (intro rejected) (simp_all add: handleAction_def keyGuard_simps)
next
  case True
  note key = True
  show ?thesis
  proof (cases "receiptsByKey st k")
    case (Some R)
    with key show ?thesis by (intro known) (simp_all add: handleAction_def keyGuard_simps)
  next
    case None
    obtain s st1 where sf: "snapshotFor now (c) st = (s, st1)" by (cases "snapshotFor now (c) st")
    show ?thesis
    proof (cases "g s")
      case (Inl e)
      with key None sf show ?thesis by (intro refused) (simp_all add: handleAction_def keyGuard_simps)
    next
      case (Inr mk)
      let ?ev = "mk (actionBase now prefix actor p st1)"
      let ?snap = "s\<lparr>snapEvents := snapEvents s @ [?ev], updatedAt := Some (occurredAt (eventBase ?ev))\<rparr>"
      let ?R = "\<lparr>receiptAction = kind, receiptEvent = ?ev, receiptSnapshot = ?snap,
                  supportRef = Some (''lifecycle-'' @ eventId (eventBase ?ev))\<rparr>"
      let ?st3 = "st1\<lparr>nextEvent := nextEvent st1 + 1, ticks := ticks st1 + 1\<rparr>"
      have "snapshots ?st3 (c) = Some s" using snapshotFor_state [OF sf] by simp
      then have "snapshotFor now (c) ?st3 = (s, ?st3)" by (simp add: snapshotFor_def)
      then have "handleAction lib now kind prefix actor c p g k st =
          (Inr ?R, st1\<lparr>snapshots := (snapshots st1)(c \<mapsto> ?snap),
             receiptsByKey := (receiptsByKey st1)(k \<mapsto> ?R), nextEvent := nextEvent st1 + 1, ticks := ticks st1 + 1\<rparr>)"
        using key None sf Inr
        by (simp add: handleAction_def keyGuard_simps nextEventId_def readClock_def Let_def actionBase_def appendReceipt_def)
      with key None sf Inr show ?thesis by (intro accepted [of s st1 mk ?R]) simp_all
    qed
  qed
qed

lemma handleAction_known:
  "lifecycleReceipt lib st k = Some R \<Longrightarrow> handleAction lib now kind prefix actor c p g k st = (Inr R, st)"
  by (simp add: handleAction_def lifecycleReceipt_def keyGuard_simps split: if_splits)

lemma handleAction_accepted:
  assumes "handleAction lib now kind prefix actor c p g k st = (Inr R, st')" "lifecycleReceipt lib st k = None"
  shows "lifecycleReceipt lib st' = (lifecycleReceipt lib st)(k \<mapsto> R) \<and>
    (\<forall>d. d \<noteq> c \<longrightarrow> lifecycleHistory st' d = lifecycleHistory st d) \<and>
    (\<exists>h. (lifecycleHistory st (c) = None \<or> lifecycleHistory st (c) = Some h) \<and>
       lifecycleHistory st' (c) = Some (h @ [receiptEvent R]))"
proof (cases rule: handleAction_cases [of lib k now kind prefix actor c p g st])
  case (known R')
  with assms show ?thesis by (simp add: lifecycleReceipt_def)
next
  case (accepted s st1 mk R')
  then have st': "R' = R" "st' = st1\<lparr>snapshots := (snapshots st1)(c \<mapsto> receiptSnapshot R),
       receiptsByKey := (receiptsByKey st1)(k \<mapsto> R), nextEvent := nextEvent st1 + 1, ticks := ticks st1 + 1\<rparr>"
    using assms(1) by simp_all
  note sf = snapshotFor_state [OF accepted(3)]
  have "lifecycleReceipt lib st' = (lifecycleReceipt lib st)(k \<mapsto> R)"
    using sf accepted(1) st' by (auto simp: lifecycleReceipt_def)
  moreover have "lifecycleHistory st' d = lifecycleHistory st d" if "d \<noteq> c" for d
    using sf that st' by (simp add: lifecycleHistory_def)
  moreover have "lifecycleHistory st (c) = None \<or> lifecycleHistory st (c) = Some (snapEvents s)"
    using sf by (auto simp: lifecycleHistory_def)
  moreover have "lifecycleHistory st' (c) = Some (snapEvents s @ [receiptEvent R])"
    using accepted(7) st' by (simp add: lifecycleHistory_def)
  ultimately show ?thesis by blast
qed (use assms in simp_all)

lemma handleAction_refused:
  assumes "handleAction lib now kind prefix actor c p g k st = (Inl e, st')"
  shows "lifecycleReceipt lib st' = lifecycleReceipt lib st \<and>
    (\<forall>d. lifecycleHistory st d \<noteq> None \<longrightarrow> lifecycleHistory st' d = lifecycleHistory st d)"
proof (cases rule: handleAction_cases [of lib k now kind prefix actor c p g st])
  case (refused s st1 e')
  then have "st' = st1" using assms by simp
  with snapshotFor_state [OF refused(3)] show ?thesis
    by (auto simp: lifecycleReceipt_def lifecycleHistory_def)
qed (use assms in simp_all)

lemmas submit_defs = submitCorrection_def submitWithdrawal_def submitDispute_def

lemma submitLifecycle_handle:
  obtains kind prefix actor party g where
    "submitLifecycle lib now opts r = handleAction lib now kind prefix actor (requestCase r) party g"
    "prefix \<in> {''correction'', ''withdrawal'', ''dispute''}"
    "\<forall>s mk b. g s = Inr mk \<longrightarrow> eventBase (mk b) = b"
proof (cases r)
  case (CorrectRequest q)
  then show ?thesis
    by (intro that [of CorrectKind "''correction''" "''Respondent''" "reqParty q" "correctionEvent opts q"])
      (auto simp: submitLifecycle_def submit_defs correctionEvent_def Let_def bindR_Inr_iff)
next
  case (WithdrawRequest q)
  then show ?thesis
    by (intro that [of WithdrawKind "''withdrawal''" "''Applicant''" "reqParty q" "withdrawalEvent q"])
      (auto simp: submitLifecycle_def submit_defs withdrawalEvent_def bindR_Inr_iff)
next
  case (DisputeRequest q)
  then show ?thesis
    by (intro that [of DisputeKind "''dispute''" "''Signer''" "reqParty q" "disputeEvent opts q"])
      (auto simp: submitLifecycle_def submit_defs disputeEvent_def bindR_Inr_iff)
qed

interpretation stubLifecycle: lifecycle_client "submitLifecycle lib now opts" requestCase lifecycleHistory
    "lifecycleReceipt lib" for lib now opts
proof
  fix r k st R st' e
  obtain kind prefix actor party g where h:
    "submitLifecycle lib now opts r = handleAction lib now kind prefix actor (requestCase r) party g"
    by (rule submitLifecycle_handle)
  show "lifecycleReceipt lib st k = Some R \<Longrightarrow> submitLifecycle lib now opts r k st = (Inr R, st)"
    by (simp add: h handleAction_known)
  show "submitLifecycle lib now opts r k st = (Inr R, st') \<Longrightarrow> lifecycleReceipt lib st k = None \<Longrightarrow>
      lifecycleReceipt lib st' = (lifecycleReceipt lib st)(k \<mapsto> R) \<and>
      (\<forall>c. c \<noteq> requestCase r \<longrightarrow> lifecycleHistory st' c = lifecycleHistory st c) \<and>
      (\<exists>h. (lifecycleHistory st (requestCase r) = None \<or> lifecycleHistory st (requestCase r) = Some h) \<and>
         lifecycleHistory st' (requestCase r) = Some (h @ [receiptEvent R]))"
    unfolding h by (rule handleAction_accepted)
  show "submitLifecycle lib now opts r k st = (Inl e, st') \<Longrightarrow> lifecycleReceipt lib st' = lifecycleReceipt lib st \<and>
      (\<forall>c. lifecycleHistory st c \<noteq> None \<longrightarrow> lifecycleHistory st' c = lifecycleHistory st c)"
    unfolding h by (rule handleAction_refused)
qed

section \<open>Event numbers\<close>

text \<open>The counter an event id was made from, and the store's invariant: no number is used twice.\<close>

definition eventNumber :: "LifecycleTimelineEvent \<Rightarrow> nat" where
  "eventNumber e = readNat (last (splitOn (CHR ''-'') (eventId (eventBase e))))"

abbreviation numbersOf :: "LifecycleActionSnapshot \<Rightarrow> nat list" where
  "numbersOf s \<equiv> map eventNumber (snapEvents s)"

definition eventsInv :: "lifecycle_store \<Rightarrow> bool" where
  "eventsInv st \<longleftrightarrow>
     (\<forall>c s. snapshots st c = Some s \<longrightarrow> distinct (numbersOf s) \<and> (\<forall>n\<in>set (numbersOf s). n \<le> nextEvent st)) \<and>
     (\<forall>c d s t. snapshots st c = Some s \<longrightarrow> snapshots st d = Some t \<longrightarrow> c \<noteq> d \<longrightarrow>
        set (numbersOf s) \<inter> set (numbersOf t) = {})"

lemma dash_free_padded: "CHR ''-'' \<notin> set (padStart 6 (CHR ''0'') (showNat n))"
proof -
  have "CHR ''-'' \<noteq> digitChar d" if "d < 10" for d
  proof
    assume "CHR ''-'' = digitChar d"
    then have "of_char (CHR ''-'') - 48 = (of_char (digitChar d) :: nat) - 48" by simp
    then have "d = 0" using digitChar_value [OF that] by simp
    with \<open>CHR ''-'' = digitChar d\<close> show False by (simp add: digitChar_def char_of_def)
  qed
  then have "CHR ''-'' \<notin> set (showNat n)" using set_showNat by blast
  then show ?thesis by (auto simp: padStart_def)
qed

lemma eventNumber_eventName:
  assumes "eventId (eventBase e) = eventName p n" "CHR ''-'' \<notin> set p"
  shows "eventNumber e = n"
proof -
  have "splitOn (CHR ''-'') (''evt'' @ CHR ''-'' # p @ CHR ''-'' # padStart 6 (CHR ''0'') (showNat n)) =
      [''evt'', p, padStart 6 (CHR ''0'') (showNat n)]"
    using assms(2) dash_free_padded [of n] by (subst splitOn_append, simp)+ (simp add: splitOn_append splitOn_absent)
  then show ?thesis using assms(1) by (simp add: eventNumber_def eventName_def padStart_def readNat_zeros)
qed

lemma fresh_number:
  "distinct ns \<and> (\<forall>n\<in>set ns. n \<le> m) \<Longrightarrow> distinct (ns @ [m + 1]) \<and> (\<forall>n\<in>set (ns @ [m + 1]). n \<le> m + (1::nat))"
  by force

lemma eventsInv_extend:
  assumes inv: "eventsInv st"
    and s': "numbersOf s' = (case snapshots st c of None \<Rightarrow> [] | Some s \<Rightarrow> numbersOf s) @ [nextEvent st + 1]"
    and st': "snapshots st' = (snapshots st)(c \<mapsto> s')" "nextEvent st' = nextEvent st + 1"
  shows "eventsInv st'"
proof -
  let ?old = "case snapshots st c of None \<Rightarrow> [] | Some s \<Rightarrow> numbersOf s"
  have le: "\<forall>n\<in>set (numbersOf t). n \<le> nextEvent st" "distinct (numbersOf t)" if "snapshots st d = Some t" for d t
    using inv that unfolding eventsInv_def by blast+
  have disj: "set (numbersOf s) \<inter> set (numbersOf t) = {}"
    if "snapshots st d = Some s" "snapshots st e = Some t" "d \<noteq> e" for d e s t
    using inv that unfolding eventsInv_def by blast
  have old: "distinct ?old \<and> (\<forall>n\<in>set ?old. n \<le> nextEvent st)"
    by (cases "snapshots st c") (simp, use le in \<open>metis option.simps(5)\<close>)
  have new: "distinct (numbersOf s')" "\<forall>n\<in>set (numbersOf s'). n \<le> nextEvent st + 1"
    unfolding s' using fresh_number [OF old] by blast+
  have apart: "set (numbersOf s') \<inter> set (numbersOf t) = {}" if t: "snapshots st d = Some t" "d \<noteq> c" for d t
  proof -
    have "set ?old \<inter> set (numbersOf t) = {}" 
      by (cases "snapshots st c") (simp, use disj [OF _ t(1), of c] t(2) in simp)
    moreover have "nextEvent st + 1 \<notin> set (numbersOf t)"
    proof
      assume "nextEvent st + 1 \<in> set (numbersOf t)"
      with le(1) [OF t(1)] have "nextEvent st + 1 \<le> nextEvent st" by blast
      then show False by simp
    qed
    moreover have "set (numbersOf s') = insert (nextEvent st + 1) (set ?old)"
      unfolding s' by simp
    ultimately show ?thesis by simp
  qed
  have own: "distinct (numbersOf s) \<and> (\<forall>n\<in>set (numbersOf s). n \<le> nextEvent st')"
    if "snapshots st' d = Some s" for d s
  proof (cases "d = c")
    case True
    then show ?thesis using that new st' by simp
  next
    case False
    then have "snapshots st d = Some s" using that st' by simp
    from le [OF this] show ?thesis using st' by (auto intro: le_SucI)
  qed
  have "set (numbersOf s) \<inter> set (numbersOf t) = {}"
    if "snapshots st' d = Some s" "snapshots st' e = Some t" "d \<noteq> e" for d e s t
  proof (cases "d = c \<or> e = c")
    case False
    then show ?thesis using disj that st' by simp
  next
    case True
    then show ?thesis
    proof
      assume "d = c"
      then show ?thesis using apart [of e t] that st' by simp
    next
      assume "e = c"
      then have "set (numbersOf t) \<inter> set (numbersOf s) = {}" using apart [of d s] that st' by simp
      then show ?thesis by blast
    qed
  qed
  with own show ?thesis unfolding eventsInv_def by blast
qed

lemma prefix_dash_free:
  "p \<in> {''original'', ''correction'', ''withdrawal'', ''dispute''} \<Longrightarrow> CHR ''-'' \<notin> set p"
  by (elim insertE emptyE; hypsubst; code_simp)

lemma eventsInv_snapshotFor:
  assumes "eventsInv st" "snapshotFor now c st = (s, st1)"
  shows "eventsInv st1"
proof (cases rule: snapshotFor_cases [of st c now])
  case (known s)
  with assms show ?thesis by simp
next
  case opened
  have "eventNumber (OriginalSubmission \<lparr>eventId = eventName ''original'' (nextEvent st + 1), occurredAt = x,
      verified = v, actorLabel = a, eventParty = p\<rparr> y) = nextEvent st + 1" for x v a p y
    by (rule eventNumber_eventName [where p = "''original''"]) simp_all
  with opened assms show ?thesis
    by (intro eventsInv_extend [OF assms(1), of s c]) (auto simp: openedSnapshot_def)
qed

lemma eventsInv_handleAction:
  assumes inv: "eventsInv st" and p: "CHR ''-'' \<notin> set prefix"
    and base: "\<forall>s mk b. g s = Inr mk \<longrightarrow> eventBase (mk b) = b"
  shows "eventsInv (snd (handleAction lib now kind prefix actor c party g k st))"
proof (cases rule: handleAction_cases [of lib k now kind prefix actor c party g st])
  case (refused s st1 e)
  then show ?thesis using eventsInv_snapshotFor [OF inv refused(3)] by simp
next
  case (accepted s st1 mk R)
  have "eventNumber (receiptEvent R) = nextEvent st1 + 1"
    using base accepted(4) by (intro eventNumber_eventName [OF _ p]) (simp add: accepted(6) actionBase_def)
  then have "numbersOf (receiptSnapshot R) =
      (case snapshots st1 c of None \<Rightarrow> [] | Some s \<Rightarrow> numbersOf s) @ [nextEvent st1 + 1]"
    using accepted(7) snapshotFor_state [OF accepted(3)] by simp
  from eventsInv_extend [OF eventsInv_snapshotFor [OF inv accepted(3)] this] show ?thesis
    by (simp add: accepted(9))
qed (use inv in simp_all)

inductive lifecycle_reach :: "uuid_lib \<Rightarrow> (nat \<Rightarrow> string) \<Rightarrow> StubLifecycleActionClientOptions \<Rightarrow> lifecycle_store \<Rightarrow> bool"
  for lib now opts where
  init: "initialSnapshots opts = [] \<Longrightarrow> lifecycle_reach lib now opts (stubLifecycleActionClient opts)"
| step: "lifecycle_reach lib now opts st \<Longrightarrow> lifecycle_reach lib now opts (snd (submitLifecycle lib now opts r k st))"

lemma eventsInv_reach: "lifecycle_reach lib now opts st \<Longrightarrow> eventsInv st"
proof (induction rule: lifecycle_reach.induct)
  case init
  then show ?case by (simp add: eventsInv_def stubLifecycleActionClient_def)
next
  case (step st r k)
  obtain kind prefix actor party g where h:
    "submitLifecycle lib now opts r = handleAction lib now kind prefix actor (requestCase r) party g"
    "prefix \<in> {''correction'', ''withdrawal'', ''dispute''}"
    "\<forall>s mk b. g s = Inr mk \<longrightarrow> eventBase (mk b) = b" by (rule submitLifecycle_handle)
  then have "CHR ''-'' \<notin> set prefix" by (intro prefix_dash_free) auto
  from eventsInv_handleAction [OF step.IH this h(3)] show ?case by (simp add: h(1))
qed


section \<open>Properties\<close>

text \<open>The event ids on the respondents' timelines are unique: in every store reached from an empty
  one, no timeline repeats an id and no two cases share one.\<close>

theorem event_ids_unique:
  assumes "lifecycle_reach lib now opts st" "snapshots st c = Some s"
  shows "distinct (map (eventId \<circ> eventBase) (snapEvents s)) \<and>
    (\<forall>d t. snapshots st d = Some t \<longrightarrow> d \<noteq> c \<longrightarrow>
       (eventId \<circ> eventBase) ` set (snapEvents s) \<inter> (eventId \<circ> eventBase) ` set (snapEvents t) = {})"
proof -
  have number: "eventNumber = (\<lambda>i. readNat (last (splitOn (CHR ''-'') i))) \<circ> (eventId \<circ> eventBase)"
    by (simp add: fun_eq_iff eventNumber_def)
  have inv: "distinct (numbersOf s)"
    "\<forall>d t. snapshots st d = Some t \<longrightarrow> d \<noteq> c \<longrightarrow> set (numbersOf s) \<inter> set (numbersOf t) = {}"
    using eventsInv_reach [OF assms(1)] assms(2) unfolding eventsInv_def by blast+
  have "distinct (map (eventId \<circ> eventBase) (snapEvents s))"
    using inv(1) unfolding number map_map [symmetric] by (rule distinct_map [THEN iffD1, THEN conjunct1])
  moreover have "(eventId \<circ> eventBase) ` set (snapEvents s) \<inter> (eventId \<circ> eventBase) ` set (snapEvents t) = {}"
    if "snapshots st d = Some t" "d \<noteq> c" for d t
  proof (rule ccontr)
    assume "\<not> ?thesis"
    then obtain a b where "a \<in> set (snapEvents s)" "b \<in> set (snapEvents t)"
      "eventId (eventBase a) = eventId (eventBase b)" by auto
    then have "eventNumber a \<in> set (numbersOf s) \<inter> set (numbersOf t)"
      by (simp add: eventNumber_def) (metis eventNumber_def imageI)
    with inv(2) that show False by blast
  qed
  ultimately show ?thesis by blast
qed

text \<open>C28. An accepted lifecycle action is recorded for good and answered once: after any further
  requests its event is still at its place in the timeline of its case, and every request under
  its key, whatever it asks for, gets the first receipt back and changes nothing.\<close>

theorem lifecycle_action_recorded_once:
  assumes "submitLifecycle lib now opts r k st = (Inr R, st')" "lifecycleReceipt lib st k = None"
    and "later = runRequests (submitLifecycle lib now opts) qs st'"
  shows "submitLifecycle lib now opts r' k later = (Inr R, later) \<and>
    (\<exists>before after. lifecycleHistory later (requestCase r) = Some (before @ receiptEvent R # after) \<and>
       (lifecycleHistory st (requestCase r) = None \<or> lifecycleHistory st (requestCase r) = Some before))"
proof -
  obtain h where h: "lifecycleHistory st (requestCase r) = None \<or> lifecycleHistory st (requestCase r) = Some h"
      "lifecycleHistory st' (requestCase r) = Some (h @ [receiptEvent R])"
    using stubLifecycle.accepted [OF assms(1,2)] by blast
  from stubLifecycle.run_append_only [OF h(2), where ?qs = qs and ?lib = lib and ?now = now and ?opts = opts]
  obtain t where "lifecycleHistory later (requestCase r) = Some ((h @ [receiptEvent R]) @ t)"
    unfolding assms(3) by blast
  with h(1) stubLifecycle.retry_replays [OF assms(1)] show ?thesis unfolding assms(3) by auto
qed

definition sampleOptions :: StubLifecycleActionClientOptions where
  "sampleOptions = \<lparr>initialSnapshots = [], optionFieldSet = None, signerRefs = None\<rparr>"

definition sampleWithdrawal :: LifecycleWithdrawalRequest where
  "sampleWithdrawal = \<lparr>reqCase = ''urn:wos:case_1'', actorRef = None, reqParty = None,
     withdrawalReason = Some ''moved away'', rescissionRequested = None, requestScope = None,
     allPartiesApproved = None\<rparr>"

definition sampleCorrection :: LifecycleCorrectionRequest where
  "sampleCorrection = \<lparr>reqCase = ''urn:wos:case_1'', actorRef = None, reqParty = None,
     changedFields = [\<lparr>path = ''/fullName'', label = ''Full name'', originalValue = None, correctedValue = None\<rparr>],
     correctableFieldSet = None, caseDecisionReached = None, correctionReason = Some ''typo'',
     evidenceRefs = None\<rparr>"

abbreviation sampleStore :: lifecycle_store where
  "sampleStore \<equiv> stubLifecycleActionClient sampleOptions"

lemma sampleWithdrawal_ok: "isOk (fst (submitWithdrawal rfcLib showNat sampleWithdrawal sampleKey sampleStore))"
  by code_simp

lemma sampleCorrection_ok: "isOk (fst (submitCorrection rfcLib showNat sampleOptions sampleCorrection sampleKey sampleStore))"
  by code_simp

lemma isOk_pair: "isOk (fst x) \<Longrightarrow> \<exists>R s. x = (Inr R, s)"
  by (cases x) (auto simp: isOk_iff)

lemma sampleStore_empty [simp]:
  "receiptsByKey sampleStore = Map.empty" "snapshots sampleStore = Map.empty" "lifecycleReceipt lib sampleStore k = None"
  by (simp_all add: stubLifecycleActionClient_def sampleOptions_def lifecycleReceipt_def)

theorem event_ids_unique_witness:
  "\<exists>st s. lifecycle_reach rfcLib showNat sampleOptions st \<and> snapshots st ''urn:wos:case_1'' = Some s \<and>
     distinct (map (eventId \<circ> eventBase) (snapEvents s)) \<and> length (snapEvents s) = 2"
proof -
  let ?st = "snd (submitLifecycle rfcLib showNat sampleOptions (WithdrawRequest sampleWithdrawal) sampleKey sampleStore)"
  have r: "lifecycle_reach rfcLib showNat sampleOptions ?st"
    by (intro lifecycle_reach.intros) (simp add: sampleOptions_def)
  have "map_option (\<lambda>s. length (snapEvents s)) (snapshots ?st ''urn:wos:case_1'') = Some 2" by code_simp
  then obtain s where s: "snapshots ?st ''urn:wos:case_1'' = Some s" "length (snapEvents s) = 2" by auto
  from event_ids_unique [OF r s(1)] r s show ?thesis by blast
qed

theorem lifecycle_action_recorded_once_witness:
  "\<exists>R st. submitLifecycle rfcLib showNat sampleOptions (CorrectRequest sampleCorrection) sampleKey st = (Inr R, st) \<and>
     receiptAction R = WithdrawKind"
proof -
  let ?run = "submitLifecycle rfcLib showNat sampleOptions (WithdrawRequest sampleWithdrawal) sampleKey sampleStore"
  obtain R st where s: "?run = (Inr R, st)"
    using isOk_pair [OF sampleWithdrawal_ok] by (auto simp: submitLifecycle_def)
  have "map_sum id receiptAction (fst ?run) = Inr WithdrawKind" by code_simp
  with s have "receiptAction R = WithdrawKind" by simp
  with lifecycle_action_recorded_once [OF s sampleStore_empty(3), of st "[]"] show ?thesis by auto
qed

lemma assertActionEnabled_Inr:
  "assertActionEnabled s kind = Inr act \<longleftrightarrow> List.find (\<lambda>a. action a = kind) (snapActions s) = Some act \<and>
     actionEnabled act \<and> (\<forall>w. window act \<noteq> Some (WindowClosed w))"
  by (auto simp: assertActionEnabled_def split: option.splits LifecycleActionWindow.splits)

lemma handleAction_ok:
  assumes "isUuidV7IdempotencyKey lib k" "receiptsByKey st k = None" "snapshotFor now c st = (s, st1)"
  shows "isOk (fst (handleAction lib now kind prefix actor c party g k st)) \<longleftrightarrow> isOk (g s)"
  using assms by (cases rule: handleAction_cases [of lib k now kind prefix actor c party g st]) auto

text \<open>C29. When a withdrawal goes through: under a fresh key exactly when the record offers an enabled
  withdrawal whose window is not closed, a required reason is not blank, an all-parties scope
  (the request's, otherwise the record's) has every party's approval, and asking to rescind a
  decision meets a record that allows it and leaves acceptance to the issuer.\<close>

theorem withdrawal_accepted_iff:
  assumes "isUuidV7IdempotencyKey lib k" "receiptsByKey st k = None" "snapshotFor now (reqCase q) st = (s, st1)"
  shows "isOk (fst (submitWithdrawal lib now q k st)) \<longleftrightarrow>
    (\<exists>act. List.find (\<lambda>a. action a = WithdrawKind) (snapActions s) = Some act \<and> actionEnabled act \<and>
      (\<forall>w. window act \<noteq> Some (WindowClosed w)) \<and>
      (needsReason act = Some True \<longrightarrow> \<not> blankText (withdrawalReason q)) \<and>
      ((if requestScope q = None then partyScope act else requestScope q) = Some AllPartiesMustAgree \<longrightarrow>
         allPartiesApproved q = Some True) \<and>
      (rescissionRequested q = Some True \<longrightarrow> rescissionIntent act \<and> needsIssuerAcceptance act = Some True))"
  unfolding submitWithdrawal_def handleAction_ok [OF assms]
  by (auto simp: withdrawalEvent_def isOk_iff bindR_Inr_iff assertActionEnabled_Inr assertReasonIfRequired_def
      assertPartyScope_def assertRescissionPolicy_def Let_def split: option.split)

theorem withdrawal_accepted_iff_witness:
  "\<exists>act. List.find (\<lambda>a. action a = WithdrawKind) DEFAULT_ACTIONS = Some act \<and> rescissionIntent act = False"
proof -
  have k: "isUuidV7IdempotencyKey rfcLib sampleKey" by code_simp
  obtain s st1 where sf: "snapshotFor showNat (reqCase sampleWithdrawal) sampleStore = (s, st1)"
    by (cases "snapshotFor showNat (reqCase sampleWithdrawal) sampleStore")
  then have "snapActions s = DEFAULT_ACTIONS"
    using snapshotFor_state [OF sf] by (simp add: openedSnapshot_def)
  with withdrawal_accepted_iff [OF k _ sf] sampleWithdrawal_ok
  obtain act where a: "List.find (\<lambda>a. action a = WithdrawKind) DEFAULT_ACTIONS = Some act" by auto
  moreover have "map_option rescissionIntent (List.find (\<lambda>a. action a = WithdrawKind) DEFAULT_ACTIONS) = Some False"
    by code_simp
  ultimately show ?thesis by auto
qed

lemma correction_recorded:
  assumes "submitCorrection lib now opts q k st = (Inr R, st')" "lifecycleReceipt lib st k = None"
    and "snapshotFor now (reqCase q) st = (s, st1)"
  shows "\<exists>act b kind. List.find (\<lambda>a. action a = CorrectKind) (snapActions s) = Some act \<and>
    receiptEvent R = Correction b kind (changedFields q) (reasonText (correctionReason q)) (evidenceRefs q) \<and>
    changedFields q \<noteq> [] \<and> declaredFieldSet opts q act \<noteq> [] \<and>
    (kind = AsCorrection \<longleftrightarrow> caseDecisionReached q \<noteq> Some True \<and>
       (\<forall>f\<in>set (changedFields q). path f \<in> set (declaredFieldSet opts q act) \<and>
          \<not> (originalValue f = None \<and> correctedValue f \<noteq> None)))"
proof (cases rule: handleAction_cases [of lib k now CorrectKind "''correction''" "''Respondent''" "reqCase q"
      "reqParty q" "correctionEvent opts q" st])
  case (known R')
  with assms(2) show ?thesis by (simp add: lifecycleReceipt_def)
next
  case (accepted s' st1' mk R')
  then have eq: "s' = s" "R' = R" using assms(1,3) by (simp_all add: submitCorrection_def)
  with accepted(4) obtain act where
    act: "assertActionEnabled s CorrectKind = Inr act" "assertChangedFields (changedFields q) = Inr ()"
      "declaredFieldSet opts q act \<noteq> []"
      "mk = (\<lambda>base. Correction base
         (if list_all (\<lambda>f. path f \<in> set (declaredFieldSet opts q act)) (changedFields q) \<and>
             caseDecisionReached q \<noteq> Some True \<and> \<not> introducesNewField (changedFields q)
          then AsCorrection else AsAmendment)
         (changedFields q) (reasonText (correctionReason q)) (evidenceRefs q))"
    by (auto simp: correctionEvent_def bindR_Inr_iff Let_def)
  from act(2) have "changedFields q \<noteq> []" by (simp add: assertChangedFields_def check_simps)
  with act accepted(6) eq(2) show ?thesis
    by (intro exI [of _ act]) (auto simp: assertActionEnabled_Inr list_all_iff introducesNewField_def list_ex_iff)
qed (use assms in \<open>simp_all add: submitCorrection_def\<close>)

text \<open>What an accepted correction is recorded as: it names at least one field and stands as a
  correction exactly when no decision has been reached, every changed field is in the declared
  field set and none of them gains a value it did not have; otherwise it opens an amendment.\<close>

theorem correction_recorded_as:
  assumes "submitCorrection lib now opts q k st = (Inr R, st')" "lifecycleReceipt lib st k = None"
    and "snapshotFor now (reqCase q) st = (s, st1)"
  shows "\<exists>act b kind. List.find (\<lambda>a. action a = CorrectKind) (snapActions s) = Some act \<and>
    receiptEvent R = Correction b kind (changedFields q) (reasonText (correctionReason q)) (evidenceRefs q) \<and>
    changedFields q \<noteq> [] \<and> declaredFieldSet opts q act \<noteq> [] \<and>
    (kind = AsCorrection \<longleftrightarrow> caseDecisionReached q \<noteq> Some True \<and>
       (\<forall>f\<in>set (changedFields q). path f \<in> set (declaredFieldSet opts q act) \<and>
          \<not> (originalValue f = None \<and> correctedValue f \<noteq> None)))"
  by (rule correction_recorded [OF assms])

theorem correction_recorded_as_witness:
  "\<exists>R st'. submitCorrection rfcLib showNat sampleOptions sampleCorrection sampleKey sampleStore = (Inr R, st') \<and>
     (\<exists>b kind fs why ev. receiptEvent R = Correction b kind fs why ev)"
proof -
  obtain R st' where s: "submitCorrection rfcLib showNat sampleOptions sampleCorrection sampleKey sampleStore = (Inr R, st')"
    using isOk_pair [OF sampleCorrection_ok] by blast
  obtain sn st1 where sf: "snapshotFor showNat (reqCase sampleCorrection) sampleStore = (sn, st1)"
    by (cases "snapshotFor showNat (reqCase sampleCorrection) sampleStore")
  from correction_recorded_as [OF s sampleStore_empty(3) sf] s show ?thesis by blast
qed

end
