(* ===== verification/Lifecycle_Panel.thy ===== *)
theory Lifecycle_Panel
  imports Lifecycle_Client
begin

text \<open>
  The lifecycle panel of \<open>src/app/StatusRuntime.tsx\<close>: the view it starts from, the action it
  offers when the record's availability meets the resolved policy, the three forms and the requests
  they send to the lifecycle client. A form is a function of what the respondent typed; the date
  formatter of the disabled copy is an argument.
\<close>

section \<open>The view\<close>

datatype ('c, 'p) LifecycleViewState =
    LifecycleDisabled "'c option"
  | LifecycleAvailable LifecycleActionSnapshot "'p option"
  | LifecycleNotFound
  | LifecycleAdapterError

definition lifecycleStateFromResult ::
  "bool \<Rightarrow> 'c option \<Rightarrow> 'p option \<Rightarrow> 'e + LifecycleActionSnapshot option \<Rightarrow> ('c, 'p) LifecycleViewState" where
  "lifecycleStateFromResult on disabledCause policy result =
     (if \<not> on then LifecycleDisabled disabledCause
      else (case result of
          Inl _ \<Rightarrow> LifecycleAdapterError
        | Inr None \<Rightarrow> LifecycleNotFound
        | Inr (Some snapshot) \<Rightarrow> LifecycleAvailable snapshot policy))"


section \<open>The effective action\<close>

text \<open>
  A resolved action policy: the common members and those of one of the three actions, so that
  \<open>'member' in policy\<close> is a case of \<open>policyDetails\<close>.
\<close>

datatype policy_details =
    CorrectableDetails "string list option" bool
  | WithdrawableDetails bool bool party_scope
  | DisputableDetails bool bool

record LifecycleActionPolicy =
  policyEnabled :: bool
  policyWindow :: "LifecycleActionWindow option"
  policyReason :: bool
  policyDetails :: policy_details

definition closedWindow :: "LifecycleActionWindow option \<Rightarrow> bool" where
  "closedWindow w = (case w of Some (WindowClosed _) \<Rightarrow> True | _ \<Rightarrow> False)"

primrec plainLifecycleActionName :: "LifecycleActionKind \<Rightarrow> string" where
  "plainLifecycleActionName CorrectKind = ''Correction''"
| "plainLifecycleActionName WithdrawKind = ''Withdrawal''"
| "plainLifecycleActionName DisputeKind = ''Dispute''"

definition windowClosedCopy ::
  "(string \<Rightarrow> string) \<Rightarrow> LifecycleActionKind \<Rightarrow> LifecycleActionWindow option \<Rightarrow> string" where
  "windowClosedCopy formatDate kind w = (case w of
     Some (WindowClosed (Some closedAt)) \<Rightarrow>
       if closedAt \<noteq> [] then plainLifecycleActionName kind @ '' window closed '' @ formatDate closedAt @ ''.''
       else plainLifecycleActionName kind @ '' window is closed.''
   | _ \<Rightarrow> plainLifecycleActionName kind @ '' window is closed.'')"

definition allPartiesScope :: "policy_details \<Rightarrow> bool" where
  "allPartiesScope d = (case d of WithdrawableDetails _ _ scope \<Rightarrow> scope = AllPartiesMustAgree | _ \<Rightarrow> False)"

definition policyDisabledReason ::
  "(string \<Rightarrow> string) \<Rightarrow> LifecycleActionKind \<Rightarrow> LifecycleActionAvailability \<Rightarrow> LifecycleActionPolicy \<Rightarrow> bool \<Rightarrow> string" where
  "policyDisabledReason formatDate kind base policy policyClosed =
     (if \<not> policyEnabled policy then plainLifecycleActionName kind @ '' is not allowed here.''
      else if kind = WithdrawKind \<and> allPartiesScope (policyDetails policy)
        then ''All-party withdrawal approval is not available in this slice.''
      else if policyClosed \<or> closedWindow (window base)
        then windowClosedCopy formatDate kind (case policyWindow policy of Some w \<Rightarrow> Some w | None \<Rightarrow> window base)
      else (case disabledText base of Some t \<Rightarrow> t | None \<Rightarrow> ''This action is not available for this record.''))"

definition missingAction :: "LifecycleActionKind \<Rightarrow> LifecycleActionAvailability" where
  "missingAction kind = (availability kind)\<lparr>actionEnabled := False, needsReason := None,
     disabledText := Some ''This action is not available for this record.''\<rparr>"

definition effectiveLifecycleAction ::
  "(string \<Rightarrow> string) \<Rightarrow> LifecycleActionKind \<Rightarrow> LifecycleActionAvailability option \<Rightarrow> LifecycleActionPolicy option \<Rightarrow>
   LifecycleActionAvailability" where
  "effectiveLifecycleAction formatDate kind adapterAction policyOpt =
     (let base = (case adapterAction of Some a \<Rightarrow> a | None \<Rightarrow> missingAction kind)
      in case policyOpt of None \<Rightarrow> base
       | Some policy \<Rightarrow>
          (let adapterClosed = closedWindow (window base);
               policyClosed = closedWindow (policyWindow policy);
               deferredAllPartyWithdrawal = (kind = WithdrawKind \<and> allPartiesScope (policyDetails policy));
               on = (actionEnabled base \<and> policyEnabled policy \<and> \<not> adapterClosed \<and> \<not> policyClosed \<and>
                      \<not> deferredAllPartyWithdrawal)
           in base\<lparr>
             actionEnabled := on,
             disabledText := (if on then disabledText base
               else Some (policyDisabledReason formatDate kind base policy policyClosed)),
             window := (case policyWindow policy of Some w \<Rightarrow> Some w | None \<Rightarrow> window base),
             fieldSet := (case policyDetails policy of CorrectableDetails fs _ \<Rightarrow> fs | _ \<Rightarrow> fieldSet base),
             needsReason := Some (policyReason policy),
             needsEvidence := (case policyDetails policy of CorrectableDetails _ e \<Rightarrow> Some e
               | DisputableDetails e _ \<Rightarrow> Some e | _ \<Rightarrow> needsEvidence base),
             signerOnly := (case policyDetails policy of DisputableDetails _ so \<Rightarrow> Some so | _ \<Rightarrow> signerOnly base),
             partyScope := (case policyDetails policy of WithdrawableDetails _ _ scope \<Rightarrow> Some scope
               | _ \<Rightarrow> partyScope base),
             rescissionIntent := (case policyDetails policy of WithdrawableDetails intent _ _ \<Rightarrow> intent
               | _ \<Rightarrow> rescissionIntent base),
             needsIssuerAcceptance := (case policyDetails policy of WithdrawableDetails _ acceptance _ \<Rightarrow> Some acceptance
               | _ \<Rightarrow> needsIssuerAcceptance base)\<rparr>))"

text \<open>\<open>new Map(actions.map(a => [a.action, a])).get(kind)\<close>: the last entry of a kind.\<close>

definition actionByKind :: "LifecycleActionSnapshot \<Rightarrow> LifecycleActionKind \<Rightarrow> LifecycleActionAvailability option" where
  "actionByKind s kind = map_of (rev (map (\<lambda>a. (action a, a)) (snapActions s))) kind"


section \<open>The forms\<close>

text \<open>The runs of \<open>[a-z0-9]\<close> of a text: split at every other character, empty pieces dropped.\<close>

definition isWordChar :: "char \<Rightarrow> bool" where
  "isWordChar c = (let n = of_char c :: nat in 48 \<le> n \<and> n \<le> 57 \<or> 97 \<le> n \<and> n \<le> 122)"

fun splitRuns :: "string \<Rightarrow> string list" where
  "splitRuns [] = [[]]"
| "splitRuns (c # cs) = (if isWordChar c then (case splitRuns cs of [] \<Rightarrow> [[c]] | w # ws \<Rightarrow> (c # w) # ws)
     else [] # splitRuns cs)"

definition upperChar :: "char \<Rightarrow> char" where
  "upperChar c = (let n = of_char c :: nat in if 97 \<le> n \<and> n \<le> 122 then char_of (n - 32) else c)"

definition fieldPathFromLabel :: "string \<Rightarrow> string" where
  "fieldPathFromLabel lbl =
     (if startsWith ''/'' lbl then lbl
      else (case filter (\<lambda>w. w \<noteq> []) (splitRuns (map lowerChar (trim lbl))) of
          [] \<Rightarrow> ''/field''
        | first # others \<Rightarrow> ''/'' @ first @ concat (map (\<lambda>w. upperChar (hd w) # tl w) others)))"

definition parseCommaSeparatedRefs :: "string \<Rightarrow> string list" where
  "parseCommaSeparatedRefs v = filter (\<lambda>r. r \<noteq> []) (map trim (splitOn (CHR '','') v))"

definition parseChangedFields :: "string \<Rightarrow> LifecycleChangedField list" where
  "parseChangedFields v =
     map (\<lambda>l. \<lparr>path = fieldPathFromLabel l, label = l, originalValue = None, correctedValue = None\<rparr>)
       (filter (\<lambda>l. l \<noteq> []) (map trim (splitOn (CHR '','') v)))"

datatype 'a form_result = FormIgnored | FormError string | FormSubmit 'a

definition optionalReason :: "string \<Rightarrow> string option" where
  "optionalReason trimmed = (if trimmed \<noteq> [] then Some trimmed else None)"

definition reasonRequired :: "LifecycleActionAvailability \<Rightarrow> bool" where
  "reasonRequired act = (case needsReason act of None \<Rightarrow> True | Some b \<Rightarrow> b)"

definition correctionForm ::
  "LifecycleActionAvailability \<Rightarrow> string \<Rightarrow> string \<Rightarrow> string \<Rightarrow>
   (LifecycleChangedField list \<times> string option \<times> string list option) form_result" where
  "correctionForm act fieldList reason evidenceList =
     (let changed = parseChangedFields fieldList; trimmedReason = trim reason;
          refs = parseCommaSeparatedRefs evidenceList
      in if changed = [] then FormIgnored
         else if reasonRequired act \<and> trimmedReason = [] then FormError ''A reason is required for this correction.''
         else if needsEvidence act = Some True \<and> refs = [] then FormError ''Evidence is required for this correction.''
         else FormSubmit (changed, optionalReason trimmedReason, if refs \<noteq> [] then Some refs else None))"

definition withdrawForm ::
  "LifecycleActionAvailability \<Rightarrow> string \<Rightarrow> bool \<Rightarrow> (string option \<times> bool) form_result" where
  "withdrawForm act reason rescissionTicked =
     (let trimmedReason = trim reason;
          allowPostDeterminationReview = (rescissionIntent act \<and> needsIssuerAcceptance act = Some True)
      in if reasonRequired act \<and> trimmedReason = [] then FormError ''A reason is required for this withdrawal.''
         else FormSubmit (optionalReason trimmedReason, allowPostDeterminationReview \<and> rescissionTicked))"

definition disputeForm :: "LifecycleActionAvailability \<Rightarrow> string \<Rightarrow> string form_result" where
  "disputeForm act text =
     (let trimmed = trim text
      in if reasonRequired act \<and> trimmed = [] then FormError ''A dispute statement is required.''
         else FormSubmit trimmed)"

text \<open>The requests of the panel.\<close>

definition panelCorrection ::
  "string \<Rightarrow> bool \<Rightarrow> LifecycleActionAvailability \<Rightarrow> LifecycleChangedField list \<times> string option \<times> string list option \<Rightarrow>
   LifecycleCorrectionRequest" where
  "panelCorrection urn decided act submitted = (case submitted of (changed, reason, refs) \<Rightarrow>
     \<lparr>reqCase = urn, actorRef = None, reqParty = None, changedFields = changed, correctableFieldSet = fieldSet act,
      caseDecisionReached = Some decided, correctionReason = reason, evidenceRefs = refs\<rparr>)"

definition panelWithdrawal ::
  "string \<Rightarrow> LifecycleActionAvailability \<Rightarrow> string option \<times> bool \<Rightarrow> LifecycleWithdrawalRequest" where
  "panelWithdrawal urn act submitted = (case submitted of (reason, rescission) \<Rightarrow>
     \<lparr>reqCase = urn, actorRef = None, reqParty = None, withdrawalReason = reason,
      rescissionRequested = (if rescission then Some True else None), requestScope = partyScope act,
      allPartiesApproved = None\<rparr>)"

definition panelDispute :: "string \<Rightarrow> LifecycleActionSnapshot \<Rightarrow> string \<Rightarrow> LifecycleDisputeRequest" where
  "panelDispute urn snapshot text =
     \<lparr>reqCase = urn, actorRef = None, reqParty = None,
      disputedEventId = (case snapEvents snapshot of [] \<Rightarrow> None | e # _ \<Rightarrow> Some (eventId (eventBase e))),
      statement = text\<rparr>"

section \<open>What the panel sends is accepted\<close>

lemma trim_last: "trim s \<noteq> [] \<Longrightarrow> \<not> isSpaceChar (last (trim s))"
  unfolding trim_def last_rev by (rule hd_dropWhile) auto

lemma trim_not_blank: "trim s \<noteq> [] \<Longrightarrow> trim (trim s) \<noteq> []"
  using trim_last [of s] trim_Nil_iff [of "trim s"] last_in_set [of "trim s"] by blast

lemma optionalReason_blank: "blankText (optionalReason (trim s)) \<longleftrightarrow> trim s = []"
  using trim_not_blank [of s] by (auto simp: blankText_def optionalReason_def)

lemma actionByKind_find:
  assumes "distinct (map action (snapActions s))"
  shows "actionByKind s kind = List.find (\<lambda>a. action a = kind) (snapActions s)"
proof -
  have "map_of (rev (map (\<lambda>a. (action a, a)) as)) kind = List.find (\<lambda>a. action a = kind) as"
    if "distinct (map action as)" for as
    using that
  proof (induction as)
    case (Cons a as)
    have "map_of (rev (map (\<lambda>a. (action a, a)) as)) (action a) = None"
      using Cons.prems by (auto simp: map_of_eq_None_iff)
    with Cons show ?case by (auto simp: map_add_def split: option.split)
  qed simp
  from this [OF assms] show ?thesis by (simp add: actionByKind_def)
qed

lemma effective_enabled:
  assumes "actionEnabled (effectiveLifecycleAction fmt kind a (Some policy))"
  shows "\<exists>base. a = Some base \<and> actionEnabled base \<and> (\<forall>w. window base \<noteq> Some (WindowClosed w)) \<and>
    policyEnabled policy \<and> \<not> closedWindow (policyWindow policy) \<and>
    \<not> (kind = WithdrawKind \<and> allPartiesScope (policyDetails policy))"
  using assms
  by (cases a) (auto simp: effectiveLifecycleAction_def missingAction_def Let_def closedWindow_def
      split: option.splits LifecycleActionWindow.splits)

lemma parseChangedFields_complete:
  assumes "f \<in> set (parseChangedFields v)"
  shows "path f \<noteq> [] \<and> label f \<noteq> [] \<and> originalValue f = None \<and> correctedValue f = None"
proof -
  have "fieldPathFromLabel l \<noteq> []" for l
    by (auto simp: fieldPathFromLabel_def startsWith_iff split: list.split)
  with assms show ?thesis by (auto simp: parseChangedFields_def)
qed

lemma offered_action:
  assumes "distinct (map action (snapActions s))"
    and "actionEnabled (effectiveLifecycleAction fmt kind (actionByKind s kind) (Some policy))"
  obtains base where "actionByKind s kind = Some base" "assertActionEnabled s kind = Inr base"
proof -
  obtain base where b: "actionByKind s kind = Some base" "actionEnabled base"
    "\<forall>w. window base \<noteq> Some (WindowClosed w)" using effective_enabled [OF assms(2)] by blast
  then have "assertActionEnabled s kind = Inr base"
    using actionByKind_find [OF assms(1), of kind] by (auto simp: assertActionEnabled_Inr)
  with b(1) show ?thesis using that by blast
qed

lemma fresh_submit:
  assumes "isUuidV7IdempotencyKey lib k" "receiptsByKey st k = None" "snapshots st c = Some s"
  shows "isOk (fst (handleAction lib now kind prefix actor c party g k st)) \<longleftrightarrow> isOk (g s)"
  using handleAction_ok [OF assms(1,2)] assms(3) by (simp add: snapshotFor_def)

text \<open>A correction the panel lets the respondent send is accepted: when the record's correct action
  and the policy (with a declared field set and no requirement weaker than the record's) are both
  open and the form has no complaint, the client takes the request, and records it as a correction
  exactly when no decision has been reached and every named field is in the policy's set.\<close>

theorem panel_correction_accepted:
  assumes st: "snapshots st c = Some s" "distinct (map action (snapActions s))"
    and key: "isUuidV7IdempotencyKey lib k" "receiptsByKey st k = None"
    and eff: "eff = effectiveLifecycleAction fmt CorrectKind (actionByKind s CorrectKind) (Some policy)" "actionEnabled eff"
    and pol: "policyDetails policy = CorrectableDetails (Some (x # xs)) evidence"
      "\<forall>base. actionByKind s CorrectKind = Some base \<longrightarrow>
         (needsReason base = Some True \<longrightarrow> policyReason policy) \<and> (needsEvidence base = Some True \<longrightarrow> evidence)"
    and form: "correctionForm eff fieldText typedReason evidenceText = FormSubmit (changed, reason, refs)"
  shows "\<exists>R st' b kind why.
    submitCorrection lib now opts (panelCorrection c decided eff (changed, reason, refs)) k st = (Inr R, st') \<and>
    receiptEvent R = Correction b kind changed why refs \<and>
    (kind = AsCorrection \<longleftrightarrow> \<not> decided \<and> (\<forall>f\<in>set changed. path f \<in> set (x # xs)))"
proof -
  let ?q = "panelCorrection c decided eff (changed, reason, refs)"
  obtain base where base: "actionByKind s CorrectKind = Some base" "assertActionEnabled s CorrectKind = Inr base"
    using offered_action [OF st(2)] eff by metis
  have need: "needsReason eff = Some (policyReason policy)" "needsEvidence eff = Some evidence"
    "fieldSet eff = Some (x # xs)"
    using pol(1) by (simp_all add: eff(1) effectiveLifecycleAction_def Let_def)
  have q: "changed = parseChangedFields fieldText" "changed \<noteq> []" "reason = optionalReason (trim typedReason)"
    "policyReason policy \<longrightarrow> trim typedReason \<noteq> []" "evidence \<longrightarrow> refs \<noteq> None \<and> refs \<noteq> Some []"
    using form need by (auto simp: correctionForm_def Let_def reasonRequired_def split: if_splits)
  have fields: "\<forall>f\<in>set changed. path f \<noteq> [] \<and> label f \<noteq> [] \<and> originalValue f = None \<and> correctedValue f = None"
    using parseChangedFields_complete q(1) by blast
  have "isOk (correctionEvent opts ?q s)"
    using base q fields pol(2) need(3)
    by (auto simp: correctionEvent_def panelCorrection_def assertChangedFields_def check_simps isOk_iff bindR_Inr_iff
        Let_def declaredFieldSet_def assertReasonIfRequired_def assertEvidenceIfRequired_def optionalReason_blank)
  then have "isOk (fst (submitCorrection lib now opts ?q k st))"
    using fresh_submit [OF key st(1)] by (simp add: submitCorrection_def panelCorrection_def)
  then obtain R st' where s: "submitCorrection lib now opts ?q k st = (Inr R, st')" using isOk_pair by blast
  have sf: "snapshotFor now (reqCase ?q) st = (s, st)" using st(1) by (simp add: snapshotFor_def panelCorrection_def)
  have "declaredFieldSet opts ?q act = x # xs" for act
    by (simp add: declaredFieldSet_def panelCorrection_def need(3))
  moreover have "lifecycleReceipt lib st k = None" using key(2) by (simp add: lifecycleReceipt_def)
  ultimately obtain b kind where "receiptEvent R = Correction b kind changed (reasonText reason) refs"
      "kind = AsCorrection \<longleftrightarrow> \<not> decided \<and> (\<forall>f\<in>set changed. path f \<in> set (x # xs))"
    using correction_recorded [OF s _ sf] fields by (auto simp: panelCorrection_def)
  with s show ?thesis by blast
qed

text \<open>The panel cannot say who disputes: its dispute request names no actor, so a client that knows
  its signers refuses every dispute the panel offers on a signers-only record; otherwise a
  dispute with a statement is accepted.\<close>

theorem panel_dispute_without_signer:
  assumes st: "snapshots st c = Some s" "distinct (map action (snapActions s))"
    and key: "isUuidV7IdempotencyKey lib k" "receiptsByKey st k = None"
    and eff: "actionEnabled (effectiveLifecycleAction fmt DisputeKind (actionByKind s DisputeKind) (Some policy))"
    and base: "actionByKind s DisputeKind = Some base"
    and form: "disputeForm act typed = FormSubmit text" "text \<noteq> []"
  shows "(fst (submitDispute lib now opts (panelDispute c s text) k st) = Inl SignersOnly \<longleftrightarrow>
      signerOnly base = Some True \<and> (\<exists>r rs. signerRefs opts = Some (r # rs))) \<and>
    (isOk (fst (submitDispute lib now opts (panelDispute c s text) k st)) \<longleftrightarrow>
      \<not> (signerOnly base = Some True \<and> (\<exists>r rs. signerRefs opts = Some (r # rs))))"
proof -
  have b: "assertActionEnabled s DisputeKind = Inr base"
    using offered_action [OF st(2) eff] base by (metis option.inject)
  have "text = trim typed" using form(1) by (auto simp: disputeForm_def Let_def split: if_splits)
  then have t: "trim text \<noteq> []" using form(2) trim_not_blank by simp
  have ev: "disputeEvent opts (panelDispute c s text) s =
      (if signerOnly base = Some True \<and> (\<exists>r rs. signerRefs opts = Some (r # rs)) then Inl SignersOnly
       else Inr (\<lambda>b. Dispute b (disputedEventId (panelDispute c s text)) (Some \<lparr>ptext = text, accessClass = None\<rparr>)))"
    using t by (cases "signerRefs opts"; cases "the (signerRefs opts)")
      (simp_all add: disputeEvent_def b assertSignerScope_def panelDispute_def)
  let ?run = "submitDispute lib now opts (panelDispute c s text) k st"
  have "isOk (fst ?run) \<longleftrightarrow> \<not> (signerOnly base = Some True \<and> (\<exists>r rs. signerRefs opts = Some (r # rs)))"
    using fresh_submit [OF key st(1)] ev by (simp add: submitDispute_def panelDispute_def)
  moreover have "snapshotFor now c st = (s, st)" using st(1) by (simp add: snapshotFor_def)
  then have "fst ?run = Inl SignersOnly \<longleftrightarrow> signerOnly base = Some True \<and> (\<exists>r rs. signerRefs opts = Some (r # rs))"
    using key ev
    by (cases rule: handleAction_cases [of lib k now DisputeKind "''dispute''" "''Signer''" c None
          "disputeEvent opts (panelDispute c s text)" st])
      (auto simp: submitDispute_def panelDispute_def split: if_splits)
  ultimately show ?thesis by blast
qed

definition samplePolicy :: "policy_details \<Rightarrow> LifecycleActionPolicy" where
  "samplePolicy d = \<lparr>policyEnabled = True, policyWindow = Some WindowOpen, policyReason = True, policyDetails = d\<rparr>"

definition sampleSnapshot :: LifecycleActionSnapshot where
  "sampleSnapshot = \<lparr>snapCase = ''urn:wos:case_1'', snapActions = DEFAULT_ACTIONS, snapEvents = [], updatedAt = None\<rparr>"

abbreviation openedStore :: lifecycle_store where
  "openedStore \<equiv> registerLifecycle sampleSnapshot sampleStore"

lemma openedStore_facts:
  "snapshots openedStore ''urn:wos:case_1'' = Some sampleSnapshot"
  "distinct (map action (snapActions sampleSnapshot))"
  "receiptsByKey openedStore k = None"
  by (simp_all add: registerLifecycle_def sampleSnapshot_def DEFAULT_ACTIONS_def availability_def)

theorem panel_dispute_without_signer_witness:
  "fst (submitDispute rfcLib showNat (sampleOptions\<lparr>signerRefs := Some [''did:signer'']\<rparr>)
     (panelDispute ''urn:wos:case_1'' sampleSnapshot ''not mine'') sampleKey openedStore) = Inl SignersOnly"
proof -
  have k: "isUuidV7IdempotencyKey rfcLib sampleKey" by code_simp
  have e: "actionEnabled (effectiveLifecycleAction id DisputeKind (actionByKind sampleSnapshot DisputeKind)
      (Some (samplePolicy (DisputableDetails False True))))" by code_simp
  obtain base where b: "actionByKind sampleSnapshot DisputeKind = Some base" "signerOnly base = Some True"
    by (auto simp: actionByKind_def sampleSnapshot_def DEFAULT_ACTIONS_def availability_def)
  have f: "disputeForm (availability DisputeKind) ''not mine '' = FormSubmit ''not mine''" by code_simp
  from panel_dispute_without_signer [OF openedStore_facts(1,2) k openedStore_facts(3) e b(1) f] b(2)
  show ?thesis by simp
qed

text \<open>A withdrawal the panel lets the respondent send is accepted: when the record's withdraw action
  and a policy no weaker than the record's are both open and the form has no complaint, the client
  takes the request, and the event asks for rescission only with the issuer's acceptance required.\<close>

theorem panel_withdrawal_accepted:
  assumes st: "snapshots st c = Some s" "distinct (map action (snapActions s))"
    and key: "isUuidV7IdempotencyKey lib k" "receiptsByKey st k = None"
    and eff: "eff = effectiveLifecycleAction fmt WithdrawKind (actionByKind s WithdrawKind) (Some policy)" "actionEnabled eff"
    and pol: "policyDetails policy = WithdrawableDetails intent acceptance scope"
      "\<forall>base. actionByKind s WithdrawKind = Some base \<longrightarrow> (needsReason base = Some True \<longrightarrow> policyReason policy) \<and>
         (intent \<and> acceptance \<longrightarrow> rescissionIntent base \<and> needsIssuerAcceptance base = Some True)"
    and form: "withdrawForm eff typed ticked = FormSubmit (reason, rescission)"
  shows "\<exists>R st' b why asked.
    submitWithdrawal lib now (panelWithdrawal c eff (reason, rescission)) k st = (Inr R, st') \<and>
    receiptEvent R = Withdrawal b why asked (if rescission then Some True else None) \<and>
    (asked = Some True \<longleftrightarrow> ticked \<and> intent \<and> acceptance)"
proof -
  let ?q = "panelWithdrawal c eff (reason, rescission)"
  obtain base where base: "actionByKind s WithdrawKind = Some base" "assertActionEnabled s WithdrawKind = Inr base"
    using offered_action [OF st(2)] eff by metis
  have scope: "scope = AnyParty"
    using effective_enabled [of fmt WithdrawKind "actionByKind s WithdrawKind" policy] eff pol(1)
    by (auto simp: allPartiesScope_def intro: party_scope.exhaust [of scope])
  have eff': "needsReason eff = Some (policyReason policy)" "rescissionIntent eff = intent"
    "needsIssuerAcceptance eff = Some acceptance" "partyScope eff = Some AnyParty"
    using pol(1) scope by (simp_all add: eff(1) effectiveLifecycleAction_def Let_def)
  have f: "reason = optionalReason (trim typed)" "policyReason policy \<longrightarrow> trim typed \<noteq> []"
    "rescission \<longleftrightarrow> intent \<and> acceptance \<and> ticked"
    using form eff' by (auto simp: withdrawForm_def Let_def reasonRequired_def split: if_splits)
  let ?ev = "\<lambda>b. Withdrawal b (reasonText reason) (if rescission then Some True else None) (if rescission then Some True else None)"
  have ev: "withdrawalEvent ?q s = Inr ?ev"
    using base f pol(2) eff'(4)
    by (simp add: withdrawalEvent_def panelWithdrawal_def assertReasonIfRequired_def optionalReason_blank
        assertPartyScope_def assertRescissionPolicy_def throwIf_def)
  have "snapshotFor now c st = (s, st)" using st(1) by (simp add: snapshotFor_def)
  then have "\<exists>R st' b. submitWithdrawal lib now ?q k st = (Inr R, st') \<and> receiptEvent R = ?ev b"
    using key ev
    by (cases rule: handleAction_cases [of lib k now WithdrawKind "''withdrawal''" "''Applicant''" c None
          "withdrawalEvent ?q" st])
      (auto simp: submitWithdrawal_def panelWithdrawal_def)
  with f(3) show ?thesis by (auto split: if_splits)
qed

definition sampleEff :: LifecycleActionAvailability where
  "sampleEff = effectiveLifecycleAction id WithdrawKind (actionByKind sampleSnapshot WithdrawKind)
     (Some (samplePolicy (WithdrawableDetails True False AnyParty)))"

theorem panel_withdrawal_accepted_witness:
  "\<exists>R st'. submitWithdrawal rfcLib showNat (panelWithdrawal ''urn:wos:case_1'' sampleEff (Some ''moved'', False))
     sampleKey openedStore = (Inr R, st')"
proof -
  have k: "isUuidV7IdempotencyKey rfcLib sampleKey" by code_simp
  have e: "actionEnabled sampleEff" by code_simp
  have f: "withdrawForm sampleEff '' moved '' True = FormSubmit (Some ''moved'', False)" by code_simp
  have p: "policyDetails (samplePolicy (WithdrawableDetails True False AnyParty)) = WithdrawableDetails True False AnyParty"
    "\<forall>base. actionByKind sampleSnapshot WithdrawKind = Some base \<longrightarrow>
       (needsReason base = Some True \<longrightarrow> policyReason (samplePolicy (WithdrawableDetails True False AnyParty))) \<and>
       (True \<and> False \<longrightarrow> rescissionIntent base \<and> needsIssuerAcceptance base = Some True)"
    by (simp_all add: samplePolicy_def)
  from panel_withdrawal_accepted [OF openedStore_facts(1,2) k openedStore_facts(3) sampleEff_def e p f]
  show ?thesis by blast
qed

theorem panel_correction_accepted_witness:
  "\<exists>R st' eff changed. submitCorrection rfcLib showNat sampleOptions
     (panelCorrection ''urn:wos:case_1'' False eff (changed, Some ''typo'', None)) sampleKey openedStore = (Inr R, st') \<and>
     map path changed = [''/fullName'', ''/address/street'']"
proof -
  let ?policy = "samplePolicy (CorrectableDetails (Some [''/fullName'']) False)"
  let ?eff = "effectiveLifecycleAction id CorrectKind (actionByKind sampleSnapshot CorrectKind) (Some ?policy)"
  let ?changed = "parseChangedFields ''Full name, /address/street''"
  have k: "isUuidV7IdempotencyKey rfcLib sampleKey" by code_simp
  have e: "actionEnabled ?eff" by code_simp
  have f: "correctionForm ?eff ''Full name, /address/street'' ''typo '' '''' = FormSubmit (?changed, Some ''typo'', None)"
    by code_simp
  have c: "map path ?changed = [''/fullName'', ''/address/street'']" by code_simp
  have p: "policyDetails ?policy = CorrectableDetails (Some (''/fullName'' # [])) False"
    "\<forall>base. actionByKind sampleSnapshot CorrectKind = Some base \<longrightarrow>
       (needsReason base = Some True \<longrightarrow> policyReason ?policy) \<and> (needsEvidence base = Some True \<longrightarrow> False)"
    by (simp_all add: samplePolicy_def actionByKind_def sampleSnapshot_def DEFAULT_ACTIONS_def availability_def)
  obtain R st' where "submitCorrection rfcLib showNat sampleOptions
      (panelCorrection ''urn:wos:case_1'' False ?eff (?changed, Some ''typo'', None)) sampleKey openedStore = (Inr R, st')"
    using panel_correction_accepted [where now = showNat and opts = sampleOptions and decided = False,
        OF openedStore_facts(1,2) k openedStore_facts(3) refl e p f] by (elim exE conjE) (rule that)
  with c show ?thesis by (intro exI conjI)
qed

end
