(* ===== verification/Response_Evidence.thy ===== *)
theory Response_Evidence
  imports Keys "HOL-Library.List_Lexorder" "HOL-Library.Char_ord"
begin

text \<open>
  The receipts and admissions of the response-action controller,
  \<open>src/shared/response-action-controller.ts\<close>: its vocabulary of roles, reasons and phases, the
  comparison of documents by their canonical JSON, the admission of an authored action
  (\<open>roleFor\<close>, \<open>requestFor\<close>) and the consistency checks on the evidence a signing port returns.

  Documents are JavaScript values. What the controller takes from packages is a field of
  \<open>ctl_config\<close>: the canonical JSON text, the engine's resolution of response actions and service
  requests, its request planning and output extraction. A package function or a callback that
  throws is an \<open>Inl\<close>. Freezing and cloning are the identity on values.
\<close>

datatype role = StartApplication | SaveInitial | SaveOwned | Prepare | Sign | Submit | Paper

datatype ctl_reason =
    ActionUnadmitted | ContextMismatch | ResponseInvalid | BranchMismatch | OutputsUnsupported
  | ReviewUnready | OperationConflict | OperationPending | ContextObsolete | RestorationUnresolved
  | PortFailed | CompletionOutcomeUnknown

text \<open>
  What a call may throw: a \<open>ControllerRefusal\<close> or \<open>ResponseCompletionRefusal\<close> (both carry a code
  and are treated alike), the \<open>TaskCompletionOutcomeUnknown\<close> of a completion port, or any other error.
\<close>

datatype ctl_error = Refusal ctl_reason | UnknownOutcome | OtherError

definition isRefusal :: "ctl_error \<Rightarrow> bool" where
  "isRefusal e = (case e of Refusal _ \<Rightarrow> True | _ \<Rightarrow> False)"

definition reasonOf :: "ctl_error \<Rightarrow> ctl_reason" where
  "reasonOf e = (case e of Refusal r \<Rightarrow> r | _ \<Rightarrow> PortFailed)"

text \<open>\<open>dot v [k1, k2]\<close> reads \<open>v.k1.k2\<close>.\<close>

definition dot :: "jsval \<Rightarrow> string list \<Rightarrow> jsval" where
  "dot v ks = foldl getp v ks"

lemma dot_simps [simp]: "dot v [] = v" "dot v (k # ks) = dot (getp v k) ks"
  by (simp_all add: dot_def)

record ctl_config =
  controllerContext :: jsval
  roles :: "(role \<times> jsval) list"
  restoredResponse :: jsval
  restoredApplication :: jsval
  restoredApplicationLookup :: jsval
  lifecycleCapabilities :: jsval
  completionKind :: "string option"
  admitCompletion :: "jsval \<Rightarrow> ctl_error + unit"
  reconcileSignRetries :: bool
  restoresPending :: bool
  uuids :: uuid_lib
  canonicalize :: "jsval \<Rightarrow> string option"
  resolveAction :: "jsval \<Rightarrow> jsval \<Rightarrow> jsval"
  resolveTuple :: "jsval \<Rightarrow> jsval"
  resolveServiceRequest :: "jsval \<Rightarrow> jsval \<Rightarrow> ctl_error + jsval"
  planServiceRequest :: "jsval \<Rightarrow> jsval \<Rightarrow> ctl_error + jsval"
  transitionBindings :: "jsval \<Rightarrow> jsval \<Rightarrow> ctl_error + props"

definition same :: "ctl_config \<Rightarrow> jsval \<Rightarrow> jsval \<Rightarrow> bool" where
  "same cfg a b = (canonicalize cfg a = canonicalize cfg b)"

lemma same_refl [simp]: "same cfg a a"
  by (simp add: same_def)


section \<open>Admission of an authored action\<close>

text \<open>\<open>/^[A-Za-z][A-Za-z0-9_-]*$/\<close>\<close>

definition isAsciiLetter :: "char \<Rightarrow> bool" where
  "isAsciiLetter c = (let n = of_char c :: nat in 65 \<le> n \<and> n \<le> 90 \<or> 97 \<le> n \<and> n \<le> 122)"

definition isAsciiDigit :: "char \<Rightarrow> bool" where
  "isAsciiDigit c = (let n = of_char c :: nat in 48 \<le> n \<and> n \<le> 57)"

definition isOutputName :: "string \<Rightarrow> bool" where
  "isOutputName s = (case s of [] \<Rightarrow> False
     | c # cs \<Rightarrow> isAsciiLetter c \<and> list_all (\<lambda>d. isAsciiLetter d \<or> isAsciiDigit d \<or> d \<in> set ''_-'') cs)"

definition startTuple :: jsval where
  "startTuple = Obj [(''profile'', Str ''off''), (''blocking'', Str ''non-blocking''), (''persistence'', Str ''none'')]"

definition checkpointTuple :: jsval where
  "checkpointTuple = Obj [(''profile'', Str ''off''), (''blocking'', Str ''non-blocking''), (''persistence'', Str ''draft-checkpoint'')]"

definition startOutputPaths :: "string list" where
  "startOutputPaths = [''/caseLedgerId'', ''/caseReference'', ''/draftRef'', ''/status'']"

definition draftOutputPaths :: "string list" where
  "draftOutputPaths = [''/draft_id'', ''/form_version_id'', ''/subject_ref'', ''/draft_version'', ''/draft_state'',
     ''/canonical_response'', ''/status'']"

definition transitionOutputPaths :: "string list" where
  "transitionOutputPaths = [''/draft_id'', ''/form_version_id'', ''/subject_ref'', ''/status'', ''/response_id'']"

definition outputSupported :: "role \<Rightarrow> string \<Rightarrow> jsval \<Rightarrow> bool" where
  "outputSupported r name out = (
     isOutputName name \<and>
     getp out ''path'' \<in> Str ` set (if r = StartApplication then startOutputPaths else draftOutputPaths) \<and>
     (getp out ''exposure'' = Undefined \<or> getp out ''exposure'' \<in> {Str ''internal'', Str ''transition''}) \<and>
     (getp out ''exposure'' = Str ''transition'' \<longrightarrow>
        r \<noteq> StartApplication \<and> getp out ''path'' \<in> Str ` set transitionOutputPaths))"

text \<open>The role an action of a document is admitted for: exactly one entry matches.\<close>

definition roleFor :: "ctl_config \<Rightarrow> jsval \<Rightarrow> jsval \<Rightarrow> ctl_error + role \<times> jsval" where
  "roleFor cfg document actionRef =
     (case filter (\<lambda>(r, a). getp a ''actionRef'' = actionRef \<and> same cfg (getp a ''document'') document) (roles cfg) of
        [m] \<Rightarrow> Inr m
      | _ \<Rightarrow> Inl (Refusal ActionUnadmitted))"

definition onlyEffect :: "jsval \<Rightarrow> ctl_error + jsval" where
  "onlyEffect act = (case arrItems (getp act ''effects'') of [e] \<Rightarrow> Inr e | _ \<Rightarrow> Inl (Refusal ActionUnadmitted))"

text \<open>The service request of a role, undefined for the paper alternative, which has none.\<close>

definition requestFor :: "ctl_config \<Rightarrow> role \<Rightarrow> jsval \<Rightarrow> ctl_error + jsval" where
  "requestFor cfg r admission =
    (let doc = getp admission ''document''; act = resolveAction cfg doc (getp admission ''actionRef'') in
     bindR (throwIf (act = Undefined \<or> getp doc ''scope'' = Str ''app''
         \<or> dot doc [''targetDefinition'', ''url''] \<noteq> dot (controllerContext cfg) [''definition'', ''url''])
       (Refusal ActionUnadmitted)) (\<lambda>_.
     bindR (throwIf (r = StartApplication \<and>
         (getp act ''intent'' \<noteq> Str ''x-start-application'' \<or> \<not> same cfg (resolveTuple cfg act) startTuple))
       (Refusal ActionUnadmitted)) (\<lambda>_.
     bindR (onlyEffect act) (\<lambda>eff.
     if r = Paper then
       bindR (throwIf (getp eff ''type'' \<noteq> Str ''hostEvent'' \<or> getp eff ''eventName'' = Str ''formspec-submit'')
         (Refusal ActionUnadmitted)) (\<lambda>_. Inr Undefined)
     else
     bindR (throwIf (getp eff ''type'' \<noteq> Str ''serviceRequest'' \<or> getp eff ''requestRef'' \<noteq> getp admission ''requestRef''
         \<or> getp eff ''idempotencyKey'' \<noteq> Str ''@invocation.id'' \<or> \<not> truthy (getp admission ''artifactRef'')
         \<or> \<not> truthy (getp admission ''artifactDigest'')) (Refusal ActionUnadmitted)) (\<lambda>_.
     bindR (resolveServiceRequest cfg (getp doc ''x-formspec-runtime'') (getp admission ''requestRef'')) (\<lambda>request.
     if r = Submit then
       bindR (throwIf (completionKind cfg = None) (Refusal ActionUnadmitted)) (\<lambda>_.
       bindR (admitCompletion cfg request) (\<lambda>_. Inr request))
     else
     bindR (throwIf (\<not> same cfg (getp request ''successStatuses'') (Arr [jsInt 200])) (Refusal ActionUnadmitted)) (\<lambda>_.
     bindR (forEach (\<lambda>(name, out). throwIf (\<not> outputSupported r name out) (Refusal OutputsUnsupported))
         (ownProps (getp request ''outputs''))) (\<lambda>_.
     Inr request))))))))"

lemma requestFor_paper: "requestFor cfg Paper a = Inr q \<Longrightarrow> q = Undefined"
  by (auto simp: requestFor_def bindR_Inr_iff Let_def)

text \<open>An admitted save, preparation or signature exposes only the identifiers of its own draft.\<close>

lemma requestFor_transition:
  assumes "requestFor cfg r a = Inr q" "r \<noteq> Submit" "r \<noteq> Paper"
    and "(name, out) \<in> set (ownProps (getp q ''outputs''))" "getp out ''exposure'' = Str ''transition''"
  shows "r \<noteq> StartApplication \<and> getp out ''path'' \<in> Str ` set transitionOutputPaths"
  using assms by (force simp: requestFor_def bindR_Inr_iff Let_def forEach_Inr outputSupported_def)


section \<open>Consistency of evidence\<close>

definition isHex64 :: "jsval \<Rightarrow> bool" where
  "isHex64 v = (case v of Str s \<Rightarrow> length s = 64 \<and> list_all isHexLower s | _ \<Rightarrow> False)"

definition isSafeInteger :: "jsval \<Rightarrow> bool" where
  "isSafeInteger v = (case integerOf v of Some i \<Rightarrow> \<bar>i\<bar> \<le> 2 ^ 53 - 1 | None \<Rightarrow> False)"

definition atLeast :: "int \<Rightarrow> jsval \<Rightarrow> bool" where
  "atLeast n v = (case integerOf v of Some i \<Rightarrow> n \<le> i | None \<Rightarrow> False)"

definition isBlankOrNotString :: "jsval \<Rightarrow> bool" where
  "isBlankOrNotString v = (case v of Str s \<Rightarrow> trim s = [] | _ \<Rightarrow> True)"

text \<open>
  The pins of a response are compared before the schema validation is awaited; \<open>valid\<close> is what
  that validation answers.
\<close>

definition assertControllerResponse :: "ctl_config \<Rightarrow> jsval \<Rightarrow> ctl_error + bool \<Rightarrow> ctl_error + unit" where
  "assertControllerResponse cfg response valid =
    (let ctx = controllerContext cfg in
     bindR (throwIf (getp response ''id'' \<noteq> getp ctx ''responseId''
         \<or> getp response ''definitionUrl'' \<noteq> dot ctx [''definition'', ''url'']
         \<or> getp response ''definitionVersion'' \<noteq> dot ctx [''definition'', ''version'']) (Refusal ResponseInvalid)) (\<lambda>_.
     bindR valid (\<lambda>ok.
     bindR (throwIf (\<not> ok) (Refusal ResponseInvalid)) (\<lambda>_.
     throwIf (dot ctx [''draftKey'', ''formUrl''] \<noteq> getp response ''definitionUrl''
         \<or> dot ctx [''draftKey'', ''formVersion''] \<noteq> getp response ''definitionVersion''
         \<or> \<not> truthy (dot ctx [''publication'', ''formVersionId'']) \<or> \<not> truthy (dot ctx [''publication'', ''formId'']))
       (Refusal ContextMismatch)))))"

text \<open>
  \<open>assertSavedResponseDraftEvidence\<close>: \<open>expected\<close> and \<open>actor\<close> are undefined when not given, \<open>hash\<close>
  is what the awaited digest of the response answers.
\<close>

definition evidenceConsistent :: "ctl_config \<Rightarrow> jsval \<Rightarrow> jsval \<Rightarrow> jsval \<Rightarrow> bool" where
  "evidenceConsistent cfg result expected actorPin = (
     same cfg (getp result ''draftKey'') (getp (controllerContext cfg) ''draftKey'') \<and>
     \<not> isBlankOrNotString (dot result [''actor'', ''id'']) \<and>
     \<not> isBlankOrNotString (dot result [''draft'', ''id'']) \<and>
     isHex64 (dot result [''draft'', ''responseHash'']) \<and>
     (truthy actorPin \<longrightarrow> actorPin = dot result [''actor'', ''id'']) \<and>
     dot result [''evidence'', ''subject_ref''] = dot result [''actor'', ''id''] \<and>
     dot result [''evidence'', ''form_version_id''] = dot (controllerContext cfg) [''publication'', ''formVersionId''] \<and>
     dot result [''evidence'', ''draft_id''] = dot result [''draft'', ''id''] \<and>
     dot result [''evidence'', ''draft_version''] = dot result [''draft'', ''version''] \<and>
     isSafeInteger (dot result [''draft'', ''version'']) \<and> atLeast 1 (dot result [''draft'', ''version'']) \<and>
     dot result [''evidence'', ''status''] = Str ''in_progress'' \<and>
     same cfg (dot result [''evidence'', ''canonical_response'']) (getp result ''response'') \<and>
     same cfg (dot result [''evidence'', ''draft_state'']) (dot result [''response'', ''data'']) \<and>
     (truthy expected \<longrightarrow> same cfg (getp result ''response'') expected))"

definition assertSavedResponseDraftEvidence ::
  "ctl_config \<Rightarrow> jsval \<Rightarrow> jsval \<Rightarrow> jsval \<Rightarrow> ctl_error + bool \<Rightarrow> ctl_error + string \<Rightarrow> ctl_error + unit" where
  "assertSavedResponseDraftEvidence cfg result expected actorPin valid hash =
     bindR (assertControllerResponse cfg (getp result ''response'') valid) (\<lambda>_.
     bindR (throwIf (\<not> evidenceConsistent cfg result expected actorPin) (Refusal ContextMismatch)) (\<lambda>_.
     bindR hash (\<lambda>h. throwIf (dot result [''draft'', ''responseHash''] \<noteq> Str h) (Refusal ContextMismatch))))"

text \<open>The delegated signature of a restored signed response, \<open>wording\<close> being \<open>{source, locale}\<close>.\<close>

definition signatures :: "jsval \<Rightarrow> jsval list" where
  "signatures response = arrItems (getp response ''authoredSignatures'')"

definition assertRestoredSignedResponseEvidence :: "ctl_config \<Rightarrow> jsval \<Rightarrow> jsval \<Rightarrow> ctl_error + unit" where
  "assertRestoredSignedResponseEvidence cfg result wording =
    (let subject = dot (controllerContext cfg) [''draftKey'', ''subjectRef'']; verification = getp result ''verification'' in
     throwIf (truthy subject \<and> dot result [''actor'', ''id''] \<noteq> subject
       \<or> \<not> same cfg (getp result ''content'')
            (dot result [''response'', ''extensions'', ''x-formspec-signing-content'', ''content''])
       \<or> \<not> same cfg (dot result [''content'', ''source'']) (getp wording ''source'')
       \<or> dot result [''content'', ''locale''] \<noteq> getp wording ''locale''
       \<or> length (signatures (getp result ''response'')) \<noteq> 1
       \<or> getp verification ''mode'' \<noteq> Str ''delegated-service-key''
       \<or> getp verification ''provider'' \<noteq> getp (hd (signatures (getp result ''response''))) ''signatureProvider''
       \<or> \<not> truthy (getp verification ''keyId'')) (Refusal ContextMismatch))"

lemma assertSavedResponseDraftEvidence_Inr:
  "assertSavedResponseDraftEvidence cfg result expected actorPin valid hash = Inr () \<longleftrightarrow>
     assertControllerResponse cfg (getp result ''response'') valid = Inr () \<and>
     evidenceConsistent cfg result expected actorPin \<and>
     (\<exists>h. hash = Inr h \<and> dot result [''draft'', ''responseHash''] = Str h)"
  by (auto simp: assertSavedResponseDraftEvidence_def bindR_Inr_iff)

section \<open>Task drafts\<close>

text \<open>\<open>/^sha256:[a-f0-9]{64}$/\<close> and the JSON pointer paths \<open>/^\/(?:[^~/]|~[01])+$/\<close>.\<close>

definition isSha256 :: "jsval \<Rightarrow> bool" where
  "isSha256 v = (case v of Str s \<Rightarrow> startsWith ''sha256:'' s \<and> isHex64 (Str (drop 7 s)) | _ \<Rightarrow> False)"

fun pointerBody :: "string \<Rightarrow> bool" where
  "pointerBody [] = True"
| "pointerBody (c # cs) =
     (if c = CHR ''~'' then (case cs of [] \<Rightarrow> False | d # ds \<Rightarrow> d \<in> set ''01'' \<and> pointerBody ds)
      else c \<noteq> CHR ''/'' \<and> pointerBody cs)"

definition isDataPath :: "jsval \<Rightarrow> bool" where
  "isDataPath v = (case v of
     Str s \<Rightarrow> 2 \<le> length s \<and> length (utf8 s) \<le> 1024 \<and> hd s = CHR ''/'' \<and> pointerBody (tl s)
   | _ \<Rightarrow> False)"

text \<open>The loop over the two path lists, \<open>seen\<close> being the set of paths read so far.\<close>

fun readPaths :: "jsval list \<Rightarrow> jsval list \<Rightarrow> jsval list option" where
  "readPaths [] seen = Some seen"
| "readPaths (p # ps) seen =
     (if \<not> isDataPath p \<or> p \<in> set seen then None
      else if length (p # seen) > 128 then None
      else readPaths ps (p # seen))"

definition readPathList :: "jsval \<Rightarrow> jsval list \<Rightarrow> jsval list option" where
  "readPathList v seen = (case v of Arr ps \<Rightarrow> if length ps > 128 then None else readPaths ps seen | _ \<Rightarrow> None)"

text \<open>\<open>Object.keys(v).sort().join(',')\<close> of an object, compared with a list of names.\<close>

definition sortedKeys :: "jsval \<Rightarrow> string" where
  "sortedKeys v = joinWith '','' (sort (map fst (ownProps v)))"

datatype task_draft_error = BadAssociation | BadPrefill | SelectorDiffers

definition assertTaskPrefill :: "jsval \<Rightarrow> task_draft_error + unit" where
  "assertTaskPrefill prefill = (
     if \<not> truthy prefill \<or> sortedKeys prefill \<noteq> ''editableDataPaths,readOnlyDataPaths,version''
       \<or> getp prefill ''version'' \<noteq> jsInt 1 then Inl BadPrefill
     else case readPathList (getp prefill ''editableDataPaths'') [] of None \<Rightarrow> Inl BadPrefill
       | Some seen \<Rightarrow> (case readPathList (getp prefill ''readOnlyDataPaths'') seen of None \<Rightarrow> Inl BadPrefill
          | Some _ \<Rightarrow> Inr ()))"

definition assertTaskDraftWire :: "jsval \<Rightarrow> task_draft_error + unit" where
  "assertTaskDraftWire value = (
     if value = Undefined then Inr ()
     else if getp value ''version'' \<noteq> jsInt 1 \<or> \<not> isSha256 (getp value ''associationHash'')
       \<or> \<not> isSha256 (getp value ''taskBindingHash'') then Inl BadAssociation
     else if getp value ''taskPrefill'' = Undefined then Inr ()
     else assertTaskPrefill (getp value ''taskPrefill''))"

definition assertSignedTaskDraft :: "jsval \<Rightarrow> jsval \<Rightarrow> task_draft_error + jsval" where
  "assertSignedTaskDraft association draft =
     bindR (assertTaskDraftWire association) (\<lambda>_.
     let sel = getp association ''signedDraft''; version = getp draft ''version''; digest = getp draft ''responseHash'' in
     if \<not> truthy sel
       \<or> sortedKeys sel \<noteq> ''associationHash,draftId,expectedSignedDraftVersion,expectedSignedResponseHash,taskBindingHash''
       \<or> getp sel ''draftId'' \<noteq> getp draft ''id'' \<or> \<not> isSafeInteger (getp sel ''expectedSignedDraftVersion'')
       \<or> getp sel ''expectedSignedDraftVersion'' \<noteq> version \<or> \<not> atLeast 2 version
       \<or> \<not> isHex64 digest \<or> getp sel ''expectedSignedResponseHash'' \<noteq> Str (''sha256:'' @ strOf digest)
       \<or> getp sel ''associationHash'' \<noteq> getp association ''associationHash''
       \<or> getp sel ''taskBindingHash'' \<noteq> getp association ''taskBindingHash''
     then Inl SelectorDiffers else Inr sel)"

lemma readPaths_Some:
  "readPaths ps seen = Some s \<longleftrightarrow>
     list_all isDataPath ps \<and> distinct ps \<and> set ps \<inter> set seen = {} \<and> (ps \<noteq> [] \<longrightarrow> length ps + length seen \<le> 128) \<and>
     s = rev ps @ seen"
proof (induction ps arbitrary: seen)
  case (Cons p ps)
  show ?case by (simp add: Cons.IH) auto
qed auto

lemma readPathList_Some:
  "readPathList v seen = Some s \<longleftrightarrow> (\<exists>ps. v = Arr ps \<and> length ps \<le> 128 \<and> readPaths ps seen = Some s)"
  by (cases v) (auto simp: readPathList_def)

text \<open>
  An accepted prefill names every data path once, at most 128 of them, and never one path as both
  editable and read-only.
\<close>

lemma assertTaskPrefill_paths:
  assumes "assertTaskPrefill prefill = Inr ()"
  shows "\<exists>editable readOnly. getp prefill ''editableDataPaths'' = Arr editable
    \<and> getp prefill ''readOnlyDataPaths'' = Arr readOnly
    \<and> list_all isDataPath (editable @ readOnly) \<and> distinct (editable @ readOnly) \<and> length (editable @ readOnly) \<le> 128"
proof -
  obtain s t where "readPathList (getp prefill ''editableDataPaths'') [] = Some s"
    and "readPathList (getp prefill ''readOnlyDataPaths'') s = Some t"
    using assms by (auto simp: assertTaskPrefill_def split: if_splits option.splits)
  then show ?thesis by (fastforce simp: readPathList_Some readPaths_Some)
qed


section \<open>Paths\<close>

text \<open>\<open>encodeURIComponent\<close>\<close>

definition isUnreserved :: "char \<Rightarrow> bool" where
  "isUnreserved c = (isAsciiLetter c \<or> isAsciiDigit c \<or> c \<in> set (''-_.!~*()'' @ [CHR 0x27]))"

definition upperHexDigit :: "nat \<Rightarrow> char" where
  "upperHexDigit n = ''0123456789ABCDEF'' ! n"

definition percentByte :: "byte \<Rightarrow> string" where
  "percentByte b = [CHR ''%'', upperHexDigit (unat b div 16), upperHexDigit (unat b mod 16)]"

definition encodeURIComponent :: "string \<Rightarrow> string" where
  "encodeURIComponent s = concat (map (\<lambda>c. if isUnreserved c then [c] else concat (map percentByte (utf8Char c))) s)"

end
