(* ===== verification/Response_Controller.thy ===== *)
theory Response_Controller
  imports Response_Evidence
begin

text \<open>
  The response-action controller, \<open>createResponseActionController\<close> of
  \<open>src/shared/response-action-controller.ts\<close>, as an interleaving of its calls.

  Every call of the controller (an invoked action, a refresh, a restoration) is a \<open>frame\<close> that
  stops where the source awaits: \<open>fPoint\<close> names the await, the other fields are the locals the
  rest of the call reads. \<open>resume\<close> runs a frame from its await to the next one, given what the
  awaited promise answers; between two resumptions any other call may run. The environment of a
  resumption (\<open>ctl_env\<close>) is what the source reads from its host at that moment: the signing
  wording, the review gate and a fresh key.

  \<open>portCalls\<close> are the calls made to the ports so far; \<open>ctlSnapshot\<close> is the snapshot last handed to
  the listeners. A delivery's promise is a number; a call that joins it waits for its result in
  \<open>promises\<close>. A listener or port that calls back into the controller synchronously is not
  modelled, and neither are the console diagnostics.
\<close>


section \<open>State\<close>

datatype phase =
    Idle | InRole role | SavedPhase | PreparedPhase | SignedPhase | SubmittedPhase
  | RefusedPhase | FailedPhase | OutcomeUnknownPhase

record sign_retry =
  retryId :: nat
  retryRequest :: jsval
  retryIdentity :: "string option"
  retryValidated :: jsval

record delivery =
  dIdentity :: "string option"
  operationId :: string
  dPending :: "nat option"
  completionPreparation :: "jsval option"
  baselineDraft :: jsval
  signRetry :: "sign_retry option"
  retired :: bool
  completed :: "props option"

record ctl_snapshot =
  snapPhase :: phase
  snapOwned :: bool
  snapPendingSign :: bool
  snapRetrySign :: bool
  snapReason :: "ctl_reason option"
  snapApplication :: jsval
  snapLookup :: jsval
  snapSaved :: jsval
  snapPrepared :: jsval
  snapSigned :: jsval
  snapCompletion :: jsval

datatype port_call =
    SaveCall string string jsval
  | PrepareCall string jsval
  | SignCall string string jsval jsval
  | StartCall string string
  | CaptureCall string jsval
  | CompleteCall string string jsval
  | ReconcileCall jsval
  | LoadCall

record controller =
  epoch :: nat
  invalidated :: bool
  owned :: bool
  actor :: jsval
  application :: jsval
  applicationLookup :: jsval
  saved :: jsval
  prepared :: jsval
  signed :: jsval
  pendingOperationId :: "string option"
  busy :: "string option"
  retryableSign :: "sign_retry option"
  retryingSign :: bool
  confirmedDelivery :: "string option"
  completionResult :: jsval
  completionOutcomeUnknown :: bool
  completedSubmit :: "(string option \<times> jsval) option"
  deliveries :: "(string \<times> delivery) list"
  ctlSnapshot :: ctl_snapshot
  nextObject :: nat
  promises :: "(nat \<times> (ctl_error + props)) list"
  portCalls :: "port_call list"

text \<open>\<open>if (busy)\<close>: the empty string is falsy.\<close>

definition isBusy :: "controller \<Rightarrow> bool" where
  "isBusy c = (busy c \<noteq> None \<and> busy c \<noteq> Some [])"

definition isSet :: "jsval \<Rightarrow> bool" where
  "isSet v = (v \<noteq> Undefined)"

definition snapshotOf :: "controller \<Rightarrow> phase \<Rightarrow> ctl_reason option \<Rightarrow> ctl_snapshot" where
  "snapshotOf c p r = \<lparr>snapPhase = p, snapOwned = owned c, snapPendingSign = (pendingOperationId c \<noteq> None),
     snapRetrySign = (retryableSign c \<noteq> None \<and> \<not> isBusy c), snapReason = r,
     snapApplication = application c, snapLookup = applicationLookup c, snapSaved = saved c,
     snapPrepared = prepared c, snapSigned = signed c, snapCompletion = completionResult c\<rparr>"

definition publish :: "phase \<Rightarrow> ctl_reason option \<Rightarrow> controller \<Rightarrow> controller" where
  "publish p r c = c\<lparr>ctlSnapshot := snapshotOf c p r\<rparr>"

text \<open>\<open>publish(snapshot.phase, snapshot.reason)\<close>\<close>

definition republish :: "controller \<Rightarrow> controller" where
  "republish c = publish (snapPhase (ctlSnapshot c)) (snapReason (ctlSnapshot c)) c"

definition initialController :: "ctl_config \<Rightarrow> controller" where
  "initialController cfg =
     \<lparr>epoch = 0, invalidated = False, owned = isSet (restoredResponse cfg),
       actor = getp (controllerContext cfg) ''expectedActor'', application = restoredApplication cfg,
       applicationLookup = restoredApplicationLookup cfg, saved = Undefined, prepared = Undefined, signed = Undefined,
       pendingOperationId = None, busy = None, retryableSign = None, retryingSign = False, confirmedDelivery = None,
       completionResult = Undefined, completionOutcomeUnknown = False, completedSubmit = None, deliveries = [],
       ctlSnapshot = \<lparr>snapPhase = Idle, snapOwned = isSet (restoredResponse cfg), snapPendingSign = False,
         snapRetrySign = False, snapReason = None, snapApplication = restoredApplication cfg,
         snapLookup = restoredApplicationLookup cfg, snapSaved = Undefined, snapPrepared = Undefined,
         snapSigned = Undefined, snapCompletion = Undefined\<rparr>,
       nextObject = 0, promises = [], portCalls = []\<rparr>"

definition current :: "nat \<Rightarrow> controller \<Rightarrow> ctl_error + unit" where
  "current generation c = throwIf (invalidated c \<or> generation \<noteq> epoch c) (Refusal ContextObsolete)"

definition calling :: "port_call \<Rightarrow> controller \<Rightarrow> controller" where
  "calling p c = c\<lparr>portCalls := portCalls c @ [p]\<rparr>"

text \<open>
  The delivery objects are shared by reference; one that \<open>invalidate\<close> has dropped from the map is
  no longer visible, and writing it changes nothing.
\<close>

definition getDelivery :: "controller \<Rightarrow> string \<Rightarrow> delivery option" where
  "getDelivery c d = map_of (deliveries c) d"

definition onDelivery :: "string \<Rightarrow> (delivery \<Rightarrow> delivery) \<Rightarrow> controller \<Rightarrow> controller" where
  "onDelivery d f c = c\<lparr>deliveries := map (\<lambda>(k, x). (k, if k = d then f x else x)) (deliveries c)\<rparr>"

definition retireSignRetry :: "controller \<Rightarrow> controller" where
  "retireSignRetry c = c\<lparr>retryableSign := None,
     deliveries := map (\<lambda>(k, x). (k, x\<lparr>signRetry := None\<rparr>)) (deliveries c)\<rparr>"

definition invalidate :: "controller \<Rightarrow> controller" where
  "invalidate c = publish RefusedPhase (Some ContextObsolete)
     (c\<lparr>completionResult := Undefined, epoch := epoch c + 1, invalidated := True, retryableSign := None,
        confirmedDelivery := None, completedSubmit := None, deliveries := [], owned := False,
        saved := Undefined, prepared := Undefined, signed := Undefined\<rparr>)"

text \<open>\<open>fail\<close>: what a failed effect publishes, and the reason it reports.\<close>

definition failWith :: "ctl_config \<Rightarrow> ctl_error \<Rightarrow> nat \<Rightarrow> controller \<Rightarrow> controller \<times> ctl_reason" where
  "failWith cfg e generation c =
    (if generation \<noteq> epoch c then (c, ContextObsolete)
     else let c = (if completionKind cfg = Some ''task'' \<and> e = UnknownOutcome
                   then c\<lparr>completionOutcomeUnknown := True\<rparr> else c) in
       if completionOutcomeUnknown c
       then (publish OutcomeUnknownPhase (Some CompletionOutcomeUnknown) c, CompletionOutcomeUnknown)
       else if reasonOf e \<noteq> ContextObsolete \<and> \<not> isSet (completionResult c)
       then (publish (if isRefusal e then RefusedPhase else FailedPhase) (Some (reasonOf e)) c, reasonOf e)
       else (c, reasonOf e))"


section \<open>Calls in flight\<close>

datatype call_outcome = CallFailed ctl_reason | Invocation string jsval | CallDone | CallThrew ctl_error

datatype point =
    AtWidgetValidation | AtFrozenValidation | AtEngine "(ctl_reason + props) option"
  | AtValidation | AtHash | AtJoin nat
  | AtCheckpointSave | AtCheckpointEvidence | AtCheckpointCommit | AtStart
  | AtSave | AtSaveEvidence | AtPrepare | AtPrepareEvidence | AtSign | AtSignEvidence
  | AtSubmitOptions | AtCapture | AtComplete
  | AtCommit props | AtFinally "ctl_error + props"
  | AtRefresh | AtDraftEvidence | AtDraftCommit
  | AtPendingEvidence | AtPendingPort | AtPendingSelected | AtSignedEvidence | AtRestoredCommit
  | AtEnd call_outcome

datatype call_kind = DefinitionCall | WidgetCall | RestoreCall

record frame =
  fKind :: call_kind
  fPoint :: point
  fGeneration :: nat
  fDelivery :: string
  fRole :: role
  fAdmission :: jsval
  fDocument :: jsval
  fActionRef :: jsval
  fResponse :: jsval
  fInput :: jsval
  fSource :: jsval
  fWidget :: jsval
  fIdentity :: "string option"
  fRetained :: "sign_retry option"
  fValidated :: jsval
  fRetry :: "sign_retry option"
  fRecovering :: bool
  fRequest :: jsval
  fWording :: jsval
  fSubject :: jsval
  fDraft :: jsval
  fPromise :: nat
  fActor :: jsval
  fResult :: jsval
  fResult2 :: jsval
  fRenew :: bool
  fIsRetry :: bool

record ctl_env =
  signingContext :: "ctl_error + jsval"
  reviewReady :: "jsval \<Rightarrow> string \<Rightarrow> ctl_error + bool"
  freshKey :: string

datatype engine_event =
    EngineHostEvent
  | EngineDispatch jsval
  | EngineReturn string jsval
  | EngineThrow ctl_error

datatype answer =
    Valid "ctl_error + bool"
  | Hash "ctl_error + string"
  | Value "ctl_error + jsval"
  | Checked "ctl_error + bool" "ctl_error + string"
  | Engine engine_event
  | Resolved

definition goto :: "point \<Rightarrow> frame \<Rightarrow> frame" where
  "goto p fr = fr\<lparr>fPoint := p\<rparr>"

text \<open>\<open>review\<close>: the wording of the reviewed document and the host's review gate.\<close>

definition review :: "ctl_config \<Rightarrow> ctl_env \<Rightarrow> jsval \<Rightarrow> string \<Rightarrow> jsval \<Rightarrow> ctl_error + unit" where
  "review cfg env result stage wording =
     bindR (throwIf (\<not> isSet result) OtherError) (\<lambda>_.
     bindR (throwIf (\<not> same cfg (dot result [''content'', ''source'']) (getp wording ''source'')
         \<or> dot result [''content'', ''locale''] \<noteq> getp wording ''locale'') (Refusal ReviewUnready)) (\<lambda>_.
     bindR (reviewReady env (Obj [(''response'', getp result ''response''), (''draft'', getp result ''draft''),
         (''actor'', getp result ''actor''), (''source'', getp wording ''source''), (''locale'', getp wording ''locale''),
         (''generation'', getp (controllerContext cfg) ''generation'')]) stage) (\<lambda>ready.
     throwIf (\<not> ready) (Refusal ReviewUnready))))"

section \<open>One effect: perform\<close>

definition hasSignatures :: "jsval \<Rightarrow> bool" where
  "hasSignatures response = (signatures response \<noteq> [])"

definition roleName :: "role \<Rightarrow> string" where
  "roleName r = (case r of StartApplication \<Rightarrow> ''startApplication'' | SaveInitial \<Rightarrow> ''saveInitial''
     | SaveOwned \<Rightarrow> ''saveOwned'' | Prepare \<Rightarrow> ''prepare'' | Sign \<Rightarrow> ''sign'' | Submit \<Rightarrow> ''submit'' | Paper \<Rightarrow> ''paper'')"

text \<open>The catch of \<open>dispatchEffect\<close> hands the reason to the engine, success the transition bindings.\<close>

definition effectFailed :: "ctl_config \<Rightarrow> ctl_error \<Rightarrow> controller \<Rightarrow> frame \<Rightarrow> controller \<times> frame" where
  "effectFailed cfg e c fr =
    (let (c', r) = failWith cfg e (fGeneration fr) c in (c', goto (AtEngine (Some (Inl r))) fr))"

definition effectDone :: "props \<Rightarrow> frame \<Rightarrow> frame" where
  "effectDone out fr = goto (AtEngine (Some (Inr out))) fr"

text \<open>Up to the first await: the pending act, the admitted request, the pins of the response.\<close>

definition startPerform :: "ctl_config \<Rightarrow> controller \<Rightarrow> frame \<Rightarrow> controller \<times> frame" where
  "startPerform cfg c fr =
    (case bindR (throwIf (pendingOperationId c \<noteq> None \<and> fRole fr \<noteq> Sign) (Refusal OperationConflict))
        (\<lambda>_. requestFor cfg (fRole fr) (fAdmission fr)) of
       Inl e \<Rightarrow> effectFailed cfg e c fr
     | Inr request \<Rightarrow> (c, fr\<lparr>fRequest := request,
         fRecovering := (fRole fr = Sign \<and> reconcileSignRetries cfg \<and> fRetry fr \<noteq> None \<and>
           map_option retryId (Option.bind (getDelivery c (fDelivery fr)) signRetry) = map_option retryId (fRetry fr)),
         fPoint := AtValidation\<rparr>))"

definition unsignedCheckpoint :: "role \<Rightarrow> bool" where
  "unsignedCheckpoint r = (r \<in> {SaveInitial, SaveOwned, StartApplication})"

definition branchGuards :: "ctl_config \<Rightarrow> controller \<Rightarrow> role \<Rightarrow> ctl_error + unit" where
  "branchGuards cfg c r = checks
    [throwIf (truthy (applicationLookup c) \<and> r \<in> {StartApplication, Submit}) (Refusal BranchMismatch),
     throwIf (r = StartApplication \<and>
         (\<not> truthy (getp (lifecycleCapabilities cfg) ''earlyCaseCreation'')
          \<or> getp (lifecycleCapabilities cfg) ''formVersionId'' \<noteq> dot (controllerContext cfg) [''publication'', ''formVersionId'']
          \<or> isSet (signed c))) (Refusal BranchMismatch),
     throwIf (hasSignatures (restoredResponse cfg) \<and> \<not> isSet (signed c)) (Refusal RestorationUnresolved)]"

definition subjectOf :: "controller \<Rightarrow> role \<Rightarrow> jsval" where
  "subjectOf c r = (if r = Sign then prepared c else if r = Submit then signed c else saved c)"

definition signInputNames :: "string list" where
  "signInputNames = [''draftId'', ''draftVersion'', ''responseId'', ''responseHash'', ''source'', ''locale'', ''signerName'', ''consentAccepted'']"

definition submitInputNames :: "string list" where
  "submitInputNames = [''draftId'', ''draftVersion'', ''canonical_response'']"

text \<open>The explicit acts name the document they are about, and nothing else.\<close>

definition inputGuards :: "ctl_config \<Rightarrow> role \<Rightarrow> jsval \<Rightarrow> jsval \<Rightarrow> jsval \<Rightarrow> jsval \<Rightarrow> ctl_error + unit" where
  "inputGuards cfg r subject response input wording = checks
    [throwIf (r = Sign \<and> (getp input ''draftId'' \<noteq> dot subject [''draft'', ''id'']
        \<or> getp input ''draftVersion'' \<noteq> dot subject [''draft'', ''version'']
        \<or> getp input ''responseId'' \<noteq> getp response ''id''
        \<or> getp input ''responseHash'' \<noteq> dot subject [''draft'', ''responseHash'']
        \<or> \<not> same cfg (getp input ''source'') (getp wording ''source'')
        \<or> getp input ''locale'' \<noteq> getp wording ''locale''
        \<or> isBlankOrNotString (getp input ''signerName'')
        \<or> getp input ''consentAccepted'' \<noteq> Bool True)) (Refusal ContextMismatch),
     throwIf (r = Submit \<and> (getp input ''draftId'' \<noteq> dot subject [''draft'', ''id'']
        \<or> getp input ''draftVersion'' \<noteq> dot subject [''draft'', ''version'']
        \<or> \<not> same cfg (getp input ''canonical_response'') response)) (Refusal ContextMismatch),
     throwIf (\<not> set (map fst (ownProps input)) \<subseteq> set (if r = Sign then signInputNames else submitInputNames))
       (Refusal ContextMismatch)]"

definition subjectGuards ::
  "ctl_config \<Rightarrow> ctl_env \<Rightarrow> frame \<Rightarrow> jsval \<Rightarrow> jsval \<Rightarrow> ctl_error + unit" where
  "subjectGuards cfg env fr subject wording =
    (if fRole fr \<notin> {Sign, Submit} then Inr ()
     else
       bindR (throwIf (\<not> isSet subject \<or> \<not> same cfg (getp subject ''response'') (fResponse fr)) (Refusal ContextMismatch)) (\<lambda>_.
       bindR (if fRecovering fr then Inr ()
              else review cfg env subject (if fRole fr = Sign then ''unsigned'' else ''signed'') wording) (\<lambda>_.
       inputGuards cfg (fRole fr) subject (fResponse fr) (fInput fr) wording)))"

text \<open>
  After the response is validated: the branch, the wording, the subject and its review; then the
  digest of the response is awaited. The draft of the identity is the one of the delivery if there
  is one already.
\<close>

definition admitPerform :: "ctl_config \<Rightarrow> ctl_env \<Rightarrow> ctl_error + bool \<Rightarrow> controller \<Rightarrow> frame \<Rightarrow> ctl_error + frame" where
  "admitPerform cfg env valid c fr =
     bindR (assertControllerResponse cfg (fResponse fr) valid) (\<lambda>_.
     bindR (current (fGeneration fr) c) (\<lambda>_.
     bindR (branchGuards cfg c (fRole fr)) (\<lambda>_.
     bindR (if unsignedCheckpoint (fRole fr) then Inr Null else signingContext env) (\<lambda>wording.
     let subject = subjectOf c (fRole fr) in
     bindR (subjectGuards cfg env fr subject wording) (\<lambda>_.
     Inr (fr\<lparr>fWording := wording, fSubject := subject,
       fDraft := (case getDelivery c (fDelivery fr) of Some x \<Rightarrow> baselineDraft x | None \<Rightarrow> coalesce (getp subject ''draft'') Null),
       fPoint := AtHash\<rparr>))))))"

definition identityOf :: "ctl_config \<Rightarrow> frame \<Rightarrow> string \<Rightarrow> string option" where
  "identityOf cfg fr h = canonicalize cfg (Obj
     [(''admission'', fAdmission fr), (''role'', Str (roleName (fRole fr))), (''source'', fSource fr),
      (''generation'', jsInt (int (fGeneration fr))), (''context'', controllerContext cfg), (''responseHash'', Str h),
      (''draft'', fDraft fr), (''input'', fInput fr), (''wording'', fWording fr)])"

text \<open>The branch a new delivery may start on; a delivery that is known already is not asked again.\<close>

definition newDeliveryGuard :: "controller \<Rightarrow> role \<Rightarrow> ctl_error + unit" where
  "newDeliveryGuard c r = throwIf
     (r = SaveInitial \<and> owned c \<or> r = SaveOwned \<and> \<not> owned c \<or> r = Prepare \<and> (\<not> owned c \<or> \<not> isSet (saved c))
      \<or> r = Sign \<and> isSet (signed c) \<or> r \<in> {SaveInitial, SaveOwned, Prepare} \<and> isSet (signed c))
     (Refusal BranchMismatch)"

datatype admission_step = Joins nat | Replays props | Runs delivery

definition admitDelivery :: "ctl_config \<Rightarrow> ctl_env \<Rightarrow> controller \<Rightarrow> frame \<Rightarrow> string \<Rightarrow> ctl_error + admission_step" where
  "admitDelivery cfg env c fr h =
    (let identity = identityOf cfg fr h; idle = (\<lambda>_. checks [throwIf (isSet (completionResult c)) (Refusal OperationConflict),
         throwIf (isBusy c) (Refusal OperationPending)]) in
     case getDelivery c (fDelivery fr) of
       Some x \<Rightarrow>
         if dIdentity x \<noteq> identity then Inl (Refusal OperationConflict)
         else (case dPending x of Some n \<Rightarrow> Inr (Joins n)
           | None \<Rightarrow> if retired x then Inl (Refusal OperationConflict)
               else (case completed x of Some out \<Rightarrow> Inr (Replays out)
                 | None \<Rightarrow> bindR (idle ()) (\<lambda>_. Inr (Runs x))))
     | None \<Rightarrow> bindR (idle ()) (\<lambda>_. bindR (newDeliveryGuard c (fRole fr)) (\<lambda>_.
         Inr (Runs \<lparr>dIdentity = identity, operationId = (case pendingOperationId c of Some p \<Rightarrow> p | None \<Rightarrow> freshKey env),
           dPending = None, completionPreparation = None, baselineDraft = coalesce (getp (fSubject fr) ''draft'') Null,
           signRetry = None, retired = False, completed = None\<rparr>))))"

text \<open>The promise of an operation is settled; the owner of the delivery runs its \<open>finally\<close> next.\<close>

definition settle :: "ctl_error + props \<Rightarrow> controller \<Rightarrow> frame \<Rightarrow> controller \<times> frame" where
  "settle r c fr = (c\<lparr>promises := (fPromise fr, r) # promises c\<rparr>, goto (AtFinally r) fr)"

definition finishOperation :: "ctl_config \<Rightarrow> ctl_error + props \<Rightarrow> controller \<Rightarrow> frame \<Rightarrow> controller \<times> frame" where
  "finishOperation cfg r c fr =
    (let c = onDelivery (fDelivery fr) (\<lambda>x. x\<lparr>dPending := None\<rparr>) c;
         c = (if busy c = Some (fDelivery fr) then c\<lparr>busy := None\<rparr> else c) in
     case r of Inl e \<Rightarrow> effectFailed cfg e c fr | Inr out \<Rightarrow> (c, effectDone out fr))"

definition operationOf :: "controller \<Rightarrow> frame \<Rightarrow> string" where
  "operationOf c fr = (case getDelivery c (fDelivery fr) of Some x \<Rightarrow> operationId x | None \<Rightarrow> [])"

definition requestInput :: "ctl_config \<Rightarrow> frame \<Rightarrow> jsval" where
  "requestInput cfg fr = Obj [(''input'', Obj (spread (ownProps (fInput fr))
      [(''formId'', dot (controllerContext cfg) [''publication'', ''formId'']),
       (''draftId'', dot (fSubject fr) [''draft'', ''id'']), (''draftVersion'', dot (fSubject fr) [''draft'', ''version'']),
       (''frozenResponse'', fResponse fr)])), (''route'', Obj []), (''session'', Obj [])]"

definition planGuard :: "ctl_config \<Rightarrow> controller \<Rightarrow> frame \<Rightarrow> ctl_error + unit" where
  "planGuard cfg c fr =
    (if isSet (fRequest fr) \<and> fRole fr \<noteq> Submit \<and> fRole fr \<noteq> StartApplication \<and> (fRole fr \<noteq> SaveOwned \<or> isSet (saved c))
     then bindR (planServiceRequest cfg (fRequest fr) (requestInput cfg fr)) (\<lambda>planned.
       throwIf (fRole fr = Sign \<and> (getp planned ''method'' \<noteq> Str ''POST'' \<or>
         getp planned ''path'' \<noteq> Str (''/drafts/'' @ encodeURIComponent (strOf (dot (fSubject fr) [''draft'', ''id''])) @ ''/sign'')))
         (Refusal ActionUnadmitted))
     else Inr ())"

definition callStart :: "controller \<Rightarrow> frame \<Rightarrow> controller \<times> frame" where
  "callStart c fr = (calling (StartCall (fDelivery fr) (operationOf c fr)) c, goto AtStart fr)"

text \<open>Start of an application without an owned draft writes the initial checkpoint first.\<close>

definition checkpointGuard :: "ctl_config \<Rightarrow> ctl_error + unit" where
  "checkpointGuard cfg = (case map_of (roles cfg) SaveInitial of
     None \<Rightarrow> Inl (Refusal ActionUnadmitted)
   | Some checkpoint \<Rightarrow>
       bindR (throwIf (\<not> same cfg (resolveTuple cfg (resolveAction cfg (getp checkpoint ''document'') (getp checkpoint ''actionRef'')))
         checkpointTuple) (Refusal ActionUnadmitted)) (\<lambda>_.
       bindR (requestFor cfg SaveInitial checkpoint) (\<lambda>_. Inr ())))"

definition beginStart :: "ctl_config \<Rightarrow> controller \<Rightarrow> frame \<Rightarrow> controller \<times> frame" where
  "beginStart cfg c fr =
    (if owned c then callStart c fr
     else case checkpointGuard cfg of Inl e \<Rightarrow> settle (Inl e) c fr
       | Inr _ \<Rightarrow> (calling (SaveCall (fDelivery fr) (operationOf c fr) (fResponse fr)) c, goto AtCheckpointSave fr))"

definition assentOf :: "frame \<Rightarrow> jsval" where
  "assentOf fr = Obj [(''signerName'', getp (fInput fr) ''signerName''), (''consentAccepted'', Bool True)]"

definition beginSign :: "ctl_config \<Rightarrow> ctl_env \<Rightarrow> controller \<Rightarrow> frame \<Rightarrow> controller \<times> frame" where
  "beginSign cfg env c fr =
    (case (if fRecovering fr then Inr () else review cfg env (prepared c) ''unsigned'' (fWording fr)) of
       Inl e \<Rightarrow> settle (Inl e) c fr
     | Inr _ \<Rightarrow>
        (let c = (if reconcileSignRetries cfg \<and> fRetry fr \<noteq> None
                  then onDelivery (fDelivery fr) (\<lambda>x. x\<lparr>signRetry := fRetry fr\<rparr>) c else c) in
         (calling (SignCall (fDelivery fr) (operationOf c fr) (prepared c) (assentOf fr)) c, goto AtSign fr)))"

text \<open>The signed response is reviewed again before the completion is dispatched.\<close>

definition completeNow :: "ctl_config \<Rightarrow> ctl_env \<Rightarrow> jsval \<Rightarrow> controller \<Rightarrow> frame \<Rightarrow> controller \<times> frame" where
  "completeNow cfg env preparation c fr =
    (case bindR (current (fGeneration fr) c) (\<lambda>_. review cfg env (signed c) ''signed'' (fWording fr)) of
       Inl e \<Rightarrow> settle (Inl e) c fr
     | Inr _ \<Rightarrow> (calling (CompleteCall (fDelivery fr) (operationOf c fr) preparation) c, goto AtComplete fr))"

definition beginOperation :: "ctl_config \<Rightarrow> ctl_env \<Rightarrow> controller \<Rightarrow> frame \<Rightarrow> controller \<times> frame" where
  "beginOperation cfg env c fr =
    (case bindR (planGuard cfg c fr) (\<lambda>_. current (fGeneration fr) c) of
       Inl e \<Rightarrow> settle (Inl e) c fr
     | Inr _ \<Rightarrow> (case fRole fr of
         Paper \<Rightarrow> settle (Inr []) (publish (InRole Paper) None c) fr
       | StartApplication \<Rightarrow> beginStart cfg c fr
       | SaveInitial \<Rightarrow> (calling (SaveCall (fDelivery fr) (operationOf c fr) (fResponse fr)) c, goto AtSave fr)
       | SaveOwned \<Rightarrow> (calling (SaveCall (fDelivery fr) (operationOf c fr) (fResponse fr)) c, goto AtSave fr)
       | Prepare \<Rightarrow> (calling (PrepareCall (fDelivery fr) (fResponse fr)) c, goto AtPrepare fr)
       | Sign \<Rightarrow> beginSign cfg env c fr
       | Submit \<Rightarrow> (case Option.bind (getDelivery c (fDelivery fr)) completionPreparation of
            None \<Rightarrow> (c, goto AtSubmitOptions fr)
          | Some p \<Rightarrow> completeNow cfg env p c fr)))"

text \<open>
  After the digest: join, replay, refuse, or run. A run registers its delivery, takes the busy
  flag, publishes its role and starts its operation without an await in between.
\<close>

definition putDelivery :: "string \<Rightarrow> delivery \<Rightarrow> controller \<Rightarrow> controller" where
  "putDelivery d x c =
    (if getDelivery c d = None then c\<lparr>deliveries := deliveries c @ [(d, x)]\<rparr> else onDelivery d (\<lambda>_. x) c)"

definition runDelivery :: "ctl_config \<Rightarrow> ctl_env \<Rightarrow> delivery \<Rightarrow> controller \<Rightarrow> frame \<Rightarrow> controller \<times> frame" where
  "runDelivery cfg env x c fr =
    (let c = putDelivery (fDelivery fr) x c;
         c = (if fRole fr \<in> {SaveInitial, SaveOwned, Prepare} then retireSignRetry c else c);
         n = nextObject c;
         c = onDelivery (fDelivery fr) (\<lambda>x. x\<lparr>dPending := Some n\<rparr>) (c\<lparr>nextObject := n + 1, busy := Some (fDelivery fr)\<rparr>) in
     beginOperation cfg env (publish (InRole (fRole fr)) None c) (fr\<lparr>fPromise := n\<rparr>))"

definition hashedPerform :: "ctl_config \<Rightarrow> ctl_env \<Rightarrow> ctl_error + string \<Rightarrow> controller \<Rightarrow> frame \<Rightarrow> controller \<times> frame" where
  "hashedPerform cfg env hash c fr =
    (case bindR hash (\<lambda>h. bindR (current (fGeneration fr) c) (\<lambda>_. admitDelivery cfg env c fr h)) of
       Inl e \<Rightarrow> effectFailed cfg e c fr
     | Inr (Joins n) \<Rightarrow> (c, goto (AtJoin n) fr)
     | Inr (Replays out) \<Rightarrow> (c, effectDone out fr)
     | Inr (Runs x) \<Rightarrow> runDelivery cfg env x c fr)"

text \<open>The outputs are read after the effect is committed; a checkpoint or preparation is retired with them.\<close>

definition commit :: "ctl_config \<Rightarrow> jsval \<Rightarrow> controller \<Rightarrow> frame \<Rightarrow> controller \<times> frame" where
  "commit cfg result c fr =
    (case transitionBindings cfg (fRequest fr) (getp result ''evidence'') of
       Inl e \<Rightarrow> settle (Inl e) c fr
     | Inr out \<Rightarrow> (onDelivery (fDelivery fr) (\<lambda>x. x\<lparr>retired := (fRole fr \<in> {SaveInitial, SaveOwned, Prepare} \<or> retired x),
           completed := Some out\<rparr>) c, goto (AtCommit out) fr))"

text \<open>A port answered: its failure, or a retirement meanwhile, rejects the operation.\<close>

definition portAnswer ::
  "controller \<Rightarrow> frame \<Rightarrow> ctl_error + jsval \<Rightarrow> (jsval \<Rightarrow> controller \<times> frame) \<Rightarrow> controller \<times> frame" where
  "portAnswer c fr v k =
    (case bindR v (\<lambda>r. bindR (current (fGeneration fr) c) (\<lambda>_. Inr r)) of Inl e \<Rightarrow> settle (Inl e) c fr | Inr r \<Rightarrow> k r)"

definition awaitEvidence :: "point \<Rightarrow> controller \<Rightarrow> frame \<Rightarrow> jsval \<Rightarrow> controller \<times> frame" where
  "awaitEvidence p c fr result = (c, fr\<lparr>fResult := result, fActor := actor c, fPoint := p\<rparr>)"

definition evidenceAnswer ::
  "ctl_config \<Rightarrow> jsval \<Rightarrow> ctl_error + bool \<Rightarrow> ctl_error + string \<Rightarrow> controller \<Rightarrow> frame \<Rightarrow> ctl_error + unit" where
  "evidenceAnswer cfg expected valid hash c fr =
     bindR (assertSavedResponseDraftEvidence cfg (fResult fr) expected (fActor fr) valid hash) (\<lambda>_.
     current (fGeneration fr) c)"

definition actorId :: "jsval \<Rightarrow> jsval" where
  "actorId result = dot result [''actor'', ''id'']"

definition checkpointSaved :: "ctl_error + jsval \<Rightarrow> controller \<Rightarrow> frame \<Rightarrow> controller \<times> frame" where
  "checkpointSaved v c fr =
    (case v of Inl e \<Rightarrow> settle (Inl e) c fr
     | Inr r \<Rightarrow> (let c = c\<lparr>saved := r\<rparr> in
         case current (fGeneration fr) c of Inl e \<Rightarrow> settle (Inl e) c fr
         | Inr _ \<Rightarrow> awaitEvidence AtCheckpointEvidence c fr r))"

definition checkpointChecked :: "ctl_config \<Rightarrow> ctl_error + bool \<Rightarrow> ctl_error + string \<Rightarrow> controller \<Rightarrow> frame \<Rightarrow> controller \<times> frame" where
  "checkpointChecked cfg valid hash c fr =
    (case evidenceAnswer cfg (fResponse fr) valid hash c fr of Inl e \<Rightarrow> settle (Inl e) c fr
     | Inr _ \<Rightarrow> (publish (InRole StartApplication) None (c\<lparr>actor := actorId (saved c), owned := True\<rparr>), goto AtCheckpointCommit fr))"

definition checkpointCommitted :: "controller \<Rightarrow> frame \<Rightarrow> controller \<times> frame" where
  "checkpointCommitted c fr =
    (case current (fGeneration fr) c of Inl e \<Rightarrow> settle (Inl e) c fr | Inr _ \<Rightarrow> callStart c fr)"

definition started :: "ctl_config \<Rightarrow> ctl_error + jsval \<Rightarrow> controller \<Rightarrow> frame \<Rightarrow> controller \<times> frame" where
  "started cfg v c fr = portAnswer c fr v (\<lambda>receipt.
     if truthy (application c) \<and> (getp (application c) ''caseLedgerId'' \<noteq> getp receipt ''caseLedgerId''
          \<or> getp (application c) ''draftRef'' \<noteq> getp receipt ''draftRef'')
       \<or> isSet (saved c) \<and> getp receipt ''draftRef'' \<noteq> Str (''urn:formspec:draft:'' @ strOf (dot (saved c) [''draft'', ''id'']))
     then settle (Inl (Refusal ContextMismatch)) c fr
     else (let c = publish SavedPhase None (c\<lparr>application := receipt\<rparr>) in
       settle (transitionBindings cfg (fRequest fr) receipt) c fr))"

definition savedChecked :: "ctl_config \<Rightarrow> ctl_error + bool \<Rightarrow> ctl_error + string \<Rightarrow> controller \<Rightarrow> frame \<Rightarrow> controller \<times> frame" where
  "savedChecked cfg valid hash c fr =
    (case evidenceAnswer cfg (fResponse fr) valid hash c fr of Inl e \<Rightarrow> settle (Inl e) c fr
     | Inr _ \<Rightarrow> commit cfg (fResult fr) (publish SavedPhase None
         (c\<lparr>saved := fResult fr, actor := actorId (fResult fr), owned := True, prepared := Undefined\<rparr>)) fr)"

definition preparedChecked :: "ctl_config \<Rightarrow> ctl_error + bool \<Rightarrow> ctl_error + string \<Rightarrow> controller \<Rightarrow> frame \<Rightarrow> controller \<times> frame" where
  "preparedChecked cfg valid hash c fr =
    (case bindR (evidenceAnswer cfg (fResponse fr) valid hash c fr) (\<lambda>_.
         throwIf (\<not> same cfg (dot (fResult fr) [''content'', ''source'']) (getp (fWording fr) ''source'')
           \<or> dot (fResult fr) [''content'', ''locale''] \<noteq> getp (fWording fr) ''locale'') (Refusal ContextMismatch)) of
       Inl e \<Rightarrow> settle (Inl e) c fr
     | Inr _ \<Rightarrow> commit cfg (fResult fr) (publish PreparedPhase None
         (c\<lparr>prepared := fResult fr, saved := fResult fr, actor := actorId (fResult fr)\<rparr>)) fr)"

definition signatureGuard :: "ctl_config \<Rightarrow> controller \<Rightarrow> jsval \<Rightarrow> ctl_error + unit" where
  "signatureGuard cfg c signature =
     bindR (throwIf (\<not> isSet (prepared c)) OtherError) (\<lambda>_.
     throwIf (\<not> same cfg (getp signature ''content'') (getp (prepared c) ''content'')
       \<or> \<not> hasSignatures (getp signature ''response'')
       \<or> dot signature [''verification'', ''mode''] \<noteq> Str ''delegated-service-key''
       \<or> \<not> truthy (dot signature [''verification'', ''provider''])
       \<or> \<not> truthy (dot signature [''verification'', ''keyId''])) (Refusal ContextMismatch))"

definition signatureChecked :: "ctl_config \<Rightarrow> ctl_error + bool \<Rightarrow> ctl_error + string \<Rightarrow> controller \<Rightarrow> frame \<Rightarrow> controller \<times> frame" where
  "signatureChecked cfg valid hash c fr =
    (case bindR (evidenceAnswer cfg Undefined valid hash c fr) (\<lambda>_. signatureGuard cfg c (fResult fr)) of
       Inl e \<Rightarrow> settle (Inl e) c fr
     | Inr _ \<Rightarrow> commit cfg (fResult fr) (publish SignedPhase None
         (c\<lparr>retryableSign := None, pendingOperationId := None, signed := fResult fr, saved := fResult fr\<rparr>)) fr)"

definition submitOptions :: "ctl_config \<Rightarrow> ctl_error + jsval \<Rightarrow> controller \<Rightarrow> frame \<Rightarrow> controller \<times> frame" where
  "submitOptions cfg v c fr = portAnswer c fr v (\<lambda>options.
     if completionKind cfg = Some ''task'' \<and> truthy (getp options ''nativeCurrentCheck'')
     then settle (Inl (Refusal BranchMismatch)) c fr
     else (calling (CaptureCall (fDelivery fr) (signed c)) c, goto AtCapture fr))"

definition captured :: "ctl_config \<Rightarrow> ctl_env \<Rightarrow> ctl_error + jsval \<Rightarrow> controller \<Rightarrow> frame \<Rightarrow> controller \<times> frame" where
  "captured cfg env v c fr =
    (case v of Inl e \<Rightarrow> settle (Inl e) c fr
     | Inr p \<Rightarrow> completeNow cfg env p (onDelivery (fDelivery fr) (\<lambda>x. x\<lparr>completionPreparation := Some p\<rparr>) c) fr)"

definition submitted :: "ctl_config \<Rightarrow> ctl_error + jsval \<Rightarrow> controller \<Rightarrow> frame \<Rightarrow> controller \<times> frame" where
  "submitted cfg v c fr = portAnswer c fr v (\<lambda>result.
     if getp result ''kind'' \<noteq> (case completionKind cfg of Some k \<Rightarrow> Str k | None \<Rightarrow> Undefined)
     then settle (Inl (Refusal ContextMismatch)) c fr
     else (let c = publish SubmittedPhase None (c\<lparr>completionResult := result, confirmedDelivery := Some (fDelivery fr)\<rparr>) in
       case transitionBindings cfg (fRequest fr) (getp result ''evidence'') of
         Inl e \<Rightarrow> settle (Inl e) c fr
       | Inr out \<Rightarrow> settle (Inr out) (onDelivery (fDelivery fr) (\<lambda>x. x\<lparr>completed := Some out\<rparr>) c) fr))"

end
