(* ===== verification/Response_Calls.thy ===== *)
theory Response_Calls
  imports Response_Controller
begin

text \<open>
  The calls of the response-action controller: \<open>invokeDefinitionAction\<close>, \<open>widgetExecutor\<close>,
  \<open>retrySign\<close>, \<open>refreshApplication\<close> and the restorations, each up to its awaits, and the system
  they make together: a controller and the calls in flight, one step of which enters a call or
  resumes one (\<open>ctlStep\<close>).
\<close>


section \<open>Invoked actions\<close>

definition failCall :: "ctl_config \<Rightarrow> ctl_error \<Rightarrow> controller \<Rightarrow> frame \<Rightarrow> controller \<times> frame" where
  "failCall cfg e c fr = (let (c', r) = failWith cfg e (fGeneration fr) c in (c', goto (AtEnd (CallFailed r)) fr))"

definition blankFrame :: "call_kind \<Rightarrow> controller \<Rightarrow> frame" where
  "blankFrame k c = \<lparr>fKind = k, fPoint = AtEnd CallDone, fGeneration = epoch c, fDelivery = ''-'', fRole = Paper,
     fAdmission = Undefined, fDocument = Undefined, fActionRef = Undefined, fResponse = Undefined, fInput = Obj [],
     fSource = Undefined, fWidget = Undefined, fIdentity = None, fRetained = None, fValidated = Undefined,
     fRetry = None, fRecovering = False, fRequest = Undefined, fWording = Undefined, fSubject = Undefined,
     fDraft = Null, fPromise = 0, fActor = Undefined, fResult = Undefined, fResult2 = Undefined, fRenew = False,
     fIsRetry = False\<rparr>"

definition definitionRoles :: "role list" where
  "definitionRoles = [StartApplication, SaveInitial, SaveOwned, Prepare, Paper]"

definition widgetRoles :: "role list" where
  "widgetRoles = [Sign, Submit, Paper]"

text \<open>\<open>invokeDefinitionAction\<close> up to the engine.\<close>

definition admitDefinition :: "ctl_config \<Rightarrow> controller \<Rightarrow> jsval \<Rightarrow> jsval \<Rightarrow> ctl_error + role \<times> jsval" where
  "admitDefinition cfg c document actionRef =
     bindR (current (epoch c) c) (\<lambda>_.
     bindR (throwIf (isSet (completionResult c)) (Refusal OperationConflict)) (\<lambda>_.
     bindR (roleFor cfg document actionRef) (\<lambda>(r, admission).
     bindR (throwIf (r = Submit \<and> completionOutcomeUnknown c) (Refusal CompletionOutcomeUnknown)) (\<lambda>_.
     bindR (throwIf (r \<notin> set definitionRoles) (Refusal ActionUnadmitted)) (\<lambda>_.
     bindR (requestFor cfg r admission) (\<lambda>_. Inr (r, admission)))))))"

definition beginDefinition ::
  "ctl_config \<Rightarrow> ctl_env \<Rightarrow> controller \<Rightarrow> string option \<Rightarrow> jsval \<Rightarrow> jsval \<Rightarrow> jsval \<Rightarrow> controller \<times> frame" where
  "beginDefinition cfg env c invocationId document actionRef nodeId =
    (let fr = (blankFrame DefinitionCall c)\<lparr>fDelivery := (case invocationId of Some i \<Rightarrow> i | None \<Rightarrow> freshKey env),
           fDocument := document, fActionRef := actionRef, fSource := Obj [(''nodeId'', coalesce nodeId Null)]\<rparr> in
     case admitDefinition cfg c document actionRef of
       Inl e \<Rightarrow> failCall cfg e c fr
     | Inr (r, admission) \<Rightarrow> (c, fr\<lparr>fRole := r, fAdmission := admission, fPoint := AtEngine None\<rparr>))"

text \<open>\<open>widgetExecutor\<close> up to its first await: \<open>Inl\<close> of a result is the replay of the confirmed submission.\<close>

definition widgetIdentity :: "ctl_config \<Rightarrow> jsval \<Rightarrow> string option" where
  "widgetIdentity cfg input = canonicalize cfg (Obj [(''document'', getp input ''document''),
     (''actionRef'', getp input ''actionRef''), (''source'', getp input ''source''),
     (''responseContext'', getp input ''responseContext''), (''input'', coalesce (getp input ''input'') (Obj []))])"

definition confirmedReplay :: "ctl_config \<Rightarrow> controller \<Rightarrow> jsval \<Rightarrow> ctl_error + jsval option" where
  "confirmedReplay cfg c input =
    (if \<not> isSet (completionResult c) then Inr None
     else bindR (throwIf (getp input ''invocationId'' \<noteq> (case confirmedDelivery c of Some d \<Rightarrow> Str d | None \<Rightarrow> Undefined))
         (Refusal OperationConflict)) (\<lambda>_.
       case completedSubmit c of None \<Rightarrow> Inr None
       | Some (identity, result) \<Rightarrow> if widgetIdentity cfg input \<noteq> identity then Inl (Refusal OperationConflict)
           else Inr (Some result)))"

definition widgetPins :: "ctl_config \<Rightarrow> role \<Rightarrow> jsval \<Rightarrow> jsval \<Rightarrow> bool" where
  "widgetPins cfg r admission input =
    (let rc = getp input ''responseContext''; rs = getp admission ''responseSource'' in
     r \<in> set widgetRoles \<and> same cfg (getp admission ''widgetSource'') (getp input ''source'') \<and>
     truthy rc \<and> truthy rs \<and> getp rc ''inputName'' = getp rs ''inputName'' \<and>
     same cfg (getp rc ''source'') (Obj [(''catalogRef'', getp rs ''catalogRef''), (''sourceRef'', getp rs ''sourceRef'')]) \<and>
     same cfg (getp rc ''definition'') (getp (controllerContext cfg) ''definition''))"

definition admitWidget :: "ctl_config \<Rightarrow> controller \<Rightarrow> jsval \<Rightarrow> ctl_error + role \<times> jsval" where
  "admitWidget cfg c input =
     bindR (roleFor cfg (getp input ''document'') (getp input ''actionRef'')) (\<lambda>(r, admission).
     bindR (throwIf (r = Submit \<and> completionOutcomeUnknown c) (Refusal CompletionOutcomeUnknown)) (\<lambda>_.
     bindR (throwIf (\<not> widgetPins cfg r admission input) (Refusal ContextMismatch)) (\<lambda>_.
     bindR (requestFor cfg r admission) (\<lambda>_. Inr (r, admission)))))"

definition beginWidget :: "ctl_config \<Rightarrow> controller \<Rightarrow> jsval \<Rightarrow> bool \<Rightarrow> controller \<times> frame" where
  "beginWidget cfg c input isRetry =
    (let fr = (blankFrame WidgetCall c)\<lparr>fDelivery := strOf (getp input ''invocationId''), fWidget := input,
           fDocument := getp input ''document'', fActionRef := getp input ''actionRef'',
           fSource := getp input ''source'', fIdentity := widgetIdentity cfg input,
           fResponse := dot input [''responseContext'', ''response''],
           fInput := coalesce (getp input ''input'') (Obj []), fIsRetry := isRetry\<rparr> in
     case bindR (current (epoch c) c) (\<lambda>_. confirmedReplay cfg c input) of
       Inl e \<Rightarrow> failCall cfg e c fr
     | Inr (Some result) \<Rightarrow> (c, goto (AtEnd (Invocation ''completed'' result)) fr)
     | Inr None \<Rightarrow> (case admitWidget cfg c input of
         Inl e \<Rightarrow> failCall cfg e c fr
       | Inr (r, admission) \<Rightarrow> (c, fr\<lparr>fRole := r, fAdmission := admission, fPoint := AtWidgetValidation\<rparr>)))"

definition widgetTuple :: "ctl_config \<Rightarrow> frame \<Rightarrow> jsval" where
  "widgetTuple cfg fr = resolveTuple cfg (resolveAction cfg (getp (fAdmission fr) ''document'') (fActionRef fr))"

definition widgetValidated :: "ctl_config \<Rightarrow> ctl_error + jsval \<Rightarrow> controller \<Rightarrow> frame \<Rightarrow> controller \<times> frame" where
  "widgetValidated cfg v c fr =
    (case bindR v (\<lambda>validated. bindR (current (fGeneration fr) c) (\<lambda>_.
         bindR (throwIf (\<not> same cfg (getp validated ''response'') (fResponse fr)
             \<or> \<not> same cfg (getp validated ''validationTuple'') (widgetTuple cfg fr)
             \<or> \<not> truthy (getp validated ''validationReport'')
             \<or> dot validated [''validationReport'', ''definitionUrl''] \<noteq> getp (fResponse fr) ''definitionUrl''
             \<or> dot validated [''validationReport'', ''definitionVersion''] \<noteq> getp (fResponse fr) ''definitionVersion'')
           (Refusal ContextMismatch)) (\<lambda>_. Inr validated))) of
       Inl e \<Rightarrow> failCall cfg e c fr
     | Inr validated \<Rightarrow> (c, fr\<lparr>fValidated := validated, fPoint := AtEngine None\<rparr>))"

definition widgetChecked :: "ctl_config \<Rightarrow> ctl_error + bool \<Rightarrow> controller \<Rightarrow> frame \<Rightarrow> controller \<times> frame" where
  "widgetChecked cfg valid c fr =
    (let subject = (if fRole fr = Sign then prepared c else signed c);
         retained = (if fRole fr = Sign \<and> reconcileSignRetries cfg
                     then Option.bind (getDelivery c (fDelivery fr)) signRetry else None) in
     case bindR (assertControllerResponse cfg (fResponse fr) valid) (\<lambda>_.
         bindR (current (fGeneration fr) c) (\<lambda>_.
         bindR (throwIf (fRole fr \<noteq> Paper \<and> \<not> same cfg (fResponse fr) (getp subject ''response'')) (Refusal ContextMismatch)) (\<lambda>_.
         throwIf (\<exists>x\<in>set_option retained. retryIdentity x \<noteq> fIdentity fr) (Refusal OperationConflict)))) of
       Inl e \<Rightarrow> failCall cfg e c fr
     | Inr _ \<Rightarrow> (case retained of
         Some x \<Rightarrow> widgetValidated cfg (Inr (retryValidated x)) c (fr\<lparr>fRetained := retained\<rparr>)
       | None \<Rightarrow> (c, fr\<lparr>fRetained := None, fPoint := AtFrozenValidation\<rparr>)))"

text \<open>The engine calls back: it may dispatch a host event or the effect, and returns its invocation.\<close>

definition dispatchEffect :: "ctl_config \<Rightarrow> jsval \<Rightarrow> controller \<Rightarrow> frame \<Rightarrow> controller \<times> frame" where
  "dispatchEffect cfg response c fr =
    (if fKind fr = DefinitionCall then startPerform cfg c (fr\<lparr>fResponse := response, fInput := Obj [], fRetry := None\<rparr>)
     else if fRole fr = Sign \<and> reconcileSignRetries cfg
     then (case fRetained fr of
         Some x \<Rightarrow> startPerform cfg c (fr\<lparr>fRetry := Some x\<rparr>)
       | None \<Rightarrow> startPerform cfg (c\<lparr>nextObject := nextObject c + 1\<rparr>) (fr\<lparr>fRetry := Some
           \<lparr>retryId = nextObject c, retryRequest = fWidget fr, retryIdentity = fIdentity fr, retryValidated = fValidated fr\<rparr>\<rparr>))
     else startPerform cfg c (fr\<lparr>fRetry := None\<rparr>))"

definition isLive :: "frame \<Rightarrow> controller \<Rightarrow> bool" where
  "isLive fr c = (fGeneration fr = epoch c \<and> \<not> invalidated c)"

text \<open>A failed signature that its delivery retained may be retried; the snapshot is published again.\<close>

definition retainRetry :: "frame \<Rightarrow> controller \<Rightarrow> controller" where
  "retainRetry fr c =
    (let retry = (case Option.bind (getDelivery c (fDelivery fr)) signRetry of None \<Rightarrow> retryableSign c | Some x \<Rightarrow> Some x) in
     if retry = None then c else republish (c\<lparr>retryableSign := retry\<rparr>))"

definition confirms :: "frame \<Rightarrow> string \<Rightarrow> controller \<Rightarrow> bool" where
  "confirms fr status c = (fRole fr = Submit \<and> status = ''completed'' \<and> isSet (completionResult c))"

definition blocks :: "frame \<Rightarrow> string \<Rightarrow> controller \<Rightarrow> bool" where
  "blocks fr status c = (status = ''blocked'' \<and> isLive fr c \<and> \<not> isSet (completionResult c))"

definition widgetReturned :: "ctl_config \<Rightarrow> string \<Rightarrow> jsval \<Rightarrow> controller \<Rightarrow> frame \<Rightarrow> controller \<times> frame" where
  "widgetReturned cfg status invocation c fr =
    (let c = (if fRole fr = Sign \<and> status = ''failed'' \<and> isLive fr c then retainRetry fr c else c) in
     if confirms fr status c \<and> \<not> isLive fr c then failCall cfg (Refusal ContextObsolete) c fr
     else let c = (if confirms fr status c then c\<lparr>completedSubmit := Some (fIdentity fr, invocation)\<rparr> else c);
              c = (if blocks fr status c then publish RefusedPhase (Some ResponseInvalid) c else c) in
       (c, goto (AtEnd (Invocation status invocation)) fr))"

definition engineCalls :: "ctl_config \<Rightarrow> engine_event \<Rightarrow> controller \<Rightarrow> frame \<Rightarrow> controller \<times> frame" where
  "engineCalls cfg ev c fr =
    (case ev of
       EngineHostEvent \<Rightarrow> (if isOk (current (fGeneration fr) c) then (publish (InRole Paper) None c, fr) else (c, fr))
     | EngineDispatch response \<Rightarrow> dispatchEffect cfg response c fr
     | EngineReturn status invocation \<Rightarrow>
         (if fKind fr = WidgetCall then widgetReturned cfg status invocation c fr
          else (c, goto (AtEnd (Invocation status invocation)) fr))
     | EngineThrow e \<Rightarrow> failCall cfg e c fr)"

section \<open>Refresh and restoration\<close>

text \<open>A rejected call of the host ends with its error; nothing is published.\<close>

definition threw :: "ctl_error \<Rightarrow> frame \<Rightarrow> frame" where
  "threw e fr = goto (AtEnd (CallThrew e)) fr"

definition releasing :: "controller \<Rightarrow> controller" where
  "releasing c = c\<lparr>busy := None\<rparr>"

definition beginRefresh :: "ctl_config \<Rightarrow> controller \<Rightarrow> controller \<times> frame" where
  "beginRefresh cfg c =
    (let fr = blankFrame RestoreCall c in
     case bindR (current (epoch c) c) (\<lambda>_. throwIf (\<not> truthy (application c) \<and> \<not> truthy (applicationLookup c)
         \<or> \<not> isSet (lifecycleCapabilities cfg) \<or> isBusy c) (Refusal BranchMismatch)) of
       Inl e \<Rightarrow> (c, threw e fr)
     | Inr _ \<Rightarrow> (calling LoadCall (c\<lparr>busy := Some ''application-refresh''\<rparr>), goto AtRefresh fr))"

text \<open>A known case association may not disappear, move, or leave the submitted state.\<close>

definition refreshGuard :: "controller \<Rightarrow> jsval \<Rightarrow> ctl_error + unit" where
  "refreshGuard c receipt = throwIf (truthy (application c) \<and>
     (\<not> truthy receipt \<or> getp receipt ''caseLedgerId'' \<noteq> getp (application c) ''caseLedgerId''
      \<or> getp receipt ''draftRef'' \<noteq> getp (application c) ''draftRef''
      \<or> getp (application c) ''status'' = Str ''submitted'' \<and> getp receipt ''status'' \<noteq> Str ''submitted''))
     (Refusal ContextMismatch)"

definition refreshed :: "ctl_error + jsval \<Rightarrow> controller \<Rightarrow> frame \<Rightarrow> controller \<times> frame" where
  "refreshed v c fr =
    (case bindR v (\<lambda>receipt. bindR (current (fGeneration fr) c) (\<lambda>_. bindR (refreshGuard c receipt) (\<lambda>_. Inr receipt))) of
       Inl e \<Rightarrow> (releasing c, threw e fr)
     | Inr receipt \<Rightarrow> (releasing (republish (c\<lparr>application := (if truthy receipt then receipt else Undefined),
         applicationLookup := Undefined\<rparr>)), goto (AtEnd CallDone) fr))"

definition unrestored :: "controller \<Rightarrow> bool" where
  "unrestored c = (\<not> isSet (prepared c) \<and> \<not> isSet (signed c) \<and> \<not> isSet (saved c) \<and> \<not> isBusy c \<and> \<not> isSet (completionResult c))"

definition draftPins :: "ctl_config \<Rightarrow> jsval \<Rightarrow> bool" where
  "draftPins cfg value =
    (let ctx = controllerContext cfg; response = getp value ''response'' in
     getp response ''id'' = getp ctx ''responseId'' \<and> getp response ''definitionUrl'' = dot ctx [''definition'', ''url''] \<and>
     getp response ''definitionVersion'' = dot ctx [''definition'', ''version''] \<and>
     (truthy (dot ctx [''draftKey'', ''subjectRef'']) \<longrightarrow> actorId value = dot ctx [''draftKey'', ''subjectRef'']))"

definition beginRestoreDraft :: "ctl_config \<Rightarrow> controller \<Rightarrow> jsval \<Rightarrow> controller \<times> frame" where
  "beginRestoreDraft cfg c value =
    (let fr = blankFrame RestoreCall c in
     case bindR (current (epoch c) c) (\<lambda>_. throwIf (\<not> isSet (restoredResponse cfg) \<or> hasSignatures (restoredResponse cfg)
         \<or> truthy (dot (restoredResponse cfg) [''extensions'', ''x-formspec-signing-content'']) \<or> \<not> unrestored c
         \<or> pendingOperationId c \<noteq> None) (Refusal RestorationUnresolved)) of
       Inl e \<Rightarrow> (c, threw e fr)
     | Inr _ \<Rightarrow> if \<not> draftPins cfg value then (releasing c, threw (Refusal ContextMismatch) fr)
         else awaitEvidence AtDraftEvidence (c\<lparr>busy := Some ''draft-restoration''\<rparr>) fr value)"

definition draftRestored :: "ctl_config \<Rightarrow> ctl_error + bool \<Rightarrow> ctl_error + string \<Rightarrow> controller \<Rightarrow> frame \<Rightarrow> controller \<times> frame" where
  "draftRestored cfg valid hash c fr =
    (case evidenceAnswer cfg (restoredResponse cfg) valid hash c fr of
       Inl e \<Rightarrow> (releasing c, threw e fr)
     | Inr _ \<Rightarrow> (publish SavedPhase None (c\<lparr>saved := fResult fr, actor := actorId (fResult fr), owned := True\<rparr>), goto AtDraftCommit fr))"

definition draftCommitted :: "controller \<Rightarrow> frame \<Rightarrow> controller \<times> frame" where
  "draftCommitted c fr = (releasing c,
     (case current (fGeneration fr) c of Inl e \<Rightarrow> threw e fr | Inr _ \<Rightarrow> goto (AtEnd CallDone) fr))"

definition beginRestorePending :: "ctl_config \<Rightarrow> controller \<Rightarrow> jsval \<Rightarrow> bool \<Rightarrow> controller \<times> frame" where
  "beginRestorePending cfg c value renew =
    (let fr = (blankFrame RestoreCall c)\<lparr>fRenew := renew\<rparr> in
     case bindR (current (epoch c) c) (\<lambda>_. throwIf (completionKind cfg = Some ''task'' \<or> \<not> isSet (restoredResponse cfg)
         \<or> \<not> unrestored c \<or> \<not> restoresPending cfg \<or> \<not> same cfg (getp value ''response'') (restoredResponse cfg))
         (Refusal RestorationUnresolved)) of
       Inl e \<Rightarrow> (c, threw e fr)
     | Inr _ \<Rightarrow> awaitEvidence AtPendingEvidence c fr value)"

definition pendingChecked ::
  "ctl_config \<Rightarrow> ctl_env \<Rightarrow> ctl_error + bool \<Rightarrow> ctl_error + string \<Rightarrow> controller \<Rightarrow> frame \<Rightarrow> controller \<times> frame" where
  "pendingChecked cfg env valid hash c fr =
    (case bindR (evidenceAnswer cfg (restoredResponse cfg) valid hash c fr) (\<lambda>_.
         bindR (throwIf (case map_of (roles cfg) Sign of None \<Rightarrow> True | Some a \<Rightarrow> \<not> truthy (getp a ''requestRef''))
           (Refusal ActionUnadmitted)) (\<lambda>_. signingContext env)) of
       Inl e \<Rightarrow> (c, threw e fr)
     | Inr wording \<Rightarrow> (calling (ReconcileCall (getp (fResult fr) ''operationId'')) c, fr\<lparr>fWording := wording, fPoint := AtPendingPort\<rparr>))"

definition selectedOf :: "jsval \<Rightarrow> jsval" where
  "selectedOf result = (if getp result ''kind'' = Str ''signed'' then getp result ''signed'' else getp result ''preparation'')"

definition pendingAnswered :: "ctl_error + jsval \<Rightarrow> controller \<Rightarrow> frame \<Rightarrow> controller \<times> frame" where
  "pendingAnswered v c fr =
    (case bindR v (\<lambda>r. bindR (current (fGeneration fr) c) (\<lambda>_. Inr r)) of
       Inl e \<Rightarrow> (c, threw e fr)
     | Inr r \<Rightarrow> (c, fr\<lparr>fResult2 := r, fActor := actor c, fPoint := AtPendingSelected\<rparr>))"

text \<open>\<open>delete o[k]\<close>, and a delete below \<open>extensions\<close>.\<close>

definition delProp :: "string \<Rightarrow> jsval \<Rightarrow> jsval" where
  "delProp k v = (case v of Obj ps \<Rightarrow> Obj (filter (\<lambda>(k', _). k' \<noteq> k) ps) | _ \<Rightarrow> v)"

definition withoutSigningContent :: "jsval \<Rightarrow> jsval" where
  "withoutSigningContent response = (case response of
     Obj ps \<Rightarrow> Obj (map (\<lambda>(k, v). (k, if k = ''extensions'' then delProp ''x-formspec-signing-content'' v else v)) ps)
   | _ \<Rightarrow> response)"

definition selectedGuard :: "ctl_config \<Rightarrow> frame \<Rightarrow> ctl_error + unit" where
  "selectedGuard cfg fr =
    (let selected = selectedOf (fResult2 fr); response = getp selected ''response''; previous = getp (fResult fr) ''response'' in
     bindR (throwIf (\<not> same cfg (getp selected ''content'') (getp (fResult fr) ''content'')) (Refusal ContextMismatch)) (\<lambda>_.
     if getp (fResult2 fr) ''kind'' = Str ''signed''
     then bindR (throwIf (\<not> same cfg (delProp ''authoredSignatures'' response) (delProp ''authoredSignatures'' previous))
            (Refusal ContextMismatch)) (\<lambda>_. assertRestoredSignedResponseEvidence cfg selected (fWording fr))
     else throwIf (\<not> same cfg response (withoutSigningContent previous)
            \<or> \<not> isUuidV7IdempotencyKey (uuids cfg) (strOf (getp (fResult2 fr) ''operationId''))) (Refusal ContextMismatch)))"

definition pendingSelected :: "ctl_config \<Rightarrow> ctl_error + bool \<Rightarrow> ctl_error + string \<Rightarrow> controller \<Rightarrow> frame \<Rightarrow> controller \<times> frame" where
  "pendingSelected cfg valid hash c fr =
    (let selected = selectedOf (fResult2 fr) in
     case bindR (assertSavedResponseDraftEvidence cfg selected (getp selected ''response'') (fActor fr) valid hash) (\<lambda>_.
         bindR (current (fGeneration fr) c) (\<lambda>_. selectedGuard cfg fr)) of
       Inl e \<Rightarrow> (c, threw e fr)
     | Inr _ \<Rightarrow>
         if getp (fResult2 fr) ''kind'' = Str ''signed''
         then (publish SignedPhase None (c\<lparr>signed := selected, saved := selected, actor := actorId selected\<rparr>), goto AtRestoredCommit fr)
         else (publish PreparedPhase None (c\<lparr>prepared := selected, saved := selected, actor := actorId selected,
             pendingOperationId := Some (strOf (getp (fResult2 fr) ''operationId''))\<rparr>), goto (AtEnd CallDone) fr))"

definition beginRestoreSigned :: "ctl_config \<Rightarrow> controller \<Rightarrow> jsval \<Rightarrow> controller \<times> frame" where
  "beginRestoreSigned cfg c value =
    (let fr = blankFrame RestoreCall c in
     case bindR (current (epoch c) c) (\<lambda>_. throwIf (\<not> hasSignatures (restoredResponse cfg) \<or> \<not> unrestored c)
         (Refusal RestorationUnresolved)) of
       Inl e \<Rightarrow> (c, threw e fr)
     | Inr _ \<Rightarrow> awaitEvidence AtSignedEvidence c fr value)"

definition signedRestored ::
  "ctl_config \<Rightarrow> ctl_env \<Rightarrow> ctl_error + bool \<Rightarrow> ctl_error + string \<Rightarrow> controller \<Rightarrow> frame \<Rightarrow> controller \<times> frame" where
  "signedRestored cfg env valid hash c fr =
    (case bindR (evidenceAnswer cfg (restoredResponse cfg) valid hash c fr) (\<lambda>_.
         bindR (signingContext env) (\<lambda>wording.
         bindR (assertRestoredSignedResponseEvidence cfg (fResult fr) wording) (\<lambda>_.
         throwIf (completionKind cfg = Some ''task'' \<and>
           \<not> isOk (assertSignedTaskDraft (dot (fResult fr) [''evidence'', ''taskDraft'']) (getp (fResult fr) ''draft'')))
           (Refusal ContextMismatch)))) of
       Inl e \<Rightarrow> (c, threw e fr)
     | Inr _ \<Rightarrow> (publish SignedPhase None (c\<lparr>signed := fResult fr, saved := fResult fr, actor := actorId (fResult fr),
         owned := True\<rparr>), goto AtRestoredCommit fr))"


section \<open>Interleaving\<close>

text \<open>
  One resumption. An answer that does not fit the await leaves everything as it is; a joined
  delivery resumes with the result of the promise it joined.
\<close>

definition joined :: "ctl_config \<Rightarrow> nat \<Rightarrow> controller \<Rightarrow> frame \<Rightarrow> controller \<times> frame" where
  "joined cfg n c fr = (case map_of (promises c) n of
     None \<Rightarrow> (c, fr) | Some (Inl e) \<Rightarrow> effectFailed cfg e c fr | Some (Inr out) \<Rightarrow> (c, effectDone out fr))"

definition validated :: "ctl_config \<Rightarrow> ctl_env \<Rightarrow> ctl_error + bool \<Rightarrow> controller \<Rightarrow> frame \<Rightarrow> controller \<times> frame" where
  "validated cfg env valid c fr = (case admitPerform cfg env valid c fr of Inl e \<Rightarrow> effectFailed cfg e c fr | Inr fr' \<Rightarrow> (c, fr'))"

text \<open>An answer is taken only by an await of its kind.\<close>

definition onValid :: "answer \<Rightarrow> 'r \<Rightarrow> (ctl_error + bool \<Rightarrow> 'r) \<Rightarrow> 'r" where
  "onValid a r k = (case a of Valid v \<Rightarrow> k v | _ \<Rightarrow> r)"

definition onHash :: "answer \<Rightarrow> 'r \<Rightarrow> (ctl_error + string \<Rightarrow> 'r) \<Rightarrow> 'r" where
  "onHash a r k = (case a of Hash v \<Rightarrow> k v | _ \<Rightarrow> r)"

definition onValue :: "answer \<Rightarrow> 'r \<Rightarrow> (ctl_error + jsval \<Rightarrow> 'r) \<Rightarrow> 'r" where
  "onValue a r k = (case a of Value v \<Rightarrow> k v | _ \<Rightarrow> r)"

definition onChecked :: "answer \<Rightarrow> 'r \<Rightarrow> (ctl_error + bool \<Rightarrow> ctl_error + string \<Rightarrow> 'r) \<Rightarrow> 'r" where
  "onChecked a r k = (case a of Checked v h \<Rightarrow> k v h | _ \<Rightarrow> r)"

definition onEngine :: "answer \<Rightarrow> 'r \<Rightarrow> (engine_event \<Rightarrow> 'r) \<Rightarrow> 'r" where
  "onEngine a r k = (case a of Engine e \<Rightarrow> k e | _ \<Rightarrow> r)"

definition onResolved :: "answer \<Rightarrow> 'r \<Rightarrow> 'r \<Rightarrow> 'r" where
  "onResolved a r k = (case a of Resolved \<Rightarrow> k | _ \<Rightarrow> r)"

lemmas on_defs = onValid_def onHash_def onValue_def onChecked_def onEngine_def onResolved_def

definition resume :: "ctl_config \<Rightarrow> ctl_env \<Rightarrow> answer \<Rightarrow> controller \<Rightarrow> frame \<Rightarrow> controller \<times> frame" where
  "resume cfg env a c fr =
    (case fPoint fr of
       AtWidgetValidation \<Rightarrow> onValid a (c, fr) (\<lambda>r. widgetChecked cfg r c fr)
     | AtFrozenValidation \<Rightarrow> onValue a (c, fr) (\<lambda>v. widgetValidated cfg v c fr)
     | AtEngine r \<Rightarrow> onEngine a (c, fr) (\<lambda>ev. engineCalls cfg ev c fr)
     | AtValidation \<Rightarrow> onValid a (c, fr) (\<lambda>r. validated cfg env r c fr)
     | AtHash \<Rightarrow> onHash a (c, fr) (\<lambda>h. hashedPerform cfg env h c fr)
     | AtJoin n \<Rightarrow> onResolved a (c, fr) (joined cfg n c fr)
     | AtCheckpointSave \<Rightarrow> onValue a (c, fr) (\<lambda>v. checkpointSaved v c fr)
     | AtCheckpointEvidence \<Rightarrow> onChecked a (c, fr) (\<lambda>v h. checkpointChecked cfg v h c fr)
     | AtCheckpointCommit \<Rightarrow> onResolved a (c, fr) (checkpointCommitted c fr)
     | AtStart \<Rightarrow> onValue a (c, fr) (\<lambda>v. started cfg v c fr)
     | AtSave \<Rightarrow> onValue a (c, fr) (\<lambda>v. portAnswer c fr v (awaitEvidence AtSaveEvidence c fr))
     | AtSaveEvidence \<Rightarrow> onChecked a (c, fr) (\<lambda>v h. savedChecked cfg v h c fr)
     | AtPrepare \<Rightarrow> onValue a (c, fr) (\<lambda>v. portAnswer c fr v (awaitEvidence AtPrepareEvidence c fr))
     | AtPrepareEvidence \<Rightarrow> onChecked a (c, fr) (\<lambda>v h. preparedChecked cfg v h c fr)
     | AtSign \<Rightarrow> onValue a (c, fr) (\<lambda>v. portAnswer c fr v (awaitEvidence AtSignEvidence c fr))
     | AtSignEvidence \<Rightarrow> onChecked a (c, fr) (\<lambda>v h. signatureChecked cfg v h c fr)
     | AtSubmitOptions \<Rightarrow> onValue a (c, fr) (\<lambda>v. submitOptions cfg v c fr)
     | AtCapture \<Rightarrow> onValue a (c, fr) (\<lambda>v. captured cfg env v c fr)
     | AtComplete \<Rightarrow> onValue a (c, fr) (\<lambda>v. submitted cfg v c fr)
     | AtCommit out \<Rightarrow> onResolved a (c, fr) (settle (Inr out) c fr)
     | AtFinally r \<Rightarrow> onResolved a (c, fr) (finishOperation cfg r c fr)
     | AtRefresh \<Rightarrow> onValue a (c, fr) (\<lambda>v. refreshed v c fr)
     | AtDraftEvidence \<Rightarrow> onChecked a (c, fr) (\<lambda>v h. draftRestored cfg v h c fr)
     | AtDraftCommit \<Rightarrow> onResolved a (c, fr) (draftCommitted c fr)
     | AtPendingEvidence \<Rightarrow> onChecked a (c, fr) (\<lambda>v h. pendingChecked cfg env v h c fr)
     | AtPendingPort \<Rightarrow> onValue a (c, fr) (\<lambda>v. pendingAnswered v c fr)
     | AtPendingSelected \<Rightarrow> onChecked a (c, fr) (\<lambda>v h. pendingSelected cfg v h c fr)
     | AtSignedEvidence \<Rightarrow> onChecked a (c, fr) (\<lambda>v h. signedRestored cfg env v h c fr)
     | AtRestoredCommit \<Rightarrow> onResolved a (c, fr) (c, goto (AtEnd CallDone) fr)
     | AtEnd _ \<Rightarrow> (c, fr))"

record system =
  ctl :: controller
  calls :: "frame list"

text \<open>
  The calls of the host. \<open>retrySign\<close> returns the attempt that runs already; it refuses, throwing
  to its caller, without a retryable act or while an operation is pending.
\<close>

datatype ctl_action =
    Definition "string option" jsval jsval jsval
  | Widget jsval
  | RetrySign
  | RetireSignRetry
  | Refresh
  | RestoreDraft jsval
  | RestorePending jsval bool
  | RestoreSigned jsval
  | Invalidate
  | Resume nat answer

definition enter :: "controller \<times> frame \<Rightarrow> system \<Rightarrow> system" where
  "enter r s = \<lparr>ctl = fst r, calls = calls s @ [snd r]\<rparr>"

definition hasEnded :: "frame \<Rightarrow> bool" where
  "hasEnded fr = (case fPoint fr of AtEnd _ \<Rightarrow> True | _ \<Rightarrow> False)"

definition retrySign :: "ctl_config \<Rightarrow> system \<Rightarrow> system" where
  "retrySign cfg s =
    (let c = ctl s in
     if retryingSign c \<or> invalidated c then s
     else case retryableSign c of
       None \<Rightarrow> s
     | Some x \<Rightarrow> if isBusy c \<or> \<not> reconcileSignRetries cfg then s
         else (let (c, fr) = beginWidget cfg c (retryRequest x) True in
           enter (c\<lparr>retryingSign := \<not> hasEnded fr\<rparr>, fr) s))"

definition resumeCall :: "ctl_config \<Rightarrow> ctl_env \<Rightarrow> nat \<Rightarrow> answer \<Rightarrow> system \<Rightarrow> system" where
  "resumeCall cfg env i a s =
    (if i < length (calls s)
     then (let (c, fr) = resume cfg env a (ctl s) (calls s ! i);
               c = (if fIsRetry fr \<and> hasEnded fr \<and> \<not> hasEnded (calls s ! i) then c\<lparr>retryingSign := False\<rparr> else c) in
           \<lparr>ctl = c, calls = (calls s)[i := fr]\<rparr>)
     else s)"

definition ctlStep :: "ctl_config \<Rightarrow> ctl_env \<Rightarrow> ctl_action \<Rightarrow> system \<Rightarrow> system" where
  "ctlStep cfg env act s =
    (case act of
       Definition iid document actionRef nodeId \<Rightarrow> enter (beginDefinition cfg env (ctl s) iid document actionRef nodeId) s
     | Widget input \<Rightarrow> enter (beginWidget cfg (ctl s) input False) s
     | RetrySign \<Rightarrow> retrySign cfg s
     | RetireSignRetry \<Rightarrow> s\<lparr>ctl := republish (retireSignRetry (ctl s))\<rparr>
     | Refresh \<Rightarrow> enter (beginRefresh cfg (ctl s)) s
     | RestoreDraft v \<Rightarrow> enter (beginRestoreDraft cfg (ctl s) v) s
     | RestorePending v renew \<Rightarrow> enter (beginRestorePending cfg (ctl s) v renew) s
     | RestoreSigned v \<Rightarrow> enter (beginRestoreSigned cfg (ctl s) v) s
     | Invalidate \<Rightarrow> s\<lparr>ctl := invalidate (ctl s)\<rparr>
     | Resume i a \<Rightarrow> resumeCall cfg env i a s)"

definition run :: "ctl_config \<Rightarrow> (ctl_env \<times> ctl_action) list \<Rightarrow> system \<Rightarrow> system" where
  "run cfg acts s = fold (\<lambda>(env, act). ctlStep cfg env act) acts s"

definition initialSystem :: "ctl_config \<Rightarrow> system" where
  "initialSystem cfg = \<lparr>ctl = initialController cfg, calls = []\<rparr>"

end
