(* ===== verification/Controller_Safety.thy ===== *)
theory Controller_Safety
  imports Response_Calls
begin

text \<open>
  What the response-action controller guarantees whatever its calls interleave, whatever its ports
  answer and in whatever order: an obsolete controller is silent, one operation runs at a time, a
  completed delivery is never executed again, a delivery keeps its operation key, a confirmed
  submission is final, and every dispatched effect returns.
\<close>


section \<open>The state each helper leaves alone\<close>

lemma publish_sel [simp]:
  "busy (publish p r c) = busy c" "portCalls (publish p r c) = portCalls c"
  "invalidated (publish p r c) = invalidated c" "epoch (publish p r c) = epoch c"
  "deliveries (publish p r c) = deliveries c" "completionResult (publish p r c) = completionResult c"
  "promises (publish p r c) = promises c" "nextObject (publish p r c) = nextObject c"
  by (simp_all add: publish_def)

lemma republish_sel [simp]:
  "busy (republish c) = busy c" "portCalls (republish c) = portCalls c"
  "invalidated (republish c) = invalidated c" "epoch (republish c) = epoch c"
  "deliveries (republish c) = deliveries c" "completionResult (republish c) = completionResult c"
  "promises (republish c) = promises c" "nextObject (republish c) = nextObject c"
  by (simp_all add: republish_def)

lemma calling_sel [simp]:
  "busy (calling p c) = busy c" "portCalls (calling p c) = portCalls c @ [p]"
  "invalidated (calling p c) = invalidated c" "epoch (calling p c) = epoch c"
  "deliveries (calling p c) = deliveries c" "completionResult (calling p c) = completionResult c"
  "promises (calling p c) = promises c" "nextObject (calling p c) = nextObject c"
  by (simp_all add: calling_def)

lemma onDelivery_sel [simp]:
  "busy (onDelivery d f c) = busy c" "portCalls (onDelivery d f c) = portCalls c"
  "invalidated (onDelivery d f c) = invalidated c" "epoch (onDelivery d f c) = epoch c"
  "completionResult (onDelivery d f c) = completionResult c" "promises (onDelivery d f c) = promises c"
  "nextObject (onDelivery d f c) = nextObject c"
  by (simp_all add: onDelivery_def)

lemma retireSignRetry_sel [simp]:
  "busy (retireSignRetry c) = busy c" "portCalls (retireSignRetry c) = portCalls c"
  "invalidated (retireSignRetry c) = invalidated c" "epoch (retireSignRetry c) = epoch c"
  "completionResult (retireSignRetry c) = completionResult c" "promises (retireSignRetry c) = promises c"
  "nextObject (retireSignRetry c) = nextObject c"
  by (simp_all add: retireSignRetry_def)

lemma putDelivery_sel [simp]:
  "busy (putDelivery d x c) = busy c" "portCalls (putDelivery d x c) = portCalls c"
  "invalidated (putDelivery d x c) = invalidated c" "epoch (putDelivery d x c) = epoch c"
  "completionResult (putDelivery d x c) = completionResult c" "promises (putDelivery d x c) = promises c"
  "nextObject (putDelivery d x c) = nextObject c"
  by (simp_all add: putDelivery_def)

lemma releasing_sel [simp]:
  "busy (releasing c) = None" "portCalls (releasing c) = portCalls c"
  "invalidated (releasing c) = invalidated c" "epoch (releasing c) = epoch c"
  "deliveries (releasing c) = deliveries c" "completionResult (releasing c) = completionResult c"
  "promises (releasing c) = promises c" "nextObject (releasing c) = nextObject c"
  by (simp_all add: releasing_def)

lemma retainRetry_sel [simp]:
  "busy (retainRetry fr c) = busy c" "portCalls (retainRetry fr c) = portCalls c"
  "invalidated (retainRetry fr c) = invalidated c" "epoch (retainRetry fr c) = epoch c"
  "deliveries (retainRetry fr c) = deliveries c" "completionResult (retainRetry fr c) = completionResult c"
  "promises (retainRetry fr c) = promises c" "nextObject (retainRetry fr c) = nextObject c"
  by (simp_all add: retainRetry_def Let_def)

lemma failWith_sel [simp]:
  "busy (fst (failWith cfg e g c)) = busy c" "portCalls (fst (failWith cfg e g c)) = portCalls c"
  "invalidated (fst (failWith cfg e g c)) = invalidated c" "epoch (fst (failWith cfg e g c)) = epoch c"
  "deliveries (fst (failWith cfg e g c)) = deliveries c" "completionResult (fst (failWith cfg e g c)) = completionResult c"
  "promises (fst (failWith cfg e g c)) = promises c" "nextObject (fst (failWith cfg e g c)) = nextObject c"
  by (simp_all add: failWith_def Let_def)

lemma widgetReturned_sel [simp]:
  "busy (fst (widgetReturned cfg st v c fr)) = busy c" "portCalls (fst (widgetReturned cfg st v c fr)) = portCalls c"
  "invalidated (fst (widgetReturned cfg st v c fr)) = invalidated c"
  "epoch (fst (widgetReturned cfg st v c fr)) = epoch c"
  "deliveries (fst (widgetReturned cfg st v c fr)) = deliveries c"
  "completionResult (fst (widgetReturned cfg st v c fr)) = completionResult c"
  by (simp_all add: widgetReturned_def failCall_def case_prod_beta Let_def)

lemma goto_sel [simp]:
  "fPoint (goto p fr) = p" "fDelivery (goto p fr) = fDelivery fr" "fGeneration (goto p fr) = fGeneration fr"
  "fKind (goto p fr) = fKind fr" "fRole (goto p fr) = fRole fr" "fPromise (goto p fr) = fPromise fr"
  by (simp_all add: goto_def)

lemma widgetReturned_point: "\<exists>o1. snd (widgetReturned cfg st v c fr) = goto (AtEnd o1) fr"
  by (auto simp: widgetReturned_def failCall_def case_prod_beta Let_def)

lemma effectFailed_eq: "effectFailed cfg e c fr =
    (fst (failWith cfg e (fGeneration fr) c), goto (AtEngine (Some (Inl (snd (failWith cfg e (fGeneration fr) c))))) fr)"
  by (simp add: effectFailed_def case_prod_beta Let_def)

lemma failCall_eq: "failCall cfg e c fr =
    (fst (failWith cfg e (fGeneration fr) c), goto (AtEnd (CallFailed (snd (failWith cfg e (fGeneration fr) c)))) fr)"
  by (simp add: failCall_def case_prod_beta Let_def)

lemma current_Inr: "current g c = Inr u \<longleftrightarrow> \<not> invalidated c \<and> g = epoch c"
  by (simp add: current_def)

lemma current_obsolete [simp]: "invalidated c \<Longrightarrow> current g c = Inl (Refusal ContextObsolete)"
  by (simp add: current_def)

lemma blankFrame_sel [simp]:
  "fPoint (blankFrame k c) = AtEnd CallDone" "fGeneration (blankFrame k c) = epoch c" "fKind (blankFrame k c) = k"
  "fIsRetry (blankFrame k c) = False"
  by (simp_all add: blankFrame_def)

lemmas segment_defs =
  settle_def finishOperation_def effectFailed_eq effectDone_def failCall_eq startPerform_def validated_def
  hashedPerform_def runDelivery_def joined_def callStart_def beginStart_def beginSign_def completeNow_def
  beginOperation_def commit_def portAnswer_def awaitEvidence_def evidenceAnswer_def checkpointSaved_def
  checkpointChecked_def checkpointCommitted_def started_def savedChecked_def preparedChecked_def
  signatureChecked_def submitOptions_def captured_def submitted_def beginDefinition_def beginWidget_def
  widgetValidated_def widgetChecked_def dispatchEffect_def engineCalls_def
  threw_def beginRefresh_def refreshed_def beginRestoreDraft_def draftRestored_def draftCommitted_def
  beginRestorePending_def pendingChecked_def pendingAnswered_def pendingSelected_def beginRestoreSigned_def
  signedRestored_def

text \<open>A resumption is one of the segments.\<close>

lemma onValid_split: "P (onValid a r k) \<longleftrightarrow> (\<forall>v. a = Valid v \<longrightarrow> P (k v)) \<and> ((\<forall>v. a \<noteq> Valid v) \<longrightarrow> P r)"
  by (cases a) (simp_all add: onValid_def)

lemma onHash_split: "P (onHash a r k) \<longleftrightarrow> (\<forall>v. a = Hash v \<longrightarrow> P (k v)) \<and> ((\<forall>v. a \<noteq> Hash v) \<longrightarrow> P r)"
  by (cases a) (simp_all add: onHash_def)

lemma onValue_split: "P (onValue a r k) \<longleftrightarrow> (\<forall>v. a = Value v \<longrightarrow> P (k v)) \<and> ((\<forall>v. a \<noteq> Value v) \<longrightarrow> P r)"
  by (cases a) (simp_all add: onValue_def)

lemma onEngine_split: "P (onEngine a r k) \<longleftrightarrow> (\<forall>v. a = Engine v \<longrightarrow> P (k v)) \<and> ((\<forall>v. a \<noteq> Engine v) \<longrightarrow> P r)"
  by (cases a) (simp_all add: onEngine_def)

lemma onChecked_split: "P (onChecked a r k) \<longleftrightarrow> (\<forall>v h. a = Checked v h \<longrightarrow> P (k v h)) \<and> ((\<forall>v h. a \<noteq> Checked v h) \<longrightarrow> P r)"
  by (cases a) (simp_all add: onChecked_def)

lemma onResolved_split: "P (onResolved a r k) \<longleftrightarrow> (a = Resolved  \<longrightarrow> P (k)) \<and> ((a \<noteq> Resolved ) \<longrightarrow> P r)"
  by (cases a) (simp_all add: onResolved_def)

lemmas on_split = onValid_split onHash_split onValue_split onEngine_split onChecked_split onResolved_split

lemma resume_P:
  assumes "P (c, fr)"
    and "\<And>r. fPoint fr = AtWidgetValidation \<Longrightarrow> P (widgetChecked cfg r c fr)"
    and "\<And>v. fPoint fr = AtFrozenValidation \<Longrightarrow> P (widgetValidated cfg v c fr)"
    and "\<And>p ev. fPoint fr = AtEngine p \<Longrightarrow> P (engineCalls cfg ev c fr)"
    and "\<And>r. fPoint fr = AtValidation \<Longrightarrow> P (validated cfg env r c fr)"
    and "\<And>h. fPoint fr = AtHash \<Longrightarrow> P (hashedPerform cfg env h c fr)"
    and "\<And>n. fPoint fr = AtJoin n \<Longrightarrow> P (joined cfg n c fr)"
    and "\<And>v. fPoint fr = AtCheckpointSave \<Longrightarrow> P (checkpointSaved v c fr)"
    and "\<And>v h. fPoint fr = AtCheckpointEvidence \<Longrightarrow> P (checkpointChecked cfg v h c fr)"
    and "fPoint fr = AtCheckpointCommit \<Longrightarrow> P (checkpointCommitted c fr)"
    and "\<And>v. fPoint fr = AtStart \<Longrightarrow> P (started cfg v c fr)"
    and "\<And>v. fPoint fr = AtSave \<Longrightarrow> P (portAnswer c fr v (awaitEvidence AtSaveEvidence c fr))"
    and "\<And>v h. fPoint fr = AtSaveEvidence \<Longrightarrow> P (savedChecked cfg v h c fr)"
    and "\<And>v. fPoint fr = AtPrepare \<Longrightarrow> P (portAnswer c fr v (awaitEvidence AtPrepareEvidence c fr))"
    and "\<And>v h. fPoint fr = AtPrepareEvidence \<Longrightarrow> P (preparedChecked cfg v h c fr)"
    and "\<And>v. fPoint fr = AtSign \<Longrightarrow> P (portAnswer c fr v (awaitEvidence AtSignEvidence c fr))"
    and "\<And>v h. fPoint fr = AtSignEvidence \<Longrightarrow> P (signatureChecked cfg v h c fr)"
    and "\<And>v. fPoint fr = AtSubmitOptions \<Longrightarrow> P (submitOptions cfg v c fr)"
    and "\<And>v. fPoint fr = AtCapture \<Longrightarrow> P (captured cfg env v c fr)"
    and "\<And>v. fPoint fr = AtComplete \<Longrightarrow> P (submitted cfg v c fr)"
    and "\<And>out. fPoint fr = AtCommit out \<Longrightarrow> P (settle (Inr out) c fr)"
    and "\<And>r. fPoint fr = AtFinally r \<Longrightarrow> P (finishOperation cfg r c fr)"
    and "\<And>v. fPoint fr = AtRefresh \<Longrightarrow> P (refreshed v c fr)"
    and "\<And>v h. fPoint fr = AtDraftEvidence \<Longrightarrow> P (draftRestored cfg v h c fr)"
    and "fPoint fr = AtDraftCommit \<Longrightarrow> P (draftCommitted c fr)"
    and "\<And>v h. fPoint fr = AtPendingEvidence \<Longrightarrow> P (pendingChecked cfg env v h c fr)"
    and "\<And>v. fPoint fr = AtPendingPort \<Longrightarrow> P (pendingAnswered v c fr)"
    and "\<And>v h. fPoint fr = AtPendingSelected \<Longrightarrow> P (pendingSelected cfg v h c fr)"
    and "\<And>v h. fPoint fr = AtSignedEvidence \<Longrightarrow> P (signedRestored cfg env v h c fr)"
    and "fPoint fr = AtRestoredCommit \<Longrightarrow> P ((c, goto (AtEnd CallDone) fr))"
  shows "P (resume cfg env a c fr)"
  by (cases "fPoint fr") (simp_all add: resume_def assms split: on_split)

section \<open>An obsolete controller is silent\<close>

definition silent :: "controller \<Rightarrow> controller \<times> frame \<Rightarrow> bool" where
  "silent c r = (invalidated (fst r) \<and> portCalls (fst r) = portCalls c)"

lemma engineCalls_silent: "invalidated c \<Longrightarrow> silent c (engineCalls cfg ev c fr)"
  by (cases ev) (simp_all add: silent_def segment_defs Let_def split: sum.split option.split)

lemma resume_silent: "invalidated c \<Longrightarrow> silent c (resume cfg env a c fr)"
  by (rule resume_P, simp_all only: engineCalls_silent)
    (simp_all add: silent_def segment_defs bindR_Inr_iff Let_def split: sum.split option.split)
lemma begin_silent:
  assumes "invalidated c"
  shows "silent c (beginDefinition cfg env c iid document actionRef nodeId)" "silent c (beginWidget cfg c input b)"
    "silent c (beginRefresh cfg c)" "silent c (beginRestoreDraft cfg c v)" "silent c (beginRestorePending cfg c v renew)"
    "silent c (beginRestoreSigned cfg c v)"
  using assms by (simp_all add: silent_def segment_defs admitDefinition_def Let_def)

lemma step_silent:
  assumes "invalidated (ctl s)"
  shows "invalidated (ctl (ctlStep cfg env act s)) \<and> portCalls (ctl (ctlStep cfg env act s)) = portCalls (ctl s)"
proof (cases act)
  case (Resume i a)
  then show ?thesis using resume_silent [OF assms, of cfg env a "calls s ! i"] assms
    by (auto simp: ctlStep_def resumeCall_def silent_def Let_def split: prod.split)
next
  case RetrySign
  then show ?thesis using assms by (simp add: ctlStep_def retrySign_def Let_def)
qed (use begin_silent [OF assms] assms in \<open>auto simp: ctlStep_def enter_def silent_def invalidate_def\<close>)

lemma run_Nil [simp]: "run cfg [] s = s"
  by (simp add: run_def)

lemma run_Cons [simp]: "run cfg ((env, act) # acts) s = run cfg acts (ctlStep cfg env act s)"
  by (simp add: run_def)

lemma run_append: "run cfg (as @ bs) s = run cfg bs (run cfg as s)"
  by (simp add: run_def)

lemma run_silent:
  "invalidated (ctl s) \<Longrightarrow> invalidated (ctl (run cfg acts s)) \<and> portCalls (ctl (run cfg acts s)) = portCalls (ctl s)"
proof (induction acts arbitrary: s)
  case (Cons x acts)
  then show ?case using step_silent [OF Cons.prems, of cfg "fst x" "snd x"] by (cases x) simp
qed simp

text \<open>C21. A retired controller is silent: once the owner has invalidated it, no port is called again,
  whatever calls were in flight, whatever they are answered, and whatever is called afterwards.\<close>

theorem obsolete_controller_is_silent:
  "portCalls (ctl (run cfg acts (ctlStep cfg env Invalidate s))) = portCalls (ctl s)"
  using run_silent [of "ctlStep cfg env Invalidate s" cfg acts] by (simp add: ctlStep_def invalidate_def)

section \<open>One operation at a time\<close>

text \<open>
  The points inside the promise of a delivery. A call holds the busy flag there, and so do a refresh
  and the restoration of a draft, under a name of their own.
\<close>

definition inOperation :: "point \<Rightarrow> bool" where
  "inOperation p = (case p of
     AtCheckpointSave \<Rightarrow> True | AtCheckpointEvidence \<Rightarrow> True | AtCheckpointCommit \<Rightarrow> True | AtStart \<Rightarrow> True
   | AtSave \<Rightarrow> True | AtSaveEvidence \<Rightarrow> True | AtPrepare \<Rightarrow> True | AtPrepareEvidence \<Rightarrow> True
   | AtSign \<Rightarrow> True | AtSignEvidence \<Rightarrow> True | AtSubmitOptions \<Rightarrow> True | AtCapture \<Rightarrow> True | AtComplete \<Rightarrow> True
   | AtCommit _ \<Rightarrow> True | AtFinally _ \<Rightarrow> True | _ \<Rightarrow> False)"

definition holds :: "frame \<Rightarrow> bool" where
  "holds fr = (inOperation (fPoint fr) \<or> fPoint fr \<in> {AtRefresh, AtDraftEvidence, AtDraftCommit})"

definition holdTag :: "frame \<Rightarrow> string" where
  "holdTag fr = (case fPoint fr of AtRefresh \<Rightarrow> ''application-refresh'' | AtDraftEvidence \<Rightarrow> ''draft-restoration''
     | AtDraftCommit \<Rightarrow> ''draft-restoration'' | _ \<Rightarrow> fDelivery fr)"

definition takes :: "controller \<Rightarrow> frame \<Rightarrow> controller \<times> frame \<Rightarrow> bool" where
  "takes c fr r = (fDelivery (snd r) = fDelivery fr \<and>
     (if holds fr then busy c = Some (holdTag fr) \<longrightarrow>
        (if holds (snd r) then holdTag (snd r) = holdTag fr \<and> busy (fst r) = busy c else busy (fst r) = None)
      else if holds (snd r) then \<not> isBusy c \<and> busy (fst r) = Some (holdTag (snd r)) else busy (fst r) = busy c))"

lemma admitDelivery_idle: "admitDelivery cfg env c fr h = Inr (Runs x) \<Longrightarrow> \<not> isBusy c"
  by (auto simp: admitDelivery_def Let_def bindR_Inr_iff check_simps split: option.splits if_splits)

lemma admitPerform_Inr:
  "admitPerform cfg env valid c fr = Inr fr' \<Longrightarrow> fDelivery fr' = fDelivery fr \<and> fPoint fr' = AtHash"
  by (auto simp: admitPerform_def bindR_Inr_iff Let_def)

lemma inOperation_simps [simp]:
  "inOperation AtCheckpointSave" "inOperation AtCheckpointEvidence" "inOperation AtCheckpointCommit" "inOperation AtStart"
  "inOperation AtSave" "inOperation AtSaveEvidence" "inOperation AtPrepare" "inOperation AtPrepareEvidence"
  "inOperation AtSign" "inOperation AtSignEvidence" "inOperation AtSubmitOptions" "inOperation AtCapture"
  "inOperation AtComplete" "inOperation (AtCommit out)" "inOperation (AtFinally r)"
  "\<not> inOperation AtWidgetValidation" "\<not> inOperation AtFrozenValidation" "\<not> inOperation (AtEngine o1)"
  "\<not> inOperation AtValidation" "\<not> inOperation AtHash" "\<not> inOperation (AtJoin n)" "\<not> inOperation AtRefresh"
  "\<not> inOperation AtDraftEvidence" "\<not> inOperation AtDraftCommit" "\<not> inOperation AtPendingEvidence"
  "\<not> inOperation AtPendingPort" "\<not> inOperation AtPendingSelected" "\<not> inOperation AtSignedEvidence"
  "\<not> inOperation AtRestoredCommit" "\<not> inOperation (AtEnd o2)"
  by (simp_all add: inOperation_def)

lemma beginOperation_takes:
  assumes "fDelivery fr' = fDelivery fr"
  shows "let r = beginOperation cfg env c fr' in fDelivery (snd r) = fDelivery fr \<and> inOperation (fPoint (snd r)) \<and> busy (fst r) = busy c"
  using assms by (simp add: segment_defs Let_def split: sum.split option.split role.split)

lemma holdTag_simps:
  "inOperation (fPoint fr) \<Longrightarrow> holdTag fr = fDelivery fr"
  "fPoint fr = AtRefresh \<Longrightarrow> holdTag fr = ''application-refresh''"
  "fPoint fr = AtDraftEvidence \<Longrightarrow> holdTag fr = ''draft-restoration''"
  "fPoint fr = AtDraftCommit \<Longrightarrow> holdTag fr = ''draft-restoration''"
  by (simp_all add: holdTag_def inOperation_def split: point.splits)

lemmas hold_simps = takes_def holds_def holdTag_simps

lemma inOperation_tag: "inOperation (fPoint fr) \<Longrightarrow> holds fr \<and> holdTag fr = fDelivery fr"
  by (simp add: hold_simps)

lemma runDelivery_takes:
  assumes "\<not> holds fr" "\<not> isBusy c"
  shows "takes c fr (runDelivery cfg env x c fr)"
  using assms beginOperation_takes [of "fr\<lparr>fPromise := nextObject c\<rparr>" fr cfg env]
  by (simp add: runDelivery_def takes_def inOperation_tag Let_def)

lemma hashedPerform_takes:
  assumes p: "fPoint fr = AtHash"
  shows "takes c fr (hashedPerform cfg env h c fr)"
proof (cases "bindR h (\<lambda>x. bindR (current (fGeneration fr) c) (\<lambda>_. admitDelivery cfg env c fr x))")
  case (Inl e)
  then show ?thesis using p by (simp add: hashedPerform_def effectFailed_eq hold_simps)
next
  case (Inr s)
  show ?thesis
  proof (cases s)
    case (Runs x)
    then have "\<not> isBusy c" using Inr by (auto simp: bindR_Inr_iff dest: admitDelivery_idle)
    then show ?thesis using Inr Runs p by (simp add: hashedPerform_def runDelivery_takes holds_def)
  qed (use Inr p in \<open>simp_all add: hashedPerform_def effectDone_def hold_simps\<close>)
qed

lemma validated_takes: "fPoint fr = AtValidation \<Longrightarrow> takes c fr (validated cfg env v c fr)"
  by (auto simp: validated_def effectFailed_eq hold_simps dest!: admitPerform_Inr split: sum.splits)

lemma dispatchEffect_takes: "fPoint fr = AtEngine p \<Longrightarrow> takes c fr (dispatchEffect cfg v c fr)"
  by (simp add: dispatchEffect_def startPerform_def effectFailed_eq hold_simps split: sum.split option.split)

lemma widgetReturned_takes: "fPoint fr = AtEngine p \<Longrightarrow> takes c fr (widgetReturned cfg st v c fr)"
  using widgetReturned_point [of cfg st v c fr] by (auto simp: hold_simps)

lemma engineCalls_takes: "fPoint fr = AtEngine p \<Longrightarrow> takes c fr (engineCalls cfg ev c fr)"
  by (cases ev) (simp_all add: engineCalls_def failCall_eq dispatchEffect_takes widgetReturned_takes, simp_all add: hold_simps)

lemma portAnswer_takes:
  "fPoint fr \<in> {AtSave, AtPrepare, AtSign} \<Longrightarrow> p \<in> {AtSaveEvidence, AtPrepareEvidence, AtSignEvidence} \<Longrightarrow>
   takes c fr (portAnswer c fr v (awaitEvidence p c fr))"
  by (auto simp: portAnswer_def awaitEvidence_def settle_def hold_simps split: sum.split)

lemma resume_takes: "takes c fr (resume cfg env a c fr)"
  apply (rule resume_P, simp_all only: engineCalls_takes hashedPerform_takes validated_takes)
  apply (simp_all add: segment_defs hold_simps Let_def split: sum.split option.split)
  done

text \<open>
  Reachable states. The busy flag is the invocation id of the running delivery and is tested for
  truth, so it cannot hold the empty id; \<open>namedCalls\<close> says that no call carries it. Calls keep their
  id, so a state with named calls was reached through such states only.
\<close>

definition namedCalls :: "system \<Rightarrow> bool" where
  "namedCalls s = (\<forall>fr\<in>set (calls s). fDelivery fr \<noteq> [])"

inductive reach :: "ctl_config \<Rightarrow> system \<Rightarrow> bool" for cfg where
  start: "reach cfg (initialSystem cfg)"
| step: "reach cfg s \<Longrightarrow> reach cfg (ctlStep cfg env act s)"

inductive namedReach :: "ctl_config \<Rightarrow> system \<Rightarrow> bool" for cfg where
  reach_init: "namedReach cfg (initialSystem cfg)"
| reach_step: "namedReach cfg s \<Longrightarrow> namedCalls (ctlStep cfg env act s) \<Longrightarrow> namedReach cfg (ctlStep cfg env act s)"

lemma enter_named: "namedCalls (enter r s) \<Longrightarrow> namedCalls s"
  by (simp add: namedCalls_def enter_def)

lemma resumeCall_named:
  assumes "namedCalls (resumeCall cfg env i a s)"
  shows "namedCalls s"
proof (cases "i < length (calls s)")
  case True
  obtain c' fr' where r: "resume cfg env a (ctl s) (calls s ! i) = (c', fr')" by fastforce
  have d: "fDelivery fr' = fDelivery (calls s ! i)"
    using resume_takes [of "ctl s" "calls s ! i" cfg env a] by (simp add: r takes_def)
  have named: "\<And>k. k < length (calls s) \<Longrightarrow> fDelivery ((calls s)[i := fr'] ! k) \<noteq> []"
    using assms True by (auto simp: namedCalls_def resumeCall_def r all_set_conv_all_nth)
  have "fDelivery (calls s ! k) \<noteq> []" if "k < length (calls s)" for k
    using named [OF that] d that True by (cases "k = i") auto
  then show ?thesis by (auto simp: namedCalls_def all_set_conv_all_nth)
qed (use assms in \<open>simp add: resumeCall_def\<close>)

lemma step_named: "namedCalls (ctlStep cfg env act s) \<Longrightarrow> namedCalls s"
proof (cases act)
  case (Resume i a)
  then show "namedCalls (ctlStep cfg env act s) \<Longrightarrow> namedCalls s" by (auto simp: ctlStep_def dest: resumeCall_named)
next
  case RetrySign
  then show "namedCalls (ctlStep cfg env act s) \<Longrightarrow> namedCalls s"
    by (auto simp: ctlStep_def retrySign_def Let_def case_prod_beta dest!: enter_named split: option.splits prod.splits if_splits)
qed (auto simp: ctlStep_def invalidate_def dest!: enter_named, auto simp: namedCalls_def)

lemma reach_namedReach: "reach cfg s \<Longrightarrow> namedCalls s \<Longrightarrow> namedReach cfg s"
  by (induction rule: reach.induct) (auto intro: reach_init reach_step dest: step_named)

lemma namedReach_reach: "namedReach cfg s \<Longrightarrow> reach cfg s"
  by (induction rule: namedReach.induct) (auto intro: reach.intros)

lemma reach_named: "namedReach cfg s \<Longrightarrow> namedCalls s"
  by (induction rule: namedReach.induct) (simp_all add: namedCalls_def initialSystem_def)

definition exclusive :: "system \<Rightarrow> bool" where
  "exclusive s = (\<forall>i<length (calls s). holds (calls s ! i) \<longrightarrow>
     busy (ctl s) = Some (holdTag (calls s ! i)) \<and> (\<forall>j<length (calls s). holds (calls s ! j) \<longrightarrow> j = i))"

lemma holdTag_named: "fDelivery fr \<noteq> [] \<Longrightarrow> holdTag fr \<noteq> []"
  by (cases "fPoint fr") (simp_all add: holdTag_def)

lemma exclusive_idle:
  "exclusive s \<Longrightarrow> namedCalls s \<Longrightarrow> \<not> isBusy (ctl s) \<Longrightarrow> i < length (calls s) \<Longrightarrow> \<not> holds (calls s ! i)"
  using holdTag_named [of "calls s ! i"] by (force simp: exclusive_def namedCalls_def isBusy_def)

definition entersFree :: "controller \<Rightarrow> controller \<times> frame \<Rightarrow> bool" where
  "entersFree c r = (if holds (snd r) then \<not> isBusy c \<and> busy (fst r) = Some (holdTag (snd r))
     else busy (fst r) = busy c \<or> \<not> isBusy c \<and> busy (fst r) = None)"

lemma entersFree_idle: "busy c' = busy c \<Longrightarrow> \<not> holds fr \<Longrightarrow> entersFree c (c', fr)"
  by (simp add: entersFree_def)

lemma not_holds: "\<not> inOperation (fPoint fr) \<Longrightarrow> fPoint fr \<notin> {AtRefresh, AtDraftEvidence, AtDraftCommit} \<Longrightarrow> \<not> holds fr"
  by (simp add: holds_def)

lemma begin_entersFree:
  "entersFree c (beginDefinition cfg env c iid document actionRef nodeId)" "entersFree c (beginWidget cfg c input b)"
  "entersFree c (beginRefresh cfg c)" "entersFree c (beginRestoreDraft cfg c v)"
  "entersFree c (beginRestorePending cfg c v renew)" "entersFree c (beginRestoreSigned cfg c v)"
  subgoal by (simp add: beginDefinition_def failCall_eq Let_def entersFree_idle not_holds split: sum.split)
  subgoal by (simp add: beginWidget_def failCall_eq Let_def entersFree_idle not_holds split: sum.split option.split)
  subgoal by (auto simp: beginRefresh_def threw_def entersFree_idle not_holds bindR_Inr_iff entersFree_def holds_def holdTag_simps Let_def
      split: sum.split)
  subgoal by (auto simp: beginRestoreDraft_def awaitEvidence_def threw_def not_holds bindR_Inr_iff unrestored_def
      entersFree_def holds_def holdTag_simps Let_def split: sum.split)
  subgoal by (simp add: beginRestorePending_def awaitEvidence_def threw_def entersFree_idle not_holds Let_def split: sum.split)
  subgoal by (simp add: beginRestoreSigned_def awaitEvidence_def threw_def entersFree_idle not_holds Let_def split: sum.split)
  done

lemma exclusive_enter:
  assumes "exclusive s" "namedCalls s" "entersFree (ctl s) r"
  shows "exclusive (enter r s)"
proof (cases "isBusy (ctl s)")
  case True
  then have "\<not> holds (snd r)" "busy (fst r) = busy (ctl s)" using assms(3) by (auto simp: entersFree_def split: if_splits)
  then show ?thesis using assms(1) by (auto simp: exclusive_def enter_def nth_append less_Suc_eq)
next
  case False
  then have "\<And>i. i < length (calls s) \<Longrightarrow> \<not> holds (calls s ! i)" using exclusive_idle assms by blast
  then show ?thesis using assms(3) by (auto simp: exclusive_def enter_def entersFree_def nth_append less_Suc_eq split: if_splits)
qed

lemma busy_retrying [simp]: "busy (c\<lparr>retryingSign := b\<rparr>) = busy c"
  by simp

lemma exclusive_resume:
  assumes e: "exclusive s" and n: "namedCalls s"
  shows "exclusive (resumeCall cfg env i a s)"
proof (cases "i < length (calls s)")
  case True
  note iL = True
  obtain c' fr' where r: "resume cfg env a (ctl s) (calls s ! i) = (c', fr')" by fastforce
  have t: "takes (ctl s) (calls s ! i) (c', fr')" using resume_takes [of "ctl s" "calls s ! i" cfg env a] by (simp add: r)
  define s' where "s' = resumeCall cfg env i a s"
  have cs: "calls s' = (calls s)[i := fr']" "busy (ctl s') = busy c'" using True r by (simp_all add: s'_def resumeCall_def)
  have "exclusive s'"
  proof (cases "holds (calls s ! i)")
    case True
    with e iL have "busy (ctl s) = Some (holdTag (calls s ! i))" "\<And>j. j < length (calls s) \<Longrightarrow> j \<noteq> i \<Longrightarrow> \<not> holds (calls s ! j)"
      by (auto simp: exclusive_def)
    then show ?thesis using t True by (auto simp: exclusive_def cs takes_def nth_list_update iL split: if_splits)
  next
    case False
    show ?thesis
    proof (cases "holds fr'")
      case True
      then have "\<not> isBusy (ctl s)" "busy c' = Some (holdTag fr')" using t False by (auto simp: takes_def)
      then show ?thesis using exclusive_idle [OF e n] by (auto simp: exclusive_def cs nth_list_update iL)
    next
      case nh: False
      then have "busy c' = busy (ctl s)" using t False by (auto simp: takes_def)
      then show ?thesis using e False nh by (auto simp: exclusive_def cs nth_list_update iL)
    qed
  qed
  then show ?thesis by (simp add: s'_def)
next
  case False
  then show ?thesis using e by (simp add: resumeCall_def)
qed

lemma step_exclusive:
  assumes "exclusive s" "namedCalls s"
  shows "exclusive (ctlStep cfg env act s)"
proof (cases act)
  case RetrySign
  have "entersFree (ctl s) ((fst (beginWidget cfg (ctl s) v True))\<lparr>retryingSign := b\<rparr>, snd (beginWidget cfg (ctl s) v True))" for v b
    using begin_entersFree(2) [of "ctl s" cfg v True] by (simp add: entersFree_def)
  then show ?thesis using RetrySign assms by (auto simp: ctlStep_def retrySign_def Let_def case_prod_beta exclusive_enter split: option.split)
next
  case (Resume i a)
  then show ?thesis using exclusive_resume assms by (simp add: ctlStep_def)
next
  case RetireSignRetry
  then show ?thesis using assms by (simp add: ctlStep_def exclusive_def)
next
  case Invalidate
  then show ?thesis using assms by (simp add: ctlStep_def invalidate_def exclusive_def)
qed (use assms in \<open>simp_all add: ctlStep_def exclusive_enter begin_entersFree\<close>)

lemma reach_exclusive: "namedReach cfg s \<Longrightarrow> exclusive s"
  by (induction rule: namedReach.induct) (simp_all add: step_exclusive reach_named, simp add: exclusive_def initialSystem_def)

section \<open>What a resumption writes\<close>

text \<open>The points at which the operation of a delivery is still to be committed.\<close>

definition active :: "point \<Rightarrow> bool" where
  "active p = (inOperation p \<and> (\<forall>out. p \<noteq> AtCommit out) \<and> (\<forall>r. p \<noteq> AtFinally r))"

definition deliveryOf :: "port_call \<Rightarrow> string option" where
  "deliveryOf p = (case p of SaveCall d _ _ \<Rightarrow> Some d | PrepareCall d _ \<Rightarrow> Some d | SignCall d _ _ _ \<Rightarrow> Some d
     | StartCall d _ \<Rightarrow> Some d | CaptureCall d _ \<Rightarrow> Some d | CompleteCall d _ _ \<Rightarrow> Some d
     | ReconcileCall _ \<Rightarrow> None | LoadCall \<Rightarrow> None)"

definition operationKey :: "port_call \<Rightarrow> (string \<times> string) option" where
  "operationKey p = (case p of SaveCall d op _ \<Rightarrow> Some (d, op) | SignCall d op _ _ \<Rightarrow> Some (d, op)
     | StartCall d op \<Rightarrow> Some (d, op) | CompleteCall d op _ \<Rightarrow> Some (d, op) | _ \<Rightarrow> None)"

definition completedIn :: "controller \<Rightarrow> string \<Rightarrow> props option" where
  "completedIn c d = Option.bind (map_of (deliveries c) d) completed"

definition keyIn :: "controller \<Rightarrow> string \<Rightarrow> string option" where
  "keyIn c d = map_option operationId (map_of (deliveries c) d)"

lemma map_of_onDelivery [simp]: "map_of (deliveries (onDelivery d f c)) d' =
    (if d' = d then map_option f (map_of (deliveries c) d) else map_of (deliveries c) d')"
proof -
  have "map_of (map (\<lambda>(k, x). (k, if k = d then f x else x)) ds) d' =
      (if d' = d then map_option f (map_of ds d) else map_of ds d')" for ds
    by (induction ds) auto
  then show ?thesis by (simp add: onDelivery_def)
qed

lemma bind_map_option [simp]: "Option.bind (map_option f m) g = Option.bind m (\<lambda>x. g (f x))"
  by (cases m) simp_all

lemma map_of_retire [simp]: "map_of (deliveries (retireSignRetry c)) d =
    map_option (\<lambda>x. x\<lparr>signRetry := None\<rparr>) (map_of (deliveries c) d)"
proof -
  have "map_of (map (\<lambda>(k, x). (k, x\<lparr>signRetry := None\<rparr>)) ds) d = map_option (\<lambda>x. x\<lparr>signRetry := None\<rparr>) (map_of ds d)" for ds
    by (induction ds) auto
  then show ?thesis by (simp add: retireSignRetry_def)
qed

lemma map_of_putDelivery [simp]:
  "map_of (deliveries (putDelivery d x c)) d' = (if d' = d then Some x else map_of (deliveries c) d')"
  by (auto simp: putDelivery_def getDelivery_def map_add_def split: option.split)

text \<open>
  One resumption: the port calls it adds are those of its own delivery, made by an active call or
  by one that starts its operation; only an active call completes its delivery or the submission,
  and it leaves the active points with it; operation keys stay.
\<close>

definition opens :: "controller \<Rightarrow> frame \<Rightarrow> bool" where
  "opens c fr = (fPoint fr = AtHash \<and> completedIn c (fDelivery fr) = None \<and> \<not> isSet (completionResult c))"

definition mayCall :: "controller \<Rightarrow> frame \<Rightarrow> controller \<Rightarrow> port_call \<Rightarrow> bool" where
  "mayCall c fr c' p = ((deliveryOf p \<noteq> None \<longrightarrow> deliveryOf p = Some (fDelivery fr) \<and>
       (active (fPoint fr) \<or> opens c fr \<and> keyIn c' (fDelivery fr) \<noteq> None)) \<and>
     (\<forall>d op. operationKey p = Some (d, op) \<longrightarrow> d = fDelivery fr \<and> (keyIn c' d \<noteq> None \<longrightarrow> keyIn c' d = Some op)))"

definition addsCalls :: "controller \<Rightarrow> frame \<Rightarrow> controller \<times> frame \<Rightarrow> bool" where
  "addsCalls c fr r = (\<exists>new. portCalls (fst r) = portCalls c @ new \<and> (\<forall>p\<in>set new. mayCall c fr (fst r) p))"

definition completes :: "controller \<Rightarrow> frame \<Rightarrow> controller \<times> frame \<Rightarrow> bool" where
  "completes c fr r = (
     (if active (fPoint fr) \<and> \<not> active (fPoint (snd r))
      then \<forall>d. d \<noteq> fDelivery fr \<longrightarrow> completedIn (fst r) d = completedIn c d
      else completionResult (fst r) = completionResult c \<and> (\<forall>d. completedIn (fst r) d = completedIn c d)) \<and>
     (active (fPoint (snd r)) \<longrightarrow> active (fPoint fr) \<or> opens c fr) \<and>
     (\<forall>d. keyIn c d \<noteq> None \<longrightarrow> keyIn (fst r) d = keyIn c d) \<and>
     (inOperation (fPoint (snd r)) \<longrightarrow> inOperation (fPoint fr) \<or> keyIn (fst r) (fDelivery fr) \<noteq> None))"

lemma active_simps [simp]:
  "active AtCheckpointSave" "active AtCheckpointEvidence" "active AtCheckpointCommit" "active AtStart"
  "active AtSave" "active AtSaveEvidence" "active AtPrepare" "active AtPrepareEvidence"
  "active AtSign" "active AtSignEvidence" "active AtSubmitOptions" "active AtCapture"
  "active AtComplete" "\<not> active (AtCommit out)" "\<not> active (AtFinally r)"
  "\<not> active AtWidgetValidation" "\<not> active AtFrozenValidation" "\<not> active (AtEngine o1)"
  "\<not> active AtValidation" "\<not> active AtHash" "\<not> active (AtJoin n)" "\<not> active AtRefresh"
  "\<not> active AtDraftEvidence" "\<not> active AtDraftCommit" "\<not> active AtPendingEvidence"
  "\<not> active AtPendingPort" "\<not> active AtPendingSelected" "\<not> active AtSignedEvidence"
  "\<not> active AtRestoredCommit" "\<not> active (AtEnd o2)"
  by (simp_all add: active_def)

lemma addsCalls_same: "portCalls c' = portCalls c \<Longrightarrow> addsCalls c fr (c', fr')"
  by (simp add: addsCalls_def)

lemma addsCalls_one: "portCalls c' = portCalls c @ [p] \<Longrightarrow> mayCall c fr c' p \<Longrightarrow> addsCalls c fr (c', fr')"
  by (simp add: addsCalls_def)

lemma same_deliveries: "deliveries c' = deliveries c \<Longrightarrow> completedIn c' = completedIn c" "deliveries c' = deliveries c \<Longrightarrow> keyIn c' = keyIn c"
  by (simp_all add: completedIn_def keyIn_def fun_eq_iff)

text \<open>A call that is not at an active point and changes neither deliveries nor the completion.\<close>

definition inert :: "controller \<Rightarrow> controller \<times> frame \<Rightarrow> bool" where
  "inert c r = (portCalls (fst r) = portCalls c \<and> deliveries (fst r) = deliveries c \<and>
     completionResult (fst r) = completionResult c \<and> \<not> inOperation (fPoint (snd r)))"

lemma inert_writes: "inert c r \<Longrightarrow> \<not> active (fPoint fr) \<Longrightarrow> addsCalls c fr r \<and> completes c fr r"
  using same_deliveries [of "fst r" c] by (cases r) (auto simp: inert_def completes_def addsCalls_def active_def)
lemma engineCalls_inert: "inert c (engineCalls cfg ev c fr)" if "fPoint fr = AtEngine p"
proof (cases ev)
  case (EngineReturn st v)
  then show ?thesis using widgetReturned_point [of cfg st v c fr] by (auto simp: inert_def engineCalls_def)
qed (use that in \<open>simp_all add: inert_def engineCalls_def failCall_eq dispatchEffect_def startPerform_def effectFailed_eq
   split: sum.split option.split\<close>)

lemma call_inert:
  "inert c (widgetValidated cfg v c fr)" "inert c (widgetChecked cfg r c fr)"
  "fPoint fr = AtValidation \<Longrightarrow> inert c (validated cfg env r c fr)" "fPoint fr = AtJoin n \<Longrightarrow> inert c (joined cfg n c fr)"
  subgoal by (simp add: inert_def widgetValidated_def failCall_eq split: sum.split)
  subgoal by (simp add: inert_def widgetChecked_def widgetValidated_def failCall_eq Let_def split: sum.split option.split)
  subgoal by (auto simp: inert_def validated_def effectFailed_eq dest!: admitPerform_Inr split: sum.split)
  subgoal by (simp add: inert_def joined_def effectFailed_eq effectDone_def split: sum.split option.split)
  done

lemma restore_inert:
  "inert c (refreshed v c fr)" "inert c (draftRestored cfg w h c fr)" "inert c (draftCommitted c fr)"
  "fPoint fr = AtPendingPort \<Longrightarrow> inert c (pendingAnswered v c fr)" "inert c (pendingSelected cfg w h c fr)"
  "inert c (signedRestored cfg env w h c fr)" "inert c (c, goto (AtEnd CallDone) fr)"
  subgoal by (simp add: inert_def refreshed_def threw_def split: sum.split)
  subgoal by (simp add: inert_def draftRestored_def threw_def split: sum.split)
  subgoal by (simp add: inert_def draftCommitted_def threw_def split: sum.split)
  subgoal by (simp add: inert_def pendingAnswered_def threw_def split: sum.split)
  subgoal by (simp add: inert_def pendingSelected_def threw_def Let_def split: sum.split)
  subgoal by (simp add: inert_def signedRestored_def threw_def split: sum.split)
  subgoal by (simp add: inert_def)
  done

lemma pendingChecked_writes:
  "fPoint fr = AtPendingEvidence \<Longrightarrow> addsCalls c fr (pendingChecked cfg env v h c fr) \<and> completes c fr (pendingChecked cfg env v h c fr)"
  by (simp add: pendingChecked_def threw_def addsCalls_def completes_def mayCall_def deliveryOf_def operationKey_def
      completedIn_def keyIn_def split: sum.split)

lemma settle_writes:
  "inOperation (fPoint fr) \<Longrightarrow> addsCalls c fr (settle r c fr) \<and> completes c fr (settle r c fr)"
  by (simp add: settle_def addsCalls_def completes_def completedIn_def keyIn_def active_def)

lemma awaitEvidence_writes:
  "active (fPoint fr) \<Longrightarrow> addsCalls c fr (awaitEvidence p c fr v) \<and> (active p \<longrightarrow> completes c fr (awaitEvidence p c fr v))"
  by (simp add: awaitEvidence_def addsCalls_def completes_def active_def)

lemma finish_writes:
  "fPoint fr = AtFinally r \<Longrightarrow> addsCalls c fr (finishOperation cfg r c fr) \<and> completes c fr (finishOperation cfg r c fr)"
  by (auto simp: finishOperation_def effectFailed_eq effectDone_def addsCalls_def completes_def completedIn_def keyIn_def
      Let_def option.map_comp comp_def split: sum.split option.split)
text \<open>The operation's own steps: at most one port call, for the frame's delivery, under its key.\<close>

definition ownCall :: "frame \<Rightarrow> controller \<Rightarrow> port_call \<Rightarrow> bool" where
  "ownCall fr c' p = (deliveryOf p = Some (fDelivery fr) \<and>
     (\<forall>d op. operationKey p = Some (d, op) \<longrightarrow> d = fDelivery fr \<and> (keyIn c' d \<noteq> None \<longrightarrow> keyIn c' d = Some op)))"

definition operates :: "controller \<Rightarrow> frame \<Rightarrow> controller \<times> frame \<Rightarrow> bool" where
  "operates c fr r = (
     (portCalls (fst r) = portCalls c \<or> (\<exists>p. portCalls (fst r) = portCalls c @ [p] \<and> ownCall fr (fst r) p)) \<and>
     (if active (fPoint (snd r)) then completionResult (fst r) = completionResult c \<and> (\<forall>d. completedIn (fst r) d = completedIn c d)
      else \<forall>d. d \<noteq> fDelivery fr \<longrightarrow> completedIn (fst r) d = completedIn c d) \<and>
     keyIn (fst r) = keyIn c \<and> inOperation (fPoint (snd r)))"

lemma operates_writes:
  assumes "operates c fr r" "active (fPoint fr)"
  shows "addsCalls c fr r \<and> completes c fr r"
  using assms by (auto simp: operates_def addsCalls_def completes_def mayCall_def ownCall_def active_def split: if_splits)

lemma operationOf_key: "keyIn c (fDelivery fr) \<noteq> None \<Longrightarrow> keyIn c (fDelivery fr) = Some (operationOf c fr)"
  by (auto simp: keyIn_def operationOf_def getDelivery_def)

lemma deliveries_upd [simp]:
  "keyIn (c\<lparr>promises := ps\<rparr>) = keyIn c" "completedIn (c\<lparr>promises := ps\<rparr>) = completedIn c"
  by (simp_all add: keyIn_def completedIn_def fun_eq_iff)

lemma operates_settle: "operates c fr (settle r c' fr)"
  if "portCalls c' = portCalls c" "deliveries c' = deliveries c" for c'
  using that by (simp add: operates_def settle_def completedIn_def keyIn_def fun_eq_iff)

lemma operates_await: "active p \<Longrightarrow> operates c fr (awaitEvidence p c fr v)"
  by (simp add: operates_def awaitEvidence_def active_def)

lemma operates_call:
  assumes "deliveryOf p = Some (fDelivery fr)" "active q" "portCalls c' = portCalls c" "completionResult c' = completionResult c"
    and "\<And>d. completedIn c' d = completedIn c d" "keyIn c' = keyIn c"
    and "\<And>d op. operationKey p = Some (d, op) \<Longrightarrow> d = fDelivery fr \<and> op = operationOf c' fr"
  shows "operates c fr (calling p c', goto q fr)"
proof -
  have d: "deliveries (calling p c') = deliveries c'" by simp
  have k: "keyIn (calling p c') = keyIn c'" "completedIn (calling p c') = completedIn c'" by (simp_all add: keyIn_def completedIn_def fun_eq_iff)
  have "ownCall fr (calling p c') p" using assms(1,7) operationOf_key [of c' fr] by (auto simp: ownCall_def k)
  then show ?thesis using assms(2-6) by (simp add: operates_def k active_def)
qed

lemma operates_calls:
  assumes "active q" "portCalls c' = portCalls c" "completionResult c' = completionResult c"
    "\<And>d. completedIn c' d = completedIn c d" "keyIn c' = keyIn c"
  shows "operates c fr (calling (SaveCall (fDelivery fr) (operationOf c' fr) v) c', goto q fr)"
    "operates c fr (calling (PrepareCall (fDelivery fr) v) c', goto q fr)"
    "operates c fr (calling (SignCall (fDelivery fr) (operationOf c' fr) v w) c', goto q fr)"
    "operates c fr (calling (StartCall (fDelivery fr) (operationOf c' fr)) c', goto q fr)"
    "operates c fr (calling (CaptureCall (fDelivery fr) v) c', goto q fr)"
    "operates c fr (calling (CompleteCall (fDelivery fr) (operationOf c' fr) v) c', goto q fr)"
  by (rule operates_call; use assms in \<open>simp add: deliveryOf_def operationKey_def\<close>)+

lemma callStart_operates: "operates c fr (callStart c fr)"
  by (simp add: callStart_def operates_calls)

lemma completeNow_operates:
  assumes "portCalls c' = portCalls c" "completionResult c' = completionResult c" "keyIn c' = keyIn c"
    "\<And>d. completedIn c' d = completedIn c d"
  shows "operates c fr (completeNow cfg env p c' fr)"
proof (cases "bindR (current (fGeneration fr) c') (\<lambda>_. review cfg env (signed c') ''signed'' (fWording fr))")
  case (Inl e)
  then show ?thesis using assms by (simp add: completeNow_def operates_def settle_def)
next
  case (Inr u)
  then show ?thesis using assms by (simp add: completeNow_def operates_calls)
qed

lemma beginSign_operates: "operates c fr (beginSign cfg env c fr)"
proof -
  have "keyIn (onDelivery d (\<lambda>x. x\<lparr>signRetry := r\<rparr>) c) = keyIn c"
    "completedIn (onDelivery d (\<lambda>x. x\<lparr>signRetry := r\<rparr>) c) = completedIn c" for d r
    by (auto simp: keyIn_def completedIn_def fun_eq_iff option.map_comp comp_def)
  then show ?thesis by (simp add: beginSign_def operates_settle operates_calls Let_def split: sum.split)
qed

lemma beginOperation_operates: "operates c fr (beginOperation cfg env c fr)"
proof -
  have "operates c fr (beginStart cfg c fr)"
    by (simp add: beginStart_def callStart_operates operates_calls operates_settle split: sum.split)
  moreover have "operates c fr (c, goto AtSubmitOptions fr)" by (simp add: operates_def)
  ultimately show ?thesis
    by (simp add: beginOperation_def operates_calls operates_settle completeNow_operates beginSign_operates
        split: sum.split option.split role.split)
qed
lemma operates_refl: "active p \<Longrightarrow> portCalls c' = portCalls c \<Longrightarrow> completionResult c' = completionResult c \<Longrightarrow>
    deliveries c' = deliveries c \<Longrightarrow> fPoint fr' = p \<Longrightarrow> operates c fr (c', fr')"
  by (simp add: operates_def completedIn_def keyIn_def fun_eq_iff active_def)

lemma keyIn_onDelivery: "(\<And>x. operationId (f x) = operationId x) \<Longrightarrow> keyIn (onDelivery d f c) = keyIn c"
  by (auto simp: keyIn_def fun_eq_iff option.map_comp comp_def)

lemma completedIn_onDelivery: "(\<And>x. completed (f x) = completed x) \<Longrightarrow> completedIn (onDelivery d f c) = completedIn c"
  by (auto simp: completedIn_def fun_eq_iff)

lemma completedIn_other: "d' \<noteq> d \<Longrightarrow> completedIn (onDelivery d f c) d' = completedIn c d'"
  by (simp add: completedIn_def)

lemma upd_keys:
  assumes "deliveries c' = deliveries c"
  shows "keyIn c' = keyIn c" "completedIn c' = completedIn c"
  using assms by (simp_all add: keyIn_def completedIn_def fun_eq_iff)

lemma commit_operates:
  assumes "portCalls c' = portCalls c" "completionResult c' = completionResult c" "deliveries c' = deliveries c"
  shows "operates c fr (commit cfg v c' fr)"
proof (cases "transitionBindings cfg (fRequest fr) (getp v ''evidence'')")
  case (Inl e)
  then show ?thesis using assms by (simp add: commit_def operates_settle)
next
  case (Inr out)
  then show ?thesis using assms upd_keys [OF assms(3)]
    by (simp add: commit_def operates_def keyIn_onDelivery completedIn_other)
qed

lemma portAnswer_operates: "(\<And>r. operates c fr (k r)) \<Longrightarrow> operates c fr (portAnswer c fr v k)"
  by (simp add: portAnswer_def operates_settle split: sum.split)

lemma segment_operates:
  "operates c fr (checkpointSaved v c fr)" "operates c fr (checkpointChecked cfg w h c fr)"
  "operates c fr (checkpointCommitted c fr)" "operates c fr (started cfg v c fr)"
  "operates c fr (savedChecked cfg w h c fr)" "operates c fr (preparedChecked cfg w h c fr)"
  "operates c fr (signatureChecked cfg w h c fr)" "operates c fr (submitOptions cfg v c fr)"
  "operates c fr (captured cfg env v c fr)"
  subgoal by (simp add: checkpointSaved_def awaitEvidence_def operates_settle operates_refl [of AtCheckpointEvidence] Let_def split: sum.split)
  subgoal by (simp add: checkpointChecked_def operates_settle operates_refl [of AtCheckpointCommit] split: sum.split)
  subgoal by (simp add: checkpointCommitted_def operates_settle callStart_operates split: sum.split)
  subgoal by (simp add: started_def portAnswer_operates operates_settle Let_def)
  subgoal by (simp add: savedChecked_def operates_settle commit_operates split: sum.split)
  subgoal by (simp add: preparedChecked_def operates_settle commit_operates split: sum.split)
  subgoal by (simp add: signatureChecked_def operates_settle commit_operates split: sum.split)
  subgoal by (simp add: submitOptions_def portAnswer_operates operates_settle operates_calls)
  subgoal by (simp add: captured_def operates_settle completeNow_operates keyIn_onDelivery completedIn_onDelivery split: sum.split)
  done

lemma submitted_operates: "operates c fr (submitted cfg v c fr)"
proof -
  have "operates c fr (settle r (onDelivery (fDelivery fr) (\<lambda>x. x\<lparr>completed := o1\<rparr>) (publish q None (c\<lparr>completionResult := w, confirmedDelivery := z\<rparr>))) fr)"
    for r q w z o1
    by (simp add: operates_def settle_def keyIn_onDelivery completedIn_other) (simp add: keyIn_def completedIn_def fun_eq_iff)
  then show ?thesis by (simp add: submitted_def portAnswer_operates operates_settle Let_def split: sum.split)
qed

lemma admitDelivery_opens:
  assumes "admitDelivery cfg env c fr h = Inr (Runs x)"
  shows "completedIn c (fDelivery fr) = None" "\<not> isSet (completionResult c)" "completed x = None"
    "getDelivery c (fDelivery fr) = None \<or> getDelivery c (fDelivery fr) = Some x"
  using assms
  by (auto simp: admitDelivery_def Let_def bindR_Inr_iff check_simps completedIn_def getDelivery_def split: option.splits if_splits)

lemma calling_keeps [simp]: "completedIn (calling p c) = completedIn c" "completedIn (publish q w c) = completedIn c"
  by (simp_all add: completedIn_def fun_eq_iff)

lemma beginOperation_keeps:
  "completionResult (fst (beginOperation cfg env c fr)) = completionResult c \<and> completedIn (fst (beginOperation cfg env c fr)) = completedIn c"
  by (simp add: beginOperation_def beginStart_def callStart_def beginSign_def completeNow_def settle_def Let_def
      completedIn_onDelivery split: sum.split option.split role.split)

lemma runDelivery_writes:
  assumes "admitDelivery cfg env c fr h = Inr (Runs x)" and p: "fPoint fr = AtHash"
  shows "addsCalls c fr (runDelivery cfg env x c fr) \<and> completes c fr (runDelivery cfg env x c fr)"
proof -
  note a = admitDelivery_opens [OF assms(1)]
  let ?fr = "fr\<lparr>fPromise := nextObject c\<rparr>" and ?r = "runDelivery cfg env x c fr"
  define c2 where "c2 = (if fRole fr \<in> {SaveInitial, SaveOwned, Prepare} then retireSignRetry (putDelivery (fDelivery fr) x c)
      else putDelivery (fDelivery fr) x c)"
  define c1 where "c1 = publish (InRole (fRole fr)) None (onDelivery (fDelivery fr) (\<lambda>x. x\<lparr>dPending := Some (nextObject c)\<rparr>)
      (c2\<lparr>nextObject := nextObject c + 1, busy := Some (fDelivery fr)\<rparr>))"
  have r: "?r = beginOperation cfg env c1 ?fr" by (auto simp: runDelivery_def Let_def c1_def c2_def)
  have pc: "portCalls c1 = portCalls c" "completionResult c1 = completionResult c" by (simp_all add: c1_def c2_def)
  have m: "map_of (deliveries c2) d = (if d = fDelivery fr then Some (if fRole fr \<in> {SaveInitial, SaveOwned, Prepare}
      then x\<lparr>signRetry := None\<rparr> else x) else map_option (\<lambda>y. if fRole fr \<in> {SaveInitial, SaveOwned, Prepare}
      then y\<lparr>signRetry := None\<rparr> else y) (map_of (deliveries c) d))" for d by (simp add: c2_def option.map_ident)
  have co: "completedIn c1 d = completedIn c d" for d
    using a(1,3) m [of d] by (cases "map_of (deliveries c) d") (auto simp: c1_def completedIn_def)
  have ky: "keyIn c1 d = (if d = fDelivery fr then Some (operationId x) else keyIn c d)" for d
    using m [of d] by (cases "map_of (deliveries c) d") (auto simp: c1_def keyIn_def)
  have o: "operates c1 ?fr ?r" unfolding r by (rule beginOperation_operates)
  have op: "opens c fr" using p a by (simp add: opens_def)
  have "keyIn (fst ?r) = keyIn c1" using o by (simp add: operates_def)
  then have k: "keyIn (fst ?r) (fDelivery fr) \<noteq> None" by (simp add: ky)
  have "mayCall c fr (fst ?r) q" if "ownCall ?fr (fst ?r) q" for q
    using that op k by (auto simp: mayCall_def ownCall_def)
  then have "addsCalls c fr ?r" using o pc by (auto simp: operates_def addsCalls_def)
  moreover have "completes c fr ?r"
    using o op co ky pc p a(4) beginOperation_keeps [of cfg env c1 ?fr, folded r] by (auto simp: operates_def completes_def keyIn_def getDelivery_def split: if_splits)
  ultimately show ?thesis by simp
qed

lemma hashedPerform_writes:
  assumes p: "fPoint fr = AtHash"
  shows "addsCalls c fr (hashedPerform cfg env h c fr) \<and> completes c fr (hashedPerform cfg env h c fr)"
proof (cases "bindR h (\<lambda>x. bindR (current (fGeneration fr) c) (\<lambda>_. admitDelivery cfg env c fr x))")
  case (Inl e)
  then have "inert c (hashedPerform cfg env h c fr)" by (simp add: hashedPerform_def effectFailed_eq inert_def)
  then show ?thesis using p by (simp add: inert_writes)
next
  case (Inr s)
  show ?thesis
  proof (cases s)
    case (Runs x)
    then obtain y where "admitDelivery cfg env c fr y = Inr (Runs x)" using Inr by (auto simp: bindR_Inr_iff)
    then show ?thesis using runDelivery_writes [OF _ p] Inr Runs by (simp add: hashedPerform_def)
  next
    case (Joins n)
    then have "inert c (hashedPerform cfg env h c fr)" using Inr by (simp add: hashedPerform_def inert_def)
    then show ?thesis using p by (simp add: inert_writes)
  next
    case (Replays out)
    then have "inert c (hashedPerform cfg env h c fr)" using Inr by (simp add: hashedPerform_def effectDone_def inert_def)
    then show ?thesis using p by (simp add: inert_writes)
  qed
qed

definition writesOk :: "controller \<Rightarrow> frame \<Rightarrow> controller \<times> frame \<Rightarrow> bool" where
  "writesOk c fr r = (addsCalls c fr r \<and> completes c fr r)"

lemma writesOk_refl: "writesOk c fr (c, fr)"
  by (simp add: writesOk_def addsCalls_def completes_def)

lemma resume_writesOk: "writesOk c fr (resume cfg env a c fr)"
proof (rule resume_P)
  show "writesOk c fr (c, fr)" by (rule writesOk_refl)
qed (simp_all add: writesOk_def hashedPerform_writes inert_writes call_inert engineCalls_inert restore_inert
    pendingChecked_writes settle_writes finish_writes operates_writes segment_operates submitted_operates portAnswer_operates
    operates_await)

section \<open>Invariants of every interleaving\<close>

definition lifetime :: "controller \<Rightarrow> bool \<times> nat" where
  "lifetime c = (invalidated c, epoch c)"

lemma lifetime_runs: "lifetime (fst (hashedPerform cfg env h c fr)) = lifetime c"
proof -
  have "lifetime (fst (beginOperation cfg env c' fr')) = lifetime c'" for c' fr'
    by (simp add: lifetime_def beginOperation_def beginStart_def callStart_def beginSign_def completeNow_def settle_def Let_def
        split: sum.split option.split role.split)
  then have "lifetime (fst (runDelivery cfg env x c fr)) = lifetime c" for x
    by (simp add: runDelivery_def Let_def) (simp add: lifetime_def)
  then show ?thesis
    by (simp add: hashedPerform_def effectFailed_eq split: sum.split admission_step.split) (simp add: lifetime_def)
qed

lemma lifetime_call: "lifetime (fst (engineCalls cfg ev c fr)) = lifetime c"
  by (cases ev) (simp_all add: lifetime_def engineCalls_def failCall_eq dispatchEffect_def startPerform_def effectFailed_eq
      split: sum.split option.split)

lemma lifetime_validated: "lifetime (fst (validated cfg env r c fr)) = lifetime c"
  by (simp add: lifetime_def validated_def effectFailed_eq split: sum.split)

lemma resume_lifetime: "lifetime (fst (resume cfg env a c fr)) = lifetime c"
proof (rule resume_P, simp_all only: lifetime_runs lifetime_call lifetime_validated)
qed (simp_all add: lifetime_def segment_defs Let_def split: sum.split option.split)

text \<open>What entering a call leaves alone.\<close>

definition beginsQuietly :: "controller \<Rightarrow> controller \<times> frame \<Rightarrow> bool" where
  "beginsQuietly c r = (deliveries (fst r) = deliveries c \<and> completionResult (fst r) = completionResult c \<and>
     invalidated (fst r) = invalidated c \<and> \<not> inOperation (fPoint (snd r)) \<and>
     (portCalls (fst r) = portCalls c \<or> portCalls (fst r) = portCalls c @ [LoadCall]))"

lemma begin_quiet:
  "beginsQuietly c (beginDefinition cfg env c iid document actionRef nodeId)" "beginsQuietly c (beginWidget cfg c input b)"
  "beginsQuietly c (beginRefresh cfg c)" "beginsQuietly c (beginRestoreDraft cfg c v)"
  "beginsQuietly c (beginRestorePending cfg c v renew)" "beginsQuietly c (beginRestoreSigned cfg c v)"
  subgoal by (simp add: beginsQuietly_def beginDefinition_def failCall_eq Let_def split: sum.split)
  subgoal by (simp add: beginsQuietly_def beginWidget_def failCall_eq Let_def split: sum.split option.split)
  subgoal by (simp add: beginsQuietly_def beginRefresh_def threw_def Let_def split: sum.split)
  subgoal by (simp add: beginsQuietly_def beginRestoreDraft_def awaitEvidence_def threw_def Let_def split: sum.split)
  subgoal by (simp add: beginsQuietly_def beginRestorePending_def awaitEvidence_def threw_def Let_def split: sum.split)
  subgoal by (simp add: beginsQuietly_def beginRestoreSigned_def awaitEvidence_def threw_def Let_def split: sum.split)
  done

text \<open>
  A step of the system is the entry of a call, the resumption of one, or a change of the controller
  that leaves the calls alone.
\<close>

lemma step_cases:
  obtains (entered) r where "ctlStep cfg env act s = enter r s" "beginsQuietly (ctl s) r"
  | (resumed) i fr c' fr' b where "i < length (calls s)" "fr = calls s ! i" "writesOk (ctl s) fr (c', fr')"
      "takes (ctl s) fr (c', fr')" "invalidated c' = invalidated (ctl s)"
      "ctlStep cfg env act s = \<lparr>ctl = c'\<lparr>retryingSign := b\<rparr>, calls = (calls s)[i := fr']\<rparr>"
  | (withdrawn) "ctlStep cfg env act s = s\<lparr>ctl := invalidate (ctl s)\<rparr>"
  | (retireRetry) "ctlStep cfg env act s = s\<lparr>ctl := republish (retireSignRetry (ctl s))\<rparr>"
  | (refused) "ctlStep cfg env act s = s"
proof (cases act)
  case (Resume i a)
  show thesis
  proof (cases "i < length (calls s)")
    case True
    let ?fr = "calls s ! i"
    obtain c' fr' where r: "resume cfg env a (ctl s) ?fr = (c', fr')" by fastforce
    have w: "writesOk (ctl s) ?fr (c', fr')" "takes (ctl s) ?fr (c', fr')" "invalidated c' = invalidated (ctl s)"
      using resume_writesOk [of "ctl s" ?fr cfg env a] resume_takes [of "ctl s" ?fr cfg env a]
        resume_lifetime [of cfg env a "ctl s" ?fr] by (simp_all add: r lifetime_def)
    let ?b = "if fIsRetry fr' \<and> hasEnded fr' \<and> \<not> hasEnded ?fr then False else retryingSign c'"
    have "ctlStep cfg env act s = \<lparr>ctl = c'\<lparr>retryingSign := ?b\<rparr>, calls = (calls s)[i := fr']\<rparr>"
      using Resume True r by (simp add: ctlStep_def resumeCall_def)
    from resumed [OF True refl w this] show thesis .
  next
    case False
    then show thesis using refused Resume by (simp add: ctlStep_def resumeCall_def)
  qed
next
  case RetrySign
  let ?r = "\<lambda>x. beginWidget cfg (ctl s) (retryRequest x) True"
  have q: "beginsQuietly (ctl s) ((fst (?r x))\<lparr>retryingSign := b\<rparr>, snd (?r x))" for x b
    using begin_quiet(2) [of "ctl s" cfg "retryRequest x" True] by (simp add: beginsQuietly_def)
  show thesis
  proof (cases "retryingSign (ctl s) \<or> invalidated (ctl s) \<or> retryableSign (ctl s) = None \<or> isBusy (ctl s) \<or> \<not> reconcileSignRetries cfg")
    case True
    then show thesis using RetrySign refused by (auto simp: ctlStep_def retrySign_def Let_def split: option.split)
  next
    case False
    then obtain x where "retryableSign (ctl s) = Some x" by auto
    then have "ctlStep cfg env act s = enter ((fst (?r x))\<lparr>retryingSign := \<not> hasEnded (snd (?r x))\<rparr>, snd (?r x)) s"
      using RetrySign False by (simp add: ctlStep_def retrySign_def Let_def case_prod_beta)
    then show thesis using q by (rule entered)
  qed
next
  case Invalidate
  then show thesis using withdrawn by (simp add: ctlStep_def)
next
  case RetireSignRetry
  then show thesis using retireRetry by (simp add: ctlStep_def)
next
  case (Definition iid d ar n)
  then show thesis using entered [OF _ begin_quiet(1)] by (simp add: ctlStep_def)
next
  case (Widget w)
  then show thesis using entered [OF _ begin_quiet(2)] by (simp add: ctlStep_def)
next
  case Refresh
  then show thesis using entered [OF _ begin_quiet(3)] by (simp add: ctlStep_def)
next
  case (RestoreDraft v)
  then show thesis using entered [OF _ begin_quiet(4)] by (simp add: ctlStep_def)
next
  case (RestorePending v rn)
  then show thesis using entered [OF _ begin_quiet(5)] by (simp add: ctlStep_def)
next
  case (RestoreSigned v)
  then show thesis using entered [OF _ begin_quiet(6)] by (simp add: ctlStep_def)
qed
text \<open>
  An active call's delivery and the submission are not completed yet; a live operation's delivery
  is known, and every call made with a key used the key of its delivery.
\<close>

definition committed :: "system \<Rightarrow> bool" where
  "committed s = (\<forall>fr\<in>set (calls s). active (fPoint fr) \<longrightarrow>
     completedIn (ctl s) (fDelivery fr) = None \<and> \<not> isSet (completionResult (ctl s)))"

definition keysAgree :: "port_call list \<Rightarrow> bool" where
  "keysAgree ps = (\<forall>p\<in>set ps. \<forall>q\<in>set ps. \<forall>d op op'.
     operationKey p = Some (d, op) \<longrightarrow> operationKey q = Some (d, op') \<longrightarrow> op = op')"

definition keyedLive :: "system \<Rightarrow> bool" where
  "keyedLive s = (
     (\<forall>fr\<in>set (calls s). inOperation (fPoint fr) \<longrightarrow> keyIn (ctl s) (fDelivery fr) \<noteq> None) \<and>
     (\<forall>p\<in>set (portCalls (ctl s)). \<forall>d op. operationKey p = Some (d, op) \<longrightarrow> keyIn (ctl s) d = Some op))"

definition keyed :: "system \<Rightarrow> bool" where
  "keyed s = ((\<not> invalidated (ctl s) \<longrightarrow> keyedLive s) \<and> keysAgree (portCalls (ctl s)))"

lemma keyed_frame:
  "keyed s \<Longrightarrow> \<not> invalidated (ctl s) \<Longrightarrow> fr \<in> set (calls s) \<Longrightarrow> inOperation (fPoint fr) \<Longrightarrow> keyIn (ctl s) (fDelivery fr) \<noteq> None"
  by (simp add: keyed_def keyedLive_def)

lemma keyed_call:
  assumes "keyed s" "\<not> invalidated (ctl s)" "p \<in> set (portCalls (ctl s))" "operationKey p = Some (d, op)"
  shows "keyIn (ctl s) d = Some op"
proof -
  have "keyedLive s" using assms(1,2) by (simp add: keyed_def)
  then show ?thesis using assms(3,4) unfolding keyedLive_def by blast
qed

lemma keyedI:
  assumes frames: "\<And>fr. fr \<in> set (calls s) \<Longrightarrow> inOperation (fPoint fr) \<Longrightarrow> keyIn (ctl s) (fDelivery fr) \<noteq> None"
    and made: "\<And>p d op. p \<in> set (portCalls (ctl s)) \<Longrightarrow> operationKey p = Some (d, op) \<Longrightarrow> keyIn (ctl s) d = Some op"
  shows "keyed s"
proof -
  have "keysAgree (portCalls (ctl s))" unfolding keysAgree_def
  proof (intro ballI allI impI)
    fix p q d op op'
    assume "p \<in> set (portCalls (ctl s))" "q \<in> set (portCalls (ctl s))" "operationKey p = Some (d, op)" "operationKey q = Some (d, op')"
    then show "op = op'" using made [of p d op] made [of q d op'] by simp
  qed
  then show ?thesis using frames made unfolding keyed_def keyedLive_def by blast
qed

lemma upd_retrying [simp]:
  "keyIn (c\<lparr>retryingSign := b\<rparr>) = keyIn c" "completedIn (c\<lparr>retryingSign := b\<rparr>) = completedIn c"
  by (rule upd_keys; simp)+

lemma invalidate_sel [simp]:
  "completedIn (invalidate c) d = None" "completionResult (invalidate c) = Undefined" "invalidated (invalidate c)"
  "portCalls (invalidate c) = portCalls c"
  by (simp_all add: invalidate_def completedIn_def)

lemma republish_retire [simp]:
  "completedIn (republish (retireSignRetry c)) = completedIn c" "keyIn (republish (retireSignRetry c)) = keyIn c"
  unfolding completedIn_def keyIn_def fun_eq_iff republish_sel map_of_retire
  subgoal by (simp add: option.case_eq_if)
  subgoal by (simp add: option.map_comp comp_def)
  done

lemma active_holds: "active (fPoint fr) \<Longrightarrow> holds fr"
  by (simp add: active_def holds_def)

lemma completes_other:
  assumes "exclusive s" "i < length (calls s)" "j < length (calls s)" "i \<noteq> j" "active (fPoint (calls s ! j))"
    and "completes (ctl s) (calls s ! i) r"
  shows "completionResult (fst r) = completionResult (ctl s)" "completedIn (fst r) = completedIn (ctl s)"
proof -
  have "\<not> holds (calls s ! i)" using assms(1-5) active_holds unfolding exclusive_def by blast
  then have "\<not> active (fPoint (calls s ! i))" using active_holds by blast
  then show "completionResult (fst r) = completionResult (ctl s)" "completedIn (fst r) = completedIn (ctl s)"
    using assms(6) by (simp_all add: completes_def fun_eq_iff)
qed

lemma step_committed:
  assumes e: "exclusive s" and c: "committed s"
  shows "committed (ctlStep cfg env act s)"
proof (cases rule: step_cases [of cfg env act s])
  case (entered r)
  then show ?thesis using c upd_keys [of "fst r" "ctl s"]
    by (auto simp: committed_def enter_def beginsQuietly_def active_def)
next
  case (resumed i fr c' fr' b)
  define cs where "cs = (calls s)[i := fr']"
  have "completedIn c' (fDelivery (cs ! j)) = None \<and> \<not> isSet (completionResult c')"
    if "j < length (calls s)" "active (fPoint (cs ! j))" for j
  proof (cases "j = i")
    case True
    then have "active (fPoint fr')" "fDelivery fr' = fDelivery fr" using that resumed(1,4) by (auto simp: takes_def cs_def)
    moreover from this have "completionResult c' = completionResult (ctl s)" "completedIn c' = completedIn (ctl s)"
      "active (fPoint fr) \<or> opens (ctl s) fr" using resumed(3) by (auto simp: writesOk_def completes_def fun_eq_iff)
    ultimately show ?thesis using c resumed(1,2) that True by (auto simp: committed_def opens_def cs_def)
  next
    case False
    then have a: "active (fPoint (calls s ! j))" using that by (simp add: cs_def)
    have "completes (ctl s) (calls s ! i) (c', fr')" using resumed(2,3) by (simp add: writesOk_def)
    note o = completes_other [OF e resumed(1) that(1) _ a this]
    show ?thesis using False o c a that by (auto simp: committed_def cs_def)
  qed
  then show ?thesis by (auto simp: committed_def resumed(6) in_set_conv_nth cs_def)
next
  case withdrawn
  then show ?thesis by (simp add: committed_def isSet_def)
next
  case retireRetry
  then show ?thesis using c by (simp add: committed_def)
next
  case refused
  then show ?thesis using c by simp
qed

lemma step_keyed:
  assumes k: "keyed s"
  shows "keyed (ctlStep cfg env act s)"
proof (cases rule: step_cases [of cfg env act s])
  case (entered r)
  have n: "operationKey LoadCall = None" by (simp add: operationKey_def)
  have b: "deliveries (fst r) = deliveries (ctl s)" "invalidated (fst r) = invalidated (ctl s)" "\<not> inOperation (fPoint (snd r))"
    "portCalls (fst r) = portCalls (ctl s) \<or> portCalls (fst r) = portCalls (ctl s) @ [LoadCall]"
    using entered(2) by (simp_all add: beginsQuietly_def)
  have p: "p \<in> set (portCalls (ctl s))" if "p \<in> set (portCalls (fst r))" "operationKey p = Some x" for p x
    using that n b(4) by auto
  show ?thesis
  proof (cases "invalidated (ctl s)")
    case True
    have "keysAgree (portCalls (fst r))" using k p unfolding keyed_def keysAgree_def by blast
    then show ?thesis using True b(2) by (simp add: keyed_def entered(1) enter_def)
  next
    case False
    have "keyIn (fst r) d = Some op" if "p' \<in> set (portCalls (fst r))" "operationKey p' = Some (d, op)" for p' d op
      using keyed_call [OF k False p [OF that] that(2)] by (simp add: upd_keys(1) [OF b(1)])
    then show ?thesis unfolding entered(1)
      using keyed_frame [OF k False] b(3) by (intro keyedI) (auto simp: enter_def upd_keys(1) [OF b(1)])
  qed
next
  case (resumed i fr c' fr' b)
  show ?thesis
  proof (cases "invalidated (ctl s)")
    case True
    then have "portCalls c' = portCalls (ctl s)" using step_silent [OF True, of cfg env act] by (simp add: resumed(6))
    then show ?thesis using k True resumed(5) by (simp add: keyed_def resumed(6))
  next
    case False
    obtain new where new: "portCalls c' = portCalls (ctl s) @ new" "\<forall>p\<in>set new. mayCall (ctl s) fr c' p"
      using resumed(3) by (auto simp: writesOk_def addsCalls_def)
    have keep: "\<And>d. keyIn (ctl s) d \<noteq> None \<Longrightarrow> keyIn c' d = keyIn (ctl s) d"
      and mem: "fr \<in> set (calls s)"
      using resumed(1-3) by (auto simp: writesOk_def completes_def)
    have live: "keyIn c' (fDelivery fr) \<noteq> None" if "active (fPoint fr)"
      using keyed_frame [OF k False mem] that keep by (simp add: active_def)
    have key: "keyIn c' d = Some op" if "p \<in> set (portCalls c')" "operationKey p = Some (d, op)" for p d op
    proof (cases "p \<in> set new")
      case True
      then have m: "mayCall (ctl s) fr c' p" using new by blast
      have "deliveryOf p \<noteq> None" using that(2) by (auto simp: operationKey_def deliveryOf_def split: port_call.splits)
      then have "keyIn c' d \<noteq> None" using m that(2) live by (auto simp: mayCall_def)
      then show ?thesis using m that(2) by (auto simp: mayCall_def)
    next
      case old: False
      then have "p \<in> set (portCalls (ctl s))" using that(1) new(1) by simp
      then have "keyIn (ctl s) d = Some op" using keyed_call [OF k False _ that(2)] by simp
      then show ?thesis using keep by simp
    qed
    have "keyIn c' (fDelivery f) \<noteq> None" if "f \<in> set ((calls s)[i := fr'])" "inOperation (fPoint f)" for f
    proof (cases "f \<in> set (calls s)")
      case True
      then show ?thesis using keyed_frame [OF k False _ that(2)] keep by simp
    next
      case new: False
      then have "f = fr'" using that(1) set_update_subset_insert by fast
      then have "inOperation (fPoint fr) \<or> keyIn c' (fDelivery fr) \<noteq> None" "fDelivery f = fDelivery fr"
        using that(2) resumed(3,4) by (auto simp: writesOk_def completes_def takes_def)
      then show ?thesis using keyed_frame [OF k False mem] keep by auto
    qed
    then show ?thesis unfolding resumed(6) by (intro keyedI) (simp_all add: key)
  qed
next
  case withdrawn
  then show ?thesis using k by (simp add: keyed_def)
next
  case retireRetry
  then show ?thesis using k by (simp add: keyed_def keyedLive_def)
next
  case refused
  then show ?thesis using k by simp
qed

lemma initial_ok: "committed (initialSystem cfg)" "keyed (initialSystem cfg)"
  by (simp_all add: committed_def keyed_def keysAgree_def keyedLive_def initialSystem_def initialController_def Let_def)

lemma reach_ok: "namedReach cfg s \<Longrightarrow> committed s \<and> keyed s"
  by (induction rule: namedReach.induct) (simp_all add: initial_ok step_committed step_keyed reach_exclusive)


text \<open>The calls of one delivery.\<close>

definition callsFor :: "string \<Rightarrow> controller \<Rightarrow> port_call list" where
  "callsFor d c = filter (\<lambda>p. deliveryOf p = Some d) (portCalls c)"

lemma completedIn_getDelivery: "completedIn c d = Some out \<longleftrightarrow> (\<exists>x. getDelivery c d = Some x \<and> completed x = Some out)"
  by (auto simp: completedIn_def getDelivery_def bind_eq_Some_conv)

lemma step_completed:
  assumes m: "committed s" and d: "completedIn (ctl s) d = Some out"
  shows "callsFor d (ctl (ctlStep cfg env act s)) = callsFor d (ctl s) \<and>
    (invalidated (ctl (ctlStep cfg env act s)) \<or> completedIn (ctl (ctlStep cfg env act s)) d = Some out)"
proof (cases rule: step_cases [of cfg env act s])
  case (entered r)
  then show ?thesis using d upd_keys(2) [of "fst r" "ctl s"]
    by (auto simp: enter_def beginsQuietly_def callsFor_def deliveryOf_def)
next
  case (resumed i fr c' fr' b)
  have n: "\<not> (active (fPoint fr) \<and> fDelivery fr = d)" using m d resumed(1,2) by (force simp: committed_def)
  obtain new where new: "portCalls c' = portCalls (ctl s) @ new" "\<forall>p\<in>set new. mayCall (ctl s) fr c' p"
    using resumed(3) by (auto simp: writesOk_def addsCalls_def)
  have "deliveryOf p \<noteq> Some d" if "p \<in> set new" for p
    using new(2) that n d by (auto simp: mayCall_def opens_def)
  then have "callsFor d c' = callsFor d (ctl s)" using new(1) by (simp add: callsFor_def filter_empty_conv)
  moreover have "completedIn c' d = Some out" using resumed(3) n d by (auto simp: writesOk_def completes_def split: if_splits)
  ultimately show ?thesis by (simp add: resumed(6) callsFor_def)
next
  case withdrawn
  then show ?thesis by (simp add: callsFor_def)
next
  case retireRetry
  then show ?thesis using d by (simp add: callsFor_def)
next
  case refused
  then show ?thesis using d by simp
qed

definition effectCalls :: "controller \<Rightarrow> port_call list" where
  "effectCalls c = filter (\<lambda>p. deliveryOf p \<noteq> None) (portCalls c)"

lemma step_submitted:
  assumes m: "committed s" and d: "isSet (completionResult (ctl s))"
  shows "effectCalls (ctl (ctlStep cfg env act s)) = effectCalls (ctl s) \<and>
    (invalidated (ctl (ctlStep cfg env act s)) \<or> completionResult (ctl (ctlStep cfg env act s)) = completionResult (ctl s))"
proof (cases rule: step_cases [of cfg env act s])
  case (entered r)
  then show ?thesis using d by (auto simp: enter_def beginsQuietly_def deliveryOf_def effectCalls_def)
next
  case (resumed i fr c' fr' b)
  have n: "\<not> active (fPoint fr)" using m d resumed(1,2) by (force simp: committed_def)
  obtain new where new: "portCalls c' = portCalls (ctl s) @ new" "\<forall>p\<in>set new. mayCall (ctl s) fr c' p"
    using resumed(3) by (auto simp: writesOk_def addsCalls_def)
  have "deliveryOf p = None" if "p \<in> set new" for p
    using new(2) that n d by (auto simp: mayCall_def opens_def)
  moreover have "completionResult c' = completionResult (ctl s)" using resumed(3) n by (simp add: writesOk_def completes_def)
  ultimately show ?thesis using new(1) by (auto simp: resumed(6) effectCalls_def filter_empty_conv)
qed (use d in \<open>auto simp: effectCalls_def\<close>)


text \<open>The states an execution may pass through after a given one.\<close>

inductive later :: "ctl_config \<Rightarrow> system \<Rightarrow> system \<Rightarrow> bool" for cfg s where
  after_none: "later cfg s s"
| after_step: "later cfg s s' \<Longrightarrow> later cfg s (ctlStep cfg env act s')"

inductive namedLater :: "ctl_config \<Rightarrow> system \<Rightarrow> system \<Rightarrow> bool" for cfg s where
  later_refl: "namedLater cfg s s"
| later_step: "namedLater cfg s s' \<Longrightarrow> namedCalls (ctlStep cfg env act s') \<Longrightarrow> namedLater cfg s (ctlStep cfg env act s')"

lemma later_named: "later cfg s s' \<Longrightarrow> namedCalls s' \<Longrightarrow> namedLater cfg s s'"
  by (induction rule: later.induct) (auto intro: later_refl later_step dest: step_named)

lemma later_namedCalls: "later cfg s s' \<Longrightarrow> namedCalls s' \<Longrightarrow> namedCalls s"
  by (induction rule: later.induct) (auto dest: step_named)

lemma reach_later: "namedLater cfg s s' \<Longrightarrow> namedReach cfg s \<Longrightarrow> namedReach cfg s'"
  by (induction rule: namedLater.induct) (simp_all add: reach_step)

lemma later_completed:
  assumes "namedLater cfg s s'" "namedReach cfg s" "completedIn (ctl s) d = Some out"
  shows "callsFor d (ctl s') = callsFor d (ctl s) \<and> (invalidated (ctl s') \<or> completedIn (ctl s') d = Some out)"
  using assms(1)
proof induction
  case later_refl
  then show ?case using assms by simp
next
  case (later_step s' env act)
  have r: "committed s'" using reach_ok reach_later [OF later_step.hyps(1) assms(2)] by blast
  show ?case
  proof (cases "invalidated (ctl s')")
    case True
    then show ?thesis using step_silent [OF True, of cfg env act] later_step.IH by (simp add: callsFor_def)
  next
    case False
    then show ?thesis using step_completed [OF r, of d out cfg env act] later_step.IH by auto
  qed
qed

lemma later_submitted:
  assumes "namedLater cfg s s'" "namedReach cfg s" "isSet (completionResult (ctl s))"
  shows "effectCalls (ctl s') = effectCalls (ctl s) \<and> (invalidated (ctl s') \<or> completionResult (ctl s') = completionResult (ctl s))"
  using assms(1)
proof induction
  case later_refl
  then show ?case by simp
next
  case (later_step s' env act)
  have r: "committed s'" using reach_ok reach_later [OF later_step.hyps(1) assms(2)] by blast
  show ?case
  proof (cases "invalidated (ctl s')")
    case True
    then show ?thesis using step_silent [OF True, of cfg env act] later_step.IH by (simp add: effectCalls_def)
  next
    case False
    then show ?thesis using step_submitted [OF r, of cfg env act] later_step.IH assms(3) by auto
  qed
qed

section \<open>Every effect returns\<close>

text \<open>How many awaits a dispatched effect still has before it returns to the engine.\<close>

definition awaits :: "point \<Rightarrow> nat" where
  "awaits p = (case p of
     AtValidation \<Rightarrow> 12 | AtHash \<Rightarrow> 11
   | AtCheckpointSave \<Rightarrow> 10 | AtCheckpointEvidence \<Rightarrow> 9 | AtCheckpointCommit \<Rightarrow> 8 | AtStart \<Rightarrow> 7
   | AtSubmitOptions \<Rightarrow> 8 | AtCapture \<Rightarrow> 7 | AtComplete \<Rightarrow> 6
   | AtSave \<Rightarrow> 6 | AtSaveEvidence \<Rightarrow> 5 | AtPrepare \<Rightarrow> 6 | AtPrepareEvidence \<Rightarrow> 5 | AtSign \<Rightarrow> 6 | AtSignEvidence \<Rightarrow> 5
   | AtCommit _ \<Rightarrow> 4 | AtFinally _ \<Rightarrow> 3 | AtJoin _ \<Rightarrow> 1 | _ \<Rightarrow> 0)"

text \<open>What the world answers: whatever is awaited, an answer of its kind.\<close>

record answers =
  validAnswer :: "ctl_error + bool"
  hashAnswer :: "ctl_error + string"
  portReply :: "ctl_error + jsval"

definition answerAt :: "point \<Rightarrow> answers \<Rightarrow> answer" where
  "answerAt p w = (case p of
     AtValidation \<Rightarrow> Valid (validAnswer w) | AtHash \<Rightarrow> Hash (hashAnswer w)
   | AtCheckpointSave \<Rightarrow> Value (portReply w) | AtStart \<Rightarrow> Value (portReply w) | AtSave \<Rightarrow> Value (portReply w)
   | AtPrepare \<Rightarrow> Value (portReply w) | AtSign \<Rightarrow> Value (portReply w) | AtSubmitOptions \<Rightarrow> Value (portReply w)
   | AtCapture \<Rightarrow> Value (portReply w) | AtComplete \<Rightarrow> Value (portReply w)
   | AtCheckpointEvidence \<Rightarrow> Checked (validAnswer w) (hashAnswer w) | AtSaveEvidence \<Rightarrow> Checked (validAnswer w) (hashAnswer w)
   | AtPrepareEvidence \<Rightarrow> Checked (validAnswer w) (hashAnswer w) | AtSignEvidence \<Rightarrow> Checked (validAnswer w) (hashAnswer w)
   | _ \<Rightarrow> Resolved)"

definition waits :: "controller \<Rightarrow> frame \<Rightarrow> bool" where
  "waits c fr = (case fPoint fr of AtJoin n \<Rightarrow> map_of (promises c) n = None | _ \<Rightarrow> False)"

lemma awaits_simps [simp]:
  "awaits AtValidation = 12" "awaits AtHash = 11" "awaits AtCheckpointSave = 10" "awaits AtCheckpointEvidence = 9"
  "awaits AtCheckpointCommit = 8" "awaits AtStart = 7" "awaits AtSubmitOptions = 8" "awaits AtCapture = 7"
  "awaits AtComplete = 6" "awaits AtSave = 6" "awaits AtSaveEvidence = 5" "awaits AtPrepare = 6"
  "awaits AtPrepareEvidence = 5" "awaits AtSign = 6" "awaits AtSignEvidence = 5" "awaits (AtCommit out) = 4"
  "awaits (AtFinally r) = 3" "awaits (AtJoin n) = 1" "awaits (AtEngine r') = 0"
  "awaits AtWidgetValidation = 0" "awaits AtFrozenValidation = 0" "awaits AtRefresh = 0" "awaits AtDraftEvidence = 0"
  "awaits AtDraftCommit = 0" "awaits AtPendingEvidence = 0" "awaits AtPendingPort = 0" "awaits AtPendingSelected = 0"
  "awaits AtSignedEvidence = 0" "awaits AtRestoredCommit = 0" "awaits (AtEnd e') = 0"
  by (simp_all add: awaits_def)

lemma settle_awaits [simp]: "fPoint (snd (settle r c fr)) = AtFinally r"
  by (simp add: settle_def)

lemma effect_point [simp]:
  "awaits (fPoint (snd (effectFailed cfg e c fr))) = 0" "awaits (fPoint (effectDone out fr)) = 0"
  by (simp_all add: effectFailed_eq effectDone_def)

lemma commit_awaits: "awaits (fPoint (snd (commit cfg v c fr))) < 5"
  by (simp add: commit_def split: sum.split)

lemma portAnswer_awaits: "(\<And>r. awaits (fPoint (snd (k r))) < n) \<Longrightarrow> 3 < n \<Longrightarrow> awaits (fPoint (snd (portAnswer c fr v k))) < n"
  by (simp add: portAnswer_def split: sum.split)

lemma completeNow_awaits: "awaits (fPoint (snd (completeNow cfg env p c fr))) < 7"
  by (simp add: completeNow_def split: sum.split)

lemma beginOperation_awaits: "awaits (fPoint (snd (beginOperation cfg env c fr))) < 11"
proof -
  have "awaits (fPoint (snd (completeNow cfg env p c fr))) < 11" for p
    using completeNow_awaits [of cfg env p c fr] by simp
  then show ?thesis
    by (simp add: beginOperation_def beginStart_def callStart_def beginSign_def Let_def split: sum.split option.split role.split)
qed

lemma hashed_awaits: "awaits (fPoint (snd (hashedPerform cfg env h c fr))) < 11"
  by (simp add: hashedPerform_def runDelivery_def beginOperation_awaits Let_def split: sum.split admission_step.split)

lemma validated_awaits: "awaits (fPoint (snd (validated cfg env r c fr))) < 12"
  by (auto simp: validated_def dest!: admitPerform_Inr split: sum.split)

lemma captured_awaits: "awaits (fPoint (snd (captured cfg env v c fr))) < 7"
  using completeNow_awaits by (simp add: captured_def split: sum.split)

lemma finish_awaits: "awaits (fPoint (snd (finishOperation cfg r c fr))) < 3"
  by (simp add: finishOperation_def Let_def split: sum.split)

lemma joined_awaits: "map_of (promises c) n \<noteq> None \<Longrightarrow> awaits (fPoint (snd (joined cfg n c fr))) = 0"
  by (auto simp: joined_def split: sum.split)

lemma evidence_awaits:
  "awaits (fPoint (snd (savedChecked cfg v h c fr))) < 5" "awaits (fPoint (snd (preparedChecked cfg v h c fr))) < 5"
  "awaits (fPoint (snd (signatureChecked cfg v h c fr))) < 5"
  using commit_awaits by (simp_all add: savedChecked_def preparedChecked_def signatureChecked_def split: sum.split)

lemma start_awaits:
  "awaits (fPoint (snd (checkpointSaved w c fr))) < 10" "awaits (fPoint (snd (checkpointChecked cfg v h c fr))) < 9"
  "awaits (fPoint (snd (checkpointCommitted c fr))) < 8" "awaits (fPoint (snd (started cfg w c fr))) < 7"
  "awaits (fPoint (snd (submitOptions cfg w c fr))) < 8" "awaits (fPoint (snd (submitted cfg w c fr))) < 6"
  by (simp_all add: checkpointSaved_def checkpointChecked_def checkpointCommitted_def callStart_def started_def awaitEvidence_def
      submitOptions_def submitted_def portAnswer_awaits Let_def split: sum.split)

lemma resume_awaits:
  assumes "awaits (fPoint fr) \<noteq> 0" "\<not> waits c fr"
  shows "awaits (fPoint (snd (resume cfg env (answerAt (fPoint fr) w) c fr))) < awaits (fPoint fr)"
  using assms
  by (cases "fPoint fr") (simp_all add: resume_def answerAt_def on_defs waits_def validated_awaits hashed_awaits joined_awaits
      start_awaits evidence_awaits captured_awaits finish_awaits awaitEvidence_def portAnswer_awaits)

text \<open>
  A dispatched effect driven to its end. \<open>world\<close> is everything else: before each resumption it may
  change the controller as it likes (other calls run, the owner withdraws), and it answers what is
  awaited.
\<close>

function drive :: "ctl_config \<Rightarrow> (controller \<Rightarrow> frame \<Rightarrow> controller \<times> ctl_env \<times> answers) \<Rightarrow> controller \<Rightarrow> frame \<Rightarrow> controller \<times> frame" where
  "drive cfg world c fr =
    (if awaits (fPoint fr) = 0 then (c, fr)
     else case world c fr of (c', env, w) \<Rightarrow>
       if waits c' fr then (c', fr)
       else case resume cfg env (answerAt (fPoint fr) w) c' fr of (c'', fr') \<Rightarrow> drive cfg world c'' fr')"
  by pat_completeness auto

termination drive
proof (relation "measure (\<lambda>(cfg, world, c, fr). awaits (fPoint fr))")
  fix cfg c fr c' y env w c'' fr' and world :: "controller \<Rightarrow> frame \<Rightarrow> controller \<times> ctl_env \<times> answers"
  assume a: "awaits (fPoint fr) \<noteq> 0" "(c', y) = world c fr" "(env, w) = y" "\<not> waits c' fr"
    "(c'', fr') = resume cfg env (answerAt (fPoint fr) w) c' fr"
  have "awaits (fPoint fr') < awaits (fPoint fr)"
    using resume_awaits [OF a(1,4), of cfg env w] unfolding a(5) [symmetric] by simp
  then show "((cfg, world, c'', fr'), cfg, world, c, fr) \<in> measure (\<lambda>(cfg, world, c, fr). awaits (fPoint fr))"
    by simp
qed simp

declare drive.simps [simp del]

text \<open>An operation stays in its promise until it returns to the engine with the busy flag released.\<close>

definition runsOn :: "string \<Rightarrow> controller \<times> frame \<Rightarrow> bool" where
  "runsOn d r = (fDelivery (snd r) = d \<and> (inOperation (fPoint (snd r)) \<or>
     (\<exists>o1. fPoint (snd r) = AtEngine (Some o1)) \<and> busy (fst r) \<noteq> Some d))"

lemma operates_runs: "operates c fr r \<Longrightarrow> fDelivery (snd r) = fDelivery fr \<Longrightarrow> runsOn (fDelivery fr) r"
  by (simp add: operates_def runsOn_def)

lemma finish_runs: "fPoint fr = AtFinally r \<Longrightarrow> runsOn (fDelivery fr) (finishOperation cfg r c fr)"
  by (simp add: finishOperation_def effectFailed_eq effectDone_def runsOn_def Let_def split: sum.split)

lemma resume_runs:
  assumes "inOperation (fPoint fr)"
  shows "runsOn (fDelivery fr) (resume cfg env a c fr)"
proof -
  have d: "fDelivery (snd (resume cfg env a c fr)) = fDelivery fr"
    using resume_takes [of c fr cfg env a] by (simp add: takes_def)
  have "operates c fr (resume cfg env a c fr) \<or> runsOn (fDelivery fr) (resume cfg env a c fr)"
  proof (rule resume_P)
    show "operates c fr (c, fr) \<or> runsOn (fDelivery fr) (c, fr)" using assms by (simp add: runsOn_def)
  qed (use assms in \<open>simp_all add: segment_operates submitted_operates portAnswer_operates operates_await operates_settle finish_runs\<close>)
  then show ?thesis using d operates_runs by blast
qed

lemma drive_ends: "awaits (fPoint (snd (drive cfg world c fr))) = 0 \<or> waits (fst (drive cfg world c fr)) (snd (drive cfg world c fr))"
proof (induction cfg world c fr rule: drive.induct)
  case (1 cfg world c fr)
  then show ?case by (subst (1 2 3) drive.simps) (auto split: prod.split)
qed

lemma drive_runs:
  "inOperation (fPoint fr) \<Longrightarrow> runsOn (fDelivery fr) (drive cfg world c fr)"
proof (induction cfg world c fr rule: drive.induct)
  case (1 cfg world c fr)
  obtain c' env w where w: "world c fr = (c', env, w)" by (cases "world c fr")
  obtain c'' fr' where r: "resume cfg env (answerAt (fPoint fr) w) c' fr = (c'', fr')" by fastforce
  have nz: "awaits (fPoint fr) \<noteq> 0" using 1 (2) by (cases "fPoint fr") simp_all
  have nw: "\<not> waits c' fr" using 1 (2) by (cases "fPoint fr") (simp_all add: waits_def)
  have d: "drive cfg world c fr = drive cfg world c'' fr'" by (subst drive.simps) (simp add: nz nw w r)
  have ro: "runsOn (fDelivery fr) (c'', fr')" using resume_runs [OF 1(2), of cfg env "answerAt (fPoint fr) w" c'] by (simp add: r)
  show ?case
  proof (cases "inOperation (fPoint fr')")
    case True
    then show ?thesis using 1(1) [OF nz w [symmetric] refl nw r [symmetric] True] ro d by (simp add: runsOn_def)
  next
    case False
    then have "drive cfg world c'' fr' = (c'', fr')" using ro by (subst drive.simps) (auto simp: runsOn_def)
    then show ?thesis using ro d by simp
  qed
qed


section \<open>Guarantees\<close>

text \<open>C6. One operation at a time: in every reachable state whose calls carry non-empty invocation ids
  at most one call is inside the promise of a delivery, however the calls of the controller
  interleave. (The busy flag is tested for truth, so an empty id does not hold it.)\<close>

theorem one_operation_at_a_time:
  assumes "reach cfg s" "namedCalls s" "i < length (calls s)" "j < length (calls s)"
    and "inOperation (fPoint (calls s ! i))" "inOperation (fPoint (calls s ! j))"
  shows "i = j"
  using reach_exclusive [OF reach_namedReach [OF assms(1,2)]] assms(3-6) unfolding exclusive_def holds_def by blast

text \<open>C7. A completed delivery is never executed again: whatever happens after it completed, as long as
  no call carries an empty invocation id, no port call is made for it, and its outputs stay those it
  completed with until the controller is retired.\<close>

theorem completed_delivery_never_redone:
  assumes "reach cfg s" "getDelivery (ctl s) d = Some x" "completed x = Some out" "later cfg s s'" "namedCalls s'"
  shows "callsFor d (ctl s') = callsFor d (ctl s) \<and>
    (\<not> invalidated (ctl s') \<longrightarrow> (\<exists>x'. getDelivery (ctl s') d = Some x' \<and> completed x' = Some out))"
proof -
  have "namedReach cfg s"
    using reach_namedReach [OF assms(1)] later_namedCalls [OF assms(4,5)] by blast
  then show ?thesis using later_completed [OF later_named [OF assms(4,5)], of d out] assms(2,3) by (auto simp: completedIn_getDelivery)
qed

text \<open>A delivery keeps its operation key: two port calls made for the same delivery, first attempt or
  retry, checkpoint or effect, carry the same key.\<close>

theorem delivery_keeps_its_key:
  assumes "reach cfg s" "namedCalls s" "p \<in> set (portCalls (ctl s))" "q \<in> set (portCalls (ctl s))"
    and "operationKey p = Some (d, k)" "operationKey q = Some (d, k')"
  shows "k = k'"
  using reach_ok [OF reach_namedReach [OF assms(1,2)]] assms(3-6) unfolding keyed_def keysAgree_def by blast

text \<open>C20. A confirmed submission is final: once the completion has confirmed it, and as long as no call
  carries an empty invocation id, no save, preparation, signature, start or completion is dispatched
  any more, and the result stays until the controller is retired.\<close>

theorem confirmed_submission_final:
  assumes "reach cfg s" "isSet (completionResult (ctl s))" "later cfg s s'" "namedCalls s'"
  shows "effectCalls (ctl s') = effectCalls (ctl s) \<and>
    (\<not> invalidated (ctl s') \<longrightarrow> completionResult (ctl s') = completionResult (ctl s))"
proof -
  have "namedReach cfg s" using reach_namedReach [OF assms(1)] later_namedCalls [OF assms(3,4)] by blast
  then show ?thesis using later_submitted [OF later_named [OF assms(3,4)] _ assms(2)] by auto
qed

text \<open>C22. Every operation returns: whatever the ports answer and whatever other calls do in between, a
  call inside a delivery's promise is back at the engine with an outcome, and has released the busy
  flag. (\<open>drive\<close> is total: each resumption leaves fewer awaits.)\<close>

theorem operation_returns:
  assumes "inOperation (fPoint fr)"
  shows "\<exists>o1. fPoint (snd (drive cfg world c fr)) = AtEngine (Some o1) \<and> busy (fst (drive cfg world c fr)) \<noteq> Some (fDelivery fr)"
proof -
  let ?r = "drive cfg world c fr"
  have "\<not> inOperation (fPoint (snd ?r))" using drive_ends [of cfg world c fr]
    by (cases "fPoint (snd ?r)") (simp_all add: waits_def)
  then show ?thesis using drive_runs [OF assms, of cfg world c] by (simp add: runsOn_def)
qed

end
