(* ===== verification/Controller_Cases.thy ===== *)
theory Controller_Cases
  imports Controller_Safety
begin

text \<open>
  The response-action controller at work: a small admitted form whose calls are evaluated step by
  step. The traces give the guarantees of \<open>Controller_Safety\<close> concrete instances, and show three
  interleavings that the guards of the source do not cover.

  \<open>jsText\<close> stands for the canonical JSON package, without the member names to keep the texts short; ports, engine and host answer as each trace says.
\<close>


section \<open>A form and its ports\<close>

fun jsText :: "jsval \<Rightarrow> string" where
  "jsText Undefined = ''u''"
| "jsText Null = ''n''"
| "jsText (Bool b) = (if b then ''t'' else ''f'')"
| "jsText (Num n) = (case integerOf (Num n) of Some i \<Rightarrow> showNat (nat i) | None \<Rightarrow> ''?'')"
| "jsText (Str s) = CHR 0x22 # s @ [CHR 0x22]"
| "jsText (Arr xs) = CHR ''['' # concat (map jsText xs) @ '']''"
| "jsText (Obj ps) = CHR ''{'' # concat (map (\<lambda>p. jsText (snd p)) ps) @ ''}''"

definition exampleAdmission :: "role \<Rightarrow> jsval" where
  "exampleAdmission r = Obj [(''document'', Obj [(''targetDefinition'', Obj [(''url'', Str ''F'')])]),
     (''actionRef'', Str (roleName r)), (''requestRef'', Str ''q''), (''artifactRef'', Str ''a''), (''artifactDigest'', Str ''b''),
     (''widgetSource'', Str ''w''), (''responseSource'', Obj [(''inputName'', Str ''response''), (''catalogRef'', Str ''c''), (''sourceRef'', Str ''s'')])]"

definition exampleAction :: "jsval \<Rightarrow> jsval" where
  "exampleAction ref = Obj [(''intent'', if ref = Str ''startApplication'' then Str ''x-start-application'' else Str ''x-test''),
     (''validation'', if ref = Str ''startApplication'' then startTuple else checkpointTuple),
     (''effects'', Arr [Obj [(''type'', Str ''serviceRequest''), (''requestRef'', Str ''q''), (''idempotencyKey'', Str ''@invocation.id'')]])]"

definition exampleConfig :: "role list \<Rightarrow> jsval \<Rightarrow> ctl_config" where
  "exampleConfig rs restored = \<lparr>controllerContext = Obj [(''definition'', Obj [(''url'', Str ''F''), (''version'', Str ''1'')]),
       (''draftKey'', Obj [(''formUrl'', Str ''F''), (''formVersion'', Str ''1'')]),
       (''publication'', Obj [(''formId'', Str ''f''), (''formVersionId'', Str ''v'')]),
       (''responseId'', Str ''r''), (''generation'', Str ''g'')],
     roles = map (\<lambda>r. (r, exampleAdmission r)) rs,
     restoredResponse = restored, restoredApplication = Undefined, restoredApplicationLookup = Undefined,
     lifecycleCapabilities = Obj [(''earlyCaseCreation'', Bool True), (''formVersionId'', Str ''v'')],
     completionKind = Some ''intake'', admitCompletion = (\<lambda>_. Inr ()), reconcileSignRetries = True, restoresPending = True,
     uuids = \<lparr>validateUuid = (\<lambda>_. True), uuidVersion = (\<lambda>_. 7)\<rparr>, canonicalize = (\<lambda>v. Some (jsText v)),
     resolveAction = (\<lambda>_. exampleAction), resolveTuple = (\<lambda>act. getp act ''validation''),
     resolveServiceRequest = (\<lambda>_ _. Inr (Obj [(''successStatuses'', Arr [jsInt 200]), (''outputs'', Obj [])])),
     planServiceRequest = (\<lambda>_ _. Inr (Obj [(''method'', Str ''POST''), (''path'', Str ''/drafts/d/sign'')])),
     transitionBindings = (\<lambda>_ _. Inr [])\<rparr>"

definition exampleWording :: jsval where
  "exampleWording = Obj [(''source'', Str ''entries/en''), (''locale'', Str ''en'')]"

definition exampleEnv :: "string \<Rightarrow> ctl_env" where
  "exampleEnv k = \<lparr>signingContext = Inr exampleWording, reviewReady = (\<lambda>_ _. Inr True), freshKey = k\<rparr>"

text \<open>Revisions of one response, a digest, and the evidence of a port for them.\<close>

definition exampleResponse :: "string \<Rightarrow> jsval" where
  "exampleResponse x = Obj [(''id'', Str ''r''), (''definitionUrl'', Str ''F''), (''definitionVersion'', Str ''1''), (''data'', Str x)]"

definition exampleDigest :: "char \<Rightarrow> string" where
  "exampleDigest x = replicate 64 x"

definition exampleEvidence :: "string \<Rightarrow> jsval \<Rightarrow> char \<Rightarrow> int \<Rightarrow> jsval" where
  "exampleEvidence subject response h version = Obj [(''draftKey'', Obj [(''formUrl'', Str ''F''), (''formVersion'', Str ''1'')]),
     (''response'', response), (''draft'', Obj [(''id'', Str ''d''), (''version'', jsInt version), (''responseHash'', Str (exampleDigest h))]),
     (''actor'', Obj [(''id'', Str ''p'')]),
     (''evidence'', Obj [(''draft_id'', Str ''d''), (''form_version_id'', Str ''v''), (''subject_ref'', Str subject), (''draft_version'', jsInt version),
        (''draft_state'', getp response ''data''), (''canonical_response'', response), (''status'', Str ''in_progress'')]),
     (''content'', exampleWording),
     (''verification'', Obj [(''mode'', Str ''delegated-service-key''), (''provider'', Str ''x''), (''keyId'', Str ''y'')])]"

text \<open>An invoked action up to the digest of its response, and its operation from there.\<close>

definition invoke :: "role \<Rightarrow> string \<Rightarrow> jsval \<Rightarrow> nat \<Rightarrow> (ctl_env \<times> ctl_action) list" where
  "invoke r d response i = map (Pair (exampleEnv (d @ ''-key'')))
     [Definition (Some d) (getp (exampleAdmission r) ''document'') (Str (roleName r)) Undefined,
      Resume i (Engine (EngineDispatch response)), Resume i (Valid (Inr True))]"

definition hashed :: "char \<Rightarrow> nat \<Rightarrow> (ctl_env \<times> ctl_action) list" where
  "hashed h i = [(exampleEnv ''hash-key'', Resume i (Hash (Inr (exampleDigest h))))]"

definition answered :: "jsval \<Rightarrow> char \<Rightarrow> nat \<Rightarrow> (ctl_env \<times> ctl_action) list" where
  "answered v h i = map (Pair (exampleEnv ''port-key'')) [Resume i (Value (Inr v)), Resume i (Checked (Inr True) (Inr (exampleDigest h))),
     Resume i Resolved, Resume i Resolved, Resume i (Engine (EngineReturn ''completed'' Null))]"

definition effect :: "role \<Rightarrow> string \<Rightarrow> string \<Rightarrow> char \<Rightarrow> int \<Rightarrow> nat \<Rightarrow> (ctl_env \<times> ctl_action) list" where
  "effect r d x h version i = invoke r d (exampleResponse x) i @ hashed h i @ answered (exampleEvidence ''p'' (exampleResponse x) h version) h i"

definition signInput :: "string \<Rightarrow> char \<Rightarrow> int \<Rightarrow> string \<Rightarrow> jsval" where
  "signInput x h version d = Obj [(''document'', getp (exampleAdmission Sign) ''document''), (''actionRef'', Str ''sign''),
     (''invocationId'', Str d), (''source'', Str ''w''),
     (''responseContext'', Obj [(''inputName'', Str ''response''), (''source'', Obj [(''catalogRef'', Str ''c''), (''sourceRef'', Str ''s'')]),
        (''definition'', Obj [(''url'', Str ''F''), (''version'', Str ''1'')]), (''response'', exampleResponse x)]),
     (''input'', Obj [(''draftId'', Str ''d''), (''draftVersion'', jsInt version), (''responseId'', Str ''r''),
        (''responseHash'', Str (exampleDigest h)), (''source'', Str ''entries/en''), (''locale'', Str ''en''),
        (''signerName'', Str ''N''), (''consentAccepted'', Bool True)])]"

definition signUntilHash :: "string \<Rightarrow> char \<Rightarrow> int \<Rightarrow> string \<Rightarrow> nat \<Rightarrow> (ctl_env \<times> ctl_action) list" where
  "signUntilHash x h version d i = map (Pair (exampleEnv (d @ ''-key'')))
     [Widget (signInput x h version d), Resume i (Valid (Inr True)),
      Resume i (Value (Inr (Obj [(''response'', exampleResponse x), (''validationTuple'', checkpointTuple),
        (''validationReport'', Obj [(''definitionUrl'', Str ''F''), (''definitionVersion'', Str ''1'')])]))),
      Resume i (Engine (EngineDispatch Undefined)), Resume i (Valid (Inr True))]"


definition restoreDraft :: "jsval \<Rightarrow> char \<Rightarrow> nat \<Rightarrow> (ctl_env \<times> ctl_action) list" where
  "restoreDraft v h i = map (Pair (exampleEnv ''k''))
     [RestoreDraft v, Resume i (Checked (Inr True) (Inr (exampleDigest h))), Resume i Resolved]"

definition overtaken :: "(ctl_env \<times> ctl_action) list" where
  "overtaken = restoreDraft (exampleEvidence ''p'' (exampleResponse ''A'') (CHR ''1'') 1) (CHR ''1'') 0 @
     effect Prepare ''p1'' ''A'' (CHR ''1'') 2 1 @
     invoke Prepare ''p2'' (exampleResponse ''B'') 2 @ hashed (CHR ''0'') 2 @ signUntilHash ''A'' (CHR ''1'') 2 ''act'' 3 @
     answered (exampleEvidence ''p'' (exampleResponse ''B'') (CHR ''0'') 3) (CHR ''0'') 2"


section \<open>Evaluation\<close>

text \<open>A trace whose calls all carry an invocation id, ending in a state with a given property.\<close>

fun traceOk :: "ctl_config \<Rightarrow> (ctl_env \<times> ctl_action) list \<Rightarrow> (system \<Rightarrow> bool) \<Rightarrow> system \<Rightarrow> bool" where
  "traceOk cfg [] P s = P s"
| "traceOk cfg ((env, act) # acts) P s = (let s' = ctlStep cfg env act s in namedCalls s' \<and> traceOk cfg acts P s')"

lemma traceOk_reach: "traceOk cfg acts P s \<Longrightarrow> namedReach cfg s \<Longrightarrow> namedReach cfg (run cfg acts s) \<and> P (run cfg acts s)"
proof (induction acts arbitrary: s)
  case (Cons x acts)
  then show ?case by (cases x) (auto simp: Let_def intro: reach_step)
qed simp

lemma traceOk_initial:
  assumes "traceOk cfg acts P (initialSystem cfg)"
  obtains s where "reach cfg s" "namedCalls s" "P s"
  using traceOk_reach [OF assms reach_init] namedReach_reach reach_named by blast


section \<open>Consent overtaken by another preparation\<close>

text \<open>
  The act names the draft it consents to, and \<open>inputGuards\<close> compares it with the preparation at
  the time of admission. The digest of the response is awaited next; a preparation that settles in
  between replaces \<open>prepared\<close>, and the signature is then requested for that one.
\<close>

definition signConfig :: ctl_config where
  "signConfig = exampleConfig [Prepare, Sign] (exampleResponse ''A'')"

definition digestAnswer :: answer where
  "digestAnswer = Hash (Inr (exampleDigest (CHR ''1'')))"

definition overtook :: "system \<Rightarrow> bool" where
  "overtook s = (3 < length (calls s) \<and> fRole (calls s ! 3) = Sign \<and>
     (case rev (portCalls (ctl (ctlStep signConfig (exampleEnv ''hash-key'') (Resume 3 digestAnswer) s))) of
        SignCall d k preparation assent # earlier \<Rightarrow> earlier = rev (portCalls (ctl s)) \<and> d = fDelivery (calls s ! 3) \<and>
          getp (fInput (calls s ! 3)) ''responseHash'' \<noteq> dot preparation [''draft'', ''responseHash'']
      | _ \<Rightarrow> False))"

lemma overtaken_trace: "traceOk signConfig overtaken overtook (initialSystem signConfig)"
  unfolding signConfig_def overtook_def digestAnswer_def by code_simp

text \<open>C39. A signature may be requested for a document other than the one consented to: in a reachable
  state a call of the signing action waits for the digest of its response, and its resumption calls
  the signing port, for its own delivery, with a preparation whose digest is not the one the act of
  that very call names; the act was compared with the preparation that was current before the await.\<close>

theorem consent_overtaken_by_preparation:
  "\<exists>cfg s env i h k preparation assent. reach cfg s \<and> namedCalls s \<and> i < length (calls s) \<and> fRole (calls s ! i) = Sign \<and>
     portCalls (ctl (ctlStep cfg env (Resume i (Hash h)) s)) =
       portCalls (ctl s) @ [SignCall (fDelivery (calls s ! i)) k preparation assent] \<and>
     getp (fInput (calls s ! i)) ''responseHash'' \<noteq> dot preparation [''draft'', ''responseHash'']"
proof -
  obtain s where s: "reach signConfig s" "namedCalls s" "overtook s" using overtaken_trace by (rule traceOk_initial)
  let ?s' = "ctlStep signConfig (exampleEnv ''hash-key'') (Resume 3 digestAnswer) s"
  from s(3) obtain k preparation assent where
    "rev (portCalls (ctl ?s')) = SignCall (fDelivery (calls s ! 3)) k preparation assent # rev (portCalls (ctl s))"
    and bad: "getp (fInput (calls s ! 3)) ''responseHash'' \<noteq> dot preparation [''draft'', ''responseHash'']"
    and at: "3 < length (calls s)" "fRole (calls s ! 3) = Sign"
    by (auto simp: overtook_def split: list.splits port_call.splits)
  then have "portCalls (ctl ?s') = portCalls (ctl s) @ [SignCall (fDelivery (calls s ! 3)) k preparation assent]"
    by (simp add: rev_eq_Cons_iff)
  with s(1,2) bad at show ?thesis unfolding digestAnswer_def by blast
qed


section \<open>The empty invocation id\<close>

text \<open>An operation under the empty id does not hold the busy flag: another one runs beside it.\<close>

definition emptyIdRun :: "(ctl_env \<times> ctl_action) list" where
  "emptyIdRun = restoreDraft (exampleEvidence ''p'' (exampleResponse ''A'') (CHR ''1'') 1) (CHR ''1'') 0 @
     invoke Prepare [] (exampleResponse ''A'') 1 @ hashed (CHR ''1'') 1 @ invoke Prepare ''p2'' (exampleResponse ''A'') 2 @ hashed (CHR ''1'') 2"

lemma run_reach: "reach cfg s \<Longrightarrow> reach cfg (run cfg acts s)"
proof (induction acts arbitrary: s)
  case (Cons x acts)
  then show ?case by (cases x) (auto intro: reach.step)
qed simp

lemma empty_id_runs_beside:
  "\<exists>s. reach signConfig s \<and> inOperation (fPoint (calls s ! 1)) \<and> inOperation (fPoint (calls s ! 2)) \<and> length (calls s) = 3"
proof (intro exI conjI)
  let ?s = "run signConfig emptyIdRun (initialSystem signConfig)"
  show "reach signConfig ?s" by (rule run_reach [OF reach.start])
  show "inOperation (fPoint (calls ?s ! 1))" "inOperation (fPoint (calls ?s ! 2))" "length (calls ?s) = 3"
    unfolding signConfig_def by code_simp+
qed


section \<open>A failed save retried after the signature\<close>

text \<open>
  \<open>newDeliveryGuard\<close> refuses a save once the response is signed, but only for a delivery it does not
  know: one that failed before keeps its entry, and its redelivery skips the guard.
\<close>

definition contentResponse :: jsval where
  "contentResponse = Obj ((''extensions'', Obj [(''x-formspec-signing-content'', Obj [(''content'', exampleWording)])]) #
     ownProps (exampleResponse ''A''))"

definition exampleSigned :: jsval where
  "exampleSigned = Obj (ownProps contentResponse @ [(''authoredSignatures'', Arr [Obj [(''signatureProvider'', Str ''x'')]])])"

definition restorePending :: "nat \<Rightarrow> (ctl_env \<times> ctl_action) list" where
  "restorePending i = map (Pair (exampleEnv ''k''))
     [RestorePending (exampleEvidence ''p'' contentResponse (CHR ''1'') 1) False,
      Resume i (Checked (Inr True) (Inr (exampleDigest (CHR ''1'')))),
      Resume i (Value (Inr (Obj [(''kind'', Str ''signed''), (''signed'', exampleEvidence ''p'' exampleSigned (CHR ''1'') 2)]))),
      Resume i (Checked (Inr True) (Inr (exampleDigest (CHR ''1''))))]"

definition saveRetried :: "(ctl_env \<times> ctl_action) list" where
  "saveRetried = invoke SaveOwned ''s'' contentResponse 0 @ hashed (CHR ''1'') 0 @
     map (Pair (exampleEnv ''k'')) [Resume 0 (Value (Inl OtherError)), Resume 0 Resolved, Resume 0 (Engine (EngineReturn ''failed'' Null))] @
     restorePending 1 @ invoke SaveOwned ''s'' contentResponse 2"

definition saveConfig :: ctl_config where
  "saveConfig = exampleConfig [SaveOwned, Sign] contentResponse"

definition savesAgain :: "system \<Rightarrow> bool" where
  "savesAgain s = (isSet (signed (ctl s)) \<and>
     (case rev (portCalls (ctl (ctlStep saveConfig (exampleEnv ''k'') (Resume 2 (Hash (Inr (exampleDigest (CHR ''1''))))) s))) of
        SaveCall d k r # earlier \<Rightarrow> earlier = rev (portCalls (ctl s)) | _ \<Rightarrow> False))"

lemma saveRetried_trace: "traceOk saveConfig saveRetried savesAgain (initialSystem saveConfig)"
  unfolding saveConfig_def savesAgain_def by code_simp

text \<open>C40. A save may be written after the signature: in a reachable state whose response is signed, where
  a new save is refused, the redelivery of a save that failed earlier still calls the save port.\<close>

theorem retried_save_follows_signature:
  "\<exists>cfg s env act d k r. reach cfg s \<and> namedCalls s \<and> isSet (signed (ctl s)) \<and> newDeliveryGuard (ctl s) SaveOwned = Inl (Refusal BranchMismatch) \<and>
     portCalls (ctl (ctlStep cfg env act s)) = portCalls (ctl s) @ [SaveCall d k r]"
proof -
  obtain s where s: "reach saveConfig s" "namedCalls s" "savesAgain s" using saveRetried_trace by (rule traceOk_initial)
  let ?s' = "ctlStep saveConfig (exampleEnv ''k'') (Resume 2 (Hash (Inr (exampleDigest (CHR ''1''))))) s"
  from s(3) obtain d k r where "rev (portCalls (ctl ?s')) = SaveCall d k r # rev (portCalls (ctl s))"
    by (auto simp: savesAgain_def split: list.splits port_call.splits)
  then have "portCalls (ctl ?s') = portCalls (ctl s) @ [SaveCall d k r]" by (simp add: rev_eq_Cons_iff)
  moreover have "isSet (signed (ctl s))" using s(3) by (simp add: savesAgain_def)
  moreover from this have "newDeliveryGuard (ctl s) SaveOwned = Inl (Refusal BranchMismatch)" by (simp add: newDeliveryGuard_def)
  ultimately show ?thesis using s(1,2) by blast
qed


section \<open>A checkpoint kept without its evidence\<close>

text \<open>
  Start writes the initial checkpoint into \<open>saved\<close> as soon as the port returns it, before its evidence
  is checked; the other writes keep the result to themselves until then.
\<close>

definition startConfig :: ctl_config where
  "startConfig = exampleConfig [StartApplication, SaveInitial] Undefined"

definition checkpointRefused :: "(ctl_env \<times> ctl_action) list" where
  "checkpointRefused = invoke StartApplication ''a'' (exampleResponse ''A'') 0 @ hashed (CHR ''1'') 0 @
     map (Pair (exampleEnv ''k'')) [Resume 0 (Value (Inr (exampleEvidence ''q'' (exampleResponse ''A'') (CHR ''1'') 1))),
       Resume 0 (Checked (Inr True) (Inr (exampleDigest (CHR ''1'')))), Resume 0 Resolved]"

definition publishesUnchecked :: "system \<Rightarrow> bool" where
  "publishesUnchecked s = (snapReason (ctlSnapshot (ctl s)) = Some ContextMismatch \<and> isSet (snapSaved (ctlSnapshot (ctl s))) \<and>
     \<not> evidenceConsistent startConfig (snapSaved (ctlSnapshot (ctl s))) Undefined Undefined)"

lemma checkpointRefused_trace: "traceOk startConfig checkpointRefused publishesUnchecked (initialSystem startConfig)"
  unfolding startConfig_def publishesUnchecked_def by code_simp

text \<open>A refused checkpoint is published as saved: a reachable snapshot of a refused start shows, as the
  saved draft, evidence that the consistency check has just rejected.\<close>

theorem refused_checkpoint_is_published:
  "\<exists>cfg s. reach cfg s \<and> snapReason (ctlSnapshot (ctl s)) = Some ContextMismatch \<and> isSet (snapSaved (ctlSnapshot (ctl s))) \<and>
     \<not> evidenceConsistent cfg (snapSaved (ctlSnapshot (ctl s))) Undefined Undefined"
proof -
  obtain s where "reach startConfig s" "namedCalls s" "publishesUnchecked s" using checkpointRefused_trace by (rule traceOk_initial)
  then show ?thesis unfolding publishesUnchecked_def by blast
qed


section \<open>Instances of the guarantees\<close>

definition prepareRunning :: "(ctl_env \<times> ctl_action) list" where
  "prepareRunning = restoreDraft (exampleEvidence ''p'' (exampleResponse ''A'') (CHR ''1'') 1) (CHR ''1'') 0 @
     invoke Prepare ''p1'' (exampleResponse ''A'') 1 @ hashed (CHR ''1'') 1"

lemma prepareRunning_trace:
  "traceOk signConfig prepareRunning (\<lambda>s. length (calls s) = 2 \<and> inOperation (fPoint (calls s ! 1))) (initialSystem signConfig)"
  unfolding signConfig_def by code_simp

theorem one_operation_at_a_time_witness:
  "\<exists>s. reach signConfig s \<and> inOperation (fPoint (calls s ! 1)) \<and> (\<forall>i<2. inOperation (fPoint (calls s ! i)) \<longrightarrow> i = 1)"
proof -
  obtain s where s: "reach signConfig s" "namedCalls s" "length (calls s) = 2 \<and> inOperation (fPoint (calls s ! 1))"
    using prepareRunning_trace by (rule traceOk_initial)
  have "i = 1" if "i < 2" "inOperation (fPoint (calls s ! i))" for i
    using one_operation_at_a_time [OF s(1,2), of i 1] s(3) that by simp
  with s show ?thesis by blast
qed

lemma prepared_trace:
  "traceOk signConfig (prepareRunning @ answered (exampleEvidence ''p'' (exampleResponse ''A'') (CHR ''1'') 2) (CHR ''1'') 1)
     (\<lambda>s. map_option completed (getDelivery (ctl s) ''p1'') = Some (Some [])) (initialSystem signConfig)"
  unfolding signConfig_def by code_simp

theorem completed_delivery_never_redone_witness:
  "\<exists>s. reach signConfig s \<and> completedIn (ctl s) ''p1'' = Some [] \<and>
     (\<forall>s'. later signConfig s s' \<and> namedCalls s' \<longrightarrow> callsFor ''p1'' (ctl s') = callsFor ''p1'' (ctl s))"
proof -
  obtain s where s: "reach signConfig s" "namedCalls s" "map_option completed (getDelivery (ctl s) ''p1'') = Some (Some [])"
    using prepared_trace by (rule traceOk_initial)
  then obtain x where x: "getDelivery (ctl s) ''p1'' = Some x" "completed x = Some []" by auto
  then have "completedIn (ctl s) ''p1'' = Some []" by (simp add: completedIn_def getDelivery_def)
  with completed_delivery_never_redone [OF s(1) x] s(1) show ?thesis by blast
qed

definition actSigning :: "(ctl_env \<times> ctl_action) list" where
  "actSigning = invoke SaveOwned ''s'' contentResponse 0 @ hashed (CHR ''1'') 0"

lemma actSigning_trace:
  "traceOk saveConfig actSigning (\<lambda>s. list_ex (\<lambda>p. operationKey p = Some (''s'', ''hash-key'')) (portCalls (ctl s))) (initialSystem saveConfig)"
  unfolding saveConfig_def by code_simp

theorem delivery_keeps_its_key_witness:
  "\<exists>s p. reach saveConfig s \<and> p \<in> set (portCalls (ctl s)) \<and> operationKey p = Some (''s'', ''hash-key'') \<and>
     (\<forall>q\<in>set (portCalls (ctl s)). \<forall>k. operationKey q = Some (''s'', k) \<longrightarrow> ''hash-key'' = k)"
proof -
  obtain s where s: "reach saveConfig s" "namedCalls s" "list_ex (\<lambda>p. operationKey p = Some (''s'', ''hash-key'')) (portCalls (ctl s))"
    using actSigning_trace by (rule traceOk_initial)
  then obtain p where p: "p \<in> set (portCalls (ctl s))" "operationKey p = Some (''s'', ''hash-key'')" by (auto simp: list_ex_iff)
  with delivery_keeps_its_key [OF s(1,2) p(1) _ p(2)] s(1) show ?thesis by blast
qed

definition submitInput :: "string \<Rightarrow> jsval" where
  "submitInput d = Obj [(''document'', getp (exampleAdmission Submit) ''document''), (''actionRef'', Str ''submit''),
     (''invocationId'', Str d), (''source'', Str ''w''),
     (''responseContext'', Obj [(''inputName'', Str ''response''), (''source'', Obj [(''catalogRef'', Str ''c''), (''sourceRef'', Str ''s'')]),
        (''definition'', Obj [(''url'', Str ''F''), (''version'', Str ''1'')]), (''response'', exampleSigned)]),
     (''input'', Obj [(''draftId'', Str ''d''), (''draftVersion'', jsInt 2), (''canonical_response'', exampleSigned)])]"

definition submission :: "(ctl_env \<times> ctl_action) list" where
  "submission = map (Pair (exampleEnv ''k''))
     [RestoreSigned (exampleEvidence ''p'' exampleSigned (CHR ''1'') 2), Resume 0 (Checked (Inr True) (Inr (exampleDigest (CHR ''1'')))),
      Resume 0 Resolved, Widget (submitInput ''w1''), Resume 1 (Valid (Inr True)),
      Resume 1 (Value (Inr (Obj [(''response'', exampleSigned), (''validationTuple'', checkpointTuple),
        (''validationReport'', Obj [(''definitionUrl'', Str ''F''), (''definitionVersion'', Str ''1'')])]))),
      Resume 1 (Engine (EngineDispatch Undefined)), Resume 1 (Valid (Inr True)), Resume 1 (Hash (Inr (exampleDigest (CHR ''1'')))),
      Resume 1 (Value (Inr Undefined)), Resume 1 (Value (Inr Null)),
      Resume 1 (Value (Inr (Obj [(''kind'', Str ''intake''), (''evidence'', Obj [])])))]"

definition submitConfig :: ctl_config where
  "submitConfig = exampleConfig [Submit] exampleSigned"

lemma submission_trace: "traceOk submitConfig submission (\<lambda>s. isSet (completionResult (ctl s))) (initialSystem submitConfig)"
  unfolding submitConfig_def by code_simp

theorem confirmed_submission_final_witness:
  "\<exists>s. reach submitConfig s \<and> isSet (completionResult (ctl s)) \<and>
     (\<forall>s'. later submitConfig s s' \<and> namedCalls s' \<longrightarrow> effectCalls (ctl s') = effectCalls (ctl s))"
proof -
  obtain s where s: "reach submitConfig s" "namedCalls s" "isSet (completionResult (ctl s))" using submission_trace by (rule traceOk_initial)
  with confirmed_submission_final [OF s(1,3)] show ?thesis by blast
qed

theorem operation_returns_witness:
  "\<exists>o1. fPoint (snd (drive signConfig (\<lambda>c fr. (c, exampleEnv ''k'', \<lparr>validAnswer = Inr True, hashAnswer = Inr [], portReply = Inl OtherError\<rparr>))
     (initialController signConfig) (goto AtSave (blankFrame DefinitionCall (initialController signConfig))))) = AtEngine (Some o1)"
  using operation_returns [of "goto AtSave (blankFrame DefinitionCall (initialController signConfig))" signConfig] by simp

end
