(* ===== verification/Public_App.thy ===== *)
theory Public_App
  imports Prelude
begin

text \<open>
  The respondent boundary of an admitted app graph,
  \<open>src/verifying-surface/respondent/public-app-validation.ts\<close>: the six validators that a public
  bundle passes before it is served, each a function from the graph to its diagnostics.

  Documents are JavaScript values. A diagnostic is its code and details; the message is a text
  about the details, and severity, phase and origin are constants. The engine's \<open>LocaleStore\<close> and
  the closed list of shell strings are parameters, and so is \<open>String(v)\<close> of a \<open>v\<close> that is no
  string. Objects compare by value: where the source compares two routes by reference, their ids
  are unique.
\<close>


section \<open>Documents\<close>

record handle =
  artifactKind :: string
  refUrl :: jsval
  document :: jsval

record app_graph =
  manifest :: jsval
  handles :: "handle list"

record public_policy =
  appId :: string
  starterModuleId :: string
  receiptResourceUrl :: string

record diagnostic =
  code :: string
  details :: jsval

definition diag :: "string \<Rightarrow> props \<Rightarrow> diagnostic" where
  "diag c ps = \<lparr>code = c, details = Obj ps\<rparr>"

definition recordOf :: "jsval \<Rightarrow> jsval" where
  "recordOf v = (if isPlainObject v then v else Undefined)"

definition recordsOf :: "jsval \<Rightarrow> jsval list" where
  "recordsOf v = filter isPlainObject (arrItems v)"

definition textOf :: "jsval \<Rightarrow> jsval" where
  "textOf v = (if isString v then v else Undefined)"

definition ofKind :: "string \<Rightarrow> app_graph \<Rightarrow> handle list" where
  "ofKind k g = filter (\<lambda>h. artifactKind h = k) (handles g)"

definition countOf :: "'a list \<Rightarrow> jsval" where
  "countOf xs = jsInt (int (length xs))"

lemma getp_recordOf [simp]: "getp (recordOf v) k = getp v k"
  by (cases v) (simp_all add: recordOf_def)

lemma recordsOf_plain: "r \<in> set (recordsOf v) \<Longrightarrow> isPlainObject r"
  by (simp add: recordsOf_def)

lemma textOf_eq: "textOf v = (case v of Str s \<Rightarrow> Str s | _ \<Rightarrow> Undefined)"
  by (cases v) (simp_all add: textOf_def)

lemma textOf_Str: "textOf v = Str s \<longleftrightarrow> v = Str s"
  by (cases v) (simp_all add: textOf_def)


section \<open>Manifest\<close>

definition validateManifestIdentity :: "app_graph \<Rightarrow> public_policy \<Rightarrow> diagnostic list" where
  "validateManifestIdentity g p =
    (let m = recordOf (manifest g); modules = recordsOf (getp m ''modules'') in
     (if getp m ''id'' \<noteq> Str (appId p)
      then [diag ''RESPONDENT-APP-IDENTITY'' [(''expectedAppId'', Str (appId p)), (''observedAppId'', getp m ''id'')]] else []) @
     (if (case modules of [x] \<Rightarrow> getp x ''id'' = Str (starterModuleId p) \<and> isString (getp x ''version'') | _ \<Rightarrow> False) then []
      else [diag ''RESPONDENT-ACTOR-MODULES'' [(''expectedModule'', Str (starterModuleId p)),
        (''modules'', Arr (map (\<lambda>x. Obj [(''id'', textOf (getp x ''id'')), (''version'', textOf (getp x ''version''))]) modules))]]))"


section \<open>The receipt source\<close>

record receipt_source =
  catalogRef :: jsval
  sourceRef :: jsval
  receiptDocument :: jsval

definition receiptMatch :: "public_policy \<Rightarrow> jsval \<Rightarrow> bool" where
  "receiptMatch p source = (getp source ''kind'' = Str ''document-resource'' \<and>
     getp (getp (getp source ''runtime'') ''provenance'') ''source'' = Str (receiptResourceUrl p) \<and> isString (getp source ''id''))"

definition respondentReceiptSource :: "app_graph \<Rightarrow> public_policy \<Rightarrow> receipt_source option" where
  "respondentReceiptSource g p =
    (case concat (map (\<lambda>h. if isString (refUrl h)
        then map (\<lambda>s. \<lparr>catalogRef = refUrl h, sourceRef = getp s ''id'', receiptDocument = s\<rparr>)
          (filter (receiptMatch p) (recordsOf (getp (document h) ''sources''))) else []) (ofKind ''dataSources'' g)) of
       [m] \<Rightarrow> Some m | _ \<Rightarrow> None)"

definition isReceiptSource :: "public_policy \<Rightarrow> jsval \<Rightarrow> bool" where
  "isReceiptSource p source =
    (let runtime = recordOf (getp source ''runtime''); provenance = recordOf (getp runtime ''provenance'');
         availability = recordOf (getp source ''availability'') in
     getp source ''kind'' = Str ''document-resource'' \<and> getp source ''owner'' = Str ''host'' \<and>
     getp source ''scope'' \<in> {Str ''route'', Str ''resource''} \<and>
     getp runtime ''authorizationBoundary'' = Str ''host'' \<and> getp runtime ''delivery'' = Str ''snapshot'' \<and>
     getp runtime ''failureMode'' = Str ''block-render'' \<and> getp provenance ''kind'' = Str ''document-resource'' \<and>
     getp provenance ''source'' = Str (receiptResourceUrl p) \<and> isPlainObject (getp source ''schema'') \<and>
     getp availability ''level'' \<in> {Str ''route'', Str ''slot''})"

definition validateReceiptSources :: "app_graph \<Rightarrow> public_policy \<Rightarrow> diagnostic list" where
  "validateReceiptSources g p =
    (let sources = concat (map (\<lambda>h. map (Pair h) (recordsOf (getp (document h) ''sources''))) (ofKind ''dataSources'' g));
         receipts = filter (\<lambda>(h, s). isReceiptSource p s) sources in
     map (\<lambda>(h, s). diag ''RESPONDENT-ACTOR-DATA-SOURCE-REFUSED'' [(''catalogRef'', refUrl h), (''sourceRef'', textOf (getp s ''id'')),
         (''kind'', textOf (getp s ''kind'')), (''owner'', textOf (getp s ''owner''))])
       (filter (\<lambda>(h, s). \<not> isReceiptSource p s) sources) @
     (if length receipts \<noteq> 1 then [diag ''RESPONDENT-RECEIPT-SOURCE-COUNT'' [(''receiptSources'', countOf receipts)]] else []))"


section \<open>Public surfaces\<close>

definition isReceiptWidget :: "string \<Rightarrow> bool" where
  "isReceiptWidget w = (w = ''ReceiptPanel'' \<or> w = ''x-receipt-panel'')"

definition isIntakeWidget :: "string \<Rightarrow> bool" where
  "isIntakeWidget w = (w = ''IntakeBanner'' \<or> w = ''x-intake-banner'')"

definition publicStarterWidgets :: "string list" where
  "publicStarterWidgets = [''x-intake-banner'', ''IntakeBanner'', ''x-receipt-panel'', ''ReceiptPanel'']"

definition exactCaseRefTransitionParams :: "jsval \<Rightarrow> bool" where
  "exactCaseRefTransitionParams v = (case v of Obj ps \<Rightarrow> length ps = 1 \<and> propOf ps ''caseRef'' = Str ''caseRef'' | _ \<Rightarrow> False)"

definition hasCaseRef :: "jsval \<Rightarrow> bool" where
  "hasCaseRef route = (getp route ''path'' = Str ''/receipt/{caseRef}'' \<and>
     (case recordsOf (getp route ''params'') of [q] \<Rightarrow> getp q ''name'' = Str ''caseRef'' \<and> getp q ''type'' = Str ''string'' | _ \<Rightarrow> False))"

definition incomingTransitions :: "jsval list \<Rightarrow> jsval \<Rightarrow> jsval list" where
  "incomingTransitions routes route = concat (map (\<lambda>r. if getp r ''routeClass'' = Str ''intake''
     then filter (\<lambda>t. getp t ''to'' = getp route ''id'' \<and> exactCaseRefTransitionParams (getp t ''params'')) (recordsOf (getp r ''transitions''))
     else []) routes)"

definition refused :: "string \<Rightarrow> jsval \<Rightarrow> jsval \<Rightarrow> diagnostic" where
  "refused c route slot = diag c [(''routeId'', textOf (getp route ''id'')), (''slotId'', textOf (getp slot ''id''))]"

text \<open>A widget belongs to the starter module, is public, and stands on a route of its class.\<close>

definition widgetAllowed :: "public_policy \<Rightarrow> string \<Rightarrow> jsval \<Rightarrow> bool" where
  "widgetAllowed p routeClass binding =
    (case getp binding ''widgetName'' of
       Str w \<Rightarrow> getp binding ''moduleId'' = Str (starterModuleId p) \<and> w \<in> set publicStarterWidgets \<and>
         (isReceiptWidget w \<longrightarrow> routeClass = ''proof'') \<and> (isIntakeWidget w \<longrightarrow> routeClass = ''intake'')
     | _ \<Rightarrow> False)"

definition receiptBound :: "receipt_source option \<Rightarrow> jsval \<Rightarrow> bool" where
  "receiptBound source binding =
    (let bindings = getp binding ''dataBindings''; receipt = recordOf (getp bindings ''receipt'') in
     (case bindings of Obj ps \<Rightarrow> length ps = 1 | _ \<Rightarrow> False) \<and> isPlainObject receipt \<and>
     getp receipt ''catalogRef'' = (case source of Some s \<Rightarrow> catalogRef s | None \<Rightarrow> Undefined) \<and>
     getp receipt ''sourceRef'' = (case source of Some s \<Rightarrow> sourceRef s | None \<Rightarrow> Undefined))"

definition qualifiedAvailability :: "receipt_source option \<Rightarrow> handle \<Rightarrow> jsval \<Rightarrow> jsval \<Rightarrow> bool" where
  "qualifiedAvailability source h route slot =
    (case source of None \<Rightarrow> False
     | Some s \<Rightarrow> (let a = recordOf (getp (receiptDocument s) ''availability'') in
         isPlainObject a \<and> getp a ''surfaceRef'' = refUrl h \<and> getp a ''routeRef'' = getp route ''id'' \<and>
         (getp a ''level'' = Str ''route'' \<or> getp a ''level'' = Str ''slot'' \<and> getp a ''slotId'' = getp slot ''id'')))"

definition isReceiptSlot :: "jsval \<Rightarrow> bool" where
  "isReceiptSlot slot = (getp slot ''slotType'' = Str ''module-widget'' \<and>
     (case getp (recordOf (getp slot ''binding'')) ''widgetName'' of Str w \<Rightarrow> isReceiptWidget w | _ \<Rightarrow> False))"

definition receiptDiagnostics :: "receipt_source option \<Rightarrow> handle \<Rightarrow> jsval \<Rightarrow> jsval \<Rightarrow> diagnostic list" where
  "receiptDiagnostics source h route slot =
     (if receiptBound source (recordOf (getp slot ''binding'')) then []
      else [diag ''RESPONDENT-RECEIPT-BINDING'' [(''routeId'', textOf (getp route ''id'')), (''slotId'', textOf (getp slot ''id'')),
        (''expectedCatalogRef'', case source of Some s \<Rightarrow> catalogRef s | None \<Rightarrow> Undefined),
        (''expectedSourceRef'', case source of Some s \<Rightarrow> sourceRef s | None \<Rightarrow> Undefined)]]) @
     (if qualifiedAvailability source h route slot then [] else [refused ''RESPONDENT-RECEIPT-AVAILABILITY'' route slot])"

definition widgetDiagnostics ::
  "public_policy \<Rightarrow> receipt_source option \<Rightarrow> handle \<Rightarrow> jsval \<Rightarrow> string \<Rightarrow> jsval \<Rightarrow> diagnostic list" where
  "widgetDiagnostics p source h route routeClass slot =
    (let binding = recordOf (getp slot ''binding'') in
     (if getp binding ''actionBindings'' = Undefined then []
      else [diag ''RESPONDENT-WIDGET-ACTIONS-UNSUPPORTED'' [(''routeId'', textOf (getp route ''id'')), (''slotId'', textOf (getp slot ''id'')),
        (''widgetName'', textOf (getp binding ''widgetName''))]]) @
     (if widgetAllowed p routeClass binding then []
      else [diag ''RESPONDENT-ACTOR-WIDGET-REFUSED'' [(''routeId'', textOf (getp route ''id'')), (''routeClass'', Str routeClass),
        (''slotId'', textOf (getp slot ''id'')), (''moduleId'', textOf (getp binding ''moduleId'')),
        (''widgetName'', textOf (getp binding ''widgetName''))]]) @
     (if isReceiptSlot slot then receiptDiagnostics source h route slot else []))"

definition slotDiagnostics ::
  "public_policy \<Rightarrow> receipt_source option \<Rightarrow> handle \<Rightarrow> jsval \<Rightarrow> string \<Rightarrow> jsval \<Rightarrow> diagnostic list" where
  "slotDiagnostics p source h route routeClass slot =
    (let slotType = textOf (getp slot ''slotType'') in
     (if slotType = Str ''embed-route'' then [refused ''RESPONDENT-EMBED-ROUTE-REFUSED'' route slot] else []) @
     (if slotType = Str ''definition-form'' \<and> routeClass \<noteq> ''intake'' then [refused ''RESPONDENT-ACTOR-SLOT-REFUSED'' route slot] else []) @
     (if slotType = Str ''module-widget'' then widgetDiagnostics p source h route routeClass slot else []))"

definition proofDiagnostics :: "jsval list \<Rightarrow> jsval \<Rightarrow> diagnostic list" where
  "proofDiagnostics routes route =
     (if hasCaseRef route then []
      else [diag ''RESPONDENT-RECEIPT-ROUTE-PARAM'' [(''routeId'', textOf (getp route ''id'')), (''path'', textOf (getp route ''path''))]]) @
     (if length (incomingTransitions routes route) = 1 then []
      else [diag ''RESPONDENT-RECEIPT-TRANSITION-PARAM'' [(''routeId'', textOf (getp route ''id'')),
        (''matchingTransitions'', countOf (incomingTransitions routes route))]])"

text \<open>The loop over the routes of a surface, with the counters of the source.\<close>

record surface_scan =
  found :: "diagnostic list"
  intakeRoutes :: nat
  proofRoutes :: nat
  receiptWidgets :: nat

definition scanRoute ::
  "public_policy \<Rightarrow> receipt_source option \<Rightarrow> handle \<Rightarrow> jsval list \<Rightarrow> jsval \<Rightarrow> surface_scan \<Rightarrow> surface_scan" where
  "scanRoute p source h routes route a =
    (case getp route ''routeClass'' of
       Str rc \<Rightarrow>
         if rc \<notin> {''intake'', ''proof''}
         then a\<lparr>found := found a @ [diag ''RESPONDENT-ACTOR-ROUTE-REFUSED'' [(''routeId'', textOf (getp route ''id'')), (''routeClass'', Str rc)]]\<rparr>
         else \<lparr>found = found a @ (if rc = ''proof'' then proofDiagnostics routes route else []) @
                 concat (map (slotDiagnostics p source h route rc) (recordsOf (getp route ''slots''))),
               intakeRoutes = intakeRoutes a + (if rc = ''intake'' then 1 else 0),
               proofRoutes = proofRoutes a + (if rc = ''proof'' then 1 else 0),
               receiptWidgets = receiptWidgets a + length (filter isReceiptSlot (recordsOf (getp route ''slots'')))\<rparr>
     | _ \<Rightarrow> a\<lparr>found := found a @ [diag ''RESPONDENT-ACTOR-ROUTE-REFUSED'' [(''routeId'', textOf (getp route ''id'')), (''routeClass'', Undefined)]]\<rparr>)"

definition surfaceRoutes :: "handle \<Rightarrow> jsval list" where
  "surfaceRoutes h = recordsOf (getp (document h) ''routes'')"

definition scanSurface :: "public_policy \<Rightarrow> receipt_source option \<Rightarrow> handle \<Rightarrow> surface_scan \<Rightarrow> surface_scan" where
  "scanSurface p source h a = fold (scanRoute p source h (surfaceRoutes h)) (surfaceRoutes h) a"

definition validatePublicSurfaces :: "app_graph \<Rightarrow> public_policy \<Rightarrow> diagnostic list" where
  "validatePublicSurfaces g p =
    (let a = fold (scanSurface p (respondentReceiptSource g p)) (ofKind ''surface'' g)
           \<lparr>found = [], intakeRoutes = 0, proofRoutes = 0, receiptWidgets = 0\<rparr> in
     found a @
     (if intakeRoutes a \<noteq> 1 then [diag ''RESPONDENT-INTAKE-ROUTE-COUNT'' [(''intakeRoutes'', jsInt (int (intakeRoutes a)))]] else []) @
     (if proofRoutes a \<noteq> 1 then [diag ''RESPONDENT-PROOF-ROUTE-MISSING'' [(''proofRoutes'', jsInt (int (proofRoutes a)))]] else []) @
     (if receiptWidgets a \<noteq> 1 then [diag ''RESPONDENT-RECEIPT-WIDGET-COUNT'' [(''receiptWidgets'', jsInt (int (receiptWidgets a)))]] else []))"

section \<open>The selected flow\<close>

definition matchesDefinition :: "jsval \<Rightarrow> handle \<Rightarrow> bool" where
  "matchesDefinition ref h = (artifactKind h = ''definition'' \<and> refUrl h = ref \<and> getp (document h) ''url'' = ref)"

definition definitionSlots :: "jsval list \<Rightarrow> (jsval \<times> jsval) list" where
  "definitionSlots routes = concat (map (\<lambda>r. map (Pair r)
     (filter (\<lambda>s. getp s ''slotType'' = Str ''definition-form'') (recordsOf (getp r ''slots'')))) routes)"

definition actionsOf :: "handle list \<Rightarrow> jsval list" where
  "actionsOf hs = concat (map (\<lambda>h. recordsOf (getp (document h) ''actions'')) hs)"

definition isSubmitEvent :: "jsval \<Rightarrow> bool" where
  "isSubmitEvent e = (getp e ''type'' = Str ''hostEvent'' \<and> getp e ''eventName'' = Str ''formspec-submit'')"

definition canonicalValidation :: "jsval \<Rightarrow> bool" where
  "canonicalValidation v = (case v of Obj ps \<Rightarrow> length ps = 3 \<and> propOf ps ''profile'' = Str ''on-submit'' \<and>
       propOf ps ''blocking'' = Str ''block-on-error'' \<and> propOf ps ''persistence'' = Str ''complete-response'' | _ \<Rightarrow> True)"

text \<open>The transitions a submission may take from the intake route to a receipt.\<close>

definition receiptTransitions :: "jsval list \<Rightarrow> jsval \<Rightarrow> jsval \<Rightarrow> jsval list" where
  "receiptTransitions routes intake triggerId = filter (\<lambda>t.
     (\<exists>r\<in>set (filter (\<lambda>r. getp r ''routeClass'' = Str ''proof'') routes). getp r ''id'' = getp t ''to'') \<and>
     exactCaseRefTransitionParams (getp t ''params'') \<and>
     (getp t ''trigger'' = triggerId \<or> getp t ''trigger'' = Str ''submit'')) (recordsOf (getp intake ''transitions''))"

text \<open>
  The guards after the submit action is selected, in the order of the source: each returns its one
  diagnostic, the rest is not looked at.
\<close>

definition validateSubmitAction :: "jsval list \<Rightarrow> jsval \<Rightarrow> jsval \<Rightarrow> diagnostic list" where
  "validateSubmitAction routes intake act =
    (let preconditions = getp act ''preconditions''; validation = recordOf (getp act ''validation'');
         effects = recordsOf (getp act ''effects''); events = filter isSubmitEvent effects;
         triggerId = textOf (getp act ''id''); transitions = receiptTransitions routes intake triggerId in
     if preconditions \<noteq> Undefined \<and> preconditions \<noteq> Arr [] then
       [diag ''RESPONDENT-SUBMIT-PRECONDITIONS-UNSUPPORTED''
         [(''preconditions'', case preconditions of Arr xs \<Rightarrow> countOf xs | _ \<Rightarrow> jsInt 1)]]
     else if \<not> canonicalValidation validation then
       [diag ''RESPONDENT-SUBMIT-VALIDATION'' [(''profile'', textOf (getp validation ''profile'')),
         (''blocking'', textOf (getp validation ''blocking'')), (''persistence'', textOf (getp validation ''persistence''))]]
     else if length effects \<noteq> 1 \<or> length events \<noteq> 1 \<or> last effects \<noteq> hd events then
       [diag ''RESPONDENT-SUBMIT-HOST-EVENT'' [(''effects'', countOf effects), (''submitHostEvents'', countOf events),
         (''finalEffectType'', if effects = [] then Undefined else textOf (getp (last effects) ''type'')),
         (''finalEventName'', if effects = [] then Undefined else textOf (getp (last effects) ''eventName''))]]
     else if length transitions \<noteq> 1 then
       [diag ''RESPONDENT-SUBMIT-RECEIPT-TRANSITION'' [(''triggerId'', triggerId), (''matchingTransitions'', countOf transitions)]]
     else if getp (hd transitions) ''when'' \<noteq> Undefined then
       [diag ''RESPONDENT-TRANSITION-WHEN-UNSUPPORTED'' [(''triggerId'', triggerId)]]
     else [])"

definition validateSelectedAction :: "app_graph \<Rightarrow> jsval list \<Rightarrow> jsval \<Rightarrow> jsval \<Rightarrow> diagnostic list" where
  "validateSelectedAction g routes intake definitionRef =
    (let docs = ofKind ''responseActions'' g; actions = actionsOf docs;
         target = (case docs of [d] \<Rightarrow> textOf (getp (getp (document d) ''targetDefinition'') ''url'') | _ \<Rightarrow> Undefined);
         submits = filter (\<lambda>a. getp a ''intent'' = Str ''submit'') actions in
     if length docs \<noteq> 1 \<or> length actions \<noteq> 1 \<or> length submits \<noteq> 1 \<or> target \<noteq> definitionRef then
       [diag ''RESPONDENT-SUBMIT-ACTION'' [(''actionDocuments'', countOf docs), (''actions'', countOf actions),
         (''submitActions'', countOf submits), (''targetDefinition'', target), (''definitionRef'', definitionRef)]]
     else validateSubmitAction routes intake (hd submits))"

definition validateSelectedForm :: "app_graph \<Rightarrow> jsval list \<Rightarrow> jsval \<Rightarrow> jsval \<Rightarrow> diagnostic list" where
  "validateSelectedForm g routes intake entryRouteId =
    (let forms = definitionSlots routes in
     if length forms \<noteq> 1 \<or> fst (hd forms) \<noteq> intake then
       [diag ''RESPONDENT-DEFINITION-FORM-COUNT'' [(''definitionForms'', countOf forms),
         (''formRouteId'', if forms = [] then Undefined else textOf (getp (fst (hd forms)) ''id'')), (''entryRouteId'', entryRouteId)]]
     else (let ref = textOf (getp (recordOf (getp (snd (hd forms)) ''binding'')) ''definitionRef'');
               defs = filter (matchesDefinition ref) (handles g) in
       if \<not> truthy ref \<or> length defs \<noteq> 1 then
         [diag ''RESPONDENT-DEFINITION-BINDING'' [(''definitionRef'', ref), (''matches'', countOf defs)]]
       else validateSelectedAction g routes intake ref))"

definition validateSelectedRespondentFlow :: "app_graph \<Rightarrow> diagnostic list" where
  "validateSelectedRespondentFlow g =
    (let entrySurface = textOf (getp (manifest g) ''entrySurface''); surfaces = ofKind ''surface'' g;
         selected = filter (\<lambda>h. refUrl h = entrySurface) surfaces in
     if \<not> truthy entrySurface \<or> length selected \<noteq> 1 \<or> length surfaces \<noteq> 1 then
       [diag ''RESPONDENT-ENTRY-SURFACE'' [(''entrySurface'', entrySurface), (''selectedMatches'', countOf selected),
         (''surfaces'', countOf surfaces)]]
     else (let routes = surfaceRoutes (hd selected); entryRouteId = textOf (getp (document (hd selected)) ''entry'');
               matches = filter (\<lambda>r. getp r ''id'' = entryRouteId) routes in
       if length matches \<noteq> 1 \<or> getp (hd matches) ''routeClass'' \<noteq> Str ''intake'' then
         [diag ''RESPONDENT-ENTRY-INTAKE'' [(''entryRouteId'', entryRouteId), (''matches'', countOf matches)]]
       else validateSelectedForm g routes (hd matches) entryRouteId))"


section \<open>Registries and locales\<close>

record app_env =
  stringOf :: "jsval \<Rightarrow> string"
  surfaceKeys :: "string list"
  localeKeyPrefix :: string
  availableLocales :: "jsval list \<Rightarrow> string list"
  lookupKey :: "jsval list \<Rightarrow> string \<Rightarrow> string \<Rightarrow> string option"

definition shellLocaleKey :: "app_env \<Rightarrow> string \<Rightarrow> string" where
  "shellLocaleKey env key = localeKeyPrefix env @ key"

definition nameText :: "app_env \<Rightarrow> jsval \<Rightarrow> string" where
  "nameText env v = (case v of Str s \<Rightarrow> s | _ \<Rightarrow> stringOf env v)"

definition widgetNameOf :: "jsval \<Rightarrow> jsval" where
  "widgetNameOf entry = textOf (getp (recordOf (getp entry ''widgetShape'')) ''widgetName'')"

definition registryEntries :: "app_graph \<Rightarrow> string \<Rightarrow> jsval list" where
  "registryEntries g category = filter (\<lambda>e. getp e ''category'' = Str category)
     (concat (map (\<lambda>h. recordsOf (getp (document h) ''entries'')) (ofKind ''registry'' g)))"

definition contributionsOf :: "jsval list \<Rightarrow> jsval list" where
  "contributionsOf modules = (case modules of [] \<Rightarrow> [] | m # _ \<Rightarrow> filter isString (arrItems (getp m ''contributes'')))"

definition contributed :: "app_env \<Rightarrow> jsval list \<Rightarrow> jsval \<Rightarrow> bool" where
  "contributed env contributions entry = (Str (nameText env (getp entry ''name'')) \<in> set contributions)"

definition widgetLabel :: "jsval \<Rightarrow> jsval" where
  "widgetLabel entry = coalesce (widgetNameOf entry) (textOf (getp entry ''name''))"

definition respondentWidget :: "app_env \<Rightarrow> jsval list \<Rightarrow> jsval \<Rightarrow> bool" where
  "respondentWidget env contributions entry =
     (widgetNameOf entry \<in> Str ` set publicStarterWidgets \<and> contributed env contributions entry)"

definition receiptWidget :: "app_env \<Rightarrow> jsval list \<Rightarrow> jsval \<Rightarrow> bool" where
  "receiptWidget env contributions entry =
     ((case widgetNameOf entry of Str w \<Rightarrow> isReceiptWidget w | _ \<Rightarrow> False) \<and> contributed env contributions entry)"

definition receiptInputs :: "jsval list \<Rightarrow> jsval list" where
  "receiptInputs widgets = (case widgets of [w] \<Rightarrow> recordsOf (getp (recordOf (getp w ''widgetShape'')) ''dataInputs'') | _ \<Rightarrow> [])"

definition validateRespondentRegistries :: "app_env \<Rightarrow> app_graph \<Rightarrow> public_policy \<Rightarrow> diagnostic list" where
  "validateRespondentRegistries env g p =
    (let modules = registryEntries g ''module''; own = filter (\<lambda>e. getp e ''name'' = Str (starterModuleId p)) modules;
         widgets = registryEntries g ''widget''; contributions = contributionsOf own;
         others = filter (\<lambda>e. \<not> respondentWidget env contributions e) widgets;
         acting = filter (\<lambda>e. getp (recordOf (getp e ''widgetShape'')) ''actionOutputs'' \<noteq> Undefined) widgets;
         receipts = filter (receiptWidget env contributions) widgets; inputs = receiptInputs receipts in
     (if length modules \<noteq> 1 \<or> length own \<noteq> 1 then [diag ''RESPONDENT-ACTOR-REGISTRY-REFUSED''
        [(''modules'', Arr (map (\<lambda>e. textOf (getp e ''name'')) modules)), (''expectedModule'', Str (starterModuleId p))]] else []) @
     (if others \<noteq> [] then [diag ''RESPONDENT-ACTOR-REGISTRY-REFUSED'' [(''widgets'', Arr (map widgetLabel others))]] else []) @
     (if acting \<noteq> [] then [diag ''RESPONDENT-WIDGET-ACTIONS-UNSUPPORTED'' [(''widgets'', Arr (map widgetLabel acting))]] else []) @
     (if (case inputs of [i] \<Rightarrow> getp i ''name'' = Str ''receipt'' \<and> getp i ''required'' = Bool True | _ \<Rightarrow> False) \<and> length receipts = 1
      then [] else [diag ''RESPONDENT-RECEIPT-WIDGET-INPUT'' [(''receiptWidgets'', countOf receipts),
        (''dataInputs'', Arr (map (\<lambda>i. Obj [(''name'', textOf (getp i ''name'')), (''required'', getp i ''required'')]) inputs))]]))"

definition isLocaleDocument :: "jsval \<Rightarrow> bool" where
  "isLocaleDocument v = (let target = recordOf (getp v ''target'') in
     getp v ''$formspecLocale'' = Str ''2.0'' \<and> isString (getp v ''version'') \<and> isString (getp v ''locale'') \<and>
     getp target ''kind'' \<in> {Str ''app'', Str ''definition''} \<and> isString (getp target ''url'') \<and> isPlainObject (getp v ''strings''))"

definition appLocales :: "app_graph \<Rightarrow> public_policy \<Rightarrow> jsval list" where
  "appLocales g p = filter (\<lambda>d. isLocaleDocument d \<and> getp (getp d ''target'') ''kind'' = Str ''app'' \<and>
     getp (getp d ''target'') ''url'' = Str (appId p)) (map document (ofKind ''locale'' g))"

definition missingKeys :: "app_env \<Rightarrow> jsval list \<Rightarrow> string \<Rightarrow> string list" where
  "missingKeys env docs locale = filter (\<lambda>k. lookupKey env docs locale (shellLocaleKey env k) = None) (surfaceKeys env)"

definition validateAppLocales :: "app_env \<Rightarrow> app_graph \<Rightarrow> public_policy \<Rightarrow> diagnostic list" where
  "validateAppLocales env g p =
    (let docs = appLocales g p in
     if docs = [] then [diag ''RESPONDENT-APP-LOCALE-MISSING'' []]
     else concat (map (\<lambda>l. if missingKeys env docs l = [] then []
       else [diag ''RESPONDENT-SHELL-LOCALE-INCOMPLETE'' [(''locale'', Str l), (''missing'', Arr (map Str (missingKeys env docs l)))]])
       (availableLocales env docs)))"


section \<open>The validator\<close>

definition createRespondentPublicAppValidator :: "app_env \<Rightarrow> public_policy \<Rightarrow> app_graph \<Rightarrow> diagnostic list" where
  "createRespondentPublicAppValidator env p g =
     validateManifestIdentity g p @ validatePublicSurfaces g p @ validateSelectedRespondentFlow g @
     validateRespondentRegistries env g p @ validateReceiptSources g p @ validateAppLocales env g p"

text \<open>The validators of the host run first, this one last.\<close>

definition withRespondentPublicAppValidation ::
  "app_env \<Rightarrow> (app_graph \<Rightarrow> diagnostic list) list \<Rightarrow> public_policy \<Rightarrow> (app_graph \<Rightarrow> diagnostic list) list" where
  "withRespondentPublicAppValidation env validators p = validators @ [createRespondentPublicAppValidator env p]"

section \<open>The scan as a reference: all routes, their diagnostics and counts\<close>

definition publicRoute :: "jsval \<Rightarrow> bool" where
  "publicRoute r = (getp r ''routeClass'' \<in> {Str ''intake'', Str ''proof''})"

definition routeDiagnostics :: "public_policy \<Rightarrow> receipt_source option \<Rightarrow> handle \<Rightarrow> jsval \<Rightarrow> diagnostic list" where
  "routeDiagnostics p source h r = found (scanRoute p source h (surfaceRoutes h) r
     \<lparr>found = [], intakeRoutes = 0, proofRoutes = 0, receiptWidgets = 0\<rparr>)"

definition allRoutes :: "app_graph \<Rightarrow> (handle \<times> jsval) list" where
  "allRoutes g = concat (map (\<lambda>h. map (Pair h) (surfaceRoutes h)) (ofKind ''surface'' g))"

definition receiptSlots :: "jsval \<Rightarrow> jsval list" where
  "receiptSlots r = (if publicRoute r then filter isReceiptSlot (recordsOf (getp r ''slots'')) else [])"

definition ofClass :: "string \<Rightarrow> app_graph \<Rightarrow> (handle \<times> jsval) list" where
  "ofClass c g = filter (\<lambda>(h, r). getp r ''routeClass'' = Str c) (allRoutes g)"

lemma scanRoute_eq: "scanRoute p source h (surfaceRoutes h) r a =
    \<lparr>found = found a @ routeDiagnostics p source h r,
     intakeRoutes = intakeRoutes a + length (filter (\<lambda>r. getp r ''routeClass'' = Str ''intake'') [r]),
     proofRoutes = proofRoutes a + length (filter (\<lambda>r. getp r ''routeClass'' = Str ''proof'') [r]),
     receiptWidgets = receiptWidgets a + length (receiptSlots r)\<rparr>"
  by (cases "getp r ''routeClass''") (simp_all add: scanRoute_def routeDiagnostics_def receiptSlots_def publicRoute_def)

lemma scanRoutes_eq: "fold (scanRoute p source h (surfaceRoutes h)) rs a =
    \<lparr>found = found a @ concat (map (routeDiagnostics p source h) rs),
     intakeRoutes = intakeRoutes a + length (filter (\<lambda>r. getp r ''routeClass'' = Str ''intake'') rs),
     proofRoutes = proofRoutes a + length (filter (\<lambda>r. getp r ''routeClass'' = Str ''proof'') rs),
     receiptWidgets = receiptWidgets a + length (concat (map receiptSlots rs))\<rparr>"
  by (induction rs arbitrary: a) (simp_all add: scanRoute_eq)

lemma scanSurfaces_eq: "fold (scanSurface p source) hs a =
    \<lparr>found = found a @ concat (map (\<lambda>h. concat (map (routeDiagnostics p source h) (surfaceRoutes h))) hs),
     intakeRoutes = intakeRoutes a + length (filter (\<lambda>(h, r). getp r ''routeClass'' = Str ''intake'') (concat (map (\<lambda>h. map (Pair h) (surfaceRoutes h)) hs))),
     proofRoutes = proofRoutes a + length (filter (\<lambda>(h, r). getp r ''routeClass'' = Str ''proof'') (concat (map (\<lambda>h. map (Pair h) (surfaceRoutes h)) hs))),
     receiptWidgets = receiptWidgets a + length (concat (map (\<lambda>h. concat (map receiptSlots (surfaceRoutes h))) hs))\<rparr>"
  by (induction hs arbitrary: a) (simp_all add: scanSurface_def scanRoutes_eq filter_map comp_def)

lemma concat_pairs: "concat (map (\<lambda>h. concat (map f (R h))) hs) =
    concat (map (\<lambda>(h, r). f r) (concat (map (\<lambda>h. map (Pair h) (R h)) hs)))"
  by (induction hs) (simp_all add: comp_def)

lemma receiptSlots_all: "concat (map (\<lambda>h. concat (map receiptSlots (surfaceRoutes h))) (ofKind ''surface'' g)) =
    concat (map (\<lambda>(h, r). receiptSlots r) (allRoutes g))"
  unfolding allRoutes_def by (rule concat_pairs)

lemma validatePublicSurfaces_Nil:
  "validatePublicSurfaces g p = [] \<longleftrightarrow>
     (\<forall>(h, r)\<in>set (allRoutes g). routeDiagnostics p (respondentReceiptSource g p) h r = []) \<and>
     length (ofClass ''intake'' g) = 1 \<and> length (ofClass ''proof'' g) = 1 \<and>
     length (concat (map (\<lambda>(h, r). receiptSlots r) (allRoutes g))) = 1"
  unfolding validatePublicSurfaces_def scanSurfaces_eq Let_def receiptSlots_all ofClass_def
  by (auto simp: allRoutes_def)

lemma allRoutes_iff: "(h, r) \<in> set (allRoutes g) \<longleftrightarrow> h \<in> set (handles g) \<and> artifactKind h = ''surface'' \<and> r \<in> set (surfaceRoutes h)"
  by (auto simp: allRoutes_def ofKind_def)

text \<open>A route without diagnostics.\<close>

lemma routeDiagnostics_Nil:
  "routeDiagnostics p source h r = [] \<longleftrightarrow> publicRoute r \<and>
     (getp r ''routeClass'' = Str ''proof'' \<longrightarrow> hasCaseRef r \<and> length (incomingTransitions (surfaceRoutes h) r) = 1) \<and>
     (\<forall>s\<in>set (recordsOf (getp r ''slots'')). slotDiagnostics p source h r (strOf (getp r ''routeClass'')) s = [])"
  by (cases "getp r ''routeClass''") (auto simp: routeDiagnostics_def scanRoute_def publicRoute_def proofDiagnostics_def)

lemma slotDiagnostics_Nil:
  "slotDiagnostics p source h r rc s = [] \<longleftrightarrow> getp s ''slotType'' \<noteq> Str ''embed-route'' \<and>
     (getp s ''slotType'' = Str ''definition-form'' \<longrightarrow> rc = ''intake'') \<and>
     (getp s ''slotType'' = Str ''module-widget'' \<longrightarrow>
        getp (getp s ''binding'') ''actionBindings'' = Undefined \<and> widgetAllowed p rc (recordOf (getp s ''binding'')) \<and>
        (isReceiptSlot s \<longrightarrow> receiptBound source (recordOf (getp s ''binding'')) \<and> qualifiedAvailability source h r s))"
  by (auto simp: slotDiagnostics_def widgetDiagnostics_def receiptDiagnostics_def textOf_Str Let_def)

lemma validator_Nil:
  "createRespondentPublicAppValidator env p g = [] \<longleftrightarrow>
     validateManifestIdentity g p = [] \<and> validatePublicSurfaces g p = [] \<and> validateSelectedRespondentFlow g = [] \<and>
     validateRespondentRegistries env g p = [] \<and> validateReceiptSources g p = [] \<and> validateAppLocales env g p = []"
  by (simp add: createRespondentPublicAppValidator_def)

lemma singleton_iff: "length xs = Suc 0 \<longleftrightarrow> (\<exists>x. xs = [x])"
  by (cases xs) auto

lemma validateSubmitAction_Nil:
  "validateSubmitAction routes intake a = [] \<longleftrightarrow> getp a ''preconditions'' \<in> {Undefined, Arr []} \<and>
     canonicalValidation (recordOf (getp a ''validation'')) \<and> (\<exists>e. recordsOf (getp a ''effects'') = [e] \<and> isSubmitEvent e) \<and>
     (\<exists>t. receiptTransitions routes intake (textOf (getp a ''id'')) = [t] \<and> getp t ''when'' = Undefined)"
proof (cases "\<exists>e. recordsOf (getp a ''effects'') = [e]")
  case True
  then obtain e where e: "recordsOf (getp a ''effects'') = [e]" ..
  show ?thesis
    unfolding validateSubmitAction_def e by (auto simp: Let_def singleton_iff split: if_splits)
next
  case False
  then show ?thesis
    by (auto simp: validateSubmitAction_def Let_def singleton_iff)
qed

lemma validateSelectedAction_Nil:
  "validateSelectedAction g routes intake ref = [] \<longleftrightarrow> (\<exists>d a. ofKind ''responseActions'' g = [d] \<and>
     recordsOf (getp (document d) ''actions'') = [a] \<and> getp a ''intent'' = Str ''submit'' \<and>
     textOf (getp (getp (document d) ''targetDefinition'') ''url'') = ref \<and> validateSubmitAction routes intake a = [])"
proof (cases "\<exists>d a. ofKind ''responseActions'' g = [d] \<and> recordsOf (getp (document d) ''actions'') = [a]")
  case True
  then show ?thesis
    by (auto simp: validateSelectedAction_def Let_def actionsOf_def split: if_splits)
next
  case False
  then show ?thesis
    by (auto simp: validateSelectedAction_def Let_def actionsOf_def singleton_iff)
qed

lemma validateSelectedForm_Nil:
  "validateSelectedForm g routes intake entry = [] \<longleftrightarrow> (\<exists>slot d. definitionSlots routes = [(intake, slot)] \<and>
     truthy (textOf (getp (getp slot ''binding'') ''definitionRef'')) \<and>
     filter (matchesDefinition (textOf (getp (getp slot ''binding'') ''definitionRef''))) (handles g) = [d] \<and>
     validateSelectedAction g routes intake (textOf (getp (getp slot ''binding'') ''definitionRef'')) = [])"
proof (cases "\<exists>slot. definitionSlots routes = [(intake, slot)]")
  case True
  then obtain slot where slot: "definitionSlots routes = [(intake, slot)]" ..
  show ?thesis
    unfolding validateSelectedForm_def slot by (auto simp: Let_def singleton_iff)
next
  case False
  have "length xs = 1 \<Longrightarrow> fst (hd xs) = intake \<Longrightarrow> \<exists>slot. xs = [(intake, slot)]" for xs :: "(jsval \<times> jsval) list"
    by (cases xs) auto
  with False show ?thesis
    by (auto simp: validateSelectedForm_def Let_def)
qed

lemma validateSelectedRespondentFlow_Nil:
  "validateSelectedRespondentFlow g = [] \<longleftrightarrow> (\<exists>h intake. ofKind ''surface'' g = [h] \<and>
     refUrl h = textOf (getp (manifest g) ''entrySurface'') \<and> truthy (refUrl h) \<and>
     filter (\<lambda>r. getp r ''id'' = textOf (getp (document h) ''entry'')) (surfaceRoutes h) = [intake] \<and>
     getp intake ''routeClass'' = Str ''intake'' \<and>
     validateSelectedForm g (surfaceRoutes h) intake (textOf (getp (document h) ''entry'')) = [])"
proof (cases "\<exists>h. ofKind ''surface'' g = [h]")
  case True
  then obtain h where h: "ofKind ''surface'' g = [h]" ..
  show ?thesis
    unfolding validateSelectedRespondentFlow_def h by (auto simp: Let_def singleton_iff)
next
  case False
  then show ?thesis
    by (auto simp: validateSelectedRespondentFlow_def Let_def singleton_iff)
qed

lemma respondentReceiptSource_member:
  assumes "respondentReceiptSource g p = Some src"
  obtains c where "c \<in> set (ofKind ''dataSources'' g)" "receiptDocument src \<in> set (recordsOf (getp (document c) ''sources''))"
proof -
  let ?all = "concat (map (\<lambda>h. if isString (refUrl h)
        then map (\<lambda>s. \<lparr>catalogRef = refUrl h, sourceRef = getp s ''id'', receiptDocument = s\<rparr>)
          (filter (receiptMatch p) (recordsOf (getp (document h) ''sources''))) else []) (ofKind ''dataSources'' g))"
  have "src \<in> set ?all"
    using assms by (auto simp: respondentReceiptSource_def split: list.splits simp del: set_concat)
  then show thesis using that by (auto split: if_splits)
qed

lemma validateReceiptSources_Nil:
  assumes "validateReceiptSources g p = []" and "c \<in> set (ofKind ''dataSources'' g)" and "s \<in> set (recordsOf (getp (document c) ''sources''))"
  shows "isReceiptSource p s"
proof -
  have "\<forall>(h, s)\<in>set (concat (map (\<lambda>h. map (Pair h) (recordsOf (getp (document h) ''sources''))) (ofKind ''dataSources'' g))).
    isReceiptSource p s"
    using assms(1) by (simp add: validateReceiptSources_def Let_def filter_empty_conv case_prod_beta)
  then show ?thesis using assms(2,3) by auto
qed

section \<open>What an admitted bundle guarantees\<close>

lemma admitted_surfaces:
  assumes "createRespondentPublicAppValidator env p g = []" and "(h, r) \<in> set (allRoutes g)"
  shows "routeDiagnostics p (respondentReceiptSource g p) h r = []"
  using assms by (auto simp: validator_Nil validatePublicSurfaces_Nil)

lemma one_of_class:
  assumes "createRespondentPublicAppValidator env p g = []" and "c \<in> {''intake'', ''proof''}"
  shows "\<exists>x. ofClass c g = [x]"
  using assms by (auto simp: validator_Nil validatePublicSurfaces_Nil singleton_iff)

lemma class_member: "x \<in> set (ofClass c g) \<longleftrightarrow> x \<in> set (allRoutes g) \<and> getp (snd x) ''routeClass'' = Str c"
  by (auto simp: ofClass_def)

text \<open>On a bundle without diagnostics every route is an intake or a proof route; it embeds no other
  route, carries a definition form only on intake, and every module widget on it is a public starter
  widget of its route class that binds no action.
\<close>

theorem public_bundle_routes:
  assumes "createRespondentPublicAppValidator env p g = []" and "(h, r) \<in> set (allRoutes g)"
  shows "\<exists>rc\<in>{''intake'', ''proof''}. getp r ''routeClass'' = Str rc \<and>
    (\<forall>s\<in>set (recordsOf (getp r ''slots'')). getp s ''slotType'' \<noteq> Str ''embed-route'' \<and>
      (getp s ''slotType'' = Str ''definition-form'' \<longrightarrow> rc = ''intake'') \<and>
      (getp s ''slotType'' = Str ''module-widget'' \<longrightarrow>
         getp (getp s ''binding'') ''actionBindings'' = Undefined \<and> widgetAllowed p rc (recordOf (getp s ''binding''))))"
  using admitted_surfaces [OF assms] by (auto simp: routeDiagnostics_Nil slotDiagnostics_Nil publicRoute_def)

text \<open>C25. A bundle without diagnostics has one way through: one surface, whose entry is its one intake
  route; one definition form, on that route; one action, which submits that form without preconditions,
  with the canonical validation and the submit event as its only effect; one transition that it
  triggers, unconditional, which leads with the case reference to the one proof route of the bundle;
  and no other transition of an intake route leads there with the case reference.
\<close>

theorem public_bundle_one_path:
  assumes "createRespondentPublicAppValidator env p g = []"
  shows "\<exists>h intake receipt slot d a t e. ofKind ''surface'' g = [h] \<and> ofClass ''intake'' g = [(h, intake)] \<and>
    ofClass ''proof'' g = [(h, receipt)] \<and> getp intake ''id'' = textOf (getp (document h) ''entry'') \<and>
    definitionSlots (surfaceRoutes h) = [(intake, slot)] \<and>
    ofKind ''responseActions'' g = [d] \<and> recordsOf (getp (document d) ''actions'') = [a] \<and> getp a ''intent'' = Str ''submit'' \<and>
    textOf (getp (getp (document d) ''targetDefinition'') ''url'') = textOf (getp (getp slot ''binding'') ''definitionRef'') \<and>
    getp a ''preconditions'' \<in> {Undefined, Arr []} \<and> canonicalValidation (recordOf (getp a ''validation'')) \<and>
    recordsOf (getp a ''effects'') = [e] \<and> isSubmitEvent e \<and>
    receiptTransitions (surfaceRoutes h) intake (textOf (getp a ''id'')) = [t] \<and> getp t ''when'' = Undefined \<and>
    exactCaseRefTransitionParams (getp t ''params'') \<and>
    getp t ''to'' = getp receipt ''id'' \<and> incomingTransitions (surfaceRoutes h) receipt = [t]"
proof -
  from assms obtain h intake slot where h: "ofKind ''surface'' g = [h]"
    and entry: "filter (\<lambda>r. getp r ''id'' = textOf (getp (document h) ''entry'')) (surfaceRoutes h) = [intake]"
    and intake: "getp intake ''routeClass'' = Str ''intake''"
    and slot: "definitionSlots (surfaceRoutes h) = [(intake, slot)]"
    and act: "validateSelectedAction g (surfaceRoutes h) intake (textOf (getp (getp slot ''binding'') ''definitionRef'')) = []"
    by (auto simp: validator_Nil validateSelectedRespondentFlow_Nil validateSelectedForm_Nil)
  from act obtain doc a t e where a: "ofKind ''responseActions'' g = [doc]" "recordsOf (getp (document doc) ''actions'') = [a]"
      "getp a ''intent'' = Str ''submit''"
      "textOf (getp (getp (document doc) ''targetDefinition'') ''url'') = textOf (getp (getp slot ''binding'') ''definitionRef'')"
      "getp a ''preconditions'' \<in> {Undefined, Arr []}" "canonicalValidation (recordOf (getp a ''validation''))"
      "recordsOf (getp a ''effects'') = [e]" "isSubmitEvent e"
    and t: "receiptTransitions (surfaceRoutes h) intake (textOf (getp a ''id'')) = [t]" and unconditional: "getp t ''when'' = Undefined"
    by (auto simp: validateSelectedAction_Nil validateSubmitAction_Nil)
  have routes: "allRoutes g = map (Pair h) (surfaceRoutes h)" by (simp add: allRoutes_def h)
  have member: "intake \<in> set (surfaceRoutes h)" "getp intake ''id'' = textOf (getp (document h) ''entry'')"
    using arg_cong [OF entry, of set] by auto
  obtain i where "ofClass ''intake'' g = [i]" using one_of_class [OF assms] by blast
  moreover have "(h, intake) \<in> set (ofClass ''intake'' g)" using member intake by (auto simp: ofClass_def routes)
  ultimately have one: "ofClass ''intake'' g = [(h, intake)]" by simp
  obtain q where q: "ofClass ''proof'' g = [q]" using one_of_class [OF assms] by blast
  obtain r where r: "q = (h, r)" "r \<in> set (surfaceRoutes h)" "getp r ''routeClass'' = Str ''proof''"
    using class_member [of q "''proof''" g] by (auto simp: q routes)
  have only: "r' = r" if "r' \<in> set (surfaceRoutes h)" "getp r' ''routeClass'' = Str ''proof''" for r'
    using that class_member [of "(h, r')" "''proof''" g] by (simp add: q r routes)
  have "t \<in> set (receiptTransitions (surfaceRoutes h) intake (textOf (getp a ''id'')))" by (simp add: t)
  then have to: "getp t ''to'' = getp r ''id''" and params: "exactCaseRefTransitionParams (getp t ''params'')"
    and leaving: "t \<in> set (recordsOf (getp intake ''transitions''))"
    using only by (auto simp: receiptTransitions_def)
  have "t \<in> set (incomingTransitions (surfaceRoutes h) r)"
    using to params leaving member intake by (auto simp: incomingTransitions_def)
  moreover have "length (incomingTransitions (surfaceRoutes h) r) = 1"
    using admitted_surfaces [OF assms, of h r] r by (auto simp: routes routeDiagnostics_Nil)
  ultimately have "incomingTransitions (surfaceRoutes h) r = [t]" by (auto simp: singleton_iff)
  then show ?thesis
    using h one q r(1) member(2) slot a t unconditional params to by blast
qed

text \<open>A bundle without diagnostics shows one receipt, on its proof route. The widget has one data
  binding, to the one document source with the receipt resource of the host as its provenance; that
  source is a snapshot the host owns and authorises, without which the route is not rendered, and
  is available where the widget stands.
\<close>

theorem public_bundle_receipt_source:
  assumes "createRespondentPublicAppValidator env p g = []"
  shows "\<exists>h r s src. ofClass ''proof'' g = [(h, r)] \<and> concat (map (\<lambda>(h, r). receiptSlots r) (allRoutes g)) = [s] \<and>
    s \<in> set (recordsOf (getp r ''slots'')) \<and>
    respondentReceiptSource g p = Some src \<and> isReceiptSource p (receiptDocument src) \<and>
    receiptBound (Some src) (recordOf (getp s ''binding'')) \<and> qualifiedAvailability (Some src) h r s"
proof -
  obtain s where s: "concat (map (\<lambda>(h, r). receiptSlots r) (allRoutes g)) = [s]"
    using assms by (auto simp: validator_Nil validatePublicSurfaces_Nil singleton_iff)
  have "s \<in> set (concat (map (\<lambda>(h, r). receiptSlots r) (allRoutes g)))" by (simp add: s)
  then obtain h r where r: "(h, r) \<in> set (allRoutes g)" "s \<in> set (receiptSlots r)" by auto
  have slot: "s \<in> set (recordsOf (getp r ''slots''))" "isReceiptSlot s"
    using r(2) by (auto simp: receiptSlots_def split: if_splits)
  have diags: "routeDiagnostics p (respondentReceiptSource g p) h r = []" by (rule admitted_surfaces [OF assms r(1)])
  have widget: "widgetAllowed p (strOf (getp r ''routeClass'')) (recordOf (getp s ''binding''))"
    and bound: "receiptBound (respondentReceiptSource g p) (recordOf (getp s ''binding''))"
      "qualifiedAvailability (respondentReceiptSource g p) h r s"
    using diags slot by (auto simp: routeDiagnostics_Nil slotDiagnostics_Nil isReceiptSlot_def)
  have "getp r ''routeClass'' = Str ''proof''"
    using diags widget slot by (auto simp: routeDiagnostics_Nil publicRoute_def widgetAllowed_def isReceiptSlot_def split: jsval.splits)
  then have "(h, r) \<in> set (ofClass ''proof'' g)" using r(1) by (auto simp: ofClass_def)
  moreover obtain q where q: "ofClass ''proof'' g = [q]" using one_of_class [OF assms] by blast
  ultimately have "ofClass ''proof'' g = [(h, r)]" by simp
  obtain src where src: "respondentReceiptSource g p = Some src"
    using bound(2) by (auto simp: qualifiedAvailability_def split: option.splits)
  obtain c where "c \<in> set (ofKind ''dataSources'' g)" "receiptDocument src \<in> set (recordsOf (getp (document c) ''sources''))"
    by (rule respondentReceiptSource_member [OF src])
  then have "isReceiptSource p (receiptDocument src)"
    by (rule validateReceiptSources_Nil [rotated]) (use assms in \<open>simp add: validator_Nil\<close>)
  then show ?thesis
    using \<open>ofClass ''proof'' g = [(h, r)]\<close> s slot bound src by auto
qed

text \<open>In every locale an admitted bundle offers, every string of the shell has a text.\<close>

theorem public_bundle_locales_complete:
  assumes "createRespondentPublicAppValidator env p g = []" and "l \<in> set (availableLocales env (appLocales g p))"
    and "k \<in> set (surfaceKeys env)"
  shows "lookupKey env (appLocales g p) l (shellLocaleKey env k) \<noteq> None"
proof -
  have "missingKeys env (appLocales g p) l = []"
    using assms(1,2) by (fastforce simp: validator_Nil validateAppLocales_def Let_def split: if_splits)
  then show ?thesis using assms(3) by (simp add: missingKeys_def filter_empty_conv)
qed

section \<open>A bundle that is admitted\<close>

definition sampleHandle :: "string \<Rightarrow> string \<Rightarrow> props \<Rightarrow> handle" where
  "sampleHandle k u ps = \<lparr>artifactKind = k, refUrl = Str u, document = Obj ps\<rparr>"

definition sampleTransition :: jsval where
  "sampleTransition = Obj [(''to'', Str ''receipt''), (''trigger'', Str ''submit''), (''params'', Obj [(''caseRef'', Str ''caseRef'')])]"

definition sampleIntake :: jsval where
  "sampleIntake = Obj [(''id'', Str ''apply''), (''routeClass'', Str ''intake''), (''transitions'', Arr [sampleTransition]),
     (''slots'', Arr [Obj [(''id'', Str ''form''), (''slotType'', Str ''definition-form''), (''binding'', Obj [(''definitionRef'', Str ''f'')])]])]"

definition sampleProof :: jsval where
  "sampleProof = Obj [(''id'', Str ''receipt''), (''routeClass'', Str ''proof''), (''path'', Str ''/receipt/{caseRef}''),
     (''params'', Arr [Obj [(''name'', Str ''caseRef''), (''type'', Str ''string'')]]),
     (''slots'', Arr [Obj [(''id'', Str ''panel''), (''slotType'', Str ''module-widget''),
       (''binding'', Obj [(''moduleId'', Str ''m''), (''widgetName'', Str ''ReceiptPanel''),
         (''dataBindings'', Obj [(''receipt'', Obj [(''catalogRef'', Str ''c''), (''sourceRef'', Str ''r'')])])])]])]"

definition sampleSource :: jsval where
  "sampleSource = Obj [(''id'', Str ''r''), (''kind'', Str ''document-resource''), (''owner'', Str ''host''), (''scope'', Str ''route''),
     (''schema'', Obj []),
     (''runtime'', Obj [(''authorizationBoundary'', Str ''host''), (''delivery'', Str ''snapshot''), (''failureMode'', Str ''block-render''),
       (''provenance'', Obj [(''kind'', Str ''document-resource''), (''source'', Str ''u'')])]),
     (''availability'', Obj [(''level'', Str ''route''), (''surfaceRef'', Str ''s''), (''routeRef'', Str ''receipt'')])]"

definition sampleAction :: jsval where
  "sampleAction = Obj [(''id'', Str ''a''), (''intent'', Str ''submit''),
     (''effects'', Arr [Obj [(''type'', Str ''hostEvent''), (''eventName'', Str ''formspec-submit'')]])]"

definition sampleRegistry :: props where
  "sampleRegistry = [(''entries'', Arr [
     Obj [(''category'', Str ''module''), (''name'', Str ''m''), (''contributes'', Arr [Str ''w''])],
     Obj [(''category'', Str ''widget''), (''name'', Str ''w''), (''widgetShape'', Obj [(''widgetName'', Str ''ReceiptPanel''),
       (''dataInputs'', Arr [Obj [(''name'', Str ''receipt''), (''required'', Bool True)]])])]])]"

definition sampleLocale :: props where
  "sampleLocale = [(''$formspecLocale'', Str ''2.0''), (''version'', Str ''1''), (''locale'', Str ''en''),
     (''target'', Obj [(''kind'', Str ''app''), (''url'', Str ''app'')]), (''strings'', Obj [])]"

definition sampleGraph :: app_graph where
  "sampleGraph = \<lparr>manifest = Obj [(''id'', Str ''app''), (''entrySurface'', Str ''s''),
       (''modules'', Arr [Obj [(''id'', Str ''m''), (''version'', Str ''1'')]])],
     handles = [sampleHandle ''surface'' ''s'' [(''entry'', Str ''apply''), (''routes'', Arr [sampleIntake, sampleProof])],
       sampleHandle ''definition'' ''f'' [(''url'', Str ''f'')],
       sampleHandle ''responseActions'' ''x'' [(''targetDefinition'', Obj [(''url'', Str ''f'')]), (''actions'', Arr [sampleAction])],
       sampleHandle ''dataSources'' ''c'' [(''sources'', Arr [sampleSource])],
       sampleHandle ''registry'' ''y'' sampleRegistry, sampleHandle ''locale'' ''l'' sampleLocale]\<rparr>"

definition samplePolicy :: public_policy where
  "samplePolicy = \<lparr>appId = ''app'', starterModuleId = ''m'', receiptResourceUrl = ''u''\<rparr>"

definition sampleEnv :: app_env where
  "sampleEnv = \<lparr>stringOf = (\<lambda>_. ''undefined''), surfaceKeys = [''receipt.title''], localeKeyPrefix = ''shell.'',
     availableLocales = (\<lambda>_. [''en'']),
     lookupKey = (\<lambda>_ l k. if l = ''en'' \<and> k = ''shell.receipt.title'' then Some ''Receipt'' else None)\<rparr>"

lemma sample_admitted: "createRespondentPublicAppValidator sampleEnv samplePolicy sampleGraph = []"
  by code_simp

lemma sample_route: "(hd (ofKind ''surface'' sampleGraph), sampleProof) \<in> set (allRoutes sampleGraph)"
  by code_simp

theorem public_bundle_routes_witness:
  "getp sampleProof ''routeClass'' = Str ''proof''"
  using public_bundle_routes [OF sample_admitted sample_route] by (auto simp: sampleProof_def)

theorem public_bundle_one_path_witness:
  "\<exists>h intake receipt. ofKind ''surface'' sampleGraph = [h] \<and> ofClass ''intake'' sampleGraph = [(h, intake)] \<and>
    ofClass ''proof'' sampleGraph = [(h, receipt)]"
  using public_bundle_one_path [OF sample_admitted] by blast

theorem public_bundle_receipt_source_witness:
  "\<exists>src. respondentReceiptSource sampleGraph samplePolicy = Some src \<and> isReceiptSource samplePolicy (receiptDocument src)"
  using public_bundle_receipt_source [OF sample_admitted] by blast

theorem public_bundle_locales_complete_witness:
  "lookupKey sampleEnv (appLocales sampleGraph samplePolicy) ''en'' ''shell.receipt.title'' \<noteq> None"
  using public_bundle_locales_complete [OF sample_admitted, of "''en''" "''receipt.title''"] by (simp add: sampleEnv_def shellLocaleKey_def)

end
