(* ===== verification/Draft_Bindings.thy ===== *)
theory Draft_Bindings
  imports Prelude
begin

text \<open>
  What a browser tab remembers of its server drafts: the scoped metadata store of
  \<open>src/shared/browser-scoped-metadata.ts\<close> over a Web Storage area, and the binding registry of
  \<open>src/adapters/http/draft-binding-registry.ts\<close>, which the draft store and the submit transport share.

  A stored text is \<open>Malformed\<close> or the value it parses to; \<open>jsonOf\<close> is a value after
  \<open>JSON.parse(JSON.stringify(v))\<close>. The storage keeps what is written unless its quota refuses it,
  as the standard has it. The form-id resolver is a parameter.
\<close>


section \<open>Stored metadata\<close>

datatype item = Malformed string | Json jsval

type_synonym storage = "string \<Rightarrow> item option"

record draft_key =
  dkFormUrl :: string
  dkFormVersion :: "string option"
  dkSubjectRef :: "string option"
  dkPartyRef :: "string option"

datatype draft_error =
    BadNamespace | BadContext | StorageUnavailable
  | HandlesInvalid | HandleMismatch
  | DraftVersionConflict draft_key "string option"

record metadata_config =
  mdNamespace :: string
  mdContext :: string
  mdFits :: "storage \<Rightarrow> string \<Rightarrow> jsval \<Rightarrow> bool"

fun jsonOf :: "jsval \<Rightarrow> jsval option" where
  "jsonOf Undefined = None"
| "jsonOf Null = Some Null"
| "jsonOf (Bool b) = Some (Bool b)"
| "jsonOf (Num n) = Some (case n of Fin r \<Rightarrow> Num (Fin r) | _ \<Rightarrow> Null)"
| "jsonOf (Str s) = Some (Str s)"
| "jsonOf (Arr xs) = Some (Arr (map (\<lambda>x. case jsonOf x of None \<Rightarrow> Null | Some y \<Rightarrow> y) xs))"
| "jsonOf (Obj ps) = Some (Obj (concat (map (\<lambda>p. case jsonOf (snd p) of None \<Rightarrow> [] | Some y \<Rightarrow> [(fst p, y)]) ps)))"

text \<open>\<open>/^[A-Za-z0-9:._-]+$/\<close>\<close>

definition isNamespaceChar :: "char \<Rightarrow> bool" where
  "isNamespaceChar c = (let n = of_char c :: nat in
     48 \<le> n \<and> n \<le> 57 \<or> 65 \<le> n \<and> n \<le> 90 \<or> 97 \<le> n \<and> n \<le> 122 \<or> c \<in> set '':._-'')"

definition createBrowserScopedMetadataStore ::
  "(jsval \<Rightarrow> string) \<Rightarrow> (storage \<Rightarrow> string \<Rightarrow> jsval \<Rightarrow> bool) \<Rightarrow> jsval \<Rightarrow> jsval \<Rightarrow> draft_error + metadata_config" where
  "createBrowserScopedMetadataStore stringify fits namespace ctx =
     bindR (throwIf (\<not> isNonEmptyString namespace \<or> \<not> list_all isNamespaceChar (strOf namespace)) BadNamespace) (\<lambda>_.
     bindR (throwIf (\<not> isPlainObject ctx) BadContext) (\<lambda>_.
     Inr \<lparr>mdNamespace = strOf namespace, mdContext = stringify ctx, mdFits = fits\<rparr>))"

definition keyFor :: "metadata_config \<Rightarrow> string \<Rightarrow> draft_error + string" where
  "keyFor cfg slot = (if slot = [] then Inl StorageUnavailable
     else Inr (mdNamespace cfg @ '':'' @ mdContext cfg @ '':'' @ slot))"

text \<open>Every failure of an access, a mismatch included, is reported as unavailable storage.\<close>

definition metaRead :: "metadata_config \<Rightarrow> storage \<Rightarrow> string \<Rightarrow> draft_error + jsval" where
  "metaRead cfg s slot = bindR (keyFor cfg slot) (\<lambda>key.
     case s key of
       None \<Rightarrow> Inr Undefined
     | Some (Json (Obj ps)) \<Rightarrow>
         if hasOwn ps ''context'' \<and> hasOwn ps ''slot'' \<and> hasOwn ps ''value'' \<and>
            propOf ps ''context'' = Str (mdContext cfg) \<and> propOf ps ''slot'' = Str slot
         then Inr (propOf ps ''value'') else Inl StorageUnavailable
     | Some _ \<Rightarrow> Inl StorageUnavailable)"

definition metaWrite :: "metadata_config \<Rightarrow> storage \<Rightarrow> string \<Rightarrow> jsval \<Rightarrow> draft_error + storage" where
  "metaWrite cfg s slot v = bindR (keyFor cfg slot) (\<lambda>key.
     case jsonOf v of
       None \<Rightarrow> Inl StorageUnavailable
     | Some json \<Rightarrow>
         (let rec = Obj [(''context'', Str (mdContext cfg)), (''slot'', Str slot), (''value'', json)] in
          if mdFits cfg s key rec then Inr (s(key \<mapsto> Json rec)) else Inl StorageUnavailable))"

definition metaRemove :: "metadata_config \<Rightarrow> storage \<Rightarrow> string \<Rightarrow> draft_error + storage" where
  "metaRemove cfg s slot = bindR (keyFor cfg slot) (\<lambda>key. Inr (s(key := None)))"

lemma keyFor_inject: "keyFor cfg a = Inr k \<Longrightarrow> keyFor cfg b = Inr k \<longleftrightarrow> a = b"
  by (auto simp: keyFor_def split: if_splits)


subsection \<open>The contract of a scoped store\<close>

text \<open>
  A slot reads what was written to it, as JSON keeps it, until it is removed; no operation touches
  another slot.
\<close>

locale metadata_store =
  fixes read :: "'s \<Rightarrow> string \<Rightarrow> 'e + jsval"
    and write_slot :: "'s \<Rightarrow> string \<Rightarrow> jsval \<Rightarrow> 'e + 's"
    and remove_slot :: "'s \<Rightarrow> string \<Rightarrow> 'e + 's"
  assumes read_written: "write_slot s a v = Inr s' \<Longrightarrow> jsonOf v = Some w \<Longrightarrow> read s' a = Inr w"
    and write_json: "write_slot s a v = Inr s' \<Longrightarrow> jsonOf v \<noteq> None"
    and read_removed: "remove_slot s a = Inr s' \<Longrightarrow> read s' a = Inr Undefined"
    and write_other: "write_slot s a v = Inr s' \<Longrightarrow> a \<noteq> b \<Longrightarrow> read s' b = read s b"
    and remove_other: "remove_slot s a = Inr s' \<Longrightarrow> a \<noteq> b \<Longrightarrow> read s' b = read s b"
begin

lemma read_back: "write_slot s a v = Inr s' \<Longrightarrow> \<exists>w. jsonOf v = Some w \<and> read s' a = Inr w"
  using write_json read_written by blast

lemma write_twice: "write_slot s a v = Inr s' \<Longrightarrow> write_slot s' a v' = Inr s'' \<Longrightarrow> jsonOf v' = Some w \<Longrightarrow> read s'' a = Inr w"
  by (rule read_written)

end

interpretation tabStore: metadata_store "metaRead cfg" "metaWrite cfg" "metaRemove cfg" for cfg
proof unfold_locales
  fix s a v s' w assume "metaWrite cfg s a v = Inr s'" "jsonOf v = Some w"
  then show "metaRead cfg s' a = Inr w"
    by (auto simp: metaWrite_def metaRead_def Let_def keyFor_def split: if_splits)
next
  fix s a v s' assume "metaWrite cfg s a v = Inr s'"
  then show "jsonOf v \<noteq> None" by (auto simp: metaWrite_def keyFor_def split: if_splits option.splits)
next
  fix s a s' assume "metaRemove cfg s a = Inr s'"
  then show "metaRead cfg s' a = Inr Undefined" by (auto simp: metaRemove_def metaRead_def keyFor_def split: if_splits)
next
  fix s a v s' b assume "metaWrite cfg s a v = Inr s'" "a \<noteq> b"
  then show "metaRead cfg s' b = metaRead cfg s b"
    by (auto simp: metaWrite_def metaRead_def Let_def keyFor_def split: if_splits option.splits)
next
  fix s a s' b assume "metaRemove cfg s a = Inr s'" "a \<noteq> b"
  then show "metaRead cfg s' b = metaRead cfg s b"
    by (auto simp: metaRemove_def metaRead_def keyFor_def split: if_splits)
qed


section \<open>The binding registry\<close>

record binding =
  bDraftId :: jsval
  bDraftVersion :: jsval
  bResponse :: jsval
  bResponseId :: jsval

record registry =
  bindings :: "(jsval \<times> draft_key \<times> binding) list"
  restored :: bool
  tabStorage :: storage

record registry_env =
  resumeMetadata :: "metadata_config option"
  formIdResolver :: "string \<Rightarrow> string option \<Rightarrow> string"

definition emptyRegistry :: "storage \<Rightarrow> registry" where
  "emptyRegistry s = \<lparr>bindings = [], restored = False, tabStorage = s\<rparr>"

definition orNull :: "string option \<Rightarrow> jsval" where
  "orNull v = (case v of Some s \<Rightarrow> Str s | None \<Rightarrow> Null)"

text \<open>The text of this value is the key of the map; two keys have one text only if they are equal.\<close>

definition serializeKey :: "draft_key \<Rightarrow> jsval" where
  "serializeKey key = Obj [(''formUrl'', Str (dkFormUrl key)), (''formVersion'', orNull (dkFormVersion key)),
     (''subjectRef'', orNull (dkSubjectRef key)), (''partyRef'', orNull (dkPartyRef key))]"

lemma orNull_inject [simp]: "orNull a = orNull b \<longleftrightarrow> a = b"
  by (simp add: orNull_def split: option.splits)

lemma serializeKey_inject [simp]: "serializeKey a = serializeKey b \<longleftrightarrow> a = b"
  by (auto simp: serializeKey_def intro!: draft_key.equality)

fun assocSet :: "'k \<Rightarrow> 'v \<Rightarrow> ('k \<times> 'v) list \<Rightarrow> ('k \<times> 'v) list" where
  "assocSet k v [] = [(k, v)]"
| "assocSet k v ((a, b) # m) = (if a = k then (a, v) # m else (a, b) # assocSet k v m)"

definition optMember :: "string \<Rightarrow> string option \<Rightarrow> props" where
  "optMember k v = (case v of Some s \<Rightarrow> [(k, Str s)] | None \<Rightarrow> [])"

definition copyKey :: "draft_key \<Rightarrow> jsval" where
  "copyKey key = Obj ((''formUrl'', Str (dkFormUrl key)) # optMember ''formVersion'' (dkFormVersion key) @
     optMember ''subjectRef'' (dkSubjectRef key) @ optMember ''partyRef'' (dkPartyRef key))"

definition optString :: "jsval \<Rightarrow> string option" where
  "optString v = (case v of Str s \<Rightarrow> Some s | _ \<Rightarrow> None)"

definition readKey :: "jsval \<Rightarrow> draft_key" where
  "readKey v = \<lparr>dkFormUrl = strOf (getp v ''formUrl''), dkFormVersion = optString (getp v ''formVersion''),
     dkSubjectRef = optString (getp v ''subjectRef''), dkPartyRef = optString (getp v ''partyRef'')\<rparr>"

definition isVersion :: "jsval \<Rightarrow> bool" where
  "isVersion v = (case integerOf v of Some i \<Rightarrow> 0 \<le> i | None \<Rightarrow> False)"

definition isResponseId :: "jsval \<Rightarrow> bool" where
  "isResponseId v = (v = Undefined \<or> isString v \<and> trim (strOf v) \<noteq> [])"

definition handleOk :: "registry_env \<Rightarrow> jsval \<Rightarrow> bool" where
  "handleOk env entry = (let key = getp entry ''key'' in
     truthy key \<and> isNonEmptyString (getp key ''formUrl'') \<and>
     (getp key ''formVersion'' = Undefined \<or> isString (getp key ''formVersion'')) \<and>
     (getp key ''subjectRef'' = Undefined \<or> isString (getp key ''subjectRef'')) \<and>
     (getp key ''partyRef'' = Undefined \<or> isString (getp key ''partyRef'')) \<and>
     isNonEmptyString (getp entry ''draftId'') \<and> isVersion (getp entry ''draftVersion'') \<and>
     isResponseId (getp entry ''responseId'') \<and>
     getp entry ''formId'' = Str (formIdResolver env (dkFormUrl (readKey key)) (dkFormVersion (readKey key))))"

definition handleBinding :: "jsval \<Rightarrow> binding" where
  "handleBinding entry = \<lparr>bDraftId = getp entry ''draftId'', bDraftVersion = getp entry ''draftVersion'',
     bResponse = Undefined, bResponseId = getp entry ''responseId''\<rparr>"

text \<open>A refused entry leaves the entries before it in the map, and the registry unrestored.\<close>

fun restoreEntries ::
  "registry_env \<Rightarrow> jsval list \<Rightarrow> (jsval \<times> draft_key \<times> binding) list \<Rightarrow> (draft_error + unit) \<times> (jsval \<times> draft_key \<times> binding) list" where
  "restoreEntries env [] m = (Inr (), m)"
| "restoreEntries env (e # es) m =
     (if handleOk env e
      then restoreEntries env es (assocSet (serializeKey (readKey (getp e ''key''))) (readKey (getp e ''key''), handleBinding e) m)
      else (Inl HandleMismatch, m))"

definition restore :: "registry_env \<Rightarrow> registry \<Rightarrow> (draft_error + unit) \<times> registry" where
  "restore env r =
    (if restored r then (Inr (), r)
     else case (case resumeMetadata env of None \<Rightarrow> Inr Undefined | Some cfg \<Rightarrow> metaRead cfg (tabStorage r) ''draft-handles'') of
       Inl e \<Rightarrow> (Inl e, r)
     | Inr Undefined \<Rightarrow> (Inr (), r\<lparr>restored := True\<rparr>)
     | Inr (Arr es) \<Rightarrow> (case restoreEntries env es (bindings r) of
           (Inl e, m) \<Rightarrow> (Inl e, r\<lparr>bindings := m\<rparr>)
         | (Inr _, m) \<Rightarrow> (Inr (), r\<lparr>bindings := m, restored := True\<rparr>))
     | Inr _ \<Rightarrow> (Inl HandlesInvalid, r))"

definition handleOf :: "registry_env \<Rightarrow> draft_key \<times> binding \<Rightarrow> jsval" where
  "handleOf env e = (case e of (key, b) \<Rightarrow> Obj ([(''key'', copyKey key),
     (''formId'', Str (formIdResolver env (dkFormUrl key) (dkFormVersion key))),
     (''draftId'', bDraftId b), (''draftVersion'', bDraftVersion b)] @
     (if bResponseId b \<noteq> Undefined then [(''responseId'', bResponseId b)] else [])))"

definition persist :: "registry_env \<Rightarrow> registry \<Rightarrow> (draft_error + unit) \<times> registry" where
  "persist env r =
    (case resumeMetadata env of
       None \<Rightarrow> (Inr (), r)
     | Some cfg \<Rightarrow>
        (case (if bindings r = [] then metaRemove cfg (tabStorage r) ''draft-handles''
               else metaWrite cfg (tabStorage r) ''draft-handles'' (Arr (map (\<lambda>(_, e). handleOf env e) (bindings r)))) of
           Inl e \<Rightarrow> (Inl e, r)
         | Inr s \<Rightarrow> (Inr (), r\<lparr>tabStorage := s\<rparr>)))"

definition sameScope :: "registry_env \<Rightarrow> draft_key \<Rightarrow> draft_key \<Rightarrow> bool" where
  "sameScope env a b =
     (formIdResolver env (dkFormUrl a) (dkFormVersion a) = formIdResolver env (dkFormUrl b) (dkFormVersion b) \<and>
      dkSubjectRef a = dkSubjectRef b \<and> dkPartyRef a = dkPartyRef b)"

text \<open>The operations. A failing restoration is their first error.\<close>

definition afterRestore ::
  "registry_env \<Rightarrow> registry \<Rightarrow> (registry \<Rightarrow> (draft_error + 'a) \<times> registry) \<Rightarrow> (draft_error + 'a) \<times> registry" where
  "afterRestore env r k = (case restore env r of (Inl e, r') \<Rightarrow> (Inl e, r') | (Inr _, r') \<Rightarrow> k r')"

definition getBinding :: "registry_env \<Rightarrow> draft_key \<Rightarrow> registry \<Rightarrow> (draft_error + binding option) \<times> registry" where
  "getBinding env key r = afterRestore env r (\<lambda>r.
     case map_of (bindings r) (serializeKey key) of
       Some (_, b) \<Rightarrow> (Inr (Some b), r)
     | None \<Rightarrow> (case find (\<lambda>(_, k, _). sameScope env k key \<and> dkFormVersion k \<noteq> dkFormVersion key) (bindings r) of
           Some (_, k, _) \<Rightarrow> (Inl (DraftVersionConflict key (dkFormVersion k)), r)
         | None \<Rightarrow> (Inr None, r)))"

definition withResponseId :: "binding \<Rightarrow> binding" where
  "withResponseId b = (if truthy (getp (bResponse b) ''id'') then b\<lparr>bResponseId := getp (bResponse b) ''id''\<rparr> else b)"

definition putBinding :: "registry_env \<Rightarrow> draft_key \<Rightarrow> binding \<Rightarrow> registry \<Rightarrow> (draft_error + unit) \<times> registry" where
  "putBinding env key b r = afterRestore env r (\<lambda>r.
     persist env (r\<lparr>bindings := assocSet (serializeKey key) (key, withResponseId b) (bindings r)\<rparr>))"

definition deleteBinding :: "registry_env \<Rightarrow> draft_key \<Rightarrow> registry \<Rightarrow> (draft_error + unit) \<times> registry" where
  "deleteBinding env key r =
    (case restore env r of
       (Inr _, r) \<Rightarrow> persist env (r\<lparr>bindings := filter (\<lambda>(_, k, _). \<not> sameScope env k key) (bindings r)\<rparr>)
     | (Inl _, r) \<Rightarrow>
         (case resumeMetadata env of
            None \<Rightarrow> (Inr (), r\<lparr>bindings := [], restored := True\<rparr>)
          | Some cfg \<Rightarrow> (case metaRemove cfg (tabStorage r) ''draft-handles'' of
                Inl e \<Rightarrow> (Inl e, r)
              | Inr s \<Rightarrow> (Inr (), r\<lparr>bindings := [], restored := True, tabStorage := s\<rparr>))))"

definition bindingEntries :: "registry_env \<Rightarrow> registry \<Rightarrow> (draft_error + (draft_key \<times> binding) list) \<times> registry" where
  "bindingEntries env r = afterRestore env r (\<lambda>r. (Inr (map snd (bindings r)), r))"

section \<open>What the registry keeps\<close>

definition storable :: "draft_key \<Rightarrow> binding \<Rightarrow> bool" where
  "storable key b = (dkFormUrl key \<noteq> [] \<and> isNonEmptyString (bDraftId b) \<and> isVersion (bDraftVersion b) \<and> isResponseId (bResponseId b))"

definition forgetResponse :: "binding \<Rightarrow> binding" where
  "forgetResponse b = b\<lparr>bResponse := Undefined\<rparr>"

definition reloaded :: "(jsval \<times> draft_key \<times> binding) list \<Rightarrow> (jsval \<times> draft_key \<times> binding) list" where
  "reloaded m = map (\<lambda>(s, k, b). (s, k, forgetResponse b)) m"

text \<open>The registry's map is keyed by the serialized key; the handles in it are complete or not.\<close>

definition keyedMap :: "(jsval \<times> draft_key \<times> binding) list \<Rightarrow> bool" where
  "keyedMap m = (distinct (map fst m) \<and> (\<forall>(s, k, b)\<in>set m. s = serializeKey k))"

definition allStorable :: "(jsval \<times> draft_key \<times> binding) list \<Rightarrow> bool" where
  "allStorable m = list_all (\<lambda>(s, k, b). storable k b) m"

definition mapOk :: "(jsval \<times> draft_key \<times> binding) list \<Rightarrow> bool" where
  "mapOk m = (keyedMap m \<and> allStorable m)"

lemma assocSet_keys: "set (map fst (assocSet k v m)) = insert k (set (map fst m))"
  by (induction k v m rule: assocSet.induct) (simp_all add: insert_commute)

lemma map_fst_reloaded [simp]: "map fst (reloaded m) = map fst m"
  by (simp add: reloaded_def case_prod_beta comp_def)

lemma assocSet_distinct: "distinct (map fst m) \<Longrightarrow> distinct (map fst (assocSet k v m))"
proof (induction m)
  case (Cons x m)
  then show ?case using assocSet_keys [of k v m] by (cases x) (auto simp: image_iff)
qed simp

lemma assocSet_set: "x \<in> set (assocSet k v m) \<Longrightarrow> x = (k, v) \<or> x \<in> set m"
  by (induction m) (auto split: if_splits)

lemma assocSet_fresh: "k \<notin> set (map fst m) \<Longrightarrow> assocSet k v m = m @ [(k, v)]"
  by (induction m) auto

lemma map_of_assocSet: "map_of (assocSet k v m) = (map_of m)(k \<mapsto> v)"
  by (induction m) (auto simp: fun_eq_iff)

lemma keyedMap_assocSet: "keyedMap m \<Longrightarrow> keyedMap (assocSet (serializeKey k) (k, b) m)"
  unfolding keyedMap_def using assocSet_distinct [of m] by (auto dest!: assocSet_set)

lemma keyedMap_Nil [simp]: "keyedMap []" by (simp add: keyedMap_def)

lemma keyedMap_filter: "keyedMap m \<Longrightarrow> keyedMap (filter P m)"
  by (auto simp: keyedMap_def distinct_map_filter)

text \<open>A handle reads back as it was stored.\<close>

lemma readKey_copyKey [simp]: "readKey (copyKey key) = key"
  by (cases key) (auto simp: readKey_def copyKey_def optMember_def optString_def propOf_def split: option.splits)

lemma isVersion_json: "isVersion v \<Longrightarrow> jsonOf v = Some v"
  by (cases v rule: jsonOf.cases) (auto simp: isVersion_def split: jsnum.splits)

lemma isResponseId_json: "isResponseId v \<Longrightarrow> jsonOf v = (if v = Undefined then None else Some v)"
  by (cases v) (auto simp: isResponseId_def)

lemma jsonOf_copyKey [simp]: "jsonOf (copyKey key) = Some (copyKey key)"
  by (auto simp: copyKey_def optMember_def split: option.splits)

lemma jsonOf_handle: "storable k b \<Longrightarrow> jsonOf (handleOf env (k, b)) = Some (handleOf env (k, b))"
  by (cases "bDraftId b") (auto simp: storable_def handleOf_def isVersion_json isResponseId_json)

lemma handle_members:
  "getp (handleOf env (k, b)) ''key'' = copyKey k"
  "getp (handleOf env (k, b)) ''draftId'' = bDraftId b"
  "getp (handleOf env (k, b)) ''draftVersion'' = bDraftVersion b"
  "getp (handleOf env (k, b)) ''responseId'' = bResponseId b"
  "getp (handleOf env (k, b)) ''formId'' = Str (formIdResolver env (dkFormUrl k) (dkFormVersion k))"
  by (simp_all add: handleOf_def propOf_def)

lemma copyKey_members:
  "truthy (copyKey k)" "getp (copyKey k) ''formUrl'' = Str (dkFormUrl k)"
  "getp (copyKey k) ''formVersion'' = (case dkFormVersion k of Some s \<Rightarrow> Str s | None \<Rightarrow> Undefined)"
  "getp (copyKey k) ''subjectRef'' = (case dkSubjectRef k of Some s \<Rightarrow> Str s | None \<Rightarrow> Undefined)"
  "getp (copyKey k) ''partyRef'' = (case dkPartyRef k of Some s \<Rightarrow> Str s | None \<Rightarrow> Undefined)"
  by (auto simp: copyKey_def optMember_def propOf_def split: option.splits)

lemma handleOk_handle: "storable k b \<Longrightarrow> handleOk env (handleOf env (k, b))"
  by (auto simp: handleOk_def Let_def handle_members copyKey_members storable_def split: option.splits)

lemma handleBinding_handle: "handleBinding (handleOf env (k, b)) = forgetResponse b"
  by (simp add: handleBinding_def handle_members forgetResponse_def)

lemma restoreEntries_handles:
  "mapOk (m' @ m) \<Longrightarrow> restoreEntries env (map (\<lambda>(_, e). handleOf env e) m) (reloaded m') = (Inr (), reloaded (m' @ m))"
proof (induction m arbitrary: m')
  case (Cons x m)
  obtain k b where x: "x = (serializeKey k, k, b)" and ok: "storable k b"
    using Cons.prems by (cases x) (auto simp: mapOk_def keyedMap_def allStorable_def list_all_iff)
  have "serializeKey k \<notin> set (map fst (reloaded m'))"
    using Cons.prems by (auto simp: mapOk_def keyedMap_def allStorable_def list_all_iff x simp del: set_map)
  then have "assocSet (serializeKey k) (k, forgetResponse b) (reloaded m') = reloaded (m' @ [x])"
    by (simp add: assocSet_fresh reloaded_def x)
  then show ?case
    using Cons.IH [of "m' @ [x]"] Cons.prems by (simp add: x handleOk_handle [OF ok] handle_members handleBinding_handle)
qed simp

lemma jsonOf_handles:
  assumes "mapOk m"
  shows "jsonOf (Arr (map (\<lambda>(_, e). handleOf env e) m)) = Some (Arr (map (\<lambda>(_, e). handleOf env e) m))"
  using assms by (auto simp: mapOk_def keyedMap_def allStorable_def list_all_iff jsonOf_handle)

lemma restore_persisted:
  assumes "mapOk (bindings r)" "resumeMetadata env = Some cfg" "persist env r = (Inr (), r')"
  shows "restore env (emptyRegistry (tabStorage r')) =
    (Inr (), \<lparr>bindings = reloaded (bindings r), restored = True, tabStorage = tabStorage r'\<rparr>)"
proof (cases "bindings r = []")
  case True
  then have "metaRemove cfg (tabStorage r) ''draft-handles'' = Inr (tabStorage r')"
    using assms(2,3) by (auto simp: persist_def split: sum.splits)
  then have "metaRead cfg (tabStorage r') ''draft-handles'' = Inr Undefined" by (rule tabStore.read_removed)
  then show ?thesis using True by (simp add: restore_def emptyRegistry_def assms(2) reloaded_def)
next
  case False
  then have "metaWrite cfg (tabStorage r) ''draft-handles'' (Arr (map (\<lambda>(_, e). handleOf env e) (bindings r))) = Inr (tabStorage r')"
    using assms(2,3) by (auto simp: persist_def split: sum.splits)
  then have "metaRead cfg (tabStorage r') ''draft-handles'' = Inr (Arr (map (\<lambda>(_, e). handleOf env e) (bindings r)))"
    using tabStore.read_written jsonOf_handles [OF assms(1)] by blast
  then show ?thesis
    using restoreEntries_handles [of "[]" "bindings r" env] assms(1)
    by (simp add: restore_def emptyRegistry_def assms(2) reloaded_def)
qed


section \<open>A registry over its life\<close>

text \<open>The calls of a session, over a storage that may hold anything at first.\<close>

inductive registryRun :: "registry_env \<Rightarrow> registry \<Rightarrow> bool" for env where
  run_new: "registryRun env (emptyRegistry s)"
| run_get: "registryRun env r \<Longrightarrow> registryRun env (snd (getBinding env key r))"
| run_put: "registryRun env r \<Longrightarrow> registryRun env (snd (putBinding env key b r))"
| run_delete: "registryRun env r \<Longrightarrow> registryRun env (snd (deleteBinding env key r))"
| run_entries: "registryRun env r \<Longrightarrow> registryRun env (snd (bindingEntries env r))"

lemma restoreEntries_keyedMap: "keyedMap m \<Longrightarrow> keyedMap (snd (restoreEntries env es m))"
  by (induction env es m rule: restoreEntries.induct) (simp_all add: keyedMap_assocSet)

lemma restore_keyedMap: "keyedMap (bindings r) \<Longrightarrow> keyedMap (bindings (snd (restore env r)))"
  using restoreEntries_keyedMap [of "bindings r" env]
  by (auto simp: restore_def split: sum.splits jsval.splits prod.splits) (metis snd_conv)+

lemma persist_bindings [simp]: "bindings (snd (persist env r)) = bindings r"
  by (simp add: persist_def split: option.split sum.split)

lemma afterRestore_keyedMap:
  "keyedMap (bindings r) \<Longrightarrow> (\<And>r. keyedMap (bindings r) \<Longrightarrow> keyedMap (bindings (snd (k r)))) \<Longrightarrow> keyedMap (bindings (snd (afterRestore env r k)))"
  using restore_keyedMap [of r env] by (cases "restore env r") (auto simp: afterRestore_def split: sum.split)

lemma registryRun_keyedMap: "registryRun env r \<Longrightarrow> keyedMap (bindings r)"
proof (induction rule: registryRun.induct)
  case (run_new s)
  then show ?case by (simp add: emptyRegistry_def)
next
  case (run_get r key)
  then show ?case unfolding getBinding_def by (auto intro!: afterRestore_keyedMap split: option.split prod.split)
next
  case (run_put r key b)
  then show ?case unfolding putBinding_def by (auto intro!: afterRestore_keyedMap keyedMap_assocSet)
next
  case (run_delete r key)
  then show ?case using restore_keyedMap [of r env]
    by (auto simp: deleteBinding_def keyedMap_filter split: prod.split sum.split option.split)
next
  case (run_entries r)
  then show ?case unfolding bindingEntries_def by (auto intro!: afterRestore_keyedMap)
qed

lemma afterRestore_ok: "afterRestore env r k = (Inr x, r') \<Longrightarrow> \<exists>r1. restore env r = (Inr (), r1) \<and> k r1 = (Inr x, r')"
  by (simp add: afterRestore_def split: prod.splits sum.splits)

lemma restore_done: "restore env r = (Inr (), r') \<Longrightarrow> restored r'"
  by (auto simp: restore_def split: if_splits sum.splits jsval.splits prod.splits)

lemma persist_restored [simp]: "restored (snd (persist env r)) = restored r"
  by (simp add: persist_def split: option.split sum.split)

lemma persist_ok: "persist env r = (x, r') \<Longrightarrow> bindings r' = bindings r \<and> restored r' = restored r"
  using persist_bindings [of env r] persist_restored [of env r] by (cases "persist env r") simp

lemma putBinding_ok:
  assumes "putBinding env key b r = (Inr (), r')"
  obtains r1 where "restore env r = (Inr (), r1)"
    "persist env (r1\<lparr>bindings := assocSet (serializeKey key) (key, withResponseId b) (bindings r1)\<rparr>) = (Inr (), r')"
    "bindings r' = assocSet (serializeKey key) (key, withResponseId b) (bindings r1)" "restored r'"
proof -
  obtain r1 where r1: "restore env r = (Inr (), r1)"
    "persist env (r1\<lparr>bindings := assocSet (serializeKey key) (key, withResponseId b) (bindings r1)\<rparr>) = (Inr (), r')"
    using afterRestore_ok [OF assms [unfolded putBinding_def]] by blast
  show thesis using persist_ok [OF r1(2)] restore_done [OF r1(1)] by (intro that [OF r1]) simp_all
qed

text \<open>A lookup in a restored registry reads its map only.\<close>

lemma getBinding_restored:
  "restored r \<Longrightarrow> getBinding env key r =
    (case map_of (bindings r) (serializeKey key) of
       Some (_, b) \<Rightarrow> (Inr (Some b), r)
     | None \<Rightarrow> (case find (\<lambda>(_, k, _). sameScope env k key \<and> dkFormVersion k \<noteq> dkFormVersion key) (bindings r) of
           Some (_, k, _) \<Rightarrow> (Inl (DraftVersionConflict key (dkFormVersion k)), r)
         | None \<Rightarrow> (Inr None, r)))"
  by (simp add: getBinding_def afterRestore_def restore_def)

lemma map_of_reloaded: "map_of (reloaded m) s = map_option (\<lambda>(k, b). (k, forgetResponse b)) (map_of m s)"
  by (induction m) (auto simp: reloaded_def)

lemma find_reloaded: "find (\<lambda>(_, k, _). P k) (reloaded m) = map_option (\<lambda>(s, k, b). (s, k, forgetResponse b)) (find (\<lambda>(_, k, _). P k) m)"
  by (induction m) (auto simp: reloaded_def)

lemma get_reloaded:
  assumes "restored r" "restored r'" "bindings r' = reloaded (bindings r)"
  shows "fst (getBinding env k r') = map_sum id (map_option forgetResponse) (fst (getBinding env k r))"
  by (simp add: getBinding_restored assms map_of_reloaded find_reloaded split: option.split prod.split)

text \<open>C33. The handles of a tab survive a reload: when a put succeeds and every handle the tab then holds is
  complete (a form address, a draft id, a version, and a response id that is a non-blank text or
  absent), a registry made over the storage it has left answers every lookup as the one before the
  reload, version conflicts included, without the cached response.\<close>

theorem handles_survive_reload:
  assumes "registryRun env r" "resumeMetadata env = Some cfg"
    and "putBinding env key b r = (Inr (), r')" "allStorable (bindings r')"
  shows "fst (getBinding env k (emptyRegistry (tabStorage r'))) =
    map_sum id (map_option forgetResponse) (fst (getBinding env k r'))"
proof -
  obtain r1 where p: "restore env r = (Inr (), r1)"
      "persist env (r1\<lparr>bindings := assocSet (serializeKey key) (key, withResponseId b) (bindings r1)\<rparr>) = (Inr (), r')"
    and b: "bindings r' = assocSet (serializeKey key) (key, withResponseId b) (bindings r1)" "restored r'"
    by (rule putBinding_ok [OF assms(3)])
  have "keyedMap (bindings r1)" using restore_keyedMap [OF registryRun_keyedMap [OF assms(1)], of env] p(1) by simp
  then have ok: "mapOk (bindings r')" unfolding mapOk_def b(1) using assms(4) by (simp add: keyedMap_assocSet b(1))
  let ?new = "\<lparr>bindings = reloaded (bindings r'), restored = True, tabStorage = tabStorage r'\<rparr>"
  have "restore env (emptyRegistry (tabStorage r')) = (Inr (), ?new)"
    using restore_persisted [OF _ assms(2) p(2)] ok by (simp add: b)
  then have "fst (getBinding env k (emptyRegistry (tabStorage r'))) = fst (getBinding env k ?new)"
    by (simp add: getBinding_def afterRestore_def restore_def)
  also have "\<dots> = map_sum id (map_option forgetResponse) (fst (getBinding env k r'))"
    by (rule get_reloaded) (simp_all add: b)
  finally show ?thesis .
qed

lemma deleteBinding_clears:
  assumes "deleteBinding env key r = (Inr (), r')"
  shows "restored r' \<and> (\<forall>(s, k, b)\<in>set (bindings r'). \<not> sameScope env k key)"
proof (cases "restore env r")
  case (Pair res r1)
  show ?thesis
  proof (cases res)
    case (Inl e)
    then show ?thesis using assms Pair by (auto simp: deleteBinding_def split: option.splits sum.splits)
  next
    case (Inr u)
    then have "persist env (r1\<lparr>bindings := filter (\<lambda>(_, k, _). \<not> sameScope env k key) (bindings r1)\<rparr>) = (Inr (), r')"
      using assms Pair by (simp add: deleteBinding_def)
    then have "bindings r' = filter (\<lambda>(_, k, _). \<not> sameScope env k key) (bindings r1)" "restored r' = restored r1"
      using persist_ok by fastforce+
    moreover have "restored r1" using restore_done [of env r r1] Pair Inr by simp
    ultimately show ?thesis by auto
  qed
qed

text \<open>Clearing always succeeds in clearing: whatever the storage held, corrupted handles included, a
  delete that returns leaves no handle of the form, subject and party, of any version; the next
  lookup finds none and meets no version conflict.\<close>

theorem cleared_draft_is_gone:
  assumes "registryRun env r" "deleteBinding env key r = (Inr (), r')" "sameScope env k key"
  shows "fst (getBinding env k r') = Inr None"
proof -
  have r': "restored r'" "\<forall>(s, k, b)\<in>set (bindings r'). \<not> sameScope env k key"
    using deleteBinding_clears [OF assms(2)] by auto
  have ok: "keyedMap (bindings r')" using registryRun_keyedMap [OF run_delete [OF assms(1), of key]] assms(2) by simp
  have scope: "\<not> sameScope env k' k" if "(s, k', b) \<in> set (bindings r')" for s k' b
    using r'(2) that assms(3) by (auto simp: sameScope_def)
  have "find (\<lambda>(_, k', _). sameScope env k' k \<and> dkFormVersion k' \<noteq> dkFormVersion k) (bindings r') = None"
    using scope by (auto simp: find_None_iff)
  moreover have "map_of (bindings r') (serializeKey k) = None"
  proof (rule ccontr)
    assume "map_of (bindings r') (serializeKey k) \<noteq> None"
    then obtain k' b where e: "(serializeKey k, k', b) \<in> set (bindings r')" by (auto dest: map_of_SomeD)
    then have "k' = k" using ok by (auto simp: keyedMap_def)
    with e scope show False by (auto simp: sameScope_def)
  qed
  ultimately show ?thesis by (simp add: getBinding_restored r'(1))
qed

text \<open>A save answered without a version leaves a handle that no later registry accepts.\<close>

lemma restoreEntries_fst: "fst (restoreEntries env es m) = (if list_all (handleOk env) es then Inr () else Inl HandleMismatch)"
  by (induction env es m rule: restoreEntries.induct) simp_all

lemma jsonOf_unversioned:
  assumes "bDraftVersion b = Undefined" "jsonOf (handleOf env (k, b)) = Some v"
  shows "\<not> handleOk env v"
  using assms by (auto simp: handleOf_def handleOk_def Let_def propOf_def isVersion_def split: option.splits if_splits)

text \<open>C35. One unversioned answer locks the tab out of all its drafts: a put whose binding has no version
  (which the type of the server's answer allows) succeeds, but after a reload every lookup fails.\<close>

theorem unversioned_handle_locks_out:
  assumes "resumeMetadata env = Some cfg" "bDraftVersion b = Undefined" "putBinding env key b r = (Inr (), r')"
  shows "fst (getBinding env k (emptyRegistry (tabStorage r'))) = Inl HandleMismatch"
proof -
  obtain r1 where p: "persist env (r1\<lparr>bindings := assocSet (serializeKey key) (key, withResponseId b) (bindings r1)\<rparr>) = (Inr (), r')"
    by (rule putBinding_ok [OF assms(3)])
  let ?m = "assocSet (serializeKey key) (key, withResponseId b) (bindings r1)"
  let ?handles = "map (\<lambda>(_, e). handleOf env e) ?m"
  have mem: "(serializeKey key, key, withResponseId b) \<in> set ?m"
    by (metis map_of_assocSet fun_upd_same map_of_SomeD)
  then have "?m \<noteq> []" by (cases ?m) auto
  then obtain s where w: "metaWrite cfg s ''draft-handles'' (Arr ?handles) = Inr (tabStorage r')"
    using p by (auto simp: persist_def assms(1) split: sum.splits)
  let ?json = "map (\<lambda>x. case jsonOf x of None \<Rightarrow> Null | Some y \<Rightarrow> y) ?handles"
  have read: "metaRead cfg (tabStorage r') ''draft-handles'' = Inr (Arr ?json)"
    by (rule tabStore.read_written [OF w]) simp
  obtain v where v: "jsonOf (handleOf env (key, withResponseId b)) = Some v" by (auto simp: handleOf_def)
  then have "v \<in> set ?json" using mem by (force simp: image_iff)
  moreover have "\<not> handleOk env v"
    using jsonOf_unversioned [OF _ v] assms(2) by (simp add: withResponseId_def)
  ultimately have "\<not> list_all (handleOk env) ?json" unfolding list_all_iff by blast
  then have "fst (restoreEntries env ?json []) = Inl HandleMismatch" by (simp only: restoreEntries_fst if_False)
  then show ?thesis
    by (auto simp: getBinding_def afterRestore_def restore_def emptyRegistry_def assms(1) read split: prod.splits sum.splits simp del: map_map)
qed


section \<open>A tab with one draft\<close>

definition sampleTab :: registry_env where
  "sampleTab = \<lparr>resumeMetadata = Some \<lparr>mdNamespace = ''drafts'', mdContext = ''c'', mdFits = (\<lambda>_ _ _. True)\<rparr>,
     formIdResolver = (\<lambda>u _. u)\<rparr>"

definition sampleKey :: draft_key where
  "sampleKey = \<lparr>dkFormUrl = ''form'', dkFormVersion = Some ''1'', dkSubjectRef = Some ''anon:a'', dkPartyRef = None\<rparr>"

definition sampleBinding :: binding where
  "sampleBinding = \<lparr>bDraftId = Str ''d'', bDraftVersion = jsInt 1, bResponse = Obj [(''id'', Str ''r'')], bResponseId = Undefined\<rparr>"

definition sampleRegistry :: registry where
  "sampleRegistry = snd (putBinding sampleTab sampleKey sampleBinding (emptyRegistry (\<lambda>_. None)))"

lemma sample_put: "putBinding sampleTab sampleKey sampleBinding (emptyRegistry (\<lambda>_. None)) = (Inr (), sampleRegistry)"
  unfolding sampleRegistry_def prod_eq_iff by (simp, code_simp)

lemma sample_storable: "allStorable (bindings sampleRegistry)"
  by code_simp

theorem handles_survive_reload_witness:
  "fst (getBinding sampleTab sampleKey (emptyRegistry (tabStorage sampleRegistry))) =
    Inr (Some \<lparr>bDraftId = Str ''d'', bDraftVersion = jsInt 1, bResponse = Undefined, bResponseId = Str ''r''\<rparr>)"
proof -
  have "resumeMetadata sampleTab = Some \<lparr>mdNamespace = ''drafts'', mdContext = ''c'', mdFits = (\<lambda>_ _ _. True)\<rparr>"
    by (simp add: sampleTab_def)
  note * = handles_survive_reload [OF run_new this sample_put sample_storable, of sampleKey]
  have "fst (getBinding sampleTab sampleKey sampleRegistry) =
      Inr (Some \<lparr>bDraftId = Str ''d'', bDraftVersion = jsInt 1, bResponse = Obj [(''id'', Str ''r'')], bResponseId = Str ''r''\<rparr>)"
    by code_simp
  then show ?thesis unfolding * by (simp add: forgetResponse_def)
qed

theorem cleared_draft_is_gone_witness:
  "fst (getBinding sampleTab sampleKey (snd (deleteBinding sampleTab sampleKey sampleRegistry))) = Inr None"
proof -
  have run: "registryRun sampleTab sampleRegistry"
    using run_put [OF run_new] unfolding sampleRegistry_def .
  have "fst (deleteBinding sampleTab sampleKey sampleRegistry) = Inr ()" by code_simp
  then have "deleteBinding sampleTab sampleKey sampleRegistry = (Inr (), snd (deleteBinding sampleTab sampleKey sampleRegistry))"
    by (simp add: prod_eq_iff)
  from cleared_draft_is_gone [OF run this, of sampleKey] show ?thesis by (simp add: sameScope_def)
qed

definition unversionedBinding :: binding where
  "unversionedBinding = sampleBinding\<lparr>bDraftVersion := Undefined\<rparr>"

theorem unversioned_handle_locks_out_witness:
  "fst (getBinding sampleTab sampleKey (emptyRegistry (tabStorage
     (snd (putBinding sampleTab sampleKey unversionedBinding sampleRegistry))))) = Inl HandleMismatch"
proof -
  have "fst (putBinding sampleTab sampleKey unversionedBinding sampleRegistry) = Inr ()" by code_simp
  then have "putBinding sampleTab sampleKey unversionedBinding sampleRegistry =
      (Inr (), snd (putBinding sampleTab sampleKey unversionedBinding sampleRegistry))"
    by (simp add: prod_eq_iff)
  from unversioned_handle_locks_out [OF _ _ this] show ?thesis by (simp add: sampleTab_def unversionedBinding_def)
qed

end
