(* ===== verification/Http_Draft_Store.thy ===== *)
theory Http_Draft_Store
  imports Draft_Bindings Response_Evidence
begin

text \<open>
  The draft store against the server, \<open>HttpDraftStore\<close> of \<open>src/adapters/http/draft-store.ts\<close>, as an
  interleaving of its calls.

  A call is the await it is suspended at, with the locals the rest of it reads; \<open>resumeDraft\<close> runs it
  to its next await, given what the awaited promise answers. The client checks the guards of a
  request again once its headers are ready, so a request has two awaits: before its dispatch
  (\<open>...Headers\<close>) and for its answer (\<open>...Reply\<close>). The set of pending saves is the set of the save
  calls that have not returned. Schema validation, the canonical encoding and the qualification of
  a read state are answers of the environment; so is the token of the anonymous session. A version
  that is no integer precedes nothing.
\<close>


section \<open>State and calls\<close>

datatype store_error =
    ClearedWhileLoading | BeingCleared | RetiredWhileSaving | CallerObsolete | DispatchRefused
  | TaskBindingUnavailable | OwnerRequired | ResumeConflict | TaskOwned | BadTaskDraft task_draft_error | NoSnapshot
  | ResponseDiffers | StateRegressed | BindingChanged
  | RegistryFailed draft_error | HttpStatus nat | StoreFailure

record store_config =
  registryEnv :: registry_env
  requireExistingBinding :: bool
  canonicalJson :: "jsval \<Rightarrow> string option"

datatype draft_request =
    GetDraft string
  | PatchDraft string jsval jsval
  | CreateDraft string jsval

record draft_store =
  dsRegistry :: registry
  clearing :: nat
  dsGeneration :: nat
  retirementGeneration :: nat
  requests :: "draft_request list"

record read_call =
  rKey :: draft_key
  rGeneration :: nat
  rPrevious :: "binding option"
  rBinding :: binding
  rSelection :: "(string \<times> string) option"
  rLoads :: bool
  rMissingIsAbsent :: bool

record save_call =
  sKey :: draft_key
  sResponse :: jsval
  sGeneration :: nat
  sExisting :: "binding option"

record init_call =
  iKey :: draft_key
  iFormVersionId :: "string option"

datatype draft_outcome =
    DraftThrew store_error
  | DraftRead "jsval option"
  | DraftSaved
  | DraftInitialized jsval jsval
  | DraftCleared
  | DraftRetired

datatype draft_call =
    ReadToken read_call | ReadHeaders read_call | ReadReply read_call
  | ReadValidate read_call jsval | ReadQualify read_call jsval
  | SaveToken save_call | SaveHeaders save_call | SaveReply save_call
  | InitToken init_call | InitHeaders init_call | InitReply init_call
  | DrainDelete draft_key "draft_key list" "nat list"
  | DrainSession draft_key "draft_key list"
  | DrainRetire string "nat list"
  | DraftReturned draft_outcome

record draft_world =
  callerCurrent :: bool
  dispatchAdmitted :: bool
  freshUuid :: string

datatype draft_answer =
    Token "store_error + string option"
  | HeadersReady "store_error + unit"
  | Reply "store_error + jsval"
  | SchemaValid bool
  | Qualified "store_error + jsval"
  | Settled "store_error + unit"

record draft_system =
  dstore :: draft_store
  dcalls :: "draft_call list"

definition threwDraft :: "store_error \<Rightarrow> draft_call" where
  "threwDraft e = DraftReturned (DraftThrew e)"

text \<open>A registry operation inside a call: its failure is the failure of the call.\<close>

definition onRegistry ::
  "((draft_error + 'a) \<times> registry) \<Rightarrow> draft_store \<Rightarrow> (store_error \<Rightarrow> draft_store \<Rightarrow> draft_store \<times> draft_call)
    \<Rightarrow> ('a \<Rightarrow> draft_store \<Rightarrow> draft_store \<times> draft_call) \<Rightarrow> draft_store \<times> draft_call" where
  "onRegistry r st failed k = (case r of
      (Inl e, reg) \<Rightarrow> failed (RegistryFailed e) (st\<lparr>dsRegistry := reg\<rparr>)
    | (Inr x, reg) \<Rightarrow> k x (st\<lparr>dsRegistry := reg\<rparr>))"

definition throwing :: "store_error \<Rightarrow> draft_store \<Rightarrow> draft_store \<times> draft_call" where
  "throwing e st = (st, threwDraft e)"

definition requesting :: "draft_request \<Rightarrow> draft_store \<Rightarrow> draft_store" where
  "requesting q st = st\<lparr>requests := requests st @ [q]\<rparr>"


section \<open>Reading\<close>

definition readCurrent :: "draft_world \<Rightarrow> read_call \<Rightarrow> draft_store \<Rightarrow> store_error + unit" where
  "readCurrent w rd st = checks
    [throwIf (\<not> callerCurrent w) CallerObsolete, throwIf (rGeneration rd \<noteq> dsGeneration st) ClearedWhileLoading]"

text \<open>The catch clause: the guard first, then an absent draft forgets its binding.\<close>

definition readFailed :: "store_config \<Rightarrow> draft_world \<Rightarrow> read_call \<Rightarrow> store_error \<Rightarrow> draft_store \<Rightarrow> draft_store \<times> draft_call" where
  "readFailed cfg w rd e st =
    (case readCurrent w rd st of Inl e' \<Rightarrow> throwing e' st
     | Inr _ \<Rightarrow> if e = HttpStatus 404 \<and> rMissingIsAbsent rd
         then onRegistry (deleteBinding (registryEnv cfg) (rKey rd) (dsRegistry st)) st throwing
           (\<lambda>_ st. (st, DraftReturned (DraftRead None)))
         else throwing e st)"

definition readOn ::
  "store_config \<Rightarrow> draft_world \<Rightarrow> read_call \<Rightarrow> draft_store \<Rightarrow> store_error + 'a \<Rightarrow> ('a \<Rightarrow> draft_store \<times> draft_call) \<Rightarrow> draft_store \<times> draft_call" where
  "readOn cfg w rd st r k = (case r of Inl e \<Rightarrow> readFailed cfg w rd e st | Inr x \<Rightarrow> k x)"

definition selectionConflict :: "binding option \<Rightarrow> (string \<times> string) option \<Rightarrow> bool" where
  "selectionConflict previous sel = (case (sel, previous) of
     (Some (d, r), Some b) \<Rightarrow> bDraftId b \<noteq> Str d \<or> bResponseId b \<noteq> Undefined \<and> bResponseId b \<noteq> Str r | _ \<Rightarrow> False)"

definition selectionBinding :: "string \<times> string \<Rightarrow> binding" where
  "selectionBinding sel = \<lparr>bDraftId = Str (fst sel), bDraftVersion = Undefined, bResponse = Undefined, bResponseId = Str (snd sel)\<rparr>"

definition beginRead ::
  "store_config \<Rightarrow> draft_world \<Rightarrow> draft_key \<Rightarrow> bool \<Rightarrow> (string \<times> string) option \<Rightarrow> draft_store \<Rightarrow> draft_store \<times> draft_call" where
  "beginRead cfg w key loads sel st =
    (if \<not> callerCurrent w then throwing CallerObsolete st
     else onRegistry (getBinding (registryEnv cfg) key (dsRegistry st)) st throwing (\<lambda>previous st.
       if selectionConflict previous sel then throwing ResumeConflict st
       else (case (case previous of Some b \<Rightarrow> Some b | None \<Rightarrow> map_option selectionBinding sel) of
           None \<Rightarrow> (st, DraftReturned (DraftRead None))
         | Some b \<Rightarrow> (st, ReadToken \<lparr>rKey = key, rGeneration = dsGeneration st, rPrevious = previous, rBinding = b,
             rSelection = sel, rLoads = loads, rMissingIsAbsent = loads\<rparr>))))"

text \<open>
  \<open>resumeState\<close> is for authenticated owners; its selection has passed its schema already.
\<close>

definition beginResume :: "store_config \<Rightarrow> draft_world \<Rightarrow> draft_key \<Rightarrow> string \<times> string \<Rightarrow> draft_store \<Rightarrow> draft_store \<times> draft_call" where
  "beginResume cfg w key sel st =
    (if (case dkSubjectRef key of None \<Rightarrow> True | Some s \<Rightarrow> s = [] \<or> startsWith ''anon:'' s) then throwing OwnerRequired st
     else beginRead cfg w key False (Some sel) st)"

definition versionBefore :: "jsval \<Rightarrow> jsval \<Rightarrow> bool" where
  "versionBefore a b = (case (integerOf a, integerOf b) of (Some i, Some j) \<Rightarrow> i < j | _ \<Rightarrow> False)"

text \<open>The snapshot of the server is the canonical response of the draft that was asked for.\<close>

definition snapshotMatches :: "store_config \<Rightarrow> read_call \<Rightarrow> bool \<Rightarrow> jsval \<Rightarrow> bool" where
  "snapshotMatches cfg rd valid view = (let response = getp view ''canonical_response'' in
     getp view ''draft_id'' = bDraftId (rBinding rd) \<and> truthy response \<and> valid \<and> isVersion (getp view ''draft_version'') \<and>
     getp response ''definitionUrl'' = Str (dkFormUrl (rKey rd)) \<and>
     (case dkFormVersion (rKey rd) of None \<Rightarrow> True | Some v \<Rightarrow> getp response ''definitionVersion'' = Str v) \<and>
     canonicalJson cfg (getp response ''data'') = canonicalJson cfg (getp view ''draft_state''))"

definition snapshotGuards :: "store_config \<Rightarrow> read_call \<Rightarrow> bool \<Rightarrow> jsval \<Rightarrow> store_error + unit" where
  "snapshotGuards cfg rd valid view = (let responseId = dot view [''canonical_response'', ''id'']; b = rBinding rd in checks
    [throwIf (\<not> snapshotMatches cfg rd valid view) NoSnapshot,
     throwIf (case rSelection rd of Some (d, r) \<Rightarrow> responseId \<noteq> Str r | None \<Rightarrow> False) ResponseDiffers,
     throwIf (\<not> rMissingIsAbsent rd \<and> (bDraftVersion b \<noteq> Undefined \<and> versionBefore (getp view ''draft_version'') (bDraftVersion b)
        \<or> bResponseId b \<noteq> Undefined \<and> responseId \<noteq> bResponseId b)) StateRegressed])"

definition readReplied :: "store_config \<Rightarrow> draft_world \<Rightarrow> read_call \<Rightarrow> store_error + jsval \<Rightarrow> draft_store \<Rightarrow> draft_store \<times> draft_call" where
  "readReplied cfg w rd r st = readOn cfg w rd st
     (bindR r (\<lambda>view. bindR (readCurrent w rd st) (\<lambda>_.
      bindR (throwIf (rSelection rd \<noteq> None \<and> getp view ''taskDraft'' \<noteq> Undefined) TaskOwned) (\<lambda>_.
      bindR (map_sum BadTaskDraft id (assertTaskDraftWire (getp view ''taskDraft''))) (\<lambda>_. Inr view)))))
     (\<lambda>view. (st, ReadValidate rd view))"

definition bindingValue :: "binding option \<Rightarrow> jsval" where
  "bindingValue b = (case b of None \<Rightarrow> Undefined | Some b \<Rightarrow> Obj (filter (\<lambda>p. snd p \<noteq> Undefined)
     [(''draftId'', bDraftId b), (''draftVersion'', bDraftVersion b), (''response'', bResponse b), (''responseId'', bResponseId b)]))"

definition readBinding :: "jsval \<Rightarrow> binding" where
  "readBinding view = \<lparr>bDraftId = getp view ''draft_id'', bDraftVersion = getp view ''draft_version'',
     bResponse = getp view ''canonical_response'', bResponseId = Undefined\<rparr>"

definition readQualified ::
  "store_config \<Rightarrow> draft_world \<Rightarrow> read_call \<Rightarrow> jsval \<Rightarrow> store_error + jsval \<Rightarrow> draft_store \<Rightarrow> draft_store \<times> draft_call" where
  "readQualified cfg w rd view r st =
    (let env = registryEnv cfg; failed = readFailed cfg w rd;
         result = (if rLoads rd then getp view ''canonical_response'' else case r of Inr v \<Rightarrow> v | Inl _ \<Rightarrow> Undefined);
         bind = (\<lambda>st. onRegistry (putBinding env (rKey rd) (readBinding view) (dsRegistry st)) st failed
           (\<lambda>_ st. (st, DraftReturned (DraftRead (Some result))))) in
     readOn cfg w rd st (bindR (if rLoads rd then Inr Undefined else r) (\<lambda>_. readCurrent w rd st)) (\<lambda>_.
       if rSelection rd = None then bind st
       else onRegistry (getBinding env (rKey rd) (dsRegistry st)) st failed (\<lambda>now st.
         if canonicalJson cfg (bindingValue now) \<noteq> canonicalJson cfg (bindingValue (rPrevious rd))
         then failed BindingChanged st else bind st)))"


section \<open>Saving and initialising\<close>

definition respondentSubjectRef :: "draft_key \<Rightarrow> string option" where
  "respondentSubjectRef key = (case dkSubjectRef key of Some s \<Rightarrow> if s = [] \<or> startsWith ''anon:'' s then None else Some s | None \<Rightarrow> None)"

definition saveCurrent :: "save_call \<Rightarrow> draft_store \<Rightarrow> store_error + unit" where
  "saveCurrent sv st = throwIf (sGeneration sv \<noteq> retirementGeneration st) RetiredWhileSaving"

definition saveOn :: "draft_store \<Rightarrow> store_error + 'a \<Rightarrow> ('a \<Rightarrow> draft_store \<times> draft_call) \<Rightarrow> draft_store \<times> draft_call" where
  "saveOn st r k = (case r of Inl e \<Rightarrow> throwing e st | Inr x \<Rightarrow> k x)"

definition saveAdmitted :: "store_config \<Rightarrow> save_call \<Rightarrow> draft_store \<Rightarrow> draft_store \<times> draft_call" where
  "saveAdmitted cfg sv st = saveOn st
     (bindR (saveCurrent sv st) (\<lambda>_. throwIf (sExisting sv = None \<and> requireExistingBinding cfg) TaskBindingUnavailable))
     (\<lambda>_. (st, SaveHeaders sv))"

definition beginSave :: "store_config \<Rightarrow> draft_key \<Rightarrow> jsval \<Rightarrow> draft_store \<Rightarrow> draft_store \<times> draft_call" where
  "beginSave cfg key response st =
    (if clearing st > 0 then throwing BeingCleared st
     else onRegistry (getBinding (registryEnv cfg) key (dsRegistry st)) st throwing (\<lambda>existing st.
       let sv = \<lparr>sKey = key, sResponse = response, sGeneration = retirementGeneration st, sExisting = existing\<rparr> in
       if respondentSubjectRef key = None then (st, SaveToken sv) else saveAdmitted cfg sv st))"

definition createDraft :: "store_config \<Rightarrow> draft_key \<Rightarrow> jsval \<Rightarrow> draft_request" where
  "createDraft cfg key response = CreateDraft (formIdResolver (registryEnv cfg) (dkFormUrl key) (dkFormVersion key)) response"

definition saveRequest :: "store_config \<Rightarrow> save_call \<Rightarrow> draft_request" where
  "saveRequest cfg sv = (case sExisting sv of
     Some b \<Rightarrow> PatchDraft (strOf (bDraftId b)) (bDraftVersion b) (sResponse sv)
   | None \<Rightarrow> createDraft cfg (sKey sv) (sResponse sv))"

definition saveDispatch :: "store_config \<Rightarrow> draft_world \<Rightarrow> save_call \<Rightarrow> store_error + unit \<Rightarrow> draft_store \<Rightarrow> draft_store \<times> draft_call" where
  "saveDispatch cfg w sv r st = saveOn st
     (bindR r (\<lambda>_. bindR (saveCurrent sv st) (\<lambda>_. throwIf (\<not> dispatchAdmitted w) DispatchRefused)))
     (\<lambda>_. (requesting (saveRequest cfg sv) st, SaveReply sv))"

definition savedBinding :: "save_call \<Rightarrow> jsval \<Rightarrow> binding" where
  "savedBinding sv view = \<lparr>bDraftId = (case sExisting sv of Some b \<Rightarrow> bDraftId b | None \<Rightarrow> getp view ''draft_id''),
     bDraftVersion = getp view ''draft_version'', bResponse = sResponse sv, bResponseId = Undefined\<rparr>"

definition saveReplied :: "store_config \<Rightarrow> save_call \<Rightarrow> store_error + jsval \<Rightarrow> draft_store \<Rightarrow> draft_store \<times> draft_call" where
  "saveReplied cfg sv r st = saveOn st (bindR r (\<lambda>view. bindR (saveCurrent sv st) (\<lambda>_. Inr view))) (\<lambda>view.
     onRegistry (putBinding (registryEnv cfg) (sKey sv) (savedBinding sv view) (dsRegistry st)) st throwing
       (\<lambda>_ st. (st, DraftReturned DraftSaved)))"

definition beginInit :: "store_config \<Rightarrow> draft_key \<Rightarrow> string option \<Rightarrow> draft_store \<Rightarrow> draft_store \<times> draft_call" where
  "beginInit cfg key formVersionId st =
     onRegistry (getBinding (registryEnv cfg) key (dsRegistry st)) st throwing (\<lambda>existing st.
       case existing of
         Some b \<Rightarrow> (st, DraftReturned (DraftInitialized (bDraftId b) (Bool False)))
       | None \<Rightarrow> (let it = \<lparr>iKey = key, iFormVersionId = formVersionId\<rparr> in
           (st, if respondentSubjectRef key = None then InitToken it else InitHeaders it)))"

definition initialResponse :: "init_call \<Rightarrow> string \<Rightarrow> jsval" where
  "initialResponse it uuid = Obj [(''id'', Str (''urn:uuid:'' @ uuid)), (''definitionUrl'', Str (dkFormUrl (iKey it))),
     (''definitionVersion'', Str (case dkFormVersion (iKey it) of Some v \<Rightarrow> v | None \<Rightarrow>
        (case iFormVersionId it of Some v \<Rightarrow> v | None \<Rightarrow> ''1.0.0''))), (''data'', Obj [])]"

definition initDispatch :: "store_config \<Rightarrow> draft_world \<Rightarrow> init_call \<Rightarrow> store_error + unit \<Rightarrow> draft_store \<Rightarrow> draft_store \<times> draft_call" where
  "initDispatch cfg w it r st = saveOn st r (\<lambda>_. (requesting (createDraft cfg (iKey it) (initialResponse it (freshUuid w))) st, InitReply it))"

definition initBinding :: "jsval \<Rightarrow> binding" where
  "initBinding view = \<lparr>bDraftId = getp view ''draft_id'', bDraftVersion = coalesce (getp view ''draft_version'') (jsInt 1),
     bResponse = getp view ''canonical_response'', bResponseId = Undefined\<rparr>"

definition initReplied :: "store_config \<Rightarrow> init_call \<Rightarrow> store_error + jsval \<Rightarrow> draft_store \<Rightarrow> draft_store \<times> draft_call" where
  "initReplied cfg it r st = saveOn st r (\<lambda>view.
     onRegistry (putBinding (registryEnv cfg) (iKey it) (initBinding view) (dsRegistry st)) st throwing
       (\<lambda>_ st. (st, DraftReturned (DraftInitialized (getp view ''draft_id'')
         (coalesce (getp view ''is_initialization_only'') (coalesce (getp view ''isInitializationOnly'') (Bool True)))))))"


section \<open>Clearing and retiring\<close>

definition isSaving :: "draft_call \<Rightarrow> bool" where
  "isSaving c = (case c of SaveToken _ \<Rightarrow> True | SaveHeaders _ \<Rightarrow> True | SaveReply _ \<Rightarrow> True | _ \<Rightarrow> False)"

definition pendingSaves :: "draft_call list \<Rightarrow> nat list" where
  "pendingSaves cs = filter (\<lambda>i. isSaving (cs ! i)) [0..<length cs]"

definition drained :: "nat list \<Rightarrow> draft_call list \<Rightarrow> bool" where
  "drained ids cs = list_all (\<lambda>i. \<not> isSaving (cs ! i)) ids"

definition released :: "draft_store \<Rightarrow> draft_store" where
  "released st = st\<lparr>clearing := clearing st - 1\<rparr>"

definition beginDelete :: "draft_key \<Rightarrow> draft_key list \<Rightarrow> draft_call list \<Rightarrow> draft_store \<Rightarrow> draft_store \<times> draft_call" where
  "beginDelete key rest cs st =
    (st\<lparr>clearing := clearing st + 1, dsGeneration := dsGeneration st + 1\<rparr>, DrainDelete key rest (pendingSaves cs))"

definition deleteDrained :: "store_config \<Rightarrow> draft_key \<Rightarrow> draft_key list \<Rightarrow> draft_store \<Rightarrow> draft_store \<times> draft_call" where
  "deleteDrained cfg key rest st = onRegistry (deleteBinding (registryEnv cfg) key (dsRegistry st)) st
     (\<lambda>e st. throwing e (released st)) (\<lambda>_ st. (st, DrainSession key rest))"

text \<open>\<open>invalidateSubject\<close> deletes one key after another; \<open>rest\<close> are those still to come.\<close>

definition sessionCleared :: "draft_key list \<Rightarrow> draft_call list \<Rightarrow> store_error + unit \<Rightarrow> draft_store \<Rightarrow> draft_store \<times> draft_call" where
  "sessionCleared rest cs r st =
    (case r of Inl e \<Rightarrow> throwing e (released st)
     | Inr _ \<Rightarrow> (case rest of [] \<Rightarrow> (released st, DraftReturned DraftCleared) | k # ks \<Rightarrow> beginDelete k ks cs (released st)))"

definition beginInvalidate :: "store_config \<Rightarrow> string \<Rightarrow> draft_call list \<Rightarrow> draft_store \<Rightarrow> draft_store \<times> draft_call" where
  "beginInvalidate cfg subject cs st =
     onRegistry (bindingEntries (registryEnv cfg) (dsRegistry st)) st throwing (\<lambda>es st.
       case filter (\<lambda>k. dkSubjectRef k = Some subject) (map fst es) of
         [] \<Rightarrow> (st, DraftReturned DraftCleared)
       | k # ks \<Rightarrow> beginDelete k ks cs st)"

definition beginRetire :: "string \<Rightarrow> draft_call list \<Rightarrow> draft_store \<Rightarrow> draft_store \<times> draft_call" where
  "beginRetire subject cs st = (st\<lparr>dsGeneration := dsGeneration st + 1, retirementGeneration := retirementGeneration st + 1,
     clearing := clearing st + 1\<rparr>, DrainRetire subject (pendingSaves cs))"

fun retireEntries :: "registry_env \<Rightarrow> (draft_key \<times> binding) list \<Rightarrow> registry \<Rightarrow> (draft_error + unit) \<times> registry" where
  "retireEntries env [] r = (Inr (), r)"
| "retireEntries env ((k, b) # es) r = (case putBinding env k (forgetResponse b) r of
     (Inl e, r) \<Rightarrow> (Inl e, r) | (Inr _, r) \<Rightarrow> retireEntries env es r)"

definition retireDrained :: "store_config \<Rightarrow> string \<Rightarrow> draft_store \<Rightarrow> draft_store \<times> draft_call" where
  "retireDrained cfg subject st =
    (let env = registryEnv cfg; failed = (\<lambda>e st. throwing e (released st)) in
     onRegistry (bindingEntries env (dsRegistry st)) st failed (\<lambda>es st.
       onRegistry (retireEntries env (filter (\<lambda>e. dkSubjectRef (fst e) = Some subject) es) (dsRegistry st)) st failed
         (\<lambda>_ st. (released st, DraftReturned DraftRetired))))"

definition listDrafts :: "store_config \<Rightarrow> string \<Rightarrow> draft_store \<Rightarrow> (draft_error + draft_key list) \<times> registry" where
  "listDrafts cfg subject st = (case bindingEntries (registryEnv cfg) (dsRegistry st) of
     (r, reg) \<Rightarrow> (map_sum id (\<lambda>es. filter (\<lambda>k. dkSubjectRef k = Some subject) (map fst es)) r, reg))"


section \<open>The calls in flight\<close>

definition resumeDraft ::
  "store_config \<Rightarrow> draft_world \<Rightarrow> draft_answer \<Rightarrow> draft_call list \<Rightarrow> draft_store \<Rightarrow> draft_call \<Rightarrow> draft_store \<times> draft_call" where
  "resumeDraft cfg w a cs st c =
    (case (c, a) of
       (ReadToken rd, Token r) \<Rightarrow> readOn cfg w rd st (bindR r (\<lambda>_. readCurrent w rd st)) (\<lambda>_. (st, ReadHeaders rd))
     | (ReadHeaders rd, HeadersReady r) \<Rightarrow> readOn cfg w rd st (bindR r (\<lambda>_. readCurrent w rd st))
         (\<lambda>_. (requesting (GetDraft (strOf (bDraftId (rBinding rd)))) st, ReadReply rd))
     | (ReadReply rd, Reply r) \<Rightarrow> readReplied cfg w rd r st
     | (ReadValidate rd view, SchemaValid valid) \<Rightarrow> readOn cfg w rd st
         (bindR (snapshotGuards cfg rd valid view) (\<lambda>_. readCurrent w rd st)) (\<lambda>_. (st, ReadQualify rd view))
     | (ReadQualify rd view, Qualified r) \<Rightarrow> readQualified cfg w rd view r st
     | (SaveToken sv, Token r) \<Rightarrow> saveOn st r (\<lambda>_. saveAdmitted cfg sv st)
     | (SaveHeaders sv, HeadersReady r) \<Rightarrow> saveDispatch cfg w sv r st
     | (SaveReply sv, Reply r) \<Rightarrow> saveReplied cfg sv r st
     | (InitToken it, Token r) \<Rightarrow> saveOn st r (\<lambda>_. (st, InitHeaders it))
     | (InitHeaders it, HeadersReady r) \<Rightarrow> initDispatch cfg w it r st
     | (InitReply it, Reply r) \<Rightarrow> initReplied cfg it r st
     | (DrainDelete key rest ids, Settled _) \<Rightarrow> if drained ids cs then deleteDrained cfg key rest st else (st, c)
     | (DrainSession key rest, Settled r) \<Rightarrow> sessionCleared rest cs r st
     | (DrainRetire subject ids, Settled _) \<Rightarrow> if drained ids cs then retireDrained cfg subject st else (st, c)
     | _ \<Rightarrow> (st, c))"

datatype draft_action =
    Load draft_key | ReadState draft_key | ResumeState draft_key "string \<times> string"
  | Save draft_key jsval | Initialize draft_key "string option"
  | Delete draft_key | InvalidateSubject string | RetireSubject string
  | ResumeDraft nat draft_answer

definition beginDraft :: "store_config \<Rightarrow> draft_world \<Rightarrow> draft_action \<Rightarrow> draft_system \<Rightarrow> draft_store \<times> draft_call" where
  "beginDraft cfg w act s =
    (case act of
       Load key \<Rightarrow> beginRead cfg w key True None (dstore s)
     | ReadState key \<Rightarrow> beginRead cfg w key False None (dstore s)
     | ResumeState key sel \<Rightarrow> beginResume cfg w key sel (dstore s)
     | Save key response \<Rightarrow> beginSave cfg key response (dstore s)
     | Initialize key v \<Rightarrow> beginInit cfg key v (dstore s)
     | Delete key \<Rightarrow> beginDelete key [] (dcalls s) (dstore s)
     | InvalidateSubject subject \<Rightarrow> beginInvalidate cfg subject (dcalls s) (dstore s)
     | RetireSubject subject \<Rightarrow> beginRetire subject (dcalls s) (dstore s)
     | ResumeDraft i a \<Rightarrow> (dstore s, threwDraft StoreFailure))"

definition draftStep :: "store_config \<Rightarrow> draft_world \<Rightarrow> draft_action \<Rightarrow> draft_system \<Rightarrow> draft_system" where
  "draftStep cfg w act s =
    (case act of
       ResumeDraft i a \<Rightarrow>
         if i < length (dcalls s)
         then (let (st, c) = resumeDraft cfg w a (dcalls s) (dstore s) (dcalls s ! i) in \<lparr>dstore = st, dcalls = (dcalls s)[i := c]\<rparr>)
         else s
     | _ \<Rightarrow> (let (st, c) = beginDraft cfg w act s in \<lparr>dstore = st, dcalls = dcalls s @ [c]\<rparr>))"

definition initialDrafts :: "storage \<Rightarrow> draft_system" where
  "initialDrafts s = \<lparr>dstore = \<lparr>dsRegistry = emptyRegistry s, clearing = 0, dsGeneration = 0, retirementGeneration = 0,
     requests = []\<rparr>, dcalls = []\<rparr>"

end
