(* ===== verification/Draft_Store_Safety.thy ===== *)
theory Draft_Store_Safety
  imports Http_Draft_Store
begin

text \<open>
  What the draft store guarantees however its calls interleave: a clear waits for every save in
  flight and is final for the calls in flight, a load returns the draft it asked for, a task-owned
  store creates no draft with answers. Two kinds of call outlive a clear: an
  initialisation in flight, and (by a run) a load begun while the clear waits.
\<close>


section \<open>What a clear leaves behind\<close>

inductive draftReach :: "store_config \<Rightarrow> draft_system \<Rightarrow> bool" for cfg where
  draft_init: "draftReach cfg (initialDrafts s)"
| draft_step: "draftReach cfg s \<Longrightarrow> draftReach cfg (draftStep cfg w act s)"

definition isDrain :: "draft_call \<Rightarrow> bool" where
  "isDrain c = (case c of DrainDelete _ _ _ \<Rightarrow> True | DrainSession _ _ \<Rightarrow> True | DrainRetire _ _ \<Rightarrow> True | _ \<Rightarrow> False)"

definition awaited :: "draft_call \<Rightarrow> nat list option" where
  "awaited c = (case c of DrainDelete _ _ ids \<Rightarrow> Some ids | DrainRetire _ ids \<Rightarrow> Some ids | _ \<Rightarrow> None)"

text \<open>The counter counts the clears in flight, and each of them waits for every save in flight.\<close>

definition clearInv :: "draft_system \<Rightarrow> bool" where
  "clearInv s = (clearing (dstore s) = length (filter isDrain (dcalls s)) \<and>
     (\<forall>c\<in>set (dcalls s). \<forall>ids. awaited c = Some ids \<longrightarrow>
        (\<forall>j<length (dcalls s). isSaving (dcalls s ! j) \<longrightarrow> j \<in> set ids)))"

lemma onRegistry_cases:
  assumes "\<And>e reg. P (failed (RegistryFailed e) (st\<lparr>dsRegistry := reg\<rparr>))" "\<And>x reg. P (k x (st\<lparr>dsRegistry := reg\<rparr>))"
  shows "P (onRegistry r st failed k)"
  using assms by (simp add: onRegistry_def split: prod.split sum.split)

text \<open>What a step does to the clears: nothing, or it opens or closes one.\<close>

definition clearKind :: "draft_call list \<Rightarrow> draft_store \<Rightarrow> draft_call \<Rightarrow> draft_store \<times> draft_call \<Rightarrow> bool" where
  "clearKind cs st c r = (case r of (st', c') \<Rightarrow>
     int (clearing st') - int (clearing st) = of_bool (isDrain c') - of_bool (isDrain c) \<and>
     (isSaving c' \<longrightarrow> isSaving c) \<and> (awaited c' = None \<or> awaited c' = awaited c \<or> awaited c' = Some (pendingSaves cs)))"

lemmas call_simps = isDrain_def awaited_def isSaving_def threwDraft_def

lemma readFailed_kind: "isDrain c = False \<Longrightarrow> clearKind cs st c (readFailed cfg w rd e (st\<lparr>dsRegistry := reg\<rparr>))"
  "isDrain c = False \<Longrightarrow> clearKind cs st c (readFailed cfg w rd e st)"
  by (auto simp: readFailed_def throwing_def onRegistry_def clearKind_def call_simps split: sum.split prod.split)

lemma resume_kind:
  assumes "isDrain c \<longrightarrow> clearing st > 0"
  shows "clearKind cs st c (resumeDraft cfg w a cs st c)"
  using assms
  apply (cases c; cases a)
  apply (simp_all add: resumeDraft_def)
  apply (auto simp: readOn_def readReplied_def readQualified_def saveOn_def saveAdmitted_def saveDispatch_def saveReplied_def
      initDispatch_def initReplied_def deleteDrained_def sessionCleared_def retireDrained_def beginDelete_def released_def requesting_def
      throwing_def Let_def onRegistry_def call_simps readFailed_kind split: sum.split prod.split list.split)
  apply (auto simp: clearKind_def call_simps)
  done

definition opensKind :: "draft_call list \<Rightarrow> draft_store \<Rightarrow> draft_store \<times> draft_call \<Rightarrow> bool" where
  "opensKind cs st r = (case r of (st', c) \<Rightarrow> clearing st' = clearing st + of_bool (isDrain c) \<and>
     (isSaving c \<longrightarrow> clearing st = 0) \<and> (awaited c = None \<or> awaited c = Some (pendingSaves cs)))"

lemma begin_kind: "(\<And>i a. act \<noteq> ResumeDraft i a) \<Longrightarrow> opensKind (dcalls s) (dstore s) (beginDraft cfg w act s)"
  by (cases act) (auto simp: beginDraft_def beginRead_def beginResume_def beginSave_def saveAdmitted_def saveOn_def beginInit_def
    beginDelete_def beginInvalidate_def beginRetire_def throwing_def Let_def onRegistry_def opensKind_def call_simps
    split: sum.split prod.split option.split list.split)

lemma count_update:
  "i < length xs \<Longrightarrow> int (length (filter P (xs[i := y]))) = int (length (filter P xs)) + of_bool (P y) - of_bool (P (xs ! i))"
proof (induction xs arbitrary: i)
  case (Cons x xs)
  then show ?case by (cases i) auto
qed simp

lemma awaited_drain: "awaited c = Some ids \<Longrightarrow> isDrain c \<and> \<not> isSaving c"
  by (cases c) (simp_all add: call_simps)

lemma pendingSaves_iff: "j \<in> set (pendingSaves cs) \<longleftrightarrow> j < length cs \<and> isSaving (cs ! j)"
  by (auto simp: pendingSaves_def)

lemma clearInv_resume:
  assumes "clearInv s" "i < length (dcalls s)"
  shows "clearInv (draftStep cfg w (ResumeDraft i a) s)"
proof -
  let ?c = "dcalls s ! i" and ?xs = "dcalls s"
  obtain st c' where r: "resumeDraft cfg w a ?xs (dstore s) ?c = (st, c')" by fastforce
  have "isDrain ?c \<longrightarrow> clearing (dstore s) > 0"
    using assms by (auto simp: clearInv_def length_greater_0_conv filter_empty_conv intro: nth_mem)
  from resume_kind [OF this, of ?xs cfg w a]
  have k: "int (clearing st) - int (clearing (dstore s)) = of_bool (isDrain c') - of_bool (isDrain ?c)"
      "isSaving c' \<longrightarrow> isSaving ?c" "awaited c' = None \<or> awaited c' = awaited ?c \<or> awaited c' = Some (pendingSaves ?xs)"
    by (simp_all add: r clearKind_def)
  have saving: "isSaving (?xs[i := c'] ! j) \<Longrightarrow> j < length ?xs \<Longrightarrow> isSaving (?xs ! j)" for j
    using k(2) by (cases "j = i") simp_all
  have "clearing st = length (filter isDrain (?xs[i := c']))"
    using k(1) count_update [OF assms(2), of isDrain c'] assms(1) by (simp add: clearInv_def)
  moreover have "j \<in> set ids" if "c \<in> set (?xs[i := c'])" "awaited c = Some ids" "j < length ?xs" "isSaving (?xs[i := c'] ! j)" for c ids j
  proof -
    have j: "isSaving (?xs ! j)" using saving that by blast
    have "c \<in> set ?xs \<or> c = c'" using set_update_subset_insert [of ?xs i c'] that(1) by blast
    then consider "c \<in> set ?xs" | "c = c'" by blast
    then show ?thesis
    proof cases
      case 1
      then show ?thesis using assms(1) that(2,3) j by (auto simp: clearInv_def)
    next
      case 2
      have "?c \<in> set ?xs" using assms(2) by simp
      then show ?thesis using 2 k(3) assms(1) that(2,3) j by (auto simp: clearInv_def pendingSaves_iff)
    qed
  qed
  ultimately show ?thesis using assms(2) by (simp add: draftStep_def r clearInv_def)
qed

lemma clearInv_begin:
  assumes "clearInv s" "\<And>i a. act \<noteq> ResumeDraft i a"
  shows "clearInv (draftStep cfg w act s)"
proof -
  obtain st c where r: "beginDraft cfg w act s = (st, c)" by fastforce
  have k: "clearing st = clearing (dstore s) + of_bool (isDrain c)" "isSaving c \<longrightarrow> clearing (dstore s) = 0"
      "awaited c = None \<or> awaited c = Some (pendingSaves (dcalls s))"
    using begin_kind [OF assms(2), of s cfg w] by (simp_all add: r opensKind_def)
  have step: "draftStep cfg w act s = \<lparr>dstore = st, dcalls = dcalls s @ [c]\<rparr>"
    using assms(2) r by (cases act) (auto simp: draftStep_def)
  have "j \<in> set ids" if c': "c' \<in> set (dcalls s @ [c])" "awaited c' = Some ids"
      and j: "j < length (dcalls s @ [c])" "isSaving ((dcalls s @ [c]) ! j)" for c' ids j
  proof (cases "c' \<in> set (dcalls s)")
    case True
    then have "clearing (dstore s) > 0"
      using assms(1) awaited_drain [OF c'(2)] by (auto simp: clearInv_def length_greater_0_conv filter_empty_conv)
    then have "j < length (dcalls s)" using j k(2) by (auto simp: nth_append less_Suc_eq split: if_splits)
    then show ?thesis using True assms(1) c'(2) j by (auto simp: clearInv_def nth_append)
  next
    case False
    then have "c' = c" using c'(1) by simp
    then show ?thesis using k(3) c'(2) j awaited_drain [OF c'(2)] by (auto simp: nth_append pendingSaves_iff less_Suc_eq split: if_splits)
  qed
  moreover have "clearing st = length (filter isDrain (dcalls s @ [c]))" using assms(1) k(1) by (simp add: clearInv_def)
  ultimately show ?thesis unfolding step clearInv_def by simp
qed

lemma draftReach_clearInv: "draftReach cfg s \<Longrightarrow> clearInv s"
proof (induction rule: draftReach.induct)
  case (draft_init s)
  then show ?case by (simp add: clearInv_def initialDrafts_def)
next
  case (draft_step s w act)
  then show ?case
  proof (cases "\<exists>i a. act = ResumeDraft i a")
    case True
    then show ?thesis using draft_step clearInv_resume by (fastforce simp: draftStep_def)
  next
    case False
    then show ?thesis using draft_step clearInv_begin by blast
  qed
qed

text \<open>Registry operations away from a scope leave it empty.\<close>

lemma getBinding_registry: "restored r \<Longrightarrow> snd (getBinding env k r) = r"
  by (simp add: getBinding_restored split: option.split)

lemma bindingEntries_registry: "restored r \<Longrightarrow> snd (bindingEntries env r) = r"
  by (simp add: bindingEntries_def afterRestore_def restore_def)

definition emptyIn :: "registry_env \<Rightarrow> draft_key \<Rightarrow> registry \<Rightarrow> bool" where
  "emptyIn env key r = (restored r \<and> (\<forall>(s, k, b)\<in>set (bindings r). \<not> sameScope env k key))"

lemma emptyIn_put:
  assumes "emptyIn env key r" "\<not> sameScope env k key"
  shows "emptyIn env key (snd (putBinding env k b r))"
  using assms by (auto simp: emptyIn_def putBinding_def afterRestore_def restore_def dest!: assocSet_set)

lemma emptyIn_delete:
  assumes "emptyIn env key r"
  shows "emptyIn env key (snd (deleteBinding env k r))"
  using assms by (auto simp: emptyIn_def deleteBinding_def restore_def)

lemma emptyIn_retire:
  assumes "emptyIn env key r" "\<forall>(k, b)\<in>set es. \<not> sameScope env k key"
  shows "emptyIn env key (snd (retireEntries env es r))"
  using assms
proof (induction env es r rule: retireEntries.induct)
  case (2 env k b es r)
  have "emptyIn env key (snd (putBinding env k (forgetResponse b) r))"
    using 2(2,3) by (intro emptyIn_put) auto
  then show ?case using 2 by (auto split: prod.split sum.split)
qed simp

text \<open>
  A call that cannot bring a scope back: it is elsewhere, or it reads for a generation that a clear
  has ended.
\<close>

definition harmless :: "store_config \<Rightarrow> draft_key \<Rightarrow> nat \<Rightarrow> draft_call \<Rightarrow> bool" where
  "harmless cfg key generation c = (let away = (\<lambda>k. \<not> sameScope (registryEnv cfg) k key) in
     case c of
       ReadToken rd \<Rightarrow> away (rKey rd) \<or> rGeneration rd < generation
     | ReadHeaders rd \<Rightarrow> away (rKey rd) \<or> rGeneration rd < generation
     | ReadReply rd \<Rightarrow> away (rKey rd) \<or> rGeneration rd < generation
     | ReadValidate rd _ \<Rightarrow> away (rKey rd) \<or> rGeneration rd < generation
     | ReadQualify rd _ \<Rightarrow> away (rKey rd) \<or> rGeneration rd < generation
     | SaveToken sv \<Rightarrow> away (sKey sv) | SaveHeaders sv \<Rightarrow> away (sKey sv) | SaveReply sv \<Rightarrow> away (sKey sv)
     | InitToken it \<Rightarrow> away (iKey it) | InitHeaders it \<Rightarrow> away (iKey it) | InitReply it \<Rightarrow> away (iKey it)
     | _ \<Rightarrow> True)"

definition calmAfter :: "store_config \<Rightarrow> draft_key \<Rightarrow> nat \<Rightarrow> draft_store \<times> draft_call \<Rightarrow> bool" where
  "calmAfter cfg key generation r = (case r of (st, c) \<Rightarrow>
     emptyIn (registryEnv cfg) key (dsRegistry st) \<and> generation \<le> dsGeneration st \<and> harmless cfg key generation c)"

lemma harmless_mono: "harmless cfg key g c \<Longrightarrow> g \<le> g' \<Longrightarrow> harmless cfg key g' c"
  by (cases c) (auto simp: harmless_def Let_def)

lemma harmless_simps [simp]:
  "harmless cfg key g (DraftReturned x)" "harmless cfg key g (threwDraft e)"
  "harmless cfg key g (DrainDelete k rest ids)" "harmless cfg key g (DrainSession k rest)" "harmless cfg key g (DrainRetire subject ids)"
  "harmless cfg key g (ReadToken rd) \<longleftrightarrow> \<not> sameScope (registryEnv cfg) (rKey rd) key \<or> rGeneration rd < g"
  "harmless cfg key g (ReadHeaders rd) \<longleftrightarrow> \<not> sameScope (registryEnv cfg) (rKey rd) key \<or> rGeneration rd < g"
  "harmless cfg key g (ReadReply rd) \<longleftrightarrow> \<not> sameScope (registryEnv cfg) (rKey rd) key \<or> rGeneration rd < g"
  "harmless cfg key g (ReadValidate rd v) \<longleftrightarrow> \<not> sameScope (registryEnv cfg) (rKey rd) key \<or> rGeneration rd < g"
  "harmless cfg key g (ReadQualify rd v) \<longleftrightarrow> \<not> sameScope (registryEnv cfg) (rKey rd) key \<or> rGeneration rd < g"
  "harmless cfg key g (SaveToken sv) \<longleftrightarrow> \<not> sameScope (registryEnv cfg) (sKey sv) key"
  "harmless cfg key g (SaveHeaders sv) \<longleftrightarrow> \<not> sameScope (registryEnv cfg) (sKey sv) key"
  "harmless cfg key g (SaveReply sv) \<longleftrightarrow> \<not> sameScope (registryEnv cfg) (sKey sv) key"
  "harmless cfg key g (InitToken it) \<longleftrightarrow> \<not> sameScope (registryEnv cfg) (iKey it) key"
  "harmless cfg key g (InitHeaders it) \<longleftrightarrow> \<not> sameScope (registryEnv cfg) (iKey it) key"
  "harmless cfg key g (InitReply it) \<longleftrightarrow> \<not> sameScope (registryEnv cfg) (iKey it) key"
  by (simp_all add: harmless_def threwDraft_def)

lemma calm_pair [simp]: "calmAfter cfg key g (st, c) \<longleftrightarrow>
    emptyIn (registryEnv cfg) key (dsRegistry st) \<and> g \<le> dsGeneration st \<and> harmless cfg key g c"
  by (simp add: calmAfter_def)

lemma calm_throwing: "calmAfter cfg key g (throwing e st) \<longleftrightarrow> emptyIn (registryEnv cfg) key (dsRegistry st) \<and> g \<le> dsGeneration st"
  by (simp add: calmAfter_def throwing_def)

text \<open>A stale read ends without touching the store.\<close>

lemma stale_read: "rGeneration rd < dsGeneration st \<Longrightarrow> \<exists>e. readCurrent w rd st = Inl e"
  by (cases "callerCurrent w") (simp_all add: readCurrent_def throwIf_def checks.simps)

lemma readOn_stale:
  assumes "rGeneration rd < dsGeneration st" "\<not> isOk r"
  shows "\<exists>e. readOn cfg w rd st r k = throwing e st"
  using stale_read [OF assms(1), of w] assms(2) by (cases r) (auto simp: readOn_def readFailed_def)

lemma stale_resume:
  assumes "c \<in> {ReadToken rd, ReadHeaders rd, ReadReply rd, ReadValidate rd view, ReadQualify rd view}" "rGeneration rd < dsGeneration st"
  shows "resumeDraft cfg w a cs st c = (st, c) \<or> (\<exists>e. resumeDraft cfg w a cs st c = throwing e st)"
proof -
  obtain e where e: "readCurrent w rd st = Inl e" using stale_read [OF assms(2)] by blast
  have stale: "\<exists>e. readOn cfg w rd st (bindR r (\<lambda>x. bindR (readCurrent w rd st) (k' x))) k = throwing e st" for r :: "store_error + 'x" and k' k
    by (rule readOn_stale [OF assms(2)]) (cases r, simp_all add: e)
  have stale1: "\<exists>e. readOn cfg w rd st (bindR r (\<lambda>x. readCurrent w rd st)) k = throwing e st" for r :: "store_error + 'x" and k
    by (rule readOn_stale [OF assms(2)]) (cases r, simp_all add: e)
  show ?thesis using assms(1) by (cases a) (auto simp: resumeDraft_def readReplied_def readQualified_def Let_def stale stale1)
qed

lemma calm_failed:
  assumes "emptyIn (registryEnv cfg) key (dsRegistry st)" "g \<le> dsGeneration st"
  shows "calmAfter cfg key g (readFailed cfg w rd e st)"
  using assms emptyIn_delete [OF assms(1), of "rKey rd"]
  by (auto simp: readFailed_def onRegistry_def calm_throwing calmAfter_def throwing_def split: sum.split prod.split)

lemma calm_put:
  assumes "emptyIn (registryEnv cfg) key (dsRegistry st)" "g \<le> dsGeneration st" "\<not> sameScope (registryEnv cfg) k key"
    and "\<And>e reg. emptyIn (registryEnv cfg) key reg \<Longrightarrow> calmAfter cfg key g (failed (RegistryFailed e) (st\<lparr>dsRegistry := reg\<rparr>))"
    and "\<And>reg. emptyIn (registryEnv cfg) key reg \<Longrightarrow> calmAfter cfg key g (f () (st\<lparr>dsRegistry := reg\<rparr>))"
  shows "calmAfter cfg key g (onRegistry (putBinding (registryEnv cfg) k b (dsRegistry st)) st failed f)"
  using emptyIn_put [OF assms(1,3), of b] assms(4,5) by (auto simp: onRegistry_def split: sum.split prod.split)

lemma calm_keep: "emptyIn (registryEnv cfg) key (dsRegistry st) \<Longrightarrow> g \<le> dsGeneration st \<Longrightarrow> harmless cfg key g c \<Longrightarrow> calmAfter cfg key g (st, c)"
  by (simp add: calmAfter_def)

lemma away_read:
  assumes "emptyIn (registryEnv cfg) key (dsRegistry st)" "g \<le> dsGeneration st" "\<not> sameScope (registryEnv cfg) (rKey rd) key"
  shows "calmAfter cfg key g (readOn cfg w rd st r k) \<longleftrightarrow> (\<forall>x. r = Inr x \<longrightarrow> calmAfter cfg key g (k x))"
  using calm_failed [OF assms(1,2)] by (cases r) (simp_all add: readOn_def)

lemma away_qualified:
  assumes "emptyIn (registryEnv cfg) key (dsRegistry st)" "g \<le> dsGeneration st" "\<not> sameScope (registryEnv cfg) (rKey rd) key"
  shows "calmAfter cfg key g (readQualified cfg w rd view r st)"
proof -
  have put: "calmAfter cfg key g (onRegistry (putBinding (registryEnv cfg) (rKey rd) b (dsRegistry st)) st (readFailed cfg w rd)
      (\<lambda>_ st. (st, DraftReturned o1)))" for b o1
    by (rule calm_put [OF assms]) (auto simp: calm_failed calm_keep assms(2))
  have "onRegistry (getBinding (registryEnv cfg) (rKey rd) (dsRegistry st)) st f k =
      (case fst (getBinding (registryEnv cfg) (rKey rd) (dsRegistry st)) of Inl e \<Rightarrow> f (RegistryFailed e) st | Inr x \<Rightarrow> k x st)" for f k
    using getBinding_registry [of "dsRegistry st" "registryEnv cfg" "rKey rd"] assms(1)
    by (cases "getBinding (registryEnv cfg) (rKey rd) (dsRegistry st)") (simp add: onRegistry_def emptyIn_def split: sum.split)
  then show ?thesis
    using put calm_failed [OF assms(1,2)] by (auto simp: readQualified_def Let_def away_read [OF assms] split: sum.split)
qed

lemma calm_saveOn:
  assumes "emptyIn (registryEnv cfg) key (dsRegistry st)" "g \<le> dsGeneration st"
  shows "calmAfter cfg key g (saveOn st r k) \<longleftrightarrow> (\<forall>x. r = Inr x \<longrightarrow> calmAfter cfg key g (k x))"
  using assms by (cases r) (simp_all add: saveOn_def calm_throwing)

lemma calm_retire:
  assumes "emptyIn (registryEnv cfg) key (dsRegistry st)" "g \<le> dsGeneration st"
  shows "calmAfter cfg key g (retireDrained cfg subject st)"
proof -
  let ?env = "registryEnv cfg" and ?r = "dsRegistry st"
  have e: "bindingEntries ?env ?r = (Inr (map snd (bindings ?r)), ?r)"
    using assms(1) by (simp add: bindingEntries_def afterRestore_def restore_def emptyIn_def)
  let ?es = "filter (\<lambda>e. dkSubjectRef (fst e) = Some subject) (map snd (bindings ?r))"
  have "emptyIn ?env key (snd (retireEntries ?env ?es ?r))"
    using assms(1) by (intro emptyIn_retire) (auto simp: emptyIn_def)
  then show ?thesis using assms(2)
    by (auto simp: retireDrained_def Let_def onRegistry_def e calmAfter_def throwing_def released_def split: prod.split sum.split)
qed

lemma calm_delete:
  assumes "emptyIn (registryEnv cfg) key (dsRegistry st)" "g \<le> dsGeneration st"
  shows "calmAfter cfg key g (onRegistry (deleteBinding (registryEnv cfg) k (dsRegistry st)) st
    (\<lambda>e st. throwing e (st\<lparr>clearing := clearing st - Suc 0\<rparr>)) (\<lambda>_ st. (st, DrainSession k rest)))"
  using emptyIn_delete [OF assms(1), of k] assms(2) by (auto simp: onRegistry_def calm_throwing split: sum.split prod.split)

lemma resume_calm:
  assumes "emptyIn (registryEnv cfg) key (dsRegistry st)" "g \<le> dsGeneration st" "harmless cfg key g c"
  shows "calmAfter cfg key g (resumeDraft cfg w a cs st c)"
proof (cases "\<exists>rd view. c \<in> {ReadToken rd, ReadHeaders rd, ReadReply rd, ReadValidate rd view, ReadQualify rd view} \<and> rGeneration rd < g")
  case True
  then obtain rd view where c: "c \<in> {ReadToken rd, ReadHeaders rd, ReadReply rd, ReadValidate rd view, ReadQualify rd view}"
    and "rGeneration rd < dsGeneration st" using assms(2) by auto
  from stale_resume [OF this, of cfg w a cs] show ?thesis using assms by (auto simp: calm_throwing calm_keep)
next
  case False
  note base = assms(1,2)
  have put: "calmAfter cfg key g (onRegistry (putBinding (registryEnv cfg) k b (dsRegistry st)) st throwing (\<lambda>_ st. (st, DraftReturned o1)))"
    if "\<not> sameScope (registryEnv cfg) k key" for k b o1
    by (rule calm_put [OF base that]) (auto simp: calm_throwing calm_keep base)
  show ?thesis using assms(3) False
    by (cases c; cases a)
      (auto simp: resumeDraft_def base le_SucI away_read [OF base] away_qualified [OF base] readReplied_def requesting_def
        calm_saveOn [OF base] saveAdmitted_def saveDispatch_def saveReplied_def initDispatch_def initReplied_def put calm_retire [OF base]
        deleteDrained_def sessionCleared_def beginDelete_def released_def calm_throwing calm_delete [OF base]
        split: if_splits sum.split list.split)
qed

text \<open>From a deletion on, resumptions alone.\<close>

inductive resumptions :: "store_config \<Rightarrow> draft_system \<Rightarrow> draft_system \<Rightarrow> bool" for cfg s where
  resumed_none: "resumptions cfg s s"
| resumed_one: "resumptions cfg s s' \<Longrightarrow> resumptions cfg s (draftStep cfg w (ResumeDraft i a) s')"

definition calm :: "store_config \<Rightarrow> draft_key \<Rightarrow> nat \<Rightarrow> draft_system \<Rightarrow> bool" where
  "calm cfg key g s = (emptyIn (registryEnv cfg) key (dsRegistry (dstore s)) \<and> g \<le> dsGeneration (dstore s) \<and>
     (\<forall>c\<in>set (dcalls s). harmless cfg key g c))"

lemma calm_step:
  assumes "calm cfg key g s"
  shows "calm cfg key g (draftStep cfg w (ResumeDraft i a) s)"
proof (cases "i < length (dcalls s)")
  case True
  obtain st c where r: "resumeDraft cfg w a (dcalls s) (dstore s) (dcalls s ! i) = (st, c)" by fastforce
  have "calmAfter cfg key g (st, c)"
    using resume_calm [of cfg key "dstore s" g "dcalls s ! i" w a "dcalls s"] assms True by (simp add: r calm_def)
  then show ?thesis
    using assms True set_update_subset_insert [of "dcalls s" i c] by (auto simp: draftStep_def r calm_def)
qed (use assms in \<open>simp add: draftStep_def\<close>)

lemma calm_resumptions: "resumptions cfg s s' \<Longrightarrow> calm cfg key g s \<Longrightarrow> calm cfg key g s'"
  by (induction rule: resumptions.induct) (auto intro: calm_step)

text \<open>What may still bring a cleared draft back: an initialisation, or a read of the current generation.\<close>

definition revives :: "store_config \<Rightarrow> draft_key \<Rightarrow> nat \<Rightarrow> draft_call \<Rightarrow> bool" where
  "revives cfg key generation c = (let here = (\<lambda>k. sameScope (registryEnv cfg) k key) in
     case c of
       InitToken it \<Rightarrow> here (iKey it) | InitHeaders it \<Rightarrow> here (iKey it) | InitReply it \<Rightarrow> here (iKey it)
     | ReadToken rd \<Rightarrow> here (rKey rd) \<and> rGeneration rd = generation
     | ReadHeaders rd \<Rightarrow> here (rKey rd) \<and> rGeneration rd = generation
     | ReadReply rd \<Rightarrow> here (rKey rd) \<and> rGeneration rd = generation
     | ReadValidate rd _ \<Rightarrow> here (rKey rd) \<and> rGeneration rd = generation
     | ReadQualify rd _ \<Rightarrow> here (rKey rd) \<and> rGeneration rd = generation
     | _ \<Rightarrow> False)"

definition readGeneration :: "draft_call \<Rightarrow> nat" where
  "readGeneration c = (case c of ReadToken rd \<Rightarrow> rGeneration rd | ReadHeaders rd \<Rightarrow> rGeneration rd | ReadReply rd \<Rightarrow> rGeneration rd
     | ReadValidate rd _ \<Rightarrow> rGeneration rd | ReadQualify rd _ \<Rightarrow> rGeneration rd | _ \<Rightarrow> 0)"

lemma quiet_harmless:
  "\<not> revives cfg key g c \<Longrightarrow> \<not> isSaving c \<Longrightarrow> readGeneration c \<le> g \<Longrightarrow> harmless cfg key g c"
  by (cases c) (auto simp: revives_def isSaving_def readGeneration_def)

text \<open>Generations only grow, and a read has the generation it began with.\<close>

definition aged :: "nat \<Rightarrow> draft_call \<Rightarrow> draft_store \<times> draft_call \<Rightarrow> bool" where
  "aged g c r = (case r of (st, c') \<Rightarrow> g \<le> dsGeneration st \<and> (readGeneration c' = readGeneration c \<or> readGeneration c' \<le> dsGeneration st))"

lemma readFailed_aged: "aged (dsGeneration st) c (readFailed cfg w rd e (st\<lparr>dsRegistry := reg\<rparr>))"
  "aged (dsGeneration st) c (readFailed cfg w rd e st)"
  by (auto simp: readFailed_def throwing_def threwDraft_def onRegistry_def aged_def readGeneration_def split: sum.split prod.split)

lemma resume_aged: "aged (dsGeneration st) c (resumeDraft cfg w a cs st c)"
  apply (cases c; cases a)
  apply (simp_all add: resumeDraft_def)
  apply (auto simp: readOn_def readReplied_def readQualified_def saveOn_def saveAdmitted_def saveDispatch_def saveReplied_def
      initDispatch_def initReplied_def deleteDrained_def sessionCleared_def retireDrained_def beginDelete_def released_def requesting_def
      throwing_def threwDraft_def Let_def onRegistry_def readFailed_aged split: sum.split prod.split list.split)
  apply (auto simp: aged_def readGeneration_def)
  done

lemma begin_aged: "(\<And>i a. act \<noteq> ResumeDraft i a) \<Longrightarrow> aged (dsGeneration (dstore s)) (DraftReturned x) (beginDraft cfg w act s)"
  by (cases act) (auto simp: beginDraft_def beginRead_def beginResume_def beginSave_def saveAdmitted_def saveOn_def beginInit_def
    beginDelete_def beginInvalidate_def beginRetire_def throwing_def threwDraft_def Let_def onRegistry_def aged_def readGeneration_def
    split: sum.split prod.split option.split list.split)

lemma draftReach_generation: "draftReach cfg s \<Longrightarrow> c \<in> set (dcalls s) \<Longrightarrow> readGeneration c \<le> dsGeneration (dstore s)"
proof (induction arbitrary: c rule: draftReach.induct)
  case (draft_step s w act)
  show ?case
  proof (cases "\<exists>i a. act = ResumeDraft i a")
    case True
    then obtain i a where act: "act = ResumeDraft i a" by blast
    show ?thesis
    proof (cases "i < length (dcalls s)")
      case True
      obtain st c' where r: "resumeDraft cfg w a (dcalls s) (dstore s) (dcalls s ! i) = (st, c')" by fastforce
      have "aged (dsGeneration (dstore s)) (dcalls s ! i) (st, c')" using resume_aged [of "dstore s" "dcalls s ! i" cfg w a "dcalls s"] by (simp add: r)
      moreover have "c = c' \<or> c \<in> set (dcalls s)"
        using draft_step.prems True set_update_subset_insert [of "dcalls s" i c'] by (auto simp: draftStep_def act r)
      moreover have "readGeneration (dcalls s ! i) \<le> dsGeneration (dstore s)" using draft_step.IH True by simp
      ultimately show ?thesis using draft_step.IH [of c] True by (auto simp: draftStep_def act r aged_def)
    qed (use draft_step act in \<open>simp add: draftStep_def\<close>)
  next
    case False
    then have no: "act \<noteq> ResumeDraft i a" for i a by blast
    obtain st c' where r: "beginDraft cfg w act s = (st, c')" by fastforce
    have "aged (dsGeneration (dstore s)) (DraftReturned DraftSaved) (st, c')" using begin_aged [OF no, of s _ cfg w] by (simp add: r)
    moreover have "draftStep cfg w act s = \<lparr>dstore = st, dcalls = dcalls s @ [c']\<rparr>"
      using no r by (cases act) (auto simp: draftStep_def)
    ultimately show ?thesis using draft_step.IH [of c] draft_step.prems by (auto simp: aged_def readGeneration_def)
  qed
qed (simp add: initialDrafts_def)

text \<open>C10. A clear is final: when the deletion of a draft goes through, no call in flight brings its handle
  back, however the saves, reads and further clears in flight are answered, unless an initialisation
  of that draft is in flight or a read of it was begun while the clear waited.\<close>

theorem clear_is_final:
  assumes "draftReach cfg s" "i < length (dcalls s)" "dcalls s ! i = DrainDelete key rest ids"
    and "\<And>c. c \<in> set (dcalls s) \<Longrightarrow> \<not> revives cfg key (dsGeneration (dstore s)) c"
    and "s1 = draftStep cfg w (ResumeDraft i (Settled r)) s" "dcalls s1 ! i = DrainSession key rest"
    and "resumptions cfg s1 s2"
  shows "\<forall>(t, k, b)\<in>set (bindings (dsRegistry (dstore s2))). \<not> sameScope (registryEnv cfg) k key"
proof -
  let ?st = "dstore s" and ?cs = "dcalls s"
  obtain st c where r: "resumeDraft cfg w (Settled r) ?cs ?st (DrainDelete key rest ids) = (st, c)" by fastforce
  have s1: "s1 = \<lparr>dstore = st, dcalls = ?cs[i := c]\<rparr>" using assms(2,3,5) by (simp add: draftStep_def r)
  then have c: "c = DrainSession key rest" using assms(2,6) by simp
  have dr: "drained ids ?cs" using r c by (auto simp: resumeDraft_def split: if_splits)
  obtain reg where del: "deleteBinding (registryEnv cfg) key (dsRegistry ?st) = (Inr (), reg)" and st: "st = ?st\<lparr>dsRegistry := reg\<rparr>"
    using r c dr by (auto simp: resumeDraft_def deleteDrained_def onRegistry_def throwing_def threwDraft_def split: prod.splits sum.splits)
  have "?cs ! i \<in> set ?cs" using assms(2) by simp
  then have "\<forall>j<length ?cs. isSaving (?cs ! j) \<longrightarrow> j \<in> set ids"
    using draftReach_clearInv [OF assms(1)] assms(3) by (force simp: clearInv_def awaited_def)
  then have "\<not> isSaving c'" if "c' \<in> set ?cs" for c'
    using dr that by (auto simp: drained_def list_all_iff in_set_conv_nth)
  then have "harmless cfg key (dsGeneration ?st) c'" if "c' \<in> set ?cs" for c'
    using quiet_harmless assms(4) that draftReach_generation [OF assms(1)] by blast
  then have "calm cfg key (dsGeneration ?st) s1"
    using deleteBinding_clears [OF del] set_update_subset_insert [of ?cs i c]
    by (auto simp: calm_def s1 st emptyIn_def c)
  from calm_resumptions [OF assms(7) this] show ?thesis by (simp add: calm_def emptyIn_def)
qed


section \<open>What a load and a save guarantee\<close>

definition admittedRead :: "store_config \<Rightarrow> draft_call \<Rightarrow> bool" where
  "admittedRead cfg c = (case c of ReadQualify rd view \<Rightarrow> snapshotMatches cfg rd True view | _ \<Rightarrow> True)"

lemma snapshotGuards_Inr: "snapshotGuards cfg rd valid view = Inr () \<Longrightarrow> snapshotMatches cfg rd True view"
  by (auto simp: snapshotGuards_def snapshotMatches_def Let_def checks_Inr)

lemma readFailed_call: "\<exists>x. snd (readFailed cfg w rd e st) = DraftReturned x"
  by (auto simp: readFailed_def throwing_def threwDraft_def onRegistry_def split: sum.split prod.split)

definition taskCall :: "store_config \<Rightarrow> draft_call \<Rightarrow> bool" where
  "taskCall cfg c = (requireExistingBinding cfg \<longrightarrow>
     (case c of SaveHeaders sv \<Rightarrow> sExisting sv \<noteq> None | SaveReply sv \<Rightarrow> sExisting sv \<noteq> None | _ \<Rightarrow> True))"

definition emptyCreation :: "draft_request \<Rightarrow> bool" where
  "emptyCreation q = (case q of CreateDraft _ r \<Rightarrow> getp r ''data'' = Obj [] | _ \<Rightarrow> True)"

text \<open>A step keeps the calls admitted, and adds requests that a task-owned store may make.\<close>

definition soundStep :: "store_config \<Rightarrow> draft_store \<Rightarrow> draft_store \<times> draft_call \<Rightarrow> bool" where
  "soundStep cfg st r = (case r of (st', c) \<Rightarrow> admittedRead cfg c \<and> taskCall cfg c \<and>
     (requests st' = requests st \<or> (\<exists>q. requests st' = requests st @ [q] \<and> (requireExistingBinding cfg \<longrightarrow> emptyCreation q))))"

lemma readFailed_sound: "soundStep cfg st (readFailed cfg w rd e (st\<lparr>dsRegistry := reg\<rparr>))" "soundStep cfg st (readFailed cfg w rd e st)"
  by (auto simp: readFailed_def throwing_def threwDraft_def onRegistry_def soundStep_def admittedRead_def taskCall_def split: sum.split prod.split)

lemma resume_sound:
  assumes "admittedRead cfg c" "taskCall cfg c"
  shows "soundStep cfg st (resumeDraft cfg w a cs st c)"
  using assms
  apply (cases c; cases a)
  apply (simp_all add: resumeDraft_def)
  apply (auto simp: readOn_def readReplied_def readQualified_def saveOn_def saveAdmitted_def saveDispatch_def saveReplied_def
      initDispatch_def initReplied_def deleteDrained_def sessionCleared_def retireDrained_def beginDelete_def released_def requesting_def
      throwing_def threwDraft_def Let_def onRegistry_def readFailed_sound split: sum.split prod.split list.split)
  apply (auto simp: soundStep_def admittedRead_def taskCall_def emptyCreation_def saveRequest_def createDraft_def initialResponse_def propOf_def bindR_Inr_iff
      dest!: snapshotGuards_Inr split: option.splits)
  done

lemma begin_sound: "(\<And>i a. act \<noteq> ResumeDraft i a) \<Longrightarrow> soundStep cfg (dstore s) (beginDraft cfg w act s)"
  by (cases act) (auto simp: beginDraft_def beginRead_def beginResume_def beginSave_def saveAdmitted_def saveOn_def beginInit_def
    beginDelete_def beginInvalidate_def beginRetire_def throwing_def threwDraft_def Let_def onRegistry_def soundStep_def admittedRead_def taskCall_def
    bindR_Inr_iff split: sum.split prod.split option.split list.split)

lemma draftReach_sound:
  "draftReach cfg s \<Longrightarrow> (\<forall>c\<in>set (dcalls s). admittedRead cfg c \<and> taskCall cfg c) \<and>
     (requireExistingBinding cfg \<longrightarrow> (\<forall>q\<in>set (requests (dstore s)). emptyCreation q))"
proof (induction rule: draftReach.induct)
  case (draft_step s w act)
  show ?case
  proof (cases "\<exists>i a. act = ResumeDraft i a")
    case True
    then obtain i a where act: "act = ResumeDraft i a" by blast
    show ?thesis
    proof (cases "i < length (dcalls s)")
      case True
      obtain st c where r: "resumeDraft cfg w a (dcalls s) (dstore s) (dcalls s ! i) = (st, c)" by fastforce
      have "soundStep cfg (dstore s) (st, c)"
        using resume_sound [of cfg "dcalls s ! i" "dstore s" w a "dcalls s"] draft_step.IH True by (simp add: r)
      then show ?thesis using draft_step.IH True set_update_subset_insert [of "dcalls s" i c]
        by (auto simp: draftStep_def act r soundStep_def)
    qed (use draft_step act in \<open>simp add: draftStep_def\<close>)
  next
    case False
    then have no: "act \<noteq> ResumeDraft i a" for i a by blast
    obtain st c where r: "beginDraft cfg w act s = (st, c)" by fastforce
    have "soundStep cfg (dstore s) (st, c)" using begin_sound [OF no, of cfg s w] by (simp add: r)
    moreover have "draftStep cfg w act s = \<lparr>dstore = st, dcalls = dcalls s @ [c]\<rparr>"
      using no r by (cases act) (auto simp: draftStep_def)
    ultimately show ?thesis using draft_step.IH by (auto simp: soundStep_def)
  qed
qed (simp add: initialDrafts_def)

text \<open>C13. A load returns the draft it asked for: the response it hands out is the canonical response of the
  draft its binding names, of the form and version of its key, with the data the server holds.\<close>

theorem loaded_draft_matches:
  assumes "draftReach cfg s" "i < length (dcalls s)" "dcalls s ! i = ReadQualify rd view" "rLoads rd"
    and "dcalls (draftStep cfg w (ResumeDraft i (Qualified q)) s) ! i = DraftReturned (DraftRead (Some response))"
  shows "response = getp view ''canonical_response'' \<and> getp view ''draft_id'' = bDraftId (rBinding rd) \<and>
    getp response ''definitionUrl'' = Str (dkFormUrl (rKey rd)) \<and>
    (\<forall>v. dkFormVersion (rKey rd) = Some v \<longrightarrow> getp response ''definitionVersion'' = Str v) \<and>
    canonicalJson cfg (getp response ''data'') = canonicalJson cfg (getp view ''draft_state'')"
proof -
  have "ReadQualify rd view \<in> set (dcalls s)" using assms(2,3) nth_mem by metis
  then have "snapshotMatches cfg rd True view" using draftReach_sound [OF assms(1)] by (auto simp: admittedRead_def)
  moreover have "response = getp view ''canonical_response''"
    using assms(2-5) by (auto simp: draftStep_def resumeDraft_def readQualified_def readOn_def readFailed_def onRegistry_def throwing_def
      threwDraft_def Let_def split: prod.splits sum.splits if_splits)
  ultimately show ?thesis by (auto simp: snapshotMatches_def Let_def split: option.splits)
qed

text \<open>A task-owned store never creates a draft with answers: whatever its calls, every draft it asks
  the server to create is an empty initialisation; answers go to the draft its binding names.\<close>

theorem task_drafts_are_not_recreated:
  assumes "draftReach cfg s" "requireExistingBinding cfg" "CreateDraft formId response \<in> set (requests (dstore s))"
  shows "getp response ''data'' = Obj []"
  using draftReach_sound [OF assms(1)] assms(2,3) by (auto simp: emptyCreation_def dest!: bspec)


section \<open>Runs\<close>

text \<open>A store over an empty tab, whose server answers as the run says.\<close>

definition draftRun :: "store_config \<Rightarrow> draft_action list \<Rightarrow> draft_system \<Rightarrow> draft_system" where
  "draftRun cfg acts s = fold (draftStep cfg \<lparr>callerCurrent = True, dispatchAdmitted = True, freshUuid = ''u''\<rparr>) acts s"

lemma draftRun_reach: "draftReach cfg s \<Longrightarrow> draftReach cfg (draftRun cfg acts s)"
  unfolding draftRun_def by (induction acts arbitrary: s) (auto intro: draft_step)

definition sampleStore :: store_config where
  "sampleStore = \<lparr>registryEnv = sampleTab, requireExistingBinding = False, canonicalJson = (\<lambda>v. case v of Obj [] \<Rightarrow> Some ''{}'' | _ \<Rightarrow> None)\<rparr>"

definition sampleAnswers :: jsval where
  "sampleAnswers = Obj [(''id'', Str ''r''), (''definitionUrl'', Str ''form''), (''definitionVersion'', Str ''1''), (''data'', Obj [])]"

definition sampleView :: jsval where
  "sampleView = Obj [(''draft_id'', Str ''d''), (''draft_version'', jsInt 1), (''draft_state'', Obj []), (''canonical_response'', sampleAnswers)]"

text \<open>A call up to its reply, and a clear that goes through.\<close>

definition tokenAndHeaders :: "nat \<Rightarrow> draft_action list" where
  "tokenAndHeaders i = [ResumeDraft i (Token (Inr None)), ResumeDraft i (HeadersReady (Inr ()))]"

definition replied :: "nat \<Rightarrow> draft_action list" where
  "replied i = tokenAndHeaders i @ [ResumeDraft i (Reply (Inr sampleView))]"

definition goesThrough :: "nat \<Rightarrow> draft_action list" where
  "goesThrough i = [ResumeDraft i (Settled (Inr ())), ResumeDraft i (Settled (Inr ()))]"

definition othersReturned :: "nat \<Rightarrow> draft_system \<Rightarrow> bool" where
  "othersReturned i s = list_all (\<lambda>j. j = i \<or> (case dcalls s ! j of DraftReturned _ \<Rightarrow> True | _ \<Rightarrow> False)) [0..<length (dcalls s)]"

text \<open>The clear has returned, one call is left, and its answer brings a handle back.\<close>

definition revivedBy :: "store_config \<Rightarrow> nat \<Rightarrow> draft_answer \<Rightarrow> draft_system \<Rightarrow> bool" where
  "revivedBy cfg i a s = (DraftReturned DraftCleared \<in> set (dcalls s) \<and> othersReturned i s \<and> bindings (dsRegistry (dstore s)) = [] \<and>
     bindings (dsRegistry (dstore (draftRun cfg [ResumeDraft i a] s))) \<noteq> [])"

text \<open>A handle the registry took is the one the next lookup finds.\<close>

lemma put_is_found:
  assumes "putBinding env key b r = (Inr (), r')"
  shows "fst (getBinding env key r') = Inr (Some (withResponseId b))"
proof -
  obtain r1 where "restore env r = (Inr (), r1)"
      "persist env (r1\<lparr>bindings := assocSet (serializeKey key) (key, withResponseId b) (bindings r1)\<rparr>) = (Inr (), r')"
      "bindings r' = assocSet (serializeKey key) (key, withResponseId b) (bindings r1)" "restored r'"
    using assms by (rule putBinding_ok)
  then show ?thesis by (simp add: getBinding_restored map_of_assocSet)
qed

lemma settled_delete:
  assumes "j < length (dcalls s)" "dcalls s ! j = DrainDelete key rest ids"
    and "dcalls (draftStep cfg w (ResumeDraft j (Settled r)) s) ! j = DrainSession key rest"
  obtains reg where "deleteBinding (registryEnv cfg) key (dsRegistry (dstore s)) = (Inr (), reg)"
    "draftStep cfg w (ResumeDraft j (Settled r)) s =
       \<lparr>dstore = dstore s\<lparr>dsRegistry := reg\<rparr>, dcalls = (dcalls s)[j := DrainSession key rest]\<rparr>"
  using assms by (auto simp: draftStep_def resumeDraft_def deleteDrained_def onRegistry_def throwing_def threwDraft_def
    split: prod.splits sum.splits if_splits)

lemma answered_initialisation:
  assumes "i < length (dcalls s)" "dcalls s ! i = InitReply it"
    and "fst (putBinding (registryEnv cfg) (iKey it) (initBinding view) (dsRegistry (dstore s))) = Inr ()"
    and "s' = draftStep cfg w (ResumeDraft i (Reply (Inr view))) s"
  shows "fst (getBinding (registryEnv cfg) (iKey it) (dsRegistry (dstore s'))) = Inr (Some (withResponseId (initBinding view)))"
proof -
  obtain reg where put: "putBinding (registryEnv cfg) (iKey it) (initBinding view) (dsRegistry (dstore s)) = (Inr (), reg)"
    using assms(3) by (cases "putBinding (registryEnv cfg) (iKey it) (initBinding view) (dsRegistry (dstore s))") simp
  then have "dsRegistry (dstore s') = reg"
    using assms(1,2,4) by (simp add: draftStep_def resumeDraft_def initReplied_def saveOn_def onRegistry_def)
  then show ?thesis using put_is_found [OF put] by simp
qed

text \<open>C36. An initialisation outlives a clear: when the clear of a draft goes through while an initialisation of
  that draft, begun before, still awaits the server's reply, the clear returns with no handle of the draft left, and
  the reply that comes next makes the draft it names the tab's draft again, provided the tab's storage takes the handle.\<close>

theorem initialisation_outlives_clear:
  assumes "i < length (dcalls s)" "dcalls s ! i = InitReply it"
    and "j < length (dcalls s)" "dcalls s ! j = DrainDelete (iKey it) [] ids"
    and "s1 = draftStep cfg w1 (ResumeDraft j (Settled r)) s" "dcalls s1 ! j = DrainSession (iKey it) []"
    and "s2 = draftStep cfg w2 (ResumeDraft j (Settled (Inr ()))) s1"
    and "fst (putBinding (registryEnv cfg) (iKey it) (initBinding view) (dsRegistry (dstore s2))) = Inr ()"
    and "s3 = draftStep cfg w3 (ResumeDraft i (Reply (Inr view))) s2"
  shows "dcalls s2 ! j = DraftReturned DraftCleared \<and> dcalls s2 ! i = InitReply it \<and>
    (\<forall>(t, k, b)\<in>set (bindings (dsRegistry (dstore s2))). \<not> sameScope (registryEnv cfg) k (iKey it)) \<and>
    fst (getBinding (registryEnv cfg) (iKey it) (dsRegistry (dstore s3))) = Inr (Some (withResponseId (initBinding view)))"
proof -
  obtain reg where reg: "deleteBinding (registryEnv cfg) (iKey it) (dsRegistry (dstore s)) = (Inr (), reg)"
      "s1 = \<lparr>dstore = dstore s\<lparr>dsRegistry := reg\<rparr>, dcalls = (dcalls s)[j := DrainSession (iKey it) []]\<rparr>"
    using settled_delete [OF assms(3,4)] assms(5,6) by metis
  have s2: "s2 = \<lparr>dstore = released (dstore s\<lparr>dsRegistry := reg\<rparr>), dcalls = (dcalls s)[j := DraftReturned DraftCleared]\<rparr>"
    using assms(3,7) by (simp add: reg(2) draftStep_def resumeDraft_def sessionCleared_def)
  have "i \<noteq> j" using assms(2,4) by auto
  then have i: "i < length (dcalls s2)" "dcalls s2 ! i = InitReply it" using assms(1,2) by (simp_all add: s2)
  have "dsRegistry (dstore s2) = reg" by (simp add: s2 released_def)
  then show ?thesis
    using deleteBinding_clears [OF reg(1)] answered_initialisation [OF i assms(8,9)] i assms(3) by (auto simp: s2)
qed

definition racingInit :: "draft_action list" where
  "racingInit = Initialize sampleKey None # tokenAndHeaders 0 @ [Delete sampleKey]"

definition racingState :: draft_system where
  "racingState = draftRun sampleStore racingInit (initialDrafts (\<lambda>_. None))"

lemma racing_calls: "length (dcalls racingState) = 2" "dcalls racingState ! 0 = InitReply \<lparr>iKey = sampleKey, iFormVersionId = None\<rparr>"
  "dcalls racingState ! 1 = DrainDelete sampleKey [] []"
  "dcalls (draftRun sampleStore [ResumeDraft 1 (Settled (Inr ()))] racingState) ! 1 = DrainSession sampleKey []"
  "fst (putBinding sampleTab sampleKey (initBinding sampleView) (dsRegistry (dstore (draftRun sampleStore [ResumeDraft 1 (Settled (Inr ()))]
     (draftRun sampleStore [ResumeDraft 1 (Settled (Inr ()))] racingState))))) = Inr ()"
  by code_simp+

definition lateRun :: "draft_action list" where
  "lateRun = Save sampleKey sampleAnswers # replied 0 @ [Save sampleKey sampleAnswers, Delete sampleKey, Load sampleKey,
     ResumeDraft 1 (Token (Inl StoreFailure))] @ goesThrough 2 @ replied 3 @ [ResumeDraft 3 (SchemaValid True)]"

lemma lateRun_revives: "revivedBy sampleStore 3 (Qualified (Inr Null)) (draftRun sampleStore lateRun (initialDrafts (\<lambda>_. None)))"
  by code_simp

text \<open>A load begun while a clear waits outlives it: a reachable run clears a draft, waiting for a save,
  and a load begun in the meantime stores the handle again after the clear has returned.\<close>

theorem late_load_outlives_clear:
  "\<exists>cfg s i rd view a. draftReach cfg s \<and> dcalls s ! i = ReadQualify rd view \<and> revivedBy cfg i a s"
proof -
  let ?s = "draftRun sampleStore lateRun (initialDrafts (\<lambda>_. None))"
  have "case dcalls ?s ! 3 of ReadQualify _ _ \<Rightarrow> True | _ \<Rightarrow> False" by code_simp
  then obtain rd view where "dcalls ?s ! 3 = ReadQualify rd view" by (auto split: draft_call.splits)
  with draftRun_reach [OF draft_init] lateRun_revives show ?thesis by blast
qed

text \<open>A load before the clear, answered after it.\<close>

definition earlyRun :: "draft_action list" where
  "earlyRun = Save sampleKey sampleAnswers # replied 0 @ [Load sampleKey, Delete sampleKey]"

definition earlyState :: draft_system where
  "earlyState = draftRun sampleStore earlyRun (initialDrafts (\<lambda>_. None))"

lemma draftRun_resume: "draftRun cfg [ResumeDraft i a] s =
    draftStep cfg \<lparr>callerCurrent = True, dispatchAdmitted = True, freshUuid = ''u''\<rparr> (ResumeDraft i a) s"
  by (simp add: draftRun_def)

lemma early_calls: "length (dcalls earlyState) = 3" "dcalls earlyState ! 2 = DrainDelete sampleKey [] []"
  "list_all (\<lambda>c. \<not> revives sampleStore sampleKey (dsGeneration (dstore earlyState)) c) (dcalls earlyState)"
  "dcalls (draftRun sampleStore [ResumeDraft 2 (Settled (Inr ()))] earlyState) ! 2 = DrainSession sampleKey []"
  by code_simp+

theorem clear_is_final_witness:
  "list_all (\<lambda>(t, k, b). \<not> sameScope (registryEnv sampleStore) k sampleKey) (bindings (dsRegistry (dstore
     (draftRun sampleStore [ResumeDraft 1 (Token (Inr None))] (draftRun sampleStore [ResumeDraft 2 (Settled (Inr ()))] earlyState)))))"
proof -
  let ?w = "\<lparr>callerCurrent = True, dispatchAdmitted = True, freshUuid = ''u''\<rparr>"
  let ?s1 = "draftRun sampleStore [ResumeDraft 2 (Settled (Inr ()))] earlyState"
  have reach: "draftReach sampleStore earlyState" unfolding earlyState_def by (rule draftRun_reach) (rule draft_init)
  have run: "resumptions sampleStore ?s1 (draftRun sampleStore [ResumeDraft 1 (Token (Inr None))] ?s1)"
    unfolding draftRun_resume [of _ 1] by (rule resumed_one) (rule resumed_none)
  show ?thesis
    using clear_is_final [OF reach _ early_calls(2) _ draftRun_resume early_calls(4) run] early_calls(1,3)
    by (simp add: list_all_iff)
qed

theorem initialisation_outlives_clear_witness:
  "draftReach sampleStore racingState \<and> (\<exists>s2. resumptions sampleStore racingState s2 \<and> dcalls s2 ! 1 = DraftReturned DraftCleared \<and>
     fst (getBinding sampleTab sampleKey (dsRegistry (dstore (draftRun sampleStore [ResumeDraft 0 (Reply (Inr sampleView))] s2)))) =
       Inr (Some (withResponseId (initBinding sampleView))))"
proof -
  let ?s1 = "draftRun sampleStore [ResumeDraft 1 (Settled (Inr ()))] racingState"
  let ?s2 = "draftRun sampleStore [ResumeDraft 1 (Settled (Inr ()))] ?s1"
  have "draftReach sampleStore racingState" unfolding racingState_def by (rule draftRun_reach) (rule draft_init)
  moreover have "resumptions sampleStore racingState ?s2"
    unfolding draftRun_resume by (intro resumed_one resumed_none)
  moreover have "dcalls ?s2 ! 1 = DraftReturned DraftCleared \<and>
      fst (getBinding sampleTab sampleKey (dsRegistry (dstore (draftRun sampleStore [ResumeDraft 0 (Reply (Inr sampleView))] ?s2)))) =
        Inr (Some (withResponseId (initBinding sampleView)))"
    using initialisation_outlives_clear [where i = 0 and j = 1 and s = racingState and it = "\<lparr>iKey = sampleKey, iFormVersionId = None\<rparr>"
      and cfg = sampleStore and ids = "[]" and view = sampleView, OF _ racing_calls(2) _ _ draftRun_resume _ draftRun_resume _ draftRun_resume]
      racing_calls by (simp add: sampleStore_def)
  ultimately show ?thesis by blast
qed

definition loadRun :: "draft_action list" where
  "loadRun = Save sampleKey sampleAnswers # replied 0 @ [Load sampleKey] @ replied 1 @ [ResumeDraft 1 (SchemaValid True)]"

lemma load_returns:
  "case dcalls (draftRun sampleStore loadRun (initialDrafts (\<lambda>_. None))) ! 1 of ReadQualify rd view \<Rightarrow> rLoads rd | _ \<Rightarrow> False"
  "length (dcalls (draftRun sampleStore loadRun (initialDrafts (\<lambda>_. None)))) = 2"
  "dcalls (draftRun sampleStore [ResumeDraft 1 (Qualified (Inr Null))] (draftRun sampleStore loadRun (initialDrafts (\<lambda>_. None)))) ! 1 =
     DraftReturned (DraftRead (Some sampleAnswers))"
  by code_simp+

theorem loaded_draft_matches_witness:
  "\<exists>rd view. dcalls (draftRun sampleStore loadRun (initialDrafts (\<lambda>_. None))) ! 1 = ReadQualify rd view \<and>
     sampleAnswers = getp view ''canonical_response'' \<and> getp view ''draft_id'' = bDraftId (rBinding rd)"
proof -
  let ?s = "draftRun sampleStore loadRun (initialDrafts (\<lambda>_. None))"
  obtain rd view where c: "dcalls ?s ! 1 = ReadQualify rd view" "rLoads rd" using load_returns(1) by (auto split: draft_call.splits)
  have "draftReach sampleStore ?s" by (rule draftRun_reach) (rule draft_init)
  from loaded_draft_matches [OF this _ c load_returns(3) [unfolded draftRun_resume]] c(1) show ?thesis
    using load_returns(2) by auto
qed

definition taskStore :: store_config where
  "taskStore = sampleStore\<lparr>requireExistingBinding := True\<rparr>"

definition taskRun :: "draft_action list" where
  "taskRun = Save sampleKey sampleAnswers # tokenAndHeaders 0 @ [Initialize sampleKey None] @ tokenAndHeaders 1"

lemma task_requests: "requests (dstore (draftRun taskStore taskRun (initialDrafts (\<lambda>_. None)))) =
    [CreateDraft ''form'' (initialResponse \<lparr>iKey = sampleKey, iFormVersionId = None\<rparr> ''u'')]"
  by code_simp

theorem task_drafts_are_not_recreated_witness:
  "getp (initialResponse \<lparr>iKey = sampleKey, iFormVersionId = None\<rparr> ''u'') ''data'' = Obj []"
  using task_drafts_are_not_recreated [OF draftRun_reach [OF draft_init], of taskStore "''form''" _ taskRun "\<lambda>_. None"]
  unfolding task_requests by (simp add: taskStore_def)

end
