(* ===== verification/Http_Submit.thy ===== *)
theory Http_Submit
  imports Response_Evidence
begin

text \<open>
  The submit transport against the server, \<open>HttpSubmitTransport\<close> of
  \<open>src/adapters/http/submit-transport.ts\<close>, as an interleaving of its calls. A call is the await it
  is suspended at. \<open>replaying\<close> is the map of promises: a promise is the number of the call that made
  it, and a call that finds one waits for that call. The resolvers of the configuration, the
  schema of the native selector and the canonical encoding are parameters.
\<close>


section \<open>State and calls\<close>

datatype submit_error =
    SubmitObsolete | KeyRefused key_error | NoCanonicalResponse | BadSubmitOptions
  | BadNativeSelector | BadSelectorRevision
  | ResponseChanged | SelectorChanged | NoDraftId | ResolverConflict | IdentityDiffers | SubmitFailure

record http_confirmation =
  recordKind :: string
  confReference :: jsval
  confState :: jsval

record submit_config =
  submitUuids :: uuid_lib
  submitJson :: "jsval \<Rightarrow> string option"
  responseIdResolver :: "(jsval \<Rightarrow> string option) option"
  responseDataResolver :: "(jsval \<Rightarrow> jsval) option"
  signingRequested :: "jsval \<Rightarrow> bool"
  snapshotFiniteJson :: "jsval \<Rightarrow> submit_error + jsval"
  selectorSchema :: "jsval \<Rightarrow> bool"

record submission =
  subKey :: string
  subHandoff :: jsval
  subOptions :: jsval

record submit_post =
  postKey :: string
  postDraftId :: string
  postHandoff :: jsval
  postOptions :: jsval
  postBody :: jsval

datatype submit_call =
    AwaitDraftId submission
  | AwaitSubmitToken submission string
  | AwaitSubmitHeaders submission string "string option"
  | AwaitSubmitReply submission
  | JoinedSubmission string nat
  | SubmitReturned string "submit_error + http_confirmation"

record http_transport =
  finalizedHandoffs :: "string \<rightharpoonup> jsval \<times> jsval"
  replaying :: "string \<rightharpoonup> nat"
  posts :: "submit_post list"
  submitCalls :: "submit_call list"

datatype submit_answer =
    DraftId "submit_error + string option"
  | SubmitToken "submit_error + string option"
  | SubmitHeaders "submit_error + unit"
  | SubmitReply "submit_error + jsval"
  | SubmitSettled


section \<open>Submitting\<close>

definition canonicalResponse :: "jsval \<Rightarrow> jsval" where
  "canonicalResponse handoff = dot handoff [''extensions'', ''x-formspec-response'']"

definition requireCanonicalResponse :: "jsval \<Rightarrow> submit_error + jsval" where
  "requireCanonicalResponse handoff = (let response = canonicalResponse handoff in
     if isPlainObject response \<and> isPlainObject (getp response ''data'') then Inr response else Inl NoCanonicalResponse)"

definition partyRefFromHandoff :: "jsval \<Rightarrow> jsval" where
  "partyRefFromHandoff handoff = (let candidate = dot handoff [''extensions'', ''x-formspec-active-party-ref''] in
     if isNonEmptyString candidate then candidate else Undefined)"

definition snapshotNativeCurrentCheck :: "submit_config \<Rightarrow> jsval \<Rightarrow> submit_error + jsval" where
  "snapshotNativeCurrentCheck cfg value =
     bindR (snapshotFiniteJson cfg value) (\<lambda>selected.
     bindR (throwIf (\<not> selectorSchema cfg selected) BadNativeSelector) (\<lambda>_.
     bindR (throwIf (\<not> isSafeInteger (getp selected ''runRevision'')) BadSelectorRevision) (\<lambda>_. Inr selected)))"

definition snapshotSubmitOptions :: "submit_config \<Rightarrow> jsval \<Rightarrow> submit_error + jsval" where
  "snapshotSubmitOptions cfg options = (case options of
     Obj ps \<Rightarrow> if set (map fst ps) \<subseteq> {''nativeCurrentCheck''}
       then (if propOf ps ''nativeCurrentCheck'' = Undefined then Inr (Obj [])
         else bindR (snapshotNativeCurrentCheck cfg (propOf ps ''nativeCurrentCheck'')) (\<lambda>v. Inr (Obj [(''nativeCurrentCheck'', v)])))
       else Inl BadSubmitOptions
   | Undefined \<Rightarrow> Inr (Obj [])
   | _ \<Rightarrow> Inl BadSubmitOptions)"

definition submitAdmission :: "submit_config \<Rightarrow> bool \<Rightarrow> jsval \<Rightarrow> string \<Rightarrow> jsval \<Rightarrow> http_transport \<Rightarrow> submit_error + submission" where
  "submitAdmission cfg callerOk handoff key options t =
     bindR (throwIf (\<not> callerOk) SubmitObsolete) (\<lambda>_.
     bindR (map_sum KeyRefused id (assertUuidV7IdempotencyKey (submitUuids cfg) key)) (\<lambda>_.
     bindR (requireCanonicalResponse handoff) (\<lambda>_.
     bindR (snapshotSubmitOptions cfg options) (\<lambda>selected.
     case finalizedHandoffs t key of
       None \<Rightarrow> Inr \<lparr>subKey = key, subHandoff = handoff, subOptions = selected\<rparr>
     | Some (h, os) \<Rightarrow>
         bindR (throwIf (submitJson cfg h \<noteq> submitJson cfg handoff) ResponseChanged) (\<lambda>_.
         bindR (throwIf (submitJson cfg os \<noteq> submitJson cfg selected) SelectorChanged) (\<lambda>_.
         Inr \<lparr>subKey = key, subHandoff = h, subOptions = os\<rparr>))))))"

definition submit :: "submit_config \<Rightarrow> bool \<Rightarrow> jsval \<Rightarrow> string \<Rightarrow> jsval \<Rightarrow> http_transport \<Rightarrow> http_transport" where
  "submit cfg callerOk handoff key options t =
    (case submitAdmission cfg callerOk handoff key options t of
       Inl e \<Rightarrow> t\<lparr>submitCalls := submitCalls t @ [SubmitReturned key (Inl e)]\<rparr>
     | Inr sub \<Rightarrow>
        (let t = t\<lparr>finalizedHandoffs := (finalizedHandoffs t)(key \<mapsto> (subHandoff sub, subOptions sub))\<rparr> in
         case replaying t key of
           Some n \<Rightarrow> t\<lparr>submitCalls := submitCalls t @ [JoinedSubmission key n]\<rparr>
         | None \<Rightarrow> t\<lparr>replaying := (replaying t)(key \<mapsto> length (submitCalls t)), submitCalls := submitCalls t @ [AwaitDraftId sub]\<rparr>))"

text \<open>A rejected submission leaves the map of promises, so that its key may be tried again.\<close>

definition rejected :: "string \<Rightarrow> submit_error \<Rightarrow> http_transport \<Rightarrow> http_transport \<times> submit_call" where
  "rejected key e t = (t\<lparr>replaying := (replaying t)(key := None)\<rparr>, SubmitReturned key (Inl e))"

definition submitOn ::
  "submission \<Rightarrow> http_transport \<Rightarrow> submit_error + 'a \<Rightarrow> ('a \<Rightarrow> http_transport \<times> submit_call) \<Rightarrow> http_transport \<times> submit_call" where
  "submitOn sub t r k = (case r of Inl e \<Rightarrow> rejected (subKey sub) e t | Inr x \<Rightarrow> k x)"

definition snapshotId :: "submission \<Rightarrow> jsval" where
  "snapshotId sub = (let i = getp (canonicalResponse (subHandoff sub)) ''id'' in if isString i then i else Undefined)"

definition configuredId :: "submit_config \<Rightarrow> submission \<Rightarrow> jsval" where
  "configuredId cfg sub = (case responseIdResolver cfg of None \<Rightarrow> Undefined
     | Some f \<Rightarrow> (case f (subHandoff sub) of Some s \<Rightarrow> Str s | None \<Rightarrow> Undefined))"

definition resolverGuard :: "submit_config \<Rightarrow> submission \<Rightarrow> submit_error + unit" where
  "resolverGuard cfg sub =
    (let answers = (case responseDataResolver cfg of None \<Rightarrow> Undefined | Some f \<Rightarrow> f (subHandoff sub)) in
     throwIf (answers \<noteq> Undefined \<and> submitJson cfg answers \<noteq> submitJson cfg (getp (canonicalResponse (subHandoff sub)) ''data'')
       \<or> configuredId cfg sub \<noteq> Undefined \<and> configuredId cfg sub \<noteq> snapshotId sub) ResolverConflict)"

definition submitBody :: "submit_config \<Rightarrow> submission \<Rightarrow> string option \<Rightarrow> jsval" where
  "submitBody cfg sub token = (let snapshot = canonicalResponse (subHandoff sub); check = getp (subOptions sub) ''nativeCurrentCheck'' in
     Obj ([(''response_id'', coalesce (configuredId cfg sub) (snapshotId sub)), (''response_data'', getp snapshot ''data''),
       (''canonical_response'', snapshot)] @ (if truthy check then [(''nativeCurrentCheck'', check)] else []) @
       [(''subject_ref'', coalesce (getp (subHandoff sub) ''subjectRef'') Null),
        (''party_ref'', coalesce (partyRefFromHandoff (subHandoff sub)) Null),
        (''anonymous_session_token'', case token of Some s \<Rightarrow> Str s | None \<Rightarrow> Null),
        (''signing_requested'', Bool (signingRequested cfg (subHandoff sub)))]))"

definition confirmationOf :: "submission \<Rightarrow> jsval \<Rightarrow> submit_error + http_confirmation" where
  "confirmationOf sub view =
     bindR (throwIf (view = Undefined \<or> view = Null) SubmitFailure) (\<lambda>_.
     bindR (throwIf (truthy (snapshotId sub) \<and> getp view ''response_id'' \<noteq> snapshotId sub) IdentityDiffers) (\<lambda>_.
     Inr \<lparr>recordKind = ''response'', confReference = getp view ''response_id'', confState = getp view ''status''\<rparr>))"

text \<open>One resumption: the guard of the caller is asked after each await of the submission.\<close>

definition resumeSubmit ::
  "submit_config \<Rightarrow> bool \<Rightarrow> submit_answer \<Rightarrow> http_transport \<Rightarrow> submit_call \<Rightarrow> http_transport \<times> submit_call" where
  "resumeSubmit cfg callerOk a t c =
    (let guard = throwIf (\<not> callerOk) SubmitObsolete in
     case (c, a) of
       (AwaitDraftId sub, DraftId r) \<Rightarrow> submitOn sub t
         (bindR r (\<lambda>d. bindR guard (\<lambda>_. bindR (throwIf (d = None \<or> d = Some []) NoDraftId) (\<lambda>_.
          bindR (resolverGuard cfg sub) (\<lambda>_. Inr (the d)))))) (\<lambda>d. (t, AwaitSubmitToken sub d))
     | (AwaitSubmitToken sub d, SubmitToken r) \<Rightarrow> submitOn sub t (bindR r (\<lambda>token. bindR guard (\<lambda>_. Inr token)))
         (\<lambda>token. (t, AwaitSubmitHeaders sub d token))
     | (AwaitSubmitHeaders sub d token, SubmitHeaders r) \<Rightarrow> submitOn sub t (bindR r (\<lambda>_. guard)) (\<lambda>_.
         (t\<lparr>posts := posts t @ [\<lparr>postKey = subKey sub, postDraftId = d, postHandoff = subHandoff sub,
            postOptions = subOptions sub, postBody = submitBody cfg sub token\<rparr>]\<rparr>, AwaitSubmitReply sub))
     | (AwaitSubmitReply sub, SubmitReply r) \<Rightarrow> submitOn sub t (bindR r (\<lambda>view. bindR guard (\<lambda>_. confirmationOf sub view)))
         (\<lambda>confirmation. (t, SubmitReturned (subKey sub) (Inr confirmation)))
     | (JoinedSubmission key n, SubmitSettled) \<Rightarrow>
         (case submitCalls t ! n of SubmitReturned _ r \<Rightarrow> (t, SubmitReturned key r) | _ \<Rightarrow> (t, c))
     | _ \<Rightarrow> (t, c))"

datatype submit_action =
    Submit jsval string jsval
  | ResumeSubmit nat submit_answer

definition submitStep :: "submit_config \<Rightarrow> bool \<Rightarrow> submit_action \<Rightarrow> http_transport \<Rightarrow> http_transport" where
  "submitStep cfg callerOk act t =
    (case act of
       Submit handoff key options \<Rightarrow> submit cfg callerOk handoff key options t
     | ResumeSubmit i a \<Rightarrow> if i < length (submitCalls t)
         then (let (t', c) = resumeSubmit cfg callerOk a t (submitCalls t ! i) in t'\<lparr>submitCalls := (submitCalls t)[i := c]\<rparr>)
         else t)"

definition newTransport :: http_transport where
  "newTransport = \<lparr>finalizedHandoffs = Map.empty, replaying = Map.empty, posts = [], submitCalls = []\<rparr>"

end
