(* ===== verification/Submit_Safety.thy ===== *)
theory Submit_Safety
  imports Http_Submit
begin

text \<open>
  What the submit transport guarantees however its calls overlap: the requests of one key are the
  same submission, a confirmed key is never sent again, and the confirmation names the response
  that was sent. Each rests on one invariant: a key has at most one call that may still send.
\<close>


section \<open>The invariant of the transport\<close>

definition liveSub :: "submit_call \<Rightarrow> submission option" where
  "liveSub c = (case c of AwaitDraftId sub \<Rightarrow> Some sub | AwaitSubmitToken sub d \<Rightarrow> Some sub
     | AwaitSubmitHeaders sub d token \<Rightarrow> Some sub | AwaitSubmitReply sub \<Rightarrow> Some sub | _ \<Rightarrow> None)"

definition callKey :: "submit_call \<Rightarrow> string" where
  "callKey c = (case c of JoinedSubmission k n \<Rightarrow> k | SubmitReturned k r \<Rightarrow> k
     | _ \<Rightarrow> (case liveSub c of Some sub \<Rightarrow> subKey sub | None \<Rightarrow> []))"

text \<open>The call behind a promise of the map: still running, or confirmed.\<close>

definition ownsKey :: "submit_call \<Rightarrow> bool" where
  "ownsKey c = (liveSub c \<noteq> None \<or> (\<exists>k x. c = SubmitReturned k (Inr x)))"

definition referenceOf :: "jsval \<Rightarrow> jsval" where
  "referenceOf h = snapshotId \<lparr>subKey = [], subHandoff = h, subOptions = Undefined\<rparr>"

definition liveOk :: "http_transport \<Rightarrow> nat \<Rightarrow> submit_call \<Rightarrow> bool" where
  "liveOk t i c = (\<forall>sub. liveSub c = Some sub \<longrightarrow> replaying t (subKey sub) = Some i \<and>
     finalizedHandoffs t (subKey sub) = Some (subHandoff sub, subOptions sub))"

definition joinOk :: "submit_call list \<Rightarrow> submit_call \<Rightarrow> bool" where
  "joinOk cs c = (\<forall>k n. c = JoinedSubmission k n \<longrightarrow> n < length cs \<and> callKey (cs ! n) = k)"

definition confirmedOk :: "http_transport \<Rightarrow> submit_call list \<Rightarrow> submit_call \<Rightarrow> bool" where
  "confirmedOk t cs c = (\<forall>k x. c = SubmitReturned k (Inr x) \<longrightarrow>
     (\<exists>n h os. replaying t k = Some n \<and> n < length cs \<and> cs ! n = c \<and> finalizedHandoffs t k = Some (h, os) \<and>
        (truthy (referenceOf h) \<longrightarrow> confReference x = referenceOf h)))"

definition replayOk :: "http_transport \<Rightarrow> submit_call list \<Rightarrow> bool" where
  "replayOk t cs = (\<forall>k n. replaying t k = Some n \<longrightarrow> n < length cs \<and> callKey (cs ! n) = k \<and> ownsKey (cs ! n))"

definition postsOk :: "submit_config \<Rightarrow> http_transport \<Rightarrow> bool" where
  "postsOk cfg t = (\<forall>p\<in>set (posts t). finalizedHandoffs t (postKey p) = Some (postHandoff p, postOptions p) \<and>
     (\<exists>token. postBody p = submitBody cfg \<lparr>subKey = postKey p, subHandoff = postHandoff p, subOptions = postOptions p\<rparr> token))"

definition transportInv :: "submit_config \<Rightarrow> http_transport \<Rightarrow> bool" where
  "transportInv cfg t = (let cs = submitCalls t in
     (\<forall>i<length cs. liveOk t i (cs ! i) \<and> joinOk cs (cs ! i) \<and> confirmedOk t cs (cs ! i)) \<and> replayOk t cs \<and> postsOk cfg t)"

lemma liveSub_simps [simp]:
  "liveSub (AwaitDraftId sub) = Some sub" "liveSub (AwaitSubmitToken sub d) = Some sub"
  "liveSub (AwaitSubmitHeaders sub d token) = Some sub" "liveSub (AwaitSubmitReply sub) = Some sub"
  "liveSub (JoinedSubmission k n) = None" "liveSub (SubmitReturned k r) = None"
  by (simp_all add: liveSub_def)

lemma callKey_simps [simp]:
  "callKey (JoinedSubmission k n) = k" "callKey (SubmitReturned k r) = k"
  by (simp_all add: callKey_def)

lemma callKey_live [simp]: "liveSub c = Some sub \<Longrightarrow> callKey c = subKey sub"
  by (cases c) (simp_all add: callKey_def)

lemma ownsKey_simps [simp]:
  "liveSub c = Some sub \<Longrightarrow> ownsKey c" "ownsKey (SubmitReturned k (Inr x))" "\<not> ownsKey (SubmitReturned k (Inl e))"
  "\<not> ownsKey (JoinedSubmission k n)"
  by (simp_all add: ownsKey_def)

lemma confirmation_reference:
  "confirmationOf sub view = Inr x \<Longrightarrow> truthy (referenceOf (subHandoff sub)) \<Longrightarrow> confReference x = referenceOf (subHandoff sub)"
  by (auto simp: confirmationOf_def referenceOf_def snapshotId_def bindR_Inr_iff)

text \<open>What one resumption does.\<close>

lemma submitOn_cases:
  assumes "submitOn sub t r k = (t', c')"
  obtains (rejects) e where "t' = t\<lparr>replaying := (replaying t)(subKey sub := None)\<rparr>" "c' = SubmitReturned (subKey sub) (Inl e)"
    | (goes) x where "r = Inr x" "k x = (t', c')"
  using assms by (cases r) (auto simp: submitOn_def rejected_def)

inductive outcome :: "submit_config \<Rightarrow> http_transport \<Rightarrow> submit_call \<Rightarrow> http_transport \<Rightarrow> submit_call \<Rightarrow> bool" for cfg t c where
  idle: "outcome cfg t c t c"
| moves: "liveSub c = Some sub \<Longrightarrow> liveSub c' = Some sub \<Longrightarrow> outcome cfg t c t c'"
| sends: "liveSub c = Some sub \<Longrightarrow> liveSub c' = Some sub \<Longrightarrow> postKey p = subKey sub \<Longrightarrow> postHandoff p = subHandoff sub \<Longrightarrow>
    postOptions p = subOptions sub \<Longrightarrow> postBody p = submitBody cfg sub token \<Longrightarrow> outcome cfg t c (t\<lparr>posts := posts t @ [p]\<rparr>) c'"
| rejects: "liveSub c = Some sub \<Longrightarrow>
    outcome cfg t c (t\<lparr>replaying := (replaying t)(subKey sub := None)\<rparr>) (SubmitReturned (subKey sub) (Inl e))"
| confirms: "liveSub c = Some sub \<Longrightarrow> truthy (referenceOf (subHandoff sub)) \<longrightarrow> confReference x = referenceOf (subHandoff sub) \<Longrightarrow>
    outcome cfg t c t (SubmitReturned (subKey sub) (Inr x))"
| joins: "c = JoinedSubmission key n \<Longrightarrow> submitCalls t ! n = SubmitReturned k r \<Longrightarrow> outcome cfg t c t (SubmitReturned key r)"

lemma submitOn_outcome:
  assumes "liveSub c = Some sub" "\<And>x. r = Inr x \<Longrightarrow> outcome cfg t c (fst (k x)) (snd (k x))"
  shows "outcome cfg t c (fst (submitOn sub t r k)) (snd (submitOn sub t r k))"
  using assms by (cases r) (auto simp: submitOn_def rejected_def intro: outcome.rejects)

lemma resume_outcome: "outcome cfg t c (fst (resumeSubmit cfg ok a t c)) (snd (resumeSubmit cfg ok a t c))"
proof (cases c)
  case (AwaitDraftId sub)
  then show ?thesis
    by (cases a) (simp_all add: resumeSubmit_def outcome.idle submitOn_outcome outcome.moves [where sub = sub])
next
  case (AwaitSubmitToken sub d)
  then show ?thesis
    by (cases a) (simp_all add: resumeSubmit_def outcome.idle submitOn_outcome outcome.moves [where sub = sub])
next
  case (AwaitSubmitHeaders sub d token)
  then show ?thesis
    by (cases a) (auto simp: resumeSubmit_def outcome.idle intro!: submitOn_outcome outcome.sends [where sub = sub])
next
  case (AwaitSubmitReply sub)
  then show ?thesis
    by (cases a) (auto simp: resumeSubmit_def outcome.idle bindR_Inr_iff intro!: submitOn_outcome outcome.confirms [where sub = sub] dest: confirmation_reference)
next
  case (JoinedSubmission k n)
  then show ?thesis
    by (cases a) (auto simp: resumeSubmit_def outcome.idle intro: outcome.joins split: submit_call.split)
next
  case (SubmitReturned k r)
  then show ?thesis by (cases a) (simp_all add: resumeSubmit_def outcome.idle)
qed

text \<open>The invariant after the call \<open>i\<close>, which was not confirmed, has become \<open>c'\<close>.\<close>

lemma inv_update:
  assumes inv: "transportInv cfg t" and i: "i < length (submitCalls t)"
    and "\<And>k x. submitCalls t ! i \<noteq> SubmitReturned k (Inr x)"
    and same: "finalizedHandoffs t' = finalizedHandoffs t" "\<And>k n. n \<noteq> i \<Longrightarrow> replaying t' k = Some n \<longleftrightarrow> replaying t k = Some n"
    and key: "callKey c' = callKey (submitCalls t ! i)"
    and owner: "\<And>k. replaying t' k = Some i \<Longrightarrow> ownsKey c' \<and> replaying t k = Some i"
    and new: "postsOk cfg t'" "liveOk t' i c'" "joinOk (submitCalls t) c'" "confirmedOk t' ((submitCalls t)[i := c']) c'"
  shows "transportInv cfg (t'\<lparr>submitCalls := (submitCalls t)[i := c']\<rparr>)"
proof -
  let ?cs = "submitCalls t" and ?cs' = "(submitCalls t)[i := c']"
  have keys: "callKey (?cs' ! n) = callKey (?cs ! n)" for n using key i by (cases "n = i") simp_all
  have old: "liveOk t j (?cs ! j)" "joinOk ?cs (?cs ! j)" "confirmedOk t ?cs (?cs ! j)" if "j < length ?cs" for j
    using inv that by (auto simp: transportInv_def Let_def)
  have join: "joinOk ?cs d \<Longrightarrow> joinOk ?cs' d" for d using keys by (simp add: joinOk_def)
  have live: "liveOk t' j (?cs ! j)" if "j < length ?cs" "j \<noteq> i" for j
    using old(1) [OF that(1)] same that(2) by (simp add: liveOk_def)
  have conf: "confirmedOk t' ?cs' (?cs ! j)" if "j < length ?cs" for j
    unfolding confirmedOk_def
  proof (intro allI impI)
    fix k x assume d: "?cs ! j = SubmitReturned k (Inr x)"
    from old(3) [OF that] obtain n h os where n: "replaying t k = Some n" "n < length ?cs" "?cs ! n = ?cs ! j"
        "finalizedHandoffs t k = Some (h, os)" "truthy (referenceOf h) \<longrightarrow> confReference x = referenceOf h"
      unfolding confirmedOk_def using d by blast
    moreover have "n \<noteq> i" using n(3) assms(3) d by metis
    ultimately show "\<exists>n h os. replaying t' k = Some n \<and> n < length ?cs' \<and> ?cs' ! n = ?cs ! j \<and> finalizedHandoffs t' k = Some (h, os) \<and>
        (truthy (referenceOf h) \<longrightarrow> confReference x = referenceOf h)"
      using same by (intro exI [of _ n] exI [of _ h] exI [of _ os]) simp
  qed
  have "liveOk t' j (?cs' ! j) \<and> joinOk ?cs' (?cs' ! j) \<and> confirmedOk t' ?cs' (?cs' ! j)" if "j < length ?cs" for j
    using live conf new join old(2) that i by (cases "j = i") simp_all
  moreover have "replayOk t' ?cs'"
    unfolding replayOk_def
  proof (intro allI impI)
    fix k n assume k: "replaying t' k = Some n"
    then have "replaying t k = Some n" using owner same(2) by (cases "n = i") blast+
    then have "n < length ?cs \<and> callKey (?cs ! n) = k \<and> ownsKey (?cs ! n)" using inv by (simp add: transportInv_def Let_def replayOk_def)
    then show "n < length ?cs' \<and> callKey (?cs' ! n) = k \<and> ownsKey (?cs' ! n)"
      using keys key owner k i by (cases "n = i") simp_all
  qed
  ultimately show ?thesis using new(1)
    by (simp add: transportInv_def liveOk_def confirmedOk_def replayOk_def postsOk_def)
qed

lemma inv_owner:
  assumes "transportInv cfg t" "i < length (submitCalls t)" "liveSub (submitCalls t ! i) = Some sub"
  shows "replaying t (subKey sub) = Some i" "finalizedHandoffs t (subKey sub) = Some (subHandoff sub, subOptions sub)"
  using assms by (auto simp: transportInv_def Let_def liveOk_def)

lemma inv_posts: "transportInv cfg t \<Longrightarrow> postsOk cfg t"
  by (simp add: transportInv_def Let_def)

lemma trivially_ok [simp]:
  "liveSub c = Some sub \<Longrightarrow> joinOk cs c" "liveSub c = Some sub \<Longrightarrow> confirmedOk t cs c"
  "liveOk t i (SubmitReturned k r)" "joinOk cs (SubmitReturned k r)" "confirmedOk t cs (SubmitReturned k (Inl e))"
  "liveOk t i (JoinedSubmission k n)" "confirmedOk t cs (JoinedSubmission k n)"
  by (auto simp: joinOk_def confirmedOk_def liveOk_def)

lemma submitBody_key:
  "submitBody cfg sub token = submitBody cfg \<lparr>subKey = k, subHandoff = subHandoff sub, subOptions = subOptions sub\<rparr> token"
  by (cases "responseIdResolver cfg") (simp_all add: submitBody_def configuredId_def snapshotId_def)

lemma nth_update_same: "n < length xs \<Longrightarrow> xs ! n = y \<Longrightarrow> (xs[i := y]) ! n = y"
  by (cases "n = i") simp_all

lemma inv_resume:
  assumes inv: "transportInv cfg t" and i: "i < length (submitCalls t)" and "outcome cfg t (submitCalls t ! i) t' c'"
  shows "transportInv cfg (t'\<lparr>submitCalls := (submitCalls t)[i := c']\<rparr>)"
  using assms(3)
proof cases
  case idle
  then show ?thesis using inv by simp
next
  case (moves sub)
  note o = inv_owner [OF inv i moves(2)]
  show ?thesis using moves o inv_posts [OF inv]
    by (intro inv_update [OF inv i]) (auto simp: liveOk_def)
next
  case (sends sub p)
  note o = inv_owner [OF inv i sends(2)]
  obtain tok where "postBody p = submitBody cfg sub tok" using sends(7) by blast
  then have "postBody p = submitBody cfg \<lparr>subKey = postKey p, subHandoff = postHandoff p, subOptions = postOptions p\<rparr> tok"
    unfolding submitBody_key [of cfg sub tok "postKey p"] sends(5,6) .
  then have posts: "postsOk cfg t'" using inv_posts [OF inv] sends o(2) by (auto simp: postsOk_def)
  show ?thesis using sends o posts
    by (intro inv_update [OF inv i]) (auto simp: liveOk_def)
next
  case (rejects sub e)
  note o = inv_owner [OF inv i rejects(3)]
  have only: "replaying t k = Some i \<Longrightarrow> k = subKey sub" for k
    using inv callKey_live [OF rejects(3)] by (auto simp: transportInv_def Let_def replayOk_def)
  have posts: "postsOk cfg t'" using inv_posts [OF inv] by (simp add: rejects(1) postsOk_def)
  have "replaying t' k \<noteq> Some i" for k using only [of k] by (auto simp: rejects(1))
  moreover have "replaying t' k = Some n \<longleftrightarrow> replaying t k = Some n" if "n \<noteq> i" for k n
    using o(1) that by (auto simp: rejects(1))
  ultimately show ?thesis
    by (intro inv_update [OF inv i]) (use rejects(3) posts in \<open>auto simp: rejects(1,2)\<close>)
next
  case (confirms sub x)
  note o = inv_owner [OF inv i confirms(3)]
  show ?thesis using confirms o inv_posts [OF inv] i
    by (intro inv_update [OF inv i]) (auto simp: confirmedOk_def)
next
  case (joins key n k r)
  have n: "n < length (submitCalls t)" "k = key" using inv i joins(3,4)
    by (auto simp: transportInv_def Let_def joinOk_def)
  have "confirmedOk t ((submitCalls t)[i := c']) c'"
  proof (cases r)
    case (Inr x)
    have "confirmedOk t (submitCalls t) (submitCalls t ! n)" using inv n by (simp add: transportInv_def Let_def)
    then show ?thesis using Inr joins n by (auto simp: confirmedOk_def nth_update_same)
  qed (simp add: joins)
  moreover have "replaying t k \<noteq> Some i" for k
    using inv joins(3) by (fastforce simp: transportInv_def Let_def replayOk_def)
  ultimately show ?thesis using joins inv_posts [OF inv]
    by (intro inv_update [OF inv i]) auto
qed

lemma inv_append:
  assumes inv: "transportInv cfg t"
    and fin: "\<And>k x. finalizedHandoffs t k = Some x \<Longrightarrow> finalizedHandoffs t' k = Some x"
    and rep: "\<And>k n. replaying t k = Some n \<Longrightarrow> replaying t' k = Some n"
      "\<And>k n. replaying t' k = Some n \<Longrightarrow> replaying t k = Some n \<or> n = length (submitCalls t) \<and> callKey c = k \<and> ownsKey c"
    and new: "posts t' = posts t" "liveOk t' (length (submitCalls t)) c" "joinOk (submitCalls t) c" "\<And>k x. c \<noteq> SubmitReturned k (Inr x)"
  shows "transportInv cfg (t'\<lparr>submitCalls := submitCalls t @ [c]\<rparr>)"
proof -
  let ?cs = "submitCalls t" and ?cs' = "submitCalls t @ [c]"
  have old: "liveOk t j (?cs ! j)" "joinOk ?cs (?cs ! j)" "confirmedOk t ?cs (?cs ! j)" if "j < length ?cs" for j
    using inv that by (auto simp: transportInv_def Let_def)
  have join: "joinOk ?cs d \<Longrightarrow> joinOk ?cs' d" for d by (auto simp: joinOk_def nth_append)
  have live: "liveOk t j d \<Longrightarrow> liveOk t' j d" for j d using fin rep by (simp add: liveOk_def)
  have conf: "confirmedOk t ?cs d \<Longrightarrow> confirmedOk t' ?cs' d" for d
    unfolding confirmedOk_def using fin rep(1) by (fastforce simp: nth_append)
  have "confirmedOk t' ?cs' c" using new(4) by (simp add: confirmedOk_def)
  then have "liveOk t' j (?cs' ! j) \<and> joinOk ?cs' (?cs' ! j) \<and> confirmedOk t' ?cs' (?cs' ! j)" if "j < Suc (length ?cs)" for j
    using live conf join old that new by (cases "j = length ?cs") (simp_all add: nth_append)
  moreover have "replayOk t' ?cs'"
    using inv rep(2) by (fastforce simp: transportInv_def Let_def replayOk_def nth_append)
  moreover have "postsOk cfg t'" using inv_posts [OF inv] fin new(1) by (auto simp: postsOk_def)
  ultimately show ?thesis by (simp add: transportInv_def liveOk_def confirmedOk_def replayOk_def postsOk_def)
qed

lemma admission_keeps:
  "submitAdmission cfg ok handoff key options t = Inr sub \<Longrightarrow> subKey sub = key \<and>
     (\<forall>x. finalizedHandoffs t key = Some x \<longrightarrow> x = (subHandoff sub, subOptions sub))"
  by (auto simp: submitAdmission_def bindR_Inr_iff split: option.splits)

lemma inv_submit:
  assumes inv: "transportInv cfg t"
  shows "transportInv cfg (submit cfg ok handoff key options t)"
proof (cases "submitAdmission cfg ok handoff key options t")
  case (Inl e)
  then show ?thesis using inv_append [OF inv, of t] by (simp add: submit_def)
next
  case (Inr sub)
  note a = admission_keeps [OF Inr]
  let ?t = "t\<lparr>finalizedHandoffs := (finalizedHandoffs t)(key \<mapsto> (subHandoff sub, subOptions sub))\<rparr>"
  show ?thesis
  proof (cases "replaying t key")
    case None
    have "transportInv cfg (?t\<lparr>replaying := (replaying t)(key \<mapsto> length (submitCalls t)), submitCalls := submitCalls t @ [AwaitDraftId sub]\<rparr>)"
      using a None by (intro inv_append [OF inv]) (auto simp: liveOk_def split: if_splits)
    then show ?thesis using Inr None by (simp add: submit_def)
  next
    case (Some n)
    then have "n < length (submitCalls t) \<and> callKey (submitCalls t ! n) = key"
      using inv by (auto simp: transportInv_def Let_def replayOk_def)
    then have "transportInv cfg (?t\<lparr>submitCalls := submitCalls t @ [JoinedSubmission key n]\<rparr>)"
      using a by (intro inv_append [OF inv]) (auto simp: joinOk_def split: if_splits)
    then show ?thesis using Inr Some by (simp add: submit_def)
  qed
qed

inductive submitReach :: "submit_config \<Rightarrow> http_transport \<Rightarrow> bool" for cfg where
  submit_init: "submitReach cfg newTransport"
| submit_step: "submitReach cfg t \<Longrightarrow> submitReach cfg (submitStep cfg ok act t)"

lemma submitStep_resume:
  "submitStep cfg ok (ResumeSubmit i a) t = (if i < length (submitCalls t)
     then (fst (resumeSubmit cfg ok a t (submitCalls t ! i)))\<lparr>submitCalls := (submitCalls t)[i := snd (resumeSubmit cfg ok a t (submitCalls t ! i))]\<rparr>
     else t)"
  by (simp add: submitStep_def split: prod.split)

lemma submitReach_inv: "submitReach cfg t \<Longrightarrow> transportInv cfg t"
proof (induction rule: submitReach.induct)
  case submit_init
  then show ?case by (simp add: newTransport_def transportInv_def replayOk_def postsOk_def)
next
  case (submit_step t ok act)
  then show ?case
    by (cases act) (simp add: submitStep_def inv_submit, simp add: submitStep_resume inv_resume resume_outcome)
qed

section \<open>Retries and confirmations\<close>

lemma submitReach_posts:
  assumes "submitReach cfg t" "p \<in> set (posts t)"
  shows "finalizedHandoffs t (postKey p) = Some (postHandoff p, postOptions p)"
    "\<exists>token. postBody p = submitBody cfg \<lparr>subKey = postKey p, subHandoff = postHandoff p, subOptions = postOptions p\<rparr> token"
  using submitReach_inv [OF assms(1)] assms(2) by (auto simp: transportInv_def Let_def postsOk_def)

lemma submitBody_token:
  "f \<noteq> ''anonymous_session_token'' \<Longrightarrow> getp (submitBody cfg sub a) f = getp (submitBody cfg sub b) f"
  by (simp add: submitBody_def Let_def propOf_def map_add_def split: option.split)

text \<open>C8. Whatever is retried and however the calls overlap, two requests sent under one idempotency key carry
  the same body but for the session token: the response, its data, the identities, the native
  selector and the signing flag are those of the first submission of the key.\<close>

theorem retried_submission_is_the_same:
  assumes "submitReach cfg t" "p \<in> set (posts t)" "q \<in> set (posts t)" "postKey p = postKey q"
    and "f \<noteq> ''anonymous_session_token''"
  shows "getp (postBody p) f = getp (postBody q) f"
proof -
  have "(postHandoff p, postOptions p) = (postHandoff q, postOptions q)"
    using submitReach_posts(1) [OF assms(1,2)] submitReach_posts(1) [OF assms(1,3)] assms(4) by simp
  then show ?thesis
    using submitReach_posts(2) [OF assms(1,2)] submitReach_posts(2) [OF assms(1,3)] assms(4) submitBody_token [OF assms(5)] by auto
qed

inductive submitRuns :: "submit_config \<Rightarrow> http_transport \<Rightarrow> http_transport \<Rightarrow> bool" for cfg t where
  runs_none: "submitRuns cfg t t"
| runs_step: "submitRuns cfg t s \<Longrightarrow> submitRuns cfg t (submitStep cfg ok act s)"

lemma submitRuns_reach: "submitRuns cfg t s \<Longrightarrow> submitReach cfg t \<Longrightarrow> submitReach cfg s"
  by (induction rule: submitRuns.induct) (auto intro: submit_step)

lemma submit_appends:
  "\<exists>c. submitCalls (submit cfg ok handoff key options t) = submitCalls t @ [c]" "posts (submit cfg ok handoff key options t) = posts t"
  by (simp_all add: submit_def Let_def split: sum.split option.split)

lemma confirmed_owner:
  assumes "submitReach cfg t" "SubmitReturned k (Inr x) \<in> set (submitCalls t)"
  obtains n h os where "replaying t k = Some n" "n < length (submitCalls t)" "submitCalls t ! n = SubmitReturned k (Inr x)"
    "finalizedHandoffs t k = Some (h, os)" "truthy (referenceOf h) \<longrightarrow> confReference x = referenceOf h"
proof -
  obtain i where i: "i < length (submitCalls t)" "submitCalls t ! i = SubmitReturned k (Inr x)"
    using assms(2) by (auto simp: in_set_conv_nth)
  then have "confirmedOk t (submitCalls t) (SubmitReturned k (Inr x))"
    using submitReach_inv [OF assms(1)] unfolding transportInv_def Let_def by metis
  then show ?thesis using that unfolding confirmedOk_def by blast
qed

lemma confirmed_step:
  assumes "submitReach cfg t" "SubmitReturned k (Inr x) \<in> set (submitCalls t)"
  shows "SubmitReturned k (Inr x) \<in> set (submitCalls (submitStep cfg ok act t))"
    "filter (\<lambda>p. postKey p = k) (posts (submitStep cfg ok act t)) = filter (\<lambda>p. postKey p = k) (posts t)"
proof -
  obtain n where n: "replaying t k = Some n" "n < length (submitCalls t)" "submitCalls t ! n = SubmitReturned k (Inr x)"
    using assms by (rule confirmed_owner)
  have "SubmitReturned k (Inr x) \<in> set (submitCalls (submitStep cfg ok act t)) \<and>
    filter (\<lambda>p. postKey p = k) (posts (submitStep cfg ok act t)) = filter (\<lambda>p. postKey p = k) (posts t)"
  proof (cases act)
    case (Submit handoff key options)
    obtain c where "submitCalls (submit cfg ok handoff key options t) = submitCalls t @ [c]" using submit_appends(1) by blast
    then show ?thesis using Submit assms(2) by (simp add: submitStep_def submit_appends(2))
  next
    case (ResumeSubmit i a)
    show ?thesis
    proof (cases "i < length (submitCalls t)")
      case True
      obtain t' c' where r: "resumeSubmit cfg ok a t (submitCalls t ! i) = (t', c')" by fastforce
      then have o: "outcome cfg t (submitCalls t ! i) t' c'" using resume_outcome [of cfg t "submitCalls t ! i" ok a] by simp
      have stays: "SubmitReturned k (Inr x) \<in> set ((submitCalls t)[i := c'])"
      proof (cases "i = n")
        case True
        have "outcome cfg t (SubmitReturned k (Inr x)) t' c'" using o n(3) True by simp
        then have "c' = SubmitReturned k (Inr x)" by cases simp_all
        then show ?thesis using n(2) True by (simp add: set_update_memI)
      next
        case False
        then have "(submitCalls t)[i := c'] ! n = SubmitReturned k (Inr x)" using n(3) by simp
        then show ?thesis using n(2) by (metis length_list_update nth_mem)
      qed
      have "filter (\<lambda>p. postKey p = k) (posts t') = filter (\<lambda>p. postKey p = k) (posts t)"
        using o
      proof cases
        case (sends sub p)
        have "replaying t (subKey sub) = Some i" by (rule inv_owner [OF submitReach_inv [OF assms(1)] True sends(2)])
        then have "postKey p \<noteq> k" using n(1,3) sends(2,4) by auto
        then show ?thesis by (simp add: sends(1))
      qed simp_all
      then show ?thesis using stays ResumeSubmit True r by (simp add: submitStep_resume)
    qed (use ResumeSubmit assms(2) in \<open>simp add: submitStep_resume\<close>)
  qed
  then show "SubmitReturned k (Inr x) \<in> set (submitCalls (submitStep cfg ok act t))"
    "filter (\<lambda>p. postKey p = k) (posts (submitStep cfg ok act t)) = filter (\<lambda>p. postKey p = k) (posts t)" by blast+
qed

text \<open>C9. A confirmed submission is not sent again: once a call under a key has returned its confirmation, no
  later call or resumption sends a request under that key.\<close>

theorem confirmed_submission_not_resent:
  assumes "submitReach cfg t" "SubmitReturned k (Inr x) \<in> set (submitCalls t)" "submitRuns cfg t s"
  shows "filter (\<lambda>p. postKey p = k) (posts s) = filter (\<lambda>p. postKey p = k) (posts t)"
proof -
  have "SubmitReturned k (Inr x) \<in> set (submitCalls s) \<and> filter (\<lambda>p. postKey p = k) (posts s) = filter (\<lambda>p. postKey p = k) (posts t)"
    using assms(3)
  proof induction
    case (runs_step s ok act)
    then show ?case using confirmed_step [OF submitRuns_reach [OF runs_step.hyps assms(1)]] by metis
  qed (simp add: assms(2))
  then show ?thesis by simp
qed

text \<open>C34. A confirmation under a key names the response that was sent: its reference is the identity of the
  canonical response of every request sent under that key that carries one, a non-empty text \<open>id\<close>.
  (A response without an id is sent too; the reference of its confirmation is then the server's, not
  compared with anything.)\<close>

theorem confirmation_names_the_response:
  assumes "submitReach cfg t" "SubmitReturned k (Inr x) \<in> set (submitCalls t)" "p \<in> set (posts t)" "postKey p = k"
    and "isNonEmptyString (getp (getp (postBody p) ''canonical_response'') ''id'')"
  shows "confReference x = getp (getp (postBody p) ''canonical_response'') ''id''"
proof -
  obtain n h os where h: "finalizedHandoffs t k = Some (h, os)" "truthy (referenceOf h) \<longrightarrow> confReference x = referenceOf h"
    using assms(1,2) by (rule confirmed_owner)
  obtain token where "postBody p = submitBody cfg \<lparr>subKey = postKey p, subHandoff = h, subOptions = os\<rparr> token"
    using submitReach_posts [OF assms(1,3)] h(1) assms(4) by auto
  then have "getp (getp (postBody p) ''canonical_response'') ''id'' = getp (canonicalResponse h) ''id''"
    by (simp add: submitBody_def Let_def propOf_def)
  moreover from this have "referenceOf h = getp (canonicalResponse h) ''id''"
    using assms(5) by (auto simp: referenceOf_def snapshotId_def Let_def isNonEmptyString_iff)
  ultimately show ?thesis using h(2) assms(5) by (auto simp: isNonEmptyString_iff)
qed

section \<open>Concrete runs\<close>

text \<open>Two submissions of one key: the first is refused by its reply, the second is confirmed.\<close>

definition sampleSubmit :: submit_config where
  "sampleSubmit = \<lparr>submitUuids = rfcLib, submitJson = (\<lambda>v. Some (case v of Obj ps \<Rightarrow> concat (map fst ps) | _ \<Rightarrow> [])),
     responseIdResolver = None, responseDataResolver = None, signingRequested = (\<lambda>h. False),
     snapshotFiniteJson = Inr, selectorSchema = isPlainObject\<rparr>"

definition sampleResponse :: jsval where
  "sampleResponse = Obj [(''id'', Str ''r-1''), (''data'', Obj [(''name'', Str ''Ada'')])]"

definition sampleHandoff :: jsval where
  "sampleHandoff = Obj [(''extensions'', Obj [(''x-formspec-response'', sampleResponse)])]"

definition sampleSubmitKey :: string where
  "sampleSubmitKey = ''01890000-0000-7000-8000-000000000001''"

definition sentAs :: "nat \<Rightarrow> string \<Rightarrow> submit_action list" where
  "sentAs i tok = [ResumeSubmit i (DraftId (Inr (Some ''d-1''))), ResumeSubmit i (SubmitToken (Inr (Some tok))),
     ResumeSubmit i (SubmitHeaders (Inr ()))]"

definition submitRun :: "submit_action list \<Rightarrow> http_transport \<Rightarrow> http_transport" where
  "submitRun acts t = fold (submitStep sampleSubmit True) acts t"

definition retryRun :: "submit_action list" where
  "retryRun = Submit sampleHandoff sampleSubmitKey Undefined # sentAs 0 ''t-1'' @
     ResumeSubmit 0 (SubmitReply (Inl SubmitFailure)) # Submit sampleHandoff sampleSubmitKey (Obj []) # sentAs 1 ''t-2''"

definition confirmRun :: "submit_action list" where
  "confirmRun = retryRun @ [ResumeSubmit 1 (SubmitReply (Inr (Obj [(''response_id'', Str ''r-1''), (''status'', Str ''accepted'')])))]"

lemma submitRun_reach: "submitReach sampleSubmit t \<Longrightarrow> submitReach sampleSubmit (submitRun acts t)"
  by (induction acts arbitrary: t) (simp_all add: submitRun_def submit_step)

lemma submitRun_runs: "submitRuns sampleSubmit t s \<Longrightarrow> submitRuns sampleSubmit t (submitRun acts s)"
  by (induction acts arbitrary: s) (simp_all add: submitRun_def runs_step)

lemma retry_posts:
  "length (posts (submitRun retryRun newTransport)) = 2"
  "map postKey (posts (submitRun retryRun newTransport)) = [sampleSubmitKey, sampleSubmitKey]"
  "map (\<lambda>p. getp (postBody p) ''anonymous_session_token'') (posts (submitRun retryRun newTransport)) = [Str ''t-1'', Str ''t-2'']"
  by code_simp+

theorem retried_submission_is_the_same_witness:
  "\<exists>p q. posts (submitRun retryRun newTransport) = [p, q] \<and> getp (postBody p) ''response_data'' = getp (postBody q) ''response_data'' \<and>
     getp (postBody p) ''anonymous_session_token'' \<noteq> getp (postBody q) ''anonymous_session_token''"
proof -
  obtain p q where pq: "posts (submitRun retryRun newTransport) = [p, q]"
    using retry_posts(1) by (auto simp: length_Suc_conv numeral_2_eq_2)
  have "submitReach sampleSubmit (submitRun retryRun newTransport)" by (rule submitRun_reach) (rule submit_init)
  from retried_submission_is_the_same [OF this, of p q "''response_data''"] pq retry_posts(2,3) show ?thesis by auto
qed

lemma confirm_returns:
  "submitCalls (submitRun confirmRun newTransport) ! 1 =
     SubmitReturned sampleSubmitKey (Inr \<lparr>recordKind = ''response'', confReference = Str ''r-1'', confState = Str ''accepted''\<rparr>)"
  "length (submitCalls (submitRun confirmRun newTransport)) = 2"
  "length (posts (submitRun confirmRun newTransport)) = 2"
  "list_all (\<lambda>p. postKey p = sampleSubmitKey \<and> isNonEmptyString (getp (getp (postBody p) ''canonical_response'') ''id''))
     (posts (submitRun confirmRun newTransport))"
  by code_simp+

lemma confirm_reached:
  "submitReach sampleSubmit (submitRun confirmRun newTransport)"
  "SubmitReturned sampleSubmitKey (Inr \<lparr>recordKind = ''response'', confReference = Str ''r-1'', confState = Str ''accepted''\<rparr>)
     \<in> set (submitCalls (submitRun confirmRun newTransport))"
  using confirm_returns nth_mem [of 1 "submitCalls (submitRun confirmRun newTransport)"]
  by (simp_all add: submitRun_reach submit_init)

theorem confirmed_submission_not_resent_witness:
  "length (posts (submitRun (Submit sampleHandoff sampleSubmitKey Undefined # sentAs 2 ''t-3'') (submitRun confirmRun newTransport))) \<ge> 2 \<and>
   filter (\<lambda>p. postKey p = sampleSubmitKey)
     (posts (submitRun (Submit sampleHandoff sampleSubmitKey Undefined # sentAs 2 ''t-3'') (submitRun confirmRun newTransport))) =
   filter (\<lambda>p. postKey p = sampleSubmitKey) (posts (submitRun confirmRun newTransport))"
proof -
  have "length (posts (submitRun (Submit sampleHandoff sampleSubmitKey Undefined # sentAs 2 ''t-3'') (submitRun confirmRun newTransport))) \<ge> 2"
    by code_simp
  then show ?thesis
    using confirmed_submission_not_resent [OF confirm_reached submitRun_runs [OF runs_none]] by simp
qed

theorem confirmation_names_the_response_witness:
  "\<exists>p\<in>set (posts (submitRun confirmRun newTransport)).
     Str ''r-1'' = getp (getp (postBody p) ''canonical_response'') ''id''"
proof -
  obtain p where p: "p \<in> set (posts (submitRun confirmRun newTransport))"
    using confirm_returns(3) by (metis length_0_conv list.set_intros(1) neq_Nil_conv zero_neq_numeral)
  then show ?thesis
    using confirmation_names_the_response [OF confirm_reached p] confirm_returns(4) by (auto simp: list_all_iff)
qed

end
