(* ===== verification/Anonymous_Session.thy ===== *)
theory Anonymous_Session
  imports Draft_Bindings Identity
begin

text \<open>
  The anonymous sessions of a browser tab, \<open>AnonymousSessionBridge\<close> of
  \<open>src/adapters/http/anonymous-session.ts\<close>, as an interleaving of its calls. A call is the await it
  is suspended at. A slot is an object of a heap, because a clear detaches a slot that calls in
  flight still hold; a promise of an issuance is the number of the call that made it, and
  \<open>settled\<close> has its outcome. The form-id resolver and \<open>Date.parse\<close> are parameters, the clock and the
  replies of the server come with each resumption.
\<close>


section \<open>State and calls\<close>

datatype session_error =
    ContextRefused | ContextCleared | ClearedWhileIssued | StoredGrantInvalid | GrantStorage draft_error
  | NearingExpiration | NoOwnerGrant | IssueFailed | BadSessionResponse | NoSessionId | BadAuthentication
  | SubjectMismatch

record anon_session =
  sessionId :: string
  sessionToken :: string
  sessionSubject :: string
  sessionFormId :: string
  sessionExpiresAt :: string

record session_config =
  grantMetadata :: "metadata_config option"
  sessionFormResolver :: "string \<Rightarrow> string option \<Rightarrow> string"
  dateParse :: "string \<Rightarrow> int option"

record session_slot =
  slotSession :: "anon_session option"
  slotInFlight :: "nat option"

text \<open>What the caller wants: the session, or its token for a subject it names.\<close>

datatype session_use = WantsSession | WantsToken "string option"

datatype session_answer = GaveSession anon_session | GaveToken "string option"

record session_request =
  rqForm :: string
  rqGeneration :: nat
  rqExisting :: bool
  rqUse :: session_use

datatype session_call =
    AwaitContext session_request
  | AwaitIssue session_request nat
  | AwaitOwnIssue session_request nat
  | JoinedIssue session_request nat
  | SessionDone string "session_error + session_answer"
  | ClearPending string bool nat
  | ClearDone string "session_error + unit"

record session_bridge =
  sessionSlots :: "string \<rightharpoonup> nat"
  slotHeap :: "session_slot list"
  generations :: "string \<Rightarrow> nat"
  grantStorage :: storage
  settled :: "nat \<rightharpoonup> session_error + anon_session"
  sessionCalls :: "session_call list"

datatype bridge_answer = ContextChecked "session_error + unit" | IssueReply "session_error + jsval" | SettledIssue


section \<open>Sessions\<close>

definition EXPIRY_SKEW_MS :: int where
  "EXPIRY_SKEW_MS = 60000"

definition expiresSoon :: "session_config \<Rightarrow> int \<Rightarrow> string \<Rightarrow> bool" where
  "expiresSoon cfg now expiry = (case dateParse cfg expiry of None \<Rightarrow> True | Some t \<Rightarrow> t - now \<le> EXPIRY_SKEW_MS)"

definition isSession :: "session_config \<Rightarrow> jsval \<Rightarrow> string \<Rightarrow> bool" where
  "isSession cfg v formId = (isPlainObject v \<and>
     isString (getp v ''sessionId'') \<and> trim (strOf (getp v ''sessionId'')) \<noteq> [] \<and>
     isString (getp v ''sessionToken'') \<and> trim (strOf (getp v ''sessionToken'')) \<noteq> [] \<and>
     isString (getp v ''subjectRef'') \<and> startsWith ''anon:'' (strOf (getp v ''subjectRef'')) \<and>
     length (strOf (getp v ''subjectRef'')) > 5 \<and>
     getp v ''formId'' = Str formId \<and> isString (getp v ''expiresAt'') \<and>
     dateParse cfg (strOf (getp v ''expiresAt'')) \<noteq> None)"

definition readSession :: "jsval \<Rightarrow> anon_session" where
  "readSession v = \<lparr>sessionId = strOf (getp v ''sessionId''), sessionToken = strOf (getp v ''sessionToken''),
     sessionSubject = strOf (getp v ''subjectRef''), sessionFormId = strOf (getp v ''formId''),
     sessionExpiresAt = strOf (getp v ''expiresAt'')\<rparr>"

definition sessionJson :: "anon_session \<Rightarrow> jsval" where
  "sessionJson s = Obj [(''sessionId'', Str (sessionId s)), (''sessionToken'', Str (sessionToken s)),
     (''subjectRef'', Str (sessionSubject s)), (''formId'', Str (sessionFormId s)), (''expiresAt'', Str (sessionExpiresAt s))]"

definition grantSlot :: "string \<Rightarrow> string" where
  "grantSlot formId = ''grant:'' @ formId"

definition savedSession :: "session_config \<Rightarrow> string \<Rightarrow> storage \<Rightarrow> session_error + anon_session option" where
  "savedSession cfg formId st = (case grantMetadata cfg of
     None \<Rightarrow> Inr None
   | Some md \<Rightarrow> bindR (map_sum GrantStorage id (metaRead md st (grantSlot formId))) (\<lambda>saved.
       if saved = Undefined then Inr None
       else bindR (throwIf (\<not> isSession cfg saved formId) StoredGrantInvalid) (\<lambda>_. Inr (Some (readSession saved)))))"

definition storeGrant :: "session_config \<Rightarrow> string \<Rightarrow> anon_session \<Rightarrow> storage \<Rightarrow> session_error + storage" where
  "storeGrant cfg formId s st = (case grantMetadata cfg of
     None \<Rightarrow> Inr st | Some md \<Rightarrow> map_sum GrantStorage id (metaWrite md st (grantSlot formId) (sessionJson s)))"

definition dropGrant :: "session_config \<Rightarrow> string \<Rightarrow> storage \<Rightarrow> session_error + storage" where
  "dropGrant cfg formId st = (case grantMetadata cfg of
     None \<Rightarrow> Inr st | Some md \<Rightarrow> map_sum GrantStorage id (metaRemove md st (grantSlot formId)))"

definition issueSession :: "session_config \<Rightarrow> int \<Rightarrow> string \<Rightarrow> jsval \<Rightarrow> session_error + anon_session" where
  "issueSession cfg now formId view =
     bindR (throwIf (\<not> isObjectType view) BadSessionResponse) (\<lambda>_.
     bindR (throwIf (\<not> isString (getp view ''session_id'') \<or> trim (strOf (getp view ''session_id'')) = []) NoSessionId) (\<lambda>_.
     bindR (throwIf (\<not> isString (getp view ''session_token'') \<or> trim (strOf (getp view ''session_token'')) = []
       \<or> \<not> isString (getp view ''subject_ref'') \<or> \<not> startsWith ''anon:'' (strOf (getp view ''subject_ref''))
       \<or> length (strOf (getp view ''subject_ref'')) \<le> 5 \<or> getp view ''form_id'' \<noteq> Str formId
       \<or> \<not> isString (getp view ''expires_at'')
       \<or> (case dateParse cfg (strOf (getp view ''expires_at'')) of None \<Rightarrow> True | Some t \<Rightarrow> t \<le> now)) BadAuthentication) (\<lambda>_.
     Inr \<lparr>sessionId = strOf (getp view ''session_id''), sessionToken = strOf (getp view ''session_token''),
       sessionSubject = strOf (getp view ''subject_ref''), sessionFormId = formId,
       sessionExpiresAt = strOf (getp view ''expires_at'')\<rparr>)))"

definition assertSubjectMatches :: "string \<Rightarrow> string option \<Rightarrow> session_error + unit" where
  "assertSubjectMatches serverSubject requested =
     throwIf (case requested of Some s \<Rightarrow> s \<noteq> [] \<and> s \<noteq> serverSubject | None \<Rightarrow> False) SubjectMismatch"

definition deliver :: "session_use \<Rightarrow> session_error + anon_session \<Rightarrow> session_error + session_answer" where
  "deliver use r = bindR r (\<lambda>s. case use of
     WantsSession \<Rightarrow> Inr (GaveSession s)
   | WantsToken requested \<Rightarrow> bindR (assertSubjectMatches (sessionSubject s) requested) (\<lambda>_. Inr (GaveToken (Some (sessionToken s)))))"

definition doneWith :: "session_request \<Rightarrow> session_error + anon_session \<Rightarrow> session_call" where
  "doneWith rq r = SessionDone (rqForm rq) (deliver (rqUse rq) r)"


section \<open>Calls\<close>

definition sessionRequest :: "session_config \<Rightarrow> string \<Rightarrow> string option \<Rightarrow> bool \<Rightarrow> session_use \<Rightarrow> session_bridge \<Rightarrow> session_request" where
  "sessionRequest cfg url version existing use b = (let formId = sessionFormResolver cfg url version in
     \<lparr>rqForm = formId, rqGeneration = generations b formId, rqExisting = existing, rqUse = use\<rparr>)"

definition sessionForForm :: "session_config \<Rightarrow> string \<Rightarrow> string option \<Rightarrow> bool \<Rightarrow> session_bridge \<Rightarrow> session_call" where
  "sessionForForm cfg url version existing b = AwaitContext (sessionRequest cfg url version existing WantsSession b)"

text \<open>\<open>tokenForDraftKey\<close> and \<open>tokenForHandoff\<close>: an owner that is not anonymous has no anonymous token.\<close>

definition tokenFor :: "session_config \<Rightarrow> string \<Rightarrow> string option \<Rightarrow> string option \<Rightarrow> bool \<Rightarrow> session_bridge \<Rightarrow> session_call" where
  "tokenFor cfg url version subject existing b =
    (if case subject of Some s \<Rightarrow> s \<noteq> [] \<and> \<not> startsWith ''anon:'' s | None \<Rightarrow> False
     then SessionDone (sessionFormResolver cfg url version) (Inr (GaveToken None))
     else AwaitContext (sessionRequest cfg url version existing (WantsToken subject) b))"

text \<open>The slot of a form: the one of the map, or a new one with the stored grant.\<close>

definition slotFor :: "session_config \<Rightarrow> string \<Rightarrow> session_bridge \<Rightarrow> session_error + (nat \<times> session_bridge)" where
  "slotFor cfg formId b = (case sessionSlots b formId of
     Some k \<Rightarrow> Inr (k, b)
   | None \<Rightarrow> bindR (savedSession cfg formId (grantStorage b)) (\<lambda>saved.
       Inr (length (slotHeap b), b\<lparr>slotHeap := slotHeap b @ [\<lparr>slotSession = saved, slotInFlight = None\<rparr>],
         sessionSlots := (sessionSlots b)(formId \<mapsto> length (slotHeap b))\<rparr>)))"

text \<open>After the form's context is checked; \<open>i\<close> is the number of the call.\<close>

definition contextChecked :: "session_config \<Rightarrow> int \<Rightarrow> nat \<Rightarrow> session_request \<Rightarrow> session_error + unit \<Rightarrow> session_bridge \<Rightarrow>
    session_bridge \<times> session_call" where
  "contextChecked cfg now i rq r b =
    (case bindR r (\<lambda>_. bindR (throwIf (rqGeneration rq \<noteq> generations b (rqForm rq)) ContextCleared) (\<lambda>_. slotFor cfg (rqForm rq) b)) of
       Inl e \<Rightarrow> (b, doneWith rq (Inl e))
     | Inr (k, b') \<Rightarrow>
        (case (slotSession (slotHeap b' ! k), slotInFlight (slotHeap b' ! k)) of
           (Some s, _) \<Rightarrow> (b', doneWith rq (bindR (throwIf (expiresSoon cfg now (sessionExpiresAt s)) NearingExpiration) (\<lambda>_. Inr s)))
         | (None, Some n) \<Rightarrow> (b', JoinedIssue rq n)
         | (None, None) \<Rightarrow> if rqExisting rq then (b', doneWith rq (Inl NoOwnerGrant))
             else (b'\<lparr>slotHeap := (slotHeap b')[k := \<lparr>slotSession = None, slotInFlight = Some i\<rparr>]\<rparr>, AwaitIssue rq k)))"

text \<open>The reply settles the promise: a grant of a cleared generation is refused, not stored.\<close>

definition issueReplied :: "session_config \<Rightarrow> int \<Rightarrow> nat \<Rightarrow> session_request \<Rightarrow> nat \<Rightarrow> session_error + jsval \<Rightarrow> session_bridge \<Rightarrow>
    session_bridge \<times> session_call" where
  "issueReplied cfg now i rq k r b =
    (case bindR (bindR r (issueSession cfg now (rqForm rq))) (\<lambda>s.
        bindR (throwIf (rqGeneration rq \<noteq> generations b (rqForm rq)) ClearedWhileIssued) (\<lambda>_.
        map_sum id (Pair s) (storeGrant cfg (rqForm rq) s (grantStorage b)))) of
       Inl e \<Rightarrow> (b\<lparr>settled := (settled b)(i \<mapsto> Inl e)\<rparr>, AwaitOwnIssue rq k)
     | Inr (s, st) \<Rightarrow> (b\<lparr>settled := (settled b)(i \<mapsto> Inr s), grantStorage := st\<rparr>, AwaitOwnIssue rq k))"

definition ownIssueSettled :: "nat \<Rightarrow> session_request \<Rightarrow> nat \<Rightarrow> session_bridge \<Rightarrow> session_bridge \<times> session_call" where
  "ownIssueSettled i rq k b = (case settled b i of
     None \<Rightarrow> (b, AwaitOwnIssue rq k)
   | Some r \<Rightarrow> (b\<lparr>slotHeap := (slotHeap b)[k := \<lparr>slotSession = (case r of Inr s \<Rightarrow> Some s | Inl _ \<Rightarrow> slotSession (slotHeap b ! k)),
       slotInFlight = None\<rparr>]\<rparr>, doneWith rq r))"

definition clearFinished :: "session_config \<Rightarrow> string \<Rightarrow> bool \<Rightarrow> session_bridge \<Rightarrow> session_bridge \<times> session_call" where
  "clearFinished cfg formId preserve b =
    (if preserve then (b, ClearDone formId (Inr ()))
     else (case dropGrant cfg formId (grantStorage b) of
        Inl e \<Rightarrow> (b, ClearDone formId (Inl e))
      | Inr st \<Rightarrow> (b\<lparr>grantStorage := st, sessionSlots := (sessionSlots b)(formId := None)\<rparr>, ClearDone formId (Inr ()))))"

definition clearForForm :: "session_config \<Rightarrow> string \<Rightarrow> string option \<Rightarrow> bool \<Rightarrow> session_bridge \<Rightarrow> session_bridge \<times> session_call" where
  "clearForForm cfg url version preserve b =
    (let formId = sessionFormResolver cfg url version;
         b = b\<lparr>generations := (generations b)(formId := generations b formId + 1)\<rparr>
     in case sessionSlots b formId of
          None \<Rightarrow> clearFinished cfg formId preserve b
        | Some k \<Rightarrow> (case slotInFlight (slotHeap b ! k) of
            None \<Rightarrow> clearFinished cfg formId preserve b
          | Some n \<Rightarrow> (b, ClearPending formId preserve n)))"

definition resumeSession :: "session_config \<Rightarrow> int \<Rightarrow> nat \<Rightarrow> bridge_answer \<Rightarrow> session_bridge \<Rightarrow> session_call \<Rightarrow> session_bridge \<times> session_call" where
  "resumeSession cfg now i a b c =
    (case (c, a) of
       (AwaitContext rq, ContextChecked r) \<Rightarrow> contextChecked cfg now i rq r b
     | (AwaitIssue rq k, IssueReply r) \<Rightarrow> issueReplied cfg now i rq k r b
     | (AwaitOwnIssue rq k, SettledIssue) \<Rightarrow> ownIssueSettled i rq k b
     | (JoinedIssue rq n, SettledIssue) \<Rightarrow> (case settled b n of None \<Rightarrow> (b, c) | Some r \<Rightarrow> (b, doneWith rq r))
     | (ClearPending formId preserve n, SettledIssue) \<Rightarrow>
         (case settled b n of None \<Rightarrow> (b, c) | Some _ \<Rightarrow> clearFinished cfg formId preserve b)
     | _ \<Rightarrow> (b, c))"

datatype session_action =
    AskSession string "string option" bool
  | AskToken string "string option" "string option" bool
  | ClearForm string "string option" bool
  | ResumeSession nat int bridge_answer

definition sessionStep :: "session_config \<Rightarrow> session_action \<Rightarrow> session_bridge \<Rightarrow> session_bridge" where
  "sessionStep cfg act b =
    (case act of
       AskSession url version existing \<Rightarrow> b\<lparr>sessionCalls := sessionCalls b @ [sessionForForm cfg url version existing b]\<rparr>
     | AskToken url version subject existing \<Rightarrow> b\<lparr>sessionCalls := sessionCalls b @ [tokenFor cfg url version subject existing b]\<rparr>
     | ClearForm url version preserve \<Rightarrow>
         (let (b', c) = clearForForm cfg url version preserve b in b'\<lparr>sessionCalls := sessionCalls b @ [c]\<rparr>)
     | ResumeSession i now a \<Rightarrow> if i < length (sessionCalls b)
         then (let (b', c) = resumeSession cfg now i a b (sessionCalls b ! i) in b'\<lparr>sessionCalls := (sessionCalls b)[i := c]\<rparr>)
         else b)"

definition newBridge :: "storage \<Rightarrow> session_bridge" where
  "newBridge st = \<lparr>sessionSlots = Map.empty, slotHeap = [], generations = (\<lambda>_. 0), grantStorage = st, settled = Map.empty, sessionCalls = []\<rparr>"

text \<open>The claim of \<open>HttpAnonymousIdentityProvider.authenticate\<close> on a session.\<close>

definition httpAnonymousClaim :: "anon_session \<Rightarrow> IdentityClaim" where
  "httpAnonymousClaim s = \<lparr>claimProvider = ''formspec-server-anonymous-session'', claimAdapter = ''formspec-server-anonymous-session@0'',
     subjectRef = sessionSubject s, did = None, verificationMethod = None, credentialType = ''provider-assertion'',
     credentialRef = Some (''anonymous-session:'' @ sessionFormId s), personhoodCheck = Some ''not-performed'',
     subjectBinding = ''respondent'', assuranceLevel = L1, privacyTier = Some ''anonymous'', selectiveDisclosureProfile = None,
     evidenceRef = None, expiresAt = Some (sessionExpiresAt s), nistAssurance = None\<rparr>"

end
