(* ===== verification/Session_Safety.thy ===== *)
theory Session_Safety
  imports Anonymous_Session
begin

text \<open>
  What the anonymous sessions of a tab guarantee however their calls interleave: a cleared form
  stays cleared, and as long as nothing is cleared a form has one session for all its callers.
\<close>


section \<open>A cleared form stays cleared\<close>

definition pendingRequest :: "session_call \<Rightarrow> session_request option" where
  "pendingRequest c = (case c of AwaitContext rq \<Rightarrow> Some rq | AwaitIssue rq k \<Rightarrow> Some rq | _ \<Rightarrow> None)"

definition remembersNothing :: "session_config \<Rightarrow> string \<Rightarrow> session_bridge \<Rightarrow> bool" where
  "remembersNothing cfg f b = (sessionSlots b f = None \<and> savedSession cfg f (grantStorage b) = Inr None)"

text \<open>Every call in flight for the form was begun before a clear.\<close>

definition allOutdated :: "string \<Rightarrow> session_bridge \<Rightarrow> bool" where
  "allOutdated f b = (\<forall>c\<in>set (sessionCalls b). \<forall>rq. pendingRequest c = Some rq \<longrightarrow> rqForm rq = f \<longrightarrow> rqGeneration rq < generations b f)"

lemma grantSlot_inject [simp]: "grantSlot f = grantSlot g \<longleftrightarrow> f = g"
  by (simp add: grantSlot_def)

lemma map_sum_Inr [simp]: "map_sum h g x = Inr y \<longleftrightarrow> (\<exists>z. x = Inr z \<and> y = g z)"
  by (cases x) auto

lemma storeGrant_other: "storeGrant cfg f s st = Inr st' \<Longrightarrow> f \<noteq> g \<Longrightarrow> savedSession cfg g st' = savedSession cfg g st"
  by (auto simp: storeGrant_def savedSession_def dest: tabStore.write_other [where b = "grantSlot g"] split: option.splits)

lemma dropGrant_other: "dropGrant cfg f st = Inr st' \<Longrightarrow> f \<noteq> g \<Longrightarrow> savedSession cfg g st' = savedSession cfg g st"
  by (auto simp: dropGrant_def savedSession_def dest: tabStore.remove_other [where b = "grantSlot g"] split: option.splits)

lemma dropGrant_same: "dropGrant cfg f st = Inr st' \<Longrightarrow> savedSession cfg f st' = Inr None"
  by (auto simp: dropGrant_def savedSession_def dest: tabStore.read_removed split: option.splits)

lemma slotFor_other: "slotFor cfg f b = Inr (k, b') \<Longrightarrow> f \<noteq> g \<Longrightarrow>
    sessionSlots b' g = sessionSlots b g \<and> grantStorage b' = grantStorage b \<and> generations b' = generations b"
  by (auto simp: slotFor_def bindR_Inr_iff split: option.splits)

text \<open>What a resumption does to a form whose pending requests are outdated.\<close>

definition harmlessFor :: "session_config \<Rightarrow> string \<Rightarrow> session_bridge \<Rightarrow> session_call \<Rightarrow> session_bridge \<times> session_call \<Rightarrow> bool" where
  "harmlessFor cfg f b c r = (case r of (b', c') \<Rightarrow> generations b' = generations b \<and>
     (remembersNothing cfg f b \<longrightarrow> remembersNothing cfg f b') \<and> (pendingRequest c' = None \<or> pendingRequest c' = pendingRequest c))"

definition outdated :: "string \<Rightarrow> session_bridge \<Rightarrow> session_call \<Rightarrow> bool" where
  "outdated f b c = (\<forall>rq. pendingRequest c = Some rq \<longrightarrow> rqForm rq = f \<longrightarrow> rqGeneration rq < generations b f)"

lemma pendingRequest_simps [simp]:
  "pendingRequest (AwaitContext rq) = Some rq" "pendingRequest (AwaitIssue rq k) = Some rq" "pendingRequest (AwaitOwnIssue rq k) = None"
  "pendingRequest (JoinedIssue rq n) = None" "pendingRequest (SessionDone f x) = None" "pendingRequest (ClearPending f p n) = None"
  "pendingRequest (ClearDone f u) = None" "pendingRequest (doneWith rq r) = None"
  by (simp_all add: pendingRequest_def doneWith_def)

lemma contextChecked_harmless:
  assumes "outdated f b (AwaitContext rq)"
  shows "harmlessFor cfg f b (AwaitContext rq) (contextChecked cfg now i rq r b)"
proof (cases "rqForm rq = f")
  case True
  then have "rqGeneration rq \<noteq> generations b (rqForm rq)" using assms by (simp add: outdated_def)
  then show ?thesis by (cases r) (simp_all add: contextChecked_def harmlessFor_def)
next
  case False
  then show ?thesis
    by (auto simp: contextChecked_def harmlessFor_def remembersNothing_def bindR_Inr_iff dest: slotFor_other
      split: sum.split option.split)
qed

lemma issueReplied_harmless:
  assumes "outdated f b (AwaitIssue rq k)"
  shows "harmlessFor cfg f b (AwaitIssue rq k) (issueReplied cfg now i rq k r b)"
proof (cases "rqForm rq = f")
  case True
  then have "rqGeneration rq \<noteq> generations b (rqForm rq)" using assms by (simp add: outdated_def)
  then show ?thesis
    by (auto simp: issueReplied_def harmlessFor_def remembersNothing_def bindR_Inr_iff split: sum.split)
next
  case False
  then show ?thesis
    by (auto simp: issueReplied_def harmlessFor_def remembersNothing_def bindR_Inr_iff dest: storeGrant_other split: sum.split)
qed

lemma clearFinished_harmless: "pendingRequest c = None \<Longrightarrow> harmlessFor cfg f b c (clearFinished cfg g preserve b)"
  by (cases "f = g") (auto simp: clearFinished_def harmlessFor_def remembersNothing_def dest: dropGrant_other dropGrant_same split: sum.split)

lemma resume_harmless: "outdated f b c \<Longrightarrow> harmlessFor cfg f b c (resumeSession cfg now i a b c)"
  by (cases c; cases a)
    (auto simp: resumeSession_def contextChecked_harmless issueReplied_harmless clearFinished_harmless
      ownIssueSettled_def harmlessFor_def [of cfg f b _ "(_, _)"] remembersNothing_def split: option.split)

definition asksNothing :: "session_action \<Rightarrow> bool" where
  "asksNothing act = (case act of ClearForm _ _ _ \<Rightarrow> True | ResumeSession _ _ _ \<Rightarrow> True | _ \<Rightarrow> False)"

inductive quietRuns :: "session_config \<Rightarrow> session_bridge \<Rightarrow> session_bridge \<Rightarrow> bool" for cfg b where
  quiet_none: "quietRuns cfg b b"
| quiet_step: "quietRuns cfg b b' \<Longrightarrow> asksNothing act \<Longrightarrow> quietRuns cfg b (sessionStep cfg act b')"

text \<open>The step by which a clear of the form returns.\<close>

definition finishesClear :: "session_config \<Rightarrow> string \<Rightarrow> session_action \<Rightarrow> session_bridge \<Rightarrow> bool" where
  "finishesClear cfg f act b = (case act of
     ClearForm url version preserve \<Rightarrow> sessionFormResolver cfg url version = f \<and> \<not> preserve \<and>
       snd (clearForForm cfg url version preserve b) = ClearDone f (Inr ())
   | ResumeSession i now a \<Rightarrow> i < length (sessionCalls b) \<and> (\<exists>n. sessionCalls b ! i = ClearPending f False n) \<and>
       snd (resumeSession cfg now i a b (sessionCalls b ! i)) = ClearDone f (Inr ())
   | _ \<Rightarrow> False)"

lemma clearFinished_forgets: "snd (clearFinished cfg f False b) = ClearDone f (Inr ()) \<Longrightarrow> remembersNothing cfg f (fst (clearFinished cfg f False b))"
  by (auto simp: clearFinished_def remembersNothing_def dest: dropGrant_same split: sum.splits)

lemma remembers_calls [simp]: "remembersNothing cfg f (b\<lparr>sessionCalls := cs\<rparr>) = remembersNothing cfg f b"
  by (simp add: remembersNothing_def)

lemma finishesClear_forgets: "finishesClear cfg f act b \<Longrightarrow> remembersNothing cfg f (sessionStep cfg act b)"
  by (cases act) (auto simp: finishesClear_def sessionStep_def clearForForm_def resumeSession_def Let_def case_prod_beta
      intro: clearFinished_forgets split: option.splits bridge_answer.splits)

lemma quiet_step_clear:
  assumes "remembersNothing cfg f b" "allOutdated f b" "asksNothing act"
  shows "remembersNothing cfg f (sessionStep cfg act b) \<and> allOutdated f (sessionStep cfg act b)"
proof (cases act)
  case (ResumeSession i now a)
  show ?thesis
  proof (cases "i < length (sessionCalls b)")
    case True
    let ?c = "sessionCalls b ! i"
    obtain b' c' where r: "resumeSession cfg now i a b ?c = (b', c')" by fastforce
    have "outdated f b ?c" using assms(2) True by (auto simp: allOutdated_def outdated_def)
    then have h: "harmlessFor cfg f b ?c (b', c')" using resume_harmless r by metis
    have "outdated f b c" if "c \<in> set ((sessionCalls b)[i := c'])" for c
      using set_update_subset_insert [of "sessionCalls b" i c'] that h \<open>outdated f b ?c\<close> assms(2)
      by (fastforce simp: harmlessFor_def outdated_def allOutdated_def)
    then show ?thesis using ResumeSession True r h assms(1)
      by (auto simp: sessionStep_def harmlessFor_def allOutdated_def outdated_def)
  qed (use assms ResumeSession in \<open>simp add: sessionStep_def\<close>)
next
  case (ClearForm url version preserve)
  let ?g = "sessionFormResolver cfg url version"
  let ?b = "b\<lparr>generations := (generations b)(?g := generations b ?g + 1)\<rparr>"
  have "remembersNothing cfg f ?b" using assms(1) by (simp add: remembersNothing_def)
  then have h: "harmlessFor cfg f ?b (ClearDone ?g (Inr ())) (clearForForm cfg url version preserve b)"
    by (auto simp: clearForForm_def Let_def clearFinished_harmless harmlessFor_def [of cfg f _ _ "(_, _)"] split: option.split)
  show ?thesis using h assms(2) \<open>remembersNothing cfg f ?b\<close> ClearForm
    by (auto simp: sessionStep_def harmlessFor_def allOutdated_def split: prod.splits)
qed (use assms(3) in \<open>simp_all add: asksNothing_def\<close>)

text \<open>C12. A cleared computer stays cleared: once a clear of a form has returned and every call in flight for the
  form was begun before it, neither a slot nor a stored grant of the form comes back, however the
  issuances in flight are answered and whatever else is cleared.\<close>

theorem cleared_form_stays_cleared:
  assumes "finishesClear cfg f act b" "allOutdated f (sessionStep cfg act b)" "quietRuns cfg (sessionStep cfg act b) b'"
  shows "remembersNothing cfg f b'"
proof -
  from assms(3) have "remembersNothing cfg f b' \<and> allOutdated f b'"
    by induction (use finishesClear_forgets [OF assms(1)] assms(2) quiet_step_clear in blast)+
  then show ?thesis ..
qed

section \<open>One respondent per form\<close>

text \<open>The session of a form: in its slot, or in the settled promise the slot awaits.\<close>

definition grantOf :: "session_bridge \<Rightarrow> string \<Rightarrow> anon_session option" where
  "grantOf b f = (case sessionSlots b f of None \<Rightarrow> None | Some k \<Rightarrow>
     (case slotSession (slotHeap b ! k) of Some s \<Rightarrow> Some s
      | None \<Rightarrow> (case slotInFlight (slotHeap b ! k) of None \<Rightarrow> None
         | Some i \<Rightarrow> (case settled b i of Some (Inr s) \<Rightarrow> Some s | _ \<Rightarrow> None))))"

definition issuing :: "session_call \<Rightarrow> (session_request \<times> nat) option" where
  "issuing c = (case c of AwaitIssue rq k \<Rightarrow> Some (rq, k) | AwaitOwnIssue rq k \<Rightarrow> Some (rq, k) | _ \<Rightarrow> None)"

definition issuingOk :: "session_bridge \<Rightarrow> nat \<Rightarrow> session_call \<Rightarrow> bool" where
  "issuingOk b i c = (\<forall>rq k. issuing c = Some (rq, k) \<longrightarrow> sessionSlots b (rqForm rq) = Some k \<and>
     slotHeap b ! k = \<lparr>slotSession = None, slotInFlight = Some i\<rparr> \<and> (settled b i \<noteq> None \<longleftrightarrow> c = AwaitOwnIssue rq k))"

definition joinedOk :: "session_bridge \<Rightarrow> session_call list \<Rightarrow> session_call \<Rightarrow> bool" where
  "joinedOk b cs c = (\<forall>rq n. c = JoinedIssue rq n \<longrightarrow> 
     (settled b n = None \<longrightarrow> n < length cs \<and> (\<exists>rq' k. cs ! n = AwaitIssue rq' k \<and> rqForm rq' = rqForm rq)) \<and>
     (\<forall>s. settled b n = Some (Inr s) \<longrightarrow> grantOf b (rqForm rq) = Some s))"

definition tokenOf :: "session_answer \<Rightarrow> string option" where
  "tokenOf a = (case a of GaveSession s \<Rightarrow> Some (sessionToken s) | GaveToken t \<Rightarrow> t)"

definition doneOk :: "session_bridge \<Rightarrow> session_call \<Rightarrow> bool" where
  "doneOk b c = (\<forall>f a t. c = SessionDone f (Inr a) \<longrightarrow> tokenOf a = Some t \<longrightarrow> (\<exists>s. grantOf b f = Some s \<and> sessionToken s = t))"

definition callOk :: "session_bridge \<Rightarrow> session_call list \<Rightarrow> nat \<Rightarrow> session_call \<Rightarrow> bool" where
  "callOk b cs i c = (issuingOk b i c \<and> joinedOk b cs c \<and> doneOk b c)"

definition heapOk :: "session_bridge \<Rightarrow> session_call list \<Rightarrow> bool" where
  "heapOk b cs = (\<forall>f k. sessionSlots b f = Some k \<longrightarrow> k < length (slotHeap b) \<and>
     (\<forall>i. slotInFlight (slotHeap b ! k) = Some i \<longrightarrow> i < length cs \<and> (\<exists>rq. issuing (cs ! i) = Some (rq, k) \<and> rqForm rq = f)))"

definition ownSlots :: "session_bridge \<Rightarrow> bool" where
  "ownSlots b = (\<forall>f g k. sessionSlots b f = Some k \<longrightarrow> sessionSlots b g = Some k \<longrightarrow> f = g)"

definition settledOk :: "session_bridge \<Rightarrow> session_call list \<Rightarrow> bool" where
  "settledOk b cs = (\<forall>i. settled b i \<noteq> None \<longrightarrow> i < length cs \<and> (\<forall>rq. cs ! i \<noteq> AwaitContext rq))"

definition bridgeInv :: "session_bridge \<Rightarrow> bool" where
  "bridgeInv b = (heapOk b (sessionCalls b) \<and> ownSlots b \<and> settledOk b (sessionCalls b) \<and> (\<forall>i<length (sessionCalls b). callOk b (sessionCalls b) i (sessionCalls b ! i)))"

lemma issuing_simps [simp]:
  "issuing (AwaitIssue rq k) = Some (rq, k)" "issuing (AwaitOwnIssue rq k) = Some (rq, k)" "issuing (AwaitContext rq) = None"
  "issuing (JoinedIssue rq n) = None" "issuing (SessionDone f x) = None" "issuing (ClearPending f p n) = None"
  "issuing (ClearDone f u) = None" "issuing (doneWith rq r) = None"
  by (simp_all add: issuing_def doneWith_def)

lemma grantOf_calls [simp]: "grantOf (b\<lparr>sessionCalls := cs\<rparr>) f = grantOf b f"
  by (simp add: grantOf_def cong: option.case_cong)

lemma ok_calls [simp]:
  "issuingOk (b\<lparr>sessionCalls := cs\<rparr>) i c = issuingOk b i c" "joinedOk (b\<lparr>sessionCalls := cs\<rparr>) ds c = joinedOk b ds c"
  "doneOk (b\<lparr>sessionCalls := cs\<rparr>) c = doneOk b c" "heapOk (b\<lparr>sessionCalls := cs\<rparr>) ds = heapOk b ds"
  "ownSlots (b\<lparr>sessionCalls := cs\<rparr>) = ownSlots b" "settledOk (b\<lparr>sessionCalls := cs\<rparr>) ds = settledOk b ds"
  by (simp_all add: issuingOk_def joinedOk_def doneOk_def heapOk_def ownSlots_def settledOk_def)

lemma callOk_calls [simp]: "callOk (b\<lparr>sessionCalls := cs\<rparr>) ds i c = callOk b ds i c"
  by (simp add: callOk_def)

lemma issuingOk_none [simp]: "issuing c = None \<Longrightarrow> issuingOk b i c"
  by (simp add: issuingOk_def)

lemma joinedOk_other [simp]:
  "joinedOk b cs (doneWith rq r)" "issuing c = Some x \<Longrightarrow> joinedOk b cs c" "joinedOk b cs (AwaitContext rq)" "joinedOk b cs (SessionDone f y)"
  by (auto simp: joinedOk_def doneWith_def)

lemma doneOk_other [simp]: "issuing c = Some x \<Longrightarrow> doneOk b c" "doneOk b (AwaitContext rq)" "doneOk b (JoinedIssue rq n)"
  by (auto simp: doneOk_def)

lemma doneOk_doneWith: "doneOk b (doneWith rq r)" if "\<And>s. r = Inr s \<Longrightarrow> grantOf b (rqForm rq) = Some s"
proof (cases r)
  case (Inr s)
  then show ?thesis using that [of s] by (cases "rqUse rq") (auto simp: doneOk_def doneWith_def deliver_def bindR_Inr_iff tokenOf_def)
qed (simp add: doneOk_def doneWith_def deliver_def)

lemma joinedOk_update: "joinedOk b cs d" if "joinedOk b cs' d" "length cs' = length cs"
    "\<And>n rq k. cs' ! n = AwaitIssue rq k \<Longrightarrow> n < length cs \<Longrightarrow> cs ! n = cs' ! n"
  using that unfolding joinedOk_def by metis

lemma awaits_update: "cs ! n = AwaitIssue rq k \<Longrightarrow> (\<And>rq k. cs ! i \<noteq> AwaitIssue rq k) \<Longrightarrow> (cs[i := c]) ! n = AwaitIssue rq k"
  by (cases "n = i") auto

lemma deliver_Inl [simp]: "deliver use (Inl e) = Inl e"
  by (simp add: deliver_def)

lemma doneOk_refused [simp]: "doneOk b (SessionDone f (Inl e))"
  by (simp add: doneOk_def)

lemma heapOk_calls:
  "heapOk b cs \<Longrightarrow> length cs' = length cs \<Longrightarrow> (\<And>j x. issuing (cs ! j) = Some x \<Longrightarrow> issuing (cs' ! j) = Some x) \<Longrightarrow> heapOk b cs'"
  unfolding heapOk_def by metis

lemma settledOk_update: "settledOk b cs \<Longrightarrow> (\<And>rq. c \<noteq> AwaitContext rq) \<Longrightarrow> settledOk b (cs[i := c])"
  unfolding settledOk_def
proof (intro allI impI)
  fix j assume old: "\<forall>i. settled b i \<noteq> None \<longrightarrow> i < length cs \<and> (\<forall>rq. cs ! i \<noteq> AwaitContext rq)"
    and c: "\<And>rq. c \<noteq> AwaitContext rq" and "settled b j \<noteq> None"
  then have "j < length cs \<and> (\<forall>rq. cs ! j \<noteq> AwaitContext rq)" by blast
  then show "j < length (cs[i := c]) \<and> (\<forall>rq. (cs[i := c]) ! j \<noteq> AwaitContext rq)"
    using c by (cases "j = i") simp_all
qed

lemma inv_slots:
  assumes "bridgeInv b" "sessionSlots b f = Some k"
  shows "k < length (slotHeap b)" "sessionSlots b g = Some k \<Longrightarrow> g = f"
    "slotInFlight (slotHeap b ! k) = Some i \<Longrightarrow> \<exists>rq. issuing (sessionCalls b ! i) = Some (rq, k) \<and> rqForm rq = f"
  using assms unfolding bridgeInv_def heapOk_def ownSlots_def by blast+

text \<open>The call \<open>i\<close>, which issues nothing, becomes \<open>c\<close>.\<close>

lemma inv_replace:
  assumes "bridgeInv b" "i < length (sessionCalls b)" "issuing (sessionCalls b ! i) = None"
    and "issuing c = None" "\<And>rq. c \<noteq> AwaitContext rq" "joinedOk b (sessionCalls b) c" "doneOk b c"
  shows "bridgeInv (b\<lparr>sessionCalls := (sessionCalls b)[i := c]\<rparr>)"
proof -
  let ?cs = "sessionCalls b"
  have na: "?cs ! i \<noteq> AwaitIssue rq k" for rq k using assms(3) by auto
  have upd: "joinedOk b (?cs[i := c]) d" if "joinedOk b ?cs d" for d
    by (rule joinedOk_update [OF that]) (simp_all add: awaits_update na)
  have "callOk b (?cs[i := c]) j ((?cs[i := c]) ! j)" if "j < length ?cs" for j
    using assms that upd by (cases "j = i") (simp_all add: bridgeInv_def callOk_def)
  moreover have "heapOk b (?cs[i := c])"
  proof (rule heapOk_calls)
    show "issuing (?cs[i := c] ! j) = Some x" if "issuing (?cs ! j) = Some x" for j x
      using that assms(3) by (cases "j = i") simp_all
  qed (use assms(1) in \<open>simp_all add: bridgeInv_def\<close>)
  moreover have "ownSlots b" "settledOk b (?cs[i := c])" using assms(1,5) by (simp_all add: bridgeInv_def settledOk_update)
  ultimately show ?thesis by (simp add: bridgeInv_def)
qed

lemma slotFor_inv:
  assumes "bridgeInv b" "slotFor cfg f b = Inr (k, b')"
  shows "bridgeInv b'" "sessionSlots b' f = Some k" "sessionCalls b' = sessionCalls b" "k < length (slotHeap b')"
proof -
  have "bridgeInv b' \<and> sessionSlots b' f = Some k \<and> sessionCalls b' = sessionCalls b \<and> k < length (slotHeap b')"
  proof (cases "sessionSlots b f")
    case (Some n)
    then show ?thesis using assms inv_slots(1) by (auto simp: slotFor_def)
  next
    case None
    then obtain saved where b': "b' = b\<lparr>slotHeap := slotHeap b @ [\<lparr>slotSession = saved, slotInFlight = None\<rparr>],
        sessionSlots := (sessionSlots b)(f \<mapsto> length (slotHeap b))\<rparr>" and k: "k = length (slotHeap b)"
      using assms(2) by (auto simp: slotFor_def bindR_Inr_iff)
    have less: "n < length (slotHeap b)" if "sessionSlots b g = Some n" for g n
      using assms(1) that by (rule inv_slots)
    have same: "grantOf b' g = Some s" if "grantOf b g = Some s" for g s
      using that less None by (auto simp: grantOf_def b' nth_append split: option.splits)
    have "issuingOk b' j c" if "issuingOk b j c" for j c
      using that less None by (auto simp: issuingOk_def b' nth_append)
    moreover have "joinedOk b' cs c" if "joinedOk b cs c" for cs c
      using that same by (simp add: joinedOk_def b')
    moreover have "doneOk b' c" if "doneOk b c" for c
      using that same by (auto simp: doneOk_def)
    moreover have "heapOk b' (sessionCalls b)"
      using assms(1) less unfolding bridgeInv_def heapOk_def by (auto simp: b' nth_append less_Suc_eq split: if_splits)
    moreover have "ownSlots b'" "settledOk b' (sessionCalls b)"
      using assms(1) less by (fastforce simp: bridgeInv_def ownSlots_def settledOk_def b')+
    ultimately show ?thesis using assms(1) k by (simp add: bridgeInv_def callOk_def b')
  qed
  then show "bridgeInv b'" "sessionSlots b' f = Some k" "sessionCalls b' = sessionCalls b" "k < length (slotHeap b')" by blast+
qed

text \<open>The call \<open>i\<close> starts the issuance of an empty slot.\<close>

lemma inv_issue:
  assumes inv: "bridgeInv b" and i: "i < length (sessionCalls b)" "issuing (sessionCalls b ! i) = None"
    and k: "sessionSlots b (rqForm rq) = Some k" "slotHeap b ! k = \<lparr>slotSession = None, slotInFlight = None\<rparr>"
    and fresh: "settled b i = None"
  shows "bridgeInv (b\<lparr>slotHeap := (slotHeap b)[k := \<lparr>slotSession = None, slotInFlight = Some i\<rparr>],
    sessionCalls := (sessionCalls b)[i := AwaitIssue rq k]\<rparr>)"
proof -
  let ?cs = "sessionCalls b" and ?cs' = "(sessionCalls b)[i := AwaitIssue rq k]"
  let ?b = "b\<lparr>slotHeap := (slotHeap b)[k := \<lparr>slotSession = None, slotInFlight = Some i\<rparr>]\<rparr>"
  have kl: "k < length (slotHeap b)" using inv k(1) by (rule inv_slots)
  have inj: "f = rqForm rq" if "sessionSlots b f = Some k" for f using inv_slots(2) [OF inv k(1) that] .
  have grant: "grantOf ?b f = grantOf b f" for f
    using k fresh kl by (cases "sessionSlots b f") (auto simp: grantOf_def nth_list_update cong: option.case_cong)
  have old: "callOk b ?cs j (?cs ! j)" if "j < length ?cs" for j using inv that by (simp add: bridgeInv_def)
  have "issuingOk ?b j (?cs ! j)" if "j < length ?cs" for j
    using old [OF that] k kl by (auto simp: callOk_def issuingOk_def nth_list_update)
  moreover have "joinedOk ?b ?cs' d" if "joinedOk b ?cs d" for d
  proof -
    have "?cs ! i \<noteq> AwaitIssue rq k" for rq k using i(2) by auto
    then have "joinedOk b ?cs' d" by (intro joinedOk_update [OF that]) (simp_all add: awaits_update)
    then show ?thesis by (simp add: joinedOk_def grant)
  qed
  moreover have "doneOk ?b d" if "doneOk b d" for d using that by (simp add: doneOk_def grant)
  moreover have "issuingOk ?b i (AwaitIssue rq k)" using k fresh kl by (simp add: issuingOk_def)
  ultimately have "callOk ?b ?cs' j (?cs' ! j)" if "j < length ?cs" for j
    using old [OF that] that i(1) by (cases "j = i") (simp_all add: callOk_def)
  moreover have "heapOk ?b ?cs'"
    unfolding heapOk_def
  proof (intro allI impI conjI)
    fix f n assume n: "sessionSlots ?b f = Some n"
    then show "n < length (slotHeap ?b)" using inv_slots(1) [OF inv] by simp
    fix j assume j: "slotInFlight (slotHeap ?b ! n) = Some j"
    have "(n = k \<and> j = i) \<or> (n \<noteq> k \<and> slotInFlight (slotHeap b ! n) = Some j)" using j kl by (cases "n = k") auto
    then show "j < length ?cs'" using n i inv by (auto simp: bridgeInv_def heapOk_def)
    show "\<exists>rq'. issuing (?cs' ! j) = Some (rq', n) \<and> rqForm rq' = f"
    proof (cases "n = k")
      case True
      then have "j = i" using j kl by simp
      then show ?thesis using True n inj i(1) by simp
    next
      case False
      then have "slotInFlight (slotHeap b ! n) = Some j" using j by simp
      then obtain rq' where "issuing (?cs ! j) = Some (rq', n) \<and> rqForm rq' = f" using inv_slots(3) [OF inv] n by force
      then show ?thesis using i(2) by (cases "j = i") auto
    qed
  qed
  moreover have "settledOk b ?cs'" using inv by (simp add: bridgeInv_def settledOk_update)
  then have "settledOk ?b ?cs'" by (simp add: settledOk_def)
  moreover have "ownSlots ?b" using inv by (simp add: bridgeInv_def ownSlots_def)
  ultimately show ?thesis by (simp add: bridgeInv_def)
qed

text \<open>The reply settles the promise of the call \<open>i\<close>.\<close>

lemma inv_settle:
  assumes inv: "bridgeInv b" and i: "i < length (sessionCalls b)" "sessionCalls b ! i = AwaitIssue rq k"
  shows "bridgeInv (b\<lparr>settled := (settled b)(i \<mapsto> r), grantStorage := st, sessionCalls := (sessionCalls b)[i := AwaitOwnIssue rq k]\<rparr>)"
proof -
  let ?cs = "sessionCalls b" and ?cs' = "(sessionCalls b)[i := AwaitOwnIssue rq k]"
  let ?b = "b\<lparr>settled := (settled b)(i \<mapsto> r), grantStorage := st\<rparr>"
  have old: "callOk b ?cs j (?cs ! j)" if "j < length ?cs" for j using inv that by (simp add: bridgeInv_def)
  have k: "sessionSlots b (rqForm rq) = Some k" "slotHeap b ! k = \<lparr>slotSession = None, slotInFlight = Some i\<rparr>" "settled b i = None"
    using old [OF i(1)] i(2) by (auto simp: callOk_def issuingOk_def)
  have only: "f = rqForm rq" if "sessionSlots b f = Some n" "slotInFlight (slotHeap b ! n) = Some i" for f n
    using inv_slots(3) [OF inv that] i(2) by auto
  have keep: "grantOf ?b f = Some s" if "grantOf b f = Some s" for f s
    using that k(3) by (auto simp: grantOf_def split: option.splits)
  have new: "grantOf ?b (rqForm rq) = Some s" if "r = Inr s" for s
    using k that by (simp add: grantOf_def)
  have "issuingOk ?b j (?cs ! j)" if "j < length ?cs" "j \<noteq> i" for j
    using old [OF that(1)] that(2) by (simp add: callOk_def issuingOk_def)
  moreover have "joinedOk ?b ?cs' d" if "joinedOk b ?cs d" for d
    unfolding joinedOk_def
  proof (intro allI impI conjI)
    fix rq' n assume d: "d = JoinedIssue rq' n"
    show "n < length ?cs'" if "settled ?b n = None"
      using that \<open>joinedOk b ?cs d\<close> d by (auto simp: joinedOk_def split: if_splits)
    show "\<exists>rq'' k. ?cs' ! n = AwaitIssue rq'' k \<and> rqForm rq'' = rqForm rq'" if "settled ?b n = None"
      using that \<open>joinedOk b ?cs d\<close> d by (auto simp: joinedOk_def nth_list_update split: if_splits)
    show "grantOf ?b (rqForm rq') = Some s" if "settled ?b n = Some (Inr s)" for s
    proof (cases "n = i")
      case True
      then have "rqForm rq' = rqForm rq" using \<open>joinedOk b ?cs d\<close> d k(3) i(2) by (auto simp: joinedOk_def)
      then show ?thesis using new that True by simp
    qed (use that \<open>joinedOk b ?cs d\<close> d keep in \<open>auto simp: joinedOk_def\<close>)
  qed
  moreover have "doneOk ?b d" if "doneOk b d" for d using that keep unfolding doneOk_def by blast
  moreover have "issuingOk ?b i (AwaitOwnIssue rq k)" using k by (simp add: issuingOk_def)
  ultimately have "callOk ?b ?cs' j (?cs' ! j)" if "j < length ?cs" for j
    using old [OF that] that i(1) by (cases "j = i") (simp_all add: callOk_def)
  moreover have "heapOk b ?cs'"
  proof (rule heapOk_calls)
    show "issuing (?cs' ! j) = Some x" if "issuing (?cs ! j) = Some x" for j x
      using that i by (cases "j = i") simp_all
  qed (use inv in \<open>simp_all add: bridgeInv_def\<close>)
  then have "heapOk ?b ?cs'" by (simp add: heapOk_def)
  moreover have "ownSlots ?b" "settledOk ?b ?cs'"
    using inv i by (auto simp: bridgeInv_def ownSlots_def settledOk_def nth_list_update)
  ultimately show ?thesis by (simp add: bridgeInv_def)
qed

text \<open>The call \<open>i\<close> takes the settled session into its slot.\<close>

lemma inv_own:
  assumes inv: "bridgeInv b" and i: "i < length (sessionCalls b)" "sessionCalls b ! i = AwaitOwnIssue rq k" and r: "settled b i = Some r"
  shows "bridgeInv (b\<lparr>slotHeap := (slotHeap b)[k := \<lparr>slotSession = (case r of Inr s \<Rightarrow> Some s | Inl _ \<Rightarrow> slotSession (slotHeap b ! k)),
    slotInFlight = None\<rparr>], sessionCalls := (sessionCalls b)[i := doneWith rq r]\<rparr>)"
proof -
  let ?cs = "sessionCalls b" and ?cs' = "(sessionCalls b)[i := doneWith rq r]"
  let ?slot = "\<lparr>slotSession = (case r of Inr s \<Rightarrow> Some s | Inl _ \<Rightarrow> slotSession (slotHeap b ! k)), slotInFlight = None\<rparr>"
  let ?b = "b\<lparr>slotHeap := (slotHeap b)[k := ?slot]\<rparr>"
  have old: "callOk b ?cs j (?cs ! j)" if "j < length ?cs" for j using inv that by (simp add: bridgeInv_def)
  have k: "sessionSlots b (rqForm rq) = Some k" "slotHeap b ! k = \<lparr>slotSession = None, slotInFlight = Some i\<rparr>"
    using old [OF i(1)] i(2) by (auto simp: callOk_def issuingOk_def)
  have kl: "k < length (slotHeap b)" using inv k(1) by (rule inv_slots)
  have grant: "grantOf ?b f = grantOf b f" for f
    using k r kl by (cases "sessionSlots b f") (auto simp: grantOf_def nth_list_update split: sum.split cong: option.case_cong)
  have "issuingOk ?b j (?cs ! j)" if "j < length ?cs" "j \<noteq> i" for j
    using old [OF that(1)] that(2) k kl by (auto simp: callOk_def issuingOk_def nth_list_update)
  moreover have "joinedOk ?b ?cs' d" if "joinedOk b ?cs d" for d
  proof -
    have "?cs ! i \<noteq> AwaitIssue rq k" for rq k using i(2) by auto
    then have "joinedOk b ?cs' d" by (intro joinedOk_update [OF that]) (simp_all add: awaits_update)
    then show ?thesis by (simp add: joinedOk_def grant)
  qed
  moreover have "doneOk ?b d" if "doneOk b d" for d using that by (simp add: doneOk_def grant)
  moreover have "doneOk ?b (doneWith rq r)"
  proof (rule doneOk_doneWith)
    fix s assume "r = Inr s"
    then have "grantOf b (rqForm rq) = Some s" using k r by (simp add: grantOf_def)
    then show "grantOf ?b (rqForm rq) = Some s" by (simp only: grant)
  qed
  ultimately have "callOk ?b ?cs' j (?cs' ! j)" if "j < length ?cs" for j
    using old [OF that] that i(1) by (cases "j = i") (simp_all add: callOk_def)
  moreover have "heapOk ?b ?cs'"
    unfolding heapOk_def
  proof (intro allI impI conjI)
    fix f n assume n: "sessionSlots ?b f = Some n"
    then show "n < length (slotHeap ?b)" using inv_slots(1) [OF inv] by simp
    fix j assume j: "slotInFlight (slotHeap ?b ! n) = Some j"
    have nk: "n \<noteq> k" using j kl by auto
    then have nj: "slotInFlight (slotHeap b ! n) = Some j" using j by simp
    then show "j < length ?cs'" using n inv by (auto simp: bridgeInv_def heapOk_def)
    obtain rq' where "issuing (?cs ! j) = Some (rq', n) \<and> rqForm rq' = f" using inv_slots(3) [OF inv _ nj] n by force
    then show "\<exists>rq'. issuing (?cs' ! j) = Some (rq', n) \<and> rqForm rq' = f" using i(2) nk by (cases "j = i") auto
  qed
  moreover have "settledOk b ?cs'" using inv by (simp add: bridgeInv_def settledOk_update doneWith_def)
  then have "settledOk ?b ?cs'" by (simp add: settledOk_def)
  moreover have "ownSlots ?b" using inv by (simp add: bridgeInv_def ownSlots_def)
  ultimately show ?thesis by (simp add: bridgeInv_def)
qed

lemma inv_begin:
  assumes "bridgeInv b" "issuing c = None" "c = AwaitContext rq \<or> (\<exists>f t. c = SessionDone f (Inr (GaveToken None)))"
  shows "bridgeInv (b\<lparr>sessionCalls := sessionCalls b @ [c]\<rparr>)"
proof -
  let ?cs = "sessionCalls b"
  have j: "joinedOk b (?cs @ [c]) d" if "joinedOk b ?cs d" for d using that unfolding joinedOk_def by (auto simp: nth_append)
  have fresh: "settled b (length ?cs) = None" using assms(1) by (force simp: bridgeInv_def settledOk_def)
  have "callOk b (?cs @ [c]) i ((?cs @ [c]) ! i)" if "i < Suc (length ?cs)" for i
  proof (cases "i < length ?cs")
    case True
    then have "callOk b ?cs i (?cs ! i)" using assms(1) by (simp add: bridgeInv_def)
    then show ?thesis using True j by (simp add: callOk_def nth_append)
  next
    case False
    then have "(?cs @ [c]) ! i = c" using that by (simp add: nth_append)
    moreover have "doneOk b c" "joinedOk b (?cs @ [c]) c" using assms(3) by (auto simp: doneOk_def joinedOk_def tokenOf_def)
    ultimately show ?thesis using assms(2) by (simp add: callOk_def)
  qed
  moreover have "heapOk b (?cs @ [c])" using assms(1) unfolding bridgeInv_def heapOk_def by (fastforce simp: nth_append)
  moreover have "ownSlots b" "settledOk b (?cs @ [c])"
    using assms(1) by (auto simp: bridgeInv_def settledOk_def nth_append)
  ultimately show ?thesis by (simp add: bridgeInv_def)
qed

lemma inv_context:
  assumes inv: "bridgeInv b" and i: "i < length (sessionCalls b)" "sessionCalls b ! i = AwaitContext rq"
    and r: "contextChecked cfg now i rq x b = (b', c')"
  shows "bridgeInv (b'\<lparr>sessionCalls := (sessionCalls b)[i := c']\<rparr>)"
proof -
  have refuse: "bridgeInv (b\<lparr>sessionCalls := (sessionCalls b)[i := doneWith rq (Inl e)]\<rparr>)" if "bridgeInv b" "sessionCalls b ! i = AwaitContext rq"
      "i < length (sessionCalls b)" for b e
    using that by (intro inv_replace) (auto simp: doneWith_def)
  consider (refused) e where "b' = b" "c' = doneWith rq (Inl e)"
    | (slot) k b1 where "slotFor cfg (rqForm rq) b = Inr (k, b1)"
        "(case (slotSession (slotHeap b1 ! k), slotInFlight (slotHeap b1 ! k)) of
           (Some s, _) \<Rightarrow> (b1, doneWith rq (bindR (throwIf (expiresSoon cfg now (sessionExpiresAt s)) NearingExpiration) (\<lambda>_. Inr s)))
         | (None, Some n) \<Rightarrow> (b1, JoinedIssue rq n)
         | (None, None) \<Rightarrow> if rqExisting rq then (b1, doneWith rq (Inl NoOwnerGrant))
             else (b1\<lparr>slotHeap := (slotHeap b1)[k := \<lparr>slotSession = None, slotInFlight = Some i\<rparr>]\<rparr>, AwaitIssue rq k)) = (b', c')"
    using r by (auto simp: contextChecked_def bindR_Inr_iff split: sum.splits)
  then show ?thesis
  proof cases
    case refused
    then show ?thesis using refuse [OF inv i(2,1)] by simp
  next
    case slot
    note s = slotFor_inv [OF inv slot(1)]
    note i' = i [folded s(3)]
    have fresh: "settled b1 i = None" using s(1) i' by (auto simp: bridgeInv_def settledOk_def)
    show ?thesis
    proof (cases "slotSession (slotHeap b1 ! k)")
      case (Some x)
      then have "grantOf b1 (rqForm rq) = Some x" by (simp add: grantOf_def s(2))
      then have "doneOk b1 (doneWith rq (bindR (throwIf (expiresSoon cfg now (sessionExpiresAt x)) NearingExpiration) (\<lambda>_. Inr x)))"
        by (intro doneOk_doneWith) (auto simp: bindR_Inr_iff)
      then show ?thesis unfolding s(3) [symmetric] using slot(2) Some inv_replace [OF s(1) i'(1)] i'(2) by (auto simp: doneWith_def joinedOk_def)
    next
      case None
      show ?thesis
      proof (cases "slotInFlight (slotHeap b1 ! k)")
        case (Some n)
        obtain rq' where n: "issuing (sessionCalls b1 ! n) = Some (rq', k)" "rqForm rq' = rqForm rq"
          using inv_slots(3) [OF s(1,2) Some] by blast
        have "n < length (sessionCalls b1)" using s(1,2) Some by (auto simp: bridgeInv_def heapOk_def)
        then have ok: "issuingOk b1 n (sessionCalls b1 ! n)" using s(1) by (auto simp: bridgeInv_def callOk_def)
        have "joinedOk b1 (sessionCalls b1) (JoinedIssue rq n)"
          using n ok \<open>n < length (sessionCalls b1)\<close> s(2) None Some
          by (cases "sessionCalls b1 ! n") (auto simp: joinedOk_def issuingOk_def grantOf_def)
        then show ?thesis unfolding s(3) [symmetric] using slot(2) None Some inv_replace [OF s(1) i'(1)] i'(2) by auto
      next
        case unissued: None
        then have "slotHeap b1 ! k = \<lparr>slotSession = None, slotInFlight = None\<rparr>" using None by simp
        then show ?thesis
          unfolding s(3) [symmetric] using slot(2) None unissued refuse [OF s(1) i'(2,1)] inv_issue [OF s(1) i'(1) _ s(2) _ fresh] i'(2)
          by (auto split: if_splits)
      qed
    qed
  qed
qed

text \<open>What a resumption of a call that clears nothing can be.\<close>

lemma resume_kinds:
  assumes "resumeSession cfg now i a b c = (b', c')" "\<And>f p n. c \<noteq> ClearPending f p n"
  shows "(b', c') = (b, c) \<or> (\<exists>rq x. c = AwaitContext rq \<and> contextChecked cfg now i rq x b = (b', c'))
    \<or> (\<exists>rq k x. c = AwaitIssue rq k \<and> issueReplied cfg now i rq k x b = (b', c'))
    \<or> (\<exists>rq k. c = AwaitOwnIssue rq k \<and> ownIssueSettled i rq k b = (b', c'))
    \<or> (\<exists>rq n x. c = JoinedIssue rq n \<and> settled b n = Some x \<and> b' = b \<and> c' = doneWith rq x)"
proof (cases c)
  case (JoinedIssue rq n)
  then show ?thesis using assms(1) by (cases a; cases "settled b n") (simp_all add: resumeSession_def)
next
  case (ClearPending f p n)
  then show ?thesis using assms(2) by simp
qed (use assms(1) in \<open>cases a; simp add: resumeSession_def; blast\<close>)+

lemma inv_resumed:
  assumes inv: "bridgeInv b" and i: "i < length (sessionCalls b)"
    and quiet: "\<And>f p n. sessionCalls b ! i \<noteq> ClearPending f p n"
    and r: "resumeSession cfg now i a b (sessionCalls b ! i) = (b', c')"
  shows "bridgeInv (b'\<lparr>sessionCalls := (sessionCalls b)[i := c']\<rparr>)"
proof (cases "(b', c') = (b, sessionCalls b ! i)")
  case True
  then show ?thesis using inv by simp
next
  case False
  then consider (ctx) rq x where "sessionCalls b ! i = AwaitContext rq" "contextChecked cfg now i rq x b = (b', c')"
    | (reply) rq k x where "sessionCalls b ! i = AwaitIssue rq k" "issueReplied cfg now i rq k x b = (b', c')"
    | (own) rq k where "sessionCalls b ! i = AwaitOwnIssue rq k" "ownIssueSettled i rq k b = (b', c')"
    | (joined) rq n x where "sessionCalls b ! i = JoinedIssue rq n" "settled b n = Some x" "b' = b" "c' = doneWith rq x"
    using resume_kinds [OF r quiet] by metis
  then show ?thesis
  proof cases
    case ctx
    then show ?thesis by (intro inv_context [OF inv i])
  next
    case reply
    then show ?thesis using inv_settle [OF inv i reply(1)] inv_settle [OF inv i reply(1), where st = "grantStorage b"]
      by (auto simp: issueReplied_def split: sum.splits)
  next
    case own
    then show ?thesis using inv_own [OF inv i own(1)] False
      by (auto simp: ownIssueSettled_def split: option.splits)
  next
    case joined
    have "joinedOk b (sessionCalls b) (JoinedIssue rq n)" using inv i joined(1) by (auto simp: bridgeInv_def callOk_def)
    then have "doneOk b (doneWith rq x)" using joined(2) by (intro doneOk_doneWith) (auto simp: joinedOk_def)
    then show ?thesis using joined inv_replace [OF inv i] by (auto simp: doneWith_def joinedOk_def)
  qed
qed

text \<open>Runs in which nothing is cleared.\<close>

definition clearsNothing :: "session_action \<Rightarrow> bool" where
  "clearsNothing act = (case act of ClearForm _ _ _ \<Rightarrow> False | _ \<Rightarrow> True)"

inductive sessionReach :: "session_config \<Rightarrow> session_bridge \<Rightarrow> bool" for cfg where
  session_init: "sessionReach cfg (newBridge st)"
| session_step: "sessionReach cfg b \<Longrightarrow> clearsNothing act \<Longrightarrow> sessionReach cfg (sessionStep cfg act b)"

definition isClearing :: "session_call \<Rightarrow> bool" where
  "isClearing c = (case c of ClearPending f p n \<Rightarrow> True | _ \<Rightarrow> False)"

lemma resume_clearing: "\<not> isClearing c \<Longrightarrow> \<not> isClearing (snd (resumeSession cfg now i a b c))"
  by (cases c; cases a)
    (auto simp: resumeSession_def contextChecked_def issueReplied_def ownIssueSettled_def doneWith_def isClearing_def Let_def
      split: sum.split option.split prod.split)

lemma sessionReach_inv: "sessionReach cfg b \<Longrightarrow> bridgeInv b \<and> (\<forall>c\<in>set (sessionCalls b). \<not> isClearing c)"
proof (induction rule: sessionReach.induct)
  case (session_init st)
  then show ?case by (simp add: newBridge_def bridgeInv_def heapOk_def ownSlots_def settledOk_def)
next
  case (session_step b act)
  then have inv: "bridgeInv b" and quiet: "\<And>c. c \<in> set (sessionCalls b) \<Longrightarrow> \<not> isClearing c" by auto
  show ?case
  proof (cases act)
    case (AskSession url version existing)
    then show ?thesis using inv_begin [OF inv, of "sessionForForm cfg url version existing b"] quiet
      by (auto simp: sessionStep_def sessionForForm_def isClearing_def)
  next
    case (AskToken url version subject existing)
    then show ?thesis using inv_begin [OF inv, of "tokenFor cfg url version subject existing b"] quiet
      by (auto simp: sessionStep_def tokenFor_def isClearing_def split: if_splits)
  next
    case (ClearForm url version preserve)
    then show ?thesis using session_step.hyps by (simp add: clearsNothing_def)
  next
    case (ResumeSession i now a)
    show ?thesis
    proof (cases "i < length (sessionCalls b)")
      case True
      let ?c = "sessionCalls b ! i"
      obtain b' c' where r: "resumeSession cfg now i a b ?c = (b', c')" by fastforce
      have c: "\<not> isClearing ?c" using quiet True by simp
      then have "bridgeInv (b'\<lparr>sessionCalls := (sessionCalls b)[i := c']\<rparr>)"
        by (intro inv_resumed [OF inv True _ r]) (auto simp: isClearing_def)
      moreover have "\<not> isClearing c'" using resume_clearing [OF c, of cfg now i a b] r by simp
      ultimately show ?thesis
        using ResumeSession True r quiet set_update_subset_insert [of "sessionCalls b" i c'] by (auto simp: sessionStep_def)
    qed (use ResumeSession session_step.IH in \<open>simp add: sessionStep_def\<close>)
  qed
qed

text \<open>C11. A form has one anonymous respondent: as long as nothing is cleared, all calls that end with a session
  or a token for a form end with the same token, however many issuances race.\<close>

theorem one_respondent_per_form:
  assumes "sessionReach cfg b" "SessionDone f (Inr a) \<in> set (sessionCalls b)" "SessionDone f (Inr a') \<in> set (sessionCalls b)"
    and "tokenOf a = Some t" "tokenOf a' = Some t'"
  shows "t = t'"
proof -
  have "doneOk b (SessionDone f (Inr a))" "doneOk b (SessionDone f (Inr a'))"
    using sessionReach_inv [OF assms(1)] assms(2,3) by (metis bridgeInv_def callOk_def in_set_conv_nth)+
  then show ?thesis using assms(4,5) by (auto simp: doneOk_def)
qed

lemma token_is_of_its_subject:
  assumes "deliver (WantsToken (Some subject)) r = Inr (GaveToken (Some t))" "subject \<noteq> []"
  shows "\<exists>s. r = Inr s \<and> sessionSubject s = subject \<and> sessionToken s = t"
  using assms by (auto simp: deliver_def bindR_Inr_iff assertSubjectMatches_def)


section \<open>Concrete runs\<close>

definition sampleSessions :: session_config where
  "sampleSessions = \<lparr>grantMetadata = Some \<lparr>mdNamespace = ''draft'', mdContext = ''ctx'', mdFits = (\<lambda>_ _ _. True)\<rparr>,
     sessionFormResolver = (\<lambda>url version. url), dateParse = (\<lambda>_. Some 1000000)\<rparr>"

definition sampleGrant :: jsval where
  "sampleGrant = Obj [(''session_id'', Str ''s-1''), (''session_token'', Str ''t-1''), (''subject_ref'', Str ''anon:ada''),
     (''form_id'', Str ''intake''), (''expires_at'', Str ''later'')]"

definition sessionRun :: "session_action list \<Rightarrow> session_bridge \<Rightarrow> session_bridge" where
  "sessionRun acts b = fold (sessionStep sampleSessions) acts b"

lemma sessionRun_reach: "list_all clearsNothing acts \<Longrightarrow> sessionReach sampleSessions b \<Longrightarrow> sessionReach sampleSessions (sessionRun acts b)"
  by (induction acts arbitrary: b) (simp_all add: sessionRun_def session_step)

text \<open>A session and a token are asked for while one issuance is in flight.\<close>

definition raceRun :: "session_action list" where
  "raceRun = [AskSession ''intake'' None False, AskToken ''intake'' None (Some ''anon:ada'') False,
     ResumeSession 0 0 (ContextChecked (Inr ())), ResumeSession 1 0 (ContextChecked (Inr ())),
     ResumeSession 0 0 (IssueReply (Inr sampleGrant)), ResumeSession 1 0 SettledIssue, ResumeSession 0 0 SettledIssue]"

definition issuedSession :: anon_session where
  "issuedSession = \<lparr>sessionId = ''s-1'', sessionToken = ''t-1'', sessionSubject = ''anon:ada'', sessionFormId = ''intake'',
     sessionExpiresAt = ''later''\<rparr>"

lemma race_result:
  "sessionCalls (sessionRun raceRun (newBridge (\<lambda>_. None))) =
     [SessionDone ''intake'' (Inr (GaveSession issuedSession)), SessionDone ''intake'' (Inr (GaveToken (Some ''t-1'')))]"
  "list_all clearsNothing raceRun"
  by code_simp+

theorem one_respondent_per_form_witness:
  "SessionDone ''intake'' (Inr (GaveSession issuedSession)) \<in> set (sessionCalls (sessionRun raceRun (newBridge (\<lambda>_. None)))) \<and>
   sessionToken issuedSession = ''t-1''"
proof -
  let ?b = "sessionRun raceRun (newBridge (\<lambda>_. None))"
  have "sessionReach sampleSessions ?b" using sessionRun_reach [OF race_result(2)] session_init by blast
  from one_respondent_per_form [OF this, of "''intake''" "GaveSession issuedSession" "GaveToken (Some ''t-1'')"] race_result(1)
  show ?thesis by (auto simp: tokenOf_def)
qed

text \<open>A clear waits for an issuance; a second call of the cleared generation is still in flight.\<close>

definition clearRun :: "session_action list" where
  "clearRun = [AskSession ''intake'' None False, AskSession ''intake'' None False, ResumeSession 0 0 (ContextChecked (Inr ())),
     ClearForm ''intake'' None False, ResumeSession 0 0 (IssueReply (Inr sampleGrant))]"

lemma clear_run_finishes:
  "finishesClear sampleSessions ''intake'' (ResumeSession 2 0 SettledIssue) (sessionRun clearRun (newBridge (\<lambda>_. None)))"
  "list_all (\<lambda>c. case pendingRequest c of Some rq \<Rightarrow> rqForm rq = ''intake'' \<longrightarrow> rqGeneration rq < 1 | None \<Rightarrow> True)
     (sessionCalls (sessionStep sampleSessions (ResumeSession 2 0 SettledIssue) (sessionRun clearRun (newBridge (\<lambda>_. None)))))"
  "generations (sessionStep sampleSessions (ResumeSession 2 0 SettledIssue) (sessionRun clearRun (newBridge (\<lambda>_. None)))) ''intake'' = 1"
proof -
  let ?b = "sessionRun clearRun (newBridge (\<lambda>_. None))"
  have c: "length (sessionCalls ?b) = 3" "sessionCalls ?b ! 2 = ClearPending ''intake'' False 0"
    "snd (resumeSession sampleSessions 0 2 SettledIssue ?b (sessionCalls ?b ! 2)) = ClearDone ''intake'' (Inr ())"
    by code_simp+
  then show "finishesClear sampleSessions ''intake'' (ResumeSession 2 0 SettledIssue) ?b" by (simp add: finishesClear_def)
  show "list_all (\<lambda>c. case pendingRequest c of Some rq \<Rightarrow> rqForm rq = ''intake'' \<longrightarrow> rqGeneration rq < 1 | None \<Rightarrow> True)
      (sessionCalls (sessionStep sampleSessions (ResumeSession 2 0 SettledIssue) ?b))"
    by code_simp
  show "generations (sessionStep sampleSessions (ResumeSession 2 0 SettledIssue) ?b) ''intake'' = 1"
    by code_simp
qed

theorem cleared_form_stays_cleared_witness:
  "remembersNothing sampleSessions ''intake'' (sessionStep sampleSessions (ResumeSession 1 0 (ContextChecked (Inr ())))
     (sessionStep sampleSessions (ResumeSession 2 0 SettledIssue) (sessionRun clearRun (newBridge (\<lambda>_. None)))))"
proof -
  let ?b = "sessionStep sampleSessions (ResumeSession 2 0 SettledIssue) (sessionRun clearRun (newBridge (\<lambda>_. None)))"
  have "allOutdated ''intake'' ?b"
    using clear_run_finishes(2,3) by (auto simp: allOutdated_def list_all_iff split: option.splits)
  moreover have "quietRuns sampleSessions ?b (sessionStep sampleSessions (ResumeSession 1 0 (ContextChecked (Inr ()))) ?b)"
    by (rule quiet_step [OF quiet_none]) (simp add: asksNothing_def)
  ultimately show ?thesis by (rule cleared_form_stays_cleared [OF clear_run_finishes(1)])
qed

end
