(* ===== verification/Action_Ledger.thy ===== *)
theory Action_Ledger
  imports Keys Anonymous_Session
begin

text \<open>
  The ledger of response actions, \<open>src/adapters/http/response-action-ledger.ts\<close>: an anonymous
  respondent's action runs in the engine, what it recorded becomes one batch of operations, and the
  batch is appended to the session's ledger before the result is handed on.

  The engine is a parameter: for an input and an invocation id it gives the lifecycle events it
  recorded, in order, and its result. So are the digest and the canonical encoding. A value of the
  options that may depend on the context is a function of it. The replies of the outside world
  come with the call; the requests it sends are its log.
\<close>


section \<open>Data\<close>

datatype ledger_error =
    LedgerSession session_error | LedgerSubjectMismatch | NotCanonicalizable
  | CapabilityRefused | BadCapability | BadCapabilityReply | BadCapabilityScope | CapabilityScopeMismatch
  | CapabilityEndpointRequired | AppendRefused | NotAnchored | MissingField string | InvalidField string

record ledger_context =
  ctxUrl :: string
  ctxDefinition :: jsval
  ctxDraftSubject :: "string option"
  ctxClaimSubject :: "string option"

record author_actor =
  actorId :: string
  actorKind :: string
  actChannel :: string

record ledger_options =
  ledgerBranch :: "ledger_context \<Rightarrow> string option"
  ledgerActor :: "(ledger_context \<Rightarrow> anon_session \<Rightarrow> author_actor) option"
  ledgerArtifacts :: "ledger_context \<Rightarrow> string list option"
  ledgerPreviousHeads :: "ledger_context \<Rightarrow> string list option"
  ledgerNewHeads :: "ledger_context \<Rightarrow> string list option"
  ledgerChangeHashes :: "ledger_context \<Rightarrow> string list option"
  ledgerInvocationId :: "(ledger_context \<Rightarrow> jsval \<Rightarrow> string) option"

record ledger_lib =
  ledgerEngine :: "jsval \<Rightarrow> string option \<Rightarrow> (jsval \<times> jsval) list \<times> jsval"
  canonicalText :: "jsval \<Rightarrow> string option"
  ledgerSha256 :: "byte list \<Rightarrow> byte list"

record append_command =
  cmdLedgerScope :: string
  cmdSessionRef :: jsval
  cmdBranchId :: string
  cmdOpBatch :: jsval
  cmdOpBatchHash :: string
  cmdIdempotencyKey :: string
  cmdMode :: string

record append_receipt =
  rcLedgerScope :: string
  rcPriorEventHash :: "string option"
  rcEventHash :: string
  rcIdempotencyKey :: string
  rcSubstrateEventId :: "string option"
  rcSequence :: "jsnum option"
  rcCheckpoint :: "string option"

record ledger_world =
  gotSession :: "session_error + anon_session"
  openedNow :: string
  capabilityReply :: "append_command \<Rightarrow> ledger_error + string"
  appendReply :: "append_command \<Rightarrow> ledger_error + jsval"

datatype ledger_request = AskedCapability append_command | AppendedBatch append_command string


section \<open>What is recorded\<close>

definition definedProps :: "props \<Rightarrow> jsval" where
  "definedProps ps = Obj (filter (\<lambda>p. snd p \<noteq> Undefined) ps)"

definition lifecycleOp :: "jsval \<times> jsval \<Rightarrow> jsval" where
  "lifecycleOp e = Obj [(''op'', Str ''responseAction.lifecycle''), (''kind'', fst e), (''payload'', snd e)]"

definition effectOp :: "jsval \<Rightarrow> jsval \<Rightarrow> nat \<times> jsval \<Rightarrow> jsval" where
  "effectOp actionId invocationId e = (case e of (effectIndex, outcome) \<Rightarrow> definedProps
     [(''op'', Str ''responseAction.effectOutcome''), (''actionId'', actionId), (''invocationId'', invocationId),
      (''effectIndex'', jsInt (int effectIndex)), (''effectType'', getp outcome ''type''), (''status'', getp outcome ''status''),
      (''idempotencyKey'', getp outcome ''idempotencyKey''), (''outcomeRef'', getp outcome ''outcomeRef''),
      (''reason'', getp outcome ''reason''), (''replayToken'', getp outcome ''replayToken'')])"

definition effectOutcomeSemanticOps :: "jsval \<Rightarrow> jsval \<Rightarrow> jsval list \<Rightarrow> jsval list" where
  "effectOutcomeSemanticOps actionId invocationId effectTrace = concat (map (\<lambda>e.
     if getp (snd e) ''type'' = Str ''hostEvent'' then [] else [effectOp actionId invocationId e]) (enumerate 0 effectTrace))"

definition invocationSemanticOp :: "jsval \<Rightarrow> jsval \<Rightarrow> jsval \<Rightarrow> nat \<Rightarrow> jsval" where
  "invocationSemanticOp invocation actionId invocationId durableEffectCount = definedProps
     [(''op'', Str ''responseAction.invocation''), (''actionId'', actionId), (''invocationId'', invocationId),
      (''status'', getp invocation ''status''), (''blockedCause'', getp invocation ''blockedCause''),
      (''blockedPreconditionId'', getp invocation ''blockedPreconditionId''),
      (''deferredPreconditionId'', getp invocation ''deferredPreconditionId''),
      (''failedPreconditionId'', getp invocation ''failedPreconditionId''),
      (''failedEffectIndex'', getp invocation ''failedEffectIndex''), (''deferredEffectIndex'', getp invocation ''deferredEffectIndex''),
      (''failureReason'', getp invocation ''failureReason''), (''replayToken'', getp invocation ''replayToken''),
      (''durableEffectCount'', jsInt (int durableEffectCount))]"

definition sha256Prefixed :: "ledger_lib \<Rightarrow> byte list \<Rightarrow> string" where
  "sha256Prefixed lib bytes = ''sha256:'' @ bytesToHex (ledgerSha256 lib bytes)"

definition computeJcsSha256Digest :: "ledger_lib \<Rightarrow> jsval \<Rightarrow> ledger_error + string" where
  "computeJcsSha256Digest lib v = (case canonicalText lib v of
     None \<Rightarrow> Inl NotCanonicalizable | Some text \<Rightarrow> Inr (sha256Prefixed lib (utf8 text)))"

definition framedPart :: "string \<Rightarrow> string" where
  "framedPart part = showNat (length part) @ '':'' @ part"

definition keyMaterial :: "string list \<Rightarrow> string" where
  "keyMaterial parts = joinWith ''|'' (map framedPart parts)"

definition studioLedgerIdempotencyKey :: "ledger_lib \<Rightarrow> string \<Rightarrow> string \<Rightarrow> string \<Rightarrow> string" where
  "studioLedgerIdempotencyKey lib ledgerScope branchId opBatchHash =
     sha256Prefixed lib (utf8 (keyMaterial [ledgerScope, branchId, opBatchHash]))"

definition actorFor :: "ledger_options \<Rightarrow> ledger_context \<Rightarrow> anon_session \<Rightarrow> author_actor" where
  "actorFor opts ctx s = (case ledgerActor opts of
     Some f \<Rightarrow> f ctx s
   | None \<Rightarrow> \<lparr>actorId = ''urn:formspec:actor:human:'' @ sessionSubject s, actorKind = ''human'', actChannel = ''human''\<rparr>)"

definition ledgerSubjectMatches :: "ledger_context \<Rightarrow> anon_session \<Rightarrow> ledger_error + unit" where
  "ledgerSubjectMatches ctx s =
     (let expected = (case ctxClaimSubject ctx of Some c \<Rightarrow> Some c | None \<Rightarrow> ctxDraftSubject ctx) in
      throwIf (case expected of Some e \<Rightarrow> e \<noteq> [] \<and> e \<noteq> sessionSubject s | None \<Rightarrow> False) LedgerSubjectMismatch)"

definition strings :: "string list \<Rightarrow> jsval" where
  "strings xs = Arr (map Str xs)"

definition semanticOpsOf :: "(jsval \<times> jsval) list \<Rightarrow> jsval \<Rightarrow> jsval \<Rightarrow> jsval \<Rightarrow> jsval list" where
  "semanticOpsOf events invocation actionId invocationId =
     (let durable = effectOutcomeSemanticOps actionId invocationId (arrItems (getp invocation ''effectTrace'')) in
      map lifecycleOp events @ durable @ [invocationSemanticOp invocation actionId invocationId (length durable)])"

definition invocationIdOf :: "(jsval \<times> jsval) list \<Rightarrow> string option \<Rightarrow> jsval \<Rightarrow> jsval" where
  "invocationIdOf events invId actionId =
     coalesce (case events of [] \<Rightarrow> Undefined | e # _ \<Rightarrow> getp (snd e) ''invocationId'')
       (case invId of Some i \<Rightarrow> Str i | None \<Rightarrow> Str (strOf actionId @ '':unknown-invocation''))"

definition scopeOf :: "anon_session \<Rightarrow> string" where
  "scopeOf s = ''urn:formspec:session:'' @ sessionId s"

definition sessionRefFor :: "ledger_options \<Rightarrow> ledger_context \<Rightarrow> anon_session \<Rightarrow> string \<Rightarrow> jsval" where
  "sessionRefFor opts ctx s now =
     Obj [(''id'', Str (scopeOf s)), (''openedAt'', Str now), (''actors'', strings [actorId (actorFor opts ctx s)])]"

definition branchOf :: "ledger_options \<Rightarrow> ledger_context \<Rightarrow> string" where
  "branchOf opts ctx = (case ledgerBranch opts ctx of Some b \<Rightarrow> b | None \<Rightarrow> ''branch-main'')"

definition opBatchFor :: "ledger_options \<Rightarrow> ledger_context \<Rightarrow> anon_session \<Rightarrow> string \<Rightarrow> jsval list \<Rightarrow> jsval" where
  "opBatchFor opts ctx s now ops =
     (let actor = actorFor opts ctx s;
          refs = (\<lambda>f d. strings (case f opts ctx of Some xs \<Rightarrow> xs | None \<Rightarrow> d))
      in Obj [(''version'', Str ''1.0.0''), (''sessionRef'', sessionRefFor opts ctx s now), (''branchId'', Str (branchOf opts ctx)),
           (''actor'', Obj [(''id'', Str (actorId actor)), (''kind'', Str (actorKind actor)), (''actChannel'', Str (actChannel actor))]),
           (''artifactRefs'', refs ledgerArtifacts [''formspec-definition:'' @ strOf (getp (ctxDefinition ctx) ''url'')]),
           (''previousHeads'', refs ledgerPreviousHeads []), (''newHeads'', refs ledgerNewHeads []),
           (''semanticOps'', Arr ops), (''changeHashes'', refs ledgerChangeHashes [])])"

definition invokeWithLedger :: "ledger_lib \<Rightarrow> ledger_options \<Rightarrow> ledger_context \<Rightarrow> jsval \<Rightarrow> anon_session \<Rightarrow> string \<Rightarrow>
    ledger_error + jsval \<times> append_command option" where
  "invokeWithLedger lib opts ctx input s now =
     (let invId = map_option (\<lambda>f. f ctx input) (ledgerInvocationId opts);
          (events, invocation) = ledgerEngine lib input invId;
          action = getp (getp invocation ''resolution'') ''action''
      in if \<not> truthy (getp (getp invocation ''resolution'') ''resolved'') \<or> \<not> truthy action then Inr (invocation, None)
         else
          (let actionId = getp action ''id'';
               invocationId = invocationIdOf events invId actionId;
               batch = opBatchFor opts ctx s now (semanticOpsOf events invocation actionId invocationId)
           in bindR (computeJcsSha256Digest lib batch) (\<lambda>hash.
              Inr (invocation, Some \<lparr>cmdLedgerScope = scopeOf s, cmdSessionRef = sessionRefFor opts ctx s now,
                cmdBranchId = branchOf opts ctx, cmdOpBatch = batch, cmdOpBatchHash = hash,
                cmdIdempotencyKey = studioLedgerIdempotencyKey lib (scopeOf s) (branchOf opts ctx) hash,
                cmdMode = ''require-anchored''\<rparr>))))"


section \<open>Replies\<close>

definition parseCapabilityResponse :: "jsval \<Rightarrow> string \<Rightarrow> ledger_error + string" where
  "parseCapabilityResponse payload ledgerScope =
     (let capability = getp payload ''capability''; scope = getp payload ''ledgerScope'' in
     bindR (throwIf (\<not> isPlainObject payload) BadCapabilityReply) (\<lambda>_.
     bindR (throwIf (\<not> isNonEmptyString capability \<or> trim (strOf capability) \<noteq> strOf capability) BadCapability) (\<lambda>_.
     bindR (throwIf (scope \<noteq> Undefined \<and> \<not> isNonEmptyString scope) BadCapabilityScope) (\<lambda>_.
     bindR (throwIf (scope \<noteq> Undefined \<and> scope \<noteq> Str ledgerScope) CapabilityScopeMismatch) (\<lambda>_. Inr (strOf capability))))))"

text \<open>The HTTP capability provider: its body and its reply.\<close>

definition capabilityBody :: "string \<Rightarrow> ledger_context \<Rightarrow> anon_session \<Rightarrow> jsval \<Rightarrow> jsval" where
  "capabilityBody formId ctx s command = definedProps
     [(''formId'', Str formId), (''runtimeDefinitionUrl'', Str (ctxUrl ctx)), (''definitionVersion'', getp (ctxDefinition ctx) ''version''),
      (''anonymousSessionToken'', Str (sessionToken s)), (''appendCommand'', command)]"

definition httpCapabilityProvider :: "string \<Rightarrow> (append_command \<Rightarrow> ledger_error + jsval) \<Rightarrow> ledger_error + (append_command \<Rightarrow> ledger_error + string)" where
  "httpCapabilityProvider endpoint reply = bindR (throwIf (trim endpoint = []) CapabilityEndpointRequired) (\<lambda>_.
     Inr (\<lambda>command. bindR (reply command) (\<lambda>payload. parseCapabilityResponse payload (cmdLedgerScope command))))"

definition stringField :: "jsval \<Rightarrow> string \<Rightarrow> ledger_error + string" where
  "stringField v field = (if isNonEmptyString (getp v field) then Inr (strOf (getp v field)) else Inl (MissingField field))"

definition nullableStringField :: "jsval \<Rightarrow> string \<Rightarrow> ledger_error + string option" where
  "nullableStringField v field = (let entry = getp v field in
     if entry = Null \<or> entry = Undefined then Inr None
     else if isNonEmptyString entry then Inr (Some (strOf entry)) else Inl (InvalidField field))"

definition optionalStringField :: "jsval \<Rightarrow> string \<Rightarrow> string option" where
  "optionalStringField v field = (if isNonEmptyString (getp v field) then Some (strOf (getp v field)) else None)"

definition optionalNumberField :: "jsval \<Rightarrow> string \<Rightarrow> jsnum option" where
  "optionalNumberField v field = (case getp v field of Num n \<Rightarrow> Some n | _ \<Rightarrow> None)"

definition parseAnchoredReceipt :: "jsval \<Rightarrow> ledger_error + append_receipt" where
  "parseAnchoredReceipt payload =
     bindR (throwIf (\<not> isPlainObject payload \<or> getp payload ''status'' \<noteq> Str ''anchored'') NotAnchored) (\<lambda>_.
     bindR (stringField payload ''ledgerScope'') (\<lambda>scope.
     bindR (nullableStringField payload ''priorEventHash'') (\<lambda>prior.
     bindR (stringField payload ''eventHash'') (\<lambda>event.
     bindR (stringField payload ''idempotencyKey'') (\<lambda>key.
     Inr \<lparr>rcLedgerScope = scope, rcPriorEventHash = prior, rcEventHash = event, rcIdempotencyKey = key,
       rcSubstrateEventId = optionalStringField payload ''substrateEventId'',
       rcSequence = optionalNumberField payload ''sequence'',
       rcCheckpoint = optionalStringField payload ''checkpointReference''\<rparr>)))))"


section \<open>Invoking\<close>

definition appendSessionOpBatch :: "ledger_world \<Rightarrow> string \<Rightarrow> append_command \<Rightarrow> (ledger_error + append_receipt) \<times> ledger_request list" where
  "appendSessionOpBatch w capability command =
     (if capability = [] \<or> trim capability \<noteq> capability then (Inl BadCapability, [])
      else (bindR (appendReply w command) parseAnchoredReceipt, [AppendedBatch command capability]))"

definition ledgerInvoke :: "ledger_lib \<Rightarrow> ledger_options \<Rightarrow> ledger_context \<Rightarrow> jsval \<Rightarrow> ledger_world \<Rightarrow>
    (ledger_error + jsval) \<times> ledger_request list" where
  "ledgerInvoke lib opts ctx input w =
     (case bindR (map_sum LedgerSession id (gotSession w)) (\<lambda>s.
          bindR (ledgerSubjectMatches ctx s) (\<lambda>_. invokeWithLedger lib opts ctx input s (openedNow w))) of
        Inl e \<Rightarrow> (Inl e, [])
      | Inr (invocation, None) \<Rightarrow> (Inr invocation, [])
      | Inr (invocation, Some command) \<Rightarrow>
          (case capabilityReply w command of
             Inl e \<Rightarrow> (Inl e, [AskedCapability command])
           | Inr capability \<Rightarrow> (let (receipt, sent) = appendSessionOpBatch w capability command in
               (bindR receipt (\<lambda>_. Inr invocation), AskedCapability command # sent))))"

text \<open>The factory gives no invoker to a respondent who is not anonymous.\<close>

definition ledgerInvoker :: "ledger_lib \<Rightarrow> ledger_options \<Rightarrow> ledger_context \<Rightarrow>
    (jsval \<Rightarrow> ledger_world \<Rightarrow> (ledger_error + jsval) \<times> ledger_request list) option" where
  "ledgerInvoker lib opts ctx =
     (if case ctxClaimSubject ctx of Some c \<Rightarrow> \<not> startsWith ''anon:'' c | None \<Rightarrow> False then None
      else Some (ledgerInvoke lib opts ctx))"

section \<open>The key names one batch\<close>

text \<open>The material read back: a length, a colon, that many characters, a separator.\<close>

fun unframe :: "nat \<Rightarrow> string \<Rightarrow> string list" where
  "unframe 0 s = []"
| "unframe (Suc k) s = (let ds = takeWhile (\<lambda>c. c \<noteq> CHR '':'') s; rest = drop (length ds + 1) s; n = readNat ds in
     take n rest # (case drop n rest of [] \<Rightarrow> [] | x # xs \<Rightarrow> unframe k xs))"

lemma colon_free: "c \<in> set (showNat n) \<Longrightarrow> c \<noteq> CHR '':''"
proof
  assume "c \<in> set (showNat n)" "c = CHR '':''"
  then obtain d where "d < 10" "digitChar d = CHR '':''" using set_showNat by metis
  then show False using digitChar_value [of d] by simp
qed

lemma takeWhile_digits: "takeWhile (\<lambda>c. c \<noteq> CHR '':'') (showNat n @ CHR '':'' # s) = showNat n"
  using colon_free by (subst takeWhile_append2) auto

lemma unframe_part: "unframe (Suc k) (framedPart p @ s) = p # (case s of [] \<Rightarrow> [] | x # xs \<Rightarrow> unframe k xs)"
  by (simp add: framedPart_def takeWhile_digits Let_def)

lemma unframe_material: "unframe (length parts) (keyMaterial parts) = parts"
proof (induction parts)
  case (Cons p ps)
  show ?case
  proof (cases ps)
    case Nil
    then show ?thesis using unframe_part [of 0 p "[]"] by (simp add: keyMaterial_def)
  next
    case (Cons q qs)
    then have "keyMaterial (p # ps) = framedPart p @ CHR ''|'' # keyMaterial ps" by (simp add: keyMaterial_def)
    then show ?thesis using Cons.IH unframe_part [of "length ps" p] by simp
  qed
qed (simp add: keyMaterial_def)

text \<open>The text an idempotency key is the digest of is unambiguous: two texts are equal only if ledger scope,
  branch and batch digest are, whatever colons, bars and digits they contain.\<close>

theorem ledger_key_material_unambiguous:
  "keyMaterial [ledgerScope, branchId, opBatchHash] = keyMaterial [ledgerScope', branchId', opBatchHash'] \<longleftrightarrow>
     ledgerScope = ledgerScope' \<and> branchId = branchId' \<and> opBatchHash = opBatchHash'"
proof
  assume e: "keyMaterial [ledgerScope, branchId, opBatchHash] = keyMaterial [ledgerScope', branchId', opBatchHash']"
  have "unframe 3 (keyMaterial [a, b, c]) = [a, b, c]" for a b c using unframe_material [of "[a, b, c]"] by (simp add: numeral_3_eq_3)
  then show "ledgerScope = ledgerScope' \<and> branchId = branchId' \<and> opBatchHash = opBatchHash'" using e by (metis list.inject)
qed simp


section \<open>What a batch records\<close>

definition batchOps :: "append_command \<Rightarrow> jsval list" where
  "batchOps command = arrItems (getp (cmdOpBatch command) ''semanticOps'')"

definition isEffectOp :: "jsval \<Rightarrow> bool" where
  "isEffectOp v = (getp v ''op'' = Str ''responseAction.effectOutcome'')"

lemma getp_definedProps:
  "getp (definedProps ((k, v) # ps)) k' = (if k = k' \<and> v \<noteq> Undefined then v else getp (definedProps ps) k')"
  "getp (definedProps []) k' = Undefined"
  by (auto simp: definedProps_def propOf_def)

lemma effectOp_kind: "isEffectOp (effectOp a i e)"
  by (cases e) (simp add: isEffectOp_def effectOp_def getp_definedProps)

lemma effectOp_index: "getp (effectOp a i e) ''effectIndex'' = jsInt (int (fst e))"
  by (cases e) (simp add: effectOp_def getp_definedProps jsInt_def)

lemma other_ops: "\<not> isEffectOp (lifecycleOp e)" "\<not> isEffectOp (invocationSemanticOp v a i n)"
  by (simp_all add: isEffectOp_def lifecycleOp_def invocationSemanticOp_def getp_definedProps propOf_def)

definition isDurable :: "nat \<times> jsval \<Rightarrow> bool" where
  "isDurable e = (getp (snd e) ''type'' \<noteq> Str ''hostEvent'')"

lemma effect_ops_map: "effectOutcomeSemanticOps a i trace = map (effectOp a i) (filter isDurable (enumerate 0 trace))"
proof -
  have "concat (map (\<lambda>e. if getp (snd e) ''type'' = Str ''hostEvent'' then [] else [effectOp a i e]) es) = map (effectOp a i) (filter isDurable es)" for es
    by (induction es) (simp_all add: isDurable_def)
  then show ?thesis by (simp add: effectOutcomeSemanticOps_def)
qed

lemma semantic_effects: "filter isEffectOp (semanticOpsOf events v a i) = effectOutcomeSemanticOps a i (arrItems (getp v ''effectTrace''))"
proof -
  have "filter isEffectOp (map lifecycleOp es) = []" for es by (simp add: filter_empty_conv other_ops)
  moreover have "filter isEffectOp (map (effectOp a i) xs) = map (effectOp a i) xs" for xs by (induction xs) (simp_all add: effectOp_kind)
  ultimately show ?thesis by (simp add: semanticOpsOf_def Let_def other_ops effect_ops_map)
qed

lemma batch_ops: "getp (opBatchFor opts ctx s now ops) ''semanticOps'' = Arr ops"
  by (simp add: opBatchFor_def Let_def propOf_def)

lemma invoke_command:
  assumes "invokeWithLedger lib opts ctx input s now = Inr (invocation, Some command)"
  obtains events a i where "batchOps command = semanticOpsOf events invocation a i" "cmdLedgerScope command = scopeOf s"
proof -
  obtain events v where e: "ledgerEngine lib input (map_option (\<lambda>f. f ctx input) (ledgerInvocationId opts)) = (events, v)" by fastforce
  show ?thesis
  proof (cases "truthy (getp (getp v ''resolution'') ''resolved'') \<and> truthy (getp (getp v ''resolution'') ''action'')")
    case True
    let ?a = "getp (getp (getp v ''resolution'') ''action'') ''id''"
    have "v = invocation \<and> cmdLedgerScope command = scopeOf s \<and> batchOps command = semanticOpsOf events v ?a
        (invocationIdOf events (map_option (\<lambda>f. f ctx input) (ledgerInvocationId opts)) ?a)"
      using assms e True by (auto simp: invokeWithLedger_def Let_def bindR_Inr_iff batchOps_def batch_ops)
    then show ?thesis using that by blast
  qed (use assms e in \<open>auto simp: invokeWithLedger_def Let_def\<close>)
qed

text \<open>A batch records every durable effect of the action: the effect operations of an appended batch are, in the
  order of the engine's trace and with their indices in it, exactly the outcomes that are not host events.\<close>

theorem batch_records_durable_effects:
  assumes "invokeWithLedger lib opts ctx input s now = Inr (invocation, Some command)"
  shows "map (\<lambda>v. getp v ''effectIndex'') (filter isEffectOp (batchOps command)) =
    map (\<lambda>e. jsInt (int (fst e))) (filter isDurable (enumerate 0 (arrItems (getp invocation ''effectTrace''))))"
proof -
  obtain events a i where "batchOps command = semanticOpsOf events invocation a i" using assms by (rule invoke_command)
  then show ?thesis by (simp add: semantic_effects effect_ops_map effectOp_index)
qed

lemma receipt_anchored: "parseAnchoredReceipt reply = Inr receipt \<Longrightarrow> getp reply ''status'' = Str ''anchored''"
  by (auto simp: parseAnchoredReceipt_def bindR_Inr_iff)

lemma ledgerInvoke_commands:
  assumes "ledgerInvoke lib opts ctx input w = (Inr invocation, sent)"
    and "truthy (getp (getp invocation ''resolution'') ''resolved'')" "truthy (getp (getp invocation ''resolution'') ''action'')"
  obtains s command where "gotSession w = Inr s" "ledgerSubjectMatches ctx s = Inr ()"
    "invokeWithLedger lib opts ctx input s (openedNow w) = Inr (invocation, Some command)"
proof -
  obtain s v where v: "gotSession w = Inr s" "ledgerSubjectMatches ctx s = Inr ()" "invokeWithLedger lib opts ctx input s (openedNow w) = Inr v"
    using assms(1) by (cases "gotSession w"; simp add: ledgerInvoke_def; cases "ledgerSubjectMatches ctx (projr (gotSession w))"; auto split: sum.splits)
  then have "fst v = invocation" using assms(1) by (cases "snd v"; cases v) (auto simp: ledgerInvoke_def bindR_Inr_iff split: sum.splits prod.splits)
  moreover have "snd v \<noteq> None" using v(3) assms(2,3) \<open>fst v = invocation\<close>
    by (auto simp: invokeWithLedger_def Let_def bindR_Inr_iff split: if_splits prod.splits)
  ultimately show ?thesis using that v by (cases v) auto
qed

text \<open>C14. No result without its record: when the invoker hands on the result of a resolved action, the one batch it sent
  went to the ledger of the respondent's own session and the ledger answered that it is anchored.\<close>

theorem result_is_anchored:
  assumes "ledgerInvoker lib opts ctx = Some invoke" "invoke input w = (Inr invocation, sent)"
    and "truthy (getp (getp invocation ''resolution'') ''resolved'')" "truthy (getp (getp invocation ''resolution'') ''action'')"
  shows "\<exists>s command capability reply. gotSession w = Inr s \<and> ledgerSubjectMatches ctx s = Inr () \<and>
    sent = [AskedCapability command, AppendedBatch command capability] \<and> cmdLedgerScope command = scopeOf s \<and>
    appendReply w command = Inr reply \<and> getp reply ''status'' = Str ''anchored''"
proof -
  have run: "ledgerInvoke lib opts ctx input w = (Inr invocation, sent)" using assms(1,2) by (simp add: ledgerInvoker_def split: if_splits)
  obtain s command where s: "gotSession w = Inr s" "ledgerSubjectMatches ctx s = Inr ()"
      "invokeWithLedger lib opts ctx input s (openedNow w) = Inr (invocation, Some command)"
    using run assms(3,4) by (rule ledgerInvoke_commands)
  obtain capability receipt where c: "capabilityReply w command = Inr capability"
      "appendSessionOpBatch w capability command = (Inr receipt, tl sent)" "sent = AskedCapability command # tl sent"
    using run s by (auto simp: ledgerInvoke_def bindR_Inr_iff split: sum.splits prod.splits)
  obtain reply where "sent = [AskedCapability command, AppendedBatch command capability]" "appendReply w command = Inr reply"
      "getp reply ''status'' = Str ''anchored''"
    using c by (auto simp: appendSessionOpBatch_def bindR_Inr_iff dest: receipt_anchored split: if_splits)
  moreover have "cmdLedgerScope command = scopeOf s" using s(3) by (rule invoke_command)
  ultimately show ?thesis using s by blast
qed


text \<open>C37. The receipt of an append is not compared with the command: whenever an invocation appends its batch and
  hands on its result, it hands on the same result if the ledger answers with any other anchored receipt, whatever ledger,
  idempotency key and event that receipt names.\<close>

theorem foreign_receipt_is_accepted:
  assumes "ledgerInvoke lib opts ctx input w = (Inr invocation, sent)" "AppendedBatch command capability \<in> set sent"
    and "parseAnchoredReceipt reply = Inr receipt"
  shows "ledgerInvoke lib opts ctx input (w\<lparr>appendReply := (\<lambda>_. Inr reply)\<rparr>) = (Inr invocation, sent)"
proof -
  let ?run = "\<lambda>w. bindR (map_sum LedgerSession id (gotSession w)) (\<lambda>s.
    bindR (ledgerSubjectMatches ctx s) (\<lambda>_. invokeWithLedger lib opts ctx input s (openedNow w)))"
  obtain v command' where run: "?run w = Inr (v, Some command')" and cap: "capabilityReply w command' = Inr capability"
    using assms(1,2) by (auto simp: ledgerInvoke_def appendSessionOpBatch_def bindR_Inr_iff split: sum.splits option.splits prod.splits if_splits)
  have v: "v = invocation" "sent = AskedCapability command' # [AppendedBatch command' capability]"
      "capability \<noteq> []" "trim capability = capability"
    using assms(1) run cap
    by (auto simp: ledgerInvoke_def appendSessionOpBatch_def bindR_Inr_iff split: prod.splits if_splits)
  show ?thesis using run cap v assms(3) by (simp add: ledgerInvoke_def appendSessionOpBatch_def)
qed


section \<open>Concrete runs\<close>

definition sampleInvocation :: jsval where
  "sampleInvocation = Obj [(''resolution'', Obj [(''resolved'', Bool True), (''action'', Obj [(''id'', Str ''send'')])]),
     (''status'', Str ''completed''),
     (''effectTrace'', Arr [Obj [(''type'', Str ''hostEvent'')], Obj [(''type'', Str ''submit''), (''status'', Str ''completed'')]])]"

definition sampleLedger :: ledger_lib where
  "sampleLedger = \<lparr>ledgerEngine = (\<lambda>input i. ([(Str ''started'', Obj [(''invocationId'', Str ''i-1'')])], sampleInvocation)),
     canonicalText = (\<lambda>v. Some ''{}''), ledgerSha256 = (\<lambda>bs. [])\<rparr>"

definition sampleLedgerOptions :: ledger_options where
  "sampleLedgerOptions = \<lparr>ledgerBranch = (\<lambda>_. None), ledgerActor = None, ledgerArtifacts = (\<lambda>_. None), ledgerPreviousHeads = (\<lambda>_. None),
     ledgerNewHeads = (\<lambda>_. None), ledgerChangeHashes = (\<lambda>_. None), ledgerInvocationId = None\<rparr>"

definition sampleLedgerContext :: ledger_context where
  "sampleLedgerContext = \<lparr>ctxUrl = ''https://forms/intake'', ctxDefinition = Obj [(''url'', Str ''https://forms/intake'')],
     ctxDraftSubject = Some ''anon:ada'', ctxClaimSubject = None\<rparr>"

definition sampleLedgerSession :: anon_session where
  "sampleLedgerSession = \<lparr>sessionId = ''s-1'', sessionToken = ''t-1'', sessionSubject = ''anon:ada'', sessionFormId = ''intake'', sessionExpiresAt = ''later''\<rparr>"

definition foreignReceipt :: jsval where
  "foreignReceipt = Obj [(''status'', Str ''anchored''), (''ledgerScope'', Str ''urn:formspec:session:s-2''), (''eventHash'', Str ''e''),
     (''idempotencyKey'', Str ''another key'')]"

text \<open>A ledger that answers each command with its own receipt.\<close>

definition ownReceipt :: "append_command \<Rightarrow> jsval" where
  "ownReceipt command = Obj [(''status'', Str ''anchored''), (''ledgerScope'', Str (cmdLedgerScope command)), (''eventHash'', Str ''e''),
     (''idempotencyKey'', Str (cmdIdempotencyKey command))]"

definition sampleLedgerWorld :: ledger_world where
  "sampleLedgerWorld = \<lparr>gotSession = Inr sampleLedgerSession, openedNow = ''t0'', capabilityReply = (\<lambda>_. Inr ''cap''),
     appendReply = (\<lambda>command. Inr (ownReceipt command))\<rparr>"

definition sampleCommand :: append_command where
  "sampleCommand = (case invokeWithLedger sampleLedger sampleLedgerOptions sampleLedgerContext Null sampleLedgerSession ''t0'' of
     Inr (v, Some c) \<Rightarrow> c | _ \<Rightarrow> undefined)"

lemma sample_invoked:
  "ledgerInvoke sampleLedger sampleLedgerOptions sampleLedgerContext Null sampleLedgerWorld =
     (Inr sampleInvocation, [AskedCapability sampleCommand, AppendedBatch sampleCommand ''cap''])"
  "invokeWithLedger sampleLedger sampleLedgerOptions sampleLedgerContext Null sampleLedgerSession ''t0'' = Inr (sampleInvocation, Some sampleCommand)"
  by code_simp+

theorem batch_records_durable_effects_witness:
  "map (\<lambda>v. getp v ''effectIndex'') (filter isEffectOp (batchOps sampleCommand)) = [jsInt 1]"
proof -
  have "map (\<lambda>e. jsInt (int (fst e))) (filter isDurable (enumerate 0 (arrItems (getp sampleInvocation ''effectTrace'')))) = [jsInt 1]"
    by code_simp
  then show ?thesis using batch_records_durable_effects [OF sample_invoked(2)] by simp
qed

theorem foreign_receipt_is_accepted_witness:
  "\<exists>receipt. parseAnchoredReceipt foreignReceipt = Inr receipt \<and> rcLedgerScope receipt \<noteq> cmdLedgerScope sampleCommand \<and>
     rcIdempotencyKey receipt \<noteq> cmdIdempotencyKey sampleCommand \<and>
     ledgerInvoke sampleLedger sampleLedgerOptions sampleLedgerContext Null (sampleLedgerWorld\<lparr>appendReply := (\<lambda>_. Inr foreignReceipt)\<rparr>) =
       (Inr sampleInvocation, [AskedCapability sampleCommand, AppendedBatch sampleCommand ''cap''])"
proof -
  have "case parseAnchoredReceipt foreignReceipt of Inl e \<Rightarrow> False
    | Inr receipt \<Rightarrow> rcLedgerScope receipt \<noteq> cmdLedgerScope sampleCommand \<and> rcIdempotencyKey receipt \<noteq> cmdIdempotencyKey sampleCommand"
    by code_simp
  then obtain receipt where r: "parseAnchoredReceipt foreignReceipt = Inr receipt" "rcLedgerScope receipt \<noteq> cmdLedgerScope sampleCommand"
      "rcIdempotencyKey receipt \<noteq> cmdIdempotencyKey sampleCommand" by (auto split: sum.splits)
  show ?thesis using foreign_receipt_is_accepted [OF sample_invoked(1) _ r(1), of sampleCommand "''cap''"] r by simp
qed

theorem result_is_anchored_witness:
  "\<exists>command. cmdLedgerScope command = ''urn:formspec:session:s-1'' \<and>
     snd (ledgerInvoke sampleLedger sampleLedgerOptions sampleLedgerContext Null sampleLedgerWorld) = [AskedCapability command, AppendedBatch command ''cap'']"
proof -
  have i: "ledgerInvoker sampleLedger sampleLedgerOptions sampleLedgerContext =
      Some (ledgerInvoke sampleLedger sampleLedgerOptions sampleLedgerContext)"
    by (simp add: ledgerInvoker_def sampleLedgerContext_def)
  have a: "truthy (getp (getp sampleInvocation ''resolution'') ''resolved'')" "truthy (getp (getp sampleInvocation ''resolution'') ''action'')"
    by code_simp+
  have s: "gotSession sampleLedgerWorld = Inr sampleLedgerSession" "scopeOf sampleLedgerSession = ''urn:formspec:session:s-1''"
    by code_simp+
  show ?thesis using result_is_anchored [OF i sample_invoked(1) a] s sample_invoked(1) by auto
qed

end
