(* ===== verification/Screener_Coordinator.thy ===== *)
theory Screener_Coordinator
  imports Response_Evidence
begin

text \<open>
  The coordinator of a screener run, \<open>src/shared/native-screener-coordinator.ts\<close>, as an interleaving
  of its calls. A call is the await it is suspended at, and the operation of a call is its number:
  an operation is retired as soon as it is not the active one. A captured context is a number too;
  the world of a step says which contexts, callers and facts still hold at that instant, and what
  the elapsed clock reads. The retention and hydration ports and \<open>Date.parse\<close> are parameters;
  capturing a context and notifying a route change do not throw.
\<close>


section \<open>State and calls\<close>

datatype screener_error =
    ClockUnavailable | OwnerNotCurrent | CoordinatorDisposed | OperationRetired | SelectionMismatch | FlatAnswersRequired
  | RecoveryUnavailable | RefreshRecoveryUnavailable | RefreshUnavailable | RefreshedAcceptanceUnavailable
  | RunUnavailable | FactsNotCurrent | FactsNotReady | ProofSelectorMismatch | ScreenerPortFailure

record screener_config =
  scSelectionKey :: string
  canRecover :: bool
  canRefresh :: bool
  canLoad :: bool
  parseDate :: "jsval \<Rightarrow> rat option"
  selectorJson :: "jsval \<Rightarrow> string option"

record screener_world =
  currentContext :: nat
  routeContext :: nat
  contextHolds :: "nat \<Rightarrow> bool"
  contextIdentity :: "nat \<Rightarrow> string"
  callerHolds :: "nat \<Rightarrow> bool"
  factsCurrent :: bool
  factsReady :: bool
  elapsedReads :: "jsnum \<times> jsnum"

text \<open>A deadline is a time or never, for a result without validity.\<close>

record screener_route =
  routeRun :: jsval
  routeIdentity :: string
  routeDeadline :: "rat option"
  routeOwner :: nat

record completion_frame =
  cfParent :: nat
  cfRouteOwner :: nat
  cfRouteIdentity :: string \<comment> \<open>the owner's identity as the attempt found it\<close>
  cfStarted :: rat
  cfTarget :: jsval
  cfDocument :: jsval

record saved_frame =
  sfParent :: nat
  sfSaved :: jsval
  sfRefreshes :: bool \<comment> \<open>a call of \<open>refreshSaved\<close>\<close>
  sfAllowRefresh :: bool
  sfPreSign :: bool

datatype completion_result = Accepted | Refused jsval

datatype screener_call =
    AwaitRetain completion_frame
  | CompletionReturned completion_frame completion_result
  | CompletionThrew screener_error
  | RouteOpenedThrew completion_frame screener_error \<comment> \<open>the timer's clock read failed\<close>
  | CompletionNotBegun screener_error
  | AwaitRecover saved_frame
  | AwaitLoad saved_frame
  | AwaitRefresh saved_frame
  | AwaitAssociate saved_frame jsval
  | AwaitHydrate saved_frame jsval
  | QualifiedFacts saved_frame jsval jsval
  | FactsRetired
  | RefreshReturned
  | SavedThrew screener_error

record coordinator =
  scRun :: "jsval option"
  activeOp :: "nat option"
  scDisposed :: bool
  uncertainRefresh :: bool
  lastElapsed :: "rat option"
  scRoute :: "screener_route option"
  expiryTimer :: "rat option"
  routeChanges :: nat

record coordinator_system =
  coord :: coordinator
  scCalls :: "screener_call list"

datatype screener_answer = PortAnswered "screener_error + jsval"


section \<open>Clock, routes and operations\<close>

definition elapsedClock :: "jsnum \<Rightarrow> coordinator \<Rightarrow> screener_error + (rat \<times> coordinator)" where
  "elapsedClock v s = (case v of
     Fin t \<Rightarrow> if (case lastElapsed s of None \<Rightarrow> False | Some l \<Rightarrow> t < l) then Inl ClockUnavailable
       else Inr (t, s\<lparr>lastElapsed := Some t\<rparr>)
   | _ \<Rightarrow> Inl ClockUnavailable)"

definition retireRoute :: "bool \<Rightarrow> coordinator \<Rightarrow> coordinator" where
  "retireRoute notify s = s\<lparr>scRoute := None, expiryTimer := None, routeChanges := routeChanges s + (if notify then 1 else 0)\<rparr>"

definition acceptanceOf :: "jsval \<Rightarrow> jsval" where
  "acceptanceOf view = dot view [''acceptance'', ''qualification'']"

definition acceptedFor :: "jsval \<Rightarrow> jsval \<Rightarrow> bool" where
  "acceptedFor view target = (getp (acceptanceOf view) ''status'' = Str ''ready'' \<and> getp (acceptanceOf view) ''target'' = target)"

definition routeAllowed :: "screener_world \<Rightarrow> jsval \<Rightarrow> jsval \<Rightarrow> coordinator \<Rightarrow> bool \<times> coordinator" where
  "routeAllowed w target document s =
    (case scRoute s of
       None \<Rightarrow> (False, retireRoute False s)
     | Some rt \<Rightarrow>
        if scDisposed s then (False, retireRoute False s)
        else (case elapsedClock (fst (elapsedReads w)) s of
          Inl e \<Rightarrow> (False, retireRoute False s)
        | Inr (t, s) \<Rightarrow>
           if (case routeDeadline rt of None \<Rightarrow> False | Some d \<Rightarrow> t \<ge> d) \<or> \<not> contextHolds w (routeOwner rt)
             \<or> \<not> contextHolds w (routeContext w) \<or> contextIdentity w (routeContext w) \<noteq> routeIdentity rt
           then (False, retireRoute False s)
           else (dot (routeRun rt) [''selection'', ''screenerUrl''] = getp document ''url'' \<and>
             dot (routeRun rt) [''selection'', ''screenerVersion''] = getp document ''version'' \<and> acceptedFor (routeRun rt) target, s)))"

definition opCurrent :: "screener_world \<Rightarrow> nat \<Rightarrow> nat \<Rightarrow> coordinator \<Rightarrow> screener_error + unit" where
  "opCurrent w i parent s = throwIf (scDisposed s \<or> activeOp s \<noteq> Some i \<or> \<not> contextHolds w parent \<or> \<not> callerHolds w i) OperationRetired"

text \<open>\<open>begin\<close>: the operation before is retired even if this one is refused.\<close>

definition beginOp :: "screener_world \<Rightarrow> nat \<Rightarrow> coordinator \<Rightarrow> (screener_error + unit) \<times> coordinator" where
  "beginOp w i s =
    (let s = s\<lparr>activeOp := None\<rparr> in
     if scDisposed s then (Inl CoordinatorDisposed, s)
     else (case opCurrent w i (currentContext w) (s\<lparr>activeOp := Some i\<rparr>) of
       Inl e \<Rightarrow> (Inl e, s) | Inr _ \<Rightarrow> (Inr (), s\<lparr>activeOp := Some i\<rparr>)))"

definition finishOp :: "nat \<Rightarrow> coordinator \<Rightarrow> coordinator" where
  "finishOp i s = (if activeOp s = Some i then s\<lparr>activeOp := None\<rparr> else s)"


section \<open>Completing\<close>

definition isPrimitive :: "jsval \<Rightarrow> bool" where
  "isPrimitive v = (case v of Str _ \<Rightarrow> True | Bool _ \<Rightarrow> True | Num (Fin _) \<Rightarrow> True | _ \<Rightarrow> False)"

definition primitiveAnswers :: "jsval \<Rightarrow> bool" where
  "primitiveAnswers answers = (case answers of Obj ps \<Rightarrow> list_all (isPrimitive \<circ> snd) ps | _ \<Rightarrow> False)"

definition beginComplete :: "screener_config \<Rightarrow> screener_world \<Rightarrow> nat \<Rightarrow> jsval \<Rightarrow> coordinator \<Rightarrow> coordinator \<times> screener_call" where
  "beginComplete cfg w i request s =
    (let s = retireRoute True (s\<lparr>scRun := None\<rparr>) in
     case elapsedClock (fst (elapsedReads w)) s of
       Inl e \<Rightarrow> (s, CompletionNotBegun e)
     | Inr (started, s) \<Rightarrow>
        if \<not> contextHolds w (routeContext w) then (s, CompletionNotBegun OwnerNotCurrent)
        else (case beginOp w i s of
          (Inl e, s) \<Rightarrow> (s, CompletionThrew e)
        | (Inr _, s) \<Rightarrow>
           if getp request ''selectionKey'' \<noteq> Str (scSelectionKey cfg) then (finishOp i s, CompletionThrew SelectionMismatch)
           else if \<not> primitiveAnswers (getp request ''answers'') then (finishOp i s, CompletionThrew FlatAnswersRequired)
           else (s, AwaitRetain \<lparr>cfParent = currentContext w, cfRouteOwner = routeContext w,
             cfRouteIdentity = contextIdentity w (routeContext w), cfStarted = started, cfTarget = getp request ''target'', cfDocument = getp request ''document''\<rparr>)))"

datatype remaining_time = Unbounded | Bounded rat | Unreadable

definition remainingOf :: "screener_config \<Rightarrow> jsval \<Rightarrow> jsval \<Rightarrow> remaining_time" where
  "remainingOf cfg document retained =
    (let until = dot retained [''run'', ''determination'', ''validity'', ''validUntil''] in
     if until = Undefined \<and> \<not> truthy (getp document ''resultValidity'') then Unbounded
     else (case (parseDate cfg (coalesce until (Str [])), parseDate cfg (dot retained [''acceptance'', ''checkedAt''])) of
       (Some u, Some c) \<Rightarrow> Bounded (u - c - 1) | _ \<Rightarrow> Unreadable))"

definition refusal :: "jsval \<Rightarrow> completion_result" where
  "refusal qualification = Refused (if getp qualification ''status'' = Str ''pending'' then getp qualification ''reason''
     else Str ''native-screener-acceptance-unavailable'')"

definition deadlineOf :: "rat \<Rightarrow> remaining_time \<Rightarrow> rat option" where
  "deadlineOf started r = (case r of Bounded t \<Rightarrow> Some (started + t) | _ \<Rightarrow> None)"

definition isPositive :: "remaining_time \<Rightarrow> bool" where
  "isPositive r = (case r of Unbounded \<Rightarrow> True | Bounded t \<Rightarrow> t > 0 | Unreadable \<Rightarrow> False)"

definition MAX_DELAY :: rat where
  "MAX_DELAY = 2147483647"

text \<open>The last reads of the clock are the expiry check and the timer's delay.\<close>

definition openRoute :: "screener_world \<Rightarrow> nat \<Rightarrow> completion_frame \<Rightarrow> jsval \<Rightarrow> rat option \<Rightarrow> coordinator \<Rightarrow> coordinator \<times> screener_call" where
  "openRoute w i fr retained deadline s =
    (let s = s\<lparr>scRoute := Some \<lparr>routeRun = retained, routeIdentity = cfRouteIdentity fr,
        routeDeadline = deadline, routeOwner = cfRouteOwner fr\<rparr>\<rparr> in
     case deadline of
       None \<Rightarrow> (finishOp i (s\<lparr>routeChanges := routeChanges s + 1\<rparr>), CompletionReturned fr Accepted)
     | Some d \<Rightarrow>
        (case elapsedClock (snd (elapsedReads w)) s of
           Inl e \<Rightarrow> (finishOp i s, RouteOpenedThrew fr e)
         | Inr (t, s) \<Rightarrow> (finishOp i (s\<lparr>expiryTimer := Some (min (d - t) MAX_DELAY), routeChanges := routeChanges s + 1\<rparr>),
             CompletionReturned fr Accepted)))"

definition retained :: "screener_config \<Rightarrow> screener_world \<Rightarrow> nat \<Rightarrow> completion_frame \<Rightarrow> screener_error + jsval \<Rightarrow> coordinator \<Rightarrow>
    coordinator \<times> screener_call" where
  "retained cfg w i fr r s =
    (case bindR r (\<lambda>view. bindR (opCurrent w i (cfParent fr) s) (\<lambda>_. Inr view)) of
       Inl e \<Rightarrow> (finishOp i s, CompletionThrew e)
     | Inr view \<Rightarrow>
        if \<not> acceptedFor view (cfTarget fr) \<or> dot view [''run'', ''qualification'', ''status''] \<noteq> Str ''ready''
          \<or> dot view [''run'', ''qualification'', ''target''] \<noteq> cfTarget fr
        then (finishOp i s, CompletionReturned fr (refusal (acceptanceOf view)))
        else
         (let s = s\<lparr>scRun := Some view\<rparr>; remaining = remainingOf cfg (cfDocument fr) view; deadline = deadlineOf (cfStarted fr) remaining;
              expired = CompletionReturned fr (Refused (Str ''native-screener-route-expired''))
          in if \<not> contextHolds w (cfRouteOwner fr) \<or> \<not> contextHolds w (routeContext w) then (finishOp i s, CompletionThrew OwnerNotCurrent)
             else if contextIdentity w (routeContext w) \<noteq> cfRouteIdentity fr \<or> \<not> isPositive remaining
             then (finishOp i (s\<lparr>scRun := None\<rparr>), expired)
             else (case elapsedClock (fst (elapsedReads w)) s of
               Inl e \<Rightarrow> (finishOp i s, CompletionThrew e)
             | Inr (t, s) \<Rightarrow> if (case deadline of None \<Rightarrow> False | Some d \<Rightarrow> t \<ge> d) then (finishOp i (s\<lparr>scRun := None\<rparr>), expired)
                 else openRoute w i fr view deadline s)))"


section \<open>Qualifying and refreshing a saved draft\<close>

definition runReady :: "jsval \<Rightarrow> bool" where
  "runReady view = (getp (acceptanceOf view) ''status'' = Str ''ready'')"

definition currentCheck :: "saved_frame \<Rightarrow> bool" where
  "currentCheck fr = (arrItems (dot (sfSaved fr) [''response'', ''authoredSignatures'']) \<noteq> [])"

definition allowsRefresh :: "saved_frame \<Rightarrow> bool" where
  "allowsRefresh fr = (sfAllowRefresh fr \<and> \<not> currentCheck fr \<and>
     \<not> truthy (dot (sfSaved fr) [''response'', ''extensions'', ''x-formspec-signing-content'']))"

definition savedThrows :: "nat \<Rightarrow> screener_error \<Rightarrow> coordinator \<Rightarrow> coordinator \<times> screener_call" where
  "savedThrows i e s = (finishOp i s, SavedThrew e)"

text \<open>The run is fixed: associate it, or hydrate at once when the response is signed.\<close>

definition qualifyIssued :: "screener_world \<Rightarrow> nat \<Rightarrow> saved_frame \<Rightarrow> coordinator \<Rightarrow> coordinator \<times> screener_call" where
  "qualifyIssued w i fr s = (case scRun s of
     None \<Rightarrow> savedThrows i RunUnavailable s
   | Some issued \<Rightarrow> if currentCheck fr then
        (case opCurrent w i (sfParent fr) s of Inl e \<Rightarrow> savedThrows i e s | Inr _ \<Rightarrow> (s, AwaitHydrate fr issued))
      else (s, AwaitAssociate fr issued))"

definition beginRefreshing :: "screener_config \<Rightarrow> nat \<Rightarrow> saved_frame \<Rightarrow> coordinator \<Rightarrow> coordinator \<times> screener_call" where
  "beginRefreshing cfg i fr s =
    (if uncertainRefresh s then (if \<not> canLoad cfg then savedThrows i RefreshRecoveryUnavailable s else (s, AwaitLoad fr))
     else (s\<lparr>uncertainRefresh := True\<rparr>, AwaitRefresh fr))"

definition beginQualify :: "screener_config \<Rightarrow> screener_world \<Rightarrow> nat \<Rightarrow> jsval \<Rightarrow> bool \<Rightarrow> bool \<Rightarrow> coordinator \<Rightarrow> coordinator \<times> screener_call" where
  "beginQualify cfg w i saved allow preSign s =
    (case beginOp w i s of
       (Inl e, s) \<Rightarrow> (s, SavedThrew e)
     | (Inr _, s) \<Rightarrow>
        (let fr = \<lparr>sfParent = currentContext w, sfSaved = saved, sfRefreshes = False, sfAllowRefresh = allow, sfPreSign = preSign\<rparr> in
         if scRun s = None \<and> currentCheck fr
         then (if \<not> canRecover cfg then savedThrows i RecoveryUnavailable s else (s, AwaitRecover fr))
         else if allowsRefresh fr \<and> (case scRun s of None \<Rightarrow> True | Some v \<Rightarrow> \<not> runReady v) \<and> canRecover cfg \<and> canRefresh cfg
         then (if scRun s = None then (s, AwaitRecover fr) else beginRefreshing cfg i fr s)
         else qualifyIssued w i fr s))"

definition refreshIssued :: "screener_config \<Rightarrow> nat \<Rightarrow> saved_frame \<Rightarrow> coordinator \<Rightarrow> coordinator \<times> screener_call" where
  "refreshIssued cfg i fr s = (if \<not> canRefresh cfg then savedThrows i RefreshUnavailable s else beginRefreshing cfg i fr s)"

definition beginRefreshSaved :: "screener_config \<Rightarrow> screener_world \<Rightarrow> nat \<Rightarrow> jsval \<Rightarrow> coordinator \<Rightarrow> coordinator \<times> screener_call" where
  "beginRefreshSaved cfg w i saved s =
    (case beginOp w i s of
       (Inl e, s) \<Rightarrow> (s, SavedThrew e)
     | (Inr _, s) \<Rightarrow>
        (let fr = \<lparr>sfParent = currentContext w, sfSaved = saved, sfRefreshes = True, sfAllowRefresh = False, sfPreSign = False\<rparr> in
         if scRun s = None then (if \<not> canRecover cfg then savedThrows i RecoveryUnavailable s else (s, AwaitRecover fr))
         else refreshIssued cfg i fr s))"

text \<open>Every answer of a port is used only while its operation is the active one.\<close>

definition savedOn :: "screener_world \<Rightarrow> nat \<Rightarrow> saved_frame \<Rightarrow> coordinator \<Rightarrow> screener_error + jsval \<Rightarrow>
    (jsval \<Rightarrow> coordinator \<times> screener_call) \<Rightarrow> coordinator \<times> screener_call" where
  "savedOn w i fr s r k = (case bindR r (\<lambda>v. bindR (opCurrent w i (sfParent fr) s) (\<lambda>_. Inr v)) of
     Inl e \<Rightarrow> savedThrows i e s | Inr v \<Rightarrow> k v)"

definition screenerRecovered :: "screener_config \<Rightarrow> screener_world \<Rightarrow> nat \<Rightarrow> saved_frame \<Rightarrow> jsval \<Rightarrow> coordinator \<Rightarrow> coordinator \<times> screener_call" where
  "screenerRecovered cfg w i fr view s =
    (let s = s\<lparr>scRun := Some view\<rparr> in
     if sfRefreshes fr then refreshIssued cfg i fr s
     else if \<not> currentCheck fr \<and> \<not> runReady view then beginRefreshing cfg i fr s
     else qualifyIssued w i fr s)"

definition screenerRefreshed :: "screener_world \<Rightarrow> nat \<Rightarrow> saved_frame \<Rightarrow> jsval \<Rightarrow> coordinator \<Rightarrow> coordinator \<times> screener_call" where
  "screenerRefreshed w i fr fresh s =
    (let s = s\<lparr>scRun := Some fresh, uncertainRefresh := False\<rparr> in
     if \<not> runReady fresh \<or> dot fresh [''run'', ''qualification'', ''status''] \<noteq> Str ''ready''
     then savedThrows i RefreshedAcceptanceUnavailable s
     else if sfRefreshes fr then (finishOp i s, RefreshReturned)
     else qualifyIssued w i fr s)"

definition checkSelector :: "jsval \<Rightarrow> jsval" where
  "checkSelector issued = Obj [(''selectionHash'', dot issued [''run'', ''selectionHash'']), (''runId'', dot issued [''run'', ''runId'']),
     (''runRevision'', dot issued [''run'', ''revision''])]"

definition hydrated :: "screener_config \<Rightarrow> screener_world \<Rightarrow> nat \<Rightarrow> saved_frame \<Rightarrow> jsval \<Rightarrow> jsval \<Rightarrow> coordinator \<Rightarrow> coordinator \<times> screener_call" where
  "hydrated cfg w i fr issued facts s =
    (if \<not> factsCurrent w then savedThrows i FactsNotCurrent s
     else if currentCheck fr \<and> selectorJson cfg (getp facts ''nativeCurrentCheck'') \<noteq> selectorJson cfg (checkSelector issued)
     then savedThrows i ProofSelectorMismatch s
     else if sfPreSign fr \<and> \<not> factsReady w then (s, SavedThrew FactsNotReady)
     else (s, QualifiedFacts fr issued facts))"

definition resumeScreener :: "screener_config \<Rightarrow> screener_world \<Rightarrow> nat \<Rightarrow> screener_answer \<Rightarrow> coordinator \<Rightarrow> screener_call \<Rightarrow>
    coordinator \<times> screener_call" where
  "resumeScreener cfg w i a s c =
    (case a of PortAnswered r \<Rightarrow>
      (case c of
         AwaitRetain fr \<Rightarrow> retained cfg w i fr r s
       | AwaitRecover fr \<Rightarrow> savedOn w i fr s r (\<lambda>view. screenerRecovered cfg w i fr view s)
       | AwaitLoad fr \<Rightarrow> savedOn w i fr s r (\<lambda>view. (s\<lparr>scRun := Some view, uncertainRefresh := True\<rparr>, AwaitRefresh fr))
       | AwaitRefresh fr \<Rightarrow> savedOn w i fr s r (\<lambda>fresh. screenerRefreshed w i fr fresh s)
       | AwaitAssociate fr issued \<Rightarrow> savedOn w i fr s r (\<lambda>_. (s, AwaitHydrate fr issued))
       | AwaitHydrate fr issued \<Rightarrow> savedOn w i fr s r (\<lambda>facts. hydrated cfg w i fr issued facts s)
       | _ \<Rightarrow> (s, c)))"

text \<open>Whether the facts of a call may still be used, as their \<open>assertCurrent\<close> decides.\<close>

definition factsUsable :: "screener_world \<Rightarrow> nat \<Rightarrow> coordinator_system \<Rightarrow> bool" where
  "factsUsable w i s = (i < length (scCalls s) \<and> (case scCalls s ! i of
     QualifiedFacts fr issued facts \<Rightarrow> opCurrent w i (sfParent fr) (coord s) = Inr () \<and> factsCurrent w | _ \<Rightarrow> False))"


text \<open>A failed check of the operation retires it for good, a failed check of the facts does not.\<close>

definition assertFacts :: "screener_world \<Rightarrow> nat \<Rightarrow> coordinator_system \<Rightarrow> coordinator_system" where
  "assertFacts w i s = (if i < length (scCalls s) then (case scCalls s ! i of
     QualifiedFacts fr issued facts \<Rightarrow>
       if isl (opCurrent w i (sfParent fr) (coord s)) then s\<lparr>scCalls := (scCalls s)[i := FactsRetired]\<rparr> else s
   | _ \<Rightarrow> s) else s)"


section \<open>The coordinator\<close>

definition retireFacts :: "coordinator \<Rightarrow> coordinator" where
  "retireFacts s = s\<lparr>activeOp := None\<rparr>"

definition retireAuthority :: "coordinator \<Rightarrow> coordinator" where
  "retireAuthority s = retireFacts (retireRoute False (s\<lparr>scRun := None\<rparr>))"

definition disposeCoordinator :: "coordinator \<Rightarrow> coordinator" where
  "disposeCoordinator s = (if scDisposed s then s else retireFacts (retireRoute True (s\<lparr>scDisposed := True, scRun := None\<rparr>)))"

datatype screener_action =
    Complete jsval
  | QualifySaved jsval bool
  | PreSignCandidate jsval
  | RefreshSaved jsval
  | RouteAllowed jsval jsval
  | AssertFacts nat
  | ExpiryFires
  | RetireFacts
  | RetireAuthority
  | DisposeCoordinator
  | ResumeScreener nat screener_answer

definition onCoord :: "(coordinator \<Rightarrow> coordinator) \<Rightarrow> coordinator_system \<Rightarrow> coordinator_system" where
  "onCoord f s = s\<lparr>coord := f (coord s)\<rparr>"

definition enters :: "(nat \<Rightarrow> coordinator \<Rightarrow> coordinator \<times> screener_call) \<Rightarrow> coordinator_system \<Rightarrow> coordinator_system" where
  "enters f s = (let (c, call) = f (length (scCalls s)) (coord s) in \<lparr>coord = c, scCalls = scCalls s @ [call]\<rparr>)"

definition screenerStep :: "screener_config \<Rightarrow> screener_world \<Rightarrow> screener_action \<Rightarrow> coordinator_system \<Rightarrow> coordinator_system" where
  "screenerStep cfg w act s =
    (case act of
       Complete request \<Rightarrow> enters (\<lambda>i. beginComplete cfg w i request) s
     | QualifySaved saved allow \<Rightarrow> enters (\<lambda>i. beginQualify cfg w i saved allow False) s
     | PreSignCandidate saved \<Rightarrow> enters (\<lambda>i. beginQualify cfg w i saved False True) s
     | RefreshSaved saved \<Rightarrow> enters (\<lambda>i. beginRefreshSaved cfg w i saved) s
     | RouteAllowed target document \<Rightarrow> onCoord (\<lambda>c. snd (routeAllowed w target document c)) s
     | AssertFacts i \<Rightarrow> assertFacts w i s
     | ExpiryFires \<Rightarrow> onCoord (\<lambda>c. if expiryTimer c = None then c else retireRoute True c) s
     | RetireFacts \<Rightarrow> onCoord retireFacts s
     | RetireAuthority \<Rightarrow> onCoord retireAuthority s
     | DisposeCoordinator \<Rightarrow> onCoord disposeCoordinator s
     | ResumeScreener i a \<Rightarrow> if i < length (scCalls s)
         then (let (c, call) = resumeScreener cfg w i a (coord s) (scCalls s ! i) in \<lparr>coord = c, scCalls = (scCalls s)[i := call]\<rparr>)
         else s)"

definition newCoordinator :: coordinator_system where
  "newCoordinator = \<lparr>coord = \<lparr>scRun = None, activeOp = None, scDisposed = False, uncertainRefresh = False, lastElapsed = None,
     scRoute = None, expiryTimer = None, routeChanges = 0\<rparr>, scCalls = []\<rparr>"

end
