(* ===== verification/Screener_Safety.thy ===== *)
theory Screener_Safety
  imports Screener_Coordinator
begin

text \<open>
  What the coordinator of \<open>Screener_Coordinator\<close> guarantees whatever the ports answer and however its
  calls overlap: the facts that may still be used are of the run it holds, an open route belongs to
  the last attempt and closes before its result runs out, and, the other way round, a refresh whose
  outcome was lost is never sent again where the retention port cannot load.
\<close>

section \<open>Reachable coordinators\<close>

inductive screenerReach :: "screener_config \<Rightarrow> coordinator_system \<Rightarrow> bool" for cfg where
  start: "screenerReach cfg newCoordinator"
| step: "screenerReach cfg s \<Longrightarrow> screenerReach cfg (screenerStep cfg w act s)"

definition screenerRun :: "screener_config \<Rightarrow> (screener_world \<times> screener_action) list \<Rightarrow> coordinator_system \<Rightarrow> coordinator_system" where
  "screenerRun cfg was s = foldl (\<lambda>s (w, act). screenerStep cfg w act s) s was"

lemma screenerRun_reach: "screenerReach cfg s \<Longrightarrow> screenerReach cfg (screenerRun cfg was s)"
  unfolding screenerRun_def by (induction was arbitrary: s) (auto intro: screenerReach.step)

lemma opCurrent_iff [simp]:
  "opCurrent w i parent s = Inr () \<longleftrightarrow> \<not> scDisposed s \<and> activeOp s = Some i \<and> contextHolds w parent \<and> callerHolds w i"
  by (auto simp: opCurrent_def)

text \<open>A begun operation is the active one, and beginning leaves the rest alone.\<close>

lemma beginOp_cases:
  "beginOp w i s = (r, s') \<Longrightarrow> s' = s\<lparr>activeOp := None\<rparr> \<and> isl r \<or> s' = s\<lparr>activeOp := Some i\<rparr> \<and> r = Inr ()"
  by (auto simp: beginOp_def Let_def opCurrent_def throwIf_def split: if_splits)

lemma elapsedClock_Inr: "elapsedClock v s = Inr (t, s') \<longleftrightarrow> v = Fin t \<and> (\<forall>l. lastElapsed s = Some l \<longrightarrow> l \<le> t) \<and> s' = s\<lparr>lastElapsed := Some t\<rparr>"
  by (auto simp: elapsedClock_def split: jsnum.splits option.splits)

lemmas begin_defs = beginComplete_def beginQualify_def beginRefreshSaved_def qualifyIssued_def beginRefreshing_def
  refreshIssued_def savedThrows_def finishOp_def retireRoute_def Let_def

lemmas resume_defs = resumeScreener_def savedOn_def retained_def openRoute_def screenerRecovered_def screenerRefreshed_def hydrated_def
  qualifyIssued_def beginRefreshing_def refreshIssued_def savedThrows_def finishOp_def Let_def

lemmas action_defs = onCoord_def enters_def retireFacts_def retireRoute_def retireAuthority_def disposeCoordinator_def Let_def

lemma routeAllowed_frame:
  "snd (routeAllowed w target document c) = s' \<Longrightarrow>
   activeOp s' = activeOp c \<and> scRun s' = scRun c \<and> uncertainRefresh s' = uncertainRefresh c \<and> (scRoute s' = None \<or> scRoute s' = scRoute c)"
  by (auto simp: routeAllowed_def retireRoute_def elapsedClock_def split: option.splits sum.splits if_splits jsnum.splits)


section \<open>Current facts\<close>

fun heldRun :: "screener_call \<Rightarrow> jsval option" where
  "heldRun (AwaitAssociate _ issued) = Some issued"
| "heldRun (AwaitHydrate _ issued) = Some issued"
| "heldRun (QualifiedFacts _ issued _) = Some issued"
| "heldRun _ = None"

definition factsOfRun :: "coordinator_system \<Rightarrow> bool" where
  "factsOfRun s = (\<forall>i. activeOp (coord s) = Some i \<longrightarrow> i < length (scCalls s) \<and>
     (\<forall>r. heldRun (scCalls s ! i) = Some r \<longrightarrow> scRun (coord s) = None \<or> scRun (coord s) = Some r))"

definition entryKeepsFacts :: "(coordinator \<Rightarrow> coordinator \<times> screener_call) \<Rightarrow> nat \<Rightarrow> coordinator \<Rightarrow> bool" where
  "entryKeepsFacts f i s = (case f s of (s', c) \<Rightarrow>
     (activeOp s' = None \<or> activeOp s' = Some i \<or> (activeOp s' = activeOp s \<and> scRun s' = None)) \<and>
     (\<forall>r. heldRun c = Some r \<longrightarrow> scRun s' = Some r))"

lemma complete_keeps: "entryKeepsFacts (beginComplete cfg w i request) i s"
  unfolding entryKeepsFacts_def
  by (auto simp: begin_defs elapsedClock_Inr split: sum.splits prod.splits dest!: beginOp_cases)

lemma qualify_keeps: "entryKeepsFacts (beginQualify cfg w i saved allow preSign) i s"
  unfolding entryKeepsFacts_def
  by (auto simp: begin_defs split: sum.splits prod.splits option.splits dest!: beginOp_cases)

lemma refresh_keeps: "entryKeepsFacts (beginRefreshSaved cfg w i saved) i s"
  unfolding entryKeepsFacts_def
  by (auto simp: begin_defs split: sum.splits prod.splits option.splits dest!: beginOp_cases)

lemma enters_keeps_facts:
  assumes "factsOfRun s" "entryKeepsFacts (f (length (scCalls s))) (length (scCalls s)) (coord s)"
  shows "factsOfRun (enters f s)"
  using assms by (auto simp: factsOfRun_def entryKeepsFacts_def enters_def nth_append less_Suc_eq split: prod.splits)

text \<open>A retired call changes nothing but itself.\<close>

lemma resume_retired:
  "resumeScreener cfg w i a s c = (s', c') \<Longrightarrow> activeOp s \<noteq> Some i \<Longrightarrow> s' = s"
  by (auto simp: resume_defs bindR_Inr_iff split: screener_answer.splits screener_call.splits sum.splits)

lemma resume_active:
  "resumeScreener cfg w i a s c = (s', c') \<Longrightarrow> activeOp s = Some i \<Longrightarrow>
   (activeOp s' = None \<or> activeOp s' = Some i) \<and>
   (activeOp s' = Some i \<longrightarrow> (\<forall>r. heldRun c' = Some r \<longrightarrow> scRun s' = Some r \<or> heldRun c = Some r \<and> scRun s' = scRun s))"
  by (cases c)
    (auto simp: resume_defs elapsedClock_Inr split: screener_answer.splits sum.splits if_splits option.splits prod.splits)

lemma resume_keeps_facts:
  assumes "factsOfRun s" "i < length (scCalls s)" "resumeScreener cfg w i a (coord s) (scCalls s ! i) = (c, call)"
  shows "factsOfRun \<lparr>coord = c, scCalls = (scCalls s)[i := call]\<rparr>"
proof (cases "activeOp (coord s) = Some i")
  case True
  then show ?thesis using resume_active [OF assms(3)] assms(1,2) unfolding factsOfRun_def by fastforce
next
  case False
  then show ?thesis using resume_retired [OF assms(3)] assms(1,2) by (auto simp: factsOfRun_def nth_list_update)
qed

lemma step_keeps_facts:
  assumes "factsOfRun s"
  shows "factsOfRun (screenerStep cfg w act s)"
proof (cases act)
  case (ResumeScreener i a)
  then show ?thesis using assms resume_keeps_facts [of s i cfg w a] by (auto simp: screenerStep_def split: prod.splits)
next
  case (AssertFacts i)
  then show ?thesis using assms
    by (auto simp: screenerStep_def assertFacts_def factsOfRun_def nth_list_update split: screener_call.splits)
next
  case (RouteAllowed target document)
  then show ?thesis using assms routeAllowed_frame [OF refl, of w target document "coord s"]
    by (auto simp: screenerStep_def onCoord_def factsOfRun_def)
qed (use assms in \<open>simp_all add: screenerStep_def enters_keeps_facts complete_keeps qualify_keeps refresh_keeps,
  auto simp: factsOfRun_def action_defs\<close>)

lemma reach_facts: "screenerReach cfg s \<Longrightarrow> factsOfRun s"
proof (induction rule: screenerReach.induct)
  case start
  then show ?case by (simp add: factsOfRun_def newCoordinator_def)
qed (rule step_keeps_facts)


section \<open>The open route\<close>

fun isCompletion :: "screener_call \<Rightarrow> bool" where
  "isCompletion (AwaitRetain _) = True"
| "isCompletion (CompletionReturned _ _) = True"
| "isCompletion (CompletionThrew _) = True"
| "isCompletion (RouteOpenedThrew _ _) = True"
| "isCompletion _ = False"

fun openedBy :: "screener_call \<Rightarrow> completion_frame option" where
  "openedBy (CompletionReturned fr Accepted) = Some fr"
| "openedBy (RouteOpenedThrew fr _) = Some fr"
| "openedBy _ = None"

definition noneBegunAfter :: "nat \<Rightarrow> screener_call list \<Rightarrow> bool" where
  "noneBegunAfter i calls = (\<forall>j. i < j \<longrightarrow> j < length calls \<longrightarrow> \<not> isCompletion (calls ! j))"

definition routeFits :: "screener_config \<Rightarrow> completion_frame \<Rightarrow> screener_route \<Rightarrow> bool" where
  "routeFits cfg fr rt = (acceptedFor (routeRun rt) (cfTarget fr) \<and> isPositive (remainingOf cfg (cfDocument fr) (routeRun rt)) \<and>
     routeDeadline rt = deadlineOf (cfStarted fr) (remainingOf cfg (cfDocument fr) (routeRun rt)))"

text \<open>What the active operation and the open route say about the calls entered later.\<close>

definition activeIsLast :: "coordinator_system \<Rightarrow> bool" where
  "activeIsLast s = (\<forall>i. activeOp (coord s) = Some i \<longrightarrow> noneBegunAfter i (scCalls s))"

definition routeIsLast :: "screener_config \<Rightarrow> coordinator_system \<Rightarrow> bool" where
  "routeIsLast cfg s = (\<forall>rt. scRoute (coord s) = Some rt \<longrightarrow>
     (\<exists>i fr. i < length (scCalls s) \<and> openedBy (scCalls s ! i) = Some fr \<and> routeFits cfg fr rt \<and> noneBegunAfter i (scCalls s)))"

definition entryKeepsRoute :: "(coordinator \<Rightarrow> coordinator \<times> screener_call) \<Rightarrow> nat \<Rightarrow> coordinator \<Rightarrow> bool" where
  "entryKeepsRoute f i s = (case f s of (s', c) \<Rightarrow>
     (activeOp s' = None \<or> activeOp s' = Some i \<or> activeOp s' = activeOp s \<and> \<not> isCompletion c) \<and>
     (scRoute s' = None \<or> scRoute s' = scRoute s \<and> \<not> isCompletion c))"

lemma complete_route: "entryKeepsRoute (beginComplete cfg w i request) i s"
  unfolding entryKeepsRoute_def
  by (auto simp: begin_defs elapsedClock_Inr split: sum.splits prod.splits dest!: beginOp_cases)

lemma saved_steps_frame:
  "qualifyIssued w i fr s = (s', c) \<Longrightarrow> scRoute s' = scRoute s \<and> \<not> isCompletion c \<and> (activeOp s' = None \<or> activeOp s' = activeOp s)"
  "beginRefreshing cfg i fr s = (s', c) \<Longrightarrow> scRoute s' = scRoute s \<and> \<not> isCompletion c \<and> (activeOp s' = None \<or> activeOp s' = activeOp s)"
  "refreshIssued cfg i fr s = (s', c) \<Longrightarrow> scRoute s' = scRoute s \<and> \<not> isCompletion c \<and> (activeOp s' = None \<or> activeOp s' = activeOp s)"
  "savedThrows i e s = (s', c) \<Longrightarrow> scRoute s' = scRoute s \<and> \<not> isCompletion c \<and> (activeOp s' = None \<or> activeOp s' = activeOp s)"
  by (auto simp: begin_defs split: sum.splits option.splits if_splits)

lemma qualify_route: "entryKeepsRoute (beginQualify cfg w i saved allow preSign) i s"
  unfolding entryKeepsRoute_def beginQualify_def
  by (auto simp: Let_def split: sum.splits prod.splits dest!: beginOp_cases saved_steps_frame)

lemma refresh_route: "entryKeepsRoute (beginRefreshSaved cfg w i saved) i s"
  unfolding entryKeepsRoute_def beginRefreshSaved_def
  by (auto simp: Let_def split: sum.splits prod.splits dest!: beginOp_cases saved_steps_frame)

lemma noneBegunAfter_length: "noneBegunAfter (length calls) calls"
  by (simp add: noneBegunAfter_def)

lemma noneBegunAfter_append:
  "noneBegunAfter i (calls @ [c]) \<longleftrightarrow> noneBegunAfter i calls \<and> (i < length calls \<longrightarrow> \<not> isCompletion c)"
  by (auto simp: noneBegunAfter_def nth_append less_Suc_eq)

lemma noneBegunAfter_update:
  "noneBegunAfter i calls \<Longrightarrow> isCompletion c = isCompletion (calls ! j) \<Longrightarrow> noneBegunAfter i (calls[j := c])"
  by (simp add: noneBegunAfter_def) (metis nth_list_update_eq nth_list_update_neq)

lemma enters_route:
  assumes "activeIsLast s" "routeIsLast cfg s" "entryKeepsRoute (f (length (scCalls s))) (length (scCalls s)) (coord s)"
  shows "activeIsLast (enters f s) \<and> routeIsLast cfg (enters f s)"
proof -
  obtain c call where f: "f (length (scCalls s)) (coord s) = (c, call)" by fastforce
  have e: "enters f s = \<lparr>coord = c, scCalls = scCalls s @ [call]\<rparr>" by (simp add: enters_def f)
  have "activeIsLast (enters f s)"
    using assms(1,3) by (auto simp: e f activeIsLast_def entryKeepsRoute_def noneBegunAfter_append intro: noneBegunAfter_length)
  moreover have "routeIsLast cfg (enters f s)" unfolding routeIsLast_def
  proof (intro allI impI)
    fix rt assume rt: "scRoute (coord (enters f s)) = Some rt"
    then have old: "scRoute (coord s) = Some rt" "\<not> isCompletion call"
      using assms(3) by (auto simp: e f entryKeepsRoute_def)
    then obtain i fr where "i < length (scCalls s)" "openedBy (scCalls s ! i) = Some fr" "routeFits cfg fr rt"
        "noneBegunAfter i (scCalls s)"
      using assms(2) by (auto simp: routeIsLast_def)
    then show "\<exists>i fr. i < length (scCalls (enters f s)) \<and> openedBy (scCalls (enters f s) ! i) = Some fr \<and>
        routeFits cfg fr rt \<and> noneBegunAfter i (scCalls (enters f s))"
      using old(2) by (intro exI [of _ i] exI [of _ fr]) (auto simp: e nth_append noneBegunAfter_append)
  qed
  ultimately show ?thesis ..
qed

lemma openRoute_fits:
  assumes "openRoute w i fr view deadline s = (s', c)" "acceptedFor view (cfTarget fr)"
    "isPositive (remainingOf cfg (cfDocument fr) view)" "deadline = deadlineOf (cfStarted fr) (remainingOf cfg (cfDocument fr) view)"
  shows "\<exists>rt. scRoute s' = Some rt \<and> openedBy c = Some fr \<and> routeFits cfg fr rt"
  using assms
  by (auto simp: openRoute_def routeFits_def finishOp_def Let_def elapsedClock_Inr split: option.splits sum.splits prod.splits)

lemma openRoute_completes: "openRoute w i fr view deadline s = (s', c) \<Longrightarrow> isCompletion c"
  by (auto simp: openRoute_def Let_def split: option.splits sum.splits prod.splits)

lemma finishOp_frame [simp]: "scRoute (finishOp i s) = scRoute s" "scRun (finishOp i s) = scRun s"
    "uncertainRefresh (finishOp i s) = uncertainRefresh s"
  by (simp_all add: finishOp_def)

lemma retained_route:
  assumes "retained cfg w i fr r s = (s', c)"
  shows "isCompletion c \<and> (scRoute s' = scRoute s \<or> (\<exists>rt. scRoute s' = Some rt \<and> openedBy c = Some fr \<and> routeFits cfg fr rt))"
proof (cases "\<exists>view t s1. r = Inr view \<and> acceptedFor view (cfTarget fr) \<and> isPositive (remainingOf cfg (cfDocument fr) view) \<and>
    openRoute w i fr view (deadlineOf (cfStarted fr) (remainingOf cfg (cfDocument fr) view)) s1 = (s', c)")
  case True
  then show ?thesis using openRoute_fits openRoute_completes by metis
next
  case False
  with assms show ?thesis
    by (auto simp: retained_def Let_def bindR_Inr_iff elapsedClock_Inr split: sum.splits if_splits prod.splits)
qed

lemma resume_route:
  assumes "resumeScreener cfg w i a s c = (s', c')"
  shows "isCompletion c' = isCompletion c"
    "scRoute s' = scRoute s \<or> (\<exists>rt fr. scRoute s' = Some rt \<and> openedBy c' = Some fr \<and> routeFits cfg fr rt \<and> activeOp s = Some i)"
    "openedBy c = Some fr \<Longrightarrow> c' = c"
    "activeOp s = Some i \<Longrightarrow> activeOp s' = None \<or> activeOp s' = Some i"
proof -
  have "isCompletion c' = isCompletion c \<and>
    (scRoute s' = scRoute s \<or> (\<exists>rt fr. scRoute s' = Some rt \<and> openedBy c' = Some fr \<and> routeFits cfg fr rt))"
  proof (cases c)
    case (AwaitRetain fr)
    then show ?thesis using assms retained_route by (cases a) (fastforce simp: resumeScreener_def)
  qed (use assms in \<open>cases a; auto simp: resumeScreener_def savedOn_def screenerRecovered_def screenerRefreshed_def hydrated_def Let_def
      split: sum.splits if_splits dest!: saved_steps_frame\<close>)+
  moreover have "activeOp s \<noteq> Some i \<Longrightarrow> s' = s" by (rule resume_retired [OF assms])
  ultimately show "isCompletion c' = isCompletion c"
    "scRoute s' = scRoute s \<or> (\<exists>rt fr. scRoute s' = Some rt \<and> openedBy c' = Some fr \<and> routeFits cfg fr rt \<and> activeOp s = Some i)"
    by auto
  show "openedBy c = Some fr \<Longrightarrow> c' = c"
    using assms by (cases a; cases c) (auto simp: resumeScreener_def)
  show "activeOp s = Some i \<Longrightarrow> activeOp s' = None \<or> activeOp s' = Some i"
    using resume_active [OF assms] by auto
qed

lemma resume_keeps_route:
  assumes inv: "activeIsLast s" "routeIsLast cfg s" and i: "i < length (scCalls s)"
    and r: "resumeScreener cfg w i a (coord s) (scCalls s ! i) = (c, call)"
  shows "activeIsLast \<lparr>coord = c, scCalls = (scCalls s)[i := call]\<rparr> \<and> routeIsLast cfg \<lparr>coord = c, scCalls = (scCalls s)[i := call]\<rparr>"
proof
  note upd = noneBegunAfter_update [OF _ resume_route(1) [OF r]]
  have active: "activeOp c = Some k \<Longrightarrow> activeOp (coord s) = Some k" for k
    using resume_route(4) [OF r] resume_retired [OF r] by (cases "activeOp (coord s) = Some i") auto
  then show "activeIsLast \<lparr>coord = c, scCalls = (scCalls s)[i := call]\<rparr>"
    using inv(1) upd by (auto simp: activeIsLast_def)
  show "routeIsLast cfg \<lparr>coord = c, scCalls = (scCalls s)[i := call]\<rparr>" unfolding routeIsLast_def
  proof (intro allI impI)
    fix rt assume rt: "scRoute (coord \<lparr>coord = c, scCalls = (scCalls s)[i := call]\<rparr>) = Some rt"
    consider "scRoute (coord s) = Some rt"
      | fr where "openedBy call = Some fr" "routeFits cfg fr rt" "activeOp (coord s) = Some i"
      using rt resume_route(2) [OF r] by fastforce
    then obtain j fr where j: "j < length (scCalls s)" "openedBy ((scCalls s)[i := call] ! j) = Some fr" "routeFits cfg fr rt"
        "noneBegunAfter j (scCalls s)"
    proof cases
      case 1
      then obtain j fr where "j < length (scCalls s)" "openedBy (scCalls s ! j) = Some fr" "routeFits cfg fr rt" "noneBegunAfter j (scCalls s)"
        using inv(2) by (auto simp: routeIsLast_def)
      moreover from this have "(scCalls s)[i := call] ! j = scCalls s ! j"
        using resume_route(3) [OF r] by (cases "i = j") auto
      ultimately show ?thesis using that by auto
    next
      case 2
      then show ?thesis using that [of i] i inv(1) by (auto simp: activeIsLast_def)
    qed
    then show "\<exists>j fr. j < length (scCalls \<lparr>coord = c, scCalls = (scCalls s)[i := call]\<rparr>) \<and>
        openedBy (scCalls \<lparr>coord = c, scCalls = (scCalls s)[i := call]\<rparr> ! j) = Some fr \<and> routeFits cfg fr rt \<and>
        noneBegunAfter j (scCalls \<lparr>coord = c, scCalls = (scCalls s)[i := call]\<rparr>)"
      using upd by auto
  qed
qed

lemma routeAllowed_route: "scRoute (snd (routeAllowed w target document c)) = Some rt \<Longrightarrow> scRoute c = Some rt"
  using routeAllowed_frame [OF refl, of w target document c] by auto

lemma routeIsLast_less: "routeIsLast cfg s \<Longrightarrow> scCalls s' = scCalls s \<Longrightarrow>
    (\<And>rt. scRoute (coord s') = Some rt \<Longrightarrow> scRoute (coord s) = Some rt) \<Longrightarrow> routeIsLast cfg s'"
  unfolding routeIsLast_def by metis

lemma activeIsLast_less: "activeIsLast s \<Longrightarrow> scCalls s' = scCalls s \<Longrightarrow>
    (\<And>i. activeOp (coord s') = Some i \<Longrightarrow> activeOp (coord s) = Some i) \<Longrightarrow> activeIsLast s'"
  unfolding activeIsLast_def by metis

lemma facts_retired_route:
  assumes "activeIsLast s" "routeIsLast cfg s" "i < length (scCalls s)" "scCalls s ! i = QualifiedFacts fr r f"
  shows "activeIsLast (s\<lparr>scCalls := (scCalls s)[i := FactsRetired]\<rparr>) \<and> routeIsLast cfg (s\<lparr>scCalls := (scCalls s)[i := FactsRetired]\<rparr>)"
proof -
  have keep: "noneBegunAfter k (scCalls s) \<Longrightarrow> noneBegunAfter k ((scCalls s)[i := FactsRetired])" for k
    using assms(4) by (auto intro: noneBegunAfter_update)
  have "openedBy (scCalls s ! k) = Some g \<Longrightarrow> openedBy ((scCalls s)[i := FactsRetired] ! k) = Some g" for k g
    using assms(4) by (cases "k = i") auto
  then show ?thesis using assms(1,2) keep unfolding activeIsLast_def routeIsLast_def by fastforce
qed

lemma step_keeps_route:
  assumes inv: "activeIsLast s" "routeIsLast cfg s"
  shows "activeIsLast (screenerStep cfg w act s) \<and> routeIsLast cfg (screenerStep cfg w act s)"
proof (cases act)
  case (ResumeScreener i a)
  then show ?thesis using inv resume_keeps_route [of s cfg i w a] by (auto simp: screenerStep_def split: prod.splits)
next
  case (AssertFacts i)
  then show ?thesis using inv facts_retired_route [OF inv, of i]
    by (auto simp: screenerStep_def assertFacts_def split: screener_call.splits)
next
  case (RouteAllowed target document)
  then show ?thesis using routeAllowed_route [of w target document "coord s"] routeAllowed_frame [OF refl, of w target document "coord s"]
    by (auto simp: screenerStep_def onCoord_def intro: routeIsLast_less [OF inv(2)] activeIsLast_less [OF inv(1)])
qed (simp_all add: screenerStep_def enters_route [OF inv] complete_route qualify_route refresh_route,
  auto simp: action_defs intro!: routeIsLast_less [OF inv(2)] activeIsLast_less [OF inv(1)] split: if_splits)

lemma reach_route: "screenerReach cfg s \<Longrightarrow> activeIsLast s \<and> routeIsLast cfg s"
proof (induction rule: screenerReach.induct)
  case start
  then show ?case by (simp add: activeIsLast_def routeIsLast_def newCoordinator_def)
qed (simp add: step_keeps_route)


section \<open>A lost refresh\<close>

fun refreshInFlight :: "screener_call \<Rightarrow> bool" where
  "refreshInFlight (AwaitRefresh _) = True"
| "refreshInFlight (AwaitLoad _) = True"
| "refreshInFlight _ = False"

text \<open>A refresh was sent, its outcome is unknown, and no request is under way that could settle it.\<close>

definition refreshLost :: "coordinator_system \<Rightarrow> bool" where
  "refreshLost s = (uncertainRefresh (coord s) \<and> list_all (\<lambda>c. \<not> refreshInFlight c) (scCalls s))"

lemma saved_steps_lost:
  assumes "\<not> canLoad cfg" "uncertainRefresh s"
  shows "qualifyIssued w i fr s = (s', c) \<Longrightarrow> uncertainRefresh s' \<and> \<not> refreshInFlight c"
    "beginRefreshing cfg i fr s = (s', c) \<Longrightarrow> uncertainRefresh s' \<and> \<not> refreshInFlight c"
    "refreshIssued cfg i fr s = (s', c) \<Longrightarrow> uncertainRefresh s' \<and> \<not> refreshInFlight c"
    "savedThrows i e s = (s', c) \<Longrightarrow> uncertainRefresh s' \<and> \<not> refreshInFlight c"
  using assms by (auto simp: begin_defs split: sum.splits option.splits if_splits)

lemma begin_lost:
  assumes "\<not> canLoad cfg" "uncertainRefresh s"
  shows "beginComplete cfg w i request s = (s', c) \<Longrightarrow> uncertainRefresh s' \<and> \<not> refreshInFlight c"
    "beginQualify cfg w i saved allow preSign s = (s', c) \<Longrightarrow> uncertainRefresh s' \<and> \<not> refreshInFlight c"
    "beginRefreshSaved cfg w i saved s = (s', c) \<Longrightarrow> uncertainRefresh s' \<and> \<not> refreshInFlight c"
proof -
  show "beginComplete cfg w i request s = (s', c) \<Longrightarrow> uncertainRefresh s' \<and> \<not> refreshInFlight c"
    using assms(2) by (auto simp: begin_defs elapsedClock_Inr split: sum.splits prod.splits if_splits dest!: beginOp_cases)
  show "beginQualify cfg w i saved allow preSign s = (s', c) \<Longrightarrow> uncertainRefresh s' \<and> \<not> refreshInFlight c"
    using assms(2) unfolding beginQualify_def
    by (auto simp: Let_def split: sum.splits prod.splits if_splits dest!: beginOp_cases saved_steps_lost [OF assms(1), rotated])
  show "beginRefreshSaved cfg w i saved s = (s', c) \<Longrightarrow> uncertainRefresh s' \<and> \<not> refreshInFlight c"
    using assms(2) unfolding beginRefreshSaved_def
    by (auto simp: Let_def split: sum.splits prod.splits if_splits dest!: beginOp_cases saved_steps_lost [OF assms(1), rotated])
qed

lemma openRoute_uncertain: "openRoute w i fr view deadline s = (s', c) \<Longrightarrow> uncertainRefresh s' = uncertainRefresh s"
  by (auto simp: openRoute_def Let_def elapsedClock_Inr split: option.splits sum.splits prod.splits)

lemma completion_not_refresh: "isCompletion c \<Longrightarrow> \<not> refreshInFlight c"
  by (cases c) auto

lemma resume_lost:
  assumes "\<not> canLoad cfg" "uncertainRefresh s" "\<not> refreshInFlight c" and r: "resumeScreener cfg w i a s c = (s', c')"
  shows "uncertainRefresh s' \<and> \<not> refreshInFlight c'"
proof (cases c)
  case (AwaitRetain fr)
  have "uncertainRefresh s'" using assms AwaitRetain
    by (cases a) (auto simp: resumeScreener_def retained_def Let_def elapsedClock_Inr split: sum.splits if_splits prod.splits dest!: openRoute_uncertain)
  moreover have "isCompletion c'" using resume_route(1) [OF r] AwaitRetain by simp
  ultimately show ?thesis by (simp add: completion_not_refresh)
qed (use assms in \<open>cases a; auto simp: resumeScreener_def savedOn_def screenerRecovered_def hydrated_def Let_def
    split: sum.splits if_splits dest!: saved_steps_lost [OF assms(1), rotated]\<close>)+

lemma enters_lost:
  assumes "refreshLost s" "\<And>c' call. uncertainRefresh (coord s) \<Longrightarrow> f (length (scCalls s)) (coord s) = (c', call) \<Longrightarrow> uncertainRefresh c' \<and> \<not> refreshInFlight call"
  shows "refreshLost (enters f s)"
proof -
  obtain c' call where "f (length (scCalls s)) (coord s) = (c', call)" by fastforce
  then show ?thesis using assms by (simp add: refreshLost_def enters_def)
qed

lemma step_lost:
  assumes load: "\<not> canLoad cfg" and lost: "refreshLost s"
  shows "refreshLost (screenerStep cfg w act s)"
proof (cases act)
  case (ResumeScreener i a)
  obtain c call where r: "resumeScreener cfg w i a (coord s) (scCalls s ! i) = (c, call)" by fastforce
  show ?thesis
  proof (cases "i < length (scCalls s)")
    case True
    then have "uncertainRefresh c \<and> \<not> refreshInFlight call"
      using resume_lost [OF load _ _ r] lost by (auto simp: refreshLost_def list_all_length)
    then show ?thesis using lost ResumeScreener True r
      by (auto simp: refreshLost_def screenerStep_def list_all_iff dest!: subsetD [OF set_update_subset_insert])
  qed (use lost ResumeScreener in \<open>simp add: screenerStep_def\<close>)
next
  case (AssertFacts i)
  then show ?thesis using lost
    by (auto simp: screenerStep_def assertFacts_def refreshLost_def list_all_iff split: screener_call.splits
      dest!: subsetD [OF set_update_subset_insert])
next
  case (RouteAllowed target document)
  then show ?thesis using lost routeAllowed_frame [OF refl, of w target document "coord s"]
    by (auto simp: screenerStep_def onCoord_def refreshLost_def)
next
  case (Complete request)
  show ?thesis unfolding Complete by (simp add: screenerStep_def, rule enters_lost [OF lost], rule begin_lost(1) [OF load])
next
  case (QualifySaved saved allow)
  show ?thesis unfolding QualifySaved by (simp add: screenerStep_def, rule enters_lost [OF lost], rule begin_lost(2) [OF load])
next
  case (PreSignCandidate saved)
  show ?thesis unfolding PreSignCandidate by (simp add: screenerStep_def, rule enters_lost [OF lost], rule begin_lost(2) [OF load])
next
  case (RefreshSaved saved)
  show ?thesis unfolding RefreshSaved by (simp add: screenerStep_def, rule enters_lost [OF lost], rule begin_lost(3) [OF load])
qed (use lost in \<open>auto simp: screenerStep_def refreshLost_def action_defs\<close>)

lemma run_lost: "\<not> canLoad cfg \<Longrightarrow> refreshLost s \<Longrightarrow> refreshLost (screenerRun cfg was s)"
  unfolding screenerRun_def by (induction was arbitrary: s) (auto simp: step_lost)


section \<open>Sample runs\<close>

definition sampleScreener :: screener_config where
  "sampleScreener = \<lparr>scSelectionKey = ''key'', canRecover = True, canRefresh = True, canLoad = False,
     parseDate = (\<lambda>v. if v = Str ''noon'' then Some 1000 else if v = Str ''eleven'' then Some 400 else None), selectorJson = (\<lambda>_. None)\<rparr>"

definition worldAt :: "jsnum \<Rightarrow> screener_world" where
  "worldAt t = \<lparr>currentContext = 0, routeContext = 0, contextHolds = (\<lambda>_. True), contextIdentity = (\<lambda>_. ''owner''),
     callerHolds = (\<lambda>_. True), factsCurrent = True, factsReady = True, elapsedReads = (t, t)\<rparr>"

definition sampleView :: "string \<Rightarrow> jsval" where
  "sampleView runId = Obj [
     (''selection'', Obj [(''screenerUrl'', Str ''url''), (''screenerVersion'', Str ''1'')]),
     (''acceptance'', Obj [(''checkedAt'', Str ''eleven''), (''qualification'', Obj [(''status'', Str ''ready''), (''target'', Str ''form'')])]),
     (''run'', Obj [(''runId'', Str runId), (''qualification'', Obj [(''status'', Str ''ready''), (''target'', Str ''form'')]),
       (''determination'', Obj [(''validity'', Obj [(''validUntil'', Str ''noon'')])])])]"

definition sampleDocument :: jsval where
  "sampleDocument = Obj [(''url'', Str ''url''), (''version'', Str ''1'')]"

definition sampleRequest :: jsval where
  "sampleRequest = Obj [(''selectionKey'', Str ''key''), (''target'', Str ''form''), (''answers'', Obj []), (''document'', sampleDocument)]"

definition sampleDraft :: jsval where
  "sampleDraft = Obj [(''response'', Obj [])]"

definition completedRun :: "(screener_world \<times> screener_action) list" where
  "completedRun = [(worldAt (Fin 10), Complete sampleRequest),
     (worldAt (Fin 20), ResumeScreener 0 (PortAnswered (Inr (sampleView ''a''))))]"

definition qualifiedRun :: "(screener_world \<times> screener_action) list" where
  "qualifiedRun = completedRun @ [(worldAt (Fin 30), QualifySaved sampleDraft False),
     (worldAt (Fin 40), ResumeScreener 1 (PortAnswered (Inr Undefined))),
     (worldAt (Fin 50), ResumeScreener 1 (PortAnswered (Inr (Obj []))))]"

definition lostRun :: "(screener_world \<times> screener_action) list" where
  "lostRun = completedRun @ [(worldAt (Fin 30), RefreshSaved sampleDraft),
     (worldAt (Fin 40), ResumeScreener 1 (PortAnswered (Inl ScreenerPortFailure)))]"

definition secondAttempt :: "(screener_world \<times> screener_action) list" where
  "secondAttempt = [(worldAt (Fin 50), Complete sampleRequest),
     (worldAt (Fin 60), ResumeScreener 2 (PortAnswered (Inr (sampleView ''b'')))),
     (worldAt (Fin 70), RefreshSaved sampleDraft)]"

lemma sample_reach: "screenerReach cfg (screenerRun cfg was newCoordinator)"
  by (rule screenerRun_reach [OF screenerReach.start])

text \<open>An attempt that fails before it begins an operation drops the run, and leaves the facts usable.\<close>

lemma abandoned_attempt_keeps_facts:
  "\<exists>s. screenerReach sampleScreener s \<and> scRun (coord s) = None \<and> last (scCalls s) = CompletionNotBegun ClockUnavailable \<and>
     factsUsable (worldAt (Fin 60)) 1 s"
proof (intro exI conjI)
  let ?s = "screenerRun sampleScreener (qualifiedRun @ [(worldAt PosInfinity, Complete sampleRequest)]) newCoordinator"
  show "screenerReach sampleScreener ?s" by (rule sample_reach)
  show "scRun (coord ?s) = None" "last (scCalls ?s) = CompletionNotBegun ClockUnavailable" by code_simp+
  show "factsUsable (worldAt (Fin 60)) 1 ?s" by code_simp
qed


section \<open>The properties\<close>

text \<open>C18. Facts that may still be used belong to the run the coordinator holds, unless a later attempt
  has dropped the run, and only one saved draft has usable facts at a time.\<close>

theorem current_facts_of_held_run:
  assumes "screenerReach cfg s" "factsUsable w i s"
  shows "(\<exists>fr issued facts. scCalls s ! i = QualifiedFacts fr issued facts \<and> (scRun (coord s) = None \<or> scRun (coord s) = Some issued)) \<and>
    (\<forall>w' j. factsUsable w' j s \<longrightarrow> j = i)"
  using reach_facts [OF assms(1)] assms(2)
  by (auto simp: factsUsable_def factsOfRun_def split: screener_call.splits)

theorem current_facts_of_held_run_witness:
  "\<exists>fr issued facts. scCalls (screenerRun sampleScreener qualifiedRun newCoordinator) ! 1 = QualifiedFacts fr issued facts \<and>
    (scRun (coord (screenerRun sampleScreener qualifiedRun newCoordinator)) = None \<or>
     scRun (coord (screenerRun sampleScreener qualifiedRun newCoordinator)) = Some issued)"
proof -
  have "factsUsable (worldAt (Fin 60)) 1 (screenerRun sampleScreener qualifiedRun newCoordinator)" by code_simp
  then show ?thesis using current_facts_of_held_run [OF sample_reach] by blast
qed

text \<open>C15. A route is offered only within the result's own validity and only for the last attempt: when
  \<open>routeAllowed\<close> says yes, the run it stands on was retained by a completion after which no other was
  begun, it accepts that very target, and the clock reads less than the completion's start plus the
  time from the acceptance to the end of the validity, less the millisecond kept back.\<close>

theorem open_route_within_validity:
  assumes "screenerReach cfg s" "fst (routeAllowed w target document (coord s))"
  shows "\<exists>i fr rt t. i < length (scCalls s) \<and> openedBy (scCalls s ! i) = Some fr \<and> noneBegunAfter i (scCalls s) \<and>
    scRoute (coord s) = Some rt \<and> acceptedFor (routeRun rt) target \<and> fst (elapsedReads w) = Fin t \<and>
    (case remainingOf cfg (cfDocument fr) (routeRun rt) of
       Unbounded \<Rightarrow> True | Bounded r \<Rightarrow> 0 < r \<and> t < cfStarted fr + r | Unreadable \<Rightarrow> False)"
proof -
  obtain rt t where rt: "scRoute (coord s) = Some rt" "fst (elapsedReads w) = Fin t" "acceptedFor (routeRun rt) target"
      "\<forall>d. routeDeadline rt = Some d \<longrightarrow> t < d"
    using assms(2) by (auto simp: routeAllowed_def elapsedClock_Inr split: option.splits sum.splits if_splits)
  then obtain i fr where "i < length (scCalls s)" "openedBy (scCalls s ! i) = Some fr" "routeFits cfg fr rt" "noneBegunAfter i (scCalls s)"
    using reach_route [OF assms(1)] by (auto simp: routeIsLast_def)
  then show ?thesis using rt by (intro exI [of _ i] exI [of _ fr] exI [of _ rt] exI [of _ t])
    (auto simp: routeFits_def deadlineOf_def isPositive_def split: remaining_time.splits)
qed

theorem open_route_within_validity_witness:
  "fst (routeAllowed (worldAt (Fin 608)) (Str ''form'') sampleDocument (coord (screenerRun sampleScreener completedRun newCoordinator))) \<and>
   \<not> fst (routeAllowed (worldAt (Fin 609)) (Str ''form'') sampleDocument (coord (screenerRun sampleScreener completedRun newCoordinator))) \<and>
   (\<exists>rt. scRoute (coord (screenerRun sampleScreener completedRun newCoordinator)) = Some rt \<and> acceptedFor (routeRun rt) (Str ''form''))"
proof (intro conjI)
  show yes: "fst (routeAllowed (worldAt (Fin 608)) (Str ''form'') sampleDocument (coord (screenerRun sampleScreener completedRun newCoordinator)))"
    by code_simp
  show "\<not> fst (routeAllowed (worldAt (Fin 609)) (Str ''form'') sampleDocument (coord (screenerRun sampleScreener completedRun newCoordinator)))"
    by code_simp
  show "\<exists>rt. scRoute (coord (screenerRun sampleScreener completedRun newCoordinator)) = Some rt \<and> acceptedFor (routeRun rt) (Str ''form'')"
    using open_route_within_validity [OF sample_reach yes] by blast
qed

text \<open>C38. A lost refresh shuts refreshing down for good: once the outcome of a refresh is unknown and the
  retention port cannot load, no refresh is ever sent again, whatever is called, and not even for the
  run of a new, accepted completion, whose acceptance the lost refresh has nothing to do with.\<close>

theorem lost_refresh_is_final:
  assumes "\<not> canLoad cfg" "refreshLost s"
  shows "list_all (\<lambda>c. \<not> refreshInFlight c) (scCalls (screenerRun cfg was s)) \<and> uncertainRefresh (coord (screenerRun cfg was s))"
  using run_lost [OF assms] by (simp add: refreshLost_def)

theorem lost_refresh_is_final_witness:
  "uncertainRefresh (coord (screenerRun sampleScreener secondAttempt (screenerRun sampleScreener lostRun newCoordinator))) \<and>
   scRun (coord (screenerRun sampleScreener secondAttempt (screenerRun sampleScreener lostRun newCoordinator))) = Some (sampleView ''b'') \<and>
   last (scCalls (screenerRun sampleScreener secondAttempt (screenerRun sampleScreener lostRun newCoordinator))) = SavedThrew RefreshRecoveryUnavailable"
proof (intro conjI)
  have "\<not> canLoad sampleScreener" "refreshLost (screenerRun sampleScreener lostRun newCoordinator)" by code_simp+
  then show "uncertainRefresh (coord (screenerRun sampleScreener secondAttempt (screenerRun sampleScreener lostRun newCoordinator)))"
    using lost_refresh_is_final by blast
  show "scRun (coord (screenerRun sampleScreener secondAttempt (screenerRun sampleScreener lostRun newCoordinator))) = Some (sampleView ''b'')"
    "last (scCalls (screenerRun sampleScreener secondAttempt (screenerRun sampleScreener lostRun newCoordinator))) = SavedThrew RefreshRecoveryUnavailable"
    by code_simp+
qed

end
