(* ===== verification/Form_Route.thy ===== *)
theory Form_Route
  imports Composition_Roots
begin

text \<open>
  Addresses and what they lead to: the route parsers of \<open>src/app/\<close> (\<open>form-route.ts\<close>, \<open>status-route.ts\<close>
  and the routes beside it), the router that moves a form to its next surface after a response action
  (\<open>src/adapters/browser/surface-router.ts\<close>), and the choice of a composition root for an address
  (\<open>chooseComposition\<close> of \<open>src/app/main-helpers.ts\<close>). An address is what \<open>URL\<close> and \<open>URLSearchParams\<close>
  make of its text: its parts and its list of search parameters.
\<close>


section \<open>Search parameters\<close>

type_synonym search_params = "(string \<times> string) list"

record address =
  protocol :: string
  hostname :: string
  username :: string
  password :: string
  pathname :: string
  searchParams :: search_params
  addressHash :: string
  decodableSearch :: bool \<comment> \<open>\<open>decodeURIComponent\<close> accepts the text of the search\<close>

definition getAll :: "search_params \<Rightarrow> string \<Rightarrow> string list" where
  "getAll ps name = map snd (filter (\<lambda>p. fst p = name) ps)"

definition deleteParam :: "string \<Rightarrow> search_params \<Rightarrow> search_params" where
  "deleteParam name ps = filter (\<lambda>p. fst p \<noteq> name) ps"

text \<open>\<open>set\<close> overwrites the first value and drops the others, or appends.\<close>

fun setParam :: "string \<Rightarrow> string \<Rightarrow> search_params \<Rightarrow> search_params" where
  "setParam name v [] = [(name, v)]"
| "setParam name v (p # ps) = (if fst p = name then (name, v) # deleteParam name ps else p # setParam name v ps)"

lemma getAll_simps [simp]: "getAll [] n = []" "getAll (p # ps) n = (if fst p = n then snd p # getAll ps n else getAll ps n)"
  by (simp_all add: getAll_def)

lemma getAll_delete [simp]: "getAll (deleteParam m ps) n = (if m = n then [] else getAll ps n)"
  by (induction ps) (auto simp: deleteParam_def)

lemma getAll_set [simp]: "getAll (setParam m v ps) n = (if m = n then [v] else getAll ps n)"
  by (induction ps) auto


section \<open>The root address\<close>

datatype form_route_error =
    FormRouteAmbiguous "string list"
  | ResponseNeedsForm
  | NotUnique string
  | EmptyParam string
  | IncompleteSurface
  | IncompleteTransition

record surface_state =
  stSurfaceUrl :: string
  stSurfaceVersion :: "string option"
  stRouteId :: string
  stNextRouteId :: "string option"
  stTriggerActionId :: "string option"

datatype form_route_selection =
    DefaultForm
  | SelectedForm string "string option" "string option" "surface_state option" \<comment> \<open>definition, package, response, surface\<close>

definition assertSingleOptionalParam :: "string list \<Rightarrow> string \<Rightarrow> form_route_error + unit" where
  "assertSingleOptionalParam values name = throwIf (length values > 1) (NotUnique name)"

definition optionalNonEmptyParam :: "string list \<Rightarrow> string \<Rightarrow> form_route_error + string option" where
  "optionalNonEmptyParam values name = (case values of
     [] \<Rightarrow> Inr None
   | v # _ \<Rightarrow> if trim v = [] then Inl (EmptyParam name) else Inr (Some v))"

definition surfaceRouteState :: "(string \<Rightarrow> string list) \<Rightarrow> form_route_error + surface_state option" where
  "surfaceRouteState vals =
    (if list_all (\<lambda>n. vals n = []) [''surface'', ''surfaceVersion'', ''surfaceRoute'', ''surfaceNextRoute'', ''surfaceTriggerAction'']
     then Inr None
     else
      bindR (optionalNonEmptyParam (vals ''surface'') ''surface'') (\<lambda>surfaceUrl.
      bindR (optionalNonEmptyParam (vals ''surfaceRoute'') ''surfaceRoute'') (\<lambda>routeId.
      (case (surfaceUrl, routeId) of
         (Some url, Some route) \<Rightarrow>
          bindR (optionalNonEmptyParam (vals ''surfaceVersion'') ''surfaceVersion'') (\<lambda>version.
          bindR (optionalNonEmptyParam (vals ''surfaceNextRoute'') ''surfaceNextRoute'') (\<lambda>next.
          bindR (optionalNonEmptyParam (vals ''surfaceTriggerAction'') ''surfaceTriggerAction'') (\<lambda>trigger.
          if (next = None) \<noteq> (trigger = None) then Inl IncompleteTransition
          else Inr (Some \<lparr>stSurfaceUrl = url, stSurfaceVersion = version, stRouteId = route, stNextRouteId = next, stTriggerActionId = trigger\<rparr>))))
       | _ \<Rightarrow> Inl IncompleteSurface))))"

definition parseRootFormRoute :: "address \<Rightarrow> form_route_error + form_route_selection option" where
  "parseRootFormRoute url =
    (let vals = getAll (searchParams url); forms = vals ''form'' in
     if pathname url \<noteq> ''/'' then Inr None
     else (case forms of
       [] \<Rightarrow> if vals ''response'' \<noteq> [] \<or> vals ''package'' \<noteq> [] then Inl ResponseNeedsForm else Inr (Some DefaultForm)
     | _ # _ # _ \<Rightarrow> Inl (FormRouteAmbiguous forms)
     | [defn] \<Rightarrow>
        bindR (forEach (\<lambda>n. assertSingleOptionalParam (vals n) n)
          [''response'', ''package'', ''surface'', ''surfaceVersion'', ''surfaceRoute'', ''surfaceNextRoute'', ''surfaceTriggerAction'']) (\<lambda>_.
        if trim defn = [] then Inl (EmptyParam ''form'')
        else
         bindR (optionalNonEmptyParam (vals ''response'') ''response'') (\<lambda>response.
         bindR (optionalNonEmptyParam (vals ''package'') ''package'') (\<lambda>package.
         bindR (surfaceRouteState vals) (\<lambda>surface. Inr (Some (SelectedForm defn package response surface))))))))"


section \<open>The surface router\<close>

record component_graph =
  graphSurfaceUrl :: string
  graphSurfaceVersion :: "string option"
  graphRoute :: string

record surface_action_result =
  resultStatus :: string
  resultActionId :: string
  componentGraph :: "component_graph option"

definition componentGraphMatchesState :: "surface_action_result \<Rightarrow> surface_state \<Rightarrow> bool" where
  "componentGraphMatchesState result st = (case componentGraph result of
     None \<Rightarrow> False
   | Some g \<Rightarrow> graphSurfaceUrl g = stSurfaceUrl st \<and> graphSurfaceVersion g = stSurfaceVersion st \<and> graphRoute g = stRouteId st)"

text \<open>The router replaces the address in the history, or leaves it alone.\<close>

definition transitionAfterResponseAction :: "surface_state \<Rightarrow> surface_action_result \<Rightarrow> address \<Rightarrow> address" where
  "transitionAfterResponseAction st result here =
    (case stNextRouteId st of
       Some next \<Rightarrow>
        if resultStatus result \<noteq> ''completed'' \<or> next = [] then here
        else if stTriggerActionId st \<noteq> Some (resultActionId result) \<or> stTriggerActionId st = Some [] then here
        else if \<not> componentGraphMatchesState result st then here
        else here\<lparr>searchParams := deleteParam ''surfaceTriggerAction'' (deleteParam ''surfaceNextRoute''
          (setParam ''surfaceRoute'' next (searchParams here)))\<rparr>
     | None \<Rightarrow> here)"


section \<open>The narrowed routes\<close>

definition STATUS_ROUTE_NARROWING :: RouteNarrowing where
  "STATUS_ROUTE_NARROWING = \<lparr>consumes = {Status, RecordLifecycle}, identityBound = True\<rparr>"

definition OBLIGATIONS_ROUTE_NARROWING :: RouteNarrowing where
  "OBLIGATIONS_ROUTE_NARROWING = \<lparr>consumes = {RespondentPlace}, identityBound = True\<rparr>"

definition DOCUMENTS_ROUTE_NARROWING :: RouteNarrowing where
  "DOCUMENTS_ROUTE_NARROWING = \<lparr>consumes = {RespondentPlace}, identityBound = True\<rparr>"

definition HISTORY_ROUTE_NARROWING :: RouteNarrowing where
  "HISTORY_ROUTE_NARROWING = \<lparr>consumes = {CrossIssuerHistory}, identityBound = True\<rparr>"

definition SCREENER_ROUTE_NARROWING :: RouteNarrowing where
  "SCREENER_ROUTE_NARROWING = \<lparr>consumes = {Screener}, identityBound = False\<rparr>"

definition parseObligationsRoute :: "address \<Rightarrow> bool" where
  "parseObligationsRoute url = (pathname url = ''/obligations'')"

definition parseDocumentsRoute :: "address \<Rightarrow> bool" where
  "parseDocumentsRoute url = (pathname url = ''/documents'')"

definition parseHistoryRoute :: "address \<Rightarrow> bool" where
  "parseHistoryRoute url = (pathname url = ''/history'')"

text \<open>The screener route stands for its document, or for none named.\<close>

definition parseScreenerRoute :: "address \<Rightarrow> string option" where
  "parseScreenerRoute url = (if pathname url \<noteq> ''/screener'' then None
     else Some (case getAll (searchParams url) ''doc'' of [] \<Rightarrow> [] | doc # _ \<Rightarrow> doc))"

text \<open>The selector of a case, \<open>shared/status-case-id.ts\<close>.\<close>

definition captureStatusCaseLedgerId :: "string \<Rightarrow> string option" where
  "captureStatusCaseLedgerId value =
    (if value = [] \<or> length value > 2048 \<or> trim value \<noteq> value \<or> list_ex (\<lambda>c. (of_char c :: nat) < 32 \<or> (of_char c :: nat) = 127) value then None
     else
      (let rawId = (if startsWith ''urn:wos:'' value then drop 8 value else value) in
       if rawId = [] \<or> rawId = ''.'' \<or> rawId = ''..'' then None else Some value))"

definition parseStatusRoute :: "address \<Rightarrow> string option" where
  "parseStatusRoute url =
    (if pathname url \<noteq> ''/status'' \<or> addressHash url \<noteq> [] \<or> username url \<noteq> [] \<or> password url \<noteq> []
       \<or> (protocol url \<noteq> ''https:'' \<and> \<not> (protocol url = ''http:'' \<and> hostname url \<in> {''localhost'', ''127.0.0.1'', ''[::1]''}))
     then None
     else if \<not> decodableSearch url then None
     else (case searchParams url of
       [(name, v)] \<Rightarrow> if name \<noteq> ''caseLedgerId'' then None else captureStatusCaseLedgerId v
     | _ \<Rightarrow> None))"

text \<open>A relative link, resolved against an origin. What \<open>URLSearchParams\<close> prints can be decoded.\<close>

definition onOrigin :: "string \<Rightarrow> string \<Rightarrow> string \<times> search_params \<Rightarrow> address" where
  "onOrigin scheme host rel = \<lparr>protocol = scheme, hostname = host, username = [], password = [], pathname = fst rel,
     searchParams = snd rel, addressHash = [], decodableSearch = True\<rparr>"

definition buildStatusTrackingUri :: "string \<Rightarrow> (string \<times> search_params) option" where
  "buildStatusTrackingUri caseLedgerId = (case captureStatusCaseLedgerId caseLedgerId of
     None \<Rightarrow> None
   | Some v \<Rightarrow> (let path = (''/status'', [(''caseLedgerId'', v)]) in
       if parseStatusRoute (onOrigin ''https:'' ''status.invalid'' path) = None then None else Some path))"


section \<open>The composition of an address\<close>

datatype boot_error = InvalidStatusSelection | FormNotSelected | RouteRefused form_route_error | RootRefused root_error

text \<open>The binding is what the factory of the caller returns, when the caller has one.\<close>

definition chooseComposition :: "address \<Rightarrow> root_config \<Rightarrow> root_binding option \<Rightarrow> slot option \<Rightarrow> boot_error + root" where
  "chooseComposition url config binding statusReader =
    (let narrowed = (\<lambda>route. map_sum RootRefused id (createRouteNarrowedComposition config route None None)) in
     if pathname url = ''/status'' then
      (if parseStatusRoute url = None then Inl InvalidStatusSelection
       else map_sum RootRefused id (createRouteNarrowedComposition config STATUS_ROUTE_NARROWING statusReader
         (if statusReader = None then None else binding)))
     else if parseObligationsRoute url then narrowed OBLIGATIONS_ROUTE_NARROWING
     else if parseDocumentsRoute url then narrowed DOCUMENTS_ROUTE_NARROWING
     else if parseHistoryRoute url then narrowed HISTORY_ROUTE_NARROWING
     else if parseScreenerRoute url \<noteq> None then narrowed SCREENER_ROUTE_NARROWING
     else (case parseRootFormRoute url of
       Inl e \<Rightarrow> Inl (RouteRefused e)
     | Inr (Some (SelectedForm defn package response surface)) \<Rightarrow>
         map_sum RootRefused id (createDefaultComposition config
           \<lparr>initialDefinitionUrl = Some defn, packageUrl = package,
            optionBinding = (if identityPort config = OidcKind \<or> package = None then binding else None),
            ownedDraftResume = False, nativeTask = False\<rparr>)
     | _ \<Rightarrow> Inl FormNotSelected))"


lemma bind_unit_Inr: "bindR m (\<lambda>_. k) = Inr y \<longleftrightarrow> (\<exists>x. m = Inr x) \<and> k = Inr y"
  by (cases m) auto


section \<open>Addresses and transitions\<close>

text \<open>A parsed address, in terms of the values of its parameters.\<close>

lemma optionalNonEmptyParam_Inr:
  "optionalNonEmptyParam vs n = Inr x \<longleftrightarrow> (case vs of [] \<Rightarrow> x = None | v # _ \<Rightarrow> trim v \<noteq> [] \<and> x = Some v)"
  by (auto simp: optionalNonEmptyParam_def split: list.splits)

definition surfaceReads :: "(string \<Rightarrow> string list) \<Rightarrow> surface_state \<Rightarrow> bool" where
  "surfaceReads vals st =
    (optionalNonEmptyParam (vals ''surface'') ''surface'' = Inr (Some (stSurfaceUrl st)) \<and>
     optionalNonEmptyParam (vals ''surfaceRoute'') ''surfaceRoute'' = Inr (Some (stRouteId st)) \<and>
     optionalNonEmptyParam (vals ''surfaceVersion'') ''surfaceVersion'' = Inr (stSurfaceVersion st) \<and>
     optionalNonEmptyParam (vals ''surfaceNextRoute'') ''surfaceNextRoute'' = Inr (stNextRouteId st) \<and>
     optionalNonEmptyParam (vals ''surfaceTriggerAction'') ''surfaceTriggerAction'' = Inr (stTriggerActionId st) \<and>
     (stNextRouteId st = None \<longleftrightarrow> stTriggerActionId st = None))"

lemma surfaceRouteState_Some: "surfaceRouteState vals = Inr (Some st) \<longleftrightarrow> surfaceReads vals st"
proof
  assume st: "surfaceRouteState vals = Inr (Some st)"
  show "surfaceReads vals st"
  proof (cases "optionalNonEmptyParam (vals ''surface'') ''surface''")
    case (Inr u)
    show ?thesis
    proof (cases "optionalNonEmptyParam (vals ''surfaceRoute'') ''surfaceRoute''")
      case route: (Inr r)
      show ?thesis using st Inr route
        by (cases u; cases r) (auto simp: surfaceRouteState_def surfaceReads_def bindR_Inr_iff split: if_splits)
    qed (use st Inr in \<open>simp add: surfaceRouteState_def split: if_splits\<close>)
  qed (use st in \<open>simp add: surfaceRouteState_def split: if_splits\<close>)
next
  assume reads: "surfaceReads vals st"
  then have "vals ''surface'' \<noteq> []" by (auto simp: surfaceReads_def optionalNonEmptyParam_Inr)
  then show "surfaceRouteState vals = Inr (Some st)"
    using reads by (simp add: surfaceRouteState_def surfaceReads_def)
qed

lemma parseRootFormRoute_Selected:
  "parseRootFormRoute url = Inr (Some (SelectedForm defn package response surface)) \<longleftrightarrow>
     pathname url = ''/'' \<and> getAll (searchParams url) ''form'' = [defn] \<and> trim defn \<noteq> [] \<and>
     (\<forall>n \<in> {''response'', ''package'', ''surface'', ''surfaceVersion'', ''surfaceRoute'', ''surfaceNextRoute'', ''surfaceTriggerAction''}.
        length (getAll (searchParams url) n) \<le> 1) \<and>
     optionalNonEmptyParam (getAll (searchParams url) ''response'') ''response'' = Inr response \<and>
     optionalNonEmptyParam (getAll (searchParams url) ''package'') ''package'' = Inr package \<and>
     surfaceRouteState (getAll (searchParams url)) = Inr surface"
  by (auto simp: parseRootFormRoute_def Let_def bindR_Inr_iff forEach_def checks_Inr assertSingleOptionalParam_def
      not_less split: list.splits)

definition completesOn :: "surface_action_result \<Rightarrow> surface_state \<Rightarrow> bool" where
  "completesOn result st = (resultStatus result = ''completed'' \<and> stTriggerActionId st = Some (resultActionId result) \<and>
     componentGraphMatchesState result st)"

text \<open>Where a completed action leads: to the next surface, with no transition left.\<close>

definition afterAction :: "surface_action_result \<Rightarrow> surface_state \<Rightarrow> surface_state" where
  "afterAction result st = (case stNextRouteId st of
     Some next \<Rightarrow> if completesOn result st then st\<lparr>stRouteId := next, stNextRouteId := None, stTriggerActionId := None\<rparr> else st
   | None \<Rightarrow> st)"

lemma parsed_nonempty: "optionalNonEmptyParam vs n = Inr (Some v) \<Longrightarrow> v \<noteq> []"
  by (auto simp: optionalNonEmptyParam_Inr trim_def split: list.splits)

lemma transition_stays:
  "stNextRouteId st = None \<or> \<not> completesOn result st \<Longrightarrow> transitionAfterResponseAction st result here = here"
  by (auto simp: transitionAfterResponseAction_def completesOn_def split: option.splits)

lemma transition_moves:
  assumes "stNextRouteId st = Some next" "next \<noteq> []" "stTriggerActionId st \<noteq> Some []" "completesOn result st"
  shows "transitionAfterResponseAction st result here = here\<lparr>searchParams := deleteParam ''surfaceTriggerAction''
    (deleteParam ''surfaceNextRoute'' (setParam ''surfaceRoute'' next (searchParams here)))\<rparr>"
  using assms by (simp add: transitionAfterResponseAction_def completesOn_def)

text \<open>C19. A completed action moves the form to its next surface and to nothing else: parsing the address
  that the router leaves behind gives the same form, package, response and surface, at the next
  route, with no transition pending; an action that does not complete, another action, or a graph of
  another surface or route leaves the address as it was.\<close>

theorem transition_moves_the_surface:
  assumes "parseRootFormRoute here = Inr (Some (SelectedForm defn package response (Some st)))"
  shows "parseRootFormRoute (transitionAfterResponseAction st result here) =
    Inr (Some (SelectedForm defn package response (Some (afterAction result st))))"
proof (cases "stNextRouteId st")
  case None
  then show ?thesis using assms by (simp add: transition_stays afterAction_def)
next
  case (Some target)
  have reads: "surfaceReads (getAll (searchParams here)) st"
    using assms by (simp add: parseRootFormRoute_Selected surfaceRouteState_Some)
  have next_ok: "target \<noteq> []" "trim target \<noteq> []" "stTriggerActionId st \<noteq> Some []"
    using reads Some by (auto simp: surfaceReads_def optionalNonEmptyParam_Inr trim_def split: list.splits)
  show ?thesis
  proof (cases "completesOn result st")
    case True
    have "surfaceReads (getAll (searchParams (transitionAfterResponseAction st result here))) (afterAction result st)"
      using reads next_ok True Some
      by (simp add: surfaceReads_def transition_moves afterAction_def optionalNonEmptyParam_def)
    then show ?thesis
      using assms next_ok True Some by (simp add: parseRootFormRoute_Selected surfaceRouteState_Some transition_moves)
  qed (use assms in \<open>simp add: transition_stays afterAction_def Some\<close>)
qed

definition sampleSurface :: surface_state where
  "sampleSurface = \<lparr>stSurfaceUrl = ''s'', stSurfaceVersion = None, stRouteId = ''intro'', stNextRouteId = Some ''sign'',
     stTriggerActionId = Some ''go''\<rparr>"

definition sampleAddress :: address where
  "sampleAddress = \<lparr>protocol = ''https:'', hostname = ''h'', username = [], password = [], pathname = ''/'',
     searchParams = [(''form'', ''f''), (''surface'', ''s''), (''surfaceRoute'', ''intro''), (''surfaceNextRoute'', ''sign''),
       (''surfaceTriggerAction'', ''go'')], addressHash = [], decodableSearch = True\<rparr>"

definition sampleResult :: surface_action_result where
  "sampleResult = \<lparr>resultStatus = ''completed'', resultActionId = ''go'',
     componentGraph = Some \<lparr>graphSurfaceUrl = ''s'', graphSurfaceVersion = None, graphRoute = ''intro''\<rparr>\<rparr>"

theorem transition_moves_the_surface_witness:
  "parseRootFormRoute (transitionAfterResponseAction sampleSurface sampleResult sampleAddress) =
    Inr (Some (SelectedForm ''f'' None None (Some \<lparr>stSurfaceUrl = ''s'', stSurfaceVersion = None, stRouteId = ''sign'',
      stNextRouteId = None, stTriggerActionId = None\<rparr>)))"
proof -
  have "parseRootFormRoute sampleAddress = Inr (Some (SelectedForm ''f'' None None (Some sampleSurface)))" by code_simp
  from transition_moves_the_surface [OF this, of sampleResult] show ?thesis
    by (simp add: afterAction_def completesOn_def componentGraphMatchesState_def sampleSurface_def sampleResult_def)
qed


section \<open>Status links\<close>

lemma capture_same: "captureStatusCaseLedgerId v = Some w \<Longrightarrow> w = v"
  by (auto simp: captureStatusCaseLedgerId_def Let_def split: if_splits)

text \<open>A status link opens the case it was built for: a link is built for every selector that the
  capture accepts, and read on any https origin it gives that selector back.\<close>

theorem status_link_roundtrip:
  "(buildStatusTrackingUri v = None \<longleftrightarrow> captureStatusCaseLedgerId v = None) \<and>
   (case buildStatusTrackingUri v of None \<Rightarrow> True | Some rel \<Rightarrow> parseStatusRoute (onOrigin ''https:'' host rel) = Some v)"
proof (cases "captureStatusCaseLedgerId v")
  case (Some w)
  then have "captureStatusCaseLedgerId v = Some v" using capture_same by blast
  then show ?thesis by (simp add: buildStatusTrackingUri_def parseStatusRoute_def onOrigin_def Let_def)
qed (simp add: buildStatusTrackingUri_def)


section \<open>Who reaches a status reader\<close>

lemma full_status: "propOf (instanceCapabilities (slots (fullComposition b))) (keyName Status) = Str ''unavailable''"
  using propOf_allKeys [of "''unavailable''" Status] by (simp add: fullComposition_def)

lemma preview_status:
  assumes "createUnavailableComposition = Inr preview"
  shows "propOf (instanceCapabilities (slots (previewComposition preview b))) (keyName Status) = Str ''unavailable''"
proof -
  have caps: "instanceCapabilities (slots preview) = allKeys ''unavailable''"
    using assms unfolding unavailable_ok by auto
  have "propOf (spread (allKeys ''unavailable'') [(''offlineSubmit'', Str ''unavailable''), (''fileUpload'', Str ''available'')])
      (keyName Status) = Str ''unavailable''" by code_simp
  then show ?thesis by (simp add: previewComposition_def caps)
qed

lemma rootRefused_Inr: "map_sum f id x = Inr y \<longleftrightarrow> x = Inr y"
  by (cases x) auto

lemma default_root_status:
  assumes "createDefaultComposition config options = Inr (Root c)"
  shows "propOf (instanceCapabilities (slots c)) (keyName Status) = Str ''unavailable''"
proof -
  consider b where "frozen (fullComposition b) = Inr c"
    | preview b where "createUnavailableComposition = Inr preview" "frozen (previewComposition preview b) = Inr c"
    using assms by (auto simp: createDefaultComposition_def bindR_Inr_iff map_sum_Inr_Root rootRefused_Inr split: if_splits)
  then show ?thesis by cases (auto simp: frozen_Inr full_status preview_status simp del: keyName.simps)
qed

lemma narrowed_root_status:
  assumes "createRouteNarrowedComposition config route reader binding = Inr (Root c)"
    "propOf (instanceCapabilities (slots c)) (keyName Status) = Str ''available''"
  shows "reader \<noteq> None \<and> oidcRequiredMode config \<and> oidcClient config \<noteq> None \<and>
    (\<exists>b. binding = Some b \<and> hasBrowserSession b \<and> hasAccessToken b)"
proof -
  have none: "propOf (setProp ''status'' (Str ''unavailable'') (allKeys ''unavailable'')) ''status'' = Str ''unavailable''" by code_simp
  have "c = narrowedComposition reader binding" using assms(1) by (simp add: narrowed_root_iff)
  then have "reader \<noteq> None" using assms(2) none by (cases reader) (auto simp: narrowedComposition_def)
  then show ?thesis using assms(1) by (auto simp: narrowed_root_iff)
qed

text \<open>C16. Case status is served to the authenticated applicant only: whatever address is opened, a
  composition that declares status available was chosen for a status address with a valid case
  selector, over the reader of the host, and with an identity binding of a deployment that requires
  OIDC, holding a browser session and a bearer token.\<close>

theorem status_needs_authenticated_case:
  assumes "chooseComposition url config binding reader = Inr (Root c)"
    and "propOf (instanceCapabilities (slots c)) (keyName Status) = Str ''available''"
  shows "(\<exists>caseId. parseStatusRoute url = Some caseId) \<and> reader \<noteq> None \<and> oidcRequiredMode config \<and> oidcClient config \<noteq> None \<and>
    (\<exists>b. binding = Some b \<and> hasBrowserSession b \<and> hasAccessToken b)"
proof -
  consider caseId where "parseStatusRoute url = Some caseId"
      "createRouteNarrowedComposition config STATUS_ROUTE_NARROWING reader (if reader = None then None else binding) = Inr (Root c)"
    | route where "createRouteNarrowedComposition config route None None = Inr (Root c)"
    | options where "createDefaultComposition config options = Inr (Root c)"
    using assms(1) by (auto simp: chooseComposition_def Let_def rootRefused_Inr split: if_splits sum.splits option.splits form_route_selection.splits)
  then show ?thesis
  proof cases
    case 1
    then have "reader \<noteq> None" using narrowed_root_status [OF 1(2) assms(2)] by blast
    then show ?thesis using 1 narrowed_root_status [OF 1(2) assms(2)] by auto
  next
    case 2
    then show ?thesis using narrowed_root_status [OF 2 assms(2)] by blast
  next
    case 3
    then show ?thesis using default_root_status assms(2) by simp
  qed
qed


definition protectedConfig :: root_config where
  "protectedConfig = sampleRootConfig\<lparr>oidcRequiredMode := True, identityPort := OidcKind, oidcClient := Some sampleOidcConfig\<rparr>"

definition statusAddress :: address where
  "statusAddress = onOrigin ''https:'' ''h'' (''/status'', [(''caseLedgerId'', ''case-1'')])"

definition sampleBinding :: root_binding where
  "sampleBinding = \<lparr>bindingProvider = Wired plainAdapter, hasAccessToken = True, hasBrowserSession = True\<rparr>"

theorem status_needs_authenticated_case_witness:
  "\<exists>c. chooseComposition statusAddress protectedConfig (Some sampleBinding) (Some (Wired plainAdapter)) = Inr (Root c) \<and>
     oidcRequiredMode protectedConfig \<and> (\<exists>b. Some sampleBinding = Some b \<and> hasBrowserSession b)"
proof -
  let ?c = "narrowedComposition (Some (Wired plainAdapter)) (Some sampleBinding)"
  have "parseStatusRoute statusAddress = Some ''case-1''" by code_simp
  moreover have "createRouteNarrowedComposition protectedConfig STATUS_ROUTE_NARROWING (Some (Wired plainAdapter)) (Some sampleBinding) = Inr (Root ?c)"
    by (simp add: narrowed_root_iff protectedConfig_def sampleRootConfig_def given_def STATUS_ROUTE_NARROWING_def sampleBinding_def plainAdapter_def)
  ultimately have chosen: "chooseComposition statusAddress protectedConfig (Some sampleBinding) (Some (Wired plainAdapter)) = Inr (Root ?c)"
    by (simp add: chooseComposition_def statusAddress_def onOrigin_def Let_def)
  have "propOf (setProp ''status'' (Str ''available'') (allKeys ''unavailable'')) ''status'' = Str ''available''" by code_simp
  then have "propOf (instanceCapabilities (slots ?c)) (keyName Status) = Str ''available''" by (simp add: narrowedComposition_def)
  from status_needs_authenticated_case [OF chosen this] chosen show ?thesis by blast
qed

end
