(* ===== verification/Runtime_Config.thy ===== *)
theory Runtime_Config
  imports Composition_Roots Keys
begin

text \<open>
  The configuration the application boots with: the closed native signing configuration
  (\<open>config/native-package-signing.ts\<close>), the upload limit (\<open>config/attachment-policy.ts\<close>), the runtime
  overrides and their resolution against a profile (\<open>config/runtime.ts\<close>) and the reference profiles
  (\<open>profiles/profiles.ts\<close>). Configurations are the JavaScript objects they are; \<open>URL\<close>, \<open>JSON.parse\<close>,
  \<open>Number\<close>, the locale and URI checks, the snapshot of a JSON value and the inputs the widget shapes
  declare are parameters.
\<close>

datatype config_error =
    NativeSigningMalformed | SigningIssuerNotAbsolute | UploadLimitInvalid | ScopeKeyInvalid | ScopeKeyRequired
  | AssuranceInvalid | AcrMapInvalid | JsonInvalid | ProfileUnavailable

record url_parts =
  urlProtocol :: string
  urlUsername :: string
  urlPassword :: string
  urlHash :: string

record config_lib =
  parseUrl :: "string \<Rightarrow> url_parts option"
  isUri :: "string \<Rightarrow> bool"
  isLocale :: "string \<Rightarrow> bool"
  snapshotJson :: "jsval \<Rightarrow> jsval option"
  inputNames :: "string list"
  jsonParse :: "string \<Rightarrow> jsval option"
  toNumber :: "string \<Rightarrow> jsnum"


section \<open>The native signing configuration\<close>

definition closedShape :: "jsval \<Rightarrow> string list \<Rightarrow> bool" where
  "closedShape v ks = (case v of Obj ps \<Rightarrow> length ps = length ks \<and> list_all (hasOwn ps) ks | _ \<Rightarrow> False)"

definition nonblankText :: "jsval \<Rightarrow> bool" where
  "nonblankText v = (case v of Str s \<Rightarrow> trim s \<noteq> [] \<and> s = trim s | _ \<Rightarrow> False)"

definition absoluteUrlText :: "config_lib \<Rightarrow> jsval \<Rightarrow> bool" where
  "absoluteUrlText lib v = (nonblankText v \<and> (case parseUrl lib (strOf v) of
     None \<Rightarrow> False
   | Some u \<Rightarrow> urlProtocol u \<in> {''https:'', ''http:'', ''urn:''} \<and> urlUsername u = [] \<and> urlPassword u = []))"

definition pinned :: "string \<Rightarrow> jsval \<Rightarrow> bool" where
  "pinned identity pin = (closedShape pin [identity, ''version''] \<and> nonblankText (getp pin identity) \<and> nonblankText (getp pin ''version''))"

text \<open>An optional member is checked when the configuration has it.\<close>

definition ifOwn :: "jsval \<Rightarrow> string \<Rightarrow> (jsval \<Rightarrow> bool) \<Rightarrow> bool" where
  "ifOwn config k p = (hasOwn (ownProps config) k \<longrightarrow> p (getp config k))"

definition nonemptyArray :: "jsval \<Rightarrow> bool" where
  "nonemptyArray v = (arrItems v \<noteq> [])"

definition modulesOk :: "jsval \<Rightarrow> jsval \<Rightarrow> bool" where
  "modulesOk config modules = (nonemptyArray modules \<and> list_all (pinned ''id'') (arrItems modules) \<and>
     distinct (map (\<lambda>pin. getp pin ''id'') (arrItems modules)) \<and>
     length (filter (\<lambda>pin. getp pin ''id'' = getp (getp config ''module'') ''id'' \<and> getp pin ''version'' = getp (getp config ''module'') ''version'')
       (arrItems modules)) = 1)"

definition structuredPanelsOk :: "jsval \<Rightarrow> jsval \<Rightarrow> bool" where
  "structuredPanelsOk config widgets =
    (let selected = (if isArray (getp config ''modules'') then arrItems (getp config ''modules'') else [getp config ''module'']) in
     nonemptyArray widgets \<and>
     list_all (\<lambda>pin. closedShape pin [''moduleId'', ''registryEntryVersion''] \<and> nonblankText (getp pin ''moduleId'') \<and>
       getp pin ''registryEntryVersion'' \<in> {Str ''0.1.0'', Str ''0.1.1'', Str ''0.1.2''} \<and>
       list_ex (\<lambda>m. getp m ''id'' = getp pin ''moduleId'') selected) (arrItems widgets) \<and>
     distinct (map (\<lambda>pin. getp pin ''moduleId'') (arrItems widgets)))"

definition signingScopeOk :: "config_lib \<Rightarrow> jsval \<Rightarrow> bool" where
  "signingScopeOk lib scope = (closedShape scope [''surface'', ''route'', ''ceremonySlot'', ''reviewSlot''] \<and>
     closedShape (getp scope ''surface'') [''url'', ''version''] \<and> absoluteUrlText lib (getp (getp scope ''surface'') ''url'') \<and>
     nonblankText (getp (getp scope ''surface'') ''version'') \<and>
     list_all (\<lambda>k. nonblankText (getp scope k)) [''route'', ''ceremonySlot'', ''reviewSlot''] \<and>
     getp scope ''ceremonySlot'' \<noteq> getp scope ''reviewSlot'')"

definition staticAssetsOk :: "config_lib \<Rightarrow> jsval \<Rightarrow> bool" where
  "staticAssetsOk lib assets = (nonemptyArray assets \<and>
     list_all (\<lambda>pin. closedShape pin [''kind'', ''source''] \<and> getp pin ''kind'' = Str ''image'' \<and> nonblankText (getp pin ''source'') \<and>
       (case parseUrl lib (strOf (getp pin ''source'')) of
          None \<Rightarrow> False
        | Some u \<Rightarrow> urlProtocol u = ''https:'' \<and> urlUsername u = [] \<and> urlPassword u = [] \<and> urlHash u = [])) (arrItems assets) \<and>
     distinct (map (\<lambda>pin. getp pin ''source'') (arrItems assets)))"

definition componentOk :: "config_lib \<Rightarrow> jsval \<Rightarrow> bool" where
  "componentOk lib c = (closedShape c [''handle'', ''url'', ''version''] \<and> nonblankText (getp c ''handle'') \<and>
     absoluteUrlText lib (getp c ''url'') \<and> nonblankText (getp c ''version''))"

definition lifecycleOk :: "jsval \<Rightarrow> bool" where
  "lifecycleOk l = (closedShape l [''instance'', ''canStartPath'', ''startedPath'', ''persistentSavingPath''] \<and>
     list_all (nonblankText \<circ> snd) (ownProps l) \<and>
     distinct (map (getp l) [''canStartPath'', ''startedPath'', ''persistentSavingPath'']))"

text \<open>Records whose members are pairs of references, pairwise different.\<close>

definition referencesOk :: "config_lib \<Rightarrow> string \<Rightarrow> string \<Rightarrow> jsval \<Rightarrow> bool" where
  "referencesOk lib artifact ref v =
    (list_all (\<lambda>(k, a). closedShape a [artifact, ref] \<and> absoluteUrlText lib (getp a artifact) \<and> nonblankText (getp a ref)) (ownProps v) \<and>
     distinct (map (\<lambda>(k, a). (getp a artifact, getp a ref)) (ownProps v)))"

definition readinessOk :: "jsval \<Rightarrow> bool" where
  "readinessOk r =
    (let prepared = (if hasOwn (ownProps r) ''prepareReadyPath'' then [''prepareReadyPath''] else []) in
     closedShape r ([''instance'', ''readyPath'', ''ownedPath''] @ prepared) \<and> list_all (nonblankText \<circ> snd) (ownProps r) \<and>
     distinct (map (getp r) ([''readyPath'', ''ownedPath''] @ prepared)))"

definition SIGNING_ROLES :: "string list" where
  "SIGNING_ROLES = [''saveInitial'', ''saveOwned'', ''prepare'', ''sign'', ''submit'', ''paper'']"

definition OPTIONAL_MEMBERS :: "string list" where
  "OPTIONAL_MEMBERS = [''signingScope'', ''modules'', ''structuredPanelWidgets'', ''component'', ''staticAssets'', ''applicationLifecycle'']"

definition signingConfigOk :: "config_lib \<Rightarrow> jsval \<Rightarrow> bool" where
  "signingConfigOk lib config =
    (closedShape config ([''keyId'', ''expectedIssuer'', ''definition'', ''bundle'', ''module'', ''initialLocale'', ''roles'', ''bindings'', ''readiness'']
       @ filter (hasOwn (ownProps config)) OPTIONAL_MEMBERS) \<and>
     nonblankText (getp config ''keyId'') \<and>
     pinned ''url'' (getp config ''definition'') \<and> absoluteUrlText lib (getp (getp config ''definition'') ''url'') \<and>
     pinned ''id'' (getp config ''bundle'') \<and> absoluteUrlText lib (getp (getp config ''bundle'') ''id'') \<and>
     pinned ''id'' (getp config ''module'') \<and>
     ifOwn config ''modules'' (modulesOk config) \<and> ifOwn config ''structuredPanelWidgets'' (structuredPanelsOk config) \<and>
     ifOwn config ''signingScope'' (signingScopeOk lib) \<and>
     nonblankText (getp config ''initialLocale'') \<and> ifOwn config ''staticAssets'' (staticAssetsOk lib) \<and>
     ifOwn config ''component'' (componentOk lib) \<and> isLocale lib (strOf (getp config ''initialLocale'')) \<and>
     closedShape (getp config ''roles'') (SIGNING_ROLES @ filter (\<lambda>_. hasOwn (ownProps config) ''applicationLifecycle'') [''startApplication'']) \<and>
     ifOwn config ''applicationLifecycle'' lifecycleOk \<and>
     referencesOk lib ''artifactRef'' ''actionRef'' (getp config ''roles'') \<and>
     closedShape (getp config ''bindings'') (inputNames lib) \<and> referencesOk lib ''catalogRef'' ''sourceRef'' (getp config ''bindings'') \<and>
     readinessOk (getp config ''readiness''))"

definition requireSigningIssuer :: "config_lib \<Rightarrow> jsval \<Rightarrow> config_error + string" where
  "requireSigningIssuer lib v = (case v of Str s \<Rightarrow> if s \<noteq> [] \<and> isUri lib s then Inr s else Inl SigningIssuerNotAbsolute | _ \<Rightarrow> Inl SigningIssuerNotAbsolute)"

text \<open>Every guard but the issuer's throws the same error, so only the issuer's place among them is lost.\<close>

definition nativePackageSigningConfig :: "config_lib \<Rightarrow> jsval \<Rightarrow> config_error + jsval" where
  "nativePackageSigningConfig lib v = (case snapshotJson lib v of
     None \<Rightarrow> Inl NativeSigningMalformed
   | Some config \<Rightarrow>
      bindR (throwIf (\<not> signingConfigOk lib config) NativeSigningMalformed) (\<lambda>_.
      bindR (requireSigningIssuer lib (getp config ''expectedIssuer'')) (\<lambda>_. Inr config)))"

definition readNativePackageSigningConfig :: "config_lib \<Rightarrow> jsval \<Rightarrow> config_error + jsval" where
  "readNativePackageSigningConfig lib owner =
    (if \<not> truthy owner \<or> \<not> hasOwn (ownProps owner) ''nativePackageSigning'' then Inr Undefined
     else nativePackageSigningConfig lib (getp owner ''nativePackageSigning''))"

definition validatedAttachmentMaxUploadBytes :: "jsval \<Rightarrow> config_error + jsval" where
  "validatedAttachmentMaxUploadBytes v =
    (if v = Undefined then Inr Undefined
     else (case integerOf v of Some n \<Rightarrow> if 0 < n \<and> n \<le> 2 ^ 53 - 1 then Inr v else Inl UploadLimitInvalid | None \<Rightarrow> Inl UploadLimitInvalid))"


section \<open>The reference profiles\<close>

definition strs :: "(string \<times> string) list \<Rightarrow> jsval" where
  "strs ps = Obj (map (\<lambda>(k, v). (k, Str v)) ps)"

definition departmentOidc :: jsval where
  "departmentOidc = strs [(''issuer'', ''https://idp.example.gov/realms/formspec''), (''clientId'', ''formspec-web-department''),
     (''redirectUri'', ''/auth/callback''), (''minAssurance'', ''L2'')]"

definition departmentAppProfile :: jsval where
  "departmentAppProfile = Obj [
     (''profileName'', Str ''departmentApp''),
     (''identity'', Obj [(''mode'', Str ''oidc-required''), (''oidc'', departmentOidc)]),
     (''brand'', Obj [(''name'', Str ''formspec-department''), (''tokens'', strs [
        (''color.primary'', ''#155e56''), (''color.primaryForeground'', ''#ffffff''), (''color.foreground'', ''#1f2933''),
        (''color.background'', ''#f7f8f5''), (''color.border'', ''#c9d3cd''), (''color.card'', ''#ffffff''), (''color.muted'', ''#5d6b66''),
        (''color.mutedForeground'', ''#66736f''), (''color.ring'', ''#155e56''), (''color.surface'', ''#edf3ef''),
        (''radius.sm'', ''0.5rem''), (''radius.md'', ''0.75rem'')])]),
     (''ports'', strs [(''definitionSource'', ''stub''), (''draftStore'', ''stub''), (''submitTransport'', ''stub''),
        (''identityProvider'', ''oidc''), (''notificationDelivery'', ''stub'')]),
     (''referenceAdapters'', Obj [(''formspecStack'', Obj [(''oidc'', departmentOidc)])])]"

definition publicPortalProfile :: jsval where
  "publicPortalProfile = Obj [
     (''profileName'', Str ''publicPortal''),
     (''identity'', Obj [(''mode'', Str ''anonymous-allowed''),
        (''magicLink'', strs [(''callbackPath'', ''/magic-link/callback''), (''minAssurance'', ''L2'')])]),
     (''brand'', Obj [(''name'', Str ''formspec-public''), (''tokens'', strs [
        (''color.primary'', ''#2f6f8f''), (''color.primaryForeground'', ''#ffffff''), (''color.foreground'', ''#26333d''),
        (''color.background'', ''#fbfcfd''), (''color.border'', ''#cfdae2''), (''color.card'', ''#ffffff''), (''color.muted'', ''#60717d''),
        (''color.mutedForeground'', ''#6c7c86''), (''color.ring'', ''#2f6f8f''), (''color.surface'', ''#eef5f8''),
        (''radius.sm'', ''0.375rem''), (''radius.md'', ''0.5rem'')])]),
     (''ports'', strs [(''definitionSource'', ''stub''), (''draftStore'', ''stub''), (''submitTransport'', ''stub''),
        (''identityProvider'', ''anonymous''), (''notificationDelivery'', ''stub'')]),
     (''referenceAdapters'', Obj [(''formspecStack'', strs [(''magicLinkCallbackPath'', ''/magic-link/callback'')])])]"

definition getReferenceProfile :: "jsval \<Rightarrow> jsval" where
  "getReferenceProfile profileName = getp (Obj [(''departmentApp'', departmentAppProfile), (''publicPortal'', publicPortalProfile)])
     (strOf profileName)"


section \<open>The runtime configuration\<close>

definition runtimeEnvMap :: "(string \<times> string list) list" where
  "runtimeEnvMap = [
     (''profileName'', [''FORMSPEC_WEB_PROFILE'', ''VITE_FORMSPEC_WEB_PROFILE'']),
     (''formspecServerUrl'', [''FORMSPEC_WEB_SERVER_URL'', ''VITE_FORMSPEC_WEB_SERVER_URL'']),
     (''responseActionLedgerCapabilityUrl'',
        [''FORMSPEC_WEB_RESPONSE_ACTION_LEDGER_CAPABILITY_URL'', ''VITE_FORMSPEC_WEB_RESPONSE_ACTION_LEDGER_CAPABILITY_URL'']),
     (''oidcIssuer'', [''FORMSPEC_WEB_OIDC_ISSUER'', ''VITE_FORMSPEC_WEB_OIDC_ISSUER'']),
     (''oidcClientId'', [''FORMSPEC_WEB_OIDC_CLIENT_ID'', ''VITE_FORMSPEC_WEB_OIDC_CLIENT_ID'']),
     (''oidcRedirectUri'', [''FORMSPEC_WEB_OIDC_REDIRECT_URI'', ''VITE_FORMSPEC_WEB_OIDC_REDIRECT_URI'']),
     (''oidcScope'', [''FORMSPEC_WEB_OIDC_SCOPE'', ''VITE_FORMSPEC_WEB_OIDC_SCOPE'']),
     (''oidcSilentRedirectUri'', [''FORMSPEC_WEB_OIDC_SILENT_REDIRECT_URI'', ''VITE_FORMSPEC_WEB_OIDC_SILENT_REDIRECT_URI'']),
     (''oidcPostLogoutRedirectUri'',
        [''FORMSPEC_WEB_OIDC_POST_LOGOUT_REDIRECT_URI'', ''VITE_FORMSPEC_WEB_OIDC_POST_LOGOUT_REDIRECT_URI'']),
     (''oidcAcrValues'', [''FORMSPEC_WEB_OIDC_ACR_VALUES'', ''VITE_FORMSPEC_WEB_OIDC_ACR_VALUES'']),
     (''oidcMinAssurance'', [''FORMSPEC_WEB_OIDC_MIN_ASSURANCE'', ''VITE_FORMSPEC_WEB_OIDC_MIN_ASSURANCE'']),
     (''oidcAcrAssuranceMapJson'', [''FORMSPEC_WEB_OIDC_ACR_ASSURANCE_MAP_JSON'', ''VITE_FORMSPEC_WEB_OIDC_ACR_ASSURANCE_MAP_JSON'']),
     (''oidcResource'', [''FORMSPEC_WEB_OIDC_RESOURCE'', ''VITE_FORMSPEC_WEB_OIDC_RESOURCE'']),
     (''magicLinkCallbackPath'', [''FORMSPEC_WEB_MAGIC_LINK_CALLBACK_PATH'', ''VITE_FORMSPEC_WEB_MAGIC_LINK_CALLBACK_PATH''])]"

fun firstPresent :: "props \<Rightarrow> string list \<Rightarrow> string option" where
  "firstPresent env [] = None"
| "firstPresent env (name # names) = (if isNonEmptyString (propOf env name) then Some (strOf (propOf env name)) else firstPresent env names)"

definition runtimeScopeKey :: "jsval \<Rightarrow> config_error + jsval" where
  "runtimeScopeKey v = map_sum (\<lambda>_. ScopeKeyInvalid) Str (parseScopeKey v)"

definition runtimeConfigFromEnvRecord :: "config_lib \<Rightarrow> props \<Rightarrow> config_error + props" where
  "runtimeConfigFromEnvRecord lib env =
    (let key = coalesce (propOf env ''FORMSPEC_WEB_SCOPE_KEY'') (propOf env ''VITE_FORMSPEC_WEB_SCOPE_KEY'') in
     bindR (if key = Undefined then Inr [] else bindR (runtimeScopeKey key) (\<lambda>k. Inr [(''scopeKey'', k)])) (\<lambda>config.
     let config = config @ concat (map (\<lambda>(k, names). case firstPresent env names of None \<Rightarrow> [] | Some v \<Rightarrow> [(k, Str v)]) runtimeEnvMap) in
     case firstPresent env [''FORMSPEC_WEB_ATTACHMENT_MAX_UPLOAD_BYTES'', ''VITE_FORMSPEC_WEB_ATTACHMENT_MAX_UPLOAD_BYTES''] of
       None \<Rightarrow> Inr config
     | Some n \<Rightarrow> bindR (validatedAttachmentMaxUploadBytes (Num (toNumber lib n))) (\<lambda>v. Inr (config @ [(''attachmentMaxUploadBytes'', v)]))))"

definition keptEntry :: "jsval \<Rightarrow> string \<Rightarrow> jsval \<Rightarrow> bool" where
  "keptEntry native key v =
    (if key = ''nativePackageSigning'' then native \<noteq> Undefined
     else if key = ''attachmentMaxUploadBytes'' \<or> key = ''scopeKey'' then v \<noteq> Undefined
     else if key = ''surfaceBundle'' then isObjectType v
     else isNonEmptyString v)"

definition compactRuntimeConfig :: "config_lib \<Rightarrow> props \<Rightarrow> config_error + props" where
  "compactRuntimeConfig lib config =
     bindR (validatedAttachmentMaxUploadBytes (propOf config ''attachmentMaxUploadBytes'')) (\<lambda>_.
     bindR (readNativePackageSigningConfig lib (Obj config)) (\<lambda>native.
       Inr (map (\<lambda>(k, v). (k, if k = ''nativePackageSigning'' then native else v)) (filter (\<lambda>(k, v). keptEntry native k v) config))))"

text \<open>The configuration of the window, its defaults and the build's environment; absent, they are undefined.\<close>

definition readRuntimeConfig :: "config_lib \<Rightarrow> props \<Rightarrow> jsval \<Rightarrow> jsval \<Rightarrow> config_error + props" where
  "readRuntimeConfig lib env windowConfig defaults =
     bindR (runtimeConfigFromEnvRecord lib env) (\<lambda>vite.
     bindR (readNativePackageSigningConfig lib windowConfig) (\<lambda>native.
       compactRuntimeConfig lib (spread (spread (spread (ownProps defaults) vite) (ownProps windowConfig))
         (if truthy native then [(''nativePackageSigning'', native)] else []))))"


section \<open>Resolving the active configuration\<close>

definition assuranceOf :: "jsval \<Rightarrow> config_error + jsval" where
  "assuranceOf v = (if v \<in> {Str ''L1'', Str ''L2'', Str ''L3'', Str ''L4''} then Inr v else Inl AssuranceInvalid)"

definition acrMap :: "config_lib \<Rightarrow> string \<Rightarrow> config_error + jsval" where
  "acrMap lib v = (case jsonParse lib v of
     None \<Rightarrow> Inl JsonInvalid
   | Some parsed \<Rightarrow>
      if \<not> isPlainObject parsed \<or> ownProps parsed = [] then Inl AcrMapInvalid
      else map_sum id Obj (mapR (\<lambda>(acr, level). if acr = [] \<or> acr \<noteq> trim acr then Inl AcrMapInvalid
        else bindR (assuranceOf level) (\<lambda>l. Inr (acr, l))) (ownProps parsed)))"

definition OIDC_TEXTS :: "string list" where
  "OIDC_TEXTS = [''oidcIssuer'', ''oidcClientId'', ''oidcRedirectUri'', ''oidcScope'', ''oidcSilentRedirectUri'',
     ''oidcPostLogoutRedirectUri'', ''oidcAcrValues'', ''oidcResource'']"

definition overridesOidc :: "props \<Rightarrow> bool" where
  "overridesOidc runtime = (list_ex (\<lambda>k. truthy (propOf runtime k)) OIDC_TEXTS \<or>
     propOf runtime ''oidcMinAssurance'' \<noteq> Undefined \<or> propOf runtime ''oidcAcrAssuranceMapJson'' \<noteq> Undefined)"

definition applyOidcRuntimeOverrides :: "config_lib \<Rightarrow> jsval \<Rightarrow> props \<Rightarrow> config_error + jsval" where
  "applyOidcRuntimeOverrides lib oidc runtime =
    (if \<not> overridesOidc runtime then Inr oidc
     else
      (let over = (\<lambda>k own. coalesce (propOf runtime k) (getp oidc own)) in
       bindR (if propOf runtime ''oidcMinAssurance'' = Undefined then Inr (coalesce (getp oidc ''minAssurance'') (Str ''L2''))
         else assuranceOf (propOf runtime ''oidcMinAssurance'')) (\<lambda>level.
       bindR (if propOf runtime ''oidcAcrAssuranceMapJson'' = Undefined then Inr []
         else bindR (acrMap lib (strOf (propOf runtime ''oidcAcrAssuranceMapJson''))) (\<lambda>m. Inr [(''acrAssuranceMap'', m)])) (\<lambda>acr.
       Inr (Obj (spread (ownProps oidc) ([
         (''issuer'', coalesce (over ''oidcIssuer'' ''issuer'') (Str [])),
         (''clientId'', coalesce (over ''oidcClientId'' ''clientId'') (Str [])),
         (''redirectUri'', over ''oidcRedirectUri'' ''redirectUri''),
         (''scope'', over ''oidcScope'' ''scope''),
         (''silentRedirectUri'', over ''oidcSilentRedirectUri'' ''silentRedirectUri''),
         (''postLogoutRedirectUri'', over ''oidcPostLogoutRedirectUri'' ''postLogoutRedirectUri''),
         (''acrValues'', over ''oidcAcrValues'' ''acrValues''),
         (''resource'', over ''oidcResource'' ''resource''),
         (''minAssurance'', level)] @ acr)))))))"

definition applyMagicLinkRuntimeOverrides :: "jsval \<Rightarrow> props \<Rightarrow> jsval" where
  "applyMagicLinkRuntimeOverrides magicLink runtime =
    (if \<not> truthy (propOf runtime ''magicLinkCallbackPath'') then magicLink
     else Obj [(''callbackPath'', propOf runtime ''magicLinkCallbackPath''),
       (''minAssurance'', coalesce (getp magicLink ''minAssurance'') (Str ''L2''))])"

definition identityMagicLink :: "jsval \<Rightarrow> jsval" where
  "identityMagicLink identity = (if getp identity ''mode'' = Str ''anonymous-allowed'' then getp identity ''magicLink'' else Undefined)"

definition applyIdentityRuntimeOverrides :: "jsval \<Rightarrow> jsval \<Rightarrow> jsval \<Rightarrow> jsval" where
  "applyIdentityRuntimeOverrides identity oidc magicLink =
    (let withOidc = setProp ''oidc'' (coalesce oidc (getp identity ''oidc'')) (ownProps identity) in
     if getp identity ''mode'' = Str ''oidc-required'' then Obj withOidc
     else Obj (setProp ''magicLink'' (coalesce magicLink (getp identity ''magicLink'')) withOidc))"

definition portsForRuntime :: "jsval \<Rightarrow> jsval \<Rightarrow> jsval" where
  "portsForRuntime prts serverUrl =
    (if \<not> truthy serverUrl then prts
     else Obj (spread (ownProps prts) [(''definitionSource'', Str ''reference-http''), (''draftStore'', Str ''reference-http''),
       (''submitTransport'', Str ''reference-http'')]))"

text \<open>Does the runtime configuration ask for a reference adapter the profile does not have?\<close>

definition overridesReference :: "props \<Rightarrow> jsval \<Rightarrow> jsval \<Rightarrow> bool" where
  "overridesReference runtime maxUploadBytes native =
    (list_ex (\<lambda>k. truthy (propOf runtime k)) ([''formspecServerUrl'', ''responseActionLedgerCapabilityUrl'', ''magicLinkCallbackPath'', ''surfaceBundle'']
       @ OIDC_TEXTS) \<or>
     propOf runtime ''oidcMinAssurance'' \<noteq> Undefined \<or> propOf runtime ''oidcAcrAssuranceMapJson'' \<noteq> Undefined \<or>
     maxUploadBytes \<noteq> Undefined \<or> native \<noteq> Undefined)"

definition formspecStackOf :: "jsval \<Rightarrow> props \<Rightarrow> jsval \<Rightarrow> jsval \<Rightarrow> jsval \<Rightarrow> jsval" where
  "formspecStackOf reference runtime native maxUploadBytes oidc =
    (let over = (\<lambda>k. coalesce (propOf runtime k) (getp reference k)) in
     if \<not> truthy reference \<and> \<not> overridesReference runtime maxUploadBytes native then Undefined
     else Obj (spread (ownProps reference) ((if truthy native then [(''nativePackageSigning'', native)] else []) @ [
       (''attachments'', if maxUploadBytes = Undefined then getp reference ''attachments'' else Obj [(''maxUploadBytes'', maxUploadBytes)]),
       (''formspecServerUrl'', over ''formspecServerUrl''),
       (''responseActionLedgerCapabilityUrl'', over ''responseActionLedgerCapabilityUrl''),
       (''oidc'', oidc),
       (''magicLinkCallbackPath'', over ''magicLinkCallbackPath''),
       (''surfaceBundle'', over ''surfaceBundle'')])))"

definition applyRuntimeOverrides :: "config_lib \<Rightarrow> jsval \<Rightarrow> props \<Rightarrow> config_error + jsval" where
  "applyRuntimeOverrides lib profile runtime =
    (let reference = getp (getp profile ''referenceAdapters'') ''formspecStack''; identity = getp profile ''identity'' in
     bindR (readNativePackageSigningConfig lib (Obj runtime)) (\<lambda>own.
     bindR (if own \<noteq> Undefined then Inr own else readNativePackageSigningConfig lib reference) (\<lambda>native.
     bindR (validatedAttachmentMaxUploadBytes (propOf runtime ''attachmentMaxUploadBytes'')) (\<lambda>ownMax.
     bindR (if ownMax \<noteq> Undefined then Inr ownMax
       else validatedAttachmentMaxUploadBytes (getp (getp reference ''attachments'') ''maxUploadBytes'')) (\<lambda>maxUploadBytes.
     bindR (applyOidcRuntimeOverrides lib (coalesce (getp reference ''oidc'') (getp identity ''oidc'')) runtime) (\<lambda>oidc.
     let magicLink = applyMagicLinkRuntimeOverrides (identityMagicLink identity) runtime;
         stack = formspecStackOf reference runtime native maxUploadBytes oidc in
     bindR (if propOf runtime ''scopeKey'' = Undefined then Inr (getp profile ''scopeKey'')
       else runtimeScopeKey (propOf runtime ''scopeKey'')) (\<lambda>key.
     bindR (throwIf (truthy (getp stack ''formspecServerUrl'') \<and> key = Undefined) ScopeKeyRequired) (\<lambda>_.
     Inr (Obj (spread (ownProps profile) [
       (''scopeKey'', key),
       (''identity'', applyIdentityRuntimeOverrides identity oidc magicLink),
       (''ports'', portsForRuntime (getp profile ''ports'') (getp stack ''formspecServerUrl'')),
       (''referenceAdapters'', if truthy stack then Obj (setProp ''formspecStack'' stack (ownProps (getp profile ''referenceAdapters'')))
          else getp profile ''referenceAdapters'')]))))))))))"

definition resolveActiveConfig :: "config_lib \<Rightarrow> jsval \<Rightarrow> props \<Rightarrow> config_error + jsval" where
  "resolveActiveConfig lib base runtime =
     applyRuntimeOverrides lib (if truthy (propOf runtime ''profileName'')
       then coalesce (getReferenceProfile (propOf runtime ''profileName'')) base else base) runtime"


section \<open>What a resolved configuration promises\<close>

definition serverUrlOf :: "jsval \<Rightarrow> jsval" where
  "serverUrlOf config = getp (getp (getp config ''referenceAdapters'') ''formspecStack'') ''formspecServerUrl''"

text \<open>A configuration as the composition roots read it.\<close>

definition configDataPorts :: "jsval \<Rightarrow> (string \<times> string) list" where
  "configDataPorts config = map (\<lambda>(k, v). (k, strOf v)) (ownProps (getp config ''ports''))"

lemma falsy_member [simp]: "\<not> truthy v \<Longrightarrow> getp v k = Undefined"
  by (cases v) auto

lemma formspecStackOf_Undefined: "\<not> truthy (formspecStackOf reference runtime native m oidc) \<Longrightarrow> \<not> truthy reference"
  by (auto simp: formspecStackOf_def Let_def split: if_splits)

lemma throwIf_passes: "throwIf b e = Inr x \<longleftrightarrow> \<not> b"
  by (simp add: throwIf_def)

lemma applyRuntimeOverrides_Inr:
  assumes "applyRuntimeOverrides lib profile runtime = Inr config"
  obtains key oidc stack where
    "if propOf runtime ''scopeKey'' = Undefined then key = getp profile ''scopeKey'' else runtimeScopeKey (propOf runtime ''scopeKey'') = Inr key"
    "truthy (getp stack ''formspecServerUrl'') \<longrightarrow> key \<noteq> Undefined"
    "\<not> truthy stack \<longrightarrow> \<not> truthy (getp (getp profile ''referenceAdapters'') ''formspecStack'')"
    "getp config ''scopeKey'' = key"
    "getp config ''identity'' = applyIdentityRuntimeOverrides (getp profile ''identity'') oidc
       (applyMagicLinkRuntimeOverrides (identityMagicLink (getp profile ''identity'')) runtime)"
    "getp config ''ports'' = portsForRuntime (getp profile ''ports'') (getp stack ''formspecServerUrl'')"
    "getp config ''referenceAdapters'' = (if truthy stack
       then Obj (setProp ''formspecStack'' stack (ownProps (getp profile ''referenceAdapters''))) else getp profile ''referenceAdapters'')"
proof -
  let ?identity = "getp profile ''identity''" and ?reference = "getp (getp profile ''referenceAdapters'') ''formspecStack''"
  obtain native m oidc key stack where stack: "stack = formspecStackOf ?reference runtime native m oidc"
    and key: "(if propOf runtime ''scopeKey'' = Undefined then Inr (getp profile ''scopeKey'')
       else runtimeScopeKey (propOf runtime ''scopeKey'')) = Inr key"
    and required: "\<not> (truthy (getp stack ''formspecServerUrl'') \<and> key = Undefined)"
    and config: "config = Obj (spread (ownProps profile) [
       (''scopeKey'', key),
       (''identity'', applyIdentityRuntimeOverrides ?identity oidc (applyMagicLinkRuntimeOverrides (identityMagicLink ?identity) runtime)),
       (''ports'', portsForRuntime (getp profile ''ports'') (getp stack ''formspecServerUrl'')),
       (''referenceAdapters'', if truthy stack then Obj (setProp ''formspecStack'' stack (ownProps (getp profile ''referenceAdapters'')))
          else getp profile ''referenceAdapters'')])"
    using assms unfolding applyRuntimeOverrides_def Let_def bindR_Inr_iff throwIf_passes sum.inject(2)
    by (elim exE conjE) (rule that [OF refl], assumption, assumption, erule sym)
  have "propOf runtime ''scopeKey'' = Undefined \<longrightarrow> key = getp profile ''scopeKey''"
    "propOf runtime ''scopeKey'' \<noteq> Undefined \<longrightarrow> runtimeScopeKey (propOf runtime ''scopeKey'') = Inr key"
    using key by (simp_all split: if_splits)
  then show thesis
    by (intro that [of key stack oidc])
      (simp_all add: required [simplified] stack formspecStackOf_Undefined config propOf_setProp del: falsy_member)
qed

lemma runtimeScopeKey_Inr: "runtimeScopeKey v = Inr k \<longleftrightarrow> (\<exists>s. v = Str s \<and> k = Str s \<and> length s = 64 \<and> list_all isHexLower s)"
  by (cases v) (auto simp: runtimeScopeKey_def parseScopeKey_def)

lemma configDataPorts_lookup:
  "getp config ''ports'' = Obj ps \<Longrightarrow> propOf ps p = Str s \<Longrightarrow> map_of (configDataPorts config) p = Some s"
  by (auto simp: configDataPorts_def propOf_def map_of_map comp_def split: option.splits)

text \<open>C17. A deployment with a backend is wired to it and scoped: whatever profile and runtime overrides
  it is resolved from, a configuration with a server address has a scope key, the runtime's own when it
  gives one (64 lowercase hex digits, never a fallback), and its data ports pass the check of the
  composition root.\<close>

theorem resolved_backend_is_scoped:
  assumes "resolveActiveConfig lib base runtime = Inr config" "truthy (serverUrlOf config)" "dataPorts rc = configDataPorts config"
  shows "getp config ''scopeKey'' \<noteq> Undefined \<and> assertReferenceHttpDataPorts rc = Inr () \<and>
    (propOf runtime ''scopeKey'' \<noteq> Undefined \<longrightarrow>
      (\<exists>k. propOf runtime ''scopeKey'' = Str k \<and> getp config ''scopeKey'' = Str k \<and> length k = 64 \<and> list_all isHexLower k))"
proof -
  obtain profile where "applyRuntimeOverrides lib profile runtime = Inr config"
    using assms(1) by (auto simp: resolveActiveConfig_def)
  then show ?thesis
  proof (rule applyRuntimeOverrides_Inr)
    fix key oidc stack
    assume key: "if propOf runtime ''scopeKey'' = Undefined then key = getp profile ''scopeKey'' else runtimeScopeKey (propOf runtime ''scopeKey'') = Inr key"
      and required: "truthy (getp stack ''formspecServerUrl'') \<longrightarrow> key \<noteq> Undefined"
      and none: "\<not> truthy stack \<longrightarrow> \<not> truthy (getp (getp profile ''referenceAdapters'') ''formspecStack'')"
      and config: "getp config ''scopeKey'' = key"
        "getp config ''ports'' = portsForRuntime (getp profile ''ports'') (getp stack ''formspecServerUrl'')"
        "getp config ''referenceAdapters'' = (if truthy stack
           then Obj (setProp ''formspecStack'' stack (ownProps (getp profile ''referenceAdapters''))) else getp profile ''referenceAdapters'')"
    have server: "truthy (getp stack ''formspecServerUrl'')"
      using assms(2) none by (auto simp: serverUrlOf_def config propOf_setProp split: if_splits)
    then have "getp config ''ports'' = Obj (spread (ownProps (getp profile ''ports'')) [(''definitionSource'', Str ''reference-http''),
        (''draftStore'', Str ''reference-http''), (''submitTransport'', Str ''reference-http'')])"
      by (simp add: config portsForRuntime_def)
    note lookup = configDataPorts_lookup [OF this]
    have "map_of (configDataPorts config) p = Some ''reference-http''" if "p \<in> {''definitionSource'', ''draftStore'', ''submitTransport''}" for p
      by (rule lookup) (use that in \<open>auto simp: propOf_setProp\<close>)
    then have "assertReferenceHttpDataPorts rc = Inr ()" by (simp add: assertReferenceHttpDataPorts_def assms(3))
    then show ?thesis using key required server by (auto simp: config runtimeScopeKey_Inr split: if_splits)
  qed
qed

definition sampleConfigLib :: config_lib where
  "sampleConfigLib = \<lparr>parseUrl = (\<lambda>s. Some \<lparr>urlProtocol = ''https:'', urlUsername = [], urlPassword = [], urlHash = []\<rparr>),
     isUri = (\<lambda>_. True), isLocale = (\<lambda>_. True), snapshotJson = Some, inputNames = [''document''], jsonParse = (\<lambda>_. None), toNumber = (\<lambda>_. NaN)\<rparr>"

definition sampleRuntime :: props where
  "sampleRuntime = [(''profileName'', Str ''publicPortal''), (''formspecServerUrl'', Str ''https://s''), (''scopeKey'', Str (replicate 64 (CHR ''a'')))]"

definition portsRoot :: "jsval \<Rightarrow> root_config" where
  "portsRoot config = \<lparr>formspecServerUrl = Some ''https://s'', nativeSigningConfigured = False, surfaceDeployment = False,
     dataPorts = configDataPorts config, oidcRequiredMode = False, identityPort = AnonymousKind, oidcClient = None\<rparr>"

theorem resolved_backend_is_scoped_witness:
  "\<exists>config. resolveActiveConfig sampleConfigLib Undefined sampleRuntime = Inr config \<and> truthy (serverUrlOf config) \<and>
     getp config ''scopeKey'' = Str (replicate 64 (CHR ''a'')) \<and> assertReferenceHttpDataPorts (portsRoot config) = Inr ()"
proof -
  have ok: "case resolveActiveConfig sampleConfigLib Undefined sampleRuntime of Inl _ \<Rightarrow> False
      | Inr config \<Rightarrow> truthy (serverUrlOf config) \<and> getp config ''scopeKey'' = Str (replicate 64 (CHR ''a''))" by code_simp
  then obtain config where config: "resolveActiveConfig sampleConfigLib Undefined sampleRuntime = Inr config"
      "truthy (serverUrlOf config)" "getp config ''scopeKey'' = Str (replicate 64 (CHR ''a''))"
    by (auto split: sum.splits)
  have "dataPorts (portsRoot config) = configDataPorts config" by (simp add: portsRoot_def)
  from resolved_backend_is_scoped [OF config(1,2) this] config show ?thesis by blast
qed


section \<open>What a signing configuration promises\<close>

lemma referencesOk_inj:
  assumes "referencesOk lib art ref v" "hasOwn (ownProps v) j" "hasOwn (ownProps v) k"
    and "(getp (getp v j) art, getp (getp v j) ref) = (getp (getp v k) art, getp (getp v k) ref)" "j \<noteq> k"
  shows False
proof -
  let ?f = "\<lambda>(k, a). (getp a art, getp a ref)"
  have mem: "hasOwn (ownProps v) k \<Longrightarrow> (k, getp v k) \<in> set (ownProps v)" for k
    by (auto simp: hasOwn_def propOf_def getp_ownProps dest: map_of_SomeD)
  have "inj_on ?f (set (ownProps v))" using assms(1) by (auto simp: referencesOk_def distinct_map)
  from inj_onD [OF this _ mem [OF assms(2)] mem [OF assms(3)]] show False using assms(4,5) by auto
qed

text \<open>An admitted signing configuration names one action per role and no action twice: each of the
  six roles has an action with an absolute artifact address, two different roles never trigger the
  same action, an application start is configured exactly with its lifecycle, and the module that
  signs is among the admitted modules exactly once where modules are pinned.\<close>

theorem signing_roles_have_own_actions:
  assumes "nativePackageSigningConfig lib v = Inr config" "r \<in> set SIGNING_ROLES"
  shows "absoluteUrlText lib (getp (getp (getp config ''roles'') r) ''artifactRef'') \<and>
    nonblankText (getp (getp (getp config ''roles'') r) ''actionRef'') \<and>
    (\<forall>r' \<in> set SIGNING_ROLES. r' \<noteq> r \<longrightarrow>
       (getp (getp (getp config ''roles'') r') ''artifactRef'', getp (getp (getp config ''roles'') r') ''actionRef'') \<noteq>
       (getp (getp (getp config ''roles'') r) ''artifactRef'', getp (getp (getp config ''roles'') r) ''actionRef'')) \<and>
    (hasOwn (ownProps config) ''modules'' \<longrightarrow>
       length (filter (\<lambda>pin. getp pin ''id'' = getp (getp config ''module'') ''id'' \<and> getp pin ''version'' = getp (getp config ''module'') ''version'')
         (arrItems (getp config ''modules''))) = 1)"
proof -
  have ok: "signingConfigOk lib config"
    using assms(1) by (auto simp: nativePackageSigningConfig_def bindR_Inr_iff split: option.splits)
  then have refs: "referencesOk lib ''artifactRef'' ''actionRef'' (getp config ''roles'')"
    and shape: "closedShape (getp config ''roles'') (SIGNING_ROLES @ filter (\<lambda>_. hasOwn (ownProps config) ''applicationLifecycle'') [''startApplication''])"
    and modules: "ifOwn config ''modules'' (modulesOk config)"
    unfolding signingConfigOk_def by blast+
  have own: "r \<in> set SIGNING_ROLES \<Longrightarrow> hasOwn (ownProps (getp config ''roles'')) r" for r
    using shape by (auto simp: closedShape_def list_all_iff split: jsval.splits)
  have "(r, getp (getp config ''roles'') r) \<in> set (ownProps (getp config ''roles''))"
    using own [OF assms(2)] by (auto simp: hasOwn_def propOf_def getp_ownProps dest: map_of_SomeD)
  then have "absoluteUrlText lib (getp (getp (getp config ''roles'') r) ''artifactRef'') \<and>
      nonblankText (getp (getp (getp config ''roles'') r) ''actionRef'')"
    using refs by (auto simp: referencesOk_def list_all_iff)
  moreover have "hasOwn (ownProps config) ''modules'' \<longrightarrow> length (filter (\<lambda>pin. getp pin ''id'' = getp (getp config ''module'') ''id'' \<and>
      getp pin ''version'' = getp (getp config ''module'') ''version'') (arrItems (getp config ''modules''))) = 1"
    using modules by (simp add: ifOwn_def modulesOk_def)
  ultimately show ?thesis using referencesOk_inj [OF refs own own] assms(2) by blast
qed

definition sampleSigning :: jsval where
  "sampleSigning = Obj [(''keyId'', Str ''k''), (''expectedIssuer'', Str ''https://i''),
     (''definition'', strs [(''url'', ''https://d''), (''version'', ''1'')]), (''bundle'', strs [(''id'', ''https://b''), (''version'', ''1'')]),
     (''module'', strs [(''id'', ''m''), (''version'', ''1'')]), (''initialLocale'', Str ''en''),
     (''roles'', Obj (map (\<lambda>r. (r, strs [(''artifactRef'', ''https://a''), (''actionRef'', r)])) SIGNING_ROLES)),
     (''bindings'', Obj [(''document'', strs [(''catalogRef'', ''https://c''), (''sourceRef'', ''s'')])]),
     (''readiness'', strs [(''instance'', ''i''), (''readyPath'', ''r''), (''ownedPath'', ''o'')]),
     (''modules'', Arr [strs [(''id'', ''m''), (''version'', ''1'')], strs [(''id'', ''n''), (''version'', ''1'')]])]"

theorem signing_roles_have_own_actions_witness:
  "nonblankText (getp (getp (getp sampleSigning ''roles'') ''sign'') ''actionRef'')"
proof -
  have "nativePackageSigningConfig sampleConfigLib sampleSigning = Inr sampleSigning" by code_simp
  from signing_roles_have_own_actions [OF this, of "''sign''"] show ?thesis by (simp add: SIGNING_ROLES_def)
qed

end
