(* ===== verification/Spec2Isabelle.thy ===== *)
theory Spec2Isabelle
  imports Multi_Party Submit_Flow Respondent_Place Form_Load Composition_Roots Lifecycle_Panel
    Controller_Cases Public_App Draft_Store_Safety Submit_Safety Session_Safety Action_Ledger
    Screener_Safety Form_Route Runtime_Config
begin

text \<open>
  Formspec Web is a browser application that serves Formspec forms to respondents. Its logic is
  written against ports (\<open>src/src/ports\<close>); an adapter stands behind each port, a composition root
  wires them, and policy documents decide which features are offered over which wiring. The
  theories below are shallow translations of that logic: one HOL function per function of the
  source, with the errors it throws as values, and the theorems that make it correct. All paths
  are under \<open>src/src/\<close>.

  \<^bold>\<open>How the parts work together.\<close> A composition root wires the slots and states what each feature
  is backed by; \<open>assertCompositionCoherence\<close> compares the statement with the markers of the
  adapters and freezes it. When a form is opened, the extractor reads the form's policy out of its
  definition, the resolver decides the features from the three layers (composition, organization,
  form), and the load boundary checks the embedding page and the identity claim before it offers
  the form. A response is then signed by the slots the profile requires, and sent through the
  submit path, with a payment hold around it and an offline queue in front of it where those
  features are enabled; forms driven by response actions go through the response-action
  controller instead. Against a real server, the drafts, the submission, the anonymous session that
  owns them and the ledger of the actions go through HTTP adapters that share what the tab remembers. The status surface reads snapshots and sends lifecycle actions. A deployment
  that serves an app bundle validates the bundle first.

  \<^bold>\<open>Which theory models which code.\<close>

  \<^item> \<open>Prelude\<close>: results (\<open>'e + 'a\<close>, \<open>bindR\<close>, \<open>throwIf\<close>, \<open>checks\<close>), JavaScript values (\<open>jsval\<close>) with
    property access, truthiness and spreading, and the string functions of the sources.
  \<^item> \<open>Feature_Policy\<close>: \<open>policy/feature-keys.ts\<close>, \<open>feature-port-map.ts\<close>, \<open>policy-shapes.ts\<close>, \<open>errors.ts\<close>.
  \<^item> \<open>Policy_Validation\<close>, \<open>Record_Lifecycle\<close>, \<open>Safe_Address_Policy\<close>, \<open>Policy_Resolver\<close>: \<open>policy/resolver.ts\<close>,
    from \<open>validateInput\<close> to \<open>resolveRuntimeFeatures\<close>. The decision per key is compared with a table
    of the documented rules.
  \<^item> \<open>Coherence\<close>: \<open>policy/sentinel.ts\<close>, \<open>policy/composition-coherence.ts\<close>.
  \<^item> \<open>Form_Extract\<close>: \<open>policy/extract-form-policy.ts\<close>, \<open>adapters/composing/form-runtime-policy-extractor.ts\<close>.
  \<^item> \<open>Composition_Roots\<close>: \<open>composition/default.ts\<close>, \<open>route-narrowing.ts\<close>, \<open>unavailable.ts\<close>.
  \<^item> \<open>Keys\<close>: \<open>shared/idempotency-key.ts\<close>, \<open>shared/scope-key.ts\<close>.
  \<^item> \<open>Submit_Transport\<close>, \<open>Offline_Queue\<close>, \<open>Payment_Rail\<close>: the ports and their in-memory adapters
    (\<open>ports/\<close>, \<open>adapters/stub/\<close>). The state of an adapter is a record that its operations return
    updated; the contract of the port is a locale, interpreted on the adapter.
  \<^item> \<open>Submit_Flow\<close>, \<open>Multi_Party\<close>, \<open>Identity\<close>, \<open>Embed\<close>: \<open>app/respondent-flow.ts\<close> by subject, with the
    ports they call; \<open>Identity_Adapters\<close>: \<open>adapters/identity/\<close>.
  \<^item> \<open>Form_Load\<close>: \<open>bootIdentity\<close> and \<open>createReadyState\<close> of \<open>app/RespondentRuntime.tsx\<close>.
  \<^item> \<open>Safe_Address_Runtime\<close>: \<open>app/safe-address.ts\<close>; \<open>Respondent_Place\<close>: the snapshot guards of
    \<open>shared/respondent-place.ts\<close> and \<open>shared/respondent-history.ts\<close>.
  \<^item> \<open>Lifecycle_Client\<close>: the lifecycle port and its in-memory client; \<open>Lifecycle_Panel\<close>: the lifecycle
    panel of \<open>app/StatusRuntime.tsx\<close>.
  \<^item> \<open>Response_Evidence\<close>, \<open>Response_Controller\<close>, \<open>Response_Calls\<close>: \<open>shared/response-action-controller.ts\<close> and
    \<open>shared/task-draft-wire.ts\<close>. The asynchronous functions are cut at their awaits: a call in
    flight is a \<open>frame\<close>, \<open>resume\<close> runs it to its next await, and \<open>ctlStep\<close> enters or resumes any call.
    \<open>Controller_Safety\<close> holds the invariants of all interleavings, \<open>Controller_Cases\<close> evaluated runs.
  \<^item> \<open>Public_App\<close>: \<open>verifying-surface/respondent/public-app-validation.ts\<close>.
  \<^item> \<open>Draft_Bindings\<close>: \<open>shared/browser-scoped-metadata.ts\<close> and \<open>adapters/http/draft-binding-registry.ts\<close>.
  \<^item> \<open>Http_Draft_Store\<close> and \<open>Draft_Store_Safety\<close>, \<open>Http_Submit\<close> and \<open>Submit_Safety\<close>, \<open>Anonymous_Session\<close> and
    \<open>Session_Safety\<close>: \<open>draft-store.ts\<close>, \<open>submit-transport.ts\<close> and \<open>anonymous-session.ts\<close> of \<open>adapters/http/\<close>. The
    state is the adapter and the list of its calls, a call is the await it is suspended at, and a
    step begins a call or resumes one with an answer of the outside world. The first theory of a
    pair holds the model, the second the invariants of all interleavings and evaluated runs.
  \<^item> \<open>Action_Ledger\<close>: \<open>adapters/http/response-action-ledger.ts\<close>.
  \<^item> \<open>Screener_Coordinator\<close> and \<open>Screener_Safety\<close>: \<open>shared/native-screener-coordinator.ts\<close>, in the same form; a
    step also says which owner contexts and facts still hold at that instant and what the clock reads.
  \<^item> \<open>Form_Route\<close>: the route parsers of \<open>app/\<close>, the surface router and \<open>chooseComposition\<close>, which leads from an
    address to one of the roots of \<open>Composition_Roots\<close>.
  \<^item> \<open>Runtime_Config\<close>: \<open>config/runtime.ts\<close>, \<open>config/native-package-signing.ts\<close> and the reference profiles.
  \<^item> This theory: a form loaded over a frozen composition, from the boot assertion to the adapters
    that serve its features.

  \<^bold>\<open>What the lemmas show.\<close> Each component has lemmas that characterise its functions on every branch
  (\<open>f x = Inr y\<close> if and only if the guards pass, and the error that is thrown first otherwise), an
  invariant its operations preserve where it has state, and the properties, numbered C1 onwards,
  that use them. The locales \<open>submit_transport\<close>, \<open>submit_queue\<close>, \<open>payment_rail\<close>, \<open>payment_submit\<close>,
  \<open>policy_extractor\<close>, \<open>identity_provider\<close>, \<open>composite_provider\<close>, \<open>embed_transport\<close>, \<open>safe_address_directory\<close> and
  \<open>lifecycle_client\<close> state the contracts of the ports, \<open>metadata_store\<close> that of a tab's storage; each is
  interpreted on the adapters of the source.
  The relations of reachable states (\<open>reach\<close>, \<open>draftReach\<close> and their like) hold every interleaving of calls and answers;
  what a theorem needs beyond reachability is a hypothesis of its own, such as \<open>namedCalls\<close>, that no invocation
  id of the controller is empty: the source holds a controller by the truth of the id, so an
  operation with an empty one runs beside another (\<open>empty_id_runs_beside\<close>). Where the code breaks a promise of its
  own, the property states the break as it happens.

  \<^bold>\<open>Parameters.\<close> Code that is not in the repository is an argument: the \<open>uuid\<close> package, SHA-256, the
  canonical JSON encoding, the functions of the Formspec engine (validation, action and request
  resolution, response actions, the locale store), JSON-schema validation, Web Storage quotas, the form-id
  resolver, the \<open>URL\<close> constructor, \<open>Date.parse\<close>, \<open>JSON.parse\<close>, locale and URI checks, the retention and hydration
  of screener runs, clocks and random bytes. Their documented
  behaviour is a named hypothesis where a theorem needs it, and a witness instantiates it.

  \<^bold>\<open>Bounds.\<close> There is no fuel. Loops are structural recursions over the lists they walk, or over an
  explicit measure: the queue's replay loop over the entries present when it starts, \<open>drive\<close> over
  the awaits an operation has left. Strings are lists of characters below 256, so code points
  beyond Latin-1 are out of scope; numbers are rationals or integers as each theory says, without
  rounding.

  \<^bold>\<open>Not modelled.\<close> Rendering, effects and DOM events of the React runtimes; the HTTP client and the
  adapters that only fetch and validate (their requests and replies are values of the models above); the hosts of WASM engines
  and of the native package, which wrap code outside the repository; the worker protocols; the
  test suites. Message texts are left out, their error codes and details are kept. Within the
  modelled functions, these are abstracted: listeners are logs of the values they are called with,
  \<open>Object.freeze\<close> has no counterpart in a pure language, replaying the queue runs without other
  queue operations in between, and a listener or port that calls back into the controller
  synchronously, as well as console diagnostics, is left out.
\<close>

section \<open>A form loaded over a composition\<close>

text \<open>
  The load boundary of a composition: the extractor, the capabilities and the organization's policy
  it reads are those the composition root wired.
\<close>

definition loadEnv ::
  "composition \<Rightarrow> (jsval \<Rightarrow> FormDefinition) \<Rightarrow> bool \<Rightarrow> bool \<Rightarrow> string option \<Rightarrow> bool \<Rightarrow> load_env" where
  "loadEnv c parse oidcMode embeddedPage hostOrigin online =
     \<lparr>composition_mode = compMode (slots c), loadCapabilities = instanceCapabilities (slots c),
      orgRuntimePolicy = orgPolicy c, extractPolicy = (\<lambda>def. Inr (formExtractor c (parse def))),
      identityOidcRequired = oidcMode, pageEmbedded = embeddedPage, pageHostOrigin = hostOrigin, onLine = online\<rparr>"

lemma admitted_profile:
  assumes "createReadyState url discover (loadEnv c parse oidcMode emb host online) claim def s = (Inr (Admitted p), s')"
  shows "resolveRuntimeFeatures url (routeInput c (formExtractor c (parse def))) = Inr p"
  using assms by (auto simp: createReadyState_admitted loadProfile_Inr loadEnv_def routeInput_def)

lemma enabled_capability:
  assumes "resolveRuntimeFeatures url input = Inr p" "k \<in> set (enabled p)"
  shows "canSatisfy (mode input) (propOf (inst input) (keyName k))"
  using resolve_enabled_iff [OF assms(1), of k] validateInput_modes [OF resolve_inv(1) [OF assms(1)]] assms(2)
  by (simp add: decideFor_def decide_enabled_iff)

lemma coherent_port:
  assumes "coherent c" "declaredFor c k \<noteq> Str ''unavailable''"
  shows "featurePortNames k \<noteq> [] \<and> (\<forall>q\<in>set (featurePortNames k). wired c q \<and>
    agrees (compMode c) (declaredFor c k) (ports c q))"
  using assms(1) [unfolded coherent_def, THEN spec [of _ k]] assms(2)
  by (auto simp: optedOut_def split: if_splits)

text \<open>C2. A feature that a loaded production form shows is really served: over a composition that passed
  the boot assertion, every feature of an admitted form's profile has a port, and every port of it
  is wired with an adapter that is neither an unavailable sentinel nor a demo stub.\<close>

theorem admitted_features_are_served:
  assumes "frozen c = Inr c'" "compMode (slots c) = Production"
    and "createReadyState url discover (loadEnv c parse oidcMode emb host online) claim def s = (Inr (Admitted p), s')"
    and "k \<in> set (enabled p)"
  shows "featurePortNames k \<noteq> [] \<and> (\<forall>q\<in>set (featurePortNames k). wired (slots c) q \<and>
    \<not> isUnavailableAdapter (ports (slots c) q) \<and> \<not> isDemoStubAdapter (ports (slots c) q))"
proof -
  have "canSatisfy Production (declaredFor (slots c) k)"
    using enabled_capability [OF admitted_profile [OF assms(3)] assms(4)] assms(2)
    by (simp add: routeInput_def declaredFor_def)
  then have "declaredFor (slots c) k = Str ''available''" by (simp add: canSatisfy_iff)
  moreover have "coherent (slots c)" using assms(1) by (simp add: frozen_Inr)
  ultimately show ?thesis using coherent_port [of "slots c" k] by (auto simp: agrees_def)
qed

definition servedComposition :: composition where
  "servedComposition = \<lparr>slots = sampleComposition servedCaps, orgPolicy = allowedOrgPolicy,
     formExtractor = compositeExtractor [paymentExtractor]\<rparr>"

definition feeForm :: FormDefinition where
  "feeForm = \<lparr>items = [], extensions = Obj [(''x-formspec-payment-required'', Bool True)],
     governance = Undefined, definitionParties = Undefined\<rparr>"

theorem admitted_features_are_served_witness:
  "\<exists>p. createReadyState (\<lambda>_. None) stubDiscover (loadEnv servedComposition (\<lambda>_. feeForm) False False None True)
     None Undefined emptySession = (Inr (Admitted p), emptySession) \<and> Payment \<in> set (enabled p) \<and>
     \<not> isDemoStubAdapter (ports (slots servedComposition) PaymentRailAdapter)"
proof -
  let ?in = "\<lparr>mode = Production, inst = servedCaps, org = allowedOrgPolicy,
      form = compositeExtractor [paymentExtractor] feeForm\<rparr>"
  have "map_sum id enabled (resolveRuntimeFeatures (\<lambda>_. None) ?in) = Inr [Payment]" by code_simp
  then obtain p where p: "resolveRuntimeFeatures (\<lambda>_. None) ?in = Inr p" "enabled p = [Payment]"
    by (auto dest!: map_sum_InrD)
  have "isOk (freezeComposition (slots servedComposition))" unfolding servedComposition_def by code_simp
  then have f: "frozen servedComposition = Inr servedComposition" by (auto simp: frozen_def isOk_iff)
  have m: "compMode (slots servedComposition) = Production" by (simp add: servedComposition_def sampleComposition_def)
  have floor: "formAssuranceFloorForDefinition Undefined = Inr None" by code_simp
  have load: "loadProfile (\<lambda>_. None) (loadEnv servedComposition (\<lambda>_. feeForm) False False None True) None Undefined
      = Inr (p, None)"
    using p floor by (simp add: loadProfile_Inr loadEnv_def servedComposition_def sampleComposition_def
        assertIdentityPolicySatisfied_def verifyEmbedOriginAllowed_def)
  have a: "createReadyState (\<lambda>_. None) stubDiscover (loadEnv servedComposition (\<lambda>_. feeForm) False False None True)
     None Undefined emptySession = (Inr (Admitted p), emptySession)"
    by (simp add: createReadyState_admitted load identityClaimMeetsAssurance_def)
  have k: "Payment \<in> set (enabled p)" using p by simp
  have q: "PaymentRailAdapter \<in> set (featurePortNames Payment)" by (simp add: featurePortNames_def)
  from admitted_features_are_served [OF f m a k] q have "\<not> isDemoStubAdapter (ports (slots servedComposition) PaymentRailAdapter)"
    by blast
  with a k show ?thesis by blast
qed

end
